(* ===== verification/Prelude.thy ===== *)
theory Prelude
  imports Main "HOL-Library.Word" "HOL-Library.Signed_Division"
begin

text \<open>
  Shared vocabulary of the development: the machine integers of the C code, bit-fields,
  the outcome type of a C function, and the lemma collections the component theories use.

  \<^item> \<open>int\<close>, \<open>int32_t\<close> and \<open>uint32_t\<close> are all \<open>i32\<close>, a 32-bit pattern. A C operator
    whose result depends on signedness is written with the operator that has it
    (\<open><s\<close> for a signed comparison, \<open><\<close> for an unsigned one, \<open>signed_drop_bit\<close> for \<open>>>\<close>
    on an \<open>int\<close>). Signed additions, subtractions and multiplications wrap around, as the
    simulator relies on when it adds register contents.
  \<^item> A bit-field of a union is a \<open>fld\<close> (read) or a \<open>set_fld\<close> (assignment, which
    truncates to the width of the field), with the little-endian layout of the hosts the
    simulator is built for.
  \<^item> A C function returns (\<open>Done\<close>), ends the process (\<open>Terminated\<close>, with the exit
    status), or does something C gives no meaning to (\<open>Fault\<close>).
\<close>

unbundle bit_operations_syntax

named_theorems bits \<open>bit-level characterisations of the model's word operations\<close>
named_theorems frame \<open>what an operation leaves unchanged\<close>
named_theorems wf_intro \<open>preservation of well-formedness\<close>

subsection \<open>Machine integers and bit-fields\<close>

type_synonym i32 = "32 word"
type_synonym i64 = "64 word"
type_synonym u16 = "16 word"
type_synonym u8 = "8 word"

definition fld :: "nat \<Rightarrow> nat \<Rightarrow> 'a::len word \<Rightarrow> 'a word" where
  "fld lo len w = take_bit len (drop_bit lo w)"

definition set_fld :: "nat \<Rightarrow> nat \<Rightarrow> 'a::len word \<Rightarrow> 'a word \<Rightarrow> 'a word" where
  "set_fld lo len v w =
     (w AND NOT (push_bit lo (mask len))) OR push_bit lo (take_bit len v)"

lemma bit_fld [bits]: "bit (fld lo len w) n \<longleftrightarrow> n < len \<and> bit w (lo + n)"
  by (simp add: fld_def bit_simps)

lemma bit_set_fld [bits]:
  "bit (set_fld lo len v w) n \<longleftrightarrow>
     n < LENGTH('a) \<and> (if lo \<le> n \<and> n < lo + len then bit v (n - lo) else bit w n)"
  for v w :: "'a::len word"
  by (auto simp: set_fld_def bit_simps dest: bit_imp_le_length)

text \<open>The simplifier turns a shift by one into a product with two.\<close>

lemma bit_times_2 [bits]:
  "bit (w * 2) n \<longleftrightarrow> n < LENGTH('a) \<and> 0 < n \<and> bit w (n - 1)"
  for w :: "'a::len word"
  using bit_push_bit_iff [of 1 w n] by (auto simp: bit_simps)

lemma fld_set_fld_same:
  "lo + len \<le> LENGTH('a) \<Longrightarrow> fld lo len (set_fld lo len v w) = take_bit len v"
  for v w :: "'a::len word"
  by (rule bit_word_eqI) (auto simp: bits bit_simps)

lemma fld_set_fld_disjoint:
  "lo' + len' \<le> lo \<or> lo + len \<le> lo' \<Longrightarrow> fld lo len (set_fld lo' len' v w) = fld lo len w"
  for v w :: "'a::len word"
  by (rule bit_word_eqI) (auto simp: bits bit_simps dest: bit_imp_le_length)

lemma fld_0 [simp]: "fld lo len 0 = 0"
  by (simp add: fld_def)

lemma take_bit_fld [simp]: "take_bit len (fld lo len w) = fld lo len w"
  by (simp add: fld_def)

lemma unat_take_bit_less: "unat (take_bit n w) < 2 ^ n"
  for w :: "'a::len word"
  by (simp add: unsigned_take_bit_eq)

lemma take_bit_word_self: "unat w < 2 ^ n \<Longrightarrow> take_bit n w = w"
  for w :: "'a::len word"
  by (rule word_unat_eq_iff [THEN iffD2]) (simp add: unsigned_take_bit_eq take_bit_nat_eq_self)

lemma fld_less: "unat (fld lo len w) < 2 ^ len"
  for w :: "'a::len word"
  by (simp add: fld_def unat_take_bit_less)

subsection \<open>Word equality bit by bit\<close>

definition bit_positions :: "nat list" where
  "bit_positions = [0, 1, 2, 3, 4, 5, 6, 7, 8, 9, 10, 11, 12, 13, 14, 15, 16, 17, 18, 19,
     20, 21, 22, 23, 24, 25, 26, 27, 28, 29, 30, 31]"

lemma bit_positions_upt: "bit_positions = [0..<32]"
  by (simp add: bit_positions_def upt_conv_Cons)

lemma set_bit_positions: "set bit_positions = {..<32}"
  by (auto simp: bit_positions_upt)

lemma word32_eqI:
  "list_all (\<lambda>n. bit a n = bit b n) bit_positions \<Longrightarrow> a = b" for a b :: i32
  by (rule bit_word_eqI) (auto simp: list_all_iff set_bit_positions)

lemma word32_disjointI:
  "list_all (\<lambda>n. \<not> (bit a n \<and> bit b n)) bit_positions \<Longrightarrow> a + b = a OR b" for a b :: i32
proof -
  assume *: "list_all (\<lambda>n. \<not> (bit a n \<and> bit b n)) bit_positions"
  have "\<not> bit a n \<or> \<not> bit b n" for n
    using * bit_imp_le_length [of a n] by (auto simp: list_all_iff set_bit_positions)
  then show "a + b = a OR b"
    by (rule disjunctive_add)
qed

text \<open>The C expression \<open>1 << n\<close>, and the test of a bit with it.\<close>

definition shl1 :: "nat \<Rightarrow> i32" where
  "shl1 n = push_bit n 1"

lemma bit_shl1 [bits]: "bit (shl1 n) i \<longleftrightarrow> i = n \<and> n < 32"
  by (auto simp: shl1_def bit_simps)

lemma and_shl1_iff_bit [bits]: "w AND shl1 n = 0 \<longleftrightarrow> \<not> bit w n" for w :: i32
  by (simp add: shl1_def bit_iff_and_push_bit_not_eq_0)

text \<open>The sign extension of the low \<open>n\<close> bits of a word: the immediates of the ISA.\<close>

definition sext :: "nat \<Rightarrow> i32 \<Rightarrow> i32" where
  "sext n w = signed_take_bit (n - 1) w"

lemma bit_sext [bits]:
  "0 < n \<Longrightarrow> bit (sext n w) i \<longleftrightarrow> i < 32 \<and> (if i < n then bit w i else bit w (n - 1))"
  by (cases "i = n - 1") (auto simp: sext_def bit_simps min_def dest: bit_imp_le_length)

lemma sint_sext_bounds:
  "0 < n \<Longrightarrow> n \<le> 32 \<Longrightarrow> - (2 ^ (n - 1)) \<le> sint (sext n w) \<and> sint (sext n w) < 2 ^ (n - 1)"
proof -
  assume n: "0 < n" "n \<le> 32"
  have "sint (sext n w) = signed_take_bit (n - 1) (sint w)"
    by (rule bit_eqI) (use n in \<open>auto simp: sext_def bit_simps bit_sint_iff min_def\<close>)
  then show ?thesis
    by (simp add: signed_take_bit_int_greater_eq_minus_exp signed_take_bit_int_less_exp)
qed

text \<open>
  The way an instruction-set manual gives an immediate: a list of (destination bit, source
  bit, width), one entry per field of the instruction word.
\<close>

fun gather :: "(nat \<times> nat \<times> nat) list \<Rightarrow> i32 \<Rightarrow> i32" where
  "gather [] w = 0"
| "gather ((d, s, l) # fs) w = push_bit d (fld s l w) OR gather fs w"

subsection \<open>Outcomes of a C function\<close>

datatype fault =
    OutOfBlock   \<comment> \<open>an access outside the block a pointer was made from\<close>
  | NullPointer  \<comment> \<open>a null pointer dereferenced\<close>
  | UseAfterFree \<comment> \<open>an access to a block after it was freed\<close>

datatype 'a run =
    Done 'a
  | Terminated i32
  | Fault fault

fun bind_run :: "'a run \<Rightarrow> ('a \<Rightarrow> 'b run) \<Rightarrow> 'b run" where
  "bind_run (Done a) f = f a"
| "bind_run (Terminated c) f = Terminated c"
| "bind_run (Fault e) f = Fault e"

lemma bind_run_Done_iff:
  "bind_run r f = Done b \<longleftrightarrow> (\<exists>a. r = Done a \<and> f a = Done b)"
  by (cases r) auto

lemma bind_run_Fault_iff:
  "bind_run r f = Fault e \<longleftrightarrow> r = Fault e \<or> (\<exists>a. r = Done a \<and> f a = Fault e)"
  by (cases r) auto

lemma bind_run_assoc: "bind_run (bind_run r f) g = bind_run r (\<lambda>a. bind_run (f a) g)"
  by (cases r) auto

text \<open>Every normal result of a run satisfies a predicate.\<close>

definition run_all :: "('a \<Rightarrow> bool) \<Rightarrow> 'a run \<Rightarrow> bool" where
  "run_all P r \<longleftrightarrow> (case r of Done a \<Rightarrow> P a | _ \<Rightarrow> True)"

lemma run_all_simps [simp]:
  "run_all P (Done a) \<longleftrightarrow> P a" "run_all P (Terminated c)" "run_all P (Fault e)"
  by (simp_all add: run_all_def)

lemma run_all_bind:
  "run_all (\<lambda>a. run_all P (f a)) r \<Longrightarrow> run_all P (bind_run r f)"
  by (cases r) auto

lemma run_allD: "run_all P r \<Longrightarrow> r = Done a \<Longrightarrow> P a"
  by simp

lemma run_all_mono: "run_all P r \<Longrightarrow> (\<And>a. P a \<Longrightarrow> Q a) \<Longrightarrow> run_all Q r"
  by (cases r) auto

text \<open>A computation that may not return.\<close>

type_synonym 'a comp = "'a run option"

definition bind_comp :: "'a comp \<Rightarrow> ('a \<Rightarrow> 'b comp) \<Rightarrow> 'b comp" where
  "bind_comp m f =
     Option.bind m (\<lambda>r. case r of Done a \<Rightarrow> f a | Terminated k \<Rightarrow> Some (Terminated k)
                               | Fault e \<Rightarrow> Some (Fault e))"

lemma bind_comp_simps [simp]:
  "bind_comp None f = None"
  "bind_comp (Some (Done a)) f = f a"
  "bind_comp (Some (Terminated k)) f = Some (Terminated k)"
  "bind_comp (Some (Fault e)) f = Some (Fault e)"
  by (simp_all add: bind_comp_def)

lemma bind_comp_mono [partial_function_mono]:
  assumes "mono_option m" and "\<And>a. mono_option (\<lambda>f. g a f)"
  shows "mono_option (\<lambda>f. bind_comp (m f) (\<lambda>a. g a f))"
  unfolding bind_comp_def
  by (intro bind_mono assms, case_tac y) (simp_all add: assms option.const_mono)

text \<open>An array as the list of its elements, and a string literal as its bytes.\<close>

definition get_at :: "'a list \<Rightarrow> nat \<Rightarrow> 'a run" where
  "get_at xs k = (if k < length xs then Done (xs ! k) else Fault OutOfBlock)"

definition put_at :: "'a list \<Rightarrow> nat \<Rightarrow> 'a \<Rightarrow> 'a list run" where
  "put_at xs k v = (if k < length xs then Done (xs[k := v]) else Fault OutOfBlock)"

definition ascii :: "string \<Rightarrow> u8 list" where
  "ascii s = map of_char s"

text \<open>\<open>for (i = 0; i < n; i++)\<close> is a \<open>for_each\<close> over \<open>[0..<n]\<close>.\<close>

fun for_each :: "nat list \<Rightarrow> (nat \<Rightarrow> 's \<Rightarrow> 's run) \<Rightarrow> 's \<Rightarrow> 's run" where
  "for_each [] f s = Done s"
| "for_each (i # is) f s = bind_run (f i s) (for_each is f)"

lemma for_each_append: "for_each (is @ js) f s = bind_run (for_each is f s) (for_each js f)"
proof (induction "is" arbitrary: s)
  case (Cons i "is")
  then have "for_each (is @ js) f = (\<lambda>s. bind_run (for_each is f s) (for_each js f))"
    by blast
  then show ?case by (simp add: bind_run_assoc)
qed simp

lemma for_each_Suc: "for_each [0..<Suc n] f s = bind_run (for_each [0..<n] f s) (f n)"
proof -
  have "for_each [n] f = f n"
  proof
    fix s show "for_each [n] f s = f n s" by (cases "f n s") simp_all
  qed
  then show ?thesis by (simp add: for_each_append)
qed

text \<open>A loop with an invariant: it returns, and the invariant holds at the end.\<close>

lemma for_each_inv:
  assumes "I m s"
    and "\<And>i s. m \<le> i \<Longrightarrow> i < n \<Longrightarrow> I i s \<Longrightarrow> \<exists>s'. f i s = Done s' \<and> I (Suc i) s'"
    and "m \<le> n"
  shows "\<exists>s'. for_each [m..<n] f s = Done s' \<and> I n s'"
  using assms(3,2)
proof (induction n rule: dec_induct)
  case base
  then show ?case using assms(1) by simp
next
  case (step n)
  then obtain s1 where s1: "for_each [m..<n] f s = Done s1" "I n s1" by (auto simp: less_Suc_eq)
  obtain s2 where s2: "f n s1 = Done s2" "I (Suc n) s2"
    using step.prems [of n s1] step.hyps s1(2) by auto
  have "for_each [n] f s1 = Done s2" using s2(1) by simp
  then show ?case using step.hyps s1 s2 by (auto simp: for_each_append)
qed

lemma for_each_returns:
  "(\<And>i s. i \<in> set is \<Longrightarrow> \<exists>s'. f i s = Done s') \<Longrightarrow> \<exists>s'. for_each is f s = Done s'"
proof (induction "is" arbitrary: s)
  case (Cons i "is")
  obtain s1 where "f i s = Done s1" using Cons.prems [of i s] by auto
  then show ?case using Cons by simp
qed simp

end
