(* ===== verification/Opcode.thy ===== *)
theory Opcode
  imports Prelude
begin

text \<open>
  \<open>tools/opcode.h\<close>: the constants of the instruction set, the unions \<open>INST\<close> and
  \<open>INSTC\<close> through which the simulator reads and builds instructions, the 64-bit
  \<open>COUNTER\<close> and the \<open>CSR\<close> structure. An enumerator is an abbreviation for its value, so
  that a comparison with it computes; a member of a union is an abbreviation for its
  bit-field. Two names are primed where the source ends them with an underscore.
\<close>

subsection \<open>Constants\<close>

text \<open>Major opcodes, \<open>inst[6:0]\<close>.\<close>

abbreviation (input) OP_AUIPC :: i32 where "OP_AUIPC \<equiv> 0x17"
abbreviation (input) OP_LUI :: i32 where "OP_LUI \<equiv> 0x37"
abbreviation (input) OP_JAL :: i32 where "OP_JAL \<equiv> 0x6f"
abbreviation (input) OP_JALR :: i32 where "OP_JALR \<equiv> 0x67"
abbreviation (input) OP_BRANCH :: i32 where "OP_BRANCH \<equiv> 0x63"
abbreviation (input) OP_LOAD :: i32 where "OP_LOAD \<equiv> 0x03"
abbreviation (input) OP_STORE :: i32 where "OP_STORE \<equiv> 0x23"
abbreviation (input) OP_ARITHI :: i32 where "OP_ARITHI \<equiv> 0x13"
abbreviation (input) OP_ARITHR :: i32 where "OP_ARITHR \<equiv> 0x33"
abbreviation (input) OP_FENCE :: i32 where "OP_FENCE \<equiv> 0x0f"
abbreviation (input) OP_SYSTEM :: i32 where "OP_SYSTEM \<equiv> 0x73"

text \<open>\<open>func3\<close> of the branches.\<close>

abbreviation (input) OP_BEQ :: i32 where "OP_BEQ \<equiv> 0"
abbreviation (input) OP_BNE :: i32 where "OP_BNE \<equiv> 1"
abbreviation (input) OP_BLT :: i32 where "OP_BLT \<equiv> 4"
abbreviation (input) OP_BGE :: i32 where "OP_BGE \<equiv> 5"
abbreviation (input) OP_BLTU :: i32 where "OP_BLTU \<equiv> 6"
abbreviation (input) OP_BGEU :: i32 where "OP_BGEU \<equiv> 7"

text \<open>\<open>func3\<close> of the loads.\<close>

abbreviation (input) OP_LB :: i32 where "OP_LB \<equiv> 0"
abbreviation (input) OP_LH :: i32 where "OP_LH \<equiv> 1"
abbreviation (input) OP_LW :: i32 where "OP_LW \<equiv> 2"
abbreviation (input) OP_LBU :: i32 where "OP_LBU \<equiv> 4"
abbreviation (input) OP_LHU :: i32 where "OP_LHU \<equiv> 5"

text \<open>\<open>func3\<close> of the stores.\<close>

abbreviation (input) OP_SB :: i32 where "OP_SB \<equiv> 0"
abbreviation (input) OP_SH :: i32 where "OP_SH \<equiv> 1"
abbreviation (input) OP_SW :: i32 where "OP_SW \<equiv> 2"

text \<open>\<open>func3\<close> of the register and immediate arithmetic.\<close>

abbreviation (input) OP_ADD :: i32 where "OP_ADD \<equiv> 0"
abbreviation (input) OP_SLL :: i32 where "OP_SLL \<equiv> 1"
abbreviation (input) OP_SLT :: i32 where "OP_SLT \<equiv> 2"
abbreviation (input) OP_SLTU :: i32 where "OP_SLTU \<equiv> 3"
abbreviation (input) OP_XOR :: i32 where "OP_XOR \<equiv> 4"
abbreviation (input) OP_SR :: i32 where "OP_SR \<equiv> 5"
abbreviation (input) OP_OR :: i32 where "OP_OR \<equiv> 6"
abbreviation (input) OP_AND :: i32 where "OP_AND \<equiv> 7"

text \<open>\<open>func7\<close> of the arithmetic.\<close>

abbreviation (input) FN_RV32I :: i32 where "FN_RV32I \<equiv> 0x00"
abbreviation (input) FN_RV32M :: i32 where "FN_RV32M \<equiv> 0x01"
abbreviation (input) FN_SRL :: i32 where "FN_SRL \<equiv> 0x00"
abbreviation (input) FN_SRA :: i32 where "FN_SRA \<equiv> 0x20"
abbreviation (input) FN_ZEXT :: i32 where "FN_ZEXT \<equiv> 0x04"
abbreviation (input) FN_MINMAX :: i32 where "FN_MINMAX \<equiv> 0x05"
abbreviation (input) FN_SHADD :: i32 where "FN_SHADD \<equiv> 0x10"
abbreviation (input) FN_BSET :: i32 where "FN_BSET \<equiv> 0x14"
abbreviation (input) FN_ANDN :: i32 where "FN_ANDN \<equiv> 0x20"
abbreviation (input) FN_BCLR :: i32 where "FN_BCLR \<equiv> 0x24"
abbreviation (input) FN_CLZ :: i32 where "FN_CLZ \<equiv> 0x30"
abbreviation (input) FN_BINV :: i32 where "FN_BINV \<equiv> 0x34"
abbreviation (input) FN_REV :: i32 where "FN_REV \<equiv> 0x34"

text \<open>\<open>func3\<close> of the M extension.\<close>

abbreviation (input) OP_MUL :: i32 where "OP_MUL \<equiv> 0"
abbreviation (input) OP_MULH :: i32 where "OP_MULH \<equiv> 1"
abbreviation (input) OP_MULSU :: i32 where "OP_MULSU \<equiv> 2"
abbreviation (input) OP_MULU :: i32 where "OP_MULU \<equiv> 3"
abbreviation (input) OP_DIV :: i32 where "OP_DIV \<equiv> 4"
abbreviation (input) OP_DIVU :: i32 where "OP_DIVU \<equiv> 5"
abbreviation (input) OP_REM :: i32 where "OP_REM \<equiv> 6"
abbreviation (input) OP_REMU :: i32 where "OP_REMU \<equiv> 7"

text \<open>\<open>func3\<close> of the system instructions.\<close>

abbreviation (input) OP_ECALL :: i32 where "OP_ECALL \<equiv> 0"
abbreviation (input) OP_CSRRW :: i32 where "OP_CSRRW \<equiv> 1"
abbreviation (input) OP_CSRRS :: i32 where "OP_CSRRS \<equiv> 2"
abbreviation (input) OP_CSRRC :: i32 where "OP_CSRRC \<equiv> 3"
abbreviation (input) OP_CSRRWI :: i32 where "OP_CSRRWI \<equiv> 5"
abbreviation (input) OP_CSRRSI :: i32 where "OP_CSRRSI \<equiv> 6"
abbreviation (input) OP_CSRRCI :: i32 where "OP_CSRRCI \<equiv> 7"

text \<open>\<open>func3\<close> of the compressed instructions, \<open>inst[15:13]\<close>.\<close>

abbreviation (input) OP_CLWSP :: i32 where "OP_CLWSP \<equiv> 2"
abbreviation (input) OP_CSWSP :: i32 where "OP_CSWSP \<equiv> 6"
abbreviation (input) OP_CLW :: i32 where "OP_CLW \<equiv> 2"
abbreviation (input) OP_CSW :: i32 where "OP_CSW \<equiv> 6"
abbreviation (input) OP_CJ :: i32 where "OP_CJ \<equiv> 5"
abbreviation (input) OP_CJAL :: i32 where "OP_CJAL \<equiv> 1"
abbreviation (input) OP_CJR :: i32 where "OP_CJR \<equiv> 4"
abbreviation (input) OP_CJALR :: i32 where "OP_CJALR \<equiv> 4"
abbreviation (input) OP_CBEQZ :: i32 where "OP_CBEQZ \<equiv> 6"
abbreviation (input) OP_CBNEZ :: i32 where "OP_CBNEZ \<equiv> 7"
abbreviation (input) OP_CLI :: i32 where "OP_CLI \<equiv> 2"
abbreviation (input) OP_CLUI :: i32 where "OP_CLUI \<equiv> 3"
abbreviation (input) OP_CADDI :: i32 where "OP_CADDI \<equiv> 0"
abbreviation (input) OP_CADDI16SP :: i32 where "OP_CADDI16SP \<equiv> 3"
abbreviation (input) OP_CADDI4SPN :: i32 where "OP_CADDI4SPN \<equiv> 0"
abbreviation (input) OP_CSLLI :: i32 where "OP_CSLLI \<equiv> 0"
abbreviation (input) OP_CSRLI :: i32 where "OP_CSRLI \<equiv> 4"
abbreviation (input) OP_CSRAI :: i32 where "OP_CSRAI \<equiv> 4"
abbreviation (input) OP_CANDI :: i32 where "OP_CANDI \<equiv> 4"
abbreviation (input) OP_CMV :: i32 where "OP_CMV \<equiv> 4"
abbreviation (input) OP_CADD :: i32 where "OP_CADD \<equiv> 4"
abbreviation (input) OP_CAND :: i32 where "OP_CAND \<equiv> 4"
abbreviation (input) OP_COR :: i32 where "OP_COR \<equiv> 4"
abbreviation (input) OP_CXOR :: i32 where "OP_CXOR \<equiv> 4"
abbreviation (input) OP_CSUB :: i32 where "OP_CSUB \<equiv> 4"
abbreviation (input) OP_CNOP :: i32 where "OP_CNOP \<equiv> 0"
abbreviation (input) OP_CEBREAK :: i32 where "OP_CEBREAK \<equiv> 4"

text \<open>\<open>func3\<close> of the B extension.\<close>

abbreviation (input) OP_CLMUL :: i32 where "OP_CLMUL \<equiv> 1"
abbreviation (input) OP_CLMULH :: i32 where "OP_CLMULH \<equiv> 3"
abbreviation (input) OP_CLMULR :: i32 where "OP_CLMULR \<equiv> 2"
abbreviation (input) OP_MAX :: i32 where "OP_MAX \<equiv> 6"
abbreviation (input) OP_MAXU :: i32 where "OP_MAXU \<equiv> 7"
abbreviation (input) OP_MIN :: i32 where "OP_MIN \<equiv> 4"
abbreviation (input) OP_MINU :: i32 where "OP_MINU \<equiv> 5"
abbreviation (input) OP_SH1ADD :: i32 where "OP_SH1ADD \<equiv> 2"
abbreviation (input) OP_SH2ADD :: i32 where "OP_SH2ADD \<equiv> 4"
abbreviation (input) OP_SH3ADD :: i32 where "OP_SH3ADD \<equiv> 6"
abbreviation (input) OP_BCLR :: i32 where "OP_BCLR \<equiv> 1"
abbreviation (input) OP_BEXT :: i32 where "OP_BEXT \<equiv> 5"
abbreviation (input) OP_ROL :: i32 where "OP_ROL \<equiv> 1"
abbreviation (input) OP_ROR :: i32 where "OP_ROR \<equiv> 5"

text \<open>CSR numbers.\<close>

abbreviation (input) CSR_MVENDORID :: i32 where "CSR_MVENDORID \<equiv> 0xf11"
abbreviation (input) CSR_MARCHID :: i32 where "CSR_MARCHID \<equiv> 0xf12"
abbreviation (input) CSR_MIMPID :: i32 where "CSR_MIMPID \<equiv> 0xf13"
abbreviation (input) CSR_MHARTID :: i32 where "CSR_MHARTID \<equiv> 0xf14"
abbreviation (input) CSR_MSTATUS :: i32 where "CSR_MSTATUS \<equiv> 0x300"
abbreviation (input) CSR_MISA :: i32 where "CSR_MISA \<equiv> 0x301"
abbreviation (input) CSR_MEDELEG :: i32 where "CSR_MEDELEG \<equiv> 0x302"
abbreviation (input) CSR_MIDELEG :: i32 where "CSR_MIDELEG \<equiv> 0x303"
abbreviation (input) CSR_MIE :: i32 where "CSR_MIE \<equiv> 0x304"
abbreviation (input) CSR_MTVEC :: i32 where "CSR_MTVEC \<equiv> 0x305"
abbreviation (input) CSR_MCOUNTEREN :: i32 where "CSR_MCOUNTEREN \<equiv> 0x306"
abbreviation (input) CSR_MSTATUSH :: i32 where "CSR_MSTATUSH \<equiv> 0x310"
abbreviation (input) CSR_MSCRATCH :: i32 where "CSR_MSCRATCH \<equiv> 0x340"
abbreviation (input) CSR_MEPC :: i32 where "CSR_MEPC \<equiv> 0x341"
abbreviation (input) CSR_MCAUSE :: i32 where "CSR_MCAUSE \<equiv> 0x342"
abbreviation (input) CSR_MTVAL :: i32 where "CSR_MTVAL \<equiv> 0x343"
abbreviation (input) CSR_MIP :: i32 where "CSR_MIP \<equiv> 0x344"
abbreviation (input) CSR_SSTATUS :: i32 where "CSR_SSTATUS \<equiv> 0x100"
abbreviation (input) CSR_SIE :: i32 where "CSR_SIE \<equiv> 0x104"
abbreviation (input) CSR_STVEC :: i32 where "CSR_STVEC \<equiv> 0x105"
abbreviation (input) CSR_SSCRATCH :: i32 where "CSR_SSCRATCH \<equiv> 0x140"
abbreviation (input) CSR_SEPC :: i32 where "CSR_SEPC \<equiv> 0x141"
abbreviation (input) CSR_SCAUSE :: i32 where "CSR_SCAUSE \<equiv> 0x142"
abbreviation (input) CSR_STVAL :: i32 where "CSR_STVAL \<equiv> 0x143"
abbreviation (input) CSR_SIP :: i32 where "CSR_SIP \<equiv> 0x144"
abbreviation (input) CSR_SATP :: i32 where "CSR_SATP \<equiv> 0x180"
abbreviation (input) CSR_RDCYCLE :: i32 where "CSR_RDCYCLE \<equiv> 0xc00"
abbreviation (input) CSR_RDCYCLEH :: i32 where "CSR_RDCYCLEH \<equiv> 0xc80"
abbreviation (input) CSR_RDTIME :: i32 where "CSR_RDTIME \<equiv> 0xc01"
abbreviation (input) CSR_RDTIMEH :: i32 where "CSR_RDTIMEH \<equiv> 0xc81"
abbreviation (input) CSR_RDINSTRET :: i32 where "CSR_RDINSTRET \<equiv> 0xc02"
abbreviation (input) CSR_RDINSTRETH :: i32 where "CSR_RDINSTRETH \<equiv> 0xc82"

text \<open>System call numbers.\<close>

abbreviation (input) SYS_OPEN :: i32 where "SYS_OPEN \<equiv> 0x0031"
abbreviation (input) SYS_LSEEK :: i32 where "SYS_LSEEK \<equiv> 0x0032"
abbreviation (input) SYS_CLOSE :: i32 where "SYS_CLOSE \<equiv> 0x0039"
abbreviation (input) SYS_READ :: i32 where "SYS_READ \<equiv> 0x003f"
abbreviation (input) SYS_WRITE :: i32 where "SYS_WRITE \<equiv> 0x0040"
abbreviation (input) SYS_FSTAT :: i32 where "SYS_FSTAT \<equiv> 0x0050"
abbreviation (input) SYS_EXIT :: i32 where "SYS_EXIT \<equiv> 0x005d"
abbreviation (input) SYS_SBRK :: i32 where "SYS_SBRK \<equiv> 0x00d6"
abbreviation (input) SYS_DUMP :: i32 where "SYS_DUMP \<equiv> 0x0088"
abbreviation (input) SYS_DUMP_BIN :: i32 where "SYS_DUMP_BIN \<equiv> 0x0099"

text \<open>Exception and interrupt causes.\<close>

abbreviation (input) TRAP_INST_ALIGN :: i32 where "TRAP_INST_ALIGN \<equiv> 0"
abbreviation (input) TRAP_INST_FAIL :: i32 where "TRAP_INST_FAIL \<equiv> 1"
abbreviation (input) TRAP_INST_ILL :: i32 where "TRAP_INST_ILL \<equiv> 2"
abbreviation (input) TRAP_BREAK :: i32 where "TRAP_BREAK \<equiv> 3"
abbreviation (input) TRAP_LD_ALIGN :: i32 where "TRAP_LD_ALIGN \<equiv> 4"
abbreviation (input) TRAP_LD_FAIL :: i32 where "TRAP_LD_FAIL \<equiv> 5"
abbreviation (input) TRAP_ST_ALIGN :: i32 where "TRAP_ST_ALIGN \<equiv> 6"
abbreviation (input) TRAP_ST_FAIL :: i32 where "TRAP_ST_FAIL \<equiv> 7"
abbreviation (input) TRAP_ECALL :: i32 where "TRAP_ECALL \<equiv> 11"
abbreviation (input) INT_USI :: i32 where "INT_USI \<equiv> 0x80000000"
abbreviation (input) INT_SSI :: i32 where "INT_SSI \<equiv> 0x80000001"
abbreviation (input) INT_MSI :: i32 where "INT_MSI \<equiv> 0x80000003"
abbreviation (input) INT_UTIME :: i32 where "INT_UTIME \<equiv> 0x80000004"
abbreviation (input) INT_STIME :: i32 where "INT_STIME \<equiv> 0x80000005"
abbreviation (input) INT_MTIME :: i32 where "INT_MTIME \<equiv> 0x80000007"
abbreviation (input) INT_UEI :: i32 where "INT_UEI \<equiv> 0x80000008"
abbreviation (input) INT_SEI :: i32 where "INT_SEI \<equiv> 0x80000009"
abbreviation (input) INT_MEI :: i32 where "INT_MEI \<equiv> 0x8000000b"

text \<open>Register numbers.\<close>

abbreviation (input) ZERO :: nat where "ZERO \<equiv> 0"
abbreviation (input) RA :: nat where "RA \<equiv> 1"
abbreviation (input) SP :: nat where "SP \<equiv> 2"
abbreviation (input) GP :: nat where "GP \<equiv> 3"
abbreviation (input) TP :: nat where "TP \<equiv> 4"
abbreviation (input) T0 :: nat where "T0 \<equiv> 5"
abbreviation (input) T1 :: nat where "T1 \<equiv> 6"
abbreviation (input) T2 :: nat where "T2 \<equiv> 7"
abbreviation (input) S0 :: nat where "S0 \<equiv> 8"
abbreviation (input) S1 :: nat where "S1 \<equiv> 9"
abbreviation (input) A0 :: nat where "A0 \<equiv> 10"
abbreviation (input) A1 :: nat where "A1 \<equiv> 11"
abbreviation (input) A2 :: nat where "A2 \<equiv> 12"
abbreviation (input) A3 :: nat where "A3 \<equiv> 13"
abbreviation (input) A4 :: nat where "A4 \<equiv> 14"
abbreviation (input) A5 :: nat where "A5 \<equiv> 15"
abbreviation (input) A6 :: nat where "A6 \<equiv> 16"
abbreviation (input) A7 :: nat where "A7 \<equiv> 17"
abbreviation (input) S2 :: nat where "S2 \<equiv> 18"
abbreviation (input) S3 :: nat where "S3 \<equiv> 19"
abbreviation (input) S4 :: nat where "S4 \<equiv> 20"
abbreviation (input) S5 :: nat where "S5 \<equiv> 21"
abbreviation (input) S6 :: nat where "S6 \<equiv> 22"
abbreviation (input) S7 :: nat where "S7 \<equiv> 23"
abbreviation (input) S8 :: nat where "S8 \<equiv> 24"
abbreviation (input) S9 :: nat where "S9 \<equiv> 25"
abbreviation (input) S10 :: nat where "S10 \<equiv> 26"
abbreviation (input) S11 :: nat where "S11 \<equiv> 27"
abbreviation (input) T3 :: nat where "T3 \<equiv> 28"
abbreviation (input) T4 :: nat where "T4 \<equiv> 29"
abbreviation (input) T5 :: nat where "T5 \<equiv> 30"
abbreviation (input) T6 :: nat where "T6 \<equiv> 31"

text \<open>Bits of \<open>mstatus\<close>.\<close>

abbreviation (input) UIE :: nat where "UIE \<equiv> 0"
abbreviation (input) SIE :: nat where "SIE \<equiv> 1"
abbreviation (input) MIE :: nat where "MIE \<equiv> 3"
abbreviation (input) UPIE :: nat where "UPIE \<equiv> 4"
abbreviation (input) SPIE :: nat where "SPIE \<equiv> 5"
abbreviation (input) MPIE :: nat where "MPIE \<equiv> 7"
abbreviation (input) SPP :: nat where "SPP \<equiv> 8"
abbreviation (input) MPP :: nat where "MPP \<equiv> 11"
abbreviation (input) FS :: nat where "FS \<equiv> 13"
abbreviation (input) XS :: nat where "XS \<equiv> 15"
abbreviation (input) MPRV :: nat where "MPRV \<equiv> 17"
abbreviation (input) MSTATUS_SUM :: nat where "MSTATUS_SUM \<equiv> 18"
abbreviation (input) MXR :: nat where "MXR \<equiv> 19"
abbreviation (input) TVM :: nat where "TVM \<equiv> 20"
abbreviation (input) TW :: nat where "TW \<equiv> 21"
abbreviation (input) TSR :: nat where "TSR \<equiv> 22"

text \<open>Bits of \<open>mie\<close>.\<close>

abbreviation (input) USIE :: nat where "USIE \<equiv> 0"
abbreviation (input) SSIE :: nat where "SSIE \<equiv> 1"
abbreviation (input) MSIE :: nat where "MSIE \<equiv> 3"
abbreviation (input) UTIE :: nat where "UTIE \<equiv> 4"
abbreviation (input) STIE :: nat where "STIE \<equiv> 5"
abbreviation (input) MTIE :: nat where "MTIE \<equiv> 7"
abbreviation (input) UEIE :: nat where "UEIE \<equiv> 8"
abbreviation (input) SEIE :: nat where "SEIE \<equiv> 9"
abbreviation (input) MEIE :: nat where "MEIE \<equiv> 11"

text \<open>Bits of \<open>mip\<close>.\<close>

abbreviation (input) USIP :: nat where "USIP \<equiv> 0"
abbreviation (input) SSIP :: nat where "SSIP \<equiv> 1"
abbreviation (input) MSIP :: nat where "MSIP \<equiv> 3"
abbreviation (input) UTIP :: nat where "UTIP \<equiv> 4"
abbreviation (input) STIP :: nat where "STIP \<equiv> 5"
abbreviation (input) MTIP :: nat where "MTIP \<equiv> 7"
abbreviation (input) UEIP :: nat where "UEIP \<equiv> 8"
abbreviation (input) SEIP :: nat where "SEIP \<equiv> 9"
abbreviation (input) MEIP :: nat where "MEIP \<equiv> 11"

text \<open>Privilege modes.\<close>

abbreviation (input) UMODE :: i32 where "UMODE \<equiv> 0"
abbreviation (input) SMODE :: i32 where "SMODE \<equiv> 1"
abbreviation (input) MMODE :: i32 where "MMODE \<equiv> 2"

abbreviation (input) MVENDORID :: i32 where "MVENDORID \<equiv> 0"
abbreviation (input) MARCHID :: i32 where "MARCHID \<equiv> 0"
abbreviation (input) MIMPID :: i32 where "MIMPID \<equiv> 0"
abbreviation (input) MHARTID :: i32 where "MHARTID \<equiv> 0"
abbreviation (input) MMIO_PUTC :: i32 where "MMIO_PUTC \<equiv> 0xa000001c"
abbreviation (input) MMIO_GETC :: i32 where "MMIO_GETC \<equiv> 0xa0000020"
abbreviation (input) MMIO_EXIT :: i32 where "MMIO_EXIT \<equiv> 0xa000002c"
abbreviation (input) MMIO_TOHOST :: i32 where "MMIO_TOHOST \<equiv> 0xa0000030"
abbreviation (input) MMIO_FROMHOST :: i32 where "MMIO_FROMHOST \<equiv> 0xa0000034"
abbreviation (input) MMIO_MTIME :: i32 where "MMIO_MTIME \<equiv> 0x90000000"
abbreviation (input) MMIO_MTIMECMP :: i32 where "MMIO_MTIMECMP \<equiv> 0x90000008"
abbreviation (input) MMIO_MSIP :: i32 where "MMIO_MSIP \<equiv> 0x90000010"
abbreviation (input) BRANCH_PENALTY :: i32 where "BRANCH_PENALTY \<equiv> 2"

subsection \<open>\<open>INST\<close>: the fields of a 32-bit instruction\<close>

text \<open>\<open>inst.r\<close>: op[6:0], rd[11:7], func3[14:12], rs1[19:15], rs2[24:20], func7[31:25].\<close>

abbreviation (input) r_op :: "i32 \<Rightarrow> i32" where "r_op \<equiv> fld 0 7"
abbreviation set_r_op :: "i32 \<Rightarrow> i32 \<Rightarrow> i32" where "set_r_op \<equiv> set_fld 0 7"
abbreviation (input) r_rd :: "i32 \<Rightarrow> i32" where "r_rd \<equiv> fld 7 5"
abbreviation set_r_rd :: "i32 \<Rightarrow> i32 \<Rightarrow> i32" where "set_r_rd \<equiv> set_fld 7 5"
abbreviation (input) r_func3 :: "i32 \<Rightarrow> i32" where "r_func3 \<equiv> fld 12 3"
abbreviation set_r_func3 :: "i32 \<Rightarrow> i32 \<Rightarrow> i32" where "set_r_func3 \<equiv> set_fld 12 3"
abbreviation (input) r_rs1 :: "i32 \<Rightarrow> i32" where "r_rs1 \<equiv> fld 15 5"
abbreviation set_r_rs1 :: "i32 \<Rightarrow> i32 \<Rightarrow> i32" where "set_r_rs1 \<equiv> set_fld 15 5"
abbreviation (input) r_rs2 :: "i32 \<Rightarrow> i32" where "r_rs2 \<equiv> fld 20 5"
abbreviation set_r_rs2 :: "i32 \<Rightarrow> i32 \<Rightarrow> i32" where "set_r_rs2 \<equiv> set_fld 20 5"
abbreviation (input) r_func7 :: "i32 \<Rightarrow> i32" where "r_func7 \<equiv> fld 25 7"
abbreviation set_r_func7 :: "i32 \<Rightarrow> i32 \<Rightarrow> i32" where "set_r_func7 \<equiv> set_fld 25 7"

text \<open>\<open>inst.i\<close>: op[6:0], rd[11:7], func3[14:12], rs1[19:15], imm[31:20].\<close>

abbreviation (input) i_op :: "i32 \<Rightarrow> i32" where "i_op \<equiv> fld 0 7"
abbreviation set_i_op :: "i32 \<Rightarrow> i32 \<Rightarrow> i32" where "set_i_op \<equiv> set_fld 0 7"
abbreviation (input) i_rd :: "i32 \<Rightarrow> i32" where "i_rd \<equiv> fld 7 5"
abbreviation set_i_rd :: "i32 \<Rightarrow> i32 \<Rightarrow> i32" where "set_i_rd \<equiv> set_fld 7 5"
abbreviation (input) i_func3 :: "i32 \<Rightarrow> i32" where "i_func3 \<equiv> fld 12 3"
abbreviation set_i_func3 :: "i32 \<Rightarrow> i32 \<Rightarrow> i32" where "set_i_func3 \<equiv> set_fld 12 3"
abbreviation (input) i_rs1 :: "i32 \<Rightarrow> i32" where "i_rs1 \<equiv> fld 15 5"
abbreviation set_i_rs1 :: "i32 \<Rightarrow> i32 \<Rightarrow> i32" where "set_i_rs1 \<equiv> set_fld 15 5"
abbreviation (input) i_imm :: "i32 \<Rightarrow> i32" where "i_imm \<equiv> fld 20 12"
abbreviation set_i_imm :: "i32 \<Rightarrow> i32 \<Rightarrow> i32" where "set_i_imm \<equiv> set_fld 20 12"

text \<open>\<open>inst.s\<close>: op[6:0], imm1[11:7], func3[14:12], rs1[19:15], rs2[24:20], imm2[31:25].\<close>

abbreviation (input) s_op :: "i32 \<Rightarrow> i32" where "s_op \<equiv> fld 0 7"
abbreviation set_s_op :: "i32 \<Rightarrow> i32 \<Rightarrow> i32" where "set_s_op \<equiv> set_fld 0 7"
abbreviation (input) s_imm1 :: "i32 \<Rightarrow> i32" where "s_imm1 \<equiv> fld 7 5"
abbreviation set_s_imm1 :: "i32 \<Rightarrow> i32 \<Rightarrow> i32" where "set_s_imm1 \<equiv> set_fld 7 5"
abbreviation (input) s_func3 :: "i32 \<Rightarrow> i32" where "s_func3 \<equiv> fld 12 3"
abbreviation set_s_func3 :: "i32 \<Rightarrow> i32 \<Rightarrow> i32" where "set_s_func3 \<equiv> set_fld 12 3"
abbreviation (input) s_rs1 :: "i32 \<Rightarrow> i32" where "s_rs1 \<equiv> fld 15 5"
abbreviation set_s_rs1 :: "i32 \<Rightarrow> i32 \<Rightarrow> i32" where "set_s_rs1 \<equiv> set_fld 15 5"
abbreviation (input) s_rs2 :: "i32 \<Rightarrow> i32" where "s_rs2 \<equiv> fld 20 5"
abbreviation set_s_rs2 :: "i32 \<Rightarrow> i32 \<Rightarrow> i32" where "set_s_rs2 \<equiv> set_fld 20 5"
abbreviation (input) s_imm2 :: "i32 \<Rightarrow> i32" where "s_imm2 \<equiv> fld 25 7"
abbreviation set_s_imm2 :: "i32 \<Rightarrow> i32 \<Rightarrow> i32" where "set_s_imm2 \<equiv> set_fld 25 7"

text \<open>\<open>inst.b\<close>: op[6:0], imm1[11:7], func3[14:12], rs1[19:15], rs2[24:20], imm2[31:25].\<close>

abbreviation (input) b_op :: "i32 \<Rightarrow> i32" where "b_op \<equiv> fld 0 7"
abbreviation set_b_op :: "i32 \<Rightarrow> i32 \<Rightarrow> i32" where "set_b_op \<equiv> set_fld 0 7"
abbreviation (input) b_imm1 :: "i32 \<Rightarrow> i32" where "b_imm1 \<equiv> fld 7 5"
abbreviation set_b_imm1 :: "i32 \<Rightarrow> i32 \<Rightarrow> i32" where "set_b_imm1 \<equiv> set_fld 7 5"
abbreviation (input) b_func3 :: "i32 \<Rightarrow> i32" where "b_func3 \<equiv> fld 12 3"
abbreviation set_b_func3 :: "i32 \<Rightarrow> i32 \<Rightarrow> i32" where "set_b_func3 \<equiv> set_fld 12 3"
abbreviation (input) b_rs1 :: "i32 \<Rightarrow> i32" where "b_rs1 \<equiv> fld 15 5"
abbreviation set_b_rs1 :: "i32 \<Rightarrow> i32 \<Rightarrow> i32" where "set_b_rs1 \<equiv> set_fld 15 5"
abbreviation (input) b_rs2 :: "i32 \<Rightarrow> i32" where "b_rs2 \<equiv> fld 20 5"
abbreviation set_b_rs2 :: "i32 \<Rightarrow> i32 \<Rightarrow> i32" where "set_b_rs2 \<equiv> set_fld 20 5"
abbreviation (input) b_imm2 :: "i32 \<Rightarrow> i32" where "b_imm2 \<equiv> fld 25 7"
abbreviation set_b_imm2 :: "i32 \<Rightarrow> i32 \<Rightarrow> i32" where "set_b_imm2 \<equiv> set_fld 25 7"

text \<open>\<open>inst.u\<close>: op[6:0], rd[11:7], imm[31:12].\<close>

abbreviation (input) u_op :: "i32 \<Rightarrow> i32" where "u_op \<equiv> fld 0 7"
abbreviation set_u_op :: "i32 \<Rightarrow> i32 \<Rightarrow> i32" where "set_u_op \<equiv> set_fld 0 7"
abbreviation (input) u_rd :: "i32 \<Rightarrow> i32" where "u_rd \<equiv> fld 7 5"
abbreviation set_u_rd :: "i32 \<Rightarrow> i32 \<Rightarrow> i32" where "set_u_rd \<equiv> set_fld 7 5"
abbreviation (input) u_imm :: "i32 \<Rightarrow> i32" where "u_imm \<equiv> fld 12 20"
abbreviation set_u_imm :: "i32 \<Rightarrow> i32 \<Rightarrow> i32" where "set_u_imm \<equiv> set_fld 12 20"

text \<open>\<open>inst.j\<close>: op[6:0], rd[11:7], imm[31:12].\<close>

abbreviation (input) j_op :: "i32 \<Rightarrow> i32" where "j_op \<equiv> fld 0 7"
abbreviation set_j_op :: "i32 \<Rightarrow> i32 \<Rightarrow> i32" where "set_j_op \<equiv> set_fld 0 7"
abbreviation (input) j_rd :: "i32 \<Rightarrow> i32" where "j_rd \<equiv> fld 7 5"
abbreviation set_j_rd :: "i32 \<Rightarrow> i32 \<Rightarrow> i32" where "set_j_rd \<equiv> set_fld 7 5"
abbreviation (input) j_imm :: "i32 \<Rightarrow> i32" where "j_imm \<equiv> fld 12 20"
abbreviation set_j_imm :: "i32 \<Rightarrow> i32 \<Rightarrow> i32" where "set_j_imm \<equiv> set_fld 12 20"

subsection \<open>\<open>INSTC\<close>: the fields of a 16-bit instruction\<close>

text \<open>A field of a \<open>short\<close> union read as an \<open>unsigned int\<close>.\<close>

definition cfld :: "nat \<Rightarrow> nat \<Rightarrow> u16 \<Rightarrow> i32" where
  "cfld lo len w = ucast (fld lo len w)"

text \<open>\<open>instc.cr\<close>: op[1:0], rs2[6:2], rd[11:7], func4[15:12].\<close>

abbreviation (input) cr_op :: "u16 \<Rightarrow> i32" where "cr_op \<equiv> cfld 0 2"
abbreviation (input) cr_rs2 :: "u16 \<Rightarrow> i32" where "cr_rs2 \<equiv> cfld 2 5"
abbreviation (input) cr_rd :: "u16 \<Rightarrow> i32" where "cr_rd \<equiv> cfld 7 5"
abbreviation (input) cr_func4 :: "u16 \<Rightarrow> i32" where "cr_func4 \<equiv> cfld 12 4"

text \<open>\<open>instc.ci\<close>: op[1:0], imm_l[6:2], rd[11:7], imm_h[12:12], func3[15:13].\<close>

abbreviation (input) ci_op :: "u16 \<Rightarrow> i32" where "ci_op \<equiv> cfld 0 2"
abbreviation (input) ci_imm_l :: "u16 \<Rightarrow> i32" where "ci_imm_l \<equiv> cfld 2 5"
abbreviation (input) ci_rd :: "u16 \<Rightarrow> i32" where "ci_rd \<equiv> cfld 7 5"
abbreviation (input) ci_imm_h :: "u16 \<Rightarrow> i32" where "ci_imm_h \<equiv> cfld 12 1"
abbreviation (input) ci_func3 :: "u16 \<Rightarrow> i32" where "ci_func3 \<equiv> cfld 13 3"

text \<open>\<open>instc.css\<close>: op[1:0], rs2[6:2], imm[12:7], func3[15:13].\<close>

abbreviation (input) css_op :: "u16 \<Rightarrow> i32" where "css_op \<equiv> cfld 0 2"
abbreviation (input) css_rs2 :: "u16 \<Rightarrow> i32" where "css_rs2 \<equiv> cfld 2 5"
abbreviation (input) css_imm :: "u16 \<Rightarrow> i32" where "css_imm \<equiv> cfld 7 6"
abbreviation (input) css_func3 :: "u16 \<Rightarrow> i32" where "css_func3 \<equiv> cfld 13 3"

text \<open>\<open>instc.ciw\<close>: op[1:0], rd'[4:2], imm[12:5], func3[15:13].\<close>

abbreviation (input) ciw_op :: "u16 \<Rightarrow> i32" where "ciw_op \<equiv> cfld 0 2"
abbreviation (input) ciw_rd' :: "u16 \<Rightarrow> i32" where "ciw_rd' \<equiv> cfld 2 3"
abbreviation (input) ciw_imm :: "u16 \<Rightarrow> i32" where "ciw_imm \<equiv> cfld 5 8"
abbreviation (input) ciw_func3 :: "u16 \<Rightarrow> i32" where "ciw_func3 \<equiv> cfld 13 3"

text \<open>\<open>instc.cl\<close>: op[1:0], rd'[4:2], imm_l[6:5], rs1'[9:7], imm_h[12:10], func3[15:13].\<close>

abbreviation (input) cl_op :: "u16 \<Rightarrow> i32" where "cl_op \<equiv> cfld 0 2"
abbreviation (input) cl_rd' :: "u16 \<Rightarrow> i32" where "cl_rd' \<equiv> cfld 2 3"
abbreviation (input) cl_imm_l :: "u16 \<Rightarrow> i32" where "cl_imm_l \<equiv> cfld 5 2"
abbreviation (input) cl_rs1' :: "u16 \<Rightarrow> i32" where "cl_rs1' \<equiv> cfld 7 3"
abbreviation (input) cl_imm_h :: "u16 \<Rightarrow> i32" where "cl_imm_h \<equiv> cfld 10 3"
abbreviation (input) cl_func3 :: "u16 \<Rightarrow> i32" where "cl_func3 \<equiv> cfld 13 3"

text \<open>\<open>instc.cs\<close>: op[1:0], rs2'[4:2], imm_l[6:5], rs1'[9:7], imm_h[12:10], func3[15:13].\<close>

abbreviation (input) cs_op :: "u16 \<Rightarrow> i32" where "cs_op \<equiv> cfld 0 2"
abbreviation (input) cs_rs2' :: "u16 \<Rightarrow> i32" where "cs_rs2' \<equiv> cfld 2 3"
abbreviation (input) cs_imm_l :: "u16 \<Rightarrow> i32" where "cs_imm_l \<equiv> cfld 5 2"
abbreviation (input) cs_rs1' :: "u16 \<Rightarrow> i32" where "cs_rs1' \<equiv> cfld 7 3"
abbreviation (input) cs_imm_h :: "u16 \<Rightarrow> i32" where "cs_imm_h \<equiv> cfld 10 3"
abbreviation (input) cs_func3 :: "u16 \<Rightarrow> i32" where "cs_func3 \<equiv> cfld 13 3"

text \<open>\<open>instc.ca\<close>: op[1:0], rs2'[4:2], func2[6:5], rd'[9:7], func6[15:10].\<close>

abbreviation (input) ca_op :: "u16 \<Rightarrow> i32" where "ca_op \<equiv> cfld 0 2"
abbreviation (input) ca_rs2' :: "u16 \<Rightarrow> i32" where "ca_rs2' \<equiv> cfld 2 3"
abbreviation (input) ca_func2 :: "u16 \<Rightarrow> i32" where "ca_func2 \<equiv> cfld 5 2"
abbreviation (input) ca_rd' :: "u16 \<Rightarrow> i32" where "ca_rd' \<equiv> cfld 7 3"
abbreviation (input) ca_func6 :: "u16 \<Rightarrow> i32" where "ca_func6 \<equiv> cfld 10 6"

text \<open>\<open>instc.cb\<close>: op[1:0], imm_l[6:2], rs1'[9:7], imm_h[12:10], func3[15:13].\<close>

abbreviation (input) cb_op :: "u16 \<Rightarrow> i32" where "cb_op \<equiv> cfld 0 2"
abbreviation (input) cb_imm_l :: "u16 \<Rightarrow> i32" where "cb_imm_l \<equiv> cfld 2 5"
abbreviation (input) cb_rs1' :: "u16 \<Rightarrow> i32" where "cb_rs1' \<equiv> cfld 7 3"
abbreviation (input) cb_imm_h :: "u16 \<Rightarrow> i32" where "cb_imm_h \<equiv> cfld 10 3"
abbreviation (input) cb_func3 :: "u16 \<Rightarrow> i32" where "cb_func3 \<equiv> cfld 13 3"

text \<open>\<open>instc.cj\<close>: op[1:0], offset[12:2], func3[15:13].\<close>

abbreviation (input) cj_op :: "u16 \<Rightarrow> i32" where "cj_op \<equiv> cfld 0 2"
abbreviation (input) cj_offset :: "u16 \<Rightarrow> i32" where "cj_offset \<equiv> cfld 2 11"
abbreviation (input) cj_func3 :: "u16 \<Rightarrow> i32" where "cj_func3 \<equiv> cfld 13 3"

subsection \<open>\<open>COUNTER\<close>: a 64-bit counter and its two halves\<close>

definition counter_lo :: "i64 \<Rightarrow> i32" where
  "counter_lo c = ucast c"

definition counter_hi :: "i64 \<Rightarrow> i32" where
  "counter_hi c = ucast (drop_bit 32 c)"

definition set_counter_lo :: "i32 \<Rightarrow> i64 \<Rightarrow> i64" where
  "set_counter_lo v c = push_bit 32 (ucast (counter_hi c)) OR ucast v"

definition set_counter_hi :: "i32 \<Rightarrow> i64 \<Rightarrow> i64" where
  "set_counter_hi v c = push_bit 32 (ucast v) OR ucast (counter_lo c)"

lemma bit_counter_lo [bits]: "bit (counter_lo c) n \<longleftrightarrow> n < 32 \<and> bit c n"
  by (simp add: counter_lo_def bit_simps)

lemma bit_counter_hi [bits]: "bit (counter_hi c) n \<longleftrightarrow> n < 32 \<and> bit c (n + 32)"
  by (auto simp: counter_hi_def bit_simps ac_simps)

lemma bit_set_counter_lo [bits]:
  "bit (set_counter_lo v c) n \<longleftrightarrow> (if n < 32 then bit v n else bit c n)"
  by (auto simp: set_counter_lo_def bits bit_simps dest: bit_imp_le_length)

lemma bit_set_counter_hi [bits]:
  "bit (set_counter_hi v c) n \<longleftrightarrow> n < 64 \<and> (if n < 32 then bit c n else bit v (n - 32))"
  by (auto simp: set_counter_hi_def bits bit_simps dest: bit_imp_le_length)

lemma counter_lo_set_lo [simp]: "counter_lo (set_counter_lo v c) = v"
  by (rule bit_word_eqI) (simp add: bits)

lemma counter_hi_set_lo [simp]: "counter_hi (set_counter_lo v c) = counter_hi c"
  by (rule bit_word_eqI) (simp add: bits)

lemma counter_lo_set_hi [simp]: "counter_lo (set_counter_hi v c) = counter_lo c"
  by (rule bit_word_eqI) (simp add: bits)

lemma counter_hi_set_hi [simp]: "counter_hi (set_counter_hi v c) = v"
  by (rule bit_word_eqI) (simp add: bits)

text \<open>The two halves determine the counter.\<close>

lemma counter_eqI:
  "counter_lo c = counter_lo d \<Longrightarrow> counter_hi c = counter_hi d \<Longrightarrow> c = d"
proof (rule bit_word_eqI)
  fix n assume lo: "counter_lo c = counter_lo d" and hi: "counter_hi c = counter_hi d"
    and n: "n < LENGTH(64)"
  show "bit c n \<longleftrightarrow> bit d n"
  proof (cases "n < 32")
    case True
    then show ?thesis using arg_cong [OF lo, of "\<lambda>w. bit w n"] by (simp add: bits)
  next
    case False
    then have "n - 32 < 32" and "n - 32 + 32 = n" using n by auto
    then show ?thesis using arg_cong [OF hi, of "\<lambda>w. bit w (n - 32)"] by (simp add: bits)
  qed
qed

subsection \<open>The control and status registers\<close>

text \<open>
  The five \<open>COUNTER\<close> members carry the prefix \<open>c_\<close>; the members under \<open>XV6_SUPPORT\<close>
  are always present, and reached only where the configuration enables them.
\<close>

record csrs =
  c_time :: i64
  c_cycle :: i64
  c_instret :: i64
  c_mtime :: i64
  c_mtimecmp :: i64
  mvendorid :: i32
  marchid :: i32
  mimpid :: i32
  mhartid :: i32
  mscratch :: i32
  mstatus :: i32
  mstatush :: i32
  misa :: i32
  mie :: i32
  mtvec :: i32
  mepc :: i32
  mcause :: i32
  mip :: i32
  mtval :: i32
  msip :: i32
  medeleg :: i32
  mideleg :: i32
  mcounteren :: i32
  sstatus :: i32
  sie :: i32
  stvec :: i32
  sscratch :: i32
  sepc :: i32
  scause :: i32
  stval :: i32
  sip :: i32
  satp :: i32

end
