(* ===== verification/Machine.thy ===== *)
theory Machine
  imports Opcode
begin

text \<open>
  \<open>tools/rvsim.h\<close> and the state-handling helpers of \<open>tools/rvsim.c\<close>: the build
  configuration, the host the simulator runs on, \<open>struct rv\<close>, the register file, the
  memory block and its two access routines, cycle accounting, traps and interrupts.
\<close>

subsection \<open>Build configuration and host\<close>

text \<open>The feature macros of the Makefile; \<open>XV6\<close> is \<open>XV6_SUPPORT\<close>, which no target sets.\<close>

record config =
  RV32M :: bool
  RV32C :: bool
  RV32E :: bool
  RV32B :: bool
  XV6 :: bool

text \<open>
  What the simulator takes from outside its own sources. \<open>shl_ub\<close>, \<open>shr_ub\<close> and
  \<open>sar_ub\<close> are the values the compiled program produces for a 32-bit shift whose distance
  is not in 0..31, which C leaves undefined (x86 hosts reduce it modulo 32).
  \<open>uninit_inst\<close> and \<open>uninit_instc\<close> are the contents of the uninitialised locals
  \<open>inst\<close> and \<open>instc\<close> of \<open>srv32_step\<close>. The others are library and system calls over a
  state \<open>'w\<close> of the outside world; \<open>None\<close> stands for a NULL buffer or path. A path is the
  bytes of the memory block from the pointer on.
\<close>

record 'w host =
  shl_ub :: "i32 \<Rightarrow> i32 \<Rightarrow> i32"
  shr_ub :: "i32 \<Rightarrow> i32 \<Rightarrow> i32"
  sar_ub :: "i32 \<Rightarrow> i32 \<Rightarrow> i32"
  uninit_inst :: i32
  uninit_instc :: u16
  os_getch :: "'w \<Rightarrow> i32 \<times> 'w"
  os_putchar :: "u8 \<Rightarrow> 'w \<Rightarrow> 'w"
  os_open :: "u8 list option \<Rightarrow> 'w \<Rightarrow> i32 \<times> 'w"
  os_close :: "i32 \<Rightarrow> 'w \<Rightarrow> i32 \<times> 'w"
  os_lseek :: "i32 \<Rightarrow> i32 \<Rightarrow> i32 \<Rightarrow> 'w \<Rightarrow> i32 \<times> 'w"
  os_read :: "i32 \<Rightarrow> bool \<Rightarrow> i32 \<Rightarrow> 'w \<Rightarrow> i32 \<times> u8 list \<times> 'w"
  os_write :: "i32 \<Rightarrow> u8 list option \<Rightarrow> i32 \<Rightarrow> 'w \<Rightarrow> i32 \<times> 'w"
  os_fopen :: "string \<Rightarrow> 'w \<Rightarrow> bool \<times> 'w"
  os_fwrite :: "string \<Rightarrow> u8 list \<Rightarrow> 'w \<Rightarrow> 'w"

text \<open>Shifts by a run-time distance, \<open>a << n\<close> and \<open>a >> n\<close> on 32-bit operands.\<close>

definition c_shl :: "'w host \<Rightarrow> i32 \<Rightarrow> i32 \<Rightarrow> i32" where
  "c_shl h a n = (if unat n < 32 then push_bit (unat n) a else shl_ub h a n)"

definition c_shr :: "'w host \<Rightarrow> i32 \<Rightarrow> i32 \<Rightarrow> i32" where
  "c_shr h a n = (if unat n < 32 then drop_bit (unat n) a else shr_ub h a n)"

definition c_sar :: "'w host \<Rightarrow> i32 \<Rightarrow> i32 \<Rightarrow> i32" where
  "c_sar h a n = (if unat n < 32 then signed_drop_bit (unat n) a else sar_ub h a n)"

text \<open>A host that reduces shift distances modulo 32, as x86 does.\<close>

definition masks_shifts :: "'w host \<Rightarrow> bool" where
  "masks_shifts h \<longleftrightarrow>
     shl_ub h = (\<lambda>a n. push_bit (unat n mod 32) a) \<and>
     shr_ub h = (\<lambda>a n. drop_bit (unat n mod 32) a) \<and>
     sar_ub h = (\<lambda>a n. signed_drop_bit (unat n mod 32) a)"

lemma c_shl_masked: "masks_shifts h \<Longrightarrow> c_shl h a n = push_bit (unat n mod 32) a"
  by (simp add: c_shl_def masks_shifts_def)

lemma c_shr_masked: "masks_shifts h \<Longrightarrow> c_shr h a n = drop_bit (unat n mod 32) a"
  by (simp add: c_shr_def masks_shifts_def)

lemma c_sar_masked: "masks_shifts h \<Longrightarrow> c_sar h a n = signed_drop_bit (unat n mod 32) a"
  by (simp add: c_sar_def masks_shifts_def)

subsection \<open>\<open>struct rv\<close> and the state of the simulator\<close>

text \<open>
  The memory block is \<open>mem\<close>, of which the first \<open>mem_size\<close> bytes are allocated. The trace
  file and the GDB members are not part of this record.
\<close>

record rv =
  pc :: i32
  prev_pc :: i32
  regs :: "i32 list"
  csr :: csrs
  debug_en :: bool
  branch_penalty :: i32
  branch_predict :: bool
  mem_size :: i32
  mem_base :: i32
  mem :: "nat \<Rightarrow> u8"
  singleram :: bool
  mtime_update :: bool
  exitcode :: i32

text \<open>The static variables of \<open>srv32_step\<close> (with the global \<open>overhead\<close>).\<close>

record statics =
  compressed_prev :: bool
  timer_irq :: bool
  sw_irq :: bool
  sw_irq_next :: bool
  ext_irq :: bool
  ext_irq_next :: bool
  overhead :: i32

text \<open>All a step reads and writes: \<open>result\<close> is the static variable of \<open>htif.c\<close>.\<close>

record 'w sim =
  cpu :: rv
  st :: statics
  result :: i32
  world :: 'w

datatype rvret = RV_OKAY | RV_TRAP | RV_EXIT

text \<open>How a case of the instruction switch ends: it falls out with \<open>break\<close> or returns.\<close>

datatype ctl = Break | Ret rvret

subsection \<open>Registers\<close>

definition REGNUM :: "config \<Rightarrow> nat" where
  "REGNUM cfg = (if RV32E cfg then 16 else 32)"

definition SYS :: "config \<Rightarrow> nat" where
  "SYS cfg = (if RV32E cfg then T0 else A7)"

definition srv32_read_regs :: "config \<Rightarrow> rv \<Rightarrow> nat \<Rightarrow> i32" where
  "srv32_read_regs cfg rv n = (if REGNUM cfg \<le> n then 0 else regs rv ! n)"

definition srv32_write_regs :: "config \<Rightarrow> rv \<Rightarrow> nat \<Rightarrow> i32 \<Rightarrow> rv" where
  "srv32_write_regs cfg rv n v =
     (if REGNUM cfg \<le> n then rv else rv\<lparr>regs := (regs rv)[n := v]\<rparr>)"

lemma REGNUM_pos [simp]: "0 < REGNUM cfg" and REGNUM_le: "REGNUM cfg \<le> 32"
  by (simp_all add: REGNUM_def)

lemma REGNUM_nonzero [simp]: "REGNUM cfg \<noteq> 0"
  by (simp add: REGNUM_def)

lemma read_write_regs:
  "length (regs rv) = REGNUM cfg \<Longrightarrow>
   srv32_read_regs cfg (srv32_write_regs cfg rv n v) m =
     (if m = n \<and> n < REGNUM cfg then v else srv32_read_regs cfg rv m)"
  by (auto simp: srv32_read_regs_def srv32_write_regs_def)

lemma length_write_regs [simp]: "length (regs (srv32_write_regs cfg rv n v)) = length (regs rv)"
  by (simp add: srv32_write_regs_def)

lemma write_regs_frame [simp, frame]:
  "pc (srv32_write_regs cfg rv n v) = pc rv"
  "prev_pc (srv32_write_regs cfg rv n v) = prev_pc rv"
  "csr (srv32_write_regs cfg rv n v) = csr rv"
  "debug_en (srv32_write_regs cfg rv n v) = debug_en rv"
  "branch_penalty (srv32_write_regs cfg rv n v) = branch_penalty rv"
  "branch_predict (srv32_write_regs cfg rv n v) = branch_predict rv"
  "mem_size (srv32_write_regs cfg rv n v) = mem_size rv"
  "mem_base (srv32_write_regs cfg rv n v) = mem_base rv"
  "mem (srv32_write_regs cfg rv n v) = mem rv"
  "singleram (srv32_write_regs cfg rv n v) = singleram rv"
  "mtime_update (srv32_write_regs cfg rv n v) = mtime_update rv"
  "exitcode (srv32_write_regs cfg rv n v) = exitcode rv"
  by (simp_all add: srv32_write_regs_def)

subsection \<open>What no instruction changes\<close>

text \<open>
  The parts of \<open>struct rv\<close> fixed when the simulator starts: the options, the geometry of
  the memory block, the size of the register file and the identification CSRs.
\<close>

definition rv_static ::
    "rv \<Rightarrow> (bool \<times> i32 \<times> bool \<times> bool) \<times> (i32 \<times> i32) \<times> nat \<times> (i32 \<times> i32 \<times> i32 \<times> i32)" where
  "rv_static rv =
     ((debug_en rv, branch_penalty rv, branch_predict rv, singleram rv),
      (mem_size rv, mem_base rv), length (regs rv),
      (mvendorid (csr rv), marchid (csr rv), mimpid (csr rv), mhartid (csr rv)))"

lemma rv_static_eq_iff:
  "rv_static rv' = rv_static rv \<longleftrightarrow>
     debug_en rv' = debug_en rv \<and> branch_penalty rv' = branch_penalty rv \<and>
     branch_predict rv' = branch_predict rv \<and> singleram rv' = singleram rv \<and>
     mem_size rv' = mem_size rv \<and> mem_base rv' = mem_base rv \<and>
     length (regs rv') = length (regs rv) \<and>
     mvendorid (csr rv') = mvendorid (csr rv) \<and> marchid (csr rv') = marchid (csr rv) \<and>
     mimpid (csr rv') = mimpid (csr rv) \<and> mhartid (csr rv') = mhartid (csr rv)"
  by (auto simp: rv_static_def)

lemma rv_static_write_regs [simp]: "rv_static (srv32_write_regs cfg rv n v) = rv_static rv"
  by (simp add: rv_static_def)

lemma rv_static_update [simp]:
  "rv_static (rv\<lparr>pc := a\<rparr>) = rv_static rv"
  "rv_static (rv\<lparr>prev_pc := a\<rparr>) = rv_static rv"
  "rv_static (rv\<lparr>mem := m\<rparr>) = rv_static rv"
  "rv_static (rv\<lparr>mtime_update := b\<rparr>) = rv_static rv"
  "rv_static (rv\<lparr>exitcode := a\<rparr>) = rv_static rv"
  by (simp_all add: rv_static_def)

end
