(* ===== verification/Memory.thy ===== *)
theory Memory
  imports Machine
begin

text \<open>
  The memory block (\<open>srv32_get_memptr\<close>, \<open>srv32_write_mem\<close>, \<open>srv32_read_mem\<close> of
  \<open>tools/rvsim.c\<close>): the range checks in the 32-bit signed arithmetic of the code, the byte
  loops with every access outside the allocated block as a fault, and the interface
  \<open>byte_store\<close> under which the load and store unit uses them.
\<close>

subsection \<open>Little-endian words\<close>

definition le_bytes :: "nat \<Rightarrow> i32 \<Rightarrow> u8 list" where
  "le_bytes n w = map (\<lambda>i. ucast (drop_bit (8 * i) w)) [0..<n]"

fun le_word :: "u8 list \<Rightarrow> i32" where
  "le_word [] = 0"
| "le_word (b # bs) = ucast b OR push_bit 8 (le_word bs)"

lemma length_le_bytes [simp]: "length (le_bytes n w) = n"
  by (simp add: le_bytes_def)

lemma bit_le_word:
  "bit (le_word bs) n \<longleftrightarrow> n < 32 \<and> n div 8 < length bs \<and> bit (bs ! (n div 8)) (n mod 8)"
proof (induction bs arbitrary: n)
  case (Cons b bs)
  show ?case
  proof (cases "n < 8")
    case True
    then show ?thesis by (auto simp: bit_simps)
  next
    case False
    then have "n div 8 = Suc ((n - 8) div 8)" and "(n - 8) mod 8 = n mod 8"
      by (simp_all add: le_div_geq le_mod_geq)
    then show ?thesis
      using False Cons.IH [of "n - 8"] by (auto simp: bit_simps dest: bit_imp_le_length)
  qed
qed simp

lemma le_word_le_bytes: "le_word (le_bytes n w) = take_bit (8 * n) w"
proof (rule bit_word_eqI)
  fix i assume "i < LENGTH(32)"
  moreover have "i div 8 < n \<longleftrightarrow> i < 8 * n" by (simp add: less_mult_imp_div_less div_less_iff_less_mult mult.commute)
  moreover have "8 * (i div 8) + i mod 8 = i" by simp
  ultimately show "bit (le_word (le_bytes n w)) i \<longleftrightarrow> bit (take_bit (8 * n) w) i"
    by (auto simp: bit_le_word le_bytes_def bit_simps)
qed

subsection \<open>The access routines\<close>

definition srv32_get_memptr :: "rv \<Rightarrow> i32 \<Rightarrow> int option" where
  "srv32_get_memptr rv addr =
     (if addr <s mem_base rv \<or> mem_base rv + mem_size rv <s addr then None
      else Some (sint (addr - mem_base rv)))"

text \<open>The \<open>n\<close> bytes from offset \<open>off\<close> of the block are allocated.\<close>

definition in_block :: "rv \<Rightarrow> int \<Rightarrow> nat \<Rightarrow> bool" where
  "in_block rv off n \<longleftrightarrow> n = 0 \<or> 0 \<le> off \<and> off + int n \<le> sint (mem_size rv)"

definition block_bytes :: "rv \<Rightarrow> int \<Rightarrow> nat \<Rightarrow> u8 list" where
  "block_bytes rv off n = map (\<lambda>i. mem rv (nat off + i)) [0..<n]"

definition block_store :: "rv \<Rightarrow> int \<Rightarrow> u8 list \<Rightarrow> rv" where
  "block_store rv off bs =
     rv\<lparr>mem := (\<lambda>k. if nat off \<le> k \<and> k < nat off + length bs then bs ! (k - nat off)
                    else mem rv k)\<rparr>"

definition range_check :: "rv \<Rightarrow> i32 \<Rightarrow> i32 \<Rightarrow> bool" where
  "range_check rv addr len \<longleftrightarrow>
     \<not> (addr <s mem_base rv \<or> mem_base rv + mem_size rv <s addr + len)"

definition srv32_write_mem :: "rv \<Rightarrow> i32 \<Rightarrow> i32 \<Rightarrow> u8 list \<Rightarrow> rv option run" where
  "srv32_write_mem rv addr len ptr =
     (let n = nat (sint len); off = sint (addr - mem_base rv)
      in if \<not> range_check rv addr len then Done None
         else if in_block rv off n \<and> n \<le> length ptr
              then Done (Some (block_store rv off (take n ptr)))
              else Fault OutOfBlock)"

definition srv32_read_mem :: "rv \<Rightarrow> i32 \<Rightarrow> i32 \<Rightarrow> u8 list option run" where
  "srv32_read_mem rv addr len =
     (let n = nat (sint len); off = sint (addr - mem_base rv)
      in if \<not> range_check rv addr len then Done None
         else if in_block rv off n then Done (Some (block_bytes rv off n))
              else Fault OutOfBlock)"

lemma block_store_frame [simp]:
  "pc (block_store rv off bs) = pc rv"
  "prev_pc (block_store rv off bs) = prev_pc rv"
  "regs (block_store rv off bs) = regs rv"
  "csr (block_store rv off bs) = csr rv"
  "mem_size (block_store rv off bs) = mem_size rv"
  "mem_base (block_store rv off bs) = mem_base rv"
  "singleram (block_store rv off bs) = singleram rv"
  "rv_static (block_store rv off bs) = rv_static rv"
  by (simp_all add: block_store_def)

lemma block_store_Nil [simp]: "block_store rv off [] = rv"
  by (rule rv.equality) (auto simp: block_store_def fun_eq_iff)

lemma in_block_store [simp]: "in_block (block_store rv off bs) o' n = in_block rv o' n"
  by (simp add: in_block_def)

lemma length_block_bytes [simp]: "length (block_bytes rv off n) = n"
  by (simp add: block_bytes_def)

lemma nth_block_bytes: "i < n \<Longrightarrow> block_bytes rv off n ! i = mem rv (nat off + i)"
  by (simp add: block_bytes_def)

lemma block_bytes_store_same:
  "block_bytes (block_store rv off bs) off (length bs) = bs"
  by (rule nth_equalityI) (auto simp: nth_block_bytes block_store_def)

lemma block_bytes_store_disjoint:
  "0 \<le> off \<Longrightarrow> 0 \<le> o' \<Longrightarrow> off + int (length bs) \<le> o' \<or> o' + int n \<le> off \<Longrightarrow>
   block_bytes (block_store rv off bs) o' n = block_bytes rv o' n"
  by (rule nth_equalityI) (auto simp: nth_block_bytes block_store_def)

text \<open>Where an access succeeds, its offset is the distance from the base without wrap-around.\<close>

lemma offset_exact:
  assumes "range_check rv addr len" and "0 \<le> sint (addr - mem_base rv)"
  shows "sint (addr - mem_base rv) = sint addr - sint (mem_base rv)"
proof -
  have ge: "sint (mem_base rv) \<le> sint addr"
    using assms(1) by (auto simp: range_check_def word_sless_alt)
  have "sint (addr - mem_base rv) = signed_take_bit 31 (sint addr - sint (mem_base rv))"
    by (simp add: sint_word_ariths)
  moreover have "sint addr - sint (mem_base rv) < 2 ^ 32"
    using sint_lt [of addr] sint_ge [of "mem_base rv"] by simp
  ultimately show ?thesis
    using assms(2) ge
    by (cases "sint addr - sint (mem_base rv) < 2 ^ 31")
       (simp_all add: signed_take_bit_int_eq_self signed_take_bit_eq_take_bit_minus
          take_bit_int_eq_self bit_iff_odd div_pos_geq)
qed

subsection \<open>When an access leaves the block\<close>

text \<open>The geometries the options can give without overflowing \<open>mem_base + mem_size\<close>.\<close>

definition mem_ok :: "rv \<Rightarrow> bool" where
  "mem_ok rv \<longleftrightarrow> 4 \<le> sint (mem_size rv) \<and> sint (mem_base rv) + sint (mem_size rv) < 2 ^ 31"

lemma sint_add_exact:
  "- (2 ^ 31) \<le> sint a + sint b \<Longrightarrow> sint a + sint b < 2 ^ 31 \<Longrightarrow> sint (a + b) = sint a + sint b"
  for a b :: i32
  by (simp add: sint_word_ariths signed_take_bit_int_eq_self)

lemma sint_add_overflow:
  fixes a b :: i32
  assumes "2 ^ 31 \<le> sint a + sint b"
  shows "sint (a + b) = sint a + sint b - 2 ^ 32"
proof -
  have "sint a + sint b < 2 ^ 32"
    using sint_lt [of a] sint_lt [of b] by simp
  then show ?thesis
    using assms
    by (simp add: sint_word_ariths signed_take_bit_eq_take_bit_minus take_bit_int_eq_self
        bit_iff_odd div_pos_geq)
qed

lemma mem_end_exact:
  "mem_ok rv \<Longrightarrow> sint (mem_base rv + mem_size rv) = sint (mem_base rv) + sint (mem_size rv)"
  using sint_ge [of "mem_base rv"] by (intro sint_add_exact) (auto simp: mem_ok_def)

lemma sint_diff_exact:
  "- (2 ^ 31) \<le> sint a - sint b \<Longrightarrow> sint a - sint b < 2 ^ 31 \<Longrightarrow> sint (a - b) = sint a - sint b"
  for a b :: i32
  by (simp add: sint_word_ariths signed_take_bit_int_eq_self)

lemma range_check_in_block:
  assumes "mem_ok rv" and "0 \<le> sint len" and "sint addr + sint len < 2 ^ 31"
    and "range_check rv addr len"
  shows "in_block rv (sint (addr - mem_base rv)) (nat (sint len))"
proof -
  have "sint (addr + len) = sint addr + sint len"
    using assms(2,3) sint_ge [of addr] by (intro sint_add_exact) auto
  then have le: "sint (mem_base rv) \<le> sint addr"
    "sint addr + sint len \<le> sint (mem_base rv) + sint (mem_size rv)"
    using assms(1,4) by (auto simp: range_check_def word_sless_alt mem_end_exact)
  then have "sint (addr - mem_base rv) = sint addr - sint (mem_base rv)"
    using assms(2) sint_lt [of "mem_size rv"] by (intro sint_diff_exact) auto
  then show ?thesis
    using le assms(2) by (simp add: in_block_def)
qed

lemma range_check_overflow:
  assumes "mem_ok rv" and "0 < sint len" and "sint len \<le> 4" and "2 ^ 31 \<le> sint addr + sint len"
    and "sint (mem_base rv) \<le> sint addr"
  shows "range_check rv addr len"
    and "\<not> in_block rv (sint (addr - mem_base rv)) (nat (sint len))"
proof -
  have sum: "sint (addr + len) = sint addr + sint len - 2 ^ 32"
    using assms(4) by (rule sint_add_overflow)
  moreover have "sint (mem_base rv + mem_size rv) = sint (mem_base rv) + sint (mem_size rv)"
    using assms(1) by (rule mem_end_exact)
  ultimately show rc: "range_check rv addr len"
    using assms sint_lt [of addr] sint_ge [of "mem_base rv"]
    by (auto simp: range_check_def word_sless_alt mem_ok_def)
  show "\<not> in_block rv (sint (addr - mem_base rv)) (nat (sint len))"
    using offset_exact [OF rc] assms(1,2,4) by (auto simp: in_block_def mem_ok_def)
qed

lemma range_check_base: "range_check rv addr len \<Longrightarrow> sint (mem_base rv) \<le> sint addr"
  by (auto simp: range_check_def word_sless_alt)

lemma read_mem_cases:
  "mem_ok rv \<Longrightarrow> 0 < sint len \<Longrightarrow> sint len \<le> 4 \<Longrightarrow>
   srv32_read_mem rv addr len =
     (if \<not> range_check rv addr len then Done None
      else if sint addr + sint len < 2 ^ 31
           then Done (Some (block_bytes rv (sint (addr - mem_base rv)) (nat (sint len))))
           else Fault OutOfBlock)"
  using range_check_in_block [of rv len addr] range_check_overflow(2) [of rv len addr]
    range_check_base [of rv addr len]
  by (auto simp: srv32_read_mem_def Let_def not_less)

lemma write_mem_cases:
  "mem_ok rv \<Longrightarrow> 0 < sint len \<Longrightarrow> sint len \<le> 4 \<Longrightarrow> length ptr = 4 \<Longrightarrow>
   srv32_write_mem rv addr len ptr =
     (if \<not> range_check rv addr len then Done None
      else if sint addr + sint len < 2 ^ 31
           then Done (Some (block_store rv (sint (addr - mem_base rv)) (take (nat (sint len)) ptr)))
           else Fault OutOfBlock)"
  using range_check_in_block [of rv len addr] range_check_overflow(2) [of rv len addr]
    range_check_base [of rv addr len]
  by (auto simp: srv32_write_mem_def Let_def not_less)

text \<open>
  A load or store of the simulator leaves the block exactly where \<open>addr + len\<close> overflows:
  the top of the positive half of the address space passes the range check.
\<close>

lemma read_mem_fault_iff:
  assumes "mem_ok rv" and "0 < sint len" and "sint len \<le> 4"
  shows "srv32_read_mem rv addr len = Fault OutOfBlock \<longleftrightarrow>
         sint (mem_base rv) \<le> sint addr \<and> 2 ^ 31 \<le> sint addr + sint len"
  using read_mem_cases [OF assms, of addr] range_check_overflow(1) [OF assms, of addr]
    range_check_base [of rv addr len]
  by (auto split: if_splits)

lemma write_mem_fault_iff:
  assumes "mem_ok rv" and "0 < sint len" and "sint len \<le> 4" and "length ptr = 4"
  shows "srv32_write_mem rv addr len ptr = Fault OutOfBlock \<longleftrightarrow>
         sint (mem_base rv) \<le> sint addr \<and> 2 ^ 31 \<le> sint addr + sint len"
  using write_mem_cases [OF assms, of addr] range_check_overflow(1) [OF assms(1-3), of addr]
    range_check_base [of rv addr len]
  by (auto split: if_splits)

subsection \<open>The interface of the load and store unit\<close>

text \<open>
  What \<open>memrw\<close>, the ELF loader and the debug stub rely on: a write and a read of the same
  range agree on whether it is in memory, a read after a write returns the bytes written,
  and bytes outside the written range keep their values.
\<close>

locale byte_store =
  fixes rd :: "'s \<Rightarrow> i32 \<Rightarrow> i32 \<Rightarrow> u8 list option run"
    and wr :: "'s \<Rightarrow> i32 \<Rightarrow> i32 \<Rightarrow> u8 list \<Rightarrow> 's option run"
  assumes wr_rd_same:
      "wr s a n bs = Done (Some s') \<Longrightarrow> rd s' a n = Done (Some (take (nat (sint n)) bs))"
    and wr_rd_other:
      "wr s a n bs = Done (Some s') \<Longrightarrow> rd s b m = Done (Some cs) \<Longrightarrow>
       0 \<le> sint n \<Longrightarrow> 0 \<le> sint m \<Longrightarrow>
       sint a + sint n \<le> sint b \<or> sint b + sint m \<le> sint a \<Longrightarrow> rd s' b m = Done (Some cs)"
    and wr_None_iff: "wr s a n bs = Done None \<longleftrightarrow> rd s a n = Done None"
begin

definition load_word :: "'s \<Rightarrow> i32 \<Rightarrow> i32 \<Rightarrow> i32 option run" where
  "load_word s a n = bind_run (rd s a n) (\<lambda>r. Done (map_option le_word r))"

definition store_word :: "'s \<Rightarrow> i32 \<Rightarrow> i32 \<Rightarrow> i32 \<Rightarrow> 's option run" where
  "store_word s a n v = wr s a n (le_bytes 4 v)"

lemma take_le_bytes: "k \<le> 4 \<Longrightarrow> take k (le_bytes 4 v) = le_bytes k v"
  by (rule nth_equalityI) (auto simp: le_bytes_def)

lemma load_after_store:
  assumes "store_word s a n v = Done (Some s')" and "sint n \<le> 4"
  shows "load_word s' a n = Done (Some (take_bit (8 * nat (sint n)) v))"
  using wr_rd_same [OF assms(1) [unfolded store_word_def]] assms(2)
  by (simp add: load_word_def take_le_bytes le_word_le_bytes)

lemma load_after_other_store:
  assumes "store_word s a n v = Done (Some s')" and "load_word s b m = Done (Some w)"
    and "0 \<le> sint n" and "0 \<le> sint m"
    and "sint a + sint n \<le> sint b \<or> sint b + sint m \<le> sint a"
  shows "load_word s' b m = Done (Some w)"
proof -
  obtain cs where cs: "rd s b m = Done (Some cs)" and w: "w = le_word cs"
    using assms(2) by (auto simp: load_word_def bind_run_Done_iff)
  have "rd s' b m = Done (Some cs)"
    using wr_rd_other [OF assms(1) [unfolded store_word_def] cs assms(3-5)] .
  then show ?thesis by (simp add: load_word_def w)
qed

lemma store_rejected_iff: "store_word s a n v = Done None \<longleftrightarrow> load_word s a n = Done None"
  by (simp add: store_word_def load_word_def wr_None_iff bind_run_Done_iff)

end

lemma write_mem_SomeD:
  assumes "srv32_write_mem rv a n bs = Done (Some rv')"
  shows "range_check rv a n" and "in_block rv (sint (a - mem_base rv)) (nat (sint n))"
    and "nat (sint n) \<le> length bs"
    and "rv' = block_store rv (sint (a - mem_base rv)) (take (nat (sint n)) bs)"
  using assms by (auto simp: srv32_write_mem_def Let_def split: if_splits)

lemma read_mem_SomeD:
  assumes "srv32_read_mem rv a n = Done (Some cs)"
  shows "range_check rv a n" and "in_block rv (sint (a - mem_base rv)) (nat (sint n))"
    and "cs = block_bytes rv (sint (a - mem_base rv)) (nat (sint n))"
  using assms by (auto simp: srv32_read_mem_def Let_def split: if_splits)

lemma range_check_store [simp]:
  "range_check (block_store rv off bs) a n = range_check rv a n"
  by (simp add: range_check_def)

lemma write_read_same:
  assumes "srv32_write_mem rv a n bs = Done (Some rv')"
  shows "srv32_read_mem rv' a n = Done (Some (take (nat (sint n)) bs))"
proof -
  note w = write_mem_SomeD [OF assms]
  show ?thesis
    using w(1,2,3) block_bytes_store_same [of rv "sint (a - mem_base rv)" "take (nat (sint n)) bs"]
    by (simp add: srv32_read_mem_def Let_def w(4) min_absorb2)
qed

lemma write_read_other:
  assumes "srv32_write_mem rv a n bs = Done (Some rv')"
    and "srv32_read_mem rv b m = Done (Some cs)" and "0 \<le> sint n" and "0 \<le> sint m"
    and "sint a + sint n \<le> sint b \<or> sint b + sint m \<le> sint a"
  shows "srv32_read_mem rv' b m = Done (Some cs)"
proof (cases "sint n = 0 \<or> sint m = 0")
  case True
  note w = write_mem_SomeD [OF assms(1)] and r = read_mem_SomeD [OF assms(2)]
  from True show ?thesis
  proof
    assume "sint n = 0"
    then have "rv' = rv" using w(4) by simp
    then show ?thesis using assms(2) by simp
  next
    assume "sint m = 0"
    then show ?thesis
      using r(1,3) by (simp add: srv32_read_mem_def w(4) in_block_def block_bytes_def)
  qed
next
  case False
  note w = write_mem_SomeD [OF assms(1)] and r = read_mem_SomeD [OF assms(2)]
  have offs: "0 \<le> sint (a - mem_base rv)" "0 \<le> sint (b - mem_base rv)"
    using w(2) r(2) False assms(3,4) by (auto simp: in_block_def)
  have "sint (a - mem_base rv) = sint a - sint (mem_base rv)"
    "sint (b - mem_base rv) = sint b - sint (mem_base rv)"
    using offs w(1) r(1) by (auto intro: offset_exact)
  then have "block_bytes rv' (sint (b - mem_base rv)) (nat (sint m)) = cs"
    unfolding w(4) r(3) using offs assms(3-5) w(3)
    by (intro block_bytes_store_disjoint) auto
  then show ?thesis
    using r(1,2) by (simp add: srv32_read_mem_def Let_def w(4))
qed

lemma write_None_iff: "srv32_write_mem rv a n bs = Done None \<longleftrightarrow> srv32_read_mem rv a n = Done None"
  by (simp add: srv32_read_mem_def srv32_write_mem_def Let_def)

interpretation rvmem: byte_store srv32_read_mem srv32_write_mem
  by (unfold_locales; fact write_read_same write_read_other write_None_iff)

end
