(* ===== verification/Syscall.thy ===== *)
theory Syscall
  imports Memory
begin

text \<open>
  The services the simulated program asks of the host: \<open>srv32_syscall\<close> of
  \<open>tools/syscall.c\<close> (the \<open>ecall\<close> interface), \<open>srv32_tohost\<close> and \<open>srv32_fromhost\<close> of
  \<open>tools/htif.c\<close> (the memory-mapped interface) and \<open>prog_exit\<close> of \<open>tools/rvsim.c\<close>. The
  library calls they make are operations of the \<open>host\<close>; every access the services make to
  the memory block is checked.
\<close>

subsection \<open>Pointers into the memory block\<close>

text \<open>The bytes of the block from a pointer on, as a library call sees them.\<close>

definition block_tail :: "rv \<Rightarrow> int \<Rightarrow> u8 list" where
  "block_tail rv off = block_bytes rv off (nat (sint (mem_size rv) - off))"

definition host_view :: "rv \<Rightarrow> int option \<Rightarrow> u8 list option run" where
  "host_view rv p =
     (case p of
        None \<Rightarrow> Done None
      | Some off \<Rightarrow> if 0 \<le> off \<and> off \<le> sint (mem_size rv) then Done (Some (block_tail rv off))
                    else Fault OutOfBlock)"

text \<open>A library call stores bytes through a pointer; with a null pointer it stores none.\<close>

definition host_store :: "rv \<Rightarrow> int option \<Rightarrow> u8 list \<Rightarrow> rv run" where
  "host_store rv p bs =
     (case p of
        None \<Rightarrow> Done rv
      | Some off \<Rightarrow> if in_block rv off (length bs) then Done (block_store rv off bs)
                    else Fault OutOfBlock)"

text \<open>Reading \<open>p[i]\<close> of an \<open>int *p\<close>.\<close>

definition int_at :: "rv \<Rightarrow> int option \<Rightarrow> nat \<Rightarrow> i32 run" where
  "int_at rv p i =
     (case p of
        None \<Rightarrow> Fault NullPointer
      | Some off \<Rightarrow> if in_block rv (off + 4 * int i) 4
                    then Done (le_word (block_bytes rv (off + 4 * int i) 4))
                    else Fault OutOfBlock)"

subsection \<open>The file operations\<close>

text \<open>A path is read up to its terminating zero, which has to be inside the block.\<close>

definition host_open :: "'w host \<Rightarrow> 'w sim \<Rightarrow> int option \<Rightarrow> (i32 \<times> 'w sim) run" where
  "host_open h s p =
     bind_run (host_view (cpu s) p) (\<lambda>v.
       if v \<noteq> None \<and> 0 \<notin> set (the v) then Fault OutOfBlock
       else (case os_open h v (world s) of (r, w) \<Rightarrow> Done (r, s\<lparr>world := w\<rparr>)))"

definition host_close :: "'w host \<Rightarrow> 'w sim \<Rightarrow> i32 \<Rightarrow> (i32 \<times> 'w sim) run" where
  "host_close h s fd = (case os_close h fd (world s) of (r, w) \<Rightarrow> Done (r, s\<lparr>world := w\<rparr>))"

definition host_lseek :: "'w host \<Rightarrow> 'w sim \<Rightarrow> i32 \<Rightarrow> i32 \<Rightarrow> i32 \<Rightarrow> (i32 \<times> 'w sim) run" where
  "host_lseek h s fd off wh =
     (case os_lseek h fd off wh (world s) of (r, w) \<Rightarrow> Done (r, s\<lparr>world := w\<rparr>))"

definition host_read :: "'w host \<Rightarrow> 'w sim \<Rightarrow> i32 \<Rightarrow> int option \<Rightarrow> i32 \<Rightarrow> (i32 \<times> 'w sim) run" where
  "host_read h s fd p len =
     (case os_read h fd (p = None) len (world s) of (r, bs, w) \<Rightarrow>
        bind_run (host_store (cpu s) p bs) (\<lambda>rv. Done (r, s\<lparr>cpu := rv, world := w\<rparr>)))"

text \<open>The length of a write is converted to \<open>size_t\<close>: a negative one is a huge one.\<close>

definition host_write :: "'w host \<Rightarrow> 'w sim \<Rightarrow> i32 \<Rightarrow> int option \<Rightarrow> i32 \<Rightarrow> (i32 \<times> 'w sim) run" where
  "host_write h s fd p len =
     bind_run (host_view (cpu s) p) (\<lambda>v.
       if v \<noteq> None \<and> \<not> (0 \<le> sint len \<and> sint len \<le> int (length (the v))) then Fault OutOfBlock
       else (case os_write h fd (map_option (take (nat (sint len))) v) len (world s) of
               (r, w) \<Rightarrow> Done (r, s\<lparr>world := w\<rparr>)))"

subsection \<open>Dumping memory\<close>

text \<open>\<open>fprintf(fp, "%08x\n", v)\<close>.\<close>

definition hex_digit :: "i32 \<Rightarrow> u8" where
  "hex_digit d = (if d < 10 then 48 + ucast d else 87 + ucast d)"

definition hex_line :: "i32 \<Rightarrow> u8 list" where
  "hex_line v = map (\<lambda>i. hex_digit (fld (28 - 4 * i) 4 v)) [0..<8] @ [10]"

text \<open>
  The loops \<open>while (start != end)\<close>, over words and over bytes. A loop whose end is not
  ahead of its start runs out of the block.
\<close>

function dump_words :: "rv \<Rightarrow> int \<Rightarrow> int \<Rightarrow> u8 list run" where
  "dump_words rv s e =
     (if s = e then Done []
      else if in_block rv s 4 then
        bind_run (dump_words rv (s + 4) e)
          (\<lambda>out. Done (hex_line (le_word (block_bytes rv s 4)) @ out))
      else Fault OutOfBlock)"
  by pat_completeness auto
termination
  by (relation "measure (\<lambda>(rv, s, e). nat (sint (mem_size rv) - s))") (auto simp: in_block_def)

function dump_bytes :: "rv \<Rightarrow> int \<Rightarrow> int \<Rightarrow> u8 list run" where
  "dump_bytes rv s e =
     (if s = e then Done []
      else if in_block rv s 1 then
        bind_run (dump_bytes rv (s + 1) e) (\<lambda>out. Done (block_bytes rv s 1 @ out))
      else Fault OutOfBlock)"
  by pat_completeness auto
termination
  by (relation "measure (\<lambda>(rv, s, e). nat (sint (mem_size rv) - s))") (auto simp: in_block_def)

declare dump_words.simps [simp del] dump_bytes.simps [simp del]

text \<open>
  Two equal pointers, null ones included, make an empty dump; a null start is read, and a
  null end is never reached.
\<close>

definition dump_range ::
    "(rv \<Rightarrow> int \<Rightarrow> int \<Rightarrow> u8 list run) \<Rightarrow> rv \<Rightarrow> int option \<Rightarrow> int option \<Rightarrow> u8 list run" where
  "dump_range loop rv s e =
     (case (s, e) of
        (None, None) \<Rightarrow> Done []
      | (None, Some _) \<Rightarrow> Fault NullPointer
      | (Some _, None) \<Rightarrow> Fault OutOfBlock
      | (Some s, Some e) \<Rightarrow> loop rv s e)"

definition sys_dump :: "'w host \<Rightarrow> 'w sim \<Rightarrow> i32 \<Rightarrow> i32 \<Rightarrow> 'w sim run" where
  "sys_dump h s a0 a1 =
     (case os_fopen h ''dump.txt'' (world s) of (ok, w) \<Rightarrow>
        if \<not> ok then Terminated 1
        else if a0 AND 3 \<noteq> 0 \<or> a1 AND 3 \<noteq> 0 then Terminated 1
        else bind_run
          (dump_range dump_words (cpu s) (srv32_get_memptr (cpu s) a0) (srv32_get_memptr (cpu s) a1))
          (\<lambda>out. Done (s\<lparr>world := os_fwrite h ''dump.txt'' out w\<rparr>)))"

definition sys_dump_bin :: "'w host \<Rightarrow> 'w sim \<Rightarrow> i32 \<Rightarrow> i32 \<Rightarrow> 'w sim run" where
  "sys_dump_bin h s a0 a1 =
     (case os_fopen h ''dump.bin'' (world s) of (ok, w) \<Rightarrow>
        if \<not> ok then Terminated 1
        else bind_run
          (dump_range dump_bytes (cpu s) (srv32_get_memptr (cpu s) a0) (srv32_get_memptr (cpu s) a1))
          (\<lambda>out. Done (s\<lparr>world := os_fwrite h ''dump.bin'' out w\<rparr>)))"

subsection \<open>The two interfaces\<close>

text \<open>
  \<open>prog_exit\<close> ends the process: with status 0 under the debugger, else with the exit code of
  the state. The callers pass a second argument, which the definition does not have.
\<close>

definition prog_exit :: "rv \<Rightarrow> 'a run" where
  "prog_exit rv = Terminated (if debug_en rv then 0 else exitcode rv)"

definition srv32_syscall :: "'w host \<Rightarrow> 'w sim \<Rightarrow> i32 \<Rightarrow> i32 \<Rightarrow> i32 \<Rightarrow> i32 \<Rightarrow> (i32 \<times> 'w sim) run" where
  "srv32_syscall h s func a0 a1 a2 =
     (let a0_ptr = srv32_get_memptr (cpu s) a0; a1_ptr = srv32_get_memptr (cpu s) a1 in
      if func = SYS_OPEN then host_open h s a0_ptr
      else if func = SYS_CLOSE then host_close h s a0
      else if func = SYS_LSEEK then host_lseek h s a0 a1 a2
      else if func = SYS_EXIT then prog_exit (cpu s)
      else if func = SYS_READ then host_read h s a0 a1_ptr a2
      else if func = SYS_WRITE then host_write h s a0 a1_ptr a2
      else if func = SYS_DUMP then bind_run (sys_dump h s a0 a1) (\<lambda>s. Done (a1, s))
      else if func = SYS_DUMP_BIN then bind_run (sys_dump_bin h s a0 a1) (\<lambda>s. Done (a1, s))
      else Done (- 1, s))"

text \<open>\<open>srv32_fromhost\<close> reads the result that \<open>srv32_tohost\<close> left.\<close>

definition srv32_fromhost :: "'w sim \<Rightarrow> i32" where
  "srv32_fromhost s = result s"

definition set_result :: "i32 \<times> 'w sim \<Rightarrow> 'w sim run" where
  "set_result rs = (case rs of (r, s) \<Rightarrow> Done (s\<lparr>result := r\<rparr>))"

definition srv32_tohost :: "'w host \<Rightarrow> 'w sim \<Rightarrow> i32 \<Rightarrow> 'w sim run" where
  "srv32_tohost h s htif_mem =
     (let p = srv32_get_memptr (cpu s) htif_mem in
      bind_run (int_at (cpu s) p 0) (\<lambda>func.
      bind_run (int_at (cpu s) p 1) (\<lambda>a0.
      bind_run (int_at (cpu s) p 2) (\<lambda>a1.
      bind_run (int_at (cpu s) p 3) (\<lambda>a2.
        (let a0_ptr = srv32_get_memptr (cpu s) a0; a1_ptr = srv32_get_memptr (cpu s) a1 in
         if func = SYS_OPEN then bind_run (host_open h s a0_ptr) set_result
         else if func = SYS_CLOSE then bind_run (host_close h s a0) set_result
         else if func = SYS_LSEEK then bind_run (host_lseek h s a0 a1 a2) set_result
         else if func = SYS_EXIT then prog_exit (cpu s)
         else if func = SYS_READ then bind_run (host_read h s a0 a1_ptr a2) set_result
         else if func = SYS_WRITE then bind_run (host_write h s a0 a1_ptr a2) set_result
         else if func = SYS_DUMP then
           bind_run (sys_dump h s a0 a1) (\<lambda>s. Done (s\<lparr>result := 0\<rparr>))
         else if func = SYS_DUMP_BIN then
           bind_run (sys_dump_bin h s a0 a1) (\<lambda>s. Done (s\<lparr>result := 0\<rparr>))
         else Done s))))))"

subsection \<open>What a dump writes\<close>

lemma block_bytes_Cons:
  "0 \<le> s \<Longrightarrow> block_bytes rv s 1 @ block_bytes rv (s + 1) n = block_bytes rv s (Suc n)"
  by (simp add: block_bytes_def upt_conv_Cons map_Suc_upt [symmetric] nat_add_distrib
      del: upt_Suc)

text \<open>
  The byte loop writes the bytes between its bounds when the start is not behind the end and
  the end is inside the block, and otherwise leaves the block.
\<close>

lemma dump_bytes_spec:
  "dump_bytes rv s e =
     (if s = e then Done []
      else if 0 \<le> s \<and> s < e \<and> e \<le> sint (mem_size rv)
           then Done (block_bytes rv s (nat (e - s)))
           else Fault OutOfBlock)"
proof (induction rv s e rule: dump_bytes.induct)
  case (1 rv s e)
  consider "s = e" | "s \<noteq> e" "\<not> in_block rv s 1" | "s \<noteq> e" "in_block rv s 1"
    by blast
  then show ?case
  proof cases
    case 1
    then show ?thesis by (subst dump_bytes.simps) simp
  next
    case 2
    then show ?thesis
      by (subst dump_bytes.simps) (auto simp: in_block_def)
  next
    case 3
    then have s: "0 \<le> s" "s < sint (mem_size rv)" by (auto simp: in_block_def)
    have unfolded: "dump_bytes rv s e =
        bind_run (dump_bytes rv (s + 1) e) (\<lambda>out. Done (block_bytes rv s 1 @ out))"
      using 3 by (subst dump_bytes.simps) simp
    show ?thesis
    proof (cases "s < e \<and> e \<le> sint (mem_size rv)")
      case True
      then have "Suc (nat (e - (s + 1))) = nat (e - s)" by (simp add: Suc_nat_eq_nat_zadd1)
      then show ?thesis
        using True 3 s "1.IH" block_bytes_Cons [OF s(1), of rv "nat (e - (s + 1))"]
        by (auto simp: unfolded block_bytes_def)
    next
      case False
      then show ?thesis
        using 3 s "1.IH" by (auto simp: unfolded)
    qed
  qed
qed

subsection \<open>What a service changes\<close>

text \<open>
  A service reaches the processor through the memory block alone, and leaves the variables
  of the step function as they are.
\<close>

definition service_frame :: "'w sim \<Rightarrow> 'w sim \<Rightarrow> bool" where
  "service_frame s s' \<longleftrightarrow> (\<exists>m. cpu s' = (cpu s)\<lparr>mem := m\<rparr>) \<and> st s' = st s"

lemma service_frame_same: "cpu s' = cpu s \<Longrightarrow> st s' = st s \<Longrightarrow> service_frame s s'"
  unfolding service_frame_def by (intro conjI exI [of _ "mem (cpu s)"]) simp_all

lemma service_frame_result [simp]:
  "service_frame s (s'\<lparr>result := r\<rparr>) \<longleftrightarrow> service_frame s s'"
  by (simp add: service_frame_def)

lemma host_open_frame: "run_all (\<lambda>(r, s'). service_frame s s') (host_open h s p)"
  by (cases "host_view (cpu s) p")
    (auto simp: host_open_def service_frame_same split: prod.split)

lemma host_close_frame: "run_all (\<lambda>(r, s'). service_frame s s') (host_close h s fd)"
  by (auto simp: host_close_def service_frame_same split: prod.split)

lemma host_lseek_frame: "run_all (\<lambda>(r, s'). service_frame s s') (host_lseek h s fd off wh)"
  by (auto simp: host_lseek_def service_frame_same split: prod.split)

lemma host_write_frame: "run_all (\<lambda>(r, s'). service_frame s s') (host_write h s fd p len)"
  by (cases "host_view (cpu s) p")
    (auto simp: host_write_def service_frame_same split: prod.split)

lemma host_store_mem: "run_all (\<lambda>rv'. \<exists>m. rv' = rv\<lparr>mem := m\<rparr>) (host_store rv p bs)"
proof (cases p)
  case None
  then show ?thesis
    by (auto simp: host_store_def intro: exI [of _ "mem rv"])
next
  case (Some off)
  then show ?thesis
    by (auto simp: host_store_def block_store_def)
qed

lemma host_read_frame: "run_all (\<lambda>(r, s'). service_frame s s') (host_read h s fd p len)"
proof -
  obtain r bs w where eq: "os_read h fd (p = None) len (world s) = (r, bs, w)"
    by (cases "os_read h fd (p = None) len (world s)") auto
  show ?thesis
    using host_store_mem [of "cpu s" p bs]
    by (cases "host_store (cpu s) p bs") (auto simp: host_read_def eq service_frame_def)
qed

lemma sys_dump_frame: "run_all (service_frame s) (sys_dump h s a0 a1)"
  by (auto simp: sys_dump_def service_frame_same run_all_def bind_run_Done_iff split: prod.split run.split)

lemma sys_dump_bin_frame: "run_all (service_frame s) (sys_dump_bin h s a0 a1)"
  by (auto simp: sys_dump_bin_def service_frame_same run_all_def bind_run_Done_iff split: prod.split run.split)

lemma run_all_Terminated [simp]: "run_all P (prog_exit rv)"
  by (simp add: prog_exit_def)

lemma syscall_frame: "run_all (\<lambda>(r, s'). service_frame s s') (srv32_syscall h s func a0 a1 a2)"
  using sys_dump_frame [of s h a0 a1] sys_dump_bin_frame [of s h a0 a1]
  by (cases "sys_dump h s a0 a1"; cases "sys_dump_bin h s a0 a1")
    (simp_all add: srv32_syscall_def Let_def host_open_frame host_close_frame host_lseek_frame
      host_read_frame host_write_frame service_frame_same)

lemma run_all_set_result:
  "run_all (\<lambda>(r, s'). service_frame s s') m \<Longrightarrow> run_all (service_frame s) (bind_run m set_result)"
  by (cases m) (auto simp: set_result_def)

lemma run_all_bindI: "(\<And>a. r = Done a \<Longrightarrow> run_all P (f a)) \<Longrightarrow> run_all P (bind_run r f)"
  by (cases r) auto

lemma tohost_frame: "run_all (service_frame s) (srv32_tohost h s a)"
proof -
  have dump: "run_all (service_frame s) (bind_run (sys_dump h s a0 a1) (\<lambda>s. Done (s\<lparr>result := 0\<rparr>)))"
    "run_all (service_frame s) (bind_run (sys_dump_bin h s a0 a1) (\<lambda>s. Done (s\<lparr>result := 0\<rparr>)))"
    for a0 a1
    using sys_dump_frame [of s h a0 a1] sys_dump_bin_frame [of s h a0 a1]
    by (auto intro!: run_all_bindI)
  show ?thesis
    unfolding srv32_tohost_def Let_def
    by (intro run_all_bindI)
      (simp add: dump run_all_set_result host_open_frame host_close_frame host_lseek_frame
        host_read_frame host_write_frame service_frame_same)
qed

end
