(* ===== verification/Trap.thy ===== *)
theory Trap
  imports Machine
begin

text \<open>
  Cycle accounting, trap entry, interrupt entry and the \<open>mstatus\<close> side of \<open>mret\<close>
  (\<open>srv32_cycle_add\<close>, \<open>srv32_trap\<close>, \<open>srv32_int\<close> and the \<open>mret\<close> case of \<open>srv32_step\<close> in
  \<open>tools/rvsim.c\<close>). The lemmas read every field of the state after an entry and show that
  leaving restores the interrupt enable that entering saved.
\<close>

subsection \<open>Cycle accounting, traps and interrupts\<close>

definition srv32_cycle_add :: "rv \<Rightarrow> i32 \<Rightarrow> rv" where
  "srv32_cycle_add rv count =
     (let c = csr rv; c' = c\<lparr>c_cycle := c_cycle c + scast count\<rparr>
      in rv\<lparr>csr := (if mtime_update rv then c'
                   else c'\<lparr>c_mtime := c_mtime c' + scast count\<rparr>)\<rparr>)"

text \<open>\<open>mstatus\<close> on entry to a trap or interrupt: MPIE := MIE, then MIE := 0.\<close>

definition mstatus_enter :: "i32 \<Rightarrow> i32" where
  "mstatus_enter m =
     (let m' = (if m AND shl1 MIE \<noteq> 0 then m OR shl1 MPIE
                else m AND NOT (shl1 MPIE))
      in m' AND NOT (shl1 MIE))"

definition srv32_trap :: "rv \<Rightarrow> i32 \<Rightarrow> i32 \<Rightarrow> rv" where
  "srv32_trap rv cause val =
     (let rv1 = srv32_cycle_add rv (branch_penalty rv);
          c = csr rv1
      in rv1\<lparr>csr := c\<lparr>mcause := cause, mstatus := mstatus_enter (mstatus c),
                      mepc := prev_pc rv1, mtval := val\<rparr>,
             pc := (if mtvec c AND 1 \<noteq> 0 then (mtvec c AND 0xfffffffe) + cause * 4
                    else mtvec c)\<rparr>)"

definition srv32_int :: "rv \<Rightarrow> i32 \<Rightarrow> nat \<Rightarrow> bool \<Rightarrow> rv" where
  "srv32_int rv cause src compressed =
     (let rv1 = (if pc rv = (if compressed then prev_pc rv + 2 else prev_pc rv + 4)
                 then srv32_cycle_add rv (branch_penalty rv) else rv);
          c = csr rv1
      in rv1\<lparr>csr := c\<lparr>mcause := cause, mstatus := mstatus_enter (mstatus c),
                      mip := mip c OR shl1 src, mepc := pc rv1\<rparr>,
             pc := (if mtvec c AND 1 \<noteq> 0
                    then (mtvec c AND 0xfffffffe) + (cause AND NOT (shl1 31)) * 4
                    else mtvec c)\<rparr>)"

text \<open>\<open>mret\<close>: MIE := MPIE. The comment of the source also announces MPIE := 1.\<close>

definition mstatus_leave :: "i32 \<Rightarrow> i32" where
  "mstatus_leave m =
     (if m AND shl1 MPIE \<noteq> 0 then m OR shl1 MIE
      else m AND NOT (shl1 MIE))"

subsection \<open>Frame\<close>

lemma cycle_add_frame [simp, frame]:
  "pc (srv32_cycle_add rv k) = pc rv"
  "prev_pc (srv32_cycle_add rv k) = prev_pc rv"
  "regs (srv32_cycle_add rv k) = regs rv"
  "debug_en (srv32_cycle_add rv k) = debug_en rv"
  "branch_penalty (srv32_cycle_add rv k) = branch_penalty rv"
  "branch_predict (srv32_cycle_add rv k) = branch_predict rv"
  "mem_size (srv32_cycle_add rv k) = mem_size rv"
  "mem_base (srv32_cycle_add rv k) = mem_base rv"
  "mem (srv32_cycle_add rv k) = mem rv"
  "singleram (srv32_cycle_add rv k) = singleram rv"
  "mtime_update (srv32_cycle_add rv k) = mtime_update rv"
  "exitcode (srv32_cycle_add rv k) = exitcode rv"
  by (simp_all add: srv32_cycle_add_def Let_def)


lemma cycle_add_csr:
  "csr (srv32_cycle_add rv k) =
     (csr rv)\<lparr>c_cycle := c_cycle (csr rv) + scast k,
              c_mtime := (if mtime_update rv then c_mtime (csr rv)
                          else c_mtime (csr rv) + scast k)\<rparr>"
  by (simp add: srv32_cycle_add_def Let_def)

lemma rv_static_cycle_add [simp]: "rv_static (srv32_cycle_add rv k) = rv_static rv"
  by (simp add: rv_static_def cycle_add_csr)

lemma rv_static_trap [simp]: "rv_static (srv32_trap rv cause val) = rv_static rv"
  by (simp add: srv32_trap_def Let_def rv_static_def cycle_add_csr)

lemma rv_static_int [simp]: "rv_static (srv32_int rv cause src c) = rv_static rv"
  by (simp add: srv32_int_def Let_def rv_static_def cycle_add_csr)

lemma trap_frame [simp, frame]:
  "prev_pc (srv32_trap rv cause val) = prev_pc rv"
  "regs (srv32_trap rv cause val) = regs rv"
  "mem (srv32_trap rv cause val) = mem rv"
  "mem_size (srv32_trap rv cause val) = mem_size rv"
  "mem_base (srv32_trap rv cause val) = mem_base rv"
  "mtime_update (srv32_trap rv cause val) = mtime_update rv"
  "exitcode (srv32_trap rv cause val) = exitcode rv"
  by (simp_all add: srv32_trap_def Let_def)

lemma int_frame [simp, frame]:
  "prev_pc (srv32_int rv cause src c) = prev_pc rv"
  "regs (srv32_int rv cause src c) = regs rv"
  "mem (srv32_int rv cause src c) = mem rv"
  "mem_size (srv32_int rv cause src c) = mem_size rv"
  "mem_base (srv32_int rv cause src c) = mem_base rv"
  "mtime_update (srv32_int rv cause src c) = mtime_update rv"
  "exitcode (srv32_int rv cause src c) = exitcode rv"
  by (simp_all add: srv32_int_def Let_def)

subsection \<open>Entering\<close>

lemma bit_mstatus_enter [bits]:
  "bit (mstatus_enter m) n \<longleftrightarrow>
     n \<noteq> MIE \<and> (if n = MPIE then bit m MIE else bit m n)"
  by (auto simp: mstatus_enter_def bits bit_simps Let_def dest: bit_imp_le_length)

lemma bit_mstatus_leave [bits]:
  "bit (mstatus_leave m) n \<longleftrightarrow> (if n = MIE then bit m MPIE else bit m n)"
  by (auto simp: mstatus_leave_def bits bit_simps dest: bit_imp_le_length)

text \<open>The trap vector: direct, or vectored with four bytes per cause.\<close>

definition trap_target :: "i32 \<Rightarrow> i32 \<Rightarrow> i32" where
  "trap_target tvec cause =
     (if bit tvec 0 then (tvec AND 0xfffffffe) + 4 * cause else tvec)"

lemma and_1_iff_bit0: "w AND 1 = 0 \<longleftrightarrow> \<not> bit w 0" for w :: i32
  using and_shl1_iff_bit [of w 0] by (simp add: shl1_def)

lemma trap_csrs:
  "pc (srv32_trap rv cause val) = trap_target (mtvec (csr rv)) cause"
  "mepc (csr (srv32_trap rv cause val)) = prev_pc rv"
  "mcause (csr (srv32_trap rv cause val)) = cause"
  "mtval (csr (srv32_trap rv cause val)) = val"
  "mstatus (csr (srv32_trap rv cause val)) = mstatus_enter (mstatus (csr rv))"
  "mtvec (csr (srv32_trap rv cause val)) = mtvec (csr rv)"
  "mie (csr (srv32_trap rv cause val)) = mie (csr rv)"
  "mip (csr (srv32_trap rv cause val)) = mip (csr rv)"
  "c_cycle (csr (srv32_trap rv cause val)) = c_cycle (csr rv) + scast (branch_penalty rv)"
  by (simp_all add: srv32_trap_def Let_def cycle_add_csr trap_target_def and_1_iff_bit0 mult.commute)

lemma int_csrs:
  "pc (srv32_int rv cause src c) =
     trap_target (mtvec (csr rv)) (cause AND NOT (shl1 31))"
  "mepc (csr (srv32_int rv cause src c)) = pc rv"
  "mcause (csr (srv32_int rv cause src c)) = cause"
  "mtval (csr (srv32_int rv cause src c)) = mtval (csr rv)"
  "mstatus (csr (srv32_int rv cause src c)) = mstatus_enter (mstatus (csr rv))"
  "mtvec (csr (srv32_int rv cause src c)) = mtvec (csr rv)"
  "mie (csr (srv32_int rv cause src c)) = mie (csr rv)"
  "mip (csr (srv32_int rv cause src c)) = mip (csr rv) OR shl1 src"
  by (simp_all add: srv32_int_def Let_def cycle_add_csr trap_target_def and_1_iff_bit0 mult.commute)

text \<open>Leaving restores the interrupt enable and every bit but the saved one.\<close>

lemma mstatus_leave_enter:
  "bit (mstatus_leave (mstatus_enter m)) n \<longleftrightarrow> (if n = MPIE then bit m MIE else bit m n)"
  by (simp add: bits)

end
