(* ===== verification/Decode.thy ===== *)
theory Decode
  imports Opcode
begin

text \<open>
  The immediate decoders of \<open>tools/rvsim.c\<close>. \<open>to_imm_b\<close> and \<open>to_imm_j\<close> pass the raw field
  through a union of bit-fields; each is shown equal to the immediate of the instruction
  format as the RISC-V manual lays it out.
\<close>

definition to_imm_i :: "i32 \<Rightarrow> i32" where
  "to_imm_i n = (if n AND shl1 11 \<noteq> 0 then n OR 0xfffff000 else n)"

definition to_imm_s :: "i32 \<Rightarrow> i32 \<Rightarrow> i32" where
  "to_imm_s n1 n2 =
     (let n = push_bit 5 n1 + n2
      in if n AND shl1 11 \<noteq> 0 then n OR 0xfffff000 else n)"

definition to_imm_b :: "i32 \<Rightarrow> i32 \<Rightarrow> i32" where
  "to_imm_b n1 n2 =
     (let r = push_bit 5 n1 + n2;
          a0 = fld 0 1 r; a1 = fld 1 4 r; a2 = fld 5 6 r; a3 = fld 11 1 r;
          m = push_bit 12 a3 OR push_bit 5 a2 OR push_bit 1 a1 OR push_bit 11 a0
      in if m AND shl1 12 \<noteq> 0 then m OR 0xffffe000 else m)"

definition to_imm_j :: "i32 \<Rightarrow> i32" where
  "to_imm_j n =
     (let a0 = fld 0 8 n; a1 = fld 8 1 n; a2 = fld 9 10 n; a3 = fld 19 1 n;
          m = push_bit 20 a3 OR push_bit 1 a2 OR push_bit 11 a1 OR push_bit 12 a0
      in if m AND shl1 20 \<noteq> 0 then m OR 0xffe00000 else m)"

definition to_imm_u :: "i32 \<Rightarrow> i32" where
  "to_imm_u n = push_bit 12 n"

subsection \<open>The immediates of the instruction formats\<close>

definition imm_I :: "i32 \<Rightarrow> i32" where
  "imm_I w = sext 12 (gather [(0, 20, 12)] w)"

definition imm_S :: "i32 \<Rightarrow> i32" where
  "imm_S w = sext 12 (gather [(0, 7, 5), (5, 25, 7)] w)"

definition imm_B :: "i32 \<Rightarrow> i32" where
  "imm_B w = sext 13 (gather [(1, 8, 4), (5, 25, 6), (11, 7, 1), (12, 31, 1)] w)"

definition imm_U :: "i32 \<Rightarrow> i32" where
  "imm_U w = gather [(12, 12, 20)] w"

definition imm_J :: "i32 \<Rightarrow> i32" where
  "imm_J w = sext 21 (gather [(1, 21, 10), (11, 20, 1), (12, 12, 8), (20, 31, 1)] w)"

text \<open>The two halves of a split immediate do not overlap, so their sum is their union.\<close>

lemma join_halves: "push_bit 5 (fld 25 7 w) + fld 7 5 w = push_bit 5 (fld 25 7 w) OR fld 7 5 w"
  for w :: i32
  by (rule disjunctive_add) (auto simp: bits bit_simps)

lemma to_imm_i_spec: "to_imm_i (i_imm w) = imm_I w"
  by (rule word32_eqI)
    (simp add: to_imm_i_def imm_I_def bits bit_simps bit_positions_def)

lemma to_imm_s_spec: "to_imm_s (s_imm2 w) (s_imm1 w) = imm_S w"
  by (rule word32_eqI)
    (simp add: to_imm_s_def imm_S_def join_halves Let_def bits bit_simps bit_positions_def)

lemma to_imm_b_spec: "to_imm_b (b_imm2 w) (b_imm1 w) = imm_B w"
  by (rule word32_eqI)
    (simp add: to_imm_b_def imm_B_def join_halves Let_def bits bit_simps bit_positions_def)

lemma to_imm_u_spec: "to_imm_u (u_imm w) = imm_U w"
  by (simp add: to_imm_u_def imm_U_def)

lemma to_imm_j_spec: "to_imm_j (j_imm w) = imm_J w"
  by (rule word32_eqI)
    (simp add: to_imm_j_def imm_J_def Let_def bits bit_simps bit_positions_def)

lemmas to_imm_specs =
  to_imm_i_spec to_imm_s_spec to_imm_b_spec to_imm_u_spec to_imm_j_spec

text \<open>Branch and jump offsets are even.\<close>

lemma imm_B_even: "\<not> bit (imm_B w) 0"
  by (simp add: imm_B_def bits bit_simps)

lemma imm_J_even: "\<not> bit (imm_J w) 0"
  by (simp add: imm_J_def bits bit_simps)

lemma imm_bounds:
  "- 2048 \<le> sint (imm_I w) \<and> sint (imm_I w) < 2048"
  "- 2048 \<le> sint (imm_S w) \<and> sint (imm_S w) < 2048"
  "- 4096 \<le> sint (imm_B w) \<and> sint (imm_B w) < 4096"
  "- 1048576 \<le> sint (imm_J w) \<and> sint (imm_J w) < 1048576"
  using sint_sext_bounds [of 12 "gather [(0, 20, 12)] w"]
    sint_sext_bounds [of 12 "gather [(0, 7, 5), (5, 25, 7)] w"]
    sint_sext_bounds [of 13 "gather [(1, 8, 4), (5, 25, 6), (11, 7, 1), (12, 31, 1)] w"]
    sint_sext_bounds [of 21 "gather [(1, 21, 10), (11, 20, 1), (12, 12, 8), (20, 31, 1)] w"]
  by (simp_all add: imm_I_def imm_S_def imm_B_def imm_J_def del: gather.simps)

end
