(* ===== verification/Isa.thy ===== *)
theory Isa
  imports Decode
begin

text \<open>
  A reference for the instruction set the simulator implements: the RV32IM instructions as
  a datatype, their decoding as the RISC-V manual tabulates it, the value each arithmetic
  instruction computes over the integers, and the effect of an instruction on an
  architectural state (program counter, registers, bytes of memory). The simulator's own
  code is not used here; the refinement theorems relate it to these definitions.
\<close>

subsection \<open>Instructions\<close>

datatype branch_op = B_eq | B_ne | B_lt | B_ge | B_ltu | B_geu

datatype load_op = L_b | L_h | L_w | L_bu | L_hu

datatype store_op = S_b | S_h | S_w

datatype alu_op =
    A_add | A_sub | A_sll | A_slt | A_sltu | A_xor | A_srl | A_sra | A_or | A_and
  | A_mul | A_mulh | A_mulhsu | A_mulhu | A_div | A_divu | A_rem | A_remu

datatype csr_op = C_rw | C_rs | C_rc

datatype insn =
    Lui nat i32
  | Auipc nat i32
  | Jal nat i32
  | Jalr nat nat i32
  | Branch branch_op nat nat i32
  | Load load_op nat nat i32
  | Store store_op nat nat i32
  | OpImm alu_op nat nat i32
  | Op alu_op nat nat nat
  | Fence
  | Ecall
  | Ebreak
  | Mret
  | Csr csr_op nat nat i32
  | CsrImm csr_op nat i32 i32

subsection \<open>Decoding\<close>

definition branch_op_of :: "i32 \<Rightarrow> branch_op option" where
  "branch_op_of f =
     (if f = 0 then Some B_eq else if f = 1 then Some B_ne else if f = 4 then Some B_lt
      else if f = 5 then Some B_ge else if f = 6 then Some B_ltu
      else if f = 7 then Some B_geu else None)"

definition load_op_of :: "i32 \<Rightarrow> load_op option" where
  "load_op_of f =
     (if f = 0 then Some L_b else if f = 1 then Some L_h else if f = 2 then Some L_w
      else if f = 4 then Some L_bu else if f = 5 then Some L_hu else None)"

definition store_op_of :: "i32 \<Rightarrow> store_op option" where
  "store_op_of f =
     (if f = 0 then Some S_b else if f = 1 then Some S_h else if f = 2 then Some S_w else None)"

definition imm_op_of :: "i32 \<Rightarrow> i32 \<Rightarrow> alu_op option" where
  "imm_op_of f f7 =
     (if f = 0 then Some A_add
      else if f = 1 then (if f7 = 0 then Some A_sll else None)
      else if f = 2 then Some A_slt else if f = 3 then Some A_sltu
      else if f = 4 then Some A_xor
      else if f = 5 then (if f7 = 0 then Some A_srl else if f7 = 0x20 then Some A_sra else None)
      else if f = 6 then Some A_or else if f = 7 then Some A_and else None)"

definition reg_op_of :: "i32 \<Rightarrow> i32 \<Rightarrow> alu_op option" where
  "reg_op_of f f7 =
     (if f7 = 0 then
        (if f = 0 then Some A_add else if f = 1 then Some A_sll else if f = 2 then Some A_slt
         else if f = 3 then Some A_sltu else if f = 4 then Some A_xor
         else if f = 5 then Some A_srl else if f = 6 then Some A_or
         else if f = 7 then Some A_and else None)
      else if f7 = 0x20 then
        (if f = 0 then Some A_sub else if f = 5 then Some A_sra else None)
      else if f7 = 1 then
        (if f = 0 then Some A_mul else if f = 1 then Some A_mulh else if f = 2 then Some A_mulhsu
         else if f = 3 then Some A_mulhu else if f = 4 then Some A_div
         else if f = 5 then Some A_divu else if f = 6 then Some A_rem
         else if f = 7 then Some A_remu else None)
      else None)"

definition is_shift :: "alu_op \<Rightarrow> bool" where
  "is_shift aop \<longleftrightarrow> aop = A_sll \<or> aop = A_srl \<or> aop = A_sra"

definition decode_system :: "i32 \<Rightarrow> insn option" where
  "decode_system w =
     (let f = fld 12 3 w; rd = unat (fld 7 5 w); rs1 = fld 15 5 w; c = fld 20 12 w
      in if f = 0 then
           (if w = 0x00000073 then Some Ecall else if w = 0x00100073 then Some Ebreak
            else if w = 0x30200073 then Some Mret else None)
         else if f = 1 then Some (Csr C_rw rd (unat rs1) c)
         else if f = 2 then Some (Csr C_rs rd (unat rs1) c)
         else if f = 3 then Some (Csr C_rc rd (unat rs1) c)
         else if f = 5 then Some (CsrImm C_rw rd rs1 c)
         else if f = 6 then Some (CsrImm C_rs rd rs1 c)
         else if f = 7 then Some (CsrImm C_rc rd rs1 c)
         else None)"

definition decode :: "i32 \<Rightarrow> insn option" where
  "decode w =
     (let opc = fld 0 7 w; rd = unat (fld 7 5 w); f = fld 12 3 w;
          rs1 = unat (fld 15 5 w); rs2 = unat (fld 20 5 w); f7 = fld 25 7 w
      in if opc = 0x37 then Some (Lui rd (imm_U w))
         else if opc = 0x17 then Some (Auipc rd (imm_U w))
         else if opc = 0x6f then Some (Jal rd (imm_J w))
         else if opc = 0x67 then (if f = 0 then Some (Jalr rd rs1 (imm_I w)) else None)
         else if opc = 0x63 then
           map_option (\<lambda>b. Branch b rs1 rs2 (imm_B w)) (branch_op_of f)
         else if opc = 0x03 then map_option (\<lambda>l. Load l rd rs1 (imm_I w)) (load_op_of f)
         else if opc = 0x23 then map_option (\<lambda>s. Store s rs2 rs1 (imm_S w)) (store_op_of f)
         else if opc = 0x13 then
           map_option (\<lambda>a. OpImm a rd rs1 (if is_shift a then fld 20 5 w else imm_I w))
             (imm_op_of f f7)
         else if opc = 0x33 then map_option (\<lambda>a. Op a rd rs1 rs2) (reg_op_of f f7)
         else if opc = 0x0f then Some Fence
         else if opc = 0x73 then decode_system w
         else None)"

subsection \<open>What the arithmetic instructions compute\<close>

definition alu :: "alu_op \<Rightarrow> i32 \<Rightarrow> i32 \<Rightarrow> i32" where
  "alu aop a b = (case aop of
     A_add \<Rightarrow> word_of_int (sint a + sint b)
   | A_sub \<Rightarrow> word_of_int (sint a - sint b)
   | A_sll \<Rightarrow> word_of_int (uint a * 2 ^ (unat b mod 32))
   | A_slt \<Rightarrow> of_bool (sint a < sint b)
   | A_sltu \<Rightarrow> of_bool (uint a < uint b)
   | A_xor \<Rightarrow> a XOR b
   | A_srl \<Rightarrow> word_of_int (uint a div 2 ^ (unat b mod 32))
   | A_sra \<Rightarrow> word_of_int (sint a div 2 ^ (unat b mod 32))
   | A_or \<Rightarrow> a OR b
   | A_and \<Rightarrow> a AND b
   | A_mul \<Rightarrow> word_of_int (sint a * sint b)
   | A_mulh \<Rightarrow> word_of_int ((sint a * sint b) div 2 ^ 32)
   | A_mulhsu \<Rightarrow> word_of_int ((sint a * uint b) div 2 ^ 32)
   | A_mulhu \<Rightarrow> word_of_int ((uint a * uint b) div 2 ^ 32)
   | A_div \<Rightarrow> if b = 0 then - 1 else word_of_int (sint a sdiv sint b)
   | A_divu \<Rightarrow> if b = 0 then - 1 else word_of_int (uint a div uint b)
   | A_rem \<Rightarrow> if b = 0 then a else word_of_int (sint a smod sint b)
   | A_remu \<Rightarrow> if b = 0 then a else word_of_int (uint a mod uint b))"

definition branch_taken :: "branch_op \<Rightarrow> i32 \<Rightarrow> i32 \<Rightarrow> bool" where
  "branch_taken bop a b = (case bop of
     B_eq \<Rightarrow> a = b | B_ne \<Rightarrow> a \<noteq> b
   | B_lt \<Rightarrow> sint a < sint b | B_ge \<Rightarrow> sint b \<le> sint a
   | B_ltu \<Rightarrow> uint a < uint b | B_geu \<Rightarrow> uint b \<le> uint a)"

subsection \<open>The architectural state and its instructions\<close>

record arch =
  apc :: i32
  xreg :: "nat \<Rightarrow> i32"
  abyte :: "i32 \<Rightarrow> u8"

definition set_x :: "nat \<Rightarrow> i32 \<Rightarrow> arch \<Rightarrow> arch" where
  "set_x rd v s = (if rd = 0 then s else s\<lparr>xreg := (xreg s)(rd := v)\<rparr>)"

definition load_width :: "load_op \<Rightarrow> nat" where
  "load_width l = (case l of L_b \<Rightarrow> 1 | L_h \<Rightarrow> 2 | L_w \<Rightarrow> 4 | L_bu \<Rightarrow> 1 | L_hu \<Rightarrow> 2)"

definition store_width :: "store_op \<Rightarrow> nat" where
  "store_width s = (case s of S_b \<Rightarrow> 1 | S_h \<Rightarrow> 2 | S_w \<Rightarrow> 4)"

fun bytes_at :: "(i32 \<Rightarrow> u8) \<Rightarrow> i32 \<Rightarrow> nat \<Rightarrow> i32" where
  "bytes_at m a 0 = 0"
| "bytes_at m a (Suc n) = ucast (m a) OR push_bit 8 (bytes_at m (a + 1) n)"

fun put_bytes :: "(i32 \<Rightarrow> u8) \<Rightarrow> i32 \<Rightarrow> nat \<Rightarrow> i32 \<Rightarrow> (i32 \<Rightarrow> u8)" where
  "put_bytes m a 0 v = m"
| "put_bytes m a (Suc n) v = put_bytes (m(a := ucast v)) (a + 1) n (drop_bit 8 v)"

definition load_value :: "load_op \<Rightarrow> i32 \<Rightarrow> i32" where
  "load_value l v = (case l of L_b \<Rightarrow> sext 8 v | L_h \<Rightarrow> sext 16 v | _ \<Rightarrow> v)"

text \<open>\<open>len\<close> is the length of the instruction in bytes: 2 when it was compressed.\<close>

fun isa_exec :: "i32 \<Rightarrow> insn \<Rightarrow> arch \<Rightarrow> arch" where
  "isa_exec len (Lui rd imm) s = set_x rd imm (s\<lparr>apc := apc s + len\<rparr>)"
| "isa_exec len (Auipc rd imm) s = set_x rd (apc s + imm) (s\<lparr>apc := apc s + len\<rparr>)"
| "isa_exec len (Jal rd imm) s = set_x rd (apc s + len) (s\<lparr>apc := apc s + imm\<rparr>)"
| "isa_exec len (Jalr rd rs1 imm) s =
     set_x rd (apc s + len) (s\<lparr>apc := (xreg s rs1 + imm) AND NOT 1\<rparr>)"
| "isa_exec len (Branch b rs1 rs2 imm) s =
     s\<lparr>apc := apc s + (if branch_taken b (xreg s rs1) (xreg s rs2) then imm else len)\<rparr>"
| "isa_exec len (Load l rd rs1 imm) s =
     set_x rd (load_value l (bytes_at (abyte s) (xreg s rs1 + imm) (load_width l)))
       (s\<lparr>apc := apc s + len\<rparr>)"
| "isa_exec len (Store w rs2 rs1 imm) s =
     s\<lparr>apc := apc s + len,
       abyte := put_bytes (abyte s) (xreg s rs1 + imm) (store_width w) (xreg s rs2)\<rparr>"
| "isa_exec len (OpImm a rd rs1 imm) s =
     set_x rd (alu a (xreg s rs1) imm) (s\<lparr>apc := apc s + len\<rparr>)"
| "isa_exec len (Op a rd rs1 rs2) s =
     set_x rd (alu a (xreg s rs1) (xreg s rs2)) (s\<lparr>apc := apc s + len\<rparr>)"
| "isa_exec len _ s = s\<lparr>apc := apc s + len\<rparr>"

end
