(* ===== verification/Loadstore.thy ===== *)
theory Loadstore
  imports Syscall Trap Isa
begin

text \<open>
  The load and store unit: \<open>memrw\<close> of \<open>tools/rvsim.c\<close>, with the devices behind the
  addresses that are not memory (console, exit, host interface, timer, software interrupt).
\<close>

subsection \<open>Loads\<close>

text \<open>
  A load answers (state, code, value): code 0, or the trap cause. The value stays 0 unless
  the code is 0.
\<close>

definition mmio_read :: "'w host \<Rightarrow> 'w sim \<Rightarrow> i32 \<Rightarrow> ('w sim \<times> i32) option" where
  "mmio_read h s address =
     (let c = csr (cpu s) in
      if address = MMIO_PUTC then Some (s, 0)
      else if address = MMIO_GETC then
        (case os_getch h (world s) of (r, w) \<Rightarrow> Some (s\<lparr>world := w\<rparr>, r))
      else if address = MMIO_EXIT then Some (s, 0)
      else if address = MMIO_FROMHOST then Some (s, srv32_fromhost s)
      else if address = MMIO_MTIME then Some (s, counter_lo (c_mtime c - 1))
      else if address = MMIO_MTIME + 4 then Some (s, counter_hi (c_mtime c - 1))
      else if address = MMIO_MTIMECMP then Some (s, counter_lo (c_mtimecmp c))
      else if address = MMIO_MTIMECMP + 4 then Some (s, counter_hi (c_mtimecmp c))
      else if address = MMIO_MSIP then Some (s, msip c)
      else None)"

definition load_extend :: "i32 \<Rightarrow> i32 \<Rightarrow> i32" where
  "load_extend f3 data =
     (if f3 = OP_LB then (if data AND 0x80 \<noteq> 0 then data OR 0xffffff00 else data)
      else if f3 = OP_LH then (if data AND 0x8000 \<noteq> 0 then data OR 0xffff0000 else data)
      else data)"

text \<open>The length of the access, or the trap cause of the checks before it.\<close>

definition load_check :: "i32 \<Rightarrow> i32 \<Rightarrow> i32 + i32" where
  "load_check f3 address =
     (if f3 = OP_LB then Inr 1
      else if f3 = OP_LBU then Inr 1
      else if f3 = OP_LH then (if address AND 1 \<noteq> 0 then Inl TRAP_LD_ALIGN else Inr 2)
      else if f3 = OP_LHU then (if address AND 1 \<noteq> 0 then Inl TRAP_LD_ALIGN else Inr 2)
      else if f3 = OP_LW then (if address AND 3 \<noteq> 0 then Inl TRAP_LD_ALIGN else Inr 4)
      else Inl TRAP_INST_ILL)"

definition memrw_load :: "'w host \<Rightarrow> 'w sim \<Rightarrow> i32 \<Rightarrow> i32 \<Rightarrow> ('w sim \<times> i32 \<times> i32) run" where
  "memrw_load h s f3 address =
     (case load_check f3 address of
        Inl cause \<Rightarrow> Done (s, cause, 0)
      | Inr len \<Rightarrow>
          bind_run (srv32_read_mem (cpu s) address len) (\<lambda>r.
            case r of
              Some bs \<Rightarrow> Done (s, 0, load_extend f3 (le_word bs))
            | None \<Rightarrow>
                (case mmio_read h s address of
                   Some (s', data) \<Rightarrow> Done (s', 0, load_extend f3 data)
                 | None \<Rightarrow> Done (s, TRAP_LD_FAIL, 0))))"

subsection \<open>Stores\<close>

definition store_mask :: "i32 \<Rightarrow> i32" where
  "store_mask f3 =
     (if f3 = OP_SB then 0xff else if f3 = OP_SH then 0xffff
      else if f3 = OP_SW then 0xffffffff else 0xffffffff)"

definition store_check :: "i32 \<Rightarrow> i32 \<Rightarrow> i32 + i32" where
  "store_check f3 address =
     (if f3 = OP_SB then Inr 1
      else if f3 = OP_SH then (if address AND 1 \<noteq> 0 then Inl TRAP_ST_ALIGN else Inr 2)
      else if f3 = OP_SW then (if address AND 3 \<noteq> 0 then Inl TRAP_ST_ALIGN else Inr 4)
      else Inl TRAP_INST_ILL)"

text \<open>\<open>(reg & ~mask) | data\<close>, as the timer and interrupt registers are written.\<close>

definition mmio_merge :: "i32 \<Rightarrow> i32 \<Rightarrow> i32 \<Rightarrow> i32" where
  "mmio_merge msk data reg = (reg AND NOT msk) OR data"

text \<open>
  The devices. A store to the exit register answers \<open>RV_EXIT\<close>, whose value is 2. The host
  interface reads a word at the stored address for the trace before it serves the request.
\<close>

definition mtime_store :: "'w sim \<Rightarrow> i64 \<Rightarrow> 'w sim" where
  "mtime_store s t =
     s\<lparr>cpu := (cpu s)\<lparr>csr := (csr (cpu s))\<lparr>c_mtime := t - 1\<rparr>, mtime_update := True\<rparr>\<rparr>"

definition mmio_write :: "'w host \<Rightarrow> 'w sim \<Rightarrow> i32 \<Rightarrow> i32 \<Rightarrow> i32 \<Rightarrow> ('w sim \<times> i32) run" where
  "mmio_write h s msk address data =
     (let rv = cpu s; c = csr rv in
      if address = MMIO_PUTC then Done (s\<lparr>world := os_putchar h (ucast data) (world s)\<rparr>, 0)
      else if address = MMIO_GETC then Done (s, 0)
      else if address = MMIO_EXIT then Done (s\<lparr>cpu := rv\<lparr>exitcode := data\<rparr>\<rparr>, 2)
      else if address = MMIO_TOHOST then
        bind_run (srv32_read_mem rv data 4) (\<lambda>_.
        bind_run (srv32_tohost h s data) (\<lambda>s'. Done (s', 0)))
      else if address = MMIO_MTIME then
        Done (mtime_store s (set_counter_lo (mmio_merge msk data (counter_lo (c_mtime c)))
                              (c_mtime c)), 0)
      else if address = MMIO_MTIME + 4 then
        Done (mtime_store s (set_counter_hi (mmio_merge msk data (counter_hi (c_mtime c)))
                              (c_mtime c)), 0)
      else if address = MMIO_MTIMECMP then
        Done (s\<lparr>cpu := rv\<lparr>csr := c\<lparr>c_mtimecmp :=
          set_counter_lo (mmio_merge msk data (counter_lo (c_mtimecmp c))) (c_mtimecmp c)\<rparr>\<rparr>\<rparr>, 0)
      else if address = MMIO_MTIMECMP + 4 then
        Done (s\<lparr>cpu := rv\<lparr>csr := c\<lparr>c_mtimecmp :=
          set_counter_hi (mmio_merge msk data (counter_hi (c_mtimecmp c))) (c_mtimecmp c)\<rparr>\<rparr>\<rparr>, 0)
      else if address = MMIO_MSIP then
        Done (s\<lparr>cpu := rv\<lparr>csr := c\<lparr>msip := mmio_merge msk data (msip c)\<rparr>\<rparr>\<rparr>, 0)
      else Done (s, TRAP_ST_FAIL))"

definition memrw_store :: "'w host \<Rightarrow> 'w sim \<Rightarrow> i32 \<Rightarrow> i32 \<Rightarrow> i32 \<Rightarrow> ('w sim \<times> i32) run" where
  "memrw_store h s f3 address data =
     (case store_check f3 address of
        Inl cause \<Rightarrow> Done (s, cause)
      | Inr len \<Rightarrow>
          bind_run (srv32_write_mem (cpu s) address len (le_bytes 4 data)) (\<lambda>r.
            case r of
              Some rv \<Rightarrow> Done (s\<lparr>cpu := rv\<rparr>, 0)
            | None \<Rightarrow> mmio_write h s (store_mask f3) address data))"

subsection \<open>What a load or a store changes\<close>

text \<open>
  A load changes only the outside world. A store also changes the memory block, the timer,
  the software-interrupt register, the exit code and the host result.
\<close>

definition load_frame :: "'w sim \<Rightarrow> 'w sim \<Rightarrow> bool" where
  "load_frame s s' \<longleftrightarrow> cpu s' = cpu s \<and> st s' = st s \<and> result s' = result s"

lemma mmio_read_frame: "mmio_read h s a = Some (s', v) \<Longrightarrow> load_frame s s'"
  by (auto simp: mmio_read_def load_frame_def Let_def split: if_splits prod.splits)

lemma memrw_load_frame: "run_all (\<lambda>(s', c, v). load_frame s s') (memrw_load h s f3 a)"
  by (auto simp: memrw_load_def load_frame_def mmio_read_frame [unfolded load_frame_def]
      intro!: run_all_bindI split: sum.split option.split)

definition store_frame :: "'w sim \<Rightarrow> 'w sim \<Rightarrow> bool" where
  "store_frame s s' \<longleftrightarrow>
     regs (cpu s') = regs (cpu s) \<and> pc (cpu s') = pc (cpu s) \<and> prev_pc (cpu s') = prev_pc (cpu s) \<and>
     rv_static (cpu s') = rv_static (cpu s) \<and> st s' = st s \<and>
     (\<exists>t u m. csr (cpu s') = (csr (cpu s))\<lparr>c_mtime := t, c_mtimecmp := u, msip := m\<rparr>)"

lemma csr_same_frame: "\<exists>t u m. c = c\<lparr>c_mtime := t, c_mtimecmp := u, msip := m\<rparr>" for c :: csrs
  by (intro exI [of _ "c_mtime c"] exI [of _ "c_mtimecmp c"] exI [of _ "msip c"]) simp

lemma store_frame_refl [simp]: "store_frame s s"
  using csr_same_frame by (simp add: store_frame_def)

lemma store_frame_service: "service_frame s s' \<Longrightarrow> store_frame s s'"
  using csr_same_frame by (auto simp: service_frame_def store_frame_def)

lemma store_frame_block_store:
  "store_frame s (s\<lparr>cpu := block_store (cpu s) off bs\<rparr>)"
  using csr_same_frame by (simp add: store_frame_def)

lemma store_frame_mtime: "store_frame s (mtime_store s t)"
  unfolding store_frame_def mtime_store_def
  by (simp add: rv_static_def)
    (intro exI [of _ "t - 1"] exI [of _ "c_mtimecmp (csr (cpu s))"] exI [of _ "msip (csr (cpu s))"],
      simp)

lemma mmio_write_frame: "run_all (\<lambda>(s', c). store_frame s s') (mmio_write h s msk a data)"
proof -
  have host: "run_all (\<lambda>(s', c). store_frame s s')
      (bind_run (srv32_read_mem (cpu s) data 4) (\<lambda>_.
        bind_run (srv32_tohost h s data) (\<lambda>s'. Done (s', 0 :: i32))))"
    using tohost_frame [of s h data]
    by (auto intro!: run_all_bindI store_frame_service)
  have world: "store_frame s (s\<lparr>world := w\<rparr>)" for w
    using csr_same_frame by (simp add: store_frame_def)
  have exit: "store_frame s (s\<lparr>cpu := (cpu s)\<lparr>exitcode := c\<rparr>\<rparr>)" for c
    using csr_same_frame by (simp add: store_frame_def)
  have cmp: "store_frame s (s\<lparr>cpu := (cpu s)\<lparr>csr := (csr (cpu s))\<lparr>c_mtimecmp := u\<rparr>\<rparr>\<rparr>)" for u
    by (simp add: store_frame_def rv_static_def)
      (intro exI [of _ "c_mtime (csr (cpu s))"] exI [of _ u] exI [of _ "msip (csr (cpu s))"], simp)
  have msi: "store_frame s (s\<lparr>cpu := (cpu s)\<lparr>csr := (csr (cpu s))\<lparr>msip := m\<rparr>\<rparr>\<rparr>)" for m
    by (simp add: store_frame_def rv_static_def)
      (intro exI [of _ "c_mtime (csr (cpu s))"] exI [of _ "c_mtimecmp (csr (cpu s))"] exI [of _ m],
        simp)
  show ?thesis
    using host by (simp add: mmio_write_def Let_def world exit cmp msi store_frame_mtime)
qed

lemma memrw_store_frame: "run_all (\<lambda>(s', c). store_frame s s') (memrw_store h s f3 a data)"
  using mmio_write_frame [of s h "store_mask f3" a data]
  by (auto simp: memrw_store_def store_frame_block_store dest!: write_mem_SomeD(4)
      intro!: run_all_bindI split: sum.split option.split)


subsection \<open>Loads and stores of memory\<close>

text \<open>The width and the extension of a load are those of the ISA.\<close>

lemma and_low_bits:
  "a AND 1 = 0 \<longleftrightarrow> unat a mod 2 = 0" "a AND 3 = 0 \<longleftrightarrow> unat a mod 4 = 0" for a :: i32
proof -
  have eq: "a AND 1 = take_bit 1 a" "a AND 3 = take_bit 2 a"
    by (simp_all add: take_bit_eq_mask mask_eq_exp_minus_1)
  have "unat (take_bit n a) = unat a mod 2 ^ n" for n
    unfolding take_bit_eq_mod [of n "unat a", symmetric] by (rule unsigned_take_bit_eq)
  from this [of 1] this [of 2]
  have "unat (take_bit 1 a) = unat a mod 2" "unat (take_bit 2 a) = unat a mod 4"
    by simp_all
  then show "a AND 1 = 0 \<longleftrightarrow> unat a mod 2 = 0" "a AND 3 = 0 \<longleftrightarrow> unat a mod 4 = 0"
    unfolding eq by (metis unat_0 unat_eq_zero)+
qed

lemma load_check_op:
  "load_op_of f3 = Some l \<Longrightarrow>
   load_check f3 a =
     (if unat a mod load_width l \<noteq> 0 then Inl TRAP_LD_ALIGN else Inr (of_nat (load_width l)))"
  by (auto simp: load_op_of_def load_check_def load_width_def and_low_bits split: if_splits)

lemma load_check_none: "load_op_of f3 = None \<Longrightarrow> load_check f3 a = Inl TRAP_INST_ILL"
  by (auto simp: load_op_of_def load_check_def split: if_splits)

lemma store_check_op:
  "store_op_of f3 = Some so \<Longrightarrow>
   store_check f3 a =
     (if unat a mod store_width so \<noteq> 0 then Inl TRAP_ST_ALIGN else Inr (of_nat (store_width so)))"
  by (auto simp: store_op_of_def store_check_def store_width_def and_low_bits split: if_splits)

lemma store_check_none: "store_op_of f3 = None \<Longrightarrow> store_check f3 a = Inl TRAP_INST_ILL"
  by (auto simp: store_op_of_def store_check_def split: if_splits)

lemma and_sign_bits:
  "w AND 0x80 = 0 \<longleftrightarrow> \<not> bit w 7" "w AND 0x8000 = 0 \<longleftrightarrow> \<not> bit w 15" for w :: i32
  using and_shl1_iff_bit [of w 7] and_shl1_iff_bit [of w 15] by (simp_all add: shl1_def)

lemma load_extend_byte: "load_extend OP_LB (take_bit 8 v) = sext 8 v"
  by (rule word32_eqI)
    (simp add: load_extend_def and_sign_bits bits bit_simps bit_positions_def)

lemma load_extend_half: "load_extend OP_LH (take_bit 16 v) = sext 16 v"
  by (rule word32_eqI)
    (simp add: load_extend_def and_sign_bits bits bit_simps bit_positions_def)

lemma load_extend_unsigned:
  "load_extend OP_LW v = v" "load_extend OP_LBU v = v" "load_extend OP_LHU v = v"
  by (simp_all add: load_extend_def)

lemma sext_take_bit: "0 < n \<Longrightarrow> n \<le> 32 \<Longrightarrow> sext n (take_bit n v) = sext n v"
  by (rule bit_word_eqI) (auto simp: bits bit_simps)

lemma load_extend_op:
  "load_op_of f3 = Some l \<Longrightarrow>
   load_extend f3 (take_bit (8 * load_width l) v) =
     load_value l (take_bit (8 * load_width l) v)"
  by (auto simp: load_op_of_def load_width_def load_value_def sext_take_bit load_extend_unsigned
      load_extend_byte load_extend_half split: if_splits)

lemma take_bit_le_word: "take_bit (8 * length bs) (le_word bs) = le_word bs"
  by (rule bit_word_eqI) (auto simp: bit_simps bit_le_word div_less_iff_less_mult mult.commute)

lemma load_width_cases: "load_width l = 1 \<or> load_width l = 2 \<or> load_width l = 4"
  by (cases l) (simp_all add: load_width_def)

lemma store_width_cases: "store_width so = 1 \<or> store_width so = 2 \<or> store_width so = 4"
  by (cases so) (simp_all add: store_width_def)

lemma sint_width: "n = 1 \<or> n = 2 \<or> n = 4 \<Longrightarrow> sint (of_nat n :: i32) = int n"
  by auto

lemma sint_load_width [simp]: "sint (of_nat (load_width l) :: i32) = int (load_width l)"
  by (rule sint_width) (rule load_width_cases)

lemma sint_store_width [simp]: "sint (of_nat (store_width so) :: i32) = int (store_width so)"
  by (rule sint_width) (rule store_width_cases)

lemma length_read_mem:
  "srv32_read_mem rv a n = Done (Some bs) \<Longrightarrow> length bs = nat (sint n)"
  by (auto dest: read_mem_SomeD(3))

text \<open>A load from memory.\<close>

lemma memrw_load_memory:
  assumes "load_op_of f3 = Some l" and "unat a mod load_width l = 0"
    and "srv32_read_mem (cpu s) a (of_nat (load_width l)) = Done (Some bs)"
  shows "memrw_load h s f3 a = Done (s, 0, load_value l (le_word bs))"
proof -
  have "length bs = load_width l"
    using length_read_mem [OF assms(3)] by simp
  then have "load_extend f3 (le_word bs) = load_value l (le_word bs)"
    using load_extend_op [OF assms(1), of "le_word bs"] take_bit_le_word [of bs] by simp
  then show ?thesis
    using assms by (simp add: memrw_load_def load_check_op)
qed

lemma memrw_store_memory:
  assumes "store_op_of f3 = Some so" and "unat a mod store_width so = 0"
    and "srv32_write_mem (cpu s) a (of_nat (store_width so)) (le_bytes 4 v) = Done (Some rv)"
  shows "memrw_store h s f3 a v = Done (s\<lparr>cpu := rv\<rparr>, 0)"
  using assms by (simp add: memrw_store_def store_check_op)

text \<open>
  Through the unit: a load of the address and width just stored returns the value stored,
  extended as the load asks, and a load of bytes apart from it returns what it did.
\<close>

lemma load_after_store_unit:
  assumes "store_op_of f3 = Some so" and "load_op_of f3' = Some l"
    and "load_width l = store_width so" and "unat a mod store_width so = 0"
    and "srv32_write_mem (cpu s) a (of_nat (store_width so)) (le_bytes 4 v) = Done (Some rv)"
  shows "memrw_load h (s\<lparr>cpu := rv\<rparr>) f3' a =
    Done (s\<lparr>cpu := rv\<rparr>, 0, load_value l (take_bit (8 * load_width l) v))"
proof -
  have "rvmem.store_word (cpu s) a (of_nat (store_width so)) v = Done (Some rv)"
    using assms(5) by (simp add: rvmem.store_word_def)
  then have "rvmem.load_word rv a (of_nat (store_width so)) =
      Done (Some (take_bit (8 * store_width so) v))"
    using rvmem.load_after_store [of "cpu s" a "of_nat (store_width so)" v rv]
      store_width_cases [of so] by fastforce
  then obtain bs where "srv32_read_mem rv a (of_nat (load_width l)) = Done (Some bs)"
    and "le_word bs = take_bit (8 * load_width l) v"
    using assms(3) by (auto simp: rvmem.load_word_def bind_run_Done_iff)
  then show ?thesis
    using memrw_load_memory [OF assms(2), of a "s\<lparr>cpu := rv\<rparr>" bs h] assms(3,4) by simp
qed

end
