(* ===== verification/Alu.thy ===== *)
theory Alu
  imports Machine Isa
begin

text \<open>
  The value computed by the cases \<open>OP_ARITHI\<close> and \<open>OP_ARITHR\<close> of \<open>srv32_step\<close> in
  \<open>tools/rvsim.c\<close>: the integer, multiply and bit-manipulation instructions. \<open>None\<close> is the
  branch that raises an illegal-instruction trap. The lemmas relate the RV32IM values to the
  integer semantics of \<open>Isa\<close> and the bit-manipulation routines to what they compute.
\<close>

subsection \<open>Bit-manipulation routines\<close>

text \<open>CLZ: a cascade of tests that shifts the highest set bit to the top.\<close>

definition clz_stage :: "i32 \<Rightarrow> nat \<Rightarrow> i32 \<times> i32 \<Rightarrow> i32 \<times> i32" where
  "clz_stage m n s = (case s of (x, r) \<Rightarrow>
     if x AND m = 0 then (push_bit n x, r + of_nat n) else (x, r))"

definition clz :: "i32 \<Rightarrow> i32" where
  "clz x =
     (if x = 0 then 32
      else
        let s = clz_stage 0xffff0000 16 (x, 0);
            s = clz_stage 0xff000000 8 s;
            s = clz_stage 0xf0000000 4 s;
            s = clz_stage 0xc0000000 2 s
        in if fst s AND 0x80000000 = 0 then snd s + 1 else snd s)"

text \<open>CPOP: a loop that clears the lowest set bit.\<close>

lemma and_pred_less: "n \<noteq> 0 \<Longrightarrow> n AND (n - 1) < n" for n :: i32
proof -
  assume n: "n \<noteq> 0"
  have "unat (n - 1) < unat n"
    using n by (simp add: unat_minus_one unat_gt_0)
  then have "n - 1 < n"
    by (simp add: word_less_nat_alt)
  with word_and_le1 [of n "n - 1"] show ?thesis
    by (metis and.commute le_less_trans word_and_le2)
qed

function cpop :: "i32 \<Rightarrow> i32 \<Rightarrow> i32" where
  "cpop n c = (if n \<noteq> 0 then cpop (n AND (n - 1)) (c + 1) else c)"
  by pat_completeness auto
termination
  by (relation "measure (\<lambda>(n, c). unat n)") (auto simp: and_pred_less unat_mono)

declare cpop.simps [simp del]

text \<open>CTZ: a table indexed by the product of the lowest set bit and a de Bruijn constant.\<close>

definition ctz_table :: "nat list" where
  "ctz_table =
     [0, 1, 28, 2, 29, 14, 24, 3, 30, 22, 20, 15, 25, 17, 4, 8,
      31, 27, 13, 23, 21, 19, 16, 7, 26, 12, 18, 6, 11, 5, 10, 9]"

definition ctz :: "i32 \<Rightarrow> i32" where
  "ctz x =
     (if x = 0 then 32
      else of_nat (ctz_table ! unat (drop_bit 27 ((x AND - x) * 0x077CB531))))"

definition sext_b :: "i32 \<Rightarrow> i32" where
  "sext_b v = (let n = v AND 0xff in if n AND 0x80 \<noteq> 0 then n OR 0xffffff00 else n)"

definition sext_h :: "i32 \<Rightarrow> i32" where
  "sext_h v = (let n = v AND 0xffff in if n AND 0x8000 \<noteq> 0 then n OR 0xffff0000 else n)"

definition orc_b :: "i32 \<Rightarrow> i32" where
  "orc_b v =
     (let n = 0;
          n = (if v AND 0x000000ff \<noteq> 0 then n OR 0x000000ff else n);
          n = (if v AND 0x0000ff00 \<noteq> 0 then n OR 0x0000ff00 else n);
          n = (if v AND 0x00ff0000 \<noteq> 0 then n OR 0x00ff0000 else n);
          n = (if v AND 0xff000000 \<noteq> 0 then n OR 0xff000000 else n)
      in n)"

definition rev8 :: "i32 \<Rightarrow> i32" where
  "rev8 n =
     ((drop_bit 24 n AND 0x000000ff) OR (drop_bit 8 n AND 0x0000ff00) OR
      (push_bit 8 n AND 0x00ff0000) OR (push_bit 24 n AND 0xff000000))"

text \<open>The carry-less products: \<open>for\<close> loops over the bits of the second operand.\<close>

definition clmul :: "i32 \<Rightarrow> i32 \<Rightarrow> i32" where
  "clmul a b =
     foldl (\<lambda>n i. if signed_drop_bit i b AND 1 \<noteq> 0 then n XOR push_bit i a else n) 0 [0..<32]"

definition clmulh :: "i32 \<Rightarrow> i32 \<Rightarrow> i32" where
  "clmulh a b =
     foldl (\<lambda>n i. if drop_bit i b AND 1 \<noteq> 0 then n XOR drop_bit (32 - i) a else n) 0 [1..<32]"

definition clmulr :: "i32 \<Rightarrow> i32 \<Rightarrow> i32" where
  "clmulr a b =
     foldl (\<lambda>n i. if drop_bit i b AND 1 \<noteq> 0 then n XOR drop_bit (32 - i - 1) a else n) 0 [0..<32]"

subsection \<open>The multiply extension\<close>

text \<open>The high half of the 64-bit union \<open>r\<close>.\<close>

definition high_half :: "i64 \<Rightarrow> i32" where
  "high_half l = ucast (drop_bit 32 l)"

text \<open>\<open>/\<close> and \<open>%\<close> on \<open>int64_t\<close> operands: the quotient is truncated towards zero.\<close>

definition sdiv64 :: "i64 \<Rightarrow> i64 \<Rightarrow> i64" where
  "sdiv64 a b = word_of_int (sint a sdiv sint b)"

definition smod64 :: "i64 \<Rightarrow> i64 \<Rightarrow> i64" where
  "smod64 a b = word_of_int (sint a smod sint b)"

definition exec_rv32m :: "i32 \<Rightarrow> i32 \<Rightarrow> i32 \<Rightarrow> i32 option" where
  "exec_rv32m f3 a b =
     (if f3 = OP_MUL then Some (a * b)
      else if f3 = OP_MULH then Some (high_half (scast a * scast b))
      else if f3 = OP_MULSU then Some (high_half (scast a * ucast b))
      else if f3 = OP_MULU then Some (high_half (ucast a * ucast b))
      else if f3 = OP_DIV then
        (if b \<noteq> 0 then Some (ucast (sdiv64 (scast a) (scast b))) else Some 0xffffffff)
      else if f3 = OP_DIVU then (if b \<noteq> 0 then Some (a div b) else Some 0xffffffff)
      else if f3 = OP_REM then
        (if b \<noteq> 0 then Some (ucast (smod64 (scast a) (scast b))) else Some a)
      else if f3 = OP_REMU then (if b \<noteq> 0 then Some (a mod b) else Some a)
      else None)"

subsection \<open>The immediate instructions\<close>

definition exec_slli :: "config \<Rightarrow> i32 \<Rightarrow> i32 \<Rightarrow> i32 option" where
  "exec_slli cfg w a =
     (let n = unat (i_imm w AND 0x1f); f7 = r_func7 w in
      if f7 = FN_RV32I then Some (push_bit n a)
      else if RV32B cfg \<and> f7 = FN_BSET then Some (a OR shl1 n)
      else if RV32B cfg \<and> f7 = FN_BCLR then Some (a AND NOT (shl1 n))
      else if RV32B cfg \<and> f7 = FN_CLZ then
        (if r_rs2 w = 0 then Some (clz a)
         else if r_rs2 w = 2 then Some (cpop a 0)
         else if r_rs2 w = 1 then Some (ctz a)
         else if r_rs2 w = 4 then Some (sext_b a)
         else if r_rs2 w = 5 then Some (sext_h a)
         else None)
      else if RV32B cfg \<and> f7 = FN_BINV then Some (a XOR shl1 n)
      else None)"

definition exec_srli :: "config \<Rightarrow> 'w host \<Rightarrow> i32 \<Rightarrow> i32 \<Rightarrow> i32 option" where
  "exec_srli cfg h w a =
     (let n = i_imm w AND 0x1f; f7 = r_func7 w in
      if f7 = FN_SRL then Some (drop_bit (unat n) a)
      else if f7 = FN_SRA then Some (signed_drop_bit (unat n) a)
      else if RV32B cfg \<and> f7 = FN_BSET then (if r_rs2 w = 7 then Some (orc_b a) else None)
      else if RV32B cfg \<and> f7 = FN_BCLR then Some (signed_drop_bit (unat n) a AND 1)
      else if RV32B cfg \<and> f7 = FN_CLZ then Some (drop_bit (unat n) a OR c_shl h a (32 - n))
      else if RV32B cfg \<and> f7 = FN_REV then (if n = 0x18 then Some (rev8 a) else None)
      else None)"

definition exec_arithi :: "config \<Rightarrow> 'w host \<Rightarrow> i32 \<Rightarrow> i32 \<Rightarrow> i32 option" where
  "exec_arithi cfg h w a =
     (let imm = to_imm_i (i_imm w); f3 = i_func3 w in
      if f3 = OP_ADD then Some (a + imm)
      else if f3 = OP_SLT then Some (if a <s imm then 1 else 0)
      else if f3 = OP_SLTU then Some (if a < imm then 1 else 0)
      else if f3 = OP_XOR then Some (a XOR imm)
      else if f3 = OP_OR then Some (a OR imm)
      else if f3 = OP_AND then Some (a AND imm)
      else if f3 = OP_SLL then exec_slli cfg w a
      else if f3 = OP_SR then exec_srli cfg h w a
      else None)"

subsection \<open>The register instructions\<close>

definition exec_rv32i :: "'w host \<Rightarrow> i32 \<Rightarrow> i32 \<Rightarrow> i32 \<Rightarrow> i32 option" where
  "exec_rv32i h f3 a b =
     (if f3 = OP_ADD then Some (a + b)
      else if f3 = OP_SLL then Some (c_shl h a b)
      else if f3 = OP_SLT then Some (if a <s b then 1 else 0)
      else if f3 = OP_SLTU then Some (if a < b then 1 else 0)
      else if f3 = OP_XOR then Some (a XOR b)
      else if f3 = OP_SR then Some (c_shr h a b)
      else if f3 = OP_OR then Some (a OR b)
      else if f3 = OP_AND then Some (a AND b)
      else None)"

definition exec_andn :: "config \<Rightarrow> 'w host \<Rightarrow> i32 \<Rightarrow> i32 \<Rightarrow> i32 \<Rightarrow> i32 option" where
  "exec_andn cfg h f3 a b =
     (if f3 = OP_ADD then Some (a - b)
      else if f3 = OP_SR then Some (c_sar h a b)
      else if RV32B cfg \<and> f3 = OP_AND then Some (a AND NOT b)
      else if RV32B cfg \<and> f3 = OP_OR then Some (a OR NOT b)
      else if RV32B cfg \<and> f3 = OP_XOR then Some (NOT (a XOR b))
      else None)"

definition exec_minmax :: "i32 \<Rightarrow> i32 \<Rightarrow> i32 \<Rightarrow> i32 option" where
  "exec_minmax f3 a b =
     (if f3 = OP_CLMUL then Some (clmul a b)
      else if f3 = OP_CLMULH then Some (clmulh a b)
      else if f3 = OP_CLMULR then Some (clmulr a b)
      else if f3 = OP_MAX then Some (if b <s a then a else b)
      else if f3 = OP_MAXU then Some (if b < a then a else b)
      else if f3 = OP_MIN then Some (if a <s b then a else b)
      else if f3 = OP_MINU then Some (if a < b then a else b)
      else None)"

definition exec_shadd :: "i32 \<Rightarrow> i32 \<Rightarrow> i32 \<Rightarrow> i32 option" where
  "exec_shadd f3 a b =
     (if f3 = OP_SH1ADD then Some (b + push_bit 1 a)
      else if f3 = OP_SH2ADD then Some (b + push_bit 2 a)
      else if f3 = OP_SH3ADD then Some (b + push_bit 3 a)
      else None)"

definition exec_bclr :: "i32 \<Rightarrow> i32 \<Rightarrow> i32 \<Rightarrow> i32 option" where
  "exec_bclr f3 a b =
     (let n = unat (b AND 0x1f) in
      if f3 = OP_BCLR then Some (a AND NOT (shl1 n))
      else if f3 = OP_BEXT then Some (signed_drop_bit n a AND 1)
      else None)"

definition exec_rot :: "'w host \<Rightarrow> i32 \<Rightarrow> i32 \<Rightarrow> i32 \<Rightarrow> i32 option" where
  "exec_rot h f3 a b =
     (let n = b AND 0x1f in
      if f3 = OP_ROL then Some (push_bit (unat n) a OR c_shr h a (32 - n))
      else if f3 = OP_ROR then Some (drop_bit (unat n) a OR c_shl h a (32 - n))
      else None)"

definition exec_arithr :: "config \<Rightarrow> 'w host \<Rightarrow> i32 \<Rightarrow> i32 \<Rightarrow> i32 \<Rightarrow> i32 option" where
  "exec_arithr cfg h w a b =
     (let f3 = r_func3 w; f7 = r_func7 w in
      if RV32M cfg \<and> f7 = FN_RV32M then exec_rv32m f3 a b
      else if f7 = FN_RV32I then exec_rv32i h f3 a b
      else if f7 = FN_ANDN then exec_andn cfg h f3 a b
      else if RV32B cfg \<and> f7 = FN_ZEXT then Some (a AND 0xffff)
      else if RV32B cfg \<and> f7 = FN_MINMAX then exec_minmax f3 a b
      else if RV32B cfg \<and> f7 = FN_SHADD then exec_shadd f3 a b
      else if RV32B cfg \<and> f7 = FN_BSET then Some (a OR shl1 (unat (b AND 0x1f)))
      else if RV32B cfg \<and> f7 = FN_BCLR then exec_bclr f3 a b
      else if RV32B cfg \<and> f7 = FN_CLZ then exec_rot h f3 a b
      else if RV32B cfg \<and> f7 = FN_BINV then Some (a XOR shl1 (unat (b AND 0x1f)))
      else None)"

subsection \<open>What the immediate and register instructions compute\<close>

lemma word_of_int_32: "(word_of_int (sint a + sint b) :: i32) = a + b"
  "(word_of_int (sint a - sint b) :: i32) = a - b"
  "(word_of_int (sint a * sint b) :: i32) = a * b"
  by simp_all

lemma high_half_word_of_int:
  "high_half (word_of_int k) = word_of_int (k div 2 ^ 32)"
  unfolding drop_bit_eq_div [symmetric]
  by (rule bit_word_eqI) (simp add: high_half_def bit_simps)

lemma scast_of_int: "(scast a :: i64) = word_of_int (sint a)" for a :: i32
  by (rule bit_word_eqI) (simp add: bit_simps)

lemma ucast_of_int: "(ucast a :: i64) = word_of_int (uint a)" for a :: i32
  by (rule bit_word_eqI) (simp add: bit_simps)

lemma ucast_word_of_int: "(ucast (word_of_int k :: i64) :: i32) = word_of_int k"
  by (rule bit_word_eqI) (simp add: bit_simps)

lemma sint_scast: "sint (scast a :: i64) = sint a" for a :: i32
  by (rule bit_eqI) (auto simp: bit_simps min_def)

lemma push_bit_of_int: "push_bit n a = word_of_int (uint a * 2 ^ n)" for a :: i32
  by (simp add: push_bit_eq_mult)

lemma drop_bit_of_int: "drop_bit n a = word_of_int (uint a div 2 ^ n)" for a :: i32
  by (rule bit_word_eqI) (auto simp: bit_simps simp flip: drop_bit_eq_div dest: bit_imp_le_length)

lemma signed_drop_bit_of_int: "signed_drop_bit n a = word_of_int (sint a div 2 ^ n)" for a :: i32
  unfolding drop_bit_eq_div [symmetric] sint_signed_drop_bit_eq [symmetric] by simp

lemma udiv_of_int: "a div b = word_of_int (uint a div uint b)"
  "a mod b = word_of_int (uint a mod uint b)" for a b :: i32
  by (simp_all add: word_div_def word_mod_def)

lemma high_half_products:
  "high_half (scast a * scast b) = word_of_int ((sint a * sint b) div 2 ^ 32)"
  "high_half (scast a * ucast b) = word_of_int ((sint a * uint b) div 2 ^ 32)"
  "high_half (ucast a * ucast b) = word_of_int ((uint a * uint b) div 2 ^ 32)" for a b :: i32
  by (simp_all only: scast_of_int ucast_of_int of_int_mult [symmetric] high_half_word_of_int)

lemma sdiv64_narrow:
  "ucast (sdiv64 (scast a) (scast b)) = (word_of_int (sint a sdiv sint b) :: i32)"
  "ucast (smod64 (scast a) (scast b)) = (word_of_int (sint a smod sint b) :: i32)" for a b :: i32
  by (simp_all only: sdiv64_def smod64_def sint_scast ucast_word_of_int)

text \<open>The cases of \<open>OP_ARITHR\<close> and \<open>OP_ARITHI\<close> that belong to RV32IM.\<close>

lemma exec_rv32m_alu:
  "map_option (\<lambda>aop. alu aop a b) (reg_op_of f 1) = exec_rv32m f a b"
  unfolding reg_op_of_def exec_rv32m_def high_half_products sdiv64_narrow udiv_of_int
  by (simp add: alu_def)

lemma exec_rv32i_alu:
  assumes "masks_shifts h"
  shows "map_option (\<lambda>aop. alu aop a b) (reg_op_of f 0) = exec_rv32i h f a b"
  unfolding reg_op_of_def exec_rv32i_def c_shl_masked [OF assms] c_shr_masked [OF assms]
  by (simp add: alu_def push_bit_of_int drop_bit_of_int word_sless_alt word_less_def)

lemma exec_andn_alu:
  assumes "masks_shifts h" and "f = 0 \<or> f = 5"
  shows "map_option (\<lambda>aop. alu aop a b) (reg_op_of f 0x20) = exec_andn cfg h f a b"
  using assms(2) unfolding reg_op_of_def exec_andn_def c_sar_masked [OF assms(1)]
  by (auto simp: alu_def signed_drop_bit_of_int)

text \<open>
  Every RV32IM register instruction: the code computes the value of the ISA, on a host that
  reduces shift distances. Without the multiply extension its instructions are refused.
\<close>

lemma exec_arithr_alu:
  assumes "masks_shifts h" and "reg_op_of (r_func3 w) (r_func7 w) = Some aop"
    and "RV32M cfg \<or> r_func7 w \<noteq> FN_RV32M"
  shows "exec_arithr cfg h w a b = Some (alu aop a b)"
proof -
  consider "r_func7 w = 0" | "r_func7 w = 0x20" | "r_func7 w = 1"
    using assms(2) by (auto simp: reg_op_of_def split: if_splits)
  then show ?thesis
  proof cases
    case 1
    then show ?thesis
      using assms exec_rv32i_alu [OF assms(1), of a b "r_func3 w"]
      by (simp add: exec_arithr_def Let_def)
  next
    case 2
    moreover have "r_func3 w = 0 \<or> r_func3 w = 5"
      using 2 assms(2) by (auto simp: reg_op_of_def split: if_splits)
    ultimately show ?thesis
      using assms exec_andn_alu [OF assms(1), of "r_func3 w" a b cfg]
      by (simp add: exec_arithr_def Let_def)
  next
    case 3
    then show ?thesis
      using assms exec_rv32m_alu [of a b "r_func3 w"]
      by (simp add: exec_arithr_def Let_def)
  qed
qed

text \<open>A shift immediate is the low five bits of the field, which is also \<open>r_rs2\<close>.\<close>

lemma shamt_field: "i_imm w AND 0x1f = r_rs2 w" for w :: i32
  by (rule word32_eqI) (simp add: bits bit_simps bit_positions_def)

lemma shamt_mod: "unat (r_rs2 w) mod 32 = unat (r_rs2 w)" for w :: i32
  using fld_less [of 20 5 w] by simp

lemma exec_slli_alu:
  "r_func7 w = 0 \<Longrightarrow> exec_slli cfg w a = Some (alu A_sll a (r_rs2 w))"
  by (simp add: exec_slli_def shamt_field alu_def shamt_mod push_bit_of_int)

lemma exec_srli_alu:
  "r_func7 w = 0 \<Longrightarrow> exec_srli cfg h w a = Some (alu A_srl a (r_rs2 w))"
  "r_func7 w = 0x20 \<Longrightarrow> exec_srli cfg h w a = Some (alu A_sra a (r_rs2 w))"
  by (simp_all add: exec_srli_def shamt_field alu_def shamt_mod drop_bit_of_int
      signed_drop_bit_of_int)

lemma exec_arithi_alu:
  assumes "imm_op_of (i_func3 w) (r_func7 w) = Some aop"
  shows "exec_arithi cfg h w a = Some (alu aop a (if is_shift aop then r_rs2 w else imm_I w))"
proof -
  have shifts: "is_shift aop \<Longrightarrow> exec_arithi cfg h w a = Some (alu aop a (r_rs2 w))"
    using assms
    by (auto simp: is_shift_def imm_op_of_def exec_arithi_def exec_slli_alu exec_srli_alu
        split: if_splits)
  have "\<not> is_shift aop \<Longrightarrow> exec_arithi cfg h w a = Some (alu aop a (imm_I w))"
    using assms
    by (simp add: is_shift_def imm_op_of_def exec_arithi_def alu_def to_imm_i_spec
        word_sless_alt word_less_def split: if_splits)
      (auto simp: alu_def)
  with shifts show ?thesis by simp
qed

text \<open>Without the bit-manipulation extension nothing else is accepted.\<close>

lemma exec_arithr_unknown:
  assumes no_b: "\<not> RV32B cfg" and none: "reg_op_of (r_func3 w) (r_func7 w) = None"
  shows "exec_arithr cfg h w a b = None"
proof -
  consider (m) "r_func7 w = 1" | (i) "r_func7 w = 0" | (n) "r_func7 w = 0x20"
    | (other) "r_func7 w \<noteq> 0" "r_func7 w \<noteq> 0x20" "r_func7 w \<noteq> 1"
    by blast
  then show ?thesis
  proof cases
    case m
    then show ?thesis
      using none exec_rv32m_alu [of a b "r_func3 w"] by (simp add: exec_arithr_def Let_def)
  next
    case i
    then have "exec_rv32i h (r_func3 w) a b = None"
      using none by (simp add: reg_op_of_def exec_rv32i_def split: if_splits)
    with i show ?thesis by (simp add: exec_arithr_def Let_def)
  next
    case n
    then have "exec_andn cfg h (r_func3 w) a b = None"
      using none no_b by (simp add: reg_op_of_def exec_andn_def split: if_splits)
    with n show ?thesis by (simp add: exec_arithr_def Let_def)
  next
    case other
    then show ?thesis using no_b by (simp add: exec_arithr_def Let_def)
  qed
qed

lemma exec_arithi_unknown:
  assumes "\<not> RV32B cfg" and "imm_op_of (i_func3 w) (r_func7 w) = None"
  shows "exec_arithi cfg h w a = None"
  using assms
  by (auto simp: exec_arithi_def Let_def imm_op_of_def exec_slli_def exec_srli_def
      split: if_splits)

subsection \<open>The lowest set bit\<close>

lemma word_decr:
  fixes x :: i32
  assumes "bit x k" and "\<And>i. i < k \<Longrightarrow> \<not> bit x i"
  shows "x - 1 = (x AND NOT (mask (Suc k))) OR mask k"
proof -
  have k: "k < 32" using assms(1) bit_imp_le_length by fastforce
  have low: "k \<le> i" if "bit x i" for i
    using assms(2) that not_less by blast
  have "x = (x AND NOT (mask (Suc k))) OR push_bit k 1"
    using assms(1) k by (intro bit_word_eqI) (auto simp: bit_simps less_Suc_eq not_less dest: low)
  also have "\<dots> = (x AND NOT (mask (Suc k))) + push_bit k 1"
    by (rule disjunctive_add [symmetric]) (auto simp: bit_simps)
  finally have "x - 1 = (x AND NOT (mask (Suc k))) + mask k"
    by (metis add_diff_eq mask_eq_exp_minus_1 push_bit_of_1)
  also have "\<dots> = (x AND NOT (mask (Suc k))) OR mask k"
    by (rule disjunctive_add) (auto simp: bit_simps)
  finally show ?thesis .
qed

lemma bit_decr:
  fixes x :: i32
  assumes "bit x k" and "\<And>i. i < k \<Longrightarrow> \<not> bit x i"
  shows "bit (x - 1) i \<longleftrightarrow> i < 32 \<and> (i < k \<or> i \<noteq> k \<and> bit x i)"
  by (subst word_decr [OF assms]) (auto simp: bit_simps less_Suc_eq dest: bit_imp_le_length)

lemma and_decr:
  fixes x :: i32
  assumes "bit x k" and "\<And>i. i < k \<Longrightarrow> \<not> bit x i"
  shows "bit (x AND (x - 1)) i \<longleftrightarrow> i \<noteq> k \<and> bit x i"
  using assms(2) by (auto simp: bit_and_iff bit_decr [OF assms] dest: bit_imp_le_length)

lemma and_minus:
  fixes x :: i32
  assumes "bit x k" and "\<And>i. i < k \<Longrightarrow> \<not> bit x i"
  shows "x AND - x = push_bit k 1"
proof (rule bit_word_eqI)
  fix i assume "i < LENGTH(32)"
  then show "bit (x AND - x) i = bit (push_bit k (1 :: i32)) i"
    using assms by (auto simp: bit_and_iff bit_minus_iff bit_decr [OF assms] bit_exp_iff)
qed

lemma lowest_bit:
  fixes x :: i32
  assumes "x \<noteq> 0"
  obtains k where "k < 32" "bit x k" "\<And>i. i < k \<Longrightarrow> \<not> bit x i"
proof -
  have ex: "\<exists>k. bit x k"
    using assms by (metis bit_word_eqI bit_0_eq bot_apply bot_bool_def)
  show thesis
  proof (rule that [of "LEAST k. bit x k"])
    show "bit x (LEAST k. bit x k)" using ex by (rule LeastI_ex)
    then show "(LEAST k. bit x k) < 32" using bit_imp_le_length by fastforce
    show "\<not> bit x i" if "i < (LEAST k. bit x k)" for i
      using that by (rule not_less_Least)
  qed
qed

text \<open>CPOP counts the set bits.\<close>

definition bits_of :: "i32 \<Rightarrow> nat set" where
  "bits_of x = {i. bit x i}"

lemma finite_bits_of [simp]: "finite (bits_of x)"
  by (rule finite_subset [of _ "{..<32}"]) (auto simp: bits_of_def dest: bit_imp_le_length)

lemma bits_of_decr:
  assumes "x \<noteq> 0"
  obtains k where "k \<in> bits_of x" "bits_of (x AND (x - 1)) = bits_of x - {k}"
proof -
  obtain k where k: "k < 32" "bit x k" "\<And>i. i < k \<Longrightarrow> \<not> bit x i"
    using lowest_bit [OF assms] by blast
  show thesis
    by (rule that [of k]) (use k in \<open>auto simp: bits_of_def and_decr [OF k(2,3)]\<close>)
qed

lemma cpop_counts: "cpop n c = c + of_nat (card (bits_of n))"
proof (induction n c rule: cpop.induct)
  case (1 n c)
  show ?case
  proof (cases "n = 0")
    case True
    then show ?thesis by (subst cpop.simps) (simp add: bits_of_def)
  next
    case False
    then obtain k where k: "k \<in> bits_of n" "bits_of (n AND (n - 1)) = bits_of n - {k}"
      by (rule bits_of_decr)
    then have "card (bits_of n) = Suc (card (bits_of (n AND (n - 1))))"
      using card_Suc_Diff1 [of "bits_of n" k] by simp
    with 1 False show ?thesis by (subst cpop.simps) simp
  qed
qed

text \<open>CTZ finds the lowest set bit: the de Bruijn index is right for every position.\<close>

lemma ctz_table_right:
  "list_all (\<lambda>k. ctz_table ! unat (drop_bit 27 (push_bit k 1 * 0x077CB531 :: i32)) = k)
     bit_positions"
  by (simp add: bit_positions_def ctz_table_def)

lemma ctz_lowest:
  assumes "bit x k" and "\<And>i. i < k \<Longrightarrow> \<not> bit x i"
  shows "ctz x = of_nat k"
proof -
  have k: "k < 32" using assms(1) bit_imp_le_length by fastforce
  then have "ctz_table ! unat (drop_bit 27 (push_bit k 1 * 0x077CB531 :: i32)) = k"
    using ctz_table_right unfolding list_all_iff set_bit_positions by blast
  moreover have "x \<noteq> 0" using assms(1) by auto
  ultimately show ?thesis by (simp only: ctz_def and_minus [OF assms] if_False)
qed

text \<open>CLZ: each stage keeps the highest set bit inside the top part of the word.\<close>

definition clz_inv :: "i32 \<Rightarrow> nat \<Rightarrow> i32 \<times> i32 \<Rightarrow> bool" where
  "clz_inv x m s \<longleftrightarrow>
     (\<exists>r. s = (push_bit r x, of_nat r) \<and> r + m \<le> 32 \<and> (\<forall>i\<ge>32 - r. \<not> bit x i) \<and>
          (\<exists>i\<ge>32 - m. bit (push_bit r x) i))"

lemma clz_stage_inv:
  assumes inv: "clz_inv x (2 * n) s" and mask: "\<And>i. bit m i \<longleftrightarrow> 32 - n \<le> i \<and> i < 32"
    and n: "0 < n" "n \<le> 16"
  shows "clz_inv x n (clz_stage m n s)"
proof -
  obtain r where r: "s = (push_bit r x, of_nat r)" "r + 2 * n \<le> 32"
    "\<forall>i\<ge>32 - r. \<not> bit x i" "\<exists>i\<ge>32 - 2 * n. bit (push_bit r x) i"
    using inv by (auto simp: clz_inv_def)
  have and_iff: "push_bit r x AND m = 0 \<longleftrightarrow> (\<forall>i\<ge>32 - n. \<not> bit (push_bit r x) i)"
    using bit_imp_le_length [of "push_bit r x"]
    by (simp add: bit_eq_iff mask bit_and_iff) blast
  show ?thesis
  proof (cases "push_bit r x AND m = 0")
    case True
    then have top: "\<forall>i\<ge>32 - n. \<not> bit (push_bit r x) i" using and_iff by simp
    have "\<not> bit x i" if "i \<ge> 32 - (r + n)" for i
    proof (cases "i < 32 - r")
      case True
      then have "r + i < 32" and "r + i \<ge> 32 - n" using that r(2) by auto
      with top have "\<not> bit (push_bit r x) (r + i)" by simp
      with \<open>r + i < 32\<close> show ?thesis by (simp add: bit_push_bit_iff)
    qed (use r(3) in simp)
    moreover obtain i where i: "i \<ge> 32 - 2 * n" "bit (push_bit r x) i" using r(4) by blast
    moreover have "i < 32 - n" using i top by (meson not_less)
    then have "bit (push_bit (r + n) x) (i + n)"
      using i(2) by (simp add: bit_push_bit_iff)
    moreover have "i + n \<ge> 32 - n" using i(1) n r(2) by simp
    ultimately show ?thesis
      using True r(1,2) unfolding clz_inv_def clz_stage_def
      by (intro exI [of _ "r + n"]) (auto simp: push_bit_push_bit ac_simps)
  next
    case False
    then show ?thesis
      using r and_iff unfolding clz_inv_def clz_stage_def
      by (intro exI [of _ r]) auto
  qed
qed

lemma clz_start:
  assumes "x \<noteq> 0" shows "clz_inv x 32 (x, 0)"
proof -
  obtain i where "bit x i" using lowest_bit [OF assms] by blast
  then show ?thesis
    unfolding clz_inv_def by (intro exI [of _ 0]) (auto dest: bit_imp_le_length)
qed

lemma bit_high_masks:
  "bit (0xffff0000 :: i32) i \<longleftrightarrow> 16 \<le> i \<and> i < 32"
  "bit (0xff000000 :: i32) i \<longleftrightarrow> 24 \<le> i \<and> i < 32"
  "bit (0xf0000000 :: i32) i \<longleftrightarrow> 28 \<le> i \<and> i < 32"
  "bit (0xc0000000 :: i32) i \<longleftrightarrow> 30 \<le> i \<and> i < 32"
  "bit (0x80000000 :: i32) i \<longleftrightarrow> 31 \<le> i \<and> i < 32"
proof -
  have "(0xffff0000 :: i32) = push_bit 16 (mask 16)" "(0xff000000 :: i32) = push_bit 24 (mask 8)"
    "(0xf0000000 :: i32) = push_bit 28 (mask 4)" "(0xc0000000 :: i32) = push_bit 30 (mask 2)"
    "(0x80000000 :: i32) = push_bit 31 (mask 1)"
    by (simp_all add: mask_eq_exp_minus_1)
  then show
    "bit (0xffff0000 :: i32) i \<longleftrightarrow> 16 \<le> i \<and> i < 32"
    "bit (0xff000000 :: i32) i \<longleftrightarrow> 24 \<le> i \<and> i < 32"
    "bit (0xf0000000 :: i32) i \<longleftrightarrow> 28 \<le> i \<and> i < 32"
    "bit (0xc0000000 :: i32) i \<longleftrightarrow> 30 \<le> i \<and> i < 32"
    "bit (0x80000000 :: i32) i \<longleftrightarrow> 31 \<le> i \<and> i < 32"
    by (simp_all only: bit_push_bit_iff bit_mask_iff possible_bit_word) auto
qed

lemma clz_highest:
  assumes "bit x k" and "\<And>i. k < i \<Longrightarrow> \<not> bit x i"
  shows "clz x = of_nat (31 - k)"
proof -
  have x: "x \<noteq> 0" using assms(1) by auto
  let ?s = "clz_stage 0xc0000000 2 (clz_stage 0xf0000000 4 (clz_stage 0xff000000 8
    (clz_stage 0xffff0000 16 (x, 0))))"
  have "clz_inv x 16 (clz_stage 0xffff0000 16 (x, 0))"
    by (rule clz_stage_inv) (use clz_start [OF x] bit_high_masks in simp_all)
  then have "clz_inv x 8 (clz_stage 0xff000000 8 (clz_stage 0xffff0000 16 (x, 0)))"
    by (intro clz_stage_inv) (use bit_high_masks in simp_all)
  then have "clz_inv x 4 (clz_stage 0xf0000000 4 (clz_stage 0xff000000 8
      (clz_stage 0xffff0000 16 (x, 0))))"
    by (intro clz_stage_inv) (use bit_high_masks in simp_all)
  then have "clz_inv x 2 ?s"
    by (intro clz_stage_inv) (use bit_high_masks in simp_all)
  then have "clz_inv x 1 (clz_stage 0x80000000 1 ?s)"
    by (intro clz_stage_inv) (use bit_high_masks in simp_all)
  then obtain r where s: "clz_stage 0x80000000 1 ?s = (push_bit r x, of_nat r)" and
    r: "r + 1 \<le> 32" "\<forall>i\<ge>32 - r. \<not> bit x i" "\<exists>i\<ge>32 - 1. bit (push_bit r x) i"
    unfolding clz_inv_def by blast
  then obtain i where i: "31 \<le> i" "bit (push_bit r x) i" by auto
  then have "i = 31" using bit_imp_le_length [of "push_bit r x" i] by simp
  with i have "bit x (31 - r)"
    by (simp add: bit_push_bit_iff)
  then have "\<not> k < 31 - r" and "k < 32 - r"
    using assms r(2) not_less by blast+
  then have "r = 31 - k" using r(1) by simp
  moreover have "snd (clz_stage 0x80000000 1 s) =
      (if fst s AND 0x80000000 = 0 then snd s + 1 else snd s)" for s
    by (cases s) (simp add: clz_stage_def)
  then have "clz x = snd (clz_stage 0x80000000 1 ?s)"
    using x by (simp only: clz_def Let_def if_False)
  ultimately show ?thesis using s by simp
qed

subsection \<open>Bytes and rotations\<close>

lemma and_bit_tests:
  "w AND 0x80 = 0 \<longleftrightarrow> \<not> bit w 7" "w AND 0x8000 = 0 \<longleftrightarrow> \<not> bit w 15" for w :: i32
  using and_shl1_iff_bit [of w 7] and_shl1_iff_bit [of w 15] by (simp_all add: shl1_def)

lemma sext_b_spec: "sext_b v = sext 8 v"
  by (rule word32_eqI)
    (simp add: sext_b_def Let_def and_bit_tests bits bit_simps bit_positions_def)

lemma sext_h_spec: "sext_h v = sext 16 v"
  by (rule word32_eqI)
    (simp add: sext_h_def Let_def and_bit_tests bits bit_simps bit_positions_def)

text \<open>ORC.B saturates every byte that is not zero; REV8 swaps the bytes.\<close>

lemma and_byte_masks:
  "w AND 0x000000ff = 0 \<longleftrightarrow> fld 0 8 w = 0" "w AND 0x0000ff00 = 0 \<longleftrightarrow> fld 8 8 w = 0"
  "w AND 0x00ff0000 = 0 \<longleftrightarrow> fld 16 8 w = 0" "w AND 0xff000000 = 0 \<longleftrightarrow> fld 24 8 w = 0" for w :: i32
proof -
  have eq: "w AND 0x000000ff = push_bit 0 (fld 0 8 w)" "w AND 0x0000ff00 = push_bit 8 (fld 8 8 w)"
    "w AND 0x00ff0000 = push_bit 16 (fld 16 8 w)" "w AND 0xff000000 = push_bit 24 (fld 24 8 w)"
    by (rule word32_eqI, simp add: bits bit_simps bit_positions_def)+
  have inj: "push_bit n (fld n 8 w) = 0 \<longleftrightarrow> fld n 8 w = 0" if "n \<le> 24" for n
  proof -
    have "drop_bit n (push_bit n (fld n 8 w)) = fld n 8 w"
      using that by (intro bit_word_eqI) (auto simp: bits bit_simps)
    then show ?thesis by (metis drop_bit_of_0 push_bit_of_0)
  qed
  show "w AND 0x000000ff = 0 \<longleftrightarrow> fld 0 8 w = 0" "w AND 0x0000ff00 = 0 \<longleftrightarrow> fld 8 8 w = 0"
    "w AND 0x00ff0000 = 0 \<longleftrightarrow> fld 16 8 w = 0" "w AND 0xff000000 = 0 \<longleftrightarrow> fld 24 8 w = 0"
    unfolding eq by (rule inj; simp)+
qed

lemma orc_b_spec:
  "k < 4 \<Longrightarrow> fld (8 * k) 8 (orc_b w) = (if fld (8 * k) 8 w = 0 then 0 else 0xff)"
proof -
  assume "k < 4"
  then have "k = 0 \<or> k = 1 \<or> k = 2 \<or> k = 3" by auto
  then show ?thesis
    by (elim disjE) (simp_all add: orc_b_def Let_def and_byte_masks, simp_all add: fld_def)
qed

lemma rev8_spec: "k < 4 \<Longrightarrow> fld (8 * k) 8 (rev8 w) = fld (8 * (3 - k)) 8 w"
proof -
  assume "k < 4"
  then have "k = 0 \<or> k = 1 \<or> k = 2 \<or> k = 3" by auto
  then show ?thesis
    by (elim disjE; hypsubst; intro word32_eqI)
      (simp_all add: rev8_def bits bit_simps bit_positions_def)
qed

text \<open>The rotations, on a host that reduces shift distances.\<close>

lemma low5: "unat (b AND 0x1f) = unat b mod 32" for b :: i32
proof -
  have eq: "b AND 0x1f = take_bit 5 b" by (simp add: take_bit_eq_mask mask_eq_exp_minus_1)
  have "unat (take_bit 5 b) = take_bit 5 (unat b)" by (rule unsigned_take_bit_eq)
  then show ?thesis by (simp only: eq take_bit_eq_mod [of 5 "unat b"]) simp
qed

lemma rot_distance: "unat (32 - (b AND 0x1f)) mod 32 = (32 - unat b mod 32) mod 32" for b :: i32
proof -
  have "b AND 0x1f \<le> 32"
    by (simp add: word_le_nat_alt low5)
  then show ?thesis by (simp add: unat_sub low5)
qed

lemma rot_positions:
  fixes n i :: nat
  assumes "n < 32" and "i < 32"
  shows "(32 - n) mod 32 = (if n = 0 then 0 else 32 - n)"
    and "(i + n) mod 32 = (if i + n < 32 then i + n else i + n - 32)"
  using assms by (auto simp: mod_if)

lemma rotr_halves:
  "n < 32 \<Longrightarrow> drop_bit n a OR push_bit ((32 - n) mod 32) a = word_rotr n a" for a :: i32
  by (rule bit_word_eqI)
    (auto simp: bit_simps rot_positions add.commute [of n] dest: bit_imp_le_length)

lemma rotl_halves:
  fixes a :: i32
  assumes "n < 32"
  shows "push_bit n a OR drop_bit ((32 - n) mod 32) a = word_rotl n a"
proof (rule bit_word_eqI)
  fix i assume "i < LENGTH(32)"
  then have i: "i < 32" by simp
  have "(i + (LENGTH(32) - n mod LENGTH(32))) mod LENGTH(32) =
      (if n \<le> i then i - n else 32 + i - n)"
    using assms i by (auto simp: mod_if)
  then have "bit (word_rotl n a) i \<longleftrightarrow> bit a (if n \<le> i then i - n else 32 + i - n)"
    unfolding bit_word_rotl_iff using i by simp
  then show "bit (push_bit n a OR drop_bit ((32 - n) mod 32) a) i = bit (word_rotl n a) i"
    using assms i by (auto simp: bit_simps rot_positions(1) dest: bit_imp_le_length)
qed

lemma exec_rot_spec:
  assumes "masks_shifts h"
  shows "exec_rot h OP_ROR a b = Some (word_rotr (unat b mod 32) a)"
    and "exec_rot h OP_ROL a b = Some (word_rotl (unat b mod 32) a)"
proof -
  show "exec_rot h OP_ROR a b = Some (word_rotr (unat b mod 32) a)"
    using rotr_halves [of "unat b mod 32" a]
    by (simp add: exec_rot_def c_shl_masked [OF assms] rot_distance low5)
next
  show "exec_rot h OP_ROL a b = Some (word_rotl (unat b mod 32) a)"
    using rotl_halves [of "unat b mod 32" a]
    by (simp add: exec_rot_def c_shr_masked [OF assms] rot_distance low5)
qed

subsection \<open>Carry-less products\<close>

text \<open>
  Bit \<open>j\<close> of the product of two polynomials over the two-element field: the parity of the
  number of ways to write \<open>j\<close> as a sum of set positions.
\<close>

definition cl_bit :: "i32 \<Rightarrow> i32 \<Rightarrow> nat \<Rightarrow> bool" where
  "cl_bit a b j \<longleftrightarrow> odd (card {i. i < 32 \<and> bit b i \<and> i \<le> j \<and> bit a (j - i)})"

fun xor_upto :: "(nat \<Rightarrow> i32) \<Rightarrow> nat \<Rightarrow> i32" where
  "xor_upto f 0 = 0"
| "xor_upto f (Suc n) = xor_upto f n XOR f n"

lemma bit_xor_upto: "bit (xor_upto f n) j \<longleftrightarrow> odd (card {i. i < n \<and> bit (f i) j})"
proof (induction n)
  case (Suc n)
  have fin: "finite {i. i < n \<and> bit (f i) j}" by simp
  show ?case
  proof (cases "bit (f n) j")
    case True
    then have "{i. i < Suc n \<and> bit (f i) j} = insert n {i. i < n \<and> bit (f i) j}"
      by (auto simp: less_Suc_eq)
    then show ?thesis using Suc True fin by (simp add: bit_xor_iff)
  next
    case False
    then have "{i. i < Suc n \<and> bit (f i) j} = {i. i < n \<and> bit (f i) j}"
      by (auto simp: less_Suc_eq)
    then show ?thesis using Suc False by (simp add: bit_xor_iff)
  qed
qed simp

lemma foldl_xor:
  "foldl (\<lambda>n i. if P i then n XOR g i else n) 0 [0..<m] = xor_upto (\<lambda>i. if P i then g i else 0) m"
  by (induction m) simp_all

lemma odd_drop_bit: "drop_bit i b AND 1 \<noteq> 0 \<longleftrightarrow> bit b i" "signed_drop_bit i b AND 1 \<noteq> 0 \<longleftrightarrow> bit b i"
  if "i < 32" for b :: i32
  using that by (auto simp: and_one_eq odd_iff_mod_2_eq_one [symmetric] bit_simps simp flip: bit_0)

lemma cl_bit_xor_upto:
  assumes "\<And>i j. i < 32 \<Longrightarrow> j < 32 \<Longrightarrow> bit (g i) j \<longleftrightarrow> i \<le> d + j \<and> bit a (d + j - i)" and "j < 32"
  shows "bit (xor_upto (\<lambda>i. if bit b i then g i else 0) 32) j \<longleftrightarrow> cl_bit a b (j + d)"
proof -
  have "{i. i < 32 \<and> bit (if bit b i then g i else 0) j} =
      {i. i < 32 \<and> bit b i \<and> i \<le> j + d \<and> bit a (j + d - i)}"
    using assms by (auto simp: add.commute)
  then show ?thesis by (simp add: bit_xor_upto cl_bit_def)
qed

lemma xor_upto_cong: "(\<And>i. i < n \<Longrightarrow> f i = g i) \<Longrightarrow> xor_upto f n = xor_upto g n"
  by (induction n) simp_all

lemma clmul_bit: "bit (clmul a b) j \<longleftrightarrow> j < 32 \<and> cl_bit a b j"
proof (cases "j < 32")
  case True
  have "clmul a b = xor_upto (\<lambda>i. if bit b i then push_bit i a else 0) 32"
    unfolding clmul_def foldl_xor by (rule xor_upto_cong) (simp add: odd_drop_bit)
  moreover have "bit (xor_upto (\<lambda>i. if bit b i then push_bit i a else 0) 32) j \<longleftrightarrow>
      cl_bit a b (j + 0)"
    by (rule cl_bit_xor_upto) (use True in \<open>auto simp: bit_simps\<close>)
  ultimately show ?thesis using True by simp
qed (auto dest: bit_imp_le_length)

lemma clmulr_bit: "bit (clmulr a b) j \<longleftrightarrow> j < 32 \<and> cl_bit a b (j + 31)"
proof (cases "j < 32")
  case True
  have "clmulr a b = xor_upto (\<lambda>i. if bit b i then drop_bit (32 - i - 1) a else 0) 32"
    unfolding clmulr_def foldl_xor by (rule xor_upto_cong) (simp add: odd_drop_bit)
  moreover have "bit (xor_upto (\<lambda>i. if bit b i then drop_bit (32 - i - 1) a else 0) 32) j \<longleftrightarrow>
      cl_bit a b (j + 31)"
    by (rule cl_bit_xor_upto) (use True in \<open>auto simp: bit_simps\<close>)
  ultimately show ?thesis using True by simp
qed (auto dest: bit_imp_le_length)

lemma clmulh_bit: "bit (clmulh a b) j \<longleftrightarrow> j < 32 \<and> cl_bit a b (j + 32)"
proof (cases "j < 32")
  case True
  have "drop_bit 32 a = 0"
    by (rule bit_word_eqI) (auto simp: bit_simps dest: bit_imp_le_length)
  then have "clmulh a b = foldl (\<lambda>n i. if drop_bit i b AND 1 \<noteq> 0 then n XOR drop_bit (32 - i) a
      else n) 0 [0..<32]"
    by (simp add: clmulh_def upt_conv_Cons [of 0 32])
  then have "clmulh a b = xor_upto (\<lambda>i. if bit b i then drop_bit (32 - i) a else 0) 32"
    unfolding foldl_xor by (simp add: odd_drop_bit cong: xor_upto_cong)
  moreover have "bit (xor_upto (\<lambda>i. if bit b i then drop_bit (32 - i) a else 0) 32) j \<longleftrightarrow>
      cl_bit a b (j + 32)"
    by (rule cl_bit_xor_upto) (use True in \<open>auto simp: bit_simps dest: bit_imp_le_length\<close>)
  ultimately show ?thesis using True by simp
qed (auto dest: bit_imp_le_length)

end
