(* ===== verification/Csr.thy ===== *)
theory Csr
  imports Machine
begin

text \<open>
  \<open>csr_rw\<close> of \<open>tools/rvsim.c\<close>: reading and writing a control and status register. Every
  writable register goes through the macro \<open>UPDATE_CSR\<close>; the locale \<open>csr_cell\<close> states what
  a register is to that macro (a getter and a setter that obey the laws of a variable) and
  proves what an access does, once for all the registers of the table.
\<close>

text \<open>\<open>UPDATE_CSR(update, mode, reg, val)\<close>: the new value of \<open>reg\<close>.\<close>

definition update_csr :: "bool \<Rightarrow> i32 \<Rightarrow> i32 \<Rightarrow> i32 \<Rightarrow> i32" where
  "update_csr update mode reg val =
     (if update then
        (let r1 = (if mode = OP_CSRRW then val else reg);
             r2 = (if mode = OP_CSRRS then r1 OR val else r1);
             r3 = (if mode = OP_CSRRC then r2 AND NOT val else r2)
         in r3)
      else reg)"

text \<open>One case of the switch: the old value is the result, the register is updated.\<close>

definition csr_access ::
    "(csrs \<Rightarrow> i32) \<Rightarrow> (i32 \<Rightarrow> csrs \<Rightarrow> csrs) \<Rightarrow> rv \<Rightarrow> i32 \<Rightarrow> i32 \<Rightarrow> bool \<Rightarrow> rv \<times> i32 \<times> bool" where
  "csr_access get put rv mode val update =
     (rv\<lparr>csr := put (update_csr update mode (get (csr rv)) val) (csr rv)\<rparr>, get (csr rv), True)"

text \<open>
  The result is (state, value, \<open>*legal\<close>). The counters are read one behind, because a step
  counts its own instruction before it executes it.
\<close>

definition csr_rw :: "config \<Rightarrow> rv \<Rightarrow> i32 \<Rightarrow> i32 \<Rightarrow> i32 \<Rightarrow> bool \<Rightarrow> rv \<times> i32 \<times> bool" where
  "csr_rw cfg rv r mode val update =
     (if r = CSR_RDCYCLE then (rv, counter_lo (c_cycle (csr rv) - 1), True)
      else if r = CSR_RDCYCLEH then (rv, counter_hi (c_cycle (csr rv) - 1), True)
      else if r = CSR_RDINSTRET then (rv, counter_lo (c_instret (csr rv) - 1), True)
      else if r = CSR_RDINSTRETH then (rv, counter_hi (c_instret (csr rv) - 1), True)
      else if r = CSR_MVENDORID then (rv, mvendorid (csr rv), True)
      else if r = CSR_MARCHID then (rv, marchid (csr rv), True)
      else if r = CSR_MIMPID then (rv, mimpid (csr rv), True)
      else if r = CSR_MHARTID then (rv, mhartid (csr rv), True)
      else if r = CSR_MSCRATCH then csr_access mscratch (\<lambda>v. mscratch_update (\<lambda>_. v)) rv mode val update
      else if r = CSR_MSTATUS then csr_access mstatus (\<lambda>v. mstatus_update (\<lambda>_. v)) rv mode val update
      else if r = CSR_MSTATUSH then csr_access mstatush (\<lambda>v. mstatush_update (\<lambda>_. v)) rv mode val update
      else if r = CSR_MISA then csr_access misa (\<lambda>v. misa_update (\<lambda>_. v)) rv mode val update
      else if r = CSR_MIE then csr_access mie (\<lambda>v. mie_update (\<lambda>_. v)) rv mode val update
      else if r = CSR_MIP then csr_access mip (\<lambda>v. mip_update (\<lambda>_. v)) rv mode val update
      else if r = CSR_MTVEC then csr_access mtvec (\<lambda>v. mtvec_update (\<lambda>_. v)) rv mode val update
      else if r = CSR_MEPC then csr_access mepc (\<lambda>v. mepc_update (\<lambda>_. v)) rv mode val update
      else if r = CSR_MCAUSE then csr_access mcause (\<lambda>v. mcause_update (\<lambda>_. v)) rv mode val update
      else if r = CSR_MTVAL then csr_access mtval (\<lambda>v. mtval_update (\<lambda>_. v)) rv mode val update
      else if XV6 cfg \<and> r = CSR_MEDELEG then
        csr_access medeleg (\<lambda>v. medeleg_update (\<lambda>_. v)) rv mode val update
      else if XV6 cfg \<and> r = CSR_MIDELEG then
        csr_access mideleg (\<lambda>v. mideleg_update (\<lambda>_. v)) rv mode val update
      else if XV6 cfg \<and> r = CSR_MCOUNTEREN then
        csr_access mcounteren (\<lambda>v. mcounteren_update (\<lambda>_. v)) rv mode val update
      else if XV6 cfg \<and> r = CSR_SSTATUS then
        csr_access sstatus (\<lambda>v. sstatus_update (\<lambda>_. v)) rv mode val update
      else if XV6 cfg \<and> r = CSR_SIE then
        csr_access sie (\<lambda>v. sie_update (\<lambda>_. v)) rv mode val update
      else if XV6 cfg \<and> r = CSR_STVEC then
        csr_access stvec (\<lambda>v. stvec_update (\<lambda>_. v)) rv mode val update
      else if XV6 cfg \<and> r = CSR_SSCRATCH then
        csr_access sscratch (\<lambda>v. sscratch_update (\<lambda>_. v)) rv mode val update
      else if XV6 cfg \<and> r = CSR_SEPC then
        csr_access sepc (\<lambda>v. sepc_update (\<lambda>_. v)) rv mode val update
      else if XV6 cfg \<and> r = CSR_SCAUSE then
        csr_access scause (\<lambda>v. scause_update (\<lambda>_. v)) rv mode val update
      else if XV6 cfg \<and> r = CSR_STVAL then
        csr_access stval (\<lambda>v. stval_update (\<lambda>_. v)) rv mode val update
      else if XV6 cfg \<and> r = CSR_SIP then
        csr_access sip (\<lambda>v. sip_update (\<lambda>_. v)) rv mode val update
      else if XV6 cfg \<and> r = CSR_SATP then
        csr_access satp (\<lambda>v. satp_update (\<lambda>_. v)) rv mode val update
      else (rv, 0, False))"

subsection \<open>The interface of a register\<close>

locale csr_cell =
  fixes get :: "csrs \<Rightarrow> i32"
    and put :: "i32 \<Rightarrow> csrs \<Rightarrow> csrs"
  assumes get_put: "get (put v c) = v"
    and put_get: "put (get c) c = c"
    and put_put: "put v (put w c) = put v c"
begin

lemma access_result: "fst (snd (csr_access get put rv mode val update)) = get (csr rv)"
  by (simp add: csr_access_def)

lemma access_no_update: "csr_access get put rv mode val False = (rv, get (csr rv), True)"
  by (simp add: csr_access_def update_csr_def put_get)

lemma access_read_back:
  "csr_access get put (fst (csr_access get put rv mode val update)) mode' val' False =
     (fst (csr_access get put rv mode val update), update_csr update mode (get (csr rv)) val, True)"
  by (simp add: csr_access_def update_csr_def get_put put_put)

text \<open>Writing back the value an access returned undoes the access.\<close>

lemma access_restore:
  "fst (csr_access get put (fst (csr_access get put rv mode val update)) OP_CSRRW
     (fst (snd (csr_access get put rv mode val update))) True) = rv"
  by (simp add: csr_access_def update_csr_def put_put put_get)

lemma access_set_then_clear:
  "get (csr (fst (csr_access get put (fst (csr_access get put rv OP_CSRRS m True)) OP_CSRRC m True)))
     = get (csr rv) AND NOT m"
  by (rule bit_word_eqI) (auto simp: csr_access_def update_csr_def get_put bit_simps)

end

interpretation mscratch_cell: csr_cell mscratch "\<lambda>v. mscratch_update (\<lambda>_. v)"
  by unfold_locales simp_all

interpretation mstatus_cell: csr_cell mstatus "\<lambda>v. mstatus_update (\<lambda>_. v)"
  by unfold_locales simp_all

interpretation mstatush_cell: csr_cell mstatush "\<lambda>v. mstatush_update (\<lambda>_. v)"
  by unfold_locales simp_all

interpretation misa_cell: csr_cell misa "\<lambda>v. misa_update (\<lambda>_. v)"
  by unfold_locales simp_all

interpretation mie_cell: csr_cell mie "\<lambda>v. mie_update (\<lambda>_. v)"
  by unfold_locales simp_all

interpretation mip_cell: csr_cell mip "\<lambda>v. mip_update (\<lambda>_. v)"
  by unfold_locales simp_all

interpretation mtvec_cell: csr_cell mtvec "\<lambda>v. mtvec_update (\<lambda>_. v)"
  by unfold_locales simp_all

interpretation mepc_cell: csr_cell mepc "\<lambda>v. mepc_update (\<lambda>_. v)"
  by unfold_locales simp_all

interpretation mcause_cell: csr_cell mcause "\<lambda>v. mcause_update (\<lambda>_. v)"
  by unfold_locales simp_all

interpretation mtval_cell: csr_cell mtval "\<lambda>v. mtval_update (\<lambda>_. v)"
  by unfold_locales simp_all

interpretation medeleg_cell: csr_cell medeleg "\<lambda>v. medeleg_update (\<lambda>_. v)"
  by unfold_locales simp_all

interpretation mideleg_cell: csr_cell mideleg "\<lambda>v. mideleg_update (\<lambda>_. v)"
  by unfold_locales simp_all

interpretation mcounteren_cell: csr_cell mcounteren "\<lambda>v. mcounteren_update (\<lambda>_. v)"
  by unfold_locales simp_all

interpretation sstatus_cell: csr_cell sstatus "\<lambda>v. sstatus_update (\<lambda>_. v)"
  by unfold_locales simp_all

interpretation sie_cell: csr_cell sie "\<lambda>v. sie_update (\<lambda>_. v)"
  by unfold_locales simp_all

interpretation stvec_cell: csr_cell stvec "\<lambda>v. stvec_update (\<lambda>_. v)"
  by unfold_locales simp_all

interpretation sscratch_cell: csr_cell sscratch "\<lambda>v. sscratch_update (\<lambda>_. v)"
  by unfold_locales simp_all

interpretation sepc_cell: csr_cell sepc "\<lambda>v. sepc_update (\<lambda>_. v)"
  by unfold_locales simp_all

interpretation scause_cell: csr_cell scause "\<lambda>v. scause_update (\<lambda>_. v)"
  by unfold_locales simp_all

interpretation stval_cell: csr_cell stval "\<lambda>v. stval_update (\<lambda>_. v)"
  by unfold_locales simp_all

interpretation sip_cell: csr_cell sip "\<lambda>v. sip_update (\<lambda>_. v)"
  by unfold_locales simp_all

interpretation satp_cell: csr_cell satp "\<lambda>v. satp_update (\<lambda>_. v)"
  by unfold_locales simp_all

subsection \<open>The table of the writable registers\<close>

definition csr_table :: "(i32 \<times> (csrs \<Rightarrow> i32) \<times> (i32 \<Rightarrow> csrs \<Rightarrow> csrs)) list" where
  "csr_table =
    [(CSR_MSCRATCH, mscratch, \<lambda>v. mscratch_update (\<lambda>_. v)),
     (CSR_MSTATUS, mstatus, \<lambda>v. mstatus_update (\<lambda>_. v)),
     (CSR_MSTATUSH, mstatush, \<lambda>v. mstatush_update (\<lambda>_. v)),
     (CSR_MISA, misa, \<lambda>v. misa_update (\<lambda>_. v)),
     (CSR_MIE, mie, \<lambda>v. mie_update (\<lambda>_. v)),
     (CSR_MIP, mip, \<lambda>v. mip_update (\<lambda>_. v)),
     (CSR_MTVEC, mtvec, \<lambda>v. mtvec_update (\<lambda>_. v)),
     (CSR_MEPC, mepc, \<lambda>v. mepc_update (\<lambda>_. v)),
     (CSR_MCAUSE, mcause, \<lambda>v. mcause_update (\<lambda>_. v)),
     (CSR_MTVAL, mtval, \<lambda>v. mtval_update (\<lambda>_. v))]"

definition csr_table_xv6 :: "(i32 \<times> (csrs \<Rightarrow> i32) \<times> (i32 \<Rightarrow> csrs \<Rightarrow> csrs)) list" where
  "csr_table_xv6 =
    [(CSR_MEDELEG, medeleg, \<lambda>v. medeleg_update (\<lambda>_. v)),
     (CSR_MIDELEG, mideleg, \<lambda>v. mideleg_update (\<lambda>_. v)),
     (CSR_MCOUNTEREN, mcounteren, \<lambda>v. mcounteren_update (\<lambda>_. v)),
     (CSR_SSTATUS, sstatus, \<lambda>v. sstatus_update (\<lambda>_. v)),
     (CSR_SIE, sie, \<lambda>v. sie_update (\<lambda>_. v)),
     (CSR_STVEC, stvec, \<lambda>v. stvec_update (\<lambda>_. v)),
     (CSR_SSCRATCH, sscratch, \<lambda>v. sscratch_update (\<lambda>_. v)),
     (CSR_SEPC, sepc, \<lambda>v. sepc_update (\<lambda>_. v)),
     (CSR_SCAUSE, scause, \<lambda>v. scause_update (\<lambda>_. v)),
     (CSR_STVAL, stval, \<lambda>v. stval_update (\<lambda>_. v)),
     (CSR_SIP, sip, \<lambda>v. sip_update (\<lambda>_. v)),
     (CSR_SATP, satp, \<lambda>v. satp_update (\<lambda>_. v))]"

definition csr_cells :: "config \<Rightarrow> (i32 \<times> (csrs \<Rightarrow> i32) \<times> (i32 \<Rightarrow> csrs \<Rightarrow> csrs)) list" where
  "csr_cells cfg = csr_table @ (if XV6 cfg then csr_table_xv6 else [])"

text \<open>A fact about every register is checked entry by entry.\<close>

lemma csr_cells_all:
  "list_all P csr_table \<Longrightarrow> (XV6 cfg \<Longrightarrow> list_all P csr_table_xv6) \<Longrightarrow>
   x \<in> set (csr_cells cfg) \<Longrightarrow> P x"
  by (auto simp: csr_cells_def list_all_iff split: if_splits)

lemma csr_rw_cell:
  assumes "(r, get, put) \<in> set (csr_cells cfg)"
  shows "csr_rw cfg rv r mode val update = csr_access get put rv mode val update"
proof -
  let ?P = "\<lambda>(r, get, put).
    csr_rw cfg rv r mode val update = csr_access get put rv mode val update"
  have "list_all ?P csr_table"
    by (simp add: csr_table_def csr_rw_def)
  moreover have "XV6 cfg \<Longrightarrow> list_all ?P csr_table_xv6"
    by (simp add: csr_table_xv6_def csr_rw_def)
  ultimately show ?thesis
    using csr_cells_all [of ?P cfg "(r, get, put)"] assms by simp
qed

lemma csr_cells_law:
  assumes "(r, get, put) \<in> set (csr_cells cfg)"
  shows "csr_cell get put"
proof -
  let ?P = "\<lambda>(r :: i32, get, put). csr_cell get put"
  have "list_all ?P csr_table" "list_all ?P csr_table_xv6"
    by (simp_all add: csr_table_def csr_table_xv6_def csr_cell_def)
  then show ?thesis
    using csr_cells_all [of ?P cfg "(r, get, put)"] assms by simp
qed

text \<open>Two registers of the table with different numbers do not interfere.\<close>

definition separate ::
    "(i32 \<times> (csrs \<Rightarrow> i32) \<times> (i32 \<Rightarrow> csrs \<Rightarrow> csrs)) \<Rightarrow>
     (i32 \<times> (csrs \<Rightarrow> i32) \<times> (i32 \<Rightarrow> csrs \<Rightarrow> csrs)) \<Rightarrow> bool" where
  "separate x y \<longleftrightarrow> fst x \<noteq> fst y \<longrightarrow> (\<forall>v c. fst (snd y) (snd (snd x) v c) = fst (snd y) c)"

lemma csr_table_separate:
  "list_all (\<lambda>x. list_all (separate x) csr_table) csr_table"
  by (simp add: csr_table_def separate_def)

lemma csr_table_separate_xv6:
  "list_all (\<lambda>x. list_all (separate x) csr_table_xv6) csr_table"
  by (simp add: csr_table_def csr_table_xv6_def separate_def)

lemma csr_table_xv6_separate:
  "list_all (\<lambda>x. list_all (separate x) csr_table) csr_table_xv6"
  by (simp add: csr_table_def csr_table_xv6_def separate_def)

lemma csr_table_xv6_separate_xv6:
  "list_all (\<lambda>x. list_all (separate x) csr_table_xv6) csr_table_xv6"
  by (simp add: csr_table_xv6_def separate_def)

lemma list_all_pairs:
  assumes "list_all (\<lambda>x. list_all (Q x) a) a" and "list_all (\<lambda>x. list_all (Q x) a') a"
    and "list_all (\<lambda>x. list_all (Q x) a) a'" and "list_all (\<lambda>x. list_all (Q x) a') a'"
    and "x \<in> set (a @ (if b then a' else []))" and "y \<in> set (a @ (if b then a' else []))"
  shows "Q x y"
  using assms by (cases b) (auto simp: list_all_iff)

lemma csr_cells_disjoint:
  assumes "(r, get, put) \<in> set (csr_cells cfg)" and "(r', get', put') \<in> set (csr_cells cfg)"
    and "r \<noteq> r'"
  shows "get' (put v c) = get' c"
proof -
  have "separate (r, get, put) (r', get', put')"
    by (rule list_all_pairs [where Q = separate and a = csr_table and a' = csr_table_xv6
          and b = "XV6 cfg", OF csr_table_separate csr_table_separate_xv6 csr_table_xv6_separate
          csr_table_xv6_separate_xv6 assms(1) [unfolded csr_cells_def]
          assms(2) [unfolded csr_cells_def]])
  then show ?thesis
    using assms(3) by (simp add: separate_def)
qed

text \<open>The numbers that can only be read, and the value they give.\<close>

definition csr_read_only :: "rv \<Rightarrow> (i32 \<times> i32) list" where
  "csr_read_only rv =
     [(CSR_RDCYCLE, counter_lo (c_cycle (csr rv) - 1)),
      (CSR_RDCYCLEH, counter_hi (c_cycle (csr rv) - 1)),
      (CSR_RDINSTRET, counter_lo (c_instret (csr rv) - 1)),
      (CSR_RDINSTRETH, counter_hi (c_instret (csr rv) - 1)),
      (CSR_MVENDORID, mvendorid (csr rv)), (CSR_MARCHID, marchid (csr rv)),
      (CSR_MIMPID, mimpid (csr rv)), (CSR_MHARTID, mhartid (csr rv))]"

lemma csr_rw_read_only:
  assumes "(r, x) \<in> set (csr_read_only rv)"
  shows "csr_rw cfg rv r mode val update = (rv, x, True)"
proof -
  have "list_all (\<lambda>(r, x). csr_rw cfg rv r mode val update = (rv, x, True)) (csr_read_only rv)"
    by (simp add: csr_read_only_def csr_rw_def)
  then show ?thesis
    using assms unfolding list_all_iff by blast
qed

lemma csr_rw_unknown:
  assumes "r \<notin> fst ` set (csr_read_only rv)" and "r \<notin> fst ` set (csr_cells cfg)"
  shows "csr_rw cfg rv r mode val update = (rv, 0, False)"
  using assms
  by (cases "XV6 cfg")
    (simp_all add: csr_read_only_def csr_cells_def csr_table_def csr_table_xv6_def csr_rw_def)

lemma csr_rw_cases:
  obtains (read_only) x where "(r, x) \<in> set (csr_read_only rv)"
  | (cell) get put where "(r, get, put) \<in> set (csr_cells cfg)"
  | (unknown) "r \<notin> fst ` set (csr_read_only rv)" "r \<notin> fst ` set (csr_cells cfg)"
proof (cases "r \<in> fst ` set (csr_read_only rv)")
  case True
  then obtain p where "p \<in> set (csr_read_only rv)" and "r = fst p" by blast
  then show ?thesis using read_only [of "snd p"] by simp
next
  case no: False
  show ?thesis
  proof (cases "r \<in> fst ` set (csr_cells cfg)")
    case True
    then obtain p where "p \<in> set (csr_cells cfg)" and "r = fst p" by blast
    then show ?thesis using cell [of "fst (snd p)" "snd (snd p)"] by simp
  next
    case False
    show ?thesis by (rule unknown [OF no False])
  qed
qed

definition counters_and_ids :: "csrs \<Rightarrow> (i64 \<times> i64 \<times> i64 \<times> i64 \<times> i64) \<times> (i32 \<times> i32 \<times> i32 \<times> i32 \<times> i32)" where
  "counters_and_ids c =
     ((c_time c, c_cycle c, c_instret c, c_mtime c, c_mtimecmp c),
      (mvendorid c, marchid c, mimpid c, mhartid c, msip c))"

lemma csr_cells_static:
  assumes "(r, get, put) \<in> set (csr_cells cfg)"
  shows "counters_and_ids (put v c) = counters_and_ids c"
proof -
  let ?P = "\<lambda>(r :: i32, get :: csrs \<Rightarrow> i32, put).
    \<forall>v c. counters_and_ids (put v c) = counters_and_ids c"
  have "list_all ?P csr_table" "list_all ?P csr_table_xv6"
    by (simp_all add: csr_table_def csr_table_xv6_def counters_and_ids_def)
  then show ?thesis
    using csr_cells_all [of ?P cfg "(r, get, put)"] assms by simp
qed

text \<open>What an access never touches, in every case.\<close>

lemma csr_rw_state:
  "\<exists>c. fst (csr_rw cfg rv r mode val update) = rv\<lparr>csr := c\<rparr> \<and>
       counters_and_ids c = counters_and_ids (csr rv)"
proof (cases rule: csr_rw_cases [where r = r and rv = rv and cfg = cfg])
  case (read_only x)
  then show ?thesis by (intro exI [of _ "csr rv"]) (simp add: csr_rw_read_only)
next
  case (cell get put)
  then show ?thesis
    using csr_cells_static [OF cell] by (auto simp: csr_rw_cell csr_access_def)
next
  case unknown
  then show ?thesis by (intro exI [of _ "csr rv"]) (simp add: csr_rw_unknown)
qed

lemma csr_rw_frame [simp]:
  "regs (fst (csr_rw cfg rv r mode val update)) = regs rv"
  "pc (fst (csr_rw cfg rv r mode val update)) = pc rv"
  "prev_pc (fst (csr_rw cfg rv r mode val update)) = prev_pc rv"
  "mem (fst (csr_rw cfg rv r mode val update)) = mem rv"
  "mem_size (fst (csr_rw cfg rv r mode val update)) = mem_size rv"
  "mem_base (fst (csr_rw cfg rv r mode val update)) = mem_base rv"
  "mtime_update (fst (csr_rw cfg rv r mode val update)) = mtime_update rv"
  "exitcode (fst (csr_rw cfg rv r mode val update)) = exitcode rv"
  "rv_static (fst (csr_rw cfg rv r mode val update)) = rv_static rv"
proof -
  obtain c where c: "fst (csr_rw cfg rv r mode val update) = rv\<lparr>csr := c\<rparr>"
    "counters_and_ids c = counters_and_ids (csr rv)"
    using csr_rw_state by blast
  show "regs (fst (csr_rw cfg rv r mode val update)) = regs rv"
    "pc (fst (csr_rw cfg rv r mode val update)) = pc rv"
    "prev_pc (fst (csr_rw cfg rv r mode val update)) = prev_pc rv"
    "mem (fst (csr_rw cfg rv r mode val update)) = mem rv"
    "mem_size (fst (csr_rw cfg rv r mode val update)) = mem_size rv"
    "mem_base (fst (csr_rw cfg rv r mode val update)) = mem_base rv"
    "mtime_update (fst (csr_rw cfg rv r mode val update)) = mtime_update rv"
    "exitcode (fst (csr_rw cfg rv r mode val update)) = exitcode rv"
    "rv_static (fst (csr_rw cfg rv r mode val update)) = rv_static rv"
    using c(2) by (simp_all add: c(1) rv_static_def counters_and_ids_def)
qed

end
