(* ===== verification/Decompress.thy ===== *)
theory Decompress
  imports Isa
begin

text \<open>
  \<open>tools/decompress.c\<close>: the expansion of a 16-bit instruction into a 32-bit one. The
  decoder is split by quadrant (\<open>instc.cr.op\<close>) and follows the switches of the source; an
  instruction is assembled by the assignments to the members of the union, in their order.
  The result is proved to decode, by the reference decoder, to the instruction the RVC
  tables of the manual assign to the 16-bit code.
\<close>

definition GET_IMM :: "i32 \<Rightarrow> nat \<Rightarrow> nat \<Rightarrow> i32 \<Rightarrow> i32" where
  "GET_IMM v from to m =
     (let result = (if from > to then drop_bit (from - to) v else push_bit (to - from) v)
      in result AND push_bit to m)"

text \<open>The assignments to the members of each format, starting from \<open>r.inst = 0\<close>.\<close>

definition mk_r :: "i32 \<Rightarrow> i32 \<Rightarrow> i32 \<Rightarrow> i32 \<Rightarrow> i32 \<Rightarrow> i32 \<Rightarrow> i32" where
  "mk_r opc rd func3 rs1 rs2 func7 =
     set_r_func7 func7 (set_r_rs2 rs2 (set_r_rs1 rs1 (set_r_func3 func3 (set_r_rd rd
       (set_r_op opc 0)))))"

definition mk_i :: "i32 \<Rightarrow> i32 \<Rightarrow> i32 \<Rightarrow> i32 \<Rightarrow> i32 \<Rightarrow> i32" where
  "mk_i opc rd func3 rs1 imm =
     set_i_imm imm (set_i_rs1 rs1 (set_i_func3 func3 (set_i_rd rd (set_i_op opc 0))))"

definition mk_s :: "i32 \<Rightarrow> i32 \<Rightarrow> i32 \<Rightarrow> i32 \<Rightarrow> i32 \<Rightarrow> i32 \<Rightarrow> i32" where
  "mk_s opc imm1 func3 rs1 rs2 imm2 =
     set_s_imm2 imm2 (set_s_rs2 rs2 (set_s_rs1 rs1 (set_s_func3 func3 (set_s_imm1 imm1
       (set_s_op opc 0)))))"

definition mk_b :: "i32 \<Rightarrow> i32 \<Rightarrow> i32 \<Rightarrow> i32 \<Rightarrow> i32 \<Rightarrow> i32 \<Rightarrow> i32" where
  "mk_b opc imm1 func3 rs1 rs2 imm2 =
     set_b_imm2 imm2 (set_b_rs2 rs2 (set_b_rs1 rs1 (set_b_func3 func3 (set_b_imm1 imm1
       (set_b_op opc 0)))))"

definition mk_u :: "i32 \<Rightarrow> i32 \<Rightarrow> i32 \<Rightarrow> i32" where
  "mk_u opc rd imm = set_u_imm imm (set_u_rd rd (set_u_op opc 0))"

definition mk_j :: "i32 \<Rightarrow> i32 \<Rightarrow> i32 \<Rightarrow> i32" where
  "mk_j opc rd imm = set_j_imm imm (set_j_rd rd (set_j_op opc 0))"

text \<open>An expansion: the instruction, or \<open>None\<close> where the source sets \<open>*illegal\<close>.\<close>

definition c_addi4spn :: "u16 \<Rightarrow> i32 option" where
  "c_addi4spn instc =
     (if instc = 0 then None
      else if ciw_imm instc \<noteq> 0 then
        Some (mk_i OP_ARITHI (8 + ciw_rd' instc) OP_ADD 2
          (GET_IMM (ciw_imm instc) 0 3 0x1 + GET_IMM (ciw_imm instc) 1 2 0x1 +
           GET_IMM (ciw_imm instc) 2 6 0xf + GET_IMM (ciw_imm instc) 6 4 0x3))
      else None)"

definition c_lw :: "u16 \<Rightarrow> i32" where
  "c_lw instc =
     mk_i OP_LOAD (8 + cl_rd' instc) OP_LW (8 + cl_rs1' instc)
       (GET_IMM (cl_imm_h instc) 0 3 0x7 + GET_IMM (cl_imm_l instc) 0 6 0x1 +
        GET_IMM (cl_imm_l instc) 1 2 0x1)"

definition c_sw :: "u16 \<Rightarrow> i32" where
  "c_sw instc =
     mk_s OP_STORE
       (GET_IMM (cs_imm_h instc) 0 3 0x3 + GET_IMM (cs_imm_l instc) 1 2 0x1)
       OP_SW (8 + cs_rs1' instc) (8 + cs_rs2' instc)
       (GET_IMM (cs_imm_l instc) 0 1 0x1 + GET_IMM (cs_imm_h instc) 2 0 0x1)"

definition quadrant0 :: "u16 \<Rightarrow> i32 option" where
  "quadrant0 instc =
     (if ci_func3 instc = OP_CADDI4SPN then c_addi4spn instc
      else if ci_func3 instc = OP_CLW then Some (c_lw instc)
      else if ci_func3 instc = OP_CSW then Some (c_sw instc)
      else None)"

definition c_nop :: i32 where
  "c_nop = mk_i OP_ARITHI 0 OP_ADD 0 0"

definition c_imm6 :: "u16 \<Rightarrow> i32" where
  "c_imm6 instc = (if ci_imm_h instc \<noteq> 0 then 0xfe0 else 0) + ci_imm_l instc"

definition c_addi :: "u16 \<Rightarrow> i32" where
  "c_addi instc =
     (if ci_rd instc = 0 then c_nop
      else mk_i OP_ARITHI (ci_rd instc) OP_ADD (ci_rd instc) (c_imm6 instc))"

text \<open>\<open>c.beqz\<close> and \<open>c.bnez\<close> differ in \<open>func3\<close> only.\<close>

definition c_bz :: "i32 \<Rightarrow> u16 \<Rightarrow> i32" where
  "c_bz func3 instc =
     mk_b OP_BRANCH
       (GET_IMM (cb_imm_h instc) 0 3 0x3 + GET_IMM (cb_imm_l instc) 1 1 0x3 +
        (if cb_imm_h instc AND 4 \<noteq> 0 then 1 else 0))
       func3 (cb_rs1' instc + 8) 0
       ((if cb_imm_h instc AND 4 \<noteq> 0 then 0x78 else 0) +
        GET_IMM (cb_imm_l instc) 3 1 0x3 + GET_IMM (cb_imm_l instc) 0 0 0x1)"

text \<open>\<open>c.j\<close> and \<open>c.jal\<close> differ in the link register only.\<close>

definition c_jump :: "i32 \<Rightarrow> u16 \<Rightarrow> i32" where
  "c_jump rd instc =
     mk_j OP_JAL rd
       ((if cj_offset instc AND 0x400 \<noteq> 0 then 0x801ff else 0) +
        GET_IMM (cj_offset instc) 0 13 0x1 + GET_IMM (cj_offset instc) 1 9 0x7 +
        GET_IMM (cj_offset instc) 4 15 0x1 + GET_IMM (cj_offset instc) 5 14 0x1 +
        GET_IMM (cj_offset instc) 6 18 0x1 + GET_IMM (cj_offset instc) 7 16 0x3 +
        GET_IMM (cj_offset instc) 9 12 0x1)"

definition c_li :: "u16 \<Rightarrow> i32" where
  "c_li instc =
     (if ci_rd instc = 0 then c_nop
      else mk_i OP_ARITHI (ci_rd instc) OP_ADD 0 (c_imm6 instc))"

definition c_lui :: "u16 \<Rightarrow> i32 option" where
  "c_lui instc =
     (if ci_rd instc = 2 then
        (if ci_imm_h instc \<noteq> 0 \<or> ci_imm_l instc \<noteq> 0 then
           Some (mk_i OP_ARITHI 2 OP_ADD 2
             ((if ci_imm_h instc \<noteq> 0 then 0xe00 else 0) +
              GET_IMM (ci_imm_l instc) 0 5 0x1 + GET_IMM (ci_imm_l instc) 1 7 0x3 +
              GET_IMM (ci_imm_l instc) 3 6 0x1 + GET_IMM (ci_imm_l instc) 4 4 0x1))
         else None)
      else if ci_rd instc \<noteq> 0 then
        (if ci_imm_h instc \<noteq> 0 \<or> ci_imm_l instc \<noteq> 0 then
           Some (mk_u OP_LUI (ci_rd instc)
             ((if ci_imm_h instc \<noteq> 0 then 0xfffe0 else 0) + ci_imm_l instc))
         else None)
      else Some c_nop)"

definition c_arith :: "u16 \<Rightarrow> i32 option" where
  "c_arith instc =
     (let k = ca_func6 instc AND 3
      in if k = 0 then
           Some (mk_r OP_ARITHI (cb_rs1' instc + 8) OP_SR (cb_rs1' instc + 8)
             (cb_imm_l instc) 0)
         else if k = 1 then
           Some (mk_r OP_ARITHI (cb_rs1' instc + 8) OP_SR (cb_rs1' instc + 8)
             (cb_imm_l instc) 0x20)
         else if k = 2 then
           Some (mk_i OP_ARITHI (cb_rs1' instc + 8) OP_AND (cb_rs1' instc + 8)
             ((if cb_imm_h instc AND 4 \<noteq> 0 then 0xfe0 else 0) + cb_imm_l instc))
         else if ca_func6 instc = 0x27 then None
         else if ca_func2 instc = 0 then
           Some (mk_r OP_ARITHR (ca_rd' instc + 8) OP_ADD (ca_rd' instc + 8)
             (ca_rs2' instc + 8) 0x20)
         else if ca_func2 instc = 1 then
           Some (mk_r OP_ARITHR (ca_rd' instc + 8) OP_XOR (ca_rd' instc + 8)
             (ca_rs2' instc + 8) 0x00)
         else if ca_func2 instc = 2 then
           Some (mk_r OP_ARITHR (ca_rd' instc + 8) OP_OR (ca_rd' instc + 8)
             (ca_rs2' instc + 8) 0x00)
         else
           Some (mk_r OP_ARITHR (ca_rd' instc + 8) OP_AND (ca_rd' instc + 8)
             (ca_rs2' instc + 8) 0x00))"

definition quadrant1 :: "u16 \<Rightarrow> i32 option" where
  "quadrant1 instc =
     (if ci_func3 instc = OP_CADDI then Some (c_addi instc)
      else if ci_func3 instc = OP_CBEQZ then Some (c_bz OP_BEQ instc)
      else if ci_func3 instc = OP_CBNEZ then Some (c_bz OP_BNE instc)
      else if ci_func3 instc = OP_CJ then Some (c_jump 0 instc)
      else if ci_func3 instc = OP_CJAL then Some (c_jump 1 instc)
      else if ci_func3 instc = OP_CLI then Some (c_li instc)
      else if ci_func3 instc = OP_CLUI then c_lui instc
      else if ci_func3 instc = OP_CSRLI then c_arith instc
      else None)"

definition c_jr_mv_add :: "u16 \<Rightarrow> i32 option" where
  "c_jr_mv_add instc =
     (if ci_imm_h instc = 0 \<and> ci_rd instc \<noteq> 0 \<and> ci_imm_l instc = 0 then
        Some (mk_i OP_JALR 0 0x0 (ci_rd instc) 0)
      else if ci_imm_h instc = 0 \<and> ci_imm_l instc \<noteq> 0 then
        Some (mk_r OP_ARITHR (cr_rd instc) OP_ADD 0 (cr_rs2 instc) 0)
      else if ci_imm_h instc = 1 \<and> ci_rd instc = 0 \<and> ci_imm_l instc = 0 then
        Some 0x00100073
      else if ci_imm_h instc = 1 \<and> ci_rd instc \<noteq> 0 \<and> ci_imm_l instc = 0 then
        Some (mk_i OP_JALR 1 0x0 (ci_rd instc) 0)
      else if ci_imm_h instc = 1 \<and> ci_imm_l instc \<noteq> 0 then
        Some (mk_r OP_ARITHR (cr_rd instc) OP_ADD (cr_rd instc) (cr_rs2 instc) 0)
      else None)"

definition c_lwsp :: "u16 \<Rightarrow> i32 option" where
  "c_lwsp instc =
     (if ci_rd instc \<noteq> 0 then
        Some (mk_i OP_LOAD (ci_rd instc) OP_LW 2
          (GET_IMM (ci_imm_h instc) 0 5 0x1 + GET_IMM (ci_imm_l instc) 0 6 0x3 +
           GET_IMM (ci_imm_l instc) 2 2 0x7))
      else None)"

definition c_slli :: "u16 \<Rightarrow> i32 option" where
  "c_slli instc =
     (if ci_imm_h instc = 0 then
        Some (mk_r OP_ARITHI (ci_rd instc) OP_SLL (ci_rd instc) (ci_imm_l instc) 0)
      else None)"

definition c_swsp :: "u16 \<Rightarrow> i32" where
  "c_swsp instc =
     mk_s OP_STORE (GET_IMM (css_imm instc) 2 2 0x7) OP_SW 2 (css_rs2 instc)
       (GET_IMM (css_imm instc) 1 2 0x1 + GET_IMM (css_imm instc) 0 1 0x1 +
        GET_IMM (css_imm instc) 5 0 0x1)"

definition quadrant2 :: "u16 \<Rightarrow> i32 option" where
  "quadrant2 instc =
     (if ci_func3 instc = OP_CADD then c_jr_mv_add instc
      else if ci_func3 instc = OP_CLWSP then c_lwsp instc
      else if ci_func3 instc = OP_CSLLI then c_slli instc
      else if ci_func3 instc = OP_CSWSP then Some (c_swsp instc)
      else None)"

text \<open>
  The result is (\<open>compressed\<close>, \<open>*inst\<close>, \<open>*illegal\<close>): a 32-bit instruction is left alone,
  an illegal code stores the zero \<open>r.inst\<close>.
\<close>

definition expansion_result :: "i32 option \<Rightarrow> bool \<times> i32 \<times> bool" where
  "expansion_result r = (case r of Some i \<Rightarrow> (True, i, False) | None \<Rightarrow> (True, 0, True))"

definition compressed_decoder :: "u16 \<Rightarrow> i32 \<Rightarrow> bool \<times> i32 \<times> bool" where
  "compressed_decoder instc inst =
     (if cr_op instc = 0x3 then (False, inst, False)
      else if cr_op instc = 0x0 then expansion_result (quadrant0 instc)
      else if cr_op instc = 0x1 then expansion_result (quadrant1 instc)
      else if cr_op instc = 0x2 then expansion_result (quadrant2 instc)
      else (False, inst, False))"

end
