(* ===== verification/Step.thy ===== *)
theory Step
  imports Loadstore Alu Csr Decompress
begin

text \<open>
  \<open>srv32_step\<close> of \<open>tools/rvsim.c\<close>: one definition per case of the instruction switch, the
  interrupt and fetch phases that precede it, and the whole step. A case ends with
  \<open>Break\<close>, after which the program counter advances, or returns.
\<close>

abbreviation set_cpu :: "rv \<Rightarrow> 'w sim \<Rightarrow> 'w sim" where
  "set_cpu rv s \<equiv> s\<lparr>cpu := rv\<rparr>"

text \<open>\<open>srv32_trap(rv, cause, val); return RV_TRAP\<close>.\<close>

definition raise_trap :: "'w sim \<Rightarrow> i32 \<Rightarrow> i32 \<Rightarrow> ('w sim \<times> ctl) run" where
  "raise_trap s cause val = Done (set_cpu (srv32_trap (cpu s) cause val) s, Ret RV_TRAP)"

subsection \<open>Upper immediates and jumps\<close>

definition exec_auipc :: "config \<Rightarrow> 'w sim \<Rightarrow> i32 \<Rightarrow> ('w sim \<times> ctl) run" where
  "exec_auipc cfg s w =
     (let rv = cpu s in
      Done (set_cpu (srv32_write_regs cfg rv (unat (u_rd w)) (pc rv + to_imm_u (u_imm w))) s, Break))"

definition exec_lui :: "config \<Rightarrow> 'w sim \<Rightarrow> i32 \<Rightarrow> ('w sim \<times> ctl) run" where
  "exec_lui cfg s w =
     Done (set_cpu (srv32_write_regs cfg (cpu s) (unat (u_rd w)) (to_imm_u (u_imm w))) s, Break)"

text \<open>The end of a jump, from the state whose \<open>pc\<close> is the target.\<close>

definition jump_link :: "config \<Rightarrow> 'w sim \<Rightarrow> rv \<Rightarrow> nat \<Rightarrow> i32 \<Rightarrow> bool \<Rightarrow> ('w sim \<times> ctl) run" where
  "jump_link cfg s rv rd pc_old compressed =
     (let rv1 = rv\<lparr>pc := pc rv AND NOT 1\<rparr> in
      if \<not> RV32C cfg \<and> pc rv1 AND 3 \<noteq> 0 then Done (set_cpu rv1 s, Ret RV_OKAY)
      else
        let rv2 = srv32_write_regs cfg rv1 rd (if compressed then pc_old + 2 else pc_old + 4);
            rv3 = srv32_cycle_add rv2 (branch_penalty rv2)
        in Done (set_cpu rv3 s, Ret RV_OKAY))"

definition exec_jal :: "config \<Rightarrow> 'w sim \<Rightarrow> i32 \<Rightarrow> bool \<Rightarrow> ('w sim \<times> ctl) run" where
  "exec_jal cfg s w compressed =
     (let rv = cpu s; pc_old = pc rv; pc_off = to_imm_j (j_imm w); rv1 = rv\<lparr>pc := pc rv + pc_off\<rparr> in
      if pc_off = 0 then Done (set_cpu (rv1\<lparr>exitcode := 1\<rparr>) s, Ret RV_EXIT)
      else jump_link cfg s rv1 (unat (j_rd w)) pc_old compressed)"

definition exec_jalr :: "config \<Rightarrow> 'w sim \<Rightarrow> i32 \<Rightarrow> bool \<Rightarrow> ('w sim \<times> ctl) run" where
  "exec_jalr cfg s w compressed =
     (let rv = cpu s; pc_old = pc rv;
          pc_new = srv32_read_regs cfg rv (unat (i_rs1 w)) + to_imm_i (i_imm w);
          rv1 = rv\<lparr>pc := pc_new\<rparr> in
      if pc_new = pc_old then Done (set_cpu (rv1\<lparr>exitcode := 1\<rparr>) s, Ret RV_EXIT)
      else jump_link cfg s rv1 (unat (i_rd w)) pc_old compressed)"

subsection \<open>Branches\<close>

text \<open>The condition of a branch; \<open>None\<close> is the default case.\<close>

definition branch_cond :: "i32 \<Rightarrow> i32 \<Rightarrow> i32 \<Rightarrow> bool option" where
  "branch_cond f3 a b =
     (if f3 = OP_BEQ then Some (a = b)
      else if f3 = OP_BNE then Some (a \<noteq> b)
      else if f3 = OP_BLT then Some (a <s b)
      else if f3 = OP_BGE then Some (b \<le>s a)
      else if f3 = OP_BLTU then Some (a < b)
      else if f3 = OP_BGEU then Some (b \<le> a)
      else None)"

definition exec_branch :: "config \<Rightarrow> 'w sim \<Rightarrow> i32 \<Rightarrow> ('w sim \<times> ctl) run" where
  "exec_branch cfg s w =
     (let rv = cpu s; offset = to_imm_b (b_imm2 w) (b_imm1 w) in
      case branch_cond (b_func3 w) (srv32_read_regs cfg rv (unat (b_rs1 w)))
             (srv32_read_regs cfg rv (unat (b_rs2 w))) of
        None \<Rightarrow> raise_trap s TRAP_INST_ILL w
      | Some False \<Rightarrow> Done (s, Break)
      | Some True \<Rightarrow>
          let rv1 = rv\<lparr>pc := pc rv + offset\<rparr>;
              rv2 = (if (\<not> branch_predict rv1 \<or> 0 <s offset) \<and> pc rv1 AND 3 = 0
                     then srv32_cycle_add rv1 (branch_penalty rv1) else rv1)
          in Done (set_cpu rv2 s, Ret RV_OKAY))"

subsection \<open>Loads and stores\<close>

text \<open>A single RAM costs one more cycle per access.\<close>

definition singleram_cycle :: "'w sim \<Rightarrow> 'w sim" where
  "singleram_cycle s = (if singleram (cpu s) then set_cpu (srv32_cycle_add (cpu s) 1) s else s)"

definition exec_load :: "config \<Rightarrow> 'w host \<Rightarrow> 'w sim \<Rightarrow> i32 \<Rightarrow> ('w sim \<times> ctl) run" where
  "exec_load cfg h s w =
     (let address = srv32_read_regs cfg (cpu s) (unat (i_rs1 w)) + to_imm_i (i_imm w) in
      bind_run (memrw_load h s (i_func3 w) address) (\<lambda>(s1, code, data).
        let s2 = singleram_cycle s1 in
        if code = TRAP_LD_FAIL then raise_trap s2 TRAP_LD_FAIL address
        else if code = TRAP_LD_ALIGN then raise_trap s2 TRAP_LD_ALIGN address
        else if code = TRAP_INST_ILL then raise_trap s2 TRAP_INST_ILL w
        else Done (set_cpu (srv32_write_regs cfg (cpu s2) (unat (i_rd w)) data) s2, Break)))"

definition exec_store :: "config \<Rightarrow> 'w host \<Rightarrow> 'w sim \<Rightarrow> i32 \<Rightarrow> ('w sim \<times> ctl) run" where
  "exec_store cfg h s w =
     (let address = srv32_read_regs cfg (cpu s) (unat (s_rs1 w)) + to_imm_s (s_imm2 w) (s_imm1 w);
          data = srv32_read_regs cfg (cpu s) (unat (s_rs2 w)) in
      bind_run (memrw_store h s (i_func3 w) address data) (\<lambda>(s1, code).
        let s2 = singleram_cycle s1 in
        if code = TRAP_ST_FAIL then raise_trap s2 TRAP_ST_FAIL address
        else if code = TRAP_ST_ALIGN then raise_trap s2 TRAP_ST_ALIGN address
        else if code = TRAP_INST_ILL then raise_trap s2 TRAP_INST_ILL w
        else Done (s2, Break)))"

subsection \<open>Arithmetic\<close>

definition write_result :: "config \<Rightarrow> 'w sim \<Rightarrow> i32 \<Rightarrow> nat \<Rightarrow> i32 option \<Rightarrow> ('w sim \<times> ctl) run" where
  "write_result cfg s w rd r =
     (case r of
        Some v \<Rightarrow> Done (set_cpu (srv32_write_regs cfg (cpu s) rd v) s, Break)
      | None \<Rightarrow> raise_trap s TRAP_INST_ILL w)"

definition exec_op_imm :: "config \<Rightarrow> 'w host \<Rightarrow> 'w sim \<Rightarrow> i32 \<Rightarrow> ('w sim \<times> ctl) run" where
  "exec_op_imm cfg h s w =
     write_result cfg s w (unat (i_rd w))
       (exec_arithi cfg h w (srv32_read_regs cfg (cpu s) (unat (i_rs1 w))))"

definition exec_op :: "config \<Rightarrow> 'w host \<Rightarrow> 'w sim \<Rightarrow> i32 \<Rightarrow> ('w sim \<times> ctl) run" where
  "exec_op cfg h s w =
     write_result cfg s w (unat (r_rd w))
       (exec_arithr cfg h w (srv32_read_regs cfg (cpu s) (unat (r_rs1 w)))
         (srv32_read_regs cfg (cpu s) (unat (r_rs2 w))))"

subsection \<open>System instructions\<close>

definition exec_ecall :: "config \<Rightarrow> 'w host \<Rightarrow> 'w sim \<Rightarrow> ('w sim \<times> ctl) run" where
  "exec_ecall cfg h s =
     (let r = srv32_read_regs cfg (cpu s) in
      bind_run (srv32_syscall h s (r (SYS cfg)) (r A0) (r A1) (r A2)) (\<lambda>(res, s1).
        let s2 = (if res \<noteq> - 1 then set_cpu (srv32_write_regs cfg (cpu s1) A0 res) s1 else s1)
        in raise_trap s2 TRAP_ECALL 0))"

definition exec_mret :: "config \<Rightarrow> 'w sim \<Rightarrow> ('w sim \<times> ctl) run" where
  "exec_mret cfg s =
     (let rv = cpu s;
          rv1 = rv\<lparr>pc := mepc (csr rv), csr := (csr rv)\<lparr>mstatus := mstatus_leave (mstatus (csr rv))\<rparr>\<rparr> in
      if \<not> RV32C cfg \<and> pc rv1 AND 3 \<noteq> 0 then Done (set_cpu rv1 s, Ret RV_OKAY)
      else Done (set_cpu (srv32_cycle_add rv1 (branch_penalty rv1)) s, Ret RV_OKAY))"

text \<open>The four cases of \<open>imm & 3\<close>.\<close>

definition exec_priv :: "config \<Rightarrow> 'w host \<Rightarrow> 'w sim \<Rightarrow> i32 \<Rightarrow> ('w sim \<times> ctl) run" where
  "exec_priv cfg h s w =
     (let k = i_imm w AND 3 in
      if k = 0 then exec_ecall cfg h s
      else if k = 1 then raise_trap s TRAP_BREAK (pc (cpu s))
      else if k = 2 then exec_mret cfg s
      else raise_trap s TRAP_INST_ILL 0)"

text \<open>
  The operands (val, update, csr\_type) of a CSR instruction: the immediate forms take the
  number of the source register, and setting or clearing with source 0 does not write.
\<close>

definition csr_operands :: "config \<Rightarrow> rv \<Rightarrow> i32 \<Rightarrow> (i32 \<times> bool \<times> i32) option" where
  "csr_operands cfg rv w =
     (let f3 = i_func3 w; rs1 = i_rs1 w in
      if f3 = OP_CSRRWI then Some (rs1, True, OP_CSRRW)
      else if f3 = OP_CSRRW then Some (srv32_read_regs cfg rv (unat rs1), True, OP_CSRRW)
      else if f3 = OP_CSRRSI then Some (rs1, rs1 \<noteq> 0, OP_CSRRS)
      else if f3 = OP_CSRRS then Some (srv32_read_regs cfg rv (unat rs1), rs1 \<noteq> 0, OP_CSRRS)
      else if f3 = OP_CSRRCI then Some (rs1, rs1 \<noteq> 0, OP_CSRRC)
      else if f3 = OP_CSRRC then Some (srv32_read_regs cfg rv (unat rs1), rs1 \<noteq> 0, OP_CSRRC)
      else None)"

definition exec_csr :: "config \<Rightarrow> 'w sim \<Rightarrow> i32 \<Rightarrow> ('w sim \<times> ctl) run" where
  "exec_csr cfg s w =
     (case csr_operands cfg (cpu s) w of
        None \<Rightarrow> raise_trap s TRAP_INST_ILL w
      | Some (val, update, csr_type) \<Rightarrow>
          (case csr_rw cfg (cpu s) (i_imm w) csr_type val update of (rv1, r, legal) \<Rightarrow>
             if legal then Done (set_cpu (srv32_write_regs cfg rv1 (unat (i_rd w)) r) s, Break)
             else raise_trap (set_cpu rv1 s) TRAP_INST_ILL 0))"

definition exec_system :: "config \<Rightarrow> 'w host \<Rightarrow> 'w sim \<Rightarrow> i32 \<Rightarrow> ('w sim \<times> ctl) run" where
  "exec_system cfg h s w =
     (if i_func3 w = OP_ECALL then exec_priv cfg h s w else exec_csr cfg s w)"

subsection \<open>The instruction switch\<close>

definition exec_inst :: "config \<Rightarrow> 'w host \<Rightarrow> 'w sim \<Rightarrow> i32 \<Rightarrow> bool \<Rightarrow> ('w sim \<times> ctl) run" where
  "exec_inst cfg h s w compressed =
     (let opc = r_op w in
      if opc = OP_AUIPC then exec_auipc cfg s w
      else if opc = OP_LUI then exec_lui cfg s w
      else if opc = OP_JAL then exec_jal cfg s w compressed
      else if opc = OP_JALR then exec_jalr cfg s w compressed
      else if opc = OP_BRANCH then exec_branch cfg s w
      else if opc = OP_LOAD then exec_load cfg h s w
      else if opc = OP_STORE then exec_store cfg h s w
      else if opc = OP_ARITHI then exec_op_imm cfg h s w
      else if opc = OP_ARITHR then exec_op cfg h s w
      else if opc = OP_FENCE then Done (s, Break)
      else if opc = OP_SYSTEM then exec_system cfg h s w
      else raise_trap s TRAP_INST_ILL w)"

text \<open>The statements after the switch.\<close>

definition finish :: "bool \<Rightarrow> 'w sim \<times> ctl \<Rightarrow> ('w sim \<times> rvret) run" where
  "finish compressed sc =
     (case sc of (s, c) \<Rightarrow>
        (case c of
           Ret r \<Rightarrow> Done (s, r)
         | Break \<Rightarrow>
             Done (set_cpu ((cpu s)\<lparr>pc := (if compressed then pc (cpu s) + 2 else pc (cpu s) + 4)\<rparr>) s,
               RV_OKAY)))"

subsection \<open>Before the switch\<close>

definition mie_set :: "rv \<Rightarrow> bool" where
  "mie_set rv \<longleftrightarrow> mstatus (csr rv) AND shl1 MIE \<noteq> 0"

text \<open>The three interrupt entries, in the order of the code; \<open>compressed\<close> is still 0.\<close>

definition take_interrupts :: "statics \<Rightarrow> rv \<Rightarrow> rv" where
  "take_interrupts t rv =
     (let rv1 = (if timer_irq t \<and> mie_set rv then srv32_int rv INT_MTIME MTIP False else rv);
          rv2 = (if sw_irq_next t \<and> mie_set rv1 then srv32_int rv1 INT_MSI MSIP False else rv1);
          rv3 = (if ext_irq_next t \<and> mie_set rv2 then srv32_int rv2 INT_MEI MEIP False else rv2)
      in rv3)"

definition check_pc :: "config \<Rightarrow> rv \<Rightarrow> rv" where
  "check_pc cfg rv =
     (let rv1 = (if mem_base rv + mem_size rv \<le>s pc rv \<or> pc rv <s mem_base rv
                 then srv32_trap rv TRAP_INST_FAIL (pc rv) else rv);
          rv2 = (if pc rv1 AND (if RV32C cfg then 1 else 3) \<noteq> 0
                 then srv32_trap rv1 TRAP_INST_ALIGN (pc rv1) else rv1)
      in rv2)"

text \<open>A fetch outside memory leaves the locals \<open>inst\<close> and \<open>instc\<close> as they are.\<close>

definition fetch_inst :: "'w host \<Rightarrow> rv \<Rightarrow> i32 run" where
  "fetch_inst h rv =
     bind_run (srv32_read_mem rv (pc rv) 4)
       (\<lambda>r. Done (case r of Some bs \<Rightarrow> le_word bs | None \<Rightarrow> uninit_inst h))"

definition fetch_instc :: "'w host \<Rightarrow> rv \<Rightarrow> u16 run" where
  "fetch_instc h rv =
     bind_run (srv32_read_mem rv (pc rv) 2)
       (\<lambda>r. Done (case r of Some bs \<Rightarrow> ucast (le_word bs) | None \<Rightarrow> uninit_instc h))"

text \<open>The pending flags for the next step: software and external interrupts are one step late.\<close>

definition sample_irqs :: "rv \<Rightarrow> i32 \<Rightarrow> statics \<Rightarrow> statics" where
  "sample_irqs rv w t =
     (let c = csr rv; quiet = (r_op w \<noteq> OP_SYSTEM) in
      t\<lparr>timer_irq := c_mtimecmp c \<le>s c_mtime c \<and> mie_set rv \<and> mie c AND shl1 MTIE \<noteq> 0 \<and> quiet,
        sw_irq_next := sw_irq t \<and> mie_set rv \<and> mie c AND shl1 MSIE \<noteq> 0 \<and> quiet,
        sw_irq := msip c AND shl1 0 \<noteq> 0,
        ext_irq_next := ext_irq t \<and> mie_set rv \<and> mie c AND shl1 MEIE \<noteq> 0 \<and> quiet,
        ext_irq := msip c AND shl1 16 \<noteq> 0\<rparr>)"

definition count_step :: "rv \<Rightarrow> rv" where
  "count_step rv =
     (let c = csr rv;
          rv1 = srv32_cycle_add (rv\<lparr>csr := c\<lparr>c_time := c_time c + 1, c_instret := c_instret c + 1\<rparr>\<rparr>) 1
      in rv1\<lparr>prev_pc := pc rv1\<rparr>)"

text \<open>\<open>srv32_step\<close> up to the decompressor: the state and the words fetched.\<close>

definition step_front :: "config \<Rightarrow> 'w host \<Rightarrow> 'w sim \<Rightarrow> ('w sim \<times> i32 \<times> u16) run" where
  "step_front cfg h s =
     (let rv0 = srv32_write_regs cfg ((cpu s)\<lparr>mtime_update := False\<rparr>) 0 0;
          rv1 = check_pc cfg (take_interrupts (st s) rv0) in
      bind_run (fetch_inst h rv1) (\<lambda>w.
      bind_run (if RV32C cfg then fetch_instc h rv1 else Done 0) (\<lambda>c.
        Done (s\<lparr>cpu := count_step rv1, st := sample_irqs rv1 w (st s)\<rparr>, w, c))))"

text \<open>One more cycle when the length of the instructions changes.\<close>

definition note_length :: "bool \<Rightarrow> 'w sim \<Rightarrow> 'w sim" where
  "note_length compressed s =
     (let s1 = (if compressed_prev (st s) \<noteq> compressed
                then s\<lparr>cpu := srv32_cycle_add (cpu s) 1, st := (st s)\<lparr>overhead := overhead (st s) + 1\<rparr>\<rparr>
                else s)
      in s1\<lparr>st := (st s1)\<lparr>compressed_prev := compressed\<rparr>\<rparr>)"

definition srv32_step :: "config \<Rightarrow> 'w host \<Rightarrow> 'w sim \<Rightarrow> ('w sim \<times> rvret) run" where
  "srv32_step cfg h s =
     bind_run (step_front cfg h s) (\<lambda>(s1, w, instc).
       if RV32C cfg then
         (case compressed_decoder instc w of (compressed, w', illegal) \<Rightarrow>
            let s2 = note_length compressed s1 in
            if illegal then
              Done (set_cpu (srv32_trap (cpu s2) TRAP_INST_ILL (scast instc)) s2, RV_TRAP)
            else bind_run (exec_inst cfg h s2 w' compressed) (finish compressed))
       else bind_run (exec_inst cfg h s1 w False) (finish False))"

end
