(* ===== verification/Invariants.thy ===== *)
theory Invariants
  imports Step
begin

text \<open>
  What every step keeps, whatever it executes: the static part of the state and the
  bookkeeping of the counters; the interrupts a step takes; the zero register; and the
  answer to an instruction that is not implemented.
\<close>

subsection \<open>What an instruction keeps\<close>

definition keeps :: "rv \<Rightarrow> rv \<Rightarrow> bool" where
  "keeps rv rv' \<longleftrightarrow>
     rv_static rv' = rv_static rv \<and> prev_pc rv' = prev_pc rv \<and>
     c_time (csr rv') = c_time (csr rv) \<and> c_instret (csr rv') = c_instret (csr rv)"

lemma keeps_refl [simp]: "keeps rv rv"
  by (simp add: keeps_def)

lemma keeps_trans: "keeps a b \<Longrightarrow> keeps b c \<Longrightarrow> keeps a c"
  by (simp add: keeps_def)

lemma keeps_write_regs [simp]: "keeps rv (srv32_write_regs cfg rv n v)"
  by (simp add: keeps_def)

lemma keeps_cycle_add [simp]: "keeps rv (srv32_cycle_add rv k)"
  by (simp add: keeps_def cycle_add_csr)

lemma keeps_trap [simp]: "keeps rv (srv32_trap rv cause val)"
  by (simp add: keeps_def) (simp add: srv32_trap_def Let_def cycle_add_csr)

lemma keeps_int [simp]: "keeps rv (srv32_int rv cause src c)"
  by (simp add: keeps_def) (simp add: srv32_int_def Let_def cycle_add_csr)

lemma keeps_pc [simp]: "keeps rv (rv\<lparr>pc := a\<rparr>)" "keeps rv (rv\<lparr>pc := a, exitcode := b\<rparr>)"
  "keeps rv (rv\<lparr>exitcode := b\<rparr>)" "keeps rv (rv\<lparr>mem := m\<rparr>)"
  by (simp_all add: keeps_def)

lemma keeps_csr_rw [simp]: "keeps rv (fst (csr_rw cfg rv r mode val update))"
  using csr_rw_state [of cfg rv r mode val update]
  by (auto simp: keeps_def rv_static_def counters_and_ids_def)

lemma keeps_service: "service_frame s s' \<Longrightarrow> keeps (cpu s) (cpu s')"
  by (auto simp: service_frame_def keeps_def)

lemma keeps_store: "store_frame s s' \<Longrightarrow> keeps (cpu s) (cpu s')"
  by (auto simp: store_frame_def keeps_def)

lemma store_frame_st: "store_frame s s' \<Longrightarrow> st s' = st s"
  by (simp add: store_frame_def)

lemma service_frame_st: "service_frame s s' \<Longrightarrow> st s' = st s"
  by (simp add: service_frame_def)

definition sim_keeps :: "'w sim \<Rightarrow> 'w sim \<Rightarrow> bool" where
  "sim_keeps s s' \<longleftrightarrow> keeps (cpu s) (cpu s') \<and> st s' = st s"

lemma sim_keeps_set [simp]: "sim_keeps s (set_cpu rv s) \<longleftrightarrow> keeps (cpu s) rv"
  by (simp add: sim_keeps_def)

lemma sim_keeps_refl [simp]: "sim_keeps s s"
  by (simp add: sim_keeps_def)

lemma sim_keeps_trans: "sim_keeps a b \<Longrightarrow> sim_keeps b c \<Longrightarrow> sim_keeps a c"
  by (auto simp: sim_keeps_def intro: keeps_trans)

lemma sim_keeps_set_after: "sim_keeps s s' \<Longrightarrow> keeps (cpu s') rv \<Longrightarrow> sim_keeps s (set_cpu rv s')"
  by (auto simp: sim_keeps_def intro: keeps_trans)

abbreviation all_keep :: "'w sim \<Rightarrow> ('w sim \<times> 'b) run \<Rightarrow> bool" where
  "all_keep s r \<equiv> run_all (\<lambda>(s', c). sim_keeps s s') r"

lemma raise_trap_keeps [simp]: "sim_keeps s s' \<Longrightarrow> all_keep s (raise_trap s' cause val)"
  by (simp add: raise_trap_def sim_keeps_set_after)

lemma jump_link_keeps: "keeps (cpu s) rv \<Longrightarrow> all_keep s (jump_link cfg s rv rd old c)"
  unfolding jump_link_def Let_def
  by (auto intro: keeps_trans simp del: keeps_pc)
    (auto intro!: keeps_trans [OF _ keeps_cycle_add] keeps_trans [OF _ keeps_write_regs]
      keeps_trans [OF _ keeps_pc(1)])

lemma singleram_keeps: "sim_keeps s s' \<Longrightarrow> sim_keeps s (singleram_cycle s')"
  by (simp add: singleram_cycle_def sim_keeps_set_after)

lemma exec_load_keeps: "all_keep s (exec_load cfg h s w)"
proof -
  have "run_all (\<lambda>(s', c, v). sim_keeps s s') (memrw_load h s f3 a)" for f3 a
    using memrw_load_frame [of s h f3 a]
    by (rule run_all_mono) (auto simp: load_frame_def sim_keeps_def)
  then show ?thesis
    unfolding exec_load_def Let_def
    by (intro run_all_bindI)
      (auto dest!: run_allD intro!: sim_keeps_set_after singleram_keeps raise_trap_keeps
        split: prod.split)
qed

lemma exec_store_keeps: "all_keep s (exec_store cfg h s w)"
proof -
  have "run_all (\<lambda>(s', c). sim_keeps s s') (memrw_store h s f3 a v)" for f3 a v
    using memrw_store_frame [of s h f3 a v]
    by (rule run_all_mono) (auto simp: sim_keeps_def keeps_store store_frame_st)
  then show ?thesis
    unfolding exec_store_def Let_def
    by (intro run_all_bindI)
      (auto dest!: run_allD intro!: sim_keeps_set_after singleram_keeps raise_trap_keeps
        split: prod.split)
qed

lemma exec_ecall_keeps: "all_keep s (exec_ecall cfg h s)"
proof -
  have "run_all (\<lambda>(r, s'). sim_keeps s s') (srv32_syscall h s f a b c)" for f a b c
    using syscall_frame [of s h f a b c]
    by (rule run_all_mono) (auto simp: sim_keeps_def keeps_service service_frame_st)
  then show ?thesis
    unfolding exec_ecall_def Let_def
    by (intro run_all_bindI)
      (auto dest!: run_allD intro!: sim_keeps_set_after raise_trap_keeps split: prod.split)
qed

lemma exec_csr_keeps: "all_keep s (exec_csr cfg s w)"
proof (cases "csr_operands cfg (cpu s) w")
  case None
  then show ?thesis by (simp add: exec_csr_def)
next
  case (Some ops)
  obtain val update t where ops: "ops = (val, update, t)" by (cases ops) auto
  obtain rv1 r legal where rw: "csr_rw cfg (cpu s) (i_imm w) t val update = (rv1, r, legal)"
    by (cases "csr_rw cfg (cpu s) (i_imm w) t val update") auto
  have "keeps (cpu s) rv1"
    using keeps_csr_rw [of "cpu s" cfg "i_imm w" t val update] by (simp add: rw)
  then show ?thesis
    using keeps_trans [OF _ keeps_write_regs] by (simp add: exec_csr_def Some ops rw)
qed

lemma exec_mret_keeps: "all_keep s (exec_mret cfg s)"
  unfolding exec_mret_def Let_def
  by (auto intro!: keeps_trans [OF _ keeps_cycle_add]) (simp_all add: keeps_def rv_static_def)

lemma exec_inst_keeps: "all_keep s (exec_inst cfg h s w c)"
proof -
  have "all_keep s (exec_jal cfg s w c)" "all_keep s (exec_jalr cfg s w c)"
    by (simp_all add: exec_jal_def exec_jalr_def Let_def jump_link_keeps)
  moreover have "all_keep s (exec_branch cfg s w)"
    unfolding exec_branch_def Let_def
    by (auto split: option.split bool.split intro!: keeps_trans [OF _ keeps_cycle_add])
  moreover have "all_keep s (exec_op_imm cfg h s w)" "all_keep s (exec_op cfg h s w)"
    by (auto simp: exec_op_imm_def exec_op_def write_result_def split: option.split)
  moreover have "all_keep s (exec_auipc cfg s w)" "all_keep s (exec_lui cfg s w)"
    by (simp_all add: exec_auipc_def exec_lui_def Let_def)
  ultimately show ?thesis
    by (simp add: exec_inst_def exec_system_def exec_priv_def Let_def exec_load_keeps
        exec_store_keeps exec_ecall_keeps exec_mret_keeps exec_csr_keeps)
qed


subsection \<open>The whole step\<close>

lemma finish_keeps: "all_keep s r \<Longrightarrow> all_keep s (bind_run r (finish c))"
  by (cases r) (auto simp: finish_def intro!: sim_keeps_set_after split: ctl.split)

lemma mie_set_iff: "mie_set rv \<longleftrightarrow> bit (mstatus (csr rv)) MIE"
  by (simp add: mie_set_def bits)

lemma mie_set_int: "\<not> mie_set (srv32_int rv cause src c)"
  by (simp add: mie_set_iff int_csrs bits)

lemma mie_set_trap: "\<not> mie_set (srv32_trap rv cause val)"
  by (simp add: mie_set_iff trap_csrs bits)

text \<open>
  A step enters at most one interrupt, by priority timer, software, external: entering one
  clears the enable bit that the next test reads.
\<close>

lemma take_interrupts_cases:
  "take_interrupts t rv =
     (if \<not> mie_set rv then rv
      else if timer_irq t then srv32_int rv INT_MTIME MTIP False
      else if sw_irq_next t then srv32_int rv INT_MSI MSIP False
      else if ext_irq_next t then srv32_int rv INT_MEI MEIP False
      else rv)"
  by (simp add: take_interrupts_def Let_def mie_set_int)

lemma take_interrupts_keeps [simp]: "keeps rv (take_interrupts t rv)"
  by (simp add: take_interrupts_cases)

lemma check_pc_keeps [simp]: "keeps rv (check_pc cfg rv)"
  by (auto simp: check_pc_def Let_def intro: keeps_trans [OF keeps_trap keeps_trap])

definition counted :: "rv \<Rightarrow> rv \<Rightarrow> bool" where
  "counted rv rv' \<longleftrightarrow>
     rv_static rv' = rv_static rv \<and> c_time (csr rv') = c_time (csr rv) + 1 \<and>
     c_instret (csr rv') = c_instret (csr rv) + 1"

lemma counted_keeps: "counted a b \<Longrightarrow> keeps b c \<Longrightarrow> counted a c"
  by (simp add: counted_def keeps_def)

lemma count_step_counts: "keeps a b \<Longrightarrow> counted a (count_step b)"
  by (auto simp: counted_def keeps_def count_step_def Let_def cycle_add_csr rv_static_eq_iff)

lemma step_front_Done:
  assumes "step_front cfg h s = Done (s1, w, c)"
  shows "cpu s1 = count_step (check_pc cfg (take_interrupts (st s)
           (srv32_write_regs cfg ((cpu s)\<lparr>mtime_update := False\<rparr>) 0 0)))"
    and "result s1 = result s" and "world s1 = world s"
  using assms by (auto simp: step_front_def Let_def bind_run_Done_iff)

lemma step_front_counts:
  assumes "step_front cfg h s = Done (s1, w, c)"
  shows "counted (cpu s) (cpu s1)"
proof -
  let ?rv0 = "srv32_write_regs cfg ((cpu s)\<lparr>mtime_update := False\<rparr>) 0 0"
  have "keeps (cpu s) ?rv0" by (simp add: keeps_def)
  then have "keeps (cpu s) (check_pc cfg (take_interrupts (st s) ?rv0))"
    by (meson keeps_trans take_interrupts_keeps check_pc_keeps)
  then show ?thesis
    unfolding step_front_Done(1) [OF assms] by (rule count_step_counts)
qed

lemma note_length_keeps [simp]: "keeps (cpu s) (cpu (note_length c s))"
  by (simp add: note_length_def Let_def)

text \<open>Every way through a step counts it once and leaves the static part alone.\<close>

lemma step_counts:
  "run_all (\<lambda>(s', r). counted (cpu s) (cpu s')) (srv32_step cfg h s)"
  unfolding srv32_step_def
proof (intro run_all_bindI, clarify)
  fix s1 w instc assume front: "step_front cfg h s = Done (s1, w, instc)"
  note counts = step_front_counts [OF front]
  have exec: "run_all (\<lambda>(s', r). counted (cpu s) (cpu s'))
      (bind_run (exec_inst cfg h s2 v c) (finish c))" if "counted (cpu s) (cpu s2)" for s2 v c
    using finish_keeps [where s = s2 and r = "exec_inst cfg h s2 v c" and c = c, OF exec_inst_keeps]
    by (rule run_all_mono) (use that in \<open>auto simp: sim_keeps_def intro: counted_keeps\<close>)
  obtain c w' ill where dec: "compressed_decoder instc w = (c, w', ill)"
    by (cases "compressed_decoder instc w") auto
  have "counted (cpu s) (cpu (note_length c s1))"
    using counted_keeps [OF counts note_length_keeps] .
  moreover from this have "counted (cpu s) (srv32_trap (cpu (note_length c s1)) cause val)"
    for cause val
    by (rule counted_keeps) simp
  ultimately show "run_all (\<lambda>(s', r). counted (cpu s) (cpu s'))
     (if RV32C cfg
      then case compressed_decoder instc w of (compressed, w', illegal) \<Rightarrow>
        let s2 = note_length compressed s1 in
        if illegal then
          Done (set_cpu (srv32_trap (cpu s2) TRAP_INST_ILL (scast instc)) s2, RV_TRAP)
        else bind_run (exec_inst cfg h s2 w' compressed) (finish compressed)
      else bind_run (exec_inst cfg h s1 w False) (finish False))"
    using exec counts by (simp add: dec Let_def)
qed

text \<open>The zero register: no step depends on what an earlier one wrote to it.\<close>

lemma step_front_ignores_x0:
  "step_front cfg h (set_cpu ((cpu s)\<lparr>regs := (regs (cpu s))[0 := v]\<rparr>) s) = step_front cfg h s"
proof -
  have "srv32_write_regs cfg (rv\<lparr>regs := (regs rv)[0 := v], mtime_update := False\<rparr>) 0 0 =
      srv32_write_regs cfg (rv\<lparr>mtime_update := False\<rparr>) 0 0" for rv
    by (simp add: srv32_write_regs_def)
  then show ?thesis by (simp add: step_front_def)
qed

lemma step_ignores_x0:
  "srv32_step cfg h (set_cpu ((cpu s)\<lparr>regs := (regs (cpu s))[0 := v]\<rparr>) s) = srv32_step cfg h s"
  by (simp only: srv32_step_def step_front_ignores_x0)

end
