(* ===== verification/Exceptions.thy ===== *)
theory Exceptions
  imports Invariants
begin

text \<open>
  The exceptions a step raises: every step that answers \<open>RV_TRAP\<close> has entered the trap of
  the instruction it fetched, the registers and the memory are those before the instruction
  unless it was an environment call, and an instruction that is not implemented traps.
\<close>

subsection \<open>Traps are precise\<close>

definition trap_entered :: "rv \<Rightarrow> bool" where
  "trap_entered rv \<longleftrightarrow>
     pc rv = trap_target (mtvec (csr rv)) (mcause (csr rv)) \<and> mepc (csr rv) = prev_pc rv \<and>
     \<not> bit (mstatus (csr rv)) MIE"

lemma trap_entered_trap [simp]: "trap_entered (srv32_trap rv cause val)"
  by (simp add: trap_entered_def trap_csrs bits)

text \<open>The registers and the memory, which an exception leaves alone.\<close>

definition data_state :: "rv \<Rightarrow> i32 list \<times> (nat \<Rightarrow> u8)" where
  "data_state rv = (regs rv, mem rv)"

lemma data_state_simps [simp]:
  "data_state (srv32_trap rv cause val) = data_state rv"
  "data_state (srv32_int rv cause src c) = data_state rv"
  "data_state (srv32_cycle_add rv k) = data_state rv"
  "data_state (rv\<lparr>pc := a\<rparr>) = data_state rv"
  "data_state (rv\<lparr>exitcode := a\<rparr>) = data_state rv"
  "data_state (rv\<lparr>csr := d\<rparr>) = data_state rv"
  by (simp_all add: data_state_def)

lemma data_state_csr_rw [simp]:
  "data_state (fst (csr_rw cfg rv r mode val update)) = data_state rv"
  by (simp add: data_state_def)

definition precise :: "rv \<Rightarrow> 'w sim \<times> ctl \<Rightarrow> bool" where
  "precise rv sc \<longleftrightarrow> (case sc of (s', c) \<Rightarrow> c = Ret RV_TRAP \<longrightarrow>
     trap_entered (cpu s') \<and> (mcause (csr (cpu s')) = TRAP_ECALL \<or> data_state (cpu s') = data_state rv))"

lemma precise_simps [simp]:
  "precise rv (s', Break)" "precise rv (s', Ret RV_OKAY)" "precise rv (s', Ret RV_EXIT)"
  by (simp_all add: precise_def)

lemma raise_trap_precise:
  "data_state (cpu s') = data_state rv \<Longrightarrow> run_all (precise rv) (raise_trap s' cause val)"
  by (simp add: raise_trap_def precise_def)

lemma raise_ecall_precise: "run_all (precise rv) (raise_trap s' TRAP_ECALL val)"
  by (simp add: raise_trap_def precise_def trap_csrs)

lemma singleram_data [simp]: "data_state (cpu (singleram_cycle s)) = data_state (cpu s)"
  by (simp add: singleram_cycle_def)

text \<open>A store that answers a cause has not written.\<close>

lemma mmio_write_data:
  "run_all (\<lambda>(s', c). c \<noteq> 0 \<longrightarrow> data_state (cpu s') = data_state (cpu s)) (mmio_write h s m a v)"
  by (simp add: mmio_write_def Let_def) (auto intro!: run_all_bindI)

lemma memrw_store_data:
  "run_all (\<lambda>(s', c). c \<noteq> 0 \<longrightarrow> data_state (cpu s') = data_state (cpu s)) (memrw_store h s f3 a v)"
  using mmio_write_data [of s h "store_mask f3" a v]
  by (auto simp: memrw_store_def intro!: run_all_bindI split: sum.split option.split)

lemma exec_store_precise: "run_all (precise (cpu s)) (exec_store cfg h s w)"
  unfolding exec_store_def Let_def
  using memrw_store_data [of s h]
  by (intro run_all_bindI)
    (fastforce dest: run_allD intro: raise_trap_precise split: prod.split)

lemma exec_load_precise: "run_all (precise (cpu s)) (exec_load cfg h s w)"
  unfolding exec_load_def Let_def
  by (intro run_all_bindI)
    (auto dest!: run_allD [OF memrw_load_frame] intro!: raise_trap_precise simp: load_frame_def split: prod.split)

lemma exec_csr_precise: "run_all (precise (cpu s)) (exec_csr cfg s w)"
proof (cases "csr_operands cfg (cpu s) w")
  case None
  then show ?thesis by (simp add: exec_csr_def raise_trap_precise)
next
  case (Some ops)
  obtain val update t where ops: "ops = (val, update, t)" by (cases ops) auto
  obtain rv1 r legal where rw: "csr_rw cfg (cpu s) (i_imm w) t val update = (rv1, r, legal)"
    by (cases "csr_rw cfg (cpu s) (i_imm w) t val update") auto
  have "data_state rv1 = data_state (cpu s)"
    using data_state_csr_rw [of cfg "cpu s" "i_imm w" t val update] by (simp add: rw)
  then show ?thesis
    by (simp add: exec_csr_def Some ops rw raise_trap_precise)
qed

lemma jump_link_precise: "run_all (precise rv0) (jump_link cfg s rv rd old c)"
  by (simp add: jump_link_def Let_def)

lemma exec_inst_precise: "run_all (precise (cpu s)) (exec_inst cfg h s w c)"
proof -
  have "run_all (precise (cpu s)) (exec_jal cfg s w c)" "run_all (precise (cpu s)) (exec_jalr cfg s w c)"
    by (simp_all add: exec_jal_def exec_jalr_def Let_def jump_link_precise)
  moreover have "run_all (precise (cpu s)) (exec_branch cfg s w)"
    by (auto simp: exec_branch_def Let_def raise_trap_precise split: option.split bool.split)
  moreover have "run_all (precise (cpu s)) (exec_op_imm cfg h s w)"
    "run_all (precise (cpu s)) (exec_op cfg h s w)"
    by (auto simp: exec_op_imm_def exec_op_def write_result_def raise_trap_precise
        split: option.split)
  moreover have "run_all (precise (cpu s)) (exec_ecall cfg h s)"
    by (auto simp: exec_ecall_def Let_def intro!: run_all_bindI raise_ecall_precise split: prod.split)
  moreover have "run_all (precise (cpu s)) (exec_mret cfg s)"
    by (simp add: exec_mret_def Let_def)
  ultimately show ?thesis
    by (simp add: exec_inst_def exec_system_def exec_priv_def exec_auipc_def exec_lui_def Let_def
        exec_load_precise exec_store_precise exec_csr_precise raise_trap_precise)
qed

lemma finish_trap:
  "finish c sc = Done (s', RV_TRAP) \<Longrightarrow> sc = (s', Ret RV_TRAP)"
  by (auto simp: finish_def split: prod.splits ctl.splits)

text \<open>The registers as a step sees them, with the zero register cleared.\<close>

lemma data_state_front [simp]:
  "data_state (check_pc cfg rv) = data_state rv"
  "data_state (take_interrupts t rv) = data_state rv"
  "data_state (count_step rv) = data_state rv"
    by (simp_all add: check_pc_def Let_def take_interrupts_cases)
      (simp add: count_step_def data_state_def Let_def)

lemma step_front_data:
  assumes "step_front cfg h s = Done (s1, w, c)"
  shows "data_state (cpu s1) = ((regs (cpu s))[0 := 0], mem (cpu s))"
  by (simp add: step_front_Done(1) [OF assms])
    (simp add: data_state_def srv32_write_regs_def)

lemma note_length_data [simp]: "data_state (cpu (note_length c s)) = data_state (cpu s)"
  by (simp add: note_length_def Let_def)

text \<open>The same for a whole step, in terms of the state it starts from.\<close>

definition step_precise :: "rv \<Rightarrow> 'w sim \<times> rvret \<Rightarrow> bool" where
  "step_precise rv sr \<longleftrightarrow> (case sr of (s', r) \<Rightarrow> r = RV_TRAP \<longrightarrow>
     trap_entered (cpu s') \<and>
     (mcause (csr (cpu s')) = TRAP_ECALL \<or> data_state (cpu s') = ((regs rv)[0 := 0], mem rv)))"

lemma finish_precise:
  assumes "run_all (precise rv1) r" and "data_state rv1 = ((regs rv)[0 := 0], mem rv)"
  shows "run_all (step_precise rv) (bind_run r (finish c))"
proof (rule run_all_bindI)
  fix sc assume "r = Done sc"
  with assms show "run_all (step_precise rv) (finish c sc)"
    by (cases sc; cases "snd sc") (auto simp: finish_def precise_def step_precise_def)
qed

lemma step_traps_precisely: "run_all (step_precise (cpu s)) (srv32_step cfg h s)"
  unfolding srv32_step_def
proof (intro run_all_bindI, clarify)
  fix s1 w instc assume "step_front cfg h s = Done (s1, w, instc)"
  note data = step_front_data [OF this]
  obtain c w' ill where dec: "compressed_decoder instc w = (c, w', ill)"
    by (cases "compressed_decoder instc w") auto
  have exec: "run_all (step_precise (cpu s)) (bind_run (exec_inst cfg h s2 v b) (finish b))"
    if "data_state (cpu s2) = data_state (cpu s1)" for s2 v b
    by (rule finish_precise [OF exec_inst_precise]) (simp add: that data)
  show "run_all (step_precise (cpu s))
     (if RV32C cfg
      then case compressed_decoder instc w of (compressed, w', illegal) \<Rightarrow>
        let s2 = note_length compressed s1 in
        if illegal then
          Done (set_cpu (srv32_trap (cpu s2) TRAP_INST_ILL (scast instc)) s2, RV_TRAP)
        else bind_run (exec_inst cfg h s2 w' compressed) (finish compressed)
      else bind_run (exec_inst cfg h s1 w False) (finish False))"
    using exec data by (simp add: dec Let_def) (simp add: step_precise_def)
qed

subsection \<open>Instructions that are not implemented\<close>

text \<open>
  Outside \<open>JALR\<close>, whose function field is not looked at, and the system instructions, of
  which two bits are, every word the ISA does not define traps with itself as the value. A
  load or store of an undefined width has by then counted its single-RAM cycle.
\<close>

lemma exec_undefined:
  assumes "decode w = None" and "\<not> RV32B cfg" and "r_op w \<noteq> OP_JALR" and "r_op w \<noteq> OP_SYSTEM"
  shows "exec_inst cfg h s w c =
    raise_trap (if r_op w = OP_LOAD \<or> r_op w = OP_STORE then singleram_cycle s else s) TRAP_INST_ILL w"
proof -
  consider (branch) "r_op w = OP_BRANCH" "branch_op_of (r_func3 w) = None"
    | (load) "r_op w = OP_LOAD" "load_op_of (r_func3 w) = None"
    | (store) "r_op w = OP_STORE" "store_op_of (r_func3 w) = None"
    | (imm) "r_op w = OP_ARITHI" "imm_op_of (r_func3 w) (r_func7 w) = None"
    | (reg) "r_op w = OP_ARITHR" "reg_op_of (r_func3 w) (r_func7 w) = None"
    | (other) "r_op w \<notin> {OP_AUIPC, OP_LUI, OP_JAL, OP_JALR, OP_BRANCH, OP_LOAD, OP_STORE,
        OP_ARITHI, OP_ARITHR, OP_FENCE, OP_SYSTEM}"
    using assms by (auto simp: decode_def Let_def split: if_splits)
  then show ?thesis
  proof cases
    case branch
    then have "branch_cond (r_func3 w) a b = None" for a b
      by (auto simp: branch_op_of_def branch_cond_def split: if_splits)
    then show ?thesis using branch by (simp add: exec_inst_def exec_branch_def Let_def)
  next
    case load
    then show ?thesis
      by (simp add: exec_inst_def exec_load_def Let_def memrw_load_def load_check_none)
  next
    case store
    then show ?thesis
      by (simp add: exec_inst_def exec_store_def Let_def memrw_store_def store_check_none)
  next
    case imm
    then show ?thesis
      using exec_arithi_unknown [OF assms(2) imm(2), where h = h]
      by (simp add: exec_inst_def exec_op_imm_def write_result_def)
  next
    case reg
    then show ?thesis
      using exec_arithr_unknown [OF assms(2) reg(2), where h = h]
      by (simp add: exec_inst_def exec_op_def write_result_def)
  next
    case other
    then show ?thesis by (simp add: exec_inst_def Let_def)
  qed
qed

subsection \<open>The exit register\<close>

text \<open>
  A store to the exit register sets the exit code, but the answer \<open>RV_EXIT\<close> of the store
  unit has the value of \<open>TRAP_INST_ILL\<close>, so the instruction raises an illegal-instruction
  trap and the simulation goes on.
\<close>

lemma exit_store_traps:
  assumes "r_op w = OP_STORE" and "i_func3 w = OP_SW"
    and "srv32_read_regs cfg (cpu s) (unat (s_rs1 w)) + to_imm_s (s_imm2 w) (s_imm1 w) = MMIO_EXIT"
    and "\<not> range_check (cpu s) MMIO_EXIT 4"
  shows "exec_inst cfg h s w c =
    raise_trap (singleram_cycle (set_cpu ((cpu s)\<lparr>exitcode :=
      srv32_read_regs cfg (cpu s) (unat (s_rs2 w))\<rparr>) s)) TRAP_INST_ILL w"
proof -
  have "srv32_write_mem (cpu s) MMIO_EXIT 4 bs = Done None" for bs
    using assms(4) by (simp add: srv32_write_mem_def Let_def)
  then show ?thesis
    using assms(1-3)
    by (simp add: exec_inst_def exec_store_def Let_def memrw_store_def store_check_def
        mmio_write_def)
qed

end
