(* ===== verification/Rvc.thy ===== *)
theory Rvc
  imports Decompress
begin

text \<open>
  The RVC tables of the RISC-V manual as a decoder from 16-bit codes to instructions, and
  the proof that the expansion of \<open>tools/decompress.c\<close> decodes to the same instruction.
  Two groups of codes are set apart, where the source accepts what the manual reserves.
\<close>

subsection \<open>The tables\<close>

definition uimm_addi4spn :: "i32 \<Rightarrow> i32" where
  "uimm_addi4spn w = gather [(4, 11, 2), (6, 7, 4), (2, 6, 1), (3, 5, 1)] w"

definition uimm_lw :: "i32 \<Rightarrow> i32" where
  "uimm_lw w = gather [(3, 10, 3), (2, 6, 1), (6, 5, 1)] w"

definition uimm_lwsp :: "i32 \<Rightarrow> i32" where
  "uimm_lwsp w = gather [(5, 12, 1), (2, 4, 3), (6, 2, 2)] w"

definition uimm_swsp :: "i32 \<Rightarrow> i32" where
  "uimm_swsp w = gather [(2, 9, 4), (6, 7, 2)] w"

definition imm_ci :: "i32 \<Rightarrow> i32" where
  "imm_ci w = sext 6 (gather [(5, 12, 1), (0, 2, 5)] w)"

definition imm_addi16sp :: "i32 \<Rightarrow> i32" where
  "imm_addi16sp w = sext 10 (gather [(9, 12, 1), (4, 6, 1), (6, 5, 1), (7, 3, 2), (5, 2, 1)] w)"

definition imm_clui :: "i32 \<Rightarrow> i32" where
  "imm_clui w = sext 18 (gather [(17, 12, 1), (12, 2, 5)] w)"

definition imm_cj :: "i32 \<Rightarrow> i32" where
  "imm_cj w = sext 12 (gather [(11, 12, 1), (4, 11, 1), (8, 9, 2), (10, 8, 1), (6, 7, 1),
     (7, 6, 1), (1, 3, 3), (5, 2, 1)] w)"

definition imm_cb :: "i32 \<Rightarrow> i32" where
  "imm_cb w = sext 9 (gather [(8, 12, 1), (3, 10, 2), (6, 5, 2), (1, 3, 2), (5, 2, 1)] w)"

text \<open>\<open>rd'\<close>, \<open>rs1'\<close> and \<open>rs2'\<close>: registers x8 to x15.\<close>

definition creg :: "nat \<Rightarrow> i32 \<Rightarrow> nat" where
  "creg lo w = 8 + unat (fld lo 3 w)"

definition nop :: insn where
  "nop = OpImm A_add 0 0 0"

definition rvc0 :: "i32 \<Rightarrow> insn option" where
  "rvc0 w =
     (if fld 13 3 w = 0 then
        (if fld 5 8 w = 0 then None else Some (OpImm A_add (creg 2 w) 2 (uimm_addi4spn w)))
      else if fld 13 3 w = 2 then Some (Load L_w (creg 2 w) (creg 7 w) (uimm_lw w))
      else if fld 13 3 w = 6 then Some (Store S_w (creg 2 w) (creg 7 w) (uimm_lw w))
      else None)"

definition rvc1_arith :: "i32 \<Rightarrow> insn option" where
  "rvc1_arith w =
     (let rd = creg 7 w
      in if fld 10 2 w = 0 then
           (if bit w 12 then None else Some (OpImm A_srl rd rd (fld 2 5 w)))
         else if fld 10 2 w = 1 then
           (if bit w 12 then None else Some (OpImm A_sra rd rd (fld 2 5 w)))
         else if fld 10 2 w = 2 then Some (OpImm A_and rd rd (imm_ci w))
         else if bit w 12 then None
         else Some (Op (if fld 5 2 w = 0 then A_sub else if fld 5 2 w = 1 then A_xor
                        else if fld 5 2 w = 2 then A_or else A_and) rd rd (creg 2 w)))"

definition rvc1_lui :: "i32 \<Rightarrow> insn option" where
  "rvc1_lui w =
     (let rd = unat (fld 7 5 w)
      in if imm_ci w = 0 then None
         else if rd = 2 then Some (OpImm A_add 2 2 (imm_addi16sp w))
         else if rd = 0 then Some nop
         else Some (Lui rd (imm_clui w)))"

definition rvc1 :: "i32 \<Rightarrow> insn option" where
  "rvc1 w =
     (let rd = unat (fld 7 5 w); f = fld 13 3 w
      in if f = 0 then Some (if rd = 0 then nop else OpImm A_add rd rd (imm_ci w))
         else if f = 1 then Some (Jal 1 (imm_cj w))
         else if f = 2 then Some (if rd = 0 then nop else OpImm A_add rd 0 (imm_ci w))
         else if f = 3 then rvc1_lui w
         else if f = 4 then rvc1_arith w
         else if f = 5 then Some (Jal 0 (imm_cj w))
         else if f = 6 then Some (Branch B_eq (creg 7 w) 0 (imm_cb w))
         else Some (Branch B_ne (creg 7 w) 0 (imm_cb w)))"

definition rvc2 :: "i32 \<Rightarrow> insn option" where
  "rvc2 w =
     (let rd = unat (fld 7 5 w); rs2 = unat (fld 2 5 w); f = fld 13 3 w
      in if f = 0 then
           (if bit w 12 then None else Some (OpImm A_sll rd rd (fld 2 5 w)))
         else if f = 2 then (if rd = 0 then None else Some (Load L_w rd 2 (uimm_lwsp w)))
         else if f = 4 then
           (if \<not> bit w 12 then
              (if rs2 \<noteq> 0 then Some (Op A_add rd 0 rs2)
               else if rd = 0 then None else Some (Jalr 0 rd 0))
            else if rs2 \<noteq> 0 then Some (Op A_add rd rd rs2)
            else if rd = 0 then Some Ebreak else Some (Jalr 1 rd 0))
         else if f = 6 then Some (Store S_w rs2 2 (uimm_swsp w))
         else None)"

definition rvc_spec :: "u16 \<Rightarrow> insn option" where
  "rvc_spec c =
     (let w = ucast c
      in if fld 0 2 w = 0 then rvc0 w else if fld 0 2 w = 1 then rvc1 w
         else if fld 0 2 w = 2 then rvc2 w else None)"

text \<open>
  The codes the manual reserves and the source expands: a shift amount of 32 or more in
  \<open>c.srli\<close> and \<open>c.srai\<close>, and \<open>c.lui x0, 0\<close>.
\<close>

definition reserved_accepted :: "u16 \<Rightarrow> bool" where
  "reserved_accepted c \<longleftrightarrow>
     (let w = ucast c :: i32
      in fld 0 2 w = 1 \<and>
         (fld 13 3 w = 4 \<and> fld 11 1 w = 0 \<and> bit w 12 \<or>
          fld 13 3 w = 3 \<and> fld 7 5 w = 0 \<and> imm_ci w = 0))"

subsection \<open>Reading back an assembled instruction\<close>

lemma cfld_ucast: "cfld lo len c = fld lo len (ucast c)"
  by (rule bit_word_eqI) (auto simp: cfld_def bits bit_simps dest: bit_imp_le_length)

lemma mk_i_fields:
  "fld 0 7 (mk_i opc rd f rs1 imm) = take_bit 7 opc"
  "fld 7 5 (mk_i opc rd f rs1 imm) = take_bit 5 rd"
  "fld 12 3 (mk_i opc rd f rs1 imm) = take_bit 3 f"
  "fld 15 5 (mk_i opc rd f rs1 imm) = take_bit 5 rs1"
  by (simp_all add: mk_i_def fld_set_fld_same fld_set_fld_disjoint)

lemma mk_r_fields:
  "fld 0 7 (mk_r opc rd f rs1 rs2 f7) = take_bit 7 opc"
  "fld 7 5 (mk_r opc rd f rs1 rs2 f7) = take_bit 5 rd"
  "fld 12 3 (mk_r opc rd f rs1 rs2 f7) = take_bit 3 f"
  "fld 15 5 (mk_r opc rd f rs1 rs2 f7) = take_bit 5 rs1"
  "fld 20 5 (mk_r opc rd f rs1 rs2 f7) = take_bit 5 rs2"
  "fld 25 7 (mk_r opc rd f rs1 rs2 f7) = take_bit 7 f7"
  by (simp_all add: mk_r_def fld_set_fld_same fld_set_fld_disjoint)

lemma mk_s_fields:
  "fld 0 7 (mk_s opc imm1 f rs1 rs2 imm2) = take_bit 7 opc"
  "fld 12 3 (mk_s opc imm1 f rs1 rs2 imm2) = take_bit 3 f"
  "fld 15 5 (mk_s opc imm1 f rs1 rs2 imm2) = take_bit 5 rs1"
  "fld 20 5 (mk_s opc imm1 f rs1 rs2 imm2) = take_bit 5 rs2"
  "fld 7 5 (mk_s opc imm1 f rs1 rs2 imm2) = take_bit 5 imm1"
  "fld 25 7 (mk_s opc imm1 f rs1 rs2 imm2) = take_bit 7 imm2"
  by (simp_all add: mk_s_def fld_set_fld_same fld_set_fld_disjoint)

lemma mk_b_fields:
  "fld 0 7 (mk_b opc imm1 f rs1 rs2 imm2) = take_bit 7 opc"
  "fld 12 3 (mk_b opc imm1 f rs1 rs2 imm2) = take_bit 3 f"
  "fld 15 5 (mk_b opc imm1 f rs1 rs2 imm2) = take_bit 5 rs1"
  "fld 20 5 (mk_b opc imm1 f rs1 rs2 imm2) = take_bit 5 rs2"
  by (simp_all add: mk_b_def fld_set_fld_same fld_set_fld_disjoint)

lemma mk_u_fields:
  "fld 0 7 (mk_u opc rd imm) = take_bit 7 opc" "fld 7 5 (mk_u opc rd imm) = take_bit 5 rd"
  "fld 0 7 (mk_j opc rd imm) = take_bit 7 opc" "fld 7 5 (mk_j opc rd imm) = take_bit 5 rd"
  by (simp_all add: mk_u_def mk_j_def fld_set_fld_same fld_set_fld_disjoint)

lemmas mk_fields = mk_i_fields mk_r_fields mk_s_fields mk_b_fields mk_u_fields

lemma bit_mk [bits]:
  "bit (mk_i opc rd f rs1 imm) n \<longleftrightarrow> n < 32 \<and>
     (if n < 7 then bit opc n else if n < 12 then bit rd (n - 7)
      else if n < 15 then bit f (n - 12) else if n < 20 then bit rs1 (n - 15)
      else bit imm (n - 20))"
  "bit (mk_s opc imm1 f rs1 rs2 imm2) n \<longleftrightarrow> n < 32 \<and>
     (if n < 7 then bit opc n else if n < 12 then bit imm1 (n - 7)
      else if n < 15 then bit f (n - 12) else if n < 20 then bit rs1 (n - 15)
      else if n < 25 then bit rs2 (n - 20) else bit imm2 (n - 25))"
  "bit (mk_b opc imm1 f rs1 rs2 imm2) n \<longleftrightarrow> n < 32 \<and>
     (if n < 7 then bit opc n else if n < 12 then bit imm1 (n - 7)
      else if n < 15 then bit f (n - 12) else if n < 20 then bit rs1 (n - 15)
      else if n < 25 then bit rs2 (n - 20) else bit imm2 (n - 25))"
  "bit (mk_u opc rd imm) n \<longleftrightarrow> n < 32 \<and>
     (if n < 7 then bit opc n else if n < 12 then bit rd (n - 7) else bit imm (n - 12))"
  "bit (mk_j opc rd imm) n \<longleftrightarrow> n < 32 \<and>
     (if n < 7 then bit opc n else if n < 12 then bit rd (n - 7) else bit imm (n - 12))"
  by (auto simp: mk_i_def mk_s_def mk_b_def mk_u_def mk_j_def bits)

lemma bit_GET_IMM [bits]:
  "bit (GET_IMM v from to m) n \<longleftrightarrow> n < 32 \<and> to \<le> n \<and> bit m (n - to) \<and> bit v (n - to + from)"
proof (cases "from > to")
  case True
  then have "to \<le> n \<Longrightarrow> n + (from - to) = n - to + from" by simp
  with True show ?thesis by (auto simp: GET_IMM_def bit_simps ac_simps)
next
  case False
  then have "to \<le> n \<Longrightarrow> n - (to - from) = n - to + from" by simp
  with False show ?thesis by (auto simp: GET_IMM_def bit_simps)
qed

lemma sum_or:
  "list_all (\<lambda>n. \<not> (bit a n \<and> bit b n)) bit_positions \<Longrightarrow> a + b = a OR b" for a b :: i32
  by (rule word32_disjointI)

lemma bit_if_0: "bit (if c then x else 0) n \<longleftrightarrow> c \<and> bit x n" for x :: i32
  by simp

lemma single_bit_tests:
  "fld lo (Suc 0) w = 0 \<longleftrightarrow> \<not> bit w lo" "fld lo (Suc 0) w = 1 \<longleftrightarrow> bit w lo"
  "w AND 4 = 0 \<longleftrightarrow> \<not> bit w 2" "w AND 0x400 = 0 \<longleftrightarrow> \<not> bit w 10"
  for w :: i32
proof -
  have "fld lo (Suc 0) w = of_bool (bit w lo)"
    by (rule bit_word_eqI) (auto simp: bits bit_simps)
  then show "fld lo (Suc 0) w = 0 \<longleftrightarrow> \<not> bit w lo" "fld lo (Suc 0) w = 1 \<longleftrightarrow> bit w lo"
    by simp_all
  show "w AND 4 = 0 \<longleftrightarrow> \<not> bit w 2" "w AND 0x400 = 0 \<longleftrightarrow> \<not> bit w 10"
    using and_shl1_iff_bit [of w 2] and_shl1_iff_bit [of w 10] by (simp_all add: shl1_def)
qed

subsection \<open>The immediates\<close>

lemmas imm_bits =
  cfld_ucast sum_or bit_if_0 single_bit_tests numeral_2_eq_2 [symmetric] bits bit_simps
  bit_positions_def

lemma imm_I_mk_i: "imm_I (mk_i opc rd f rs1 imm) = sext 12 imm"
  by (rule word32_eqI) (simp add: imm_I_def imm_bits)

lemma imm_addi4spn_eq:
  "sext 12 (GET_IMM (ciw_imm c) 0 3 0x1 + GET_IMM (ciw_imm c) 1 2 0x1 +
            GET_IMM (ciw_imm c) 2 6 0xf + GET_IMM (ciw_imm c) 6 4 0x3) = uimm_addi4spn (ucast c)"
  by (rule word32_eqI) (simp add: uimm_addi4spn_def imm_bits)

lemma imm_lw_eq:
  "sext 12 (GET_IMM (cl_imm_h c) 0 3 0x7 + GET_IMM (cl_imm_l c) 0 6 0x1 +
            GET_IMM (cl_imm_l c) 1 2 0x1) = uimm_lw (ucast c)"
  by (rule word32_eqI) (simp add: uimm_lw_def imm_bits)

lemma imm_lwsp_eq:
  "sext 12 (GET_IMM (ci_imm_h c) 0 5 0x1 + GET_IMM (ci_imm_l c) 0 6 0x3 +
            GET_IMM (ci_imm_l c) 2 2 0x7) = uimm_lwsp (ucast c)"
  by (rule word32_eqI) (simp add: uimm_lwsp_def imm_bits)

lemma imm_sw_eq: "imm_S (c_sw c) = uimm_lw (ucast c)"
  by (rule word32_eqI) (simp add: imm_S_def c_sw_def uimm_lw_def imm_bits)

lemma imm_swsp_eq: "imm_S (c_swsp c) = uimm_swsp (ucast c)"
  by (rule word32_eqI) (simp add: imm_S_def c_swsp_def uimm_swsp_def imm_bits)

lemma imm_c6_eq: "sext 12 (c_imm6 c) = imm_ci (ucast c)"
  by (rule word32_eqI) (simp add: c_imm6_def imm_ci_def imm_bits)

lemma imm_andi_eq:
  "sext 12 ((if cb_imm_h c AND 4 \<noteq> 0 then 0xfe0 else 0) + cb_imm_l c) = imm_ci (ucast c)"
  by (rule word32_eqI) (simp add: imm_ci_def imm_bits)

lemma imm_addi16sp_eq:
  "sext 12 ((if ci_imm_h c \<noteq> 0 then 0xe00 else 0) +
      GET_IMM (ci_imm_l c) 0 5 0x1 + GET_IMM (ci_imm_l c) 1 7 0x3 +
      GET_IMM (ci_imm_l c) 3 6 0x1 + GET_IMM (ci_imm_l c) 4 4 0x1) = imm_addi16sp (ucast c)"
  by (rule word32_eqI) (simp add: imm_addi16sp_def imm_bits)

lemma imm_lui_eq:
  "imm_U (mk_u opc rd ((if ci_imm_h c \<noteq> 0 then 0xfffe0 else 0) + ci_imm_l c)) =
   imm_clui (ucast c)"
  by (rule word32_eqI) (simp add: imm_U_def imm_clui_def imm_bits)

lemma imm_cb_eq: "imm_B (c_bz f c) = imm_cb (ucast c)"
  by (rule word32_eqI) (simp add: imm_B_def c_bz_def imm_cb_def imm_bits)

lemma imm_cj_eq: "imm_J (c_jump rd c) = imm_cj (ucast c)"
  by (rule word32_eqI) (simp add: imm_J_def c_jump_def imm_cj_def imm_bits)

lemma bit_imm_ci:
  "bit (imm_ci w) n \<longleftrightarrow> n < 32 \<and> (if n < 5 then bit w (n + 2) else bit w 12)"
  by (auto simp: imm_ci_def bits bit_simps ac_simps not_less le_Suc_eq)

lemma imm_ci_0_iff: "imm_ci (ucast c) = 0 \<longleftrightarrow> ci_imm_h c = 0 \<and> ci_imm_l c = 0"
proof
  assume "imm_ci (ucast c) = 0"
  then have b: "\<not> bit (imm_ci (ucast c)) n" for n by simp
  have "ci_imm_l c = 0"
  proof (rule bit_word_eqI)
    fix n show "bit (ci_imm_l c) n \<longleftrightarrow> bit 0 n"
      using b [of n] by (auto simp: bit_imm_ci cfld_ucast bits bit_simps ac_simps split: if_splits)
  qed
  moreover have "ci_imm_h c = 0"
    using b [of 5] by (simp add: bit_imm_ci cfld_ucast single_bit_tests)
  ultimately show "ci_imm_h c = 0 \<and> ci_imm_l c = 0" by simp
next
  assume "ci_imm_h c = 0 \<and> ci_imm_l c = 0"
  then show "imm_ci (ucast c) = 0"
    by (simp add: imm_ci_def cfld_ucast sext_def)
qed

subsection \<open>The instruction an expansion decodes to\<close>

lemma creg_eq:
  "unat (take_bit 5 (8 + cfld lo 3 c)) = creg lo (ucast c)"
  "unat (take_bit 5 (cfld lo 3 c + 8)) = creg lo (ucast c)"
proof -
  have "unat (cfld lo 3 c) < 8"
    using fld_less [of lo 3 "ucast c :: i32"] by (simp add: cfld_ucast)
  then have "unat (8 + cfld lo 3 c) = 8 + unat (cfld lo 3 c)"
    by (simp add: unat_word_ariths)
  with \<open>unat (cfld lo 3 c) < 8\<close>
  show "unat (take_bit 5 (8 + cfld lo 3 c)) = creg lo (ucast c)"
    "unat (take_bit 5 (cfld lo 3 c + 8)) = creg lo (ucast c)"
    by (simp_all add: take_bit_word_self creg_def cfld_ucast add.commute)
qed

lemma reg_eq: "take_bit 5 (cfld lo 5 c) = cfld lo 5 c"
  by (simp add: cfld_ucast)

lemma decode_mk_i:
  "decode (mk_i OP_ARITHI rd OP_ADD rs1 imm) =
     Some (OpImm A_add (unat (take_bit 5 rd)) (unat (take_bit 5 rs1)) (sext 12 imm))"
  "decode (mk_i OP_ARITHI rd OP_AND rs1 imm) =
     Some (OpImm A_and (unat (take_bit 5 rd)) (unat (take_bit 5 rs1)) (sext 12 imm))"
  "decode (mk_i OP_LOAD rd OP_LW rs1 imm) =
     Some (Load L_w (unat (take_bit 5 rd)) (unat (take_bit 5 rs1)) (sext 12 imm))"
  "decode (mk_i OP_JALR rd 0 rs1 imm) =
     Some (Jalr (unat (take_bit 5 rd)) (unat (take_bit 5 rs1)) (sext 12 imm))"
  by (simp_all add: decode_def mk_fields imm_op_of_def load_op_of_def is_shift_def imm_I_mk_i)

lemma decode_mk_r:
  "decode (mk_r OP_ARITHI rd OP_SR rs1 rs2 0) =
     Some (OpImm A_srl (unat (take_bit 5 rd)) (unat (take_bit 5 rs1)) (take_bit 5 rs2))"
  "decode (mk_r OP_ARITHI rd OP_SR rs1 rs2 0x20) =
     Some (OpImm A_sra (unat (take_bit 5 rd)) (unat (take_bit 5 rs1)) (take_bit 5 rs2))"
  "decode (mk_r OP_ARITHI rd OP_SLL rs1 rs2 0) =
     Some (OpImm A_sll (unat (take_bit 5 rd)) (unat (take_bit 5 rs1)) (take_bit 5 rs2))"
  "decode (mk_r OP_ARITHR rd OP_ADD rs1 rs2 0x20) =
     Some (Op A_sub (unat (take_bit 5 rd)) (unat (take_bit 5 rs1)) (unat (take_bit 5 rs2)))"
  "decode (mk_r OP_ARITHR rd OP_ADD rs1 rs2 0) =
     Some (Op A_add (unat (take_bit 5 rd)) (unat (take_bit 5 rs1)) (unat (take_bit 5 rs2)))"
  "decode (mk_r OP_ARITHR rd OP_XOR rs1 rs2 0) =
     Some (Op A_xor (unat (take_bit 5 rd)) (unat (take_bit 5 rs1)) (unat (take_bit 5 rs2)))"
  "decode (mk_r OP_ARITHR rd OP_OR rs1 rs2 0) =
     Some (Op A_or (unat (take_bit 5 rd)) (unat (take_bit 5 rs1)) (unat (take_bit 5 rs2)))"
  "decode (mk_r OP_ARITHR rd OP_AND rs1 rs2 0) =
     Some (Op A_and (unat (take_bit 5 rd)) (unat (take_bit 5 rs1)) (unat (take_bit 5 rs2)))"
  by (simp_all add: decode_def mk_fields imm_op_of_def reg_op_of_def is_shift_def)

lemma decode_c_sw:
  "decode (c_sw c) = Some (Store S_w (creg 2 (ucast c)) (creg 7 (ucast c)) (uimm_lw (ucast c)))"
  "decode (c_swsp c) =
     Some (Store S_w (unat (cfld 2 5 c)) 2 (uimm_swsp (ucast c)))"
proof -
  have "imm_S (c_sw c) = uimm_lw (ucast c)" "imm_S (c_swsp c) = uimm_swsp (ucast c)"
    by (rule imm_sw_eq imm_swsp_eq)+
  then show "decode (c_sw c) =
      Some (Store S_w (creg 2 (ucast c)) (creg 7 (ucast c)) (uimm_lw (ucast c)))"
    "decode (c_swsp c) =
      Some (Store S_w (unat (cfld 2 5 c)) 2 (uimm_swsp (ucast c)))"
    by (simp_all add: c_sw_def c_swsp_def decode_def mk_fields store_op_of_def creg_eq reg_eq)
qed

lemma decode_c_bz:
  "decode (c_bz OP_BEQ c) = Some (Branch B_eq (creg 7 (ucast c)) 0 (imm_cb (ucast c)))"
  "decode (c_bz OP_BNE c) = Some (Branch B_ne (creg 7 (ucast c)) 0 (imm_cb (ucast c)))"
  using imm_cb_eq [of OP_BEQ c] imm_cb_eq [of OP_BNE c]
  by (simp_all add: c_bz_def decode_def mk_fields branch_op_of_def creg_eq)

lemma decode_c_jump:
  "decode (c_jump rd c) = Some (Jal (unat (take_bit 5 rd)) (imm_cj (ucast c)))"
  using imm_cj_eq [of rd c] by (simp add: c_jump_def decode_def mk_fields)

lemma decode_c_lui:
  "decode (mk_u OP_LUI (ci_rd c) ((if ci_imm_h c \<noteq> 0 then 0xfffe0 else 0) + ci_imm_l c)) =
     Some (Lui (unat (cfld 7 5 c)) (imm_clui (ucast c)))"
  using imm_lui_eq [of OP_LUI "ci_rd c" c] by (simp add: decode_def mk_fields reg_eq)

lemma unat_eq_2: "unat w = 2 \<longleftrightarrow> w = 2" for w :: i32
  by (simp add: word_unat_eq_iff)

lemma decode_c_nop: "decode c_nop = Some nop"
  by (simp add: c_nop_def nop_def decode_mk_i sext_def)

lemma decode_ebreak: "decode 0x00100073 = Some Ebreak"
  by (simp add: decode_def decode_system_def fld_def)

lemmas decode_expansion =
  decode_mk_i decode_mk_r decode_c_sw decode_c_bz decode_c_jump decode_c_lui decode_c_nop
  decode_ebreak creg_eq reg_eq

definition expands_to :: "i32 option \<Rightarrow> insn option \<Rightarrow> bool" where
  "expands_to q i \<longleftrightarrow> (case i of None \<Rightarrow> q = None | Some j \<Rightarrow> \<exists>r. q = Some r \<and> decode r = Some j)"

lemma expands_to_simps [simp]:
  "expands_to None None" "expands_to (Some r) (Some j) \<longleftrightarrow> decode r = Some j"
  "\<not> expands_to None (Some j)" "\<not> expands_to (Some r) None"
  by (simp_all add: expands_to_def)

lemmas imm_eqs =
  imm_addi4spn_eq [unfolded One_nat_def] imm_lw_eq [unfolded One_nat_def]
  imm_lwsp_eq [unfolded One_nat_def] imm_addi16sp_eq [unfolded One_nat_def] imm_c6_eq imm_andi_eq

lemma quadrant0_expands: "expands_to (quadrant0 c) (rvc0 (ucast c))"
proof -
  have "c = 0 \<Longrightarrow> cfld 5 8 c = 0" by (simp add: cfld_def)
  then show ?thesis
    by (auto simp: quadrant0_def rvc0_def c_addi4spn_def c_lw_def cfld_ucast [symmetric]
        decode_expansion imm_eqs)
qed

lemma c_lui_expands:
  assumes "cfld 7 5 c \<noteq> 0 \<or> imm_ci (ucast c) \<noteq> 0"
  shows "expands_to (c_lui c) (rvc1_lui (ucast c))"
proof (cases "ci_imm_h c \<noteq> 0 \<or> ci_imm_l c \<noteq> 0")
  case True
  then show ?thesis
    using decode_c_lui [of c] imm_addi16sp_eq [of c]
    by (simp add: c_lui_def rvc1_lui_def cfld_ucast [symmetric] decode_mk_i decode_c_nop
        imm_ci_0_iff unat_eq_2 unat_eq_0 Let_def del: disj_not1)
next
  case False
  then show ?thesis
    using assms by (simp add: c_lui_def rvc1_lui_def imm_ci_0_iff)
qed

lemma func6_low: "cfld 10 6 c AND 3 = cfld 10 2 c"
  by (rule word32_eqI) (simp add: imm_bits)

lemma two_bits:
  "cfld lo 2 c \<noteq> 0 \<Longrightarrow> cfld lo 2 c \<noteq> 1 \<Longrightarrow> cfld lo 2 c \<noteq> 2 \<Longrightarrow> cfld lo 2 c = 3"
  using fld_less [of lo 2 "ucast c :: i32"] by (simp add: cfld_ucast word_unat_eq_iff)

lemma func6_0x27_iff:
  assumes "cfld 13 3 c = 4" and "cfld 10 2 c = 3"
  shows "cfld 10 6 c = 0x27 \<longleftrightarrow> bit c 12"
proof -
  have "cfld 10 6 c = push_bit 3 (cfld 13 3 c) OR push_bit 2 (cfld 12 1 c) OR cfld 10 2 c"
    by (rule word32_eqI) (simp add: imm_bits)
  moreover have "cfld 12 1 c = of_bool (bit c 12)"
    by (rule bit_word_eqI) (auto simp: cfld_ucast bits bit_simps)
  ultimately show ?thesis
    using assms by (cases "bit c 12") simp_all
qed

lemma c_arith_expands:
  assumes "cfld 13 3 c = 4" and "\<not> (bit c 12 \<and> (cfld 10 2 c = 0 \<or> cfld 10 2 c = 1))"
  shows "expands_to (c_arith c) (rvc1_arith (ucast c))"
  using assms func6_0x27_iff [OF assms(1)] two_bits [of 10 c]
  by (auto simp: c_arith_def rvc1_arith_def func6_low cfld_ucast [symmetric] decode_expansion
      imm_eqs bit_simps Let_def)

lemma quadrant1_expands:
  assumes "cfld 0 2 c = 1" and "\<not> reserved_accepted c"
  shows "expands_to (quadrant1 c) (rvc1 (ucast c))"
proof -
  have f: "cfld 13 3 c = 0 \<or> cfld 13 3 c = 1 \<or> cfld 13 3 c = 2 \<or> cfld 13 3 c = 3 \<or>
      cfld 13 3 c = 4 \<or> cfld 13 3 c = 5 \<or> cfld 13 3 c = 6 \<or> cfld 13 3 c = 7"
    using fld_less [of 13 3 "ucast c :: i32"] by (auto simp: cfld_ucast word_unat_eq_iff)
  have lui: "cfld 13 3 c = 3 \<Longrightarrow> expands_to (c_lui c) (rvc1_lui (ucast c))"
    using assms by (intro c_lui_expands) (auto simp: reserved_accepted_def cfld_ucast)
  have "cfld 11 1 c = 0 \<longleftrightarrow> cfld 10 2 c = 0 \<or> cfld 10 2 c = 1"
  proof -
    have "cfld 10 2 c = push_bit 1 (cfld 11 1 c) OR cfld 10 1 c"
      by (rule word32_eqI) (simp add: imm_bits)
    moreover have "cfld 11 1 c = of_bool (bit c 11)" "cfld 10 1 c = of_bool (bit c 10)"
      by (rule bit_word_eqI; auto simp: cfld_ucast bits bit_simps)+
    ultimately show ?thesis
      by (cases "bit c 11"; cases "bit c 10") simp_all
  qed
  then have arith: "cfld 13 3 c = 4 \<Longrightarrow> expands_to (c_arith c) (rvc1_arith (ucast c))"
    using assms by (intro c_arith_expands) (auto simp: reserved_accepted_def cfld_ucast bit_simps)
  show ?thesis
    using f lui arith
    by (elim disjE) (simp_all add: quadrant1_def rvc1_def c_addi_def c_li_def
        cfld_ucast [symmetric] decode_expansion imm_eqs unat_eq_0 Let_def)
qed

lemma c_lwsp_expands:
  "expands_to (c_lwsp c)
     (if cfld 7 5 c = 0 then None else Some (Load L_w (unat (cfld 7 5 c)) 2 (uimm_lwsp (ucast c))))"
  by (simp add: c_lwsp_def decode_expansion imm_eqs)

lemma imm_h_bit:
  "cfld 12 (Suc 0) c = 0 \<longleftrightarrow> \<not> bit c 12" "cfld 12 (Suc 0) c = 1 \<longleftrightarrow> bit c 12"
  by (simp_all add: cfld_ucast single_bit_tests bit_simps)

lemma quadrant2_expands: "expands_to (quadrant2 c) (rvc2 (ucast c))"
  using c_lwsp_expands [of c]
  by (auto simp: quadrant2_def rvc2_def c_jr_mv_add_def c_slli_def imm_h_bit
      cfld_ucast [symmetric] decode_expansion unat_eq_0 bit_simps Let_def sext_def)

lemma quadrants_exhaust:
  "cfld 0 2 c = 3 \<or> cfld 0 2 c = 0 \<or> cfld 0 2 c = 1 \<or> cfld 0 2 c = 2"
  using two_bits [of 0 c] by blast

text \<open>
  The expansion as a whole: a 32-bit instruction is passed through, every other code is
  either rejected, where the manual has no instruction for it, or expanded to one that
  decodes to the instruction of the manual.
\<close>

lemma decompress_32bit:
  "cr_op c = 3 \<Longrightarrow> compressed_decoder c inst = (False, inst, False)"
  by (simp add: compressed_decoder_def)

lemma decompress_expands:
  assumes "cr_op c \<noteq> 3" and "\<not> reserved_accepted c"
  shows "case rvc_spec c of
           None \<Rightarrow> compressed_decoder c inst = (True, 0, True)
         | Some i \<Rightarrow> \<exists>r. compressed_decoder c inst = (True, r, False) \<and> decode r = Some i"
proof -
  have res: "compressed_decoder c inst = expansion_result q \<Longrightarrow> expands_to q i \<Longrightarrow>
      case i of None \<Rightarrow> compressed_decoder c inst = (True, 0, True)
      | Some j \<Rightarrow> \<exists>r. compressed_decoder c inst = (True, r, False) \<and> decode r = Some j" for q i
    by (auto simp: expands_to_def expansion_result_def split: option.splits)
  consider "cfld 0 2 c = 0" | "cfld 0 2 c = 1" | "cfld 0 2 c = 2"
    using quadrants_exhaust [of c] assms(1) by blast
  then show ?thesis
  proof cases
    case 1
    then show ?thesis
      using res [OF _ quadrant0_expands]
      by (simp add: compressed_decoder_def rvc_spec_def cfld_ucast [symmetric])
  next
    case 2
    then show ?thesis
      using res [OF _ quadrant1_expands] assms(2)
      by (simp add: compressed_decoder_def rvc_spec_def cfld_ucast [symmetric])
  next
    case 3
    then show ?thesis
      using res [OF _ quadrant2_expands]
      by (simp add: compressed_decoder_def rvc_spec_def cfld_ucast [symmetric])
  qed
qed

end
