(* ===== verification/Refine.thy ===== *)
theory Refine
  imports Exceptions Rvc
begin

text \<open>
  The refinement: on the RV32IM instructions that neither trap nor stop, the simulator
  changes the architectural state as the reference \<open>isa_exec\<close> does.
\<close>

subsection \<open>Decoding inverted\<close>

lemma decode_fields:
  "decode w = Some (Lui rd imm) \<Longrightarrow> r_op w = OP_LUI \<and> rd = unat (u_rd w) \<and> imm = imm_U w"
  "decode w = Some (Auipc rd imm) \<Longrightarrow> r_op w = OP_AUIPC \<and> rd = unat (u_rd w) \<and> imm = imm_U w"
  "decode w = Some (Jal rd imm) \<Longrightarrow> r_op w = OP_JAL \<and> rd = unat (j_rd w) \<and> imm = imm_J w"
  "decode w = Some (Jalr rd rs imm) \<Longrightarrow>
     r_op w = OP_JALR \<and> rd = unat (i_rd w) \<and> rs = unat (i_rs1 w) \<and> imm = imm_I w"
  "decode w = Some (Branch b rs1 rs2 imm) \<Longrightarrow>
     r_op w = OP_BRANCH \<and> branch_op_of (b_func3 w) = Some b \<and> rs1 = unat (b_rs1 w) \<and>
     rs2 = unat (b_rs2 w) \<and> imm = imm_B w"
  "decode w = Some (Load l rd rs imm) \<Longrightarrow>
     r_op w = OP_LOAD \<and> load_op_of (i_func3 w) = Some l \<and> rd = unat (i_rd w) \<and>
     rs = unat (i_rs1 w) \<and> imm = imm_I w"
  "decode w = Some (Store so rs2 rs1 imm) \<Longrightarrow>
     r_op w = OP_STORE \<and> store_op_of (i_func3 w) = Some so \<and> rs2 = unat (s_rs2 w) \<and>
     rs1 = unat (s_rs1 w) \<and> imm = imm_S w"
  "decode w = Some (OpImm a rd rs imm) \<Longrightarrow>
     r_op w = OP_ARITHI \<and> imm_op_of (i_func3 w) (r_func7 w) = Some a \<and> rd = unat (i_rd w) \<and>
     rs = unat (i_rs1 w) \<and> imm = (if is_shift a then r_rs2 w else imm_I w)"
  "decode w = Some (Op a rd rs1 rs2) \<Longrightarrow>
     r_op w = OP_ARITHR \<and> reg_op_of (r_func3 w) (r_func7 w) = Some a \<and> rd = unat (r_rd w) \<and>
     rs1 = unat (r_rs1 w) \<and> rs2 = unat (r_rs2 w)"
  "decode w = Some Fence \<Longrightarrow> r_op w = OP_FENCE"
  by (auto simp: decode_def Let_def decode_system_def split: if_splits)

subsection \<open>The architectural state\<close>

definition arch_of :: "config \<Rightarrow> rv \<Rightarrow> arch" where
  "arch_of cfg rv =
     \<lparr>apc = pc rv, xreg = (\<lambda>n. if n = 0 then 0 else srv32_read_regs cfg rv n),
      abyte = (\<lambda>a. mem rv (unat (a - mem_base rv)))\<rparr>"

lemma arch_of_sel [simp]:
  "apc (arch_of cfg rv) = pc rv"
  "xreg (arch_of cfg rv) n = (if n = 0 then 0 else srv32_read_regs cfg rv n)"
  "abyte (arch_of cfg rv) a = mem rv (unat (a - mem_base rv))"
  by (simp_all add: arch_of_def)

lemma arch_of_pc [simp]: "arch_of cfg (rv\<lparr>pc := a\<rparr>) = (arch_of cfg rv)\<lparr>apc := a\<rparr>"
  by (simp add: arch_of_def srv32_read_regs_def fun_eq_iff)

lemma arch_of_cycle [simp]: "arch_of cfg (srv32_cycle_add rv k) = arch_of cfg rv"
  by (simp add: arch_of_def srv32_read_regs_def fun_eq_iff)

lemma arch_of_singleram [simp]: "arch_of cfg (cpu (singleram_cycle s)) = arch_of cfg (cpu s)"
  by (simp add: singleram_cycle_def)

text \<open>The state a step executes an instruction in: the zero register is zero.\<close>

definition exec_state :: "config \<Rightarrow> rv \<Rightarrow> bool" where
  "exec_state cfg rv \<longleftrightarrow> \<not> RV32E cfg \<and> length (regs rv) = 32 \<and> regs rv ! 0 = 0"

lemma exec_state_read:
  "exec_state cfg rv \<Longrightarrow> srv32_read_regs cfg rv n = xreg (arch_of cfg rv) n"
  by (simp add: exec_state_def srv32_read_regs_def REGNUM_def)

lemma reg_field_less: "unat (fld lo 5 w) < 32" for w :: i32
  using fld_less [of lo 5 w] by simp

lemma arch_of_write:
  assumes "\<not> RV32E cfg" and "length (regs rv) = 32" and "rd < 32"
  shows "arch_of cfg (srv32_write_regs cfg rv rd v) = set_x rd v (arch_of cfg rv)"
  using assms
  by (auto simp: arch_of_def set_x_def srv32_read_regs_def srv32_write_regs_def REGNUM_def
      fun_eq_iff)

subsection \<open>Memory seen from an address\<close>

lemma nat_sint: "0 \<le> sint c \<Longrightarrow> nat (sint c) = unat c" for c :: i32
proof -
  assume "0 \<le> sint c"
  moreover have "uint c = take_bit 32 (sint c)" using uint_sint [of c] by simp
  moreover have "sint c < 2 ^ 32" using sint_lt [of c] by simp
  ultimately have "uint c = sint c" by (simp only: take_bit_int_eq_self)
  then show ?thesis by (simp add: unat_eq_nat_uint)
qed

lemma le_word_bytes_at:
  assumes "off + n \<le> 2 ^ 31"
    and "\<And>k. k < n \<Longrightarrow> mem rv (off + k) = m (a + of_nat k)"
  shows "le_word (map (\<lambda>i. mem rv (off + i)) [0..<n]) = bytes_at m a n"
  using assms
proof (induction n arbitrary: off a)
  case (Suc n)
  have "le_word (map (\<lambda>i. mem rv (Suc off + i)) [0..<n]) = bytes_at m (a + 1) n"
  proof (rule Suc.IH)
    fix k assume "k < n"
    then show "mem rv (Suc off + k) = m (a + 1 + of_nat k)"
      using Suc.prems(2) [of "Suc k"] by (simp add: ac_simps)
  qed (use Suc.prems in simp)
  moreover have "mem rv off = m a" using Suc.prems(2) [of 0] by simp
  ultimately show ?case
    by (simp add: upt_conv_Cons map_Suc_upt [symmetric] comp_def del: upt_Suc)
qed simp

lemma unat_add_of_nat: "unat c + k < 2 ^ 32 \<Longrightarrow> unat (c + of_nat k) = unat c + k" for c :: i32
  by (simp add: unat_word_ariths unat_of_nat mod_add_right_eq)

lemma unat_add_offset:
  fixes a b :: i32
  assumes "unat (a - b) + k < 2 ^ 32"
  shows "unat (a + of_nat k - b) = unat (a - b) + k"
proof -
  have "a + of_nat k - b = (a - b) + of_nat k" by simp
  then show ?thesis
    using assms by (simp only: unat_add_of_nat)
qed

text \<open>What the code reads from the block is what the ISA reads at the address.\<close>

lemma block_bytes_at:
  assumes "in_block rv (sint (a - mem_base rv)) n" and "0 < n"
  shows "le_word (block_bytes rv (sint (a - mem_base rv)) n) =
    bytes_at (abyte (arch_of cfg rv)) a n"
proof -
  have off: "0 \<le> sint (a - mem_base rv)" "sint (a - mem_base rv) + int n \<le> sint (mem_size rv)"
    using assms by (auto simp: in_block_def)
  have eq: "nat (sint (a - mem_base rv)) = unat (a - mem_base rv)"
    using off(1) by (rule nat_sint)
  have bound: "unat (a - mem_base rv) + n \<le> 2 ^ 31"
    using off sint_lt [of "mem_size rv"] eq by simp
  then show ?thesis
    unfolding block_bytes_def eq
    by (intro le_word_bytes_at) (simp_all add: unat_add_offset)
qed

text \<open>What the code stores in the block is what the ISA stores at the address.\<close>

lemma put_bytes_at:
  assumes "n < 2 ^ 32"
  shows "put_bytes m a n v x =
    (if unat (x - a) < n then ucast (drop_bit (8 * unat (x - a)) v) else m x)"
  using assms
proof (induction n arbitrary: m a v)
  case (Suc n)
  show ?case
  proof (cases "x = a")
    case True
    have "a - (a + 1) = - 1" by simp
    then have "unat (a - (a + 1)) = 2 ^ 32 - 1" by (simp only:) (simp add: unsigned_minus_1_eq_mask mask_eq_exp_minus_1)
    then show ?thesis using True Suc by simp
  next
    case False
    then have "x - a \<noteq> 0" by simp
    then have "unat (x - (a + 1)) = unat (x - a) - 1" and "0 < unat (x - a)"
      by (simp_all add: unat_minus_one diff_diff_eq [symmetric] unat_gt_0)
    then show ?thesis
      using False Suc by (auto simp: drop_bit_drop_bit algebra_simps)
  qed
qed simp

lemma arch_of_block_store:
  assumes "in_block rv (sint (a - mem_base rv)) n" and "0 < n" and "n \<le> 4"
  shows "arch_of cfg (block_store rv (sint (a - mem_base rv)) (le_bytes n v)) =
    (arch_of cfg rv)\<lparr>abyte := put_bytes (abyte (arch_of cfg rv)) a n v\<rparr>"
proof -
  have off: "0 \<le> sint (a - mem_base rv)" "sint (a - mem_base rv) + int n \<le> sint (mem_size rv)"
    using assms(1,2) by (auto simp: in_block_def)
  have eq: "nat (sint (a - mem_base rv)) = unat (a - mem_base rv)"
    using off(1) by (rule nat_sint)
  have bound: "unat (a - mem_base rv) + n \<le> 2 ^ 31"
    using off sint_lt [of "mem_size rv"] eq by simp
  have diff: "x - a = (x - mem_base rv) - (a - mem_base rv)" for x by simp
  have window: "unat (x - a) < n \<longleftrightarrow> unat (a - mem_base rv) \<le> unat (x - mem_base rv) \<and>
        unat (x - mem_base rv) < unat (a - mem_base rv) + n"
    and dist: "unat (x - a) < n \<Longrightarrow> unat (x - mem_base rv) - unat (a - mem_base rv) = unat (x - a)"
    for x
    using bound assms(3) unfolding diff [of x] unat_sub_if' [of "x - mem_base rv"]
    by (auto split: if_splits)
  show ?thesis
    using assms(3)
    by (simp add: arch_of_def srv32_read_regs_def fun_eq_iff block_store_def eq window [symmetric] dist
        put_bytes_at le_bytes_def)
qed


subsection \<open>The instructions that run plainly\<close>

definition aligned_pc :: "config \<Rightarrow> i32 \<Rightarrow> bool" where
  "aligned_pc cfg a \<longleftrightarrow> a AND (if RV32C cfg then 1 else 3) = 0"

definition in_memory :: "rv \<Rightarrow> i32 \<Rightarrow> nat \<Rightarrow> bool" where
  "in_memory rv a n \<longleftrightarrow>
     unat a mod n = 0 \<and> range_check rv a (of_nat n) \<and> in_block rv (sint (a - mem_base rv)) n"

definition is_muldiv :: "alu_op \<Rightarrow> bool" where
  "is_muldiv aop \<longleftrightarrow>
     aop \<in> {A_mul, A_mulh, A_mulhsu, A_mulhu, A_div, A_divu, A_rem, A_remu}"

text \<open>
  The instructions that neither trap nor stop the simulator. A jump to itself is how a
  program stops; environment calls, trap returns and CSR accesses are outside \<open>isa_exec\<close>.
\<close>

fun runs_plainly :: "config \<Rightarrow> rv \<Rightarrow> insn \<Rightarrow> bool" where
  "runs_plainly cfg rv (Lui rd imm) = True"
| "runs_plainly cfg rv (Auipc rd imm) = True"
| "runs_plainly cfg rv (Jal rd imm) = (imm \<noteq> 0 \<and> aligned_pc cfg (pc rv + imm))"
| "runs_plainly cfg rv (Jalr rd rs imm) =
     (let t = srv32_read_regs cfg rv rs + imm in t \<noteq> pc rv \<and> aligned_pc cfg (t AND NOT 1))"
| "runs_plainly cfg rv (Branch b rs1 rs2 imm) =
     (branch_taken b (srv32_read_regs cfg rv rs1) (srv32_read_regs cfg rv rs2) \<longrightarrow>
      aligned_pc cfg (pc rv + imm))"
| "runs_plainly cfg rv (Load l rd rs imm) = in_memory rv (srv32_read_regs cfg rv rs + imm) (load_width l)"
| "runs_plainly cfg rv (Store so rs2 rs1 imm) =
     in_memory rv (srv32_read_regs cfg rv rs1 + imm) (store_width so)"
| "runs_plainly cfg rv (OpImm a rd rs imm) = True"
| "runs_plainly cfg rv (Op a rd rs1 rs2) = (is_muldiv a \<longrightarrow> RV32M cfg)"
| "runs_plainly cfg rv Fence = True"
| "runs_plainly cfg rv i = False"

text \<open>The outcome of a case, after the statements that follow the switch.\<close>

definition refines :: "config \<Rightarrow> bool \<Rightarrow> insn \<Rightarrow> 'w sim \<Rightarrow> ('w sim \<times> ctl) run \<Rightarrow> bool" where
  "refines cfg compressed i s r \<longleftrightarrow>
     (\<exists>s'. bind_run r (finish compressed) = Done (s', RV_OKAY) \<and>
       arch_of cfg (cpu s') = isa_exec (if compressed then 2 else 4) i (arch_of cfg (cpu s)))"

lemma refines_Break_sim:
  "arch_of cfg (cpu s') = a \<Longrightarrow>
   isa_exec (if c then 2 else 4) i (arch_of cfg (cpu s)) =
     a\<lparr>apc := pc (cpu s') + (if c then 2 else 4)\<rparr> \<Longrightarrow>
   refines cfg c i s (Done (s', Break))"
  by (auto simp: refines_def finish_def)

lemma refines_Break:
  "arch_of cfg rv = a \<Longrightarrow>
   isa_exec (if c then 2 else 4) i (arch_of cfg (cpu s)) =
     a\<lparr>apc := pc rv + (if c then 2 else 4)\<rparr> \<Longrightarrow>
   refines cfg c i s (Done (set_cpu rv s', Break))"
  by (auto simp: refines_def finish_def)

lemma refines_Ret:
  "arch_of cfg rv = isa_exec (if c then 2 else 4) i (arch_of cfg (cpu s)) \<Longrightarrow>
   refines cfg c i s (Done (set_cpu rv s', Ret RV_OKAY))"
  by (auto simp: refines_def finish_def)

lemma set_x_apc [simp]: "(set_x rd v a)\<lparr>apc := b\<rparr> = set_x rd v (a\<lparr>apc := b\<rparr>)"
  by (simp add: set_x_def)

lemma refines_write:
  assumes "\<not> RV32E cfg" and "length (regs rv) = 32" and "rd < 32"
    and "pc rv = pc (cpu s)" and "arch_of cfg rv = arch_of cfg (cpu s)"
    and "isa_exec (if c then 2 else 4) i (arch_of cfg (cpu s)) =
      set_x rd v ((arch_of cfg (cpu s))\<lparr>apc := pc (cpu s) + (if c then 2 else 4)\<rparr>)"
  shows "refines cfg c i s (Done (set_cpu (srv32_write_regs cfg rv rd v) s', Break))"
  by (rule refines_Break [OF arch_of_write [OF assms(1-3)]])
    (simp add: assms(4-6))

lemma aligned_pc_bit0: "aligned_pc cfg a \<Longrightarrow> \<not> bit a 0"
proof -
  assume "aligned_pc cfg a"
  moreover have "a AND 1 = (a AND 3) AND 1" by (simp add: and.assoc)
  ultimately have "a AND 1 = 0"
    unfolding aligned_pc_def by (cases "RV32C cfg") simp_all
  then show ?thesis using and_shl1_iff_bit [of a 0] by (simp add: shl1_def)
qed

lemma clear_bit0: "\<not> bit a 0 \<Longrightarrow> a AND NOT 1 = a" for a :: i32
  by (rule bit_word_eqI) (auto simp: bit_simps intro: ccontr)

lemma jump_link_refines:
  assumes "exec_state cfg (cpu s)" and "rd < 32" and "aligned_pc cfg (t AND NOT 1)"
    and "isa_exec (if c then 2 else 4) i (arch_of cfg (cpu s)) =
      set_x rd (pc (cpu s) + (if c then 2 else 4)) ((arch_of cfg (cpu s))\<lparr>apc := t AND NOT 1\<rparr>)"
  shows "refines cfg c i s (jump_link cfg s ((cpu s)\<lparr>pc := t\<rparr>) rd (pc (cpu s)) c)"
proof -
  have "\<not> (\<not> RV32C cfg \<and> (t AND NOT 1) AND 3 \<noteq> 0)"
    using assms(3) unfolding aligned_pc_def by (cases "RV32C cfg") simp_all
  then have "jump_link cfg s ((cpu s)\<lparr>pc := t\<rparr>) rd (pc (cpu s)) c =
      Done (set_cpu (srv32_cycle_add (srv32_write_regs cfg ((cpu s)\<lparr>pc := t AND NOT 1\<rparr>) rd
        (pc (cpu s) + (if c then 2 else 4))) (branch_penalty (cpu s))) s, Ret RV_OKAY)"
    by (auto simp: jump_link_def Let_def)
  moreover have "arch_of cfg (srv32_write_regs cfg ((cpu s)\<lparr>pc := t AND NOT 1\<rparr>) rd
      (pc (cpu s) + (if c then 2 else 4))) =
    set_x rd (pc (cpu s) + (if c then 2 else 4)) ((arch_of cfg (cpu s))\<lparr>apc := t AND NOT 1\<rparr>)"
    using assms(1,2) by (subst arch_of_write) (auto simp: exec_state_def)
  ultimately show ?thesis
    by (simp add: refines_Ret assms(4))
qed


lemma exec_jal_refines:
  assumes "exec_state cfg (cpu s)"
    and "decode w = Some (Jal rd imm)" and "runs_plainly cfg (cpu s) (Jal rd imm)"
  shows "refines cfg c (Jal rd imm) s (exec_jal cfg s w c)"
proof -
  note f = decode_fields(3) [OF assms(2)]
  let ?t = "pc (cpu s) + imm"
  have al: "aligned_pc cfg ?t" using assms(3) by simp
  have rd: "rd < 32" using f reg_field_less by simp
  have t: "?t AND NOT 1 = ?t" by (rule clear_bit0 [OF aligned_pc_bit0 [OF al]])
  have "refines cfg c (Jal rd imm) s (jump_link cfg s ((cpu s)\<lparr>pc := ?t\<rparr>) rd (pc (cpu s)) c)"
    by (rule jump_link_refines [OF assms(1)]) (simp_all only: t al rd isa_exec.simps arch_of_sel)
  then show ?thesis
    using assms(3) f by (simp add: exec_jal_def Let_def to_imm_j_spec)
qed

lemma exec_jalr_refines:
  assumes "exec_state cfg (cpu s)"
    and "decode w = Some (Jalr rd rs imm)" and "runs_plainly cfg (cpu s) (Jalr rd rs imm)"
  shows "refines cfg c (Jalr rd rs imm) s (exec_jalr cfg s w c)"
proof -
  note f = decode_fields(4) [OF assms(2)]
  let ?t = "srv32_read_regs cfg (cpu s) rs + imm"
  have al: "aligned_pc cfg (?t AND NOT 1)" and ne: "?t \<noteq> pc (cpu s)"
    using assms(3) by (simp_all add: Let_def)
  have "refines cfg c (Jalr rd rs imm) s (jump_link cfg s ((cpu s)\<lparr>pc := ?t\<rparr>) rd (pc (cpu s)) c)"
    by (rule jump_link_refines [OF assms(1) _ al])
      (use f reg_field_less exec_state_read [OF assms(1)] in auto)
  then show ?thesis
    using ne f by (simp add: exec_jalr_def Let_def to_imm_i_spec)
qed

lemma branch_cond_taken:
  "branch_op_of f3 = Some b \<Longrightarrow> branch_cond f3 x y = Some (branch_taken b x y)"
  by (auto simp: branch_op_of_def branch_cond_def branch_taken_def word_sless_alt word_sle_eq
      word_less_def word_le_def split: if_splits)

lemma exec_branch_refines:
  assumes "exec_state cfg (cpu s)" and "decode w = Some (Branch b rs1 rs2 imm)"
  shows "refines cfg c (Branch b rs1 rs2 imm) s (exec_branch cfg s w)"
proof -
  note f = decode_fields(5) [OF assms(2)]
  let ?x = "xreg (arch_of cfg (cpu s)) rs1" and ?y = "xreg (arch_of cfg (cpu s)) rs2"
  have cond: "branch_cond (b_func3 w) (srv32_read_regs cfg (cpu s) (unat (b_rs1 w)))
      (srv32_read_regs cfg (cpu s) (unat (b_rs2 w))) = Some (branch_taken b ?x ?y)"
    using f branch_cond_taken by (simp only: exec_state_read [OF assms(1)])
  show ?thesis
  proof (cases "branch_taken b ?x ?y")
    case True
    have "exec_branch cfg s w = Done (set_cpu
        (if (\<not> branch_predict (cpu s) \<or> 0 <s imm) \<and> (pc (cpu s) + imm) AND 3 = 0
         then srv32_cycle_add ((cpu s)\<lparr>pc := pc (cpu s) + imm\<rparr>) (branch_penalty (cpu s))
         else (cpu s)\<lparr>pc := pc (cpu s) + imm\<rparr>) s, Ret RV_OKAY)"
      unfolding exec_branch_def Let_def cond using True f by (simp add: to_imm_b_spec)
    moreover have "isa_exec (if c then 2 else 4) (Branch b rs1 rs2 imm) (arch_of cfg (cpu s)) =
        (arch_of cfg (cpu s))\<lparr>apc := pc (cpu s) + imm\<rparr>"
      using True by simp
    ultimately show ?thesis
      by (simp only:) (intro refines_Ret, simp)
  next
    case False
    then have "exec_branch cfg s w = Done (s, Break)"
      unfolding exec_branch_def Let_def cond by simp
    moreover have "isa_exec (if c then 2 else 4) (Branch b rs1 rs2 imm) (arch_of cfg (cpu s)) =
        (arch_of cfg (cpu s))\<lparr>apc := pc (cpu s) + (if c then 2 else 4)\<rparr>"
      using False by simp
    ultimately show ?thesis
      by (simp add: refines_def finish_def)
  qed
qed

lemma exec_load_refines:
  assumes "exec_state cfg (cpu s)" and "decode w = Some (Load l rd rs imm)"
    and "runs_plainly cfg (cpu s) (Load l rd rs imm)"
  shows "refines cfg c (Load l rd rs imm) s (exec_load cfg h s w)"
proof -
  note f = decode_fields(6) [OF assms(2)]
  let ?a = "xreg (arch_of cfg (cpu s)) rs + imm" and ?n = "load_width l"
  let ?bs = "block_bytes (cpu s) (sint (?a - mem_base (cpu s))) ?n"
  have m: "in_memory (cpu s) ?a ?n"
    using assms(3) by (simp only: runs_plainly.simps exec_state_read [OF assms(1)])
  have n: "0 < ?n" using load_width_cases [of l] by auto
  have "srv32_read_mem (cpu s) ?a (of_nat ?n) = Done (Some ?bs)"
    using m by (simp only: in_memory_def srv32_read_mem_def Let_def sint_load_width) simp
  then have "memrw_load h s (i_func3 w) ?a = Done (s, 0, load_value l (le_word ?bs))"
    using memrw_load_memory [of "i_func3 w" l ?a s ?bs h] f m by (auto simp only: in_memory_def)
  moreover have "le_word ?bs = bytes_at (abyte (arch_of cfg (cpu s))) ?a ?n"
    using block_bytes_at [of "cpu s" ?a ?n cfg] m n by (simp only: in_memory_def)
  moreover have "srv32_read_regs cfg (cpu s) (unat (i_rs1 w)) + to_imm_i (i_imm w) = ?a"
    using f by (simp only: exec_state_read [OF assms(1)] to_imm_i_spec)
  ultimately have "exec_load cfg h s w = Done (set_cpu (srv32_write_regs cfg
      (cpu (singleram_cycle s)) rd (load_value l (bytes_at (abyte (arch_of cfg (cpu s))) ?a ?n)))
      (singleram_cycle s), Break)"
    using f by (simp add: exec_load_def Let_def)
  moreover have "singleram_cycle s = set_cpu (cpu (singleram_cycle s)) s"
    by (simp add: singleram_cycle_def)
  moreover have "regs (cpu (singleram_cycle s)) = regs (cpu s)" "pc (cpu (singleram_cycle s)) = pc (cpu s)"
    by (simp_all add: singleram_cycle_def)
  ultimately show ?thesis
    using assms(1) f reg_field_less [of 7 w]
    by (simp only:) (rule refines_write, auto simp: exec_state_def)
qed


lemma exec_store_refines:
  assumes "exec_state cfg (cpu s)" and "decode w = Some (Store so rs2 rs1 imm)"
    and "runs_plainly cfg (cpu s) (Store so rs2 rs1 imm)"
  shows "refines cfg c (Store so rs2 rs1 imm) s (exec_store cfg h s w)"
proof -
  note f = decode_fields(7) [OF assms(2)]
  let ?a = "xreg (arch_of cfg (cpu s)) rs1 + imm" and ?n = "store_width so"
  let ?v = "xreg (arch_of cfg (cpu s)) rs2"
  let ?rv = "block_store (cpu s) (sint (?a - mem_base (cpu s))) (le_bytes ?n ?v)"
  have m: "in_memory (cpu s) ?a ?n"
    using assms(3) by (simp only: runs_plainly.simps exec_state_read [OF assms(1)])
  have n: "0 < ?n" "?n \<le> 4" using store_width_cases [of so] by auto
  have "srv32_write_mem (cpu s) ?a (of_nat ?n) (le_bytes 4 ?v) = Done (Some ?rv)"
    using m n(2)
    by (simp only: in_memory_def srv32_write_mem_def Let_def sint_store_width nat_int
        length_le_bytes rvmem.take_le_bytes simp_thms if_True if_False)
  then have "memrw_store h s (i_func3 w) ?a ?v = Done (set_cpu ?rv s, 0)"
    using memrw_store_memory [of "i_func3 w" so ?a s ?v ?rv h] f m by (auto simp only: in_memory_def)
  moreover have "srv32_read_regs cfg (cpu s) (unat (s_rs1 w)) + to_imm_s (s_imm2 w) (s_imm1 w) = ?a"
    using f by (simp only: exec_state_read [OF assms(1)] to_imm_s_spec)
  moreover have "srv32_read_regs cfg (cpu s) (unat (s_rs2 w)) = ?v"
    using f by (simp only: exec_state_read [OF assms(1)])
  ultimately have ex: "exec_store cfg h s w = Done (singleram_cycle (set_cpu ?rv s), Break)"
    by (simp only: exec_store_def Let_def bind_run.simps split_conv) simp
  let ?arch = "(arch_of cfg (cpu s))\<lparr>abyte := put_bytes (abyte (arch_of cfg (cpu s))) ?a ?n ?v\<rparr>"
  have ar: "arch_of cfg ?rv = ?arch"
    using arch_of_block_store [of "cpu s" ?a ?n cfg ?v] m n by (simp only: in_memory_def)
  have pcq: "pc (cpu (singleram_cycle (set_cpu ?rv s))) = pc (cpu s)"
    by (simp add: singleram_cycle_def)
  show ?thesis unfolding ex
  proof (rule refines_Break_sim)
    show "arch_of cfg (cpu (singleram_cycle (set_cpu ?rv s))) = ?arch"
      unfolding arch_of_singleram using ar by simp
    show "isa_exec (if c then 2 else 4) (Store so rs2 rs1 imm) (arch_of cfg (cpu s)) =
        ?arch\<lparr>apc := pc (cpu (singleram_cycle (set_cpu ?rv s))) + (if c then 2 else 4)\<rparr>"
      by (simp only: isa_exec.simps pcq arch_of_sel(1)) simp
  qed
qed

lemma write_result_refines:
  assumes "exec_state cfg (cpu s)" and "r = Some v" and "rd < 32"
    and "isa_exec (if c then 2 else 4) i (arch_of cfg (cpu s)) =
      set_x rd v ((arch_of cfg (cpu s))\<lparr>apc := pc (cpu s) + (if c then 2 else 4)\<rparr>)"
  shows "refines cfg c i s (write_result cfg s w rd r)"
  unfolding assms(2) write_result_def option.case
  by (rule refines_write) (use assms in \<open>auto simp: exec_state_def\<close>)

lemma exec_op_imm_refines:
  assumes "exec_state cfg (cpu s)" and "decode w = Some (OpImm a rd rs imm)"
  shows "refines cfg c (OpImm a rd rs imm) s (exec_op_imm cfg h s w)"
proof -
  note f = decode_fields(8) [OF assms(2)]
  have "exec_arithi cfg h w (srv32_read_regs cfg (cpu s) (unat (i_rs1 w))) =
      Some (alu a (xreg (arch_of cfg (cpu s)) rs) imm)"
    using f by (simp only: exec_arithi_alu exec_state_read [OF assms(1)])
  then show ?thesis
    unfolding exec_op_imm_def
    by (rule write_result_refines [OF assms(1)]) (use f reg_field_less in auto)
qed

lemma exec_op_refines:
  assumes "exec_state cfg (cpu s)" and "masks_shifts h" and "decode w = Some (Op a rd rs1 rs2)"
    and "runs_plainly cfg (cpu s) (Op a rd rs1 rs2)"
  shows "refines cfg c (Op a rd rs1 rs2) s (exec_op cfg h s w)"
proof -
  note f = decode_fields(9) [OF assms(3)]
  have "RV32M cfg \<or> r_func7 w \<noteq> FN_RV32M"
    using assms(4) f by (auto simp: reg_op_of_def is_muldiv_def split: if_splits)
  then have "exec_arithr cfg h w (srv32_read_regs cfg (cpu s) (unat (r_rs1 w)))
      (srv32_read_regs cfg (cpu s) (unat (r_rs2 w))) =
      Some (alu a (xreg (arch_of cfg (cpu s)) rs1) (xreg (arch_of cfg (cpu s)) rs2))"
    using exec_arithr_alu [OF assms(2)] f by (simp only: exec_state_read [OF assms(1)])
  then show ?thesis
    unfolding exec_op_def
    by (rule write_result_refines [OF assms(1)]) (use f reg_field_less in auto)
qed

lemma exec_upper_refines:
  assumes "exec_state cfg (cpu s)"
  shows "decode w = Some (Lui rd imm) \<Longrightarrow> refines cfg c (Lui rd imm) s (exec_lui cfg s w)"
    and "decode w = Some (Auipc rd imm) \<Longrightarrow> refines cfg c (Auipc rd imm) s (exec_auipc cfg s w)"
proof -
  have regs: "\<not> RV32E cfg" "length (regs (cpu s)) = 32"
    using assms by (simp_all add: exec_state_def)
  show "refines cfg c (Lui rd imm) s (exec_lui cfg s w)" if "decode w = Some (Lui rd imm)"
    using decode_fields(1) [OF that] unfolding exec_lui_def
    by (intro refines_write [OF regs]) (auto simp: to_imm_u_spec reg_field_less)
  show "refines cfg c (Auipc rd imm) s (exec_auipc cfg s w)" if "decode w = Some (Auipc rd imm)"
    using decode_fields(2) [OF that] unfolding exec_auipc_def Let_def
    by (intro refines_write [OF regs]) (auto simp: to_imm_u_spec reg_field_less)
qed

text \<open>Every instruction that runs plainly.\<close>

lemma exec_inst_refines:
  assumes "exec_state cfg (cpu s)" and "masks_shifts h" and "decode w = Some i"
    and "runs_plainly cfg (cpu s) i"
  shows "refines cfg c i s (exec_inst cfg h s w c)"
proof (cases i)
  case (Lui rd imm)
  then show ?thesis
    using assms decode_fields(1) exec_upper_refines(1) by (simp add: exec_inst_def Let_def)
next
  case (Auipc rd imm)
  then show ?thesis
    using assms decode_fields(2) exec_upper_refines(2) by (simp add: exec_inst_def Let_def)
next
  case (Jal rd imm)
  then show ?thesis
    using assms decode_fields(3) exec_jal_refines by (simp add: exec_inst_def Let_def)
next
  case (Jalr rd rs imm)
  then show ?thesis
    using assms decode_fields(4) exec_jalr_refines by (simp add: exec_inst_def Let_def)
next
  case (Branch b rs1 rs2 imm)
  then show ?thesis
    using assms decode_fields(5) exec_branch_refines by (simp add: exec_inst_def Let_def)
next
  case (Load l rd rs imm)
  then show ?thesis
    using assms decode_fields(6) exec_load_refines by (simp add: exec_inst_def Let_def)
next
  case (Store so rs2 rs1 imm)
  then show ?thesis
    using assms decode_fields(7) exec_store_refines by (simp add: exec_inst_def Let_def)
next
  case (OpImm a rd rs imm)
  then show ?thesis
    using assms decode_fields(8) exec_op_imm_refines by (simp add: exec_inst_def Let_def)
next
  case (Op a rd rs1 rs2)
  then show ?thesis
    using assms decode_fields(9) exec_op_refines by (simp add: exec_inst_def Let_def)
next
  case Fence
  then show ?thesis
    using assms decode_fields(10) by (simp add: exec_inst_def Let_def refines_def finish_def)
qed (use assms in simp_all)

subsection \<open>A whole step\<close>

text \<open>The state after the statements at the top of a step, which clear the zero register.\<close>

definition step_entry :: "config \<Rightarrow> 'w sim \<Rightarrow> rv" where
  "step_entry cfg s = srv32_write_regs cfg ((cpu s)\<lparr>mtime_update := False\<rparr>) 0 0"

definition no_interrupt :: "'w sim \<Rightarrow> bool" where
  "no_interrupt s \<longleftrightarrow>
     \<not> bit (mstatus (csr (cpu s))) MIE \<or>
     \<not> timer_irq (st s) \<and> \<not> sw_irq_next (st s) \<and> \<not> ext_irq_next (st s)"

definition pc_ok :: "config \<Rightarrow> rv \<Rightarrow> bool" where
  "pc_ok cfg rv \<longleftrightarrow>
     mem_base rv \<le>s pc rv \<and> pc rv <s mem_base rv + mem_size rv \<and> aligned_pc cfg (pc rv)"

lemma step_entry_frame [simp]:
  "pc (step_entry cfg s) = pc (cpu s)" "csr (step_entry cfg s) = csr (cpu s)"
  "mem_base (step_entry cfg s) = mem_base (cpu s)" "mem_size (step_entry cfg s) = mem_size (cpu s)"
  "mem (step_entry cfg s) = mem (cpu s)"
  by (simp_all add: step_entry_def)

lemma arch_of_entry [simp]: "arch_of cfg (step_entry cfg s) = arch_of cfg (cpu s)"
  by (simp add: arch_of_def step_entry_def srv32_write_regs_def srv32_read_regs_def fun_eq_iff)

lemma arch_of_count [simp]: "arch_of cfg (count_step rv) = arch_of cfg rv"
  by (simp add: count_step_def Let_def arch_of_def srv32_read_regs_def fun_eq_iff)

lemma arch_of_note [simp]: "arch_of cfg (cpu (note_length c s)) = arch_of cfg (cpu s)"
  by (simp add: note_length_def Let_def)

lemma regs_front [simp]:
  "regs (count_step rv) = regs rv" "regs (cpu (note_length c s)) = regs (cpu s)"
  by (simp_all add: count_step_def note_length_def Let_def)

lemma exec_state_entry:
  "\<not> RV32E cfg \<Longrightarrow> length (regs (cpu s)) = 32 \<Longrightarrow> exec_state cfg (step_entry cfg s)"
  by (simp add: exec_state_def step_entry_def srv32_write_regs_def)

lemma exec_state_cong: "regs rv = regs rv' \<Longrightarrow> exec_state cfg rv = exec_state cfg rv'"
  by (simp add: exec_state_def)

text \<open>What decides whether an instruction runs plainly.\<close>

lemma runs_plainly_cong:
  assumes "regs rv = regs rv'" and "pc rv = pc rv'" and "mem_base rv = mem_base rv'"
    and "mem_size rv = mem_size rv'"
  shows "runs_plainly cfg rv i = runs_plainly cfg rv' i"
proof -
  have "srv32_read_regs cfg rv = srv32_read_regs cfg rv'"
    using assms(1) by (simp add: srv32_read_regs_def fun_eq_iff)
  moreover have "in_memory rv = in_memory rv'"
    using assms(3,4) by (simp add: in_memory_def range_check_def in_block_def fun_eq_iff)
  ultimately show ?thesis
    using assms(2) by (cases i) simp_all
qed

lemma take_interrupts_none: "no_interrupt s \<Longrightarrow> take_interrupts (st s) (step_entry cfg s) = step_entry cfg s"
  by (auto simp: take_interrupts_cases no_interrupt_def mie_set_iff)

lemma check_pc_none: "pc_ok cfg rv \<Longrightarrow> check_pc cfg rv = rv"
  by (auto simp: check_pc_def pc_ok_def aligned_pc_def Let_def word_sless_alt word_sle_eq)

lemma read_mem_cong:
  "mem rv = mem rv' \<Longrightarrow> mem_base rv = mem_base rv' \<Longrightarrow> mem_size rv = mem_size rv' \<Longrightarrow>
   srv32_read_mem rv a n = srv32_read_mem rv' a n"
  by (simp add: srv32_read_mem_def Let_def range_check_def in_block_def block_bytes_def)

lemma read_mem_entry [simp]: "srv32_read_mem (step_entry cfg s) a n = srv32_read_mem (cpu s) a n"
  by (rule read_mem_cong) simp_all

lemma front_plain:
  assumes "no_interrupt s" and "pc_ok cfg (cpu s)"
    and "fetch_inst h (cpu s) = Done w" and "RV32C cfg \<Longrightarrow> fetch_instc h (cpu s) = Done c"
  shows "step_front cfg h s =
    Done (s\<lparr>cpu := count_step (step_entry cfg s), st := sample_irqs (step_entry cfg s) w (st s)\<rparr>,
      w, if RV32C cfg then c else 0)"
proof -
  have "pc_ok cfg (step_entry cfg s)"
    using assms(2) by (simp add: pc_ok_def)
  then have "check_pc cfg (take_interrupts (st s) (step_entry cfg s)) = step_entry cfg s"
    by (simp add: take_interrupts_none [OF assms(1)] check_pc_none)
  then show ?thesis
    using assms(3,4)
    by (simp add: step_front_def step_entry_def [symmetric] Let_def fetch_inst_def fetch_instc_def)
qed

text \<open>The two lengths of an instruction, from the switch on.\<close>

lemma exec_after_front:
  assumes "\<not> RV32E cfg" and "length (regs (cpu s)) = 32" and "masks_shifts h"
    and "decode v = Some i" and "runs_plainly cfg (step_entry cfg s) i"
    and "arch_of cfg (cpu s1) = arch_of cfg (cpu s)" and "regs (cpu s1) = regs (step_entry cfg s)"
    and "mem_base (cpu s1) = mem_base (cpu s)" and "mem_size (cpu s1) = mem_size (cpu s)"
  shows "\<exists>s'. bind_run (exec_inst cfg h s1 v c) (finish c) = Done (s', RV_OKAY) \<and>
    arch_of cfg (cpu s') = isa_exec (if c then 2 else 4) i (arch_of cfg (cpu s))"
proof -
  have "exec_state cfg (cpu s1)"
    using exec_state_entry [OF assms(1,2)] exec_state_cong [OF assms(7)] by simp
  moreover have "pc (cpu s1) = pc (cpu s)"
    using assms(6) by (metis arch_of_sel(1))
  then have "runs_plainly cfg (cpu s1) i"
    using assms(5) runs_plainly_cong [OF assms(7)] assms(8,9) by simp
  ultimately show ?thesis
    using exec_inst_refines [of cfg s1 h v i c] assms(3,4,6) by (auto simp: refines_def)
qed

text \<open>The state a step is taken in: no interrupt enters and the program counter is good.\<close>

definition steps_plainly :: "config \<Rightarrow> 'w host \<Rightarrow> 'w sim \<Rightarrow> bool" where
  "steps_plainly cfg h s \<longleftrightarrow>
     \<not> RV32E cfg \<and> masks_shifts h \<and> length (regs (cpu s)) = 32 \<and>
     no_interrupt s \<and> pc_ok cfg (cpu s)"

lemma count_frame [simp]:
  "mem_base (count_step rv) = mem_base rv" "mem_size (count_step rv) = mem_size rv"
  "mem_base (cpu (note_length c s)) = mem_base (cpu s)"
  "mem_size (cpu (note_length c s)) = mem_size (cpu s)"
  by (simp_all add: count_step_def note_length_def Let_def)

lemma step_refines_32bit:
  assumes "steps_plainly cfg h s"
    and "srv32_read_mem (cpu s) (pc (cpu s)) 4 = Done (Some bs)"
    and "RV32C cfg \<Longrightarrow> srv32_read_mem (cpu s) (pc (cpu s)) 2 = Done (Some bs2)"
    and "RV32C cfg \<Longrightarrow> cr_op (ucast (le_word bs2)) = 3"
    and "decode (le_word bs) = Some i" and "runs_plainly cfg (step_entry cfg s) i"
  shows "\<exists>s'. srv32_step cfg h s = Done (s', RV_OKAY) \<and>
    arch_of cfg (cpu s') = isa_exec 4 i (arch_of cfg (cpu s))"
proof -
  note p = assms(1) [unfolded steps_plainly_def]
  let ?w = "le_word bs" and ?c = "ucast (le_word bs2) :: u16"
  let ?s1 = "s\<lparr>cpu := count_step (step_entry cfg s), st := sample_irqs (step_entry cfg s) ?w (st s)\<rparr>"
  have front: "step_front cfg h s = Done (?s1, ?w, if RV32C cfg then ?c else 0)"
    by (rule front_plain) (use p assms(2,3) in \<open>simp_all add: fetch_inst_def fetch_instc_def\<close>)
  let ?s2 = "if RV32C cfg then note_length False ?s1 else ?s1"
  have "srv32_step cfg h s = bind_run (exec_inst cfg h ?s2 ?w False) (finish False)"
    using assms(4) by (simp add: srv32_step_def front decompress_32bit Let_def)
  moreover have "\<exists>s'. bind_run (exec_inst cfg h ?s2 ?w False) (finish False) = Done (s', RV_OKAY) \<and>
      arch_of cfg (cpu s') = isa_exec (if False then 2 else 4) i (arch_of cfg (cpu s))"
    by (rule exec_after_front) (use p assms(5,6) in auto)
  ultimately show ?thesis by simp
qed

lemma step_refines_compressed:
  assumes "steps_plainly cfg h s" and "RV32C cfg"
    and "srv32_read_mem (cpu s) (pc (cpu s)) 4 = Done r"
    and "srv32_read_mem (cpu s) (pc (cpu s)) 2 = Done (Some bs)"
    and "cr_op (ucast (le_word bs)) \<noteq> 3" and "\<not> reserved_accepted (ucast (le_word bs))"
    and "rvc_spec (ucast (le_word bs)) = Some i" and "runs_plainly cfg (step_entry cfg s) i"
  shows "\<exists>s'. srv32_step cfg h s = Done (s', RV_OKAY) \<and>
    arch_of cfg (cpu s') = isa_exec 2 i (arch_of cfg (cpu s))"
proof -
  note p = assms(1) [unfolded steps_plainly_def]
  let ?c = "ucast (le_word bs) :: u16"
  obtain w where w: "fetch_inst h (cpu s) = Done w"
    using assms(3) by (simp add: fetch_inst_def)
  let ?s1 = "s\<lparr>cpu := count_step (step_entry cfg s), st := sample_irqs (step_entry cfg s) w (st s)\<rparr>"
  have front: "step_front cfg h s = Done (?s1, w, ?c)"
    using front_plain [of s cfg h w ?c] p w assms(2,4) by (simp add: fetch_instc_def)
  obtain v where v: "compressed_decoder ?c w = (True, v, False)" "decode v = Some i"
    using decompress_expands [OF assms(5,6), of w] assms(7) by auto
  let ?s2 = "note_length True ?s1"
  have "srv32_step cfg h s = bind_run (exec_inst cfg h ?s2 v True) (finish True)"
    using assms(2) by (simp add: srv32_step_def front v(1) Let_def)
  moreover have "\<exists>s'. bind_run (exec_inst cfg h ?s2 v True) (finish True) = Done (s', RV_OKAY) \<and>
      arch_of cfg (cpu s') = isa_exec (if True then 2 else 4) i (arch_of cfg (cpu s))"
    by (rule exec_after_front) (use p v(2) assms(8) in auto)
  ultimately show ?thesis by simp
qed

end
