(* ===== verification/Demo.thy ===== *)
theory Demo
  imports Refine
begin

text \<open>
  A small concrete machine: the inputs at which the conditional properties are applied. The
  host reduces shift distances as x86 does and has a silent console and no files.
\<close>

definition demo_cfg :: "bool \<Rightarrow> config" where
  "demo_cfg c = \<lparr>RV32M = True, RV32C = c, RV32E = False, RV32B = False, XV6 = False\<rparr>"

definition demo_host :: "unit host" where
  "demo_host =
     \<lparr>shl_ub = (\<lambda>a n. push_bit (unat n mod 32) a), shr_ub = (\<lambda>a n. drop_bit (unat n mod 32) a),
      sar_ub = (\<lambda>a n. signed_drop_bit (unat n mod 32) a), uninit_inst = 0, uninit_instc = 0,
      os_getch = (\<lambda>w. (0, w)), os_putchar = (\<lambda>c w. w), os_open = (\<lambda>p w. (- 1, w)),
      os_close = (\<lambda>fd w. (- 1, w)), os_lseek = (\<lambda>fd off wh w. (- 1, w)),
      os_read = (\<lambda>fd null n w. (0, [], w)), os_write = (\<lambda>fd bs n w. (n, w)),
      os_fopen = (\<lambda>f w. (True, w)), os_fwrite = (\<lambda>f bs w. w)\<rparr>"

definition demo_csrs :: csrs where
  "demo_csrs =
     \<lparr>c_time = 0, c_cycle = 0, c_instret = 0, c_mtime = 0, c_mtimecmp = 0, mvendorid = 0,
      marchid = 0, mimpid = 0, mhartid = 0, mscratch = 0, mstatus = 8, mstatush = 0, misa = 0,
      mie = 0, mtvec = 32, mepc = 0, mcause = 0, mip = 0, mtval = 0, msip = 0, medeleg = 0,
      mideleg = 0, mcounteren = 0, sstatus = 0, sie = 0, stvec = 0, sscratch = 0, sepc = 0,
      scause = 0, stval = 0, sip = 0, satp = 0\<rparr>"

text \<open>64 bytes of memory from address 0, which start with the given word.\<close>

definition demo_rv :: "i32 \<Rightarrow> rv" where
  "demo_rv w =
     \<lparr>pc = 0, prev_pc = 0, regs = replicate 32 0, csr = demo_csrs, debug_en = False,
      branch_penalty = 2, branch_predict = False, mem_size = 64, mem_base = 0,
      mem = (\<lambda>k. if k < 4 then ucast (drop_bit (8 * k) w) else 0), singleram = False,
      mtime_update = False, exitcode = 0\<rparr>"

definition demo_statics :: statics where
  "demo_statics =
     \<lparr>compressed_prev = False, timer_irq = False, sw_irq = False, sw_irq_next = False,
      ext_irq = False, ext_irq_next = False, overhead = 0\<rparr>"

definition demo_sim :: "i32 \<Rightarrow> unit sim" where
  "demo_sim w = \<lparr>cpu = demo_rv w, st = demo_statics, result = 0, world = ()\<rparr>"

lemmas demo_defs =
  demo_cfg_def demo_host_def demo_csrs_def demo_rv_def demo_statics_def demo_sim_def

lemma demo_simps [simp]:
  "cpu (demo_sim w) = demo_rv w" "pc (demo_rv w) = 0" "mem_base (demo_rv w) = 0"
  "mem_size (demo_rv w) = 64" "regs (demo_rv w) = replicate 32 0"
  "RV32C (demo_cfg c) = c" "RV32M (demo_cfg c)" "\<not> RV32B (demo_cfg c)" "\<not> RV32E (demo_cfg c)"
  by (simp_all add: demo_sim_def demo_rv_def demo_cfg_def)

lemma demo_masks [simp]: "masks_shifts demo_host"
  by (simp add: masks_shifts_def demo_host_def)

lemma demo_mem_ok [simp]: "mem_ok (demo_rv w)"
  by (simp add: mem_ok_def demo_rv_def)

lemma demo_read:
  "srv32_read_mem (demo_rv w) 0 4 = Done (Some (le_bytes 4 w))"
  "srv32_read_mem (demo_rv w) 0 2 = Done (Some (le_bytes 2 w))"
  by (simp_all add: srv32_read_mem_def range_check_def in_block_def block_bytes_def le_bytes_def
      demo_rv_def word_sless_alt)

lemma demo_words [simp]:
  "le_word (le_bytes 4 w) = w" "le_word (le_bytes 2 w) = take_bit 16 w"
  by (simp_all add: le_word_le_bytes take_bit_word_eq_self)

lemma demo_steps [simp]: "steps_plainly (demo_cfg c) demo_host (demo_sim w)"
  by (simp add: steps_plainly_def no_interrupt_def pc_ok_def aligned_pc_def demo_defs
      word_sless_alt word_sle_eq masks_shifts_def)

end
