(* ===== verification/Elfloader.thy ===== *)
theory Elfloader
  imports Syscall
begin

text \<open>
  \<open>tools/elfloader.c\<close> with the structures of \<open>tools/elf.h\<close> it reads: the parse of the two
  headers of a 32-bit little-endian file and the copy of every loadable segment into the
  memory block. The file is the list of its bytes; \<open>malloc\<close> is taken to succeed. Memory
  writes go through \<open>srv32_write_mem\<close>, and the facts about what is in memory afterwards
  rest on the interface \<open>byte_store\<close>.
\<close>

subsection \<open>The headers\<close>

definition EI_NIDENT :: nat where "EI_NIDENT = 16"
definition EI_CLASS :: nat where "EI_CLASS = 4"
definition PT_LOAD :: i32 where "PT_LOAD = 1"

text \<open>The members of the two structures; fields of 16 bits are kept as such.\<close>

record Elf32_Ehdr =
  e_ident :: "u8 list"
  e_type :: u16
  e_machine :: u16
  e_version :: i32
  e_entry :: i32
  e_phoff :: i32
  e_shoff :: i32
  e_flags :: i32
  e_ehsize :: u16
  e_phentsize :: u16
  e_phnum :: u16
  e_shentsize :: u16
  e_shnum :: u16
  e_shstrndx :: u16

record Elf32_Phdr =
  p_type :: i32
  p_offset :: i32
  p_vaddr :: i32
  p_paddr :: i32
  p_filesz :: i32
  p_memsz :: i32
  p_flags :: i32
  p_align :: i32

definition word_at :: "u8 list \<Rightarrow> nat \<Rightarrow> i32" where
  "word_at bs k = le_word (take 4 (drop k bs))"

definition half_at :: "u8 list \<Rightarrow> nat \<Rightarrow> u16" where
  "half_at bs k = ucast (le_word (take 2 (drop k bs)))"

definition ehdr_size :: nat where "ehdr_size = 52"
definition phdr_size :: nat where "phdr_size = 32"

definition ehdr_of :: "u8 list \<Rightarrow> Elf32_Ehdr" where
  "ehdr_of bs =
     \<lparr>e_ident = take EI_NIDENT bs, e_type = half_at bs 16, e_machine = half_at bs 18,
      e_version = word_at bs 20, e_entry = word_at bs 24, e_phoff = word_at bs 28,
      e_shoff = word_at bs 32, e_flags = word_at bs 36, e_ehsize = half_at bs 40,
      e_phentsize = half_at bs 42, e_phnum = half_at bs 44, e_shentsize = half_at bs 46,
      e_shnum = half_at bs 48, e_shstrndx = half_at bs 50\<rparr>"

definition phdr_of :: "u8 list \<Rightarrow> Elf32_Phdr" where
  "phdr_of bs =
     \<lparr>p_type = word_at bs 0, p_offset = word_at bs 4, p_vaddr = word_at bs 8,
      p_paddr = word_at bs 12, p_filesz = word_at bs 16, p_memsz = word_at bs 20,
      p_flags = word_at bs 24, p_align = word_at bs 28\<rparr>"

subsection \<open>Reading the file\<close>

text \<open>
  \<open>fseek(fp, off, SEEK_SET)\<close> and \<open>fread(ptr, n, 1, fp)\<close>: the bytes, or \<open>None\<close> where the
  call returns 0, which it does when the file is too short and when \<open>n\<close> is 0.
\<close>

definition fread_at :: "u8 list \<Rightarrow> nat \<Rightarrow> nat \<Rightarrow> u8 list option" where
  "fread_at file off n =
     (if n = 0 \<or> length file < off + n then None else Some (take n (drop off file)))"

text \<open>
  A size passed as \<open>(int)ph->p_memsz\<close> is converted to \<open>size_t\<close>: from \<open>2^31\<close> on it becomes
  larger than any file.
\<close>

definition fread_sized :: "u8 list \<Rightarrow> nat \<Rightarrow> i32 \<Rightarrow> u8 list option" where
  "fread_sized file off n = (if n <s 0 then None else fread_at file off (unat n))"

text \<open>
  One turn of the loop over the program headers. \<open>None\<close> is the jump to \<open>fail\<close>; a segment
  outside memory ends the process.
\<close>

definition load_segment :: "u8 list \<Rightarrow> rv \<Rightarrow> Elf32_Phdr \<Rightarrow> (rv \<times> bool) run" where
  "load_segment file rv ph =
     (if p_type ph \<noteq> PT_LOAD then Done (rv, True)
      else case fread_sized file (unat (p_offset ph)) (p_memsz ph) of
        None \<Rightarrow> Done (rv, False)
      | Some bs \<Rightarrow>
          bind_run (srv32_write_mem rv (p_vaddr ph) (p_memsz ph) bs) (\<lambda>r.
            case r of Some rv' \<Rightarrow> Done (rv', True) | None \<Rightarrow> Terminated (- 1)))"

fun load_segments :: "u8 list \<Rightarrow> Elf32_Phdr list \<Rightarrow> rv \<Rightarrow> (rv \<times> bool) run" where
  "load_segments file [] rv = Done (rv, True)"
| "load_segments file (ph # phs) rv =
     bind_run (load_segment file rv ph) (\<lambda>(rv', ok).
       if ok then load_segments file phs rv' else Done (rv', False))"

text \<open>The array of program headers.\<close>

definition phdrs_of :: "u8 list \<Rightarrow> nat \<Rightarrow> Elf32_Phdr list" where
  "phdrs_of bs n = map (\<lambda>i. phdr_of (drop (i * phdr_size) bs)) [0..<n]"

definition elf32_read :: "u8 list \<Rightarrow> rv \<Rightarrow> (rv \<times> bool) run" where
  "elf32_read file rv =
     (case fread_at file 0 ehdr_size of
        None \<Rightarrow> Done (rv, False)
      | Some hb \<Rightarrow>
          (let hdr = ehdr_of hb; n = unat (e_phnum hdr) in
           case fread_at file (unat (e_phoff hdr)) (phdr_size * n) of
             None \<Rightarrow> Done (rv, False)
           | Some pb \<Rightarrow> load_segments file (phdrs_of pb n) rv))"

text \<open>\<open>elfloader\<close>; the file is \<open>None\<close> when it cannot be opened.\<close>

definition elfloader :: "u8 list option \<Rightarrow> rv \<Rightarrow> (rv \<times> bool) run" where
  "elfloader file rv =
     (case file of
        None \<Rightarrow> Done (rv, False)
      | Some bytes \<Rightarrow>
          (case fread_at bytes 0 EI_NIDENT of
             None \<Rightarrow> Done (rv, False)
           | Some h \<Rightarrow>
               if h ! 0 = 0x7f \<or> h ! 1 = 0x45
               then (if h ! EI_CLASS = 1 then elf32_read bytes rv else Done (rv, False))
               else Done (rv, False)))"

subsection \<open>What is in memory afterwards\<close>

text \<open>The bytes of a segment in the file, and whether two segments are apart in memory.\<close>

definition segment_bytes :: "u8 list \<Rightarrow> Elf32_Phdr \<Rightarrow> u8 list" where
  "segment_bytes file ph = take (unat (p_memsz ph)) (drop (unat (p_offset ph)) file)"

definition apart :: "Elf32_Phdr \<Rightarrow> Elf32_Phdr \<Rightarrow> bool" where
  "apart a b \<longleftrightarrow> sint (p_vaddr a) + sint (p_memsz a) \<le> sint (p_vaddr b) \<or>
     sint (p_vaddr b) + sint (p_memsz b) \<le> sint (p_vaddr a)"

definition placed :: "u8 list \<Rightarrow> rv \<Rightarrow> Elf32_Phdr \<Rightarrow> bool" where
  "placed file rv ph \<longleftrightarrow>
     srv32_read_mem rv (p_vaddr ph) (p_memsz ph) = Done (Some (segment_bytes file ph))"

lemma fread_sized_SomeD:
  assumes "fread_sized file off n = Some bs"
  shows "bs = take (unat n) (drop off file)" and "0 < sint n" and "nat (sint n) = unat n"
    and "length bs = unat n" and "off + unat n \<le> length file"
proof -
  have n: "\<not> n <s 0" "unat n \<noteq> 0" "off + unat n \<le> length file"
    and bs: "bs = take (unat n) (drop off file)"
    using assms by (auto simp: fread_sized_def fread_at_def split: if_splits)
  have ge: "0 \<le> sint n" using n(1) by (simp add: word_sless_alt)
  moreover have "sint n \<noteq> 0"
    using n(2) by (metis signed_eq_0_iff unsigned_0)
  ultimately show "0 < sint n" by simp
  have "uint n = take_bit 32 (sint n)"
    by (simp add: uint_sint)
  also have "\<dots> = sint n"
    using ge sint_lt [of n] by (simp add: take_bit_int_eq_self)
  finally have "sint n = uint n" by simp
  then show "nat (sint n) = unat n" by simp
  show "bs = take (unat n) (drop off file)" by (fact bs)
  show "length bs = unat n" using n(3) by (simp add: bs)
  show "off + unat n \<le> length file" by (fact n(3))
qed

text \<open>A turn of the loop that goes on: the segment was not loadable, or it is now in memory.\<close>

lemma load_segment_TrueD:
  assumes "load_segment file rv ph = Done (rv', True)"
  shows "p_type ph \<noteq> PT_LOAD \<and> rv' = rv \<or>
    p_type ph = PT_LOAD \<and> 0 < sint (p_memsz ph) \<and>
    nat (sint (p_memsz ph)) = unat (p_memsz ph) \<and>
    srv32_write_mem rv (p_vaddr ph) (p_memsz ph) (segment_bytes file ph) = Done (Some rv')"
proof (cases "p_type ph = PT_LOAD")
  case True
  then obtain bs where bs: "fread_sized file (unat (p_offset ph)) (p_memsz ph) = Some bs"
    using assms by (cases "fread_sized file (unat (p_offset ph)) (p_memsz ph)")
      (simp_all add: load_segment_def)
  obtain r where "srv32_write_mem rv (p_vaddr ph) (p_memsz ph) bs = Done r"
    and "r = Some rv'"
    using assms True bs
    by (simp add: load_segment_def bind_run_Done_iff) (auto split: option.splits)
  then show ?thesis
    using fread_sized_SomeD(1,2,3) [OF bs] True by (simp add: segment_bytes_def)
next
  case False
  then show ?thesis using assms by (simp add: load_segment_def)
qed

lemma load_segment_placed:
  assumes "load_segment file rv ph = Done (rv', True)" and "p_type ph = PT_LOAD"
  shows "placed file rv' ph"
proof -
  have *: "nat (sint (p_memsz ph)) = unat (p_memsz ph)"
    and "srv32_write_mem rv (p_vaddr ph) (p_memsz ph) (segment_bytes file ph) = Done (Some rv')"
    using load_segment_TrueD [OF assms(1)] assms(2) by blast+
  then show ?thesis
    using rvmem.wr_rd_same [of rv "p_vaddr ph" "p_memsz ph" "segment_bytes file ph" rv']
    by (simp add: placed_def segment_bytes_def)
qed

lemma load_segment_keeps_placed:
  assumes "load_segment file rv b = Done (rv', True)" and "placed file rv a"
    and "0 \<le> sint (p_memsz a)" and "p_type b = PT_LOAD \<Longrightarrow> apart a b"
  shows "placed file rv' a"
proof (cases "p_type b = PT_LOAD")
  case True
  have "0 < sint (p_memsz b)"
    and "srv32_write_mem rv (p_vaddr b) (p_memsz b) (segment_bytes file b) = Done (Some rv')"
    using load_segment_TrueD [OF assms(1)] True by blast+
  then show ?thesis
    using rvmem.wr_rd_other [of rv "p_vaddr b" "p_memsz b" "segment_bytes file b" rv'
        "p_vaddr a" "p_memsz a" "segment_bytes file a"] assms(2,3) assms(4) [OF True]
    by (auto simp: placed_def apart_def)
next
  case False
  then show ?thesis using load_segment_TrueD [OF assms(1)] assms(2) by blast
qed

lemma load_segments_keep_placed:
  assumes "load_segments file phs rv = Done (rv', True)" and "placed file rv a"
    and "0 \<le> sint (p_memsz a)" and "\<And>b. b \<in> set phs \<Longrightarrow> p_type b = PT_LOAD \<Longrightarrow> apart a b"
  shows "placed file rv' a"
  using assms
proof (induction phs arbitrary: rv)
  case (Cons b phs)
  then obtain rv1 where "load_segment file rv b = Done (rv1, True)"
    and "load_segments file phs rv1 = Done (rv', True)"
    by (auto simp: bind_run_Done_iff split: if_splits)
  then show ?case
    using Cons.IH [of rv1] Cons.prems load_segment_keeps_placed by (meson list.set_intros)
qed simp

lemma load_segments_append:
  "load_segments file (xs @ ys) rv =
     bind_run (load_segments file xs rv) (\<lambda>(rv', ok).
       if ok then load_segments file ys rv' else Done (rv', False))"
  by (induction xs arbitrary: rv)
     (auto simp: bind_run_assoc split: prod.split intro!: arg_cong2 [where f = bind_run])

lemma load_segments_placed:
  assumes "load_segments file (pre @ a # post) rv = Done (rv', True)" and "p_type a = PT_LOAD"
    and "\<And>b. b \<in> set post \<Longrightarrow> p_type b = PT_LOAD \<Longrightarrow> apart a b"
  shows "placed file rv' a"
proof -
  obtain rv1 rv2 where a: "load_segment file rv1 a = Done (rv2, True)"
    and post: "load_segments file post rv2 = Done (rv', True)"
    using assms(1) by (auto simp: load_segments_append bind_run_Done_iff split: if_splits)
  have "0 \<le> sint (p_memsz a)"
    using load_segment_TrueD [OF a] assms(2) by auto
  then show ?thesis
    using load_segments_keep_placed [OF post load_segment_placed [OF a assms(2)]] assms(3) by blast
qed

text \<open>Loading changes nothing but the contents of the block.\<close>

definition only_mem_differs :: "rv \<Rightarrow> rv \<Rightarrow> bool" where
  "only_mem_differs rv rv' \<longleftrightarrow> rv' = rv\<lparr>mem := mem rv'\<rparr>"

lemma only_mem_differs_refl [simp]: "only_mem_differs rv rv"
  by (simp add: only_mem_differs_def)

lemma only_mem_differs_trans:
  "only_mem_differs a b \<Longrightarrow> only_mem_differs b c \<Longrightarrow> only_mem_differs a c"
  unfolding only_mem_differs_def by (cases a; cases b; cases c) simp


lemma only_mem_differs_write:
  "srv32_write_mem rv a n bs = Done (Some rv') \<Longrightarrow> only_mem_differs rv rv'"
  by (drule write_mem_SomeD(4)) (simp add: only_mem_differs_def block_store_def)

lemma only_mem_differs_frame:
  assumes "only_mem_differs rv rv'"
  shows "pc rv' = pc rv" and "prev_pc rv' = prev_pc rv" and "regs rv' = regs rv"
    and "csr rv' = csr rv" and "rv_static rv' = rv_static rv" and "mem_size rv' = mem_size rv"
    and "mem_base rv' = mem_base rv" and "mtime_update rv' = mtime_update rv"
    and "exitcode rv' = exitcode rv"
  using arg_cong [OF assms [unfolded only_mem_differs_def], of pc]
    arg_cong [OF assms [unfolded only_mem_differs_def], of prev_pc]
    arg_cong [OF assms [unfolded only_mem_differs_def], of regs]
    arg_cong [OF assms [unfolded only_mem_differs_def], of csr]
    arg_cong [OF assms [unfolded only_mem_differs_def], of rv_static]
    arg_cong [OF assms [unfolded only_mem_differs_def], of mem_size]
    arg_cong [OF assms [unfolded only_mem_differs_def], of mem_base]
    arg_cong [OF assms [unfolded only_mem_differs_def], of mtime_update]
    arg_cong [OF assms [unfolded only_mem_differs_def], of exitcode]
  by simp_all

lemma load_segment_only_mem:
  "load_segment file rv ph = Done (rv', ok) \<Longrightarrow> only_mem_differs rv rv'"
  unfolding load_segment_def
  by (auto simp: bind_run_Done_iff dest: only_mem_differs_write
      split: if_splits option.splits)

lemma load_segments_only_mem:
  "load_segments file phs rv = Done (rv', ok) \<Longrightarrow> only_mem_differs rv rv'"
proof (induction phs arbitrary: rv)
  case (Cons ph phs)
  obtain rv1 b where one: "load_segment file rv ph = Done (rv1, b)"
    and rest: "(if b then load_segments file phs rv1 else Done (rv1, False)) = Done (rv', ok)"
    using Cons.prems by (auto simp: bind_run_Done_iff)
  have "only_mem_differs rv1 rv'"
    using rest Cons.IH by (cases b) auto
  then show ?case
    using load_segment_only_mem [OF one] only_mem_differs_trans by blast
qed simp

lemma elf32_read_only_mem:
  "elf32_read file rv = Done (rv', ok) \<Longrightarrow> only_mem_differs rv rv'"
  unfolding elf32_read_def Let_def
  by (auto dest: load_segments_only_mem split: option.splits)

lemma elfloader_only_mem:
  "elfloader file rv = Done (rv', ok) \<Longrightarrow> only_mem_differs rv rv'"
  unfolding elfloader_def
  by (auto dest: elf32_read_only_mem split: option.splits if_splits)

subsection \<open>A file that loads\<close>

text \<open>The program headers the loader finds in a file.\<close>

definition elf_phdrs :: "u8 list \<Rightarrow> Elf32_Phdr list" where
  "elf_phdrs file =
     (let hdr = ehdr_of (take ehdr_size file); n = unat (e_phnum hdr)
      in phdrs_of (take (phdr_size * n) (drop (unat (e_phoff hdr)) file)) n)"

lemma fread_at_SomeD: "fread_at file off n = Some bs \<Longrightarrow> bs = take n (drop off file)"
  by (simp add: fread_at_def split: if_splits)

lemma elf32_read_TrueD:
  assumes "elf32_read file rv = Done (rv', True)"
  shows "load_segments file (elf_phdrs file) rv = Done (rv', True)"
proof -
  obtain hb pb where hb: "fread_at file 0 ehdr_size = Some hb"
    and pb: "fread_at file (unat (e_phoff (ehdr_of hb))) (phdr_size * unat (e_phnum (ehdr_of hb))) = Some pb"
    and "load_segments file (phdrs_of pb (unat (e_phnum (ehdr_of hb)))) rv = Done (rv', True)"
    using assms by (auto simp: elf32_read_def Let_def split: option.splits)
  then show ?thesis
    using fread_at_SomeD [OF hb] fread_at_SomeD [OF pb] by (simp add: elf_phdrs_def Let_def)
qed

lemma elfloader_TrueD:
  assumes "elfloader file rv = Done (rv', True)"
  obtains bytes where "file = Some bytes" "elf32_read bytes rv = Done (rv', True)"
    "bytes ! 0 = 0x7f \<or> bytes ! 1 = 0x45" "bytes ! EI_CLASS = 1"
  using assms
  by (auto simp: elfloader_def EI_NIDENT_def EI_CLASS_def fread_at_def split: option.splits if_splits)

lemma elfloader_places:
  assumes "elfloader (Some file) rv = Done (rv', True)"
    and "elf_phdrs file = pre @ ph # post" and "p_type ph = PT_LOAD"
    and "\<And>b. b \<in> set post \<Longrightarrow> p_type b = PT_LOAD \<Longrightarrow> apart ph b"
  shows "srv32_read_mem rv' (p_vaddr ph) (p_memsz ph) = Done (Some (segment_bytes file ph))"
proof -
  have "load_segments file (pre @ ph # post) rv = Done (rv', True)"
    using elfloader_TrueD [OF assms(1)] elf32_read_TrueD assms(2) by (metis option.inject)
  then show ?thesis
    using load_segments_placed assms(3,4) placed_def by blast
qed

text \<open>
  The loader reads \<open>p_memsz\<close> bytes of the file for a segment, also where \<open>p_filesz\<close> is
  smaller: a file that ends within the zero-initialised part of a segment does not load.
\<close>

lemma elfloader_needs_memsz:
  assumes "elfloader (Some file) rv = Done (rv', True)"
    and "ph \<in> set (elf_phdrs file)" and "p_type ph = PT_LOAD"
  shows "unat (p_offset ph) + unat (p_memsz ph) \<le> length file"
proof -
  obtain pre post where phs: "elf_phdrs file = pre @ ph # post"
    using assms(2) by (meson split_list)
  have "load_segments file (pre @ ph # post) rv = Done (rv', True)"
    using elfloader_TrueD [OF assms(1)] elf32_read_TrueD phs by (metis option.inject)
  then obtain rv1 rv2 where "load_segment file rv1 ph = Done (rv2, True)"
    by (auto simp: load_segments_append bind_run_Done_iff split: if_splits)
  then show ?thesis
    using assms(3)
    by (auto simp: load_segment_def dest: fread_sized_SomeD(5) split: option.splits)
qed

end
