(* ===== verification/Debug.thy ===== *)
theory Debug
  imports Syscall
begin

text \<open>
  The interactive debugger of \<open>tools/debug.c\<close>: the static variables of \<open>debug\<close>, the
  command reader with its \<open>trim\<close> and \<open>sscanf\<close> calls, every command, and the prompt loop.
  What is printed is a list of events; the disassembled text of \<open>show_pc\<close> is not part of
  them.
\<close>

subsection \<open>Console\<close>

text \<open>The events, one per call of \<open>printf\<close> that carries data.\<close>

datatype out =
    O_usage
  | O_prompt
  | O_inst i32 i64                 \<comment> \<open>address and instruction, \<open>show_pc\<close>\<close>
  | O_regs "i32 list"
  | O_counters "i64 list"
  | O_csrs "i32 list"
  | O_mem i32 "u8 option list"     \<comment> \<open>start and cells, \<open>None\<close> for a blank\<close>
  | O_pc i32
  | O_mem_size
  | O_unknown string

text \<open>
  \<open>con_gets\<close> is \<open>fgets(cmd, 1024, stdin)\<close>: the characters of the next line with its newline,
  or \<open>None\<close> at the end of the input. \<open>con_below\<close> is what lies in memory below the buffer
  \<open>cmd\<close>, nearest first, as far as it can be read; \<open>con_inst\<close> is the uninitialised local of
  \<open>show_pc\<close>.
\<close>

record 'w console =
  con_gets :: "'w \<Rightarrow> string option \<times> 'w"
  con_out :: "out \<Rightarrow> 'w \<Rightarrow> 'w"
  con_below :: string
  con_inst :: i64

subsection \<open>Reading a command\<close>

definition isspace_ascii :: "char \<Rightarrow> bool" where
  "isspace_ascii c \<longleftrightarrow> of_char c \<in> ({9, 10, 11, 12, 13, 32} :: nat set)"

text \<open>
  \<open>trim\<close>. The first loop walks down from the end of the string and does not test for its
  start: on a blank line it reads below the buffer, and \<open>l\<close> becomes negative when blanks
  are found there. The second loop skips the leading blanks.
\<close>

fun skip_back :: "string \<Rightarrow> int \<Rightarrow> int run" where
  "skip_back [] l = Fault OutOfBlock"
| "skip_back (c # cs) l = (if isspace_ascii c then skip_back cs (l - 1) else Done l)"

fun skip_blanks :: "string \<Rightarrow> nat" where
  "skip_blanks [] = 0"
| "skip_blanks (c # cs) = (if isspace_ascii c then Suc (skip_blanks cs) else 0)"

definition trim :: "string \<Rightarrow> string \<Rightarrow> string run" where
  "trim below s =
     bind_run (skip_back (rev s @ below) (int (length s))) (\<lambda>l.
       (let k = skip_blanks s in Done (take (nat (l - int k)) (drop k s))))"

text \<open>The conversion \<open>%i\<close> of \<open>sscanf\<close> into an \<open>int\<close>, through the 64-bit \<open>strtol\<close>.\<close>

definition digit_val :: "char \<Rightarrow> nat option" where
  "digit_val c =
     (let k = of_char c :: nat in
      if 48 \<le> k \<and> k \<le> 57 then Some (k - 48)
      else if 97 \<le> k \<and> k \<le> 102 then Some (k - 87)
      else if 65 \<le> k \<and> k \<le> 70 then Some (k - 55)
      else None)"

definition is_digit :: "nat \<Rightarrow> char \<Rightarrow> bool" where
  "is_digit b c \<longleftrightarrow> (case digit_val c of Some d \<Rightarrow> d < b | None \<Rightarrow> False)"

fun scan_digits :: "nat \<Rightarrow> nat \<Rightarrow> string \<Rightarrow> nat \<times> string" where
  "scan_digits b n [] = (n, [])"
| "scan_digits b n (c # cs) =
     (if is_digit b c then scan_digits b (n * b + the (digit_val c)) cs else (n, c # cs))"

definition scan_magnitude :: "string \<Rightarrow> (nat \<times> string) option" where
  "scan_magnitude s =
     (if take 2 s = ''0x'' \<or> take 2 s = ''0X''
      then (if 2 < length s \<and> is_digit 16 (s ! 2) then Some (scan_digits 16 0 (drop 2 s)) else None)
      else if s = [] \<or> \<not> is_digit 10 (hd s) then None
      else if hd s = CHR ''0'' then Some (scan_digits 8 0 s)
      else Some (scan_digits 10 0 s))"

definition to_long :: "int \<Rightarrow> int" where
  "to_long v = max (- (2 ^ 63)) (min (2 ^ 63 - 1) v)"

definition scan_i :: "string \<Rightarrow> (i32 \<times> string) option" where
  "scan_i s0 =
     (let s = drop (skip_blanks s0) s0;
          neg = (s \<noteq> [] \<and> hd s = CHR ''-'');
          s1 = (if s \<noteq> [] \<and> (hd s = CHR ''-'' \<or> hd s = CHR ''+'') then tl s else s)
      in case scan_magnitude s1 of
           None \<Rightarrow> None
         | Some (n, rest) \<Rightarrow>
             Some (word_of_int (to_long (if neg then - int n else int n)), rest))"

text \<open>\<open>sscanf(s, "word %i", &v)\<close> after the command word of length \<open>k\<close> has matched.\<close>

definition scan_arg :: "nat \<Rightarrow> string \<Rightarrow> i32 \<Rightarrow> i32" where
  "scan_arg k s v = (case scan_i (drop k s) of Some (x, _) \<Rightarrow> x | None \<Rightarrow> v)"

definition scan_args :: "nat \<Rightarrow> string \<Rightarrow> i32 \<times> i32" where
  "scan_args k s =
     (case scan_i (drop k s) of
        None \<Rightarrow> (0, 0)
      | Some (x, rest) \<Rightarrow> (x, case scan_i rest of Some (y, _) \<Rightarrow> y | None \<Rightarrow> 0))"

subsection \<open>Printing the state\<close>

text \<open>\<open>inst_length\<close> of \<open>riscv-disas.c\<close>, whose type \<open>rv_inst\<close> has 64 bits.\<close>

definition inst_length :: "i64 \<Rightarrow> nat" where
  "inst_length w =
     (if w AND 0x3 \<noteq> 0x3 then 2
      else if w AND 0x1c \<noteq> 0x1c then 4
      else if w AND 0x3f = 0x1f then 6
      else if w AND 0x7f = 0x3f then 8
      else 0)"

definition le_dword :: "u8 list \<Rightarrow> i64" where
  "le_dword bs = ucast (le_word (take 4 bs)) OR push_bit 32 (ucast (le_word (drop 4 bs)))"

text \<open>
  \<open>show_pc\<close> reads eight bytes, and prints the uninitialised variable where they are not all
  in memory.
\<close>

definition show_pc :: "'w console \<Rightarrow> rv \<Rightarrow> i32 \<Rightarrow> 'w \<Rightarrow> (nat \<times> 'w) run" where
  "show_pc con rv a w =
     bind_run (srv32_read_mem rv a 8) (\<lambda>r.
       (let inst = (case r of Some bs \<Rightarrow> le_dword bs | None \<Rightarrow> con_inst con)
        in Done (inst_length inst, con_out con (O_inst a inst) w)))"

definition dump_regs :: "config \<Rightarrow> 'w console \<Rightarrow> rv \<Rightarrow> 'w \<Rightarrow> 'w run" where
  "dump_regs cfg con rv w =
     bind_run (show_pc con rv (pc rv) w) (\<lambda>(_, w).
       Done (con_out con (O_regs (map (srv32_read_regs cfg rv) [0..<REGNUM cfg])) w))"

definition dump_csrs :: "'w console \<Rightarrow> rv \<Rightarrow> 'w \<Rightarrow> 'w" where
  "dump_csrs con rv w =
     (let c = csr rv in
      con_out con (O_csrs [mvendorid c, marchid c, mimpid c, mhartid c, mscratch c, mstatus c,
          mstatush c, misa c, mie c, mtvec c, mepc c, mcause c, mip c, mtval c, msip c])
        (con_out con (O_counters [c_time c, c_cycle c, c_instret c, c_mtime c, c_mtimecmp c]) w))"

text \<open>
  \<open>dump_mem\<close>. Divisions of an \<open>int\<close> round towards zero. The pointer may be null and the
  cells may lie outside the block: neither is checked before a byte is read.
\<close>

definition dump_start :: "i32 \<Rightarrow> i32" where
  "dump_start addr = word_of_int (sint addr sdiv 16 * 16)"

definition dump_total :: "i32 \<Rightarrow> i32 \<Rightarrow> i32" where
  "dump_total addr len = len + word_of_int (sint addr smod 16)"

definition dump_cell :: "rv \<Rightarrow> i32 \<Rightarrow> nat \<Rightarrow> u8 option run" where
  "dump_cell rv addr i =
     (if addr \<le>s dump_start addr + of_nat i
      then (case srv32_get_memptr rv (dump_start addr) of
              None \<Rightarrow> Fault NullPointer
            | Some off \<Rightarrow>
                if in_block rv (off + int i) 1 then Done (Some (mem rv (nat (off + int i))))
                else Fault OutOfBlock)
      else Done None)"

fun run_map :: "('a \<Rightarrow> 'b run) \<Rightarrow> 'a list \<Rightarrow> 'b list run" where
  "run_map f [] = Done []"
| "run_map f (x # xs) =
     bind_run (f x) (\<lambda>y. bind_run (run_map f xs) (\<lambda>ys. Done (y # ys)))"

definition dump_mem :: "'w console \<Rightarrow> rv \<Rightarrow> i32 \<Rightarrow> i32 \<Rightarrow> 'w \<Rightarrow> 'w run" where
  "dump_mem con rv addr len w =
     bind_run (run_map (dump_cell rv addr) [0..<nat (sint (dump_total addr len))]) (\<lambda>cells.
       Done (con_out con (O_mem (dump_start addr) cells) w))"

text \<open>The loop of the command \<open>list\<close>.\<close>

fun list_insts :: "'w console \<Rightarrow> rv \<Rightarrow> nat \<Rightarrow> i32 \<Rightarrow> 'w \<Rightarrow> 'w run" where
  "list_insts con rv 0 a w = Done w"
| "list_insts con rv (Suc n) a w =
     bind_run (show_pc con rv a w) (\<lambda>(len, w). list_insts con rv n (a + of_nat len) w)"

subsection \<open>The function \<open>debug\<close>\<close>

text \<open>Its static variables; \<open>cmd\<close> is written before it is read, so it is not part of them.\<close>

record dbg =
  running :: bool
  cmd_last :: string
  until_pc :: i32
  count :: i32
  count_en :: bool

text \<open>The statements before the prompt, on a run that is under way.\<close>

definition debug_running :: "'w console \<Rightarrow> rv \<Rightarrow> dbg \<Rightarrow> 'w \<Rightarrow> (dbg \<times> 'w) run" where
  "debug_running con rv d w =
     (let d1 = (if until_pc d = pc rv then d\<lparr>running := False, until_pc := 0\<rparr> else d) in
      if count_en d1
      then (if count d1 \<le>s 1 then Done (d1\<lparr>running := False, count_en := False\<rparr>, w)
            else bind_run (show_pc con rv (pc rv) w) (\<lambda>(_, w).
                   Done (d1\<lparr>count := count d1 - 1\<rparr>, w)))
      else Done (d1, w))"

text \<open>How a command ends: with \<open>continue\<close>, \<open>break\<close>, or a return of \<open>RV_EXIT\<close>.\<close>

datatype prompt = P_continue | P_break | P_exit

definition until_cmd :: "string \<Rightarrow> dbg \<Rightarrow> dbg" where
  "until_cmd cmd d = d\<lparr>until_pc := scan_arg 5 cmd 0, count_en := False, running := True\<rparr>"

definition step_cmd :: "string \<Rightarrow> dbg \<Rightarrow> dbg" where
  "step_cmd cmd d =
     (let n = scan_arg 4 cmd 1; d1 = d\<lparr>count_en := True, count := n\<rparr>
      in if 1 <s n then d1\<lparr>running := True\<rparr> else d1)"

definition debug_cmd ::
    "config \<Rightarrow> 'w console \<Rightarrow> rv \<Rightarrow> string \<Rightarrow> dbg \<Rightarrow> 'w \<Rightarrow> (dbg \<times> 'w \<times> prompt) run" where
  "debug_cmd cfg con rv cmd d w =
     (if cmd = ''help'' \<or> cmd = ''h'' then Done (d, con_out con O_usage w, P_continue)
      else if cmd = ''quit'' \<or> cmd = ''q'' then Done (d, w, P_exit)
      else if take 5 cmd = ''until'' then Done (until_cmd cmd d, w, P_break)
      else if cmd = ''regs'' then
        bind_run (dump_regs cfg con rv w) (\<lambda>w. Done (d, w, P_continue))
      else if take 3 cmd = ''mem'' then
        (let (addr, len) = scan_args 3 cmd in
         if len = 0 then Done (d, con_out con O_mem_size w, P_continue)
         else bind_run (dump_mem con rv addr len w) (\<lambda>w. Done (d, w, P_continue)))
      else if cmd = ''csrs'' then Done (d, dump_csrs con rv w, P_continue)
      else if cmd = ''pc'' then Done (d, con_out con (O_pc (pc rv)) w, P_continue)
      else if take 4 cmd = ''step'' then Done (step_cmd cmd d, w, P_break)
      else if take 4 cmd = ''list'' then
        bind_run (list_insts con rv (nat (sint (scan_arg 4 cmd 16))) (pc rv) w) (\<lambda>w.
          Done (d, w, P_continue))
      else Done (d, con_out con (O_unknown cmd) w, P_continue))"

text \<open>An empty line repeats the last command.\<close>

definition recall :: "string \<Rightarrow> dbg \<Rightarrow> string \<times> dbg" where
  "recall cmd d = (if cmd = [] then (cmd_last d, d) else (cmd, d\<lparr>cmd_last := cmd\<rparr>))"

text \<open>
  The prompt loop. It does not stop at the end of the input, where it is \<open>None\<close>: it prints
  the prompt for ever.
\<close>

partial_function (option) debug_prompt ::
    "config \<Rightarrow> 'w console \<Rightarrow> rv \<Rightarrow> dbg \<Rightarrow> 'w \<Rightarrow> (dbg \<times> 'w \<times> rvret) run option" where
  "debug_prompt cfg con rv d w =
     (case con_gets con (con_out con O_prompt w) of
        (None, w1) \<Rightarrow> debug_prompt cfg con rv d w1
      | (Some line, w1) \<Rightarrow>
          (case bind_run (trim (con_below con) line) (\<lambda>c.
              (let (cmd, d1) = recall c d in debug_cmd cfg con rv cmd d1 w1)) of
             Done (d2, w2, P_continue) \<Rightarrow> debug_prompt cfg con rv d2 w2
           | Done (d2, w2, P_break) \<Rightarrow> Some (Done (d2, w2, RV_OKAY))
           | Done (d2, w2, P_exit) \<Rightarrow> Some (Done (d2, w2, RV_EXIT))
           | Terminated k \<Rightarrow> Some (Terminated k)
           | Fault e \<Rightarrow> Some (Fault e)))"

definition debug ::
    "config \<Rightarrow> 'w console \<Rightarrow> rv \<Rightarrow> dbg \<Rightarrow> 'w \<Rightarrow> (dbg \<times> 'w \<times> rvret) run option" where
  "debug cfg con rv d w =
     (case (if running d then debug_running con rv d w else Done (d, w)) of
        Done (d1, w1) \<Rightarrow>
          (if running d1 then Some (Done (d1, w1, RV_OKAY))
           else (case dump_regs cfg con rv w1 of
                   Done w2 \<Rightarrow> debug_prompt cfg con rv d1 w2
                 | Terminated k \<Rightarrow> Some (Terminated k)
                 | Fault e \<Rightarrow> Some (Fault e)))
      | Terminated k \<Rightarrow> Some (Terminated k)
      | Fault e \<Rightarrow> Some (Fault e))"

end
