(* ===== verification/Simulator.thy ===== *)
theory Simulator
  imports Invariants Elfloader Debug
begin

text \<open>
  \<open>main\<close> of \<open>tools/rvsim.c\<close>: the defaults, the options, the memory block and the ELF file,
  the reset values of the registers, and the execution loop with or without the debugger.
  The steps of the hart are a relation, \<open>goes_on\<close>; the loop is shown to return exactly what
  a finite run of that relation ends with.
\<close>

subsection \<open>Start-up\<close>

definition MVENDORID :: i32 where "MVENDORID = 0"
definition MARCHID :: i32 where "MARCHID = 0"
definition MIMPID :: i32 where "MIMPID = 0"
definition MHARTID :: i32 where "MHARTID = 0"
definition BRANCH_PENALTY :: i32 where "BRANCH_PENALTY = 2"
definition MEMSIZE :: i32 where "MEMSIZE = 256"
definition MEMBASE :: i32 where "MEMBASE = 0"

definition MISA :: "config \<Rightarrow> i32" where
  "MISA cfg =
     push_bit 30 1 OR push_bit 12 (if RV32M cfg then 1 else 0) OR push_bit 8 1 OR
     push_bit 4 (if RV32E cfg then 1 else 0) OR push_bit 1 (if RV32B cfg then 1 else 0)"

text \<open>\<open>struct rv\<close> after \<open>memset\<close>.\<close>

definition zero_csrs :: csrs where
  "zero_csrs =
     \<lparr>c_time = 0, c_cycle = 0, c_instret = 0, c_mtime = 0, c_mtimecmp = 0, mvendorid = 0,
      marchid = 0, mimpid = 0, mhartid = 0, mscratch = 0, mstatus = 0, mstatush = 0, misa = 0,
      mie = 0, mtvec = 0, mepc = 0, mcause = 0, mip = 0, mtval = 0, msip = 0, medeleg = 0,
      mideleg = 0, mcounteren = 0, sstatus = 0, sie = 0, stvec = 0, sscratch = 0, sepc = 0,
      scause = 0, stval = 0, sip = 0, satp = 0\<rparr>"

definition zero_rv :: "config \<Rightarrow> rv" where
  "zero_rv cfg =
     \<lparr>pc = 0, prev_pc = 0, regs = replicate (REGNUM cfg) 0, csr = zero_csrs, debug_en = False,
      branch_penalty = 0, branch_predict = False, mem_size = 0, mem_base = 0, mem = (\<lambda>_. 0),
      singleram = False, mtime_update = False, exitcode = 0\<rparr>"

definition default_rv :: "config \<Rightarrow> rv" where
  "default_rv cfg =
     (zero_rv cfg)\<lparr>branch_penalty := BRANCH_PENALTY, mem_size := MEMSIZE * 2 * 1024,
        mem_base := MEMBASE\<rparr>"

text \<open>
  The options, as \<open>getopt_long\<close> delivers them, with the value \<open>atoi\<close> or \<open>sscanf\<close> reads
  from the argument (\<open>None\<close> where \<open>sscanf\<close> matches nothing and leaves the member as it is).
\<close>

datatype opt =
    Opt_help
  | Opt_gdb i32
  | Opt_debug
  | Opt_branch i32
  | Opt_predict
  | Opt_log string
  | Opt_quiet
  | Opt_membase "i32 option"
  | Opt_memsize "i32 option"
  | Opt_single
  | Opt_unknown

text \<open>One turn of the option loop on the state and the GDB port; \<open>None\<close> is \<open>return 1\<close>.\<close>

fun apply_opt :: "bool \<Rightarrow> opt \<Rightarrow> rv \<times> i32 \<Rightarrow> (rv \<times> i32) option" where
  "apply_opt gdbstub Opt_help (rv, port) = None"
| "apply_opt gdbstub (Opt_gdb p) (rv, port) = (if gdbstub then Some (rv, p) else None)"
| "apply_opt gdbstub Opt_debug (rv, port) = Some (rv\<lparr>debug_en := True\<rparr>, port)"
| "apply_opt gdbstub (Opt_branch n) (rv, port) = Some (rv\<lparr>branch_penalty := n\<rparr>, port)"
| "apply_opt gdbstub Opt_predict (rv, port) = Some (rv\<lparr>branch_predict := True\<rparr>, port)"
| "apply_opt gdbstub (Opt_log f) (rv, port) = Some (rv, port)"
| "apply_opt gdbstub Opt_quiet (rv, port) = Some (rv, port)"
| "apply_opt gdbstub (Opt_membase v) (rv, port) =
     Some (rv\<lparr>mem_base := (case v of Some b \<Rightarrow> b | None \<Rightarrow> mem_base rv)\<rparr>, port)"
| "apply_opt gdbstub (Opt_memsize v) (rv, port) =
     Some (rv\<lparr>mem_size := (case v of Some n \<Rightarrow> n | None \<Rightarrow> mem_size rv) * (2 * 1024)\<rparr>, port)"
| "apply_opt gdbstub Opt_single (rv, port) = Some (rv\<lparr>singleram := True\<rparr>, port)"
| "apply_opt gdbstub Opt_unknown (rv, port) = None"

fun apply_opts :: "bool \<Rightarrow> opt list \<Rightarrow> rv \<times> i32 \<Rightarrow> (rv \<times> i32) option" where
  "apply_opts gdbstub [] s = Some s"
| "apply_opts gdbstub (o' # os) s =
     (case apply_opt gdbstub o' s of None \<Rightarrow> None | Some s' \<Rightarrow> apply_opts gdbstub os s')"

text \<open>The loop that clears the registers, and the reset values of the CSRs.\<close>

definition clear_regs :: "config \<Rightarrow> rv \<Rightarrow> rv" where
  "clear_regs cfg rv = fold (\<lambda>i r. srv32_write_regs cfg r i 0) [0..<REGNUM cfg] rv"

definition reset :: "config \<Rightarrow> rv \<Rightarrow> rv" where
  "reset cfg rv =
     (let r1 = clear_regs cfg rv;
          r2 = r1\<lparr>csr := (csr r1)\<lparr>mvendorid := MVENDORID, marchid := MARCHID, mimpid := MIMPID,
                 mhartid := MHARTID, misa := MISA cfg, c_time := 0, c_cycle := 0,
                 c_instret := 0, c_mtime := 0, c_mtimecmp := 0\<rparr>,
               pc := mem_base r1\<rparr>
      in r2\<lparr>prev_pc := pc r2\<rparr>)"

text \<open>
  From the options to the execution loop. The allocation of a negative size fails, as the
  size is converted to \<open>size_t\<close>; other allocations are taken to succeed.
\<close>

definition boot :: "config \<Rightarrow> u8 list option \<Rightarrow> rv \<Rightarrow> rv run" where
  "boot cfg file rv =
     (if mem_size rv <s 0 then Terminated 1
      else bind_run (elfloader file (rv\<lparr>mem := (\<lambda>_. 0)\<rparr>)) (\<lambda>(rv', ok).
             if ok then Done (reset cfg rv') else Terminated 1))"

definition zero_statics :: statics where
  "zero_statics =
     \<lparr>compressed_prev = False, timer_irq = False, sw_irq = False, sw_irq_next = False,
      ext_irq = False, ext_irq_next = False, overhead = 0\<rparr>"

definition zero_dbg :: dbg where
  "zero_dbg = \<lparr>running = False, cmd_last = [], until_pc = 0, count = 0, count_en = False\<rparr>"

definition start :: "rv \<Rightarrow> 'w \<Rightarrow> 'w sim" where
  "start rv w = \<lparr>cpu = rv, st = zero_statics, result = 0, world = w\<rparr>"

subsection \<open>The execution loop\<close>

definition enter_debug ::
    "config \<Rightarrow> 'w console \<Rightarrow> dbg \<Rightarrow> 'w sim \<Rightarrow> (dbg \<times> 'w sim \<times> rvret) run option" where
  "enter_debug cfg con d s =
     (if debug_en (cpu s)
      then map_option (\<lambda>r. bind_run r (\<lambda>(d', w', ret). Done (d', s\<lparr>world := w'\<rparr>, ret)))
             (debug cfg con (cpu s) d (world s))
      else Some (Done (d, s, RV_OKAY)))"

partial_function (option) exec_loop ::
    "config \<Rightarrow> 'w host \<Rightarrow> 'w console \<Rightarrow> dbg \<Rightarrow> 'w sim \<Rightarrow> 'w sim run option" where
  "exec_loop cfg h con d s =
     (case enter_debug cfg con d s of
        None \<Rightarrow> None
      | Some (Terminated k) \<Rightarrow> Some (Terminated k)
      | Some (Fault e) \<Rightarrow> Some (Fault e)
      | Some (Done (d', s1, r)) \<Rightarrow>
          if r = RV_EXIT then Some (Done s1)
          else (case srv32_step cfg h s1 of
                  Terminated k \<Rightarrow> Some (Terminated k)
                | Fault e \<Rightarrow> Some (Fault e)
                | Done (s2, r2) \<Rightarrow>
                    if r2 = RV_EXIT then Some (Done s2) else exec_loop cfg h con d' s2))"

text \<open>
  \<open>main\<close>: the options, whether an input file is named and what it holds. A session with GDB
  is a function of the library \<open>mini-gdbstub\<close>, which calls back the functions of theory
  \<open>Gdbstub\<close>; it is the parameter \<open>session\<close>.
\<close>

definition main ::
    "config \<Rightarrow> bool \<Rightarrow> 'w host \<Rightarrow> 'w console \<Rightarrow> (i32 \<Rightarrow> 'w sim \<Rightarrow> 'w sim run option) \<Rightarrow>
     opt list \<Rightarrow> bool \<Rightarrow> u8 list option \<Rightarrow> 'w \<Rightarrow> unit run option" where
  "main cfg gdbstub h con session opts named file w =
     (case apply_opts gdbstub opts (default_rv cfg, 0) of
        None \<Rightarrow> Some (Terminated 1)
      | Some (rv, port) \<Rightarrow>
          if \<not> named then Some (Terminated 1)
          else (case boot cfg file rv of
                  Terminated k \<Rightarrow> Some (Terminated k)
                | Fault e \<Rightarrow> Some (Fault e)
                | Done rv' \<Rightarrow>
                    map_option (\<lambda>r. bind_run r (\<lambda>s. prog_exit (cpu s)))
                      (if port \<noteq> 0 then session port (start rv' w)
                       else exec_loop cfg h con zero_dbg (start rv' w))))"

subsection \<open>What start-up establishes\<close>

lemma clear_regs_eq: "length (regs rv) = REGNUM cfg \<Longrightarrow> clear_regs cfg rv = rv\<lparr>regs := replicate (REGNUM cfg) 0\<rparr>"
proof -
  assume len: "length (regs rv) = REGNUM cfg"
  have "fold (\<lambda>i r. srv32_write_regs cfg r i 0) [0..<n] rv =
      rv\<lparr>regs := replicate n 0 @ drop n (regs rv)\<rparr>" if "n \<le> REGNUM cfg" for n
    using that
  proof (induction n)
    case (Suc n)
    then show ?case
      using len by (simp add: srv32_write_regs_def list_update_append replicate_append_same
          flip: Cons_nth_drop_Suc)
  qed simp
  from this [of "REGNUM cfg"] show ?thesis using len by (simp add: clear_regs_def)
qed

lemma apply_opt_regs: "apply_opt g o' (rv, p) = Some (rv', p') \<Longrightarrow>
    length (regs rv') = length (regs rv) \<and> csr rv' = csr rv"
  by (cases o') (auto split: if_splits)

lemma apply_opts_regs: "apply_opts g os (rv, p) = Some (rv', p') \<Longrightarrow>
    length (regs rv') = length (regs rv) \<and> csr rv' = csr rv"
proof (induction os arbitrary: rv p)
  case (Cons a os)
  then obtain rv1 p1 where "apply_opt g a (rv, p) = Some (rv1, p1)"
    and "apply_opts g os (rv1, p1) = Some (rv', p')"
    by (auto split: option.splits)
  then show ?case using Cons.IH apply_opt_regs by metis
qed simp

text \<open>The state in which the first instruction is executed.\<close>

definition reset_state :: "config \<Rightarrow> rv \<Rightarrow> bool" where
  "reset_state cfg rv \<longleftrightarrow>
     pc rv = mem_base rv \<and> prev_pc rv = mem_base rv \<and> regs rv = replicate (REGNUM cfg) 0 \<and>
     c_time (csr rv) = 0 \<and> c_instret (csr rv) = 0 \<and> c_cycle (csr rv) = 0 \<and>
     mstatus (csr rv) = 0 \<and> mie (csr rv) = 0 \<and> mip (csr rv) = 0 \<and>
     misa (csr rv) = MISA cfg"

lemma boot_DoneD:
  assumes "boot cfg file rv = Done rv'"
  obtains rv1 where "elfloader file (rv\<lparr>mem := (\<lambda>_. 0)\<rparr>) = Done (rv1, True)"
    and "rv' = reset cfg rv1" and "only_mem_differs rv rv1" and "0 \<le> sint (mem_size rv)"
proof -
  obtain rv1 where rv1: "elfloader file (rv\<lparr>mem := (\<lambda>_. 0)\<rparr>) = Done (rv1, True)"
    and "rv' = reset cfg rv1" and "0 \<le> sint (mem_size rv)"
    using assms by (auto simp: boot_def bind_run_Done_iff word_sless_alt split: if_splits)
  moreover have "only_mem_differs rv rv1"
    using elfloader_only_mem [OF rv1] by (simp add: only_mem_differs_def)
  ultimately show thesis using that by blast
qed

lemma boot_resets:
  assumes "apply_opts g os (default_rv cfg, 0) = Some (rv, port)"
    and "boot cfg file rv = Done rv'"
  shows "reset_state cfg rv' \<and> mem_size rv' = mem_size rv \<and> mem_base rv' = mem_base rv \<and>
    debug_en rv' = debug_en rv"
proof -
  obtain rv1 where rv1: "rv' = reset cfg rv1" "only_mem_differs rv rv1"
    using assms(2) by (rule boot_DoneD)
  have rv: "length (regs rv) = REGNUM cfg" "csr rv = zero_csrs"
    using apply_opts_regs [OF assms(1)] by (simp_all add: default_rv_def zero_rv_def)
  note frame = only_mem_differs_frame [OF rv1(2)]
  have "length (regs rv1) = REGNUM cfg" "csr rv1 = zero_csrs"
    using rv frame by simp_all
  moreover have "debug_en rv1 = debug_en rv"
    using frame(5) by (simp add: rv_static_eq_iff)
  ultimately show ?thesis
    using frame by (simp add: rv1(1) reset_def Let_def clear_regs_eq reset_state_def zero_csrs_def)
qed

text \<open>The memory holds the segments of the file.\<close>

lemma boot_places:
  assumes "boot cfg (Some file) rv = Done rv'"
    and "elf_phdrs file = pre @ ph # post" and "p_type ph = PT_LOAD"
    and "\<And>b. b \<in> set post \<Longrightarrow> p_type b = PT_LOAD \<Longrightarrow> apart ph b"
    and "length (regs rv) = REGNUM cfg"
  shows "srv32_read_mem rv' (p_vaddr ph) (p_memsz ph) = Done (Some (segment_bytes file ph))"
proof -
  obtain rv1 where rv1: "elfloader (Some file) (rv\<lparr>mem := (\<lambda>_. 0)\<rparr>) = Done (rv1, True)"
    "rv' = reset cfg rv1" "only_mem_differs rv rv1"
    using assms(1) by (rule boot_DoneD)
  have "length (regs rv1) = REGNUM cfg"
    using only_mem_differs_frame(3) [OF rv1(3)] assms(5) by simp
  then have "srv32_read_mem rv' a n = srv32_read_mem rv1 a n" for a n
    by (simp add: rv1(2) reset_def Let_def clear_regs_eq srv32_read_mem_def range_check_def
        in_block_def block_bytes_def)
  then show ?thesis using elfloader_places [OF rv1(1) assms(2-4)] by simp
qed

subsection \<open>Runs of the hart\<close>

text \<open>A step after which the loop goes on, and a state in which it ends.\<close>

inductive goes_on :: "config \<Rightarrow> 'w host \<Rightarrow> 'w sim \<Rightarrow> 'w sim \<Rightarrow> bool" for cfg h where
  goes_on: "srv32_step cfg h s = Done (s', r) \<Longrightarrow> r \<noteq> RV_EXIT \<Longrightarrow> goes_on cfg h s s'"

inductive_cases goes_onE: "goes_on cfg h s s'"

inductive halts :: "config \<Rightarrow> 'w host \<Rightarrow> 'w sim \<Rightarrow> 'w sim run \<Rightarrow> bool" for cfg h where
  halts_exit: "srv32_step cfg h s = Done (s', RV_EXIT) \<Longrightarrow> halts cfg h s (Done s')"
| halts_end: "srv32_step cfg h s = Terminated k \<Longrightarrow> halts cfg h s (Terminated k)"
| halts_fault: "srv32_step cfg h s = Fault e \<Longrightarrow> halts cfg h s (Fault e)"

inductive_cases halts_DoneE: "halts cfg h s (Done s')"
inductive_cases haltsE: "halts cfg h s r"

inductive runs :: "config \<Rightarrow> 'w host \<Rightarrow> nat \<Rightarrow> 'w sim \<Rightarrow> 'w sim \<Rightarrow> bool" for cfg h where
  runs_0: "runs cfg h 0 s s"
| runs_Suc: "goes_on cfg h s s1 \<Longrightarrow> runs cfg h n s1 s2 \<Longrightarrow> runs cfg h (Suc n) s s2"

inductive_simps runs_0_iff [simp]: "runs cfg h 0 s s'"
inductive_simps runs_Suc_iff: "runs cfg h (Suc n) s s'"

lemma goes_on_or_halts: "(\<exists>s'. goes_on cfg h s s') \<or> (\<exists>r. halts cfg h s r)"
  by (cases "srv32_step cfg h s") (auto intro: goes_on.intros halts.intros)

lemma goes_on_counts:
  "goes_on cfg h s s' \<Longrightarrow> rv_static (cpu s') = rv_static (cpu s) \<and>
     c_time (csr (cpu s')) = c_time (csr (cpu s)) + 1 \<and>
     c_instret (csr (cpu s')) = c_instret (csr (cpu s)) + 1"
  using run_allD [OF step_counts [of s cfg h]] by (auto elim!: goes_onE simp: counted_def)

text \<open>Every instruction of a run is counted once, whatever the program does.\<close>

lemma runs_count:
  "runs cfg h n s s' \<Longrightarrow> rv_static (cpu s') = rv_static (cpu s) \<and>
     c_time (csr (cpu s')) = c_time (csr (cpu s)) + of_nat n \<and>
     c_instret (csr (cpu s')) = c_instret (csr (cpu s)) + of_nat n"
  by (induction rule: runs.induct) (use goes_on_counts in force)+

lemma rv_static_debug_en: "rv_static rv' = rv_static rv \<Longrightarrow> debug_en rv' = debug_en rv"
  by (simp add: rv_static_eq_iff)

subsection \<open>The loop without the debugger\<close>

lemma exec_loop_goes_on:
  assumes "enter_debug cfg con d s = Some (Done (d', s, RV_OKAY))" and "goes_on cfg h s s'"
  shows "exec_loop cfg h con d s = exec_loop cfg h con d' s'"
  using assms(2) by (rule goes_onE) (subst exec_loop.simps, simp add: assms(1))

lemma exec_loop_halts:
  assumes "enter_debug cfg con d s = Some (Done (d', s, RV_OKAY))" and "halts cfg h s r"
  shows "exec_loop cfg h con d s = Some r"
  using assms(2) by (rule haltsE) (subst exec_loop.simps, simp add: assms(1))+

lemma enter_debug_off [simp]:
  "\<not> debug_en (cpu s) \<Longrightarrow> enter_debug cfg con d s = Some (Done (d, s, RV_OKAY))"
  by (simp add: enter_debug_def)

lemma exec_loop_runs:
  assumes "runs cfg h n s s'" and "\<not> debug_en (cpu s)"
  shows "exec_loop cfg h con d s = exec_loop cfg h con d s'"
  using assms
proof (induction rule: runs.induct)
  case (runs_Suc s s1 n s2)
  then show ?case
    using exec_loop_goes_on [OF enter_debug_off] rv_static_debug_en goes_on_counts by metis
qed simp

lemma exec_loop_SomeD:
  assumes "exec_loop cfg h con d s = Some r"
  shows "\<not> debug_en (cpu s) \<longrightarrow> (\<exists>n s1. runs cfg h n s s1 \<and> halts cfg h s1 r)"
proof (rule exec_loop.raw_induct [OF _ assms, where P = "\<lambda>cfg h con d s r.
    \<not> debug_en (cpu s) \<longrightarrow> (\<exists>n s1. runs cfg h n s s1 \<and> halts cfg h s1 r)"], goal_cases)
  case (1 loop cfg h con d s r)
  show ?case
  proof
    assume off: "\<not> debug_en (cpu s)"
    show "\<exists>n s1. runs cfg h n s s1 \<and> halts cfg h s1 r"
    proof (cases "\<exists>s'. goes_on cfg h s s'")
      case True
      then obtain s' where s': "goes_on cfg h s s'" ..
      then have "loop cfg h con d s' = Some r"
        using 1(2) off by (auto elim: goes_onE)
      moreover have "\<not> debug_en (cpu s')"
        using off goes_on_counts [OF s'] rv_static_debug_en by metis
      ultimately obtain n s1 where "runs cfg h n s' s1" "halts cfg h s1 r"
        using 1(1) by blast
      then show ?thesis using s' runs_Suc by blast
    next
      case False
      then obtain r' where r': "halts cfg h s r'" using goes_on_or_halts by blast
      then have "r' = r" using 1(2) off by (auto elim!: haltsE)
      then show ?thesis using r' runs_0 by blast
    qed
  qed
qed

text \<open>The loop returns exactly when a run of the hart ends, with what it ends with.\<close>

lemma exec_loop_Some_iff:
  assumes "\<not> debug_en (cpu s)"
  shows "exec_loop cfg h con d s = Some r \<longleftrightarrow>
    (\<exists>n s1. runs cfg h n s s1 \<and> halts cfg h s1 r)"
proof
  assume "\<exists>n s1. runs cfg h n s s1 \<and> halts cfg h s1 r"
  then obtain n s1 where run: "runs cfg h n s s1" and "halts cfg h s1 r" by blast
  moreover have "\<not> debug_en (cpu s1)"
    using assms runs_count [OF run] rv_static_debug_en by metis
  ultimately show "exec_loop cfg h con d s = Some r"
    using exec_loop_runs [OF run assms] exec_loop_halts [OF enter_debug_off] by metis
qed (use exec_loop_SomeD assms in blast)

subsection \<open>The loop under the debugger\<close>

text \<open>A console whose output does not act on the outside world the program sees.\<close>

definition silent :: "'w console \<Rightarrow> bool" where
  "silent con \<longleftrightarrow> (\<forall>e w. con_out con e w = w)"

definition shows_pc :: "rv \<Rightarrow> bool" where
  "shows_pc rv \<longleftrightarrow> (case srv32_read_mem rv (pc rv) 8 of Done _ \<Rightarrow> True | _ \<Rightarrow> False)"

lemma show_pc_silent: "silent con \<Longrightarrow> shows_pc rv \<Longrightarrow> \<exists>n. show_pc con rv (pc rv) w = Done (n, w)"
  by (auto simp: show_pc_def shows_pc_def silent_def Let_def split: run.splits)

lemma dump_regs_silent: "silent con \<Longrightarrow> shows_pc rv \<Longrightarrow> dump_regs cfg con rv w = Done w"
  using show_pc_silent [of con rv w] by (auto simp: dump_regs_def silent_def)

text \<open>\<open>until\<close>: nothing is printed before the address is reached.\<close>

lemma until_runs:
  assumes "runs cfg h n s s'" and "debug_en (cpu s)" and "running d" and "\<not> count_en d"
    and "\<And>k sk. k < n \<Longrightarrow> runs cfg h k s sk \<Longrightarrow> pc (cpu sk) \<noteq> until_pc d"
  shows "exec_loop cfg h con d s = exec_loop cfg h con d s'"
  using assms
proof (induction rule: runs.induct)
  case (runs_Suc s s1 n s2)
  have "pc (cpu s) \<noteq> until_pc d"
    using runs_Suc.prems(4) [of 0] by simp
  then have "enter_debug cfg con d s = Some (Done (d, s, RV_OKAY))"
    using runs_Suc.prems by (auto simp: enter_debug_def debug_def debug_running_def Let_def)
  then have "exec_loop cfg h con d s = exec_loop cfg h con d s1"
    by (rule exec_loop_goes_on) (rule runs_Suc.hyps)
  also have "\<dots> = exec_loop cfg h con d s2"
  proof (rule runs_Suc.IH)
    show "debug_en (cpu s1)"
      using runs_Suc.prems(1) goes_on_counts [OF runs_Suc.hyps(1)] rv_static_debug_en by metis
    show "pc (cpu sk) \<noteq> until_pc d" if "k < n" "runs cfg h k s1 sk" for k sk
      using runs_Suc.prems(4) [of "Suc k" sk] that runs.runs_Suc [OF runs_Suc.hyps(1)] by auto
  qed (use runs_Suc.prems in auto)
  finally show ?case .
qed simp

text \<open>At the address the debugger stops: the loop is that of a debugger that is not running.\<close>

lemma exec_loop_cong:
  "enter_debug cfg con d s = enter_debug cfg con d' s \<Longrightarrow>
   exec_loop cfg h con d s = exec_loop cfg h con d' s"
  by (simp only: exec_loop.simps [of cfg h con d s] exec_loop.simps [of cfg h con d' s])

lemma until_stops:
  assumes "running d" and "\<not> count_en d" and "pc (cpu s) = until_pc d" and "debug_en (cpu s)"
  shows "exec_loop cfg h con d s =
    exec_loop cfg h con (d\<lparr>running := False, until_pc := 0\<rparr>) s"
  by (rule exec_loop_cong)
     (use assms in \<open>simp add: enter_debug_def debug_def debug_running_def Let_def\<close>)

text \<open>\<open>step n\<close>: every instruction but the first is shown before it is executed.\<close>

lemma count_pred:
  fixes n :: i32
  assumes "1 < sint n"
  shows "sint (n - 1) = sint n - 1"
proof -
  have "sint n - 1 < 2 ^ 31" using sint_lt [of n] by simp
  then show ?thesis
    using assms by (simp add: sint_word_ariths signed_take_bit_int_eq_self)
qed

lemma steps_run:
  assumes "runs cfg h n s s'" and "silent con" and "debug_en (cpu s)" and "running d"
    and "count_en d" and "int n < sint (count d)"
    and "\<And>k sk. k < n \<Longrightarrow> runs cfg h k s sk \<Longrightarrow>
      pc (cpu sk) \<noteq> until_pc d \<and> shows_pc (cpu sk)"
  shows "exec_loop cfg h con d s = exec_loop cfg h con (d\<lparr>count := count d - of_nat n\<rparr>) s'"
  using assms
proof (induction arbitrary: d rule: runs.induct)
  case (runs_0 s)
  then show ?case by simp
next
  case (runs_Suc s s1 n s2)
  have here: "pc (cpu s) \<noteq> until_pc d" "shows_pc (cpu s)"
    using runs_Suc.prems(6) [of 0] by simp_all
  have more: "1 < sint (count d)" using runs_Suc.prems(5) by linarith
  then have not1: "\<not> count d \<le>s 1" by (simp add: word_sle_eq)
  let ?d = "d\<lparr>count := count d - 1\<rparr>"
  obtain k where k: "show_pc con (cpu s) (pc (cpu s)) (world s) = Done (k, world s)"
    using show_pc_silent [OF runs_Suc.prems(1) here(2)] by metis
  have "debug_running con (cpu s) d (world s) = Done (?d, world s)"
    by (simp only: debug_running_def Let_def bind_run.simps if_False if_True prod.case
        here(1) [symmetric] runs_Suc.prems(4) not1 k)
  then have "enter_debug cfg con d s = Some (Done (?d, s, RV_OKAY))"
    using runs_Suc.prems(2,3) by (simp add: enter_debug_def debug_def)
  then have "exec_loop cfg h con d s = exec_loop cfg h con ?d s1"
    by (rule exec_loop_goes_on) (rule runs_Suc.hyps)
  also have "\<dots> = exec_loop cfg h con (?d\<lparr>count := count ?d - of_nat n\<rparr>) s2"
  proof (rule runs_Suc.IH)
    show "silent con" "running ?d" "count_en ?d" using runs_Suc.prems(1,3,4) by simp_all
    show "debug_en (cpu s1)"
      using runs_Suc.prems(2) goes_on_counts [OF runs_Suc.hyps(1)] rv_static_debug_en by metis
    show "int n < sint (count ?d)"
      using runs_Suc.prems(5) count_pred [OF more] by simp
    show "pc (cpu sk) \<noteq> until_pc ?d \<and> shows_pc (cpu sk)" if "k < n" "runs cfg h k s1 sk" for k sk
      using runs_Suc.prems(6) [of "Suc k" sk] that runs.runs_Suc [OF runs_Suc.hyps(1)] by simp
  qed
  finally show ?case by (simp add: diff_diff_eq)
qed

lemma steps_stop:
  assumes "running d" and "count_en d" and "count d = 1" and "pc (cpu s) \<noteq> until_pc d"
    and "debug_en (cpu s)"
  shows "exec_loop cfg h con d s = exec_loop cfg h con (d\<lparr>running := False, count_en := False\<rparr>) s"
  by (rule exec_loop_cong)
     (use assms in \<open>simp add: enter_debug_def debug_def debug_running_def Let_def word_sle_eq\<close>)

text \<open>The prompt on a line that is a command \<open>step\<close>.\<close>

lemma enter_debug_step:
  assumes "silent con" and "debug_en (cpu s)" and "\<not> running d" and "shows_pc (cpu s)"
    and "con_gets con (world s) = (Some line, w)" and "trim (con_below con) line = Done cmd"
    and "take 4 cmd = ''step''"
  shows "enter_debug cfg con d s =
    Some (Done (step_cmd cmd (d\<lparr>cmd_last := cmd\<rparr>), s\<lparr>world := w\<rparr>, RV_OKAY))"
proof -
  have ne: "cmd \<noteq> []" using assms(7) by auto
  have no: "cmd \<noteq> ''help''" "cmd \<noteq> ''h''" "cmd \<noteq> ''quit''" "cmd \<noteq> ''q''" "cmd \<noteq> ''regs''"
    "cmd \<noteq> ''csrs''" "cmd \<noteq> ''pc''" using assms(7) by auto
  have no2: "take 5 cmd \<noteq> ''until''" "take 3 cmd \<noteq> ''mem''"
    using arg_cong [OF assms(7), of "take 1"] by (auto dest: arg_cong [where f = "take 1"])
  have "dump_regs cfg con (cpu s) (world s) = Done (world s)"
    by (rule dump_regs_silent [OF assms(1,4)])
  moreover have "con_out con O_prompt (world s) = world s"
    using assms(1) by (simp add: silent_def)
  ultimately show ?thesis
    using assms ne no no2
    by (simp add: enter_debug_def debug_def debug_prompt.simps [of cfg con "cpu s" d] recall_def
        debug_cmd_def)
qed

lemma step_command:
  assumes con: "silent con" and en: "debug_en (cpu s)" "\<not> running d" and "shows_pc (cpu s)"
    and line: "con_gets con (world s) = (Some line, w)" "trim (con_below con) line = Done cmd"
      "take 4 cmd = ''step''"
    and n: "1 < n" "n < 2 ^ 31" "scan_arg 4 cmd 1 = of_nat n"
    and run: "runs cfg h n (s\<lparr>world := w\<rparr>) s'"
    and path: "\<And>k sk. 0 < k \<Longrightarrow> k \<le> n \<Longrightarrow> runs cfg h k (s\<lparr>world := w\<rparr>) sk \<Longrightarrow>
      pc (cpu sk) \<noteq> until_pc d \<and> shows_pc (cpu sk)"
  shows "exec_loop cfg h con d s =
    exec_loop cfg h con (d\<lparr>cmd_last := cmd, count := 1, count_en := False\<rparr>) s'"
proof -
  let ?s = "s\<lparr>world := w\<rparr>"
  let ?d = "d\<lparr>cmd_last := cmd, count := of_nat n, count_en := True, running := True\<rparr>"
  have sn: "sint (of_nat n :: i32) = int n"
    using n(2) by (simp add: signed_of_nat signed_take_bit_int_eq_self)
  have step: "step_cmd cmd (d\<lparr>cmd_last := cmd\<rparr>) = ?d"
    using n(1,3) sn by (simp add: step_cmd_def Let_def word_sless_alt)
  obtain m s1 where m: "n = Suc m" and s1: "goes_on cfg h ?s s1" and rest: "runs cfg h m s1 s'"
    using run n(1) by (cases n) (auto simp: runs_Suc_iff)
  have en1: "debug_en (cpu s1)"
    using en(1) goes_on_counts [OF s1] rv_static_debug_en by (metis sim.select_convs(1) sim.update_convs(4) sim.surjective)
  have "exec_loop cfg h con d s = exec_loop cfg h con ?d s1"
    using s1 enter_debug_step [OF con en assms(4) line, of cfg]
    by (auto elim!: goes_onE) (subst exec_loop.simps, simp add: step)
  also have "\<dots> = exec_loop cfg h con (?d\<lparr>count := count ?d - of_nat m\<rparr>) s'"
  proof (rule steps_run [OF rest con en1])
    show "pc (cpu sk) \<noteq> until_pc ?d \<and> shows_pc (cpu sk)" if "k < m" "runs cfg h k s1 sk" for k sk
      using path [of "Suc k" sk] that m runs_Suc [OF s1] by auto
  qed (use sn m in simp_all)
  also have "\<dots> = exec_loop cfg h con
      (?d\<lparr>count := count ?d - of_nat m, running := False, count_en := False\<rparr>) s'"
  proof -
    have "pc (cpu s') \<noteq> until_pc d" using path [OF _ _ run] n(1) by simp
    moreover have "debug_en (cpu s')"
      using en1 runs_count [OF rest] rv_static_debug_en by metis
    ultimately show ?thesis
      by (subst steps_stop) (simp_all add: m)
  qed
  also have "?d\<lparr>count := count ?d - of_nat m, running := False, count_en := False\<rparr> =
      d\<lparr>cmd_last := cmd, count := 1, count_en := False\<rparr>"
    using en(2) by (cases d) (simp add: m)
  finally show ?thesis .
qed

text \<open>At the end of its input the prompt never returns.\<close>

lemma debug_prompt_reads:
  assumes "debug_prompt cfg con rv d w = Some r"
  shows "\<exists>w. fst (con_gets con w) \<noteq> None"
proof (rule debug_prompt.raw_induct [OF _ assms, where P = "\<lambda>cfg con rv d w r.
    \<exists>w. fst (con_gets con w) \<noteq> None"], goal_cases)
  case (1 loop cfg con rv d w r)
  obtain l w1 where l: "con_gets con (con_out con O_prompt w) = (l, w1)" by fastforce
  show ?case
  proof (cases l)
    case None
    then show ?thesis using 1 l by simp
  next
    case (Some line)
    then show ?thesis using l by (metis fst_conv option.distinct(1))
  qed
qed

lemma debug_prompt_eof:
  "(\<And>w. fst (con_gets con w) = None) \<Longrightarrow> debug_prompt cfg con rv d w = None"
  using debug_prompt_reads [of cfg con rv d w] by (cases "debug_prompt cfg con rv d w") auto

end
