(* ===== verification/Bptree.thy ===== *)
theory Bptree
  imports Prelude
begin

text \<open>
  \<open>tools/map.c\<close>: the binary tree in which the GDB stub keeps its breakpoints, over an
  explicit heap of nodes with left, right and parent pointers. An access through a null
  pointer or to a freed node is a fault. A recursion or loop of the code may not end on a
  heap that is not a tree, so the recursive functions are partial, with the value \<open>None\<close>
  where the code does not return.
\<close>

subsection \<open>Heap\<close>

datatype color = RED | BLACK

type_synonym ptr = "nat option"

record node =
  n_data :: i32
  n_color :: color
  n_left :: ptr
  n_right :: ptr
  n_parent :: ptr

text \<open>
  \<open>malloc\<close> takes addresses from \<open>fresh\<close> on, so that an address is not used again after it
  was freed; it is taken to succeed.
\<close>

record heap =
  cells :: "nat \<Rightarrow> node option"
  fresh :: nat

definition node_at :: "heap \<Rightarrow> ptr \<Rightarrow> node run" where
  "node_at h p =
     (case p of
        None \<Rightarrow> Fault NullPointer
      | Some a \<Rightarrow> (case cells h a of None \<Rightarrow> Fault UseAfterFree | Some n \<Rightarrow> Done n))"

definition node_put :: "heap \<Rightarrow> ptr \<Rightarrow> (node \<Rightarrow> node) \<Rightarrow> heap run" where
  "node_put h p f =
     bind_run (node_at h p) (\<lambda>n. Done (h\<lparr>cells := (cells h)(the p \<mapsto> f n)\<rparr>))"

definition node_free :: "heap \<Rightarrow> ptr \<Rightarrow> heap run" where
  "node_free h p = bind_run (node_at h p) (\<lambda>n. Done (h\<lparr>cells := (cells h)(the p := None)\<rparr>))"

subsection \<open>The functions of \<open>map.c\<close>\<close>

definition createNode :: "heap \<Rightarrow> i32 \<Rightarrow> heap \<times> ptr" where
  "createNode h k =
     (h\<lparr>cells := (cells h)(fresh h \<mapsto>
          \<lparr>n_data = k, n_color = RED, n_left = None, n_right = None, n_parent = None\<rparr>),
        fresh := Suc (fresh h)\<rparr>,
      Some (fresh h))"

partial_function (option) insertBST :: "heap \<Rightarrow> ptr \<Rightarrow> ptr \<Rightarrow> (heap \<times> ptr) comp" where
  "insertBST h root pt =
     (if root = None then Some (Done (h, pt))
      else bind_comp (Some (node_at h pt)) (\<lambda>np. bind_comp (Some (node_at h root)) (\<lambda>nr.
        if n_data np <s n_data nr then
          bind_comp (insertBST h (n_left nr) pt) (\<lambda>(h1, q).
          bind_comp (Some (node_put h1 root (n_left_update (\<lambda>_. q)))) (\<lambda>h2.
          bind_comp (Some (node_put h2 q (n_parent_update (\<lambda>_. root)))) (\<lambda>h3. Some (Done (h3, root)))))
        else if n_data nr <s n_data np then
          bind_comp (insertBST h (n_right nr) pt) (\<lambda>(h1, q).
          bind_comp (Some (node_put h1 root (n_right_update (\<lambda>_. q)))) (\<lambda>h2.
          bind_comp (Some (node_put h2 q (n_parent_update (\<lambda>_. root)))) (\<lambda>h3. Some (Done (h3, root)))))
        else Some (Done (h, root)))))"

text \<open>
  The pointer of \<open>*p\<close> that a rotation changes: the child of the parent of \<open>x\<close> that is \<open>x\<close>,
  or the root.
\<close>

definition relink :: "heap \<Rightarrow> ptr \<Rightarrow> ptr \<Rightarrow> ptr \<Rightarrow> (heap \<times> ptr) run" where
  "relink h root x y =
     bind_run (node_at h x) (\<lambda>nx.
       if n_parent nx = None then Done (h, y)
       else bind_run (node_at h (n_parent nx)) (\<lambda>np.
         bind_run (node_put h (n_parent nx)
             (if x = n_left np then n_left_update (\<lambda>_. y) else n_right_update (\<lambda>_. y))) (\<lambda>h1.
           Done (h1, root))))"

definition rotateLeft :: "heap \<Rightarrow> ptr \<Rightarrow> ptr \<Rightarrow> (heap \<times> ptr) run" where
  "rotateLeft h root x =
     bind_run (node_at h x) (\<lambda>nx. let y = n_right nx in
     bind_run (node_at h y) (\<lambda>ny.
     bind_run (node_put h x (n_right_update (\<lambda>_. n_left ny))) (\<lambda>h1.
     bind_run (if n_left ny \<noteq> None then node_put h1 (n_left ny) (n_parent_update (\<lambda>_. x)) else Done h1) (\<lambda>h2.
     bind_run (node_at h2 x) (\<lambda>nx2.
     bind_run (node_put h2 y (n_parent_update (\<lambda>_. n_parent nx2))) (\<lambda>h3.
     bind_run (relink h3 root x y) (\<lambda>(h4, root).
     bind_run (node_put h4 y (n_left_update (\<lambda>_. x))) (\<lambda>h5.
     bind_run (node_put h5 x (n_parent_update (\<lambda>_. y))) (\<lambda>h6. Done (h6, root))))))))))"

definition rotateRight :: "heap \<Rightarrow> ptr \<Rightarrow> ptr \<Rightarrow> (heap \<times> ptr) run" where
  "rotateRight h root x =
     bind_run (node_at h x) (\<lambda>nx. let y = n_left nx in
     bind_run (node_at h y) (\<lambda>ny.
     bind_run (node_put h x (n_left_update (\<lambda>_. n_right ny))) (\<lambda>h1.
     bind_run (if n_right ny \<noteq> None then node_put h1 (n_right ny) (n_parent_update (\<lambda>_. x)) else Done h1) (\<lambda>h2.
     bind_run (node_at h2 x) (\<lambda>nx2.
     bind_run (node_put h2 y (n_parent_update (\<lambda>_. n_parent nx2))) (\<lambda>h3.
     bind_run (relink h3 root x y) (\<lambda>(h4, root).
     bind_run (node_put h4 y (n_right_update (\<lambda>_. x))) (\<lambda>h5.
     bind_run (node_put h5 x (n_parent_update (\<lambda>_. y))) (\<lambda>h6. Done (h6, root))))))))))"

text \<open>The exchange of two colours, through \<open>temp\<close>.\<close>

definition swap_colors :: "heap \<Rightarrow> ptr \<Rightarrow> ptr \<Rightarrow> heap run" where
  "swap_colors h p g =
     bind_run (node_at h p) (\<lambda>np.
     bind_run (node_at h g) (\<lambda>ng.
     bind_run (node_put h p (n_color_update (\<lambda>_. n_color ng))) (\<lambda>h1.
       node_put h1 g (n_color_update (\<lambda>_. n_color np)))))"

definition is_red :: "heap \<Rightarrow> ptr \<Rightarrow> bool run" where
  "is_red h p = (if p = None then Done False else bind_run (node_at h p) (\<lambda>n. Done (n_color n = RED)))"

text \<open>Case 1 of \<open>fixViolation\<close>: the grandparent, the parent and the uncle are recoloured.\<close>

definition recolor :: "heap \<Rightarrow> ptr \<Rightarrow> ptr \<Rightarrow> ptr \<Rightarrow> heap run" where
  "recolor h g p u =
     bind_run (node_put h g (n_color_update (\<lambda>_. RED))) (\<lambda>h1.
     bind_run (node_put h1 p (n_color_update (\<lambda>_. BLACK))) (\<lambda>h2.
       node_put h2 u (n_color_update (\<lambda>_. BLACK))))"

text \<open>
  One turn of the loop of \<open>fixViolation\<close>, in the two cases for the side of the parent: the
  heap, the root and the next \<open>pt\<close>.
\<close>

definition fix_left :: "heap \<Rightarrow> ptr \<Rightarrow> ptr \<Rightarrow> ptr \<Rightarrow> ptr \<Rightarrow> (heap \<times> ptr \<times> ptr) run" where
  "fix_left h root pt p g =
     bind_run (node_at h g) (\<lambda>ng. let u = n_right ng in
     bind_run (is_red h u) (\<lambda>red.
       if red then bind_run (recolor h g p u) (\<lambda>h1. Done (h1, root, g))
       else
         bind_run (node_at h p) (\<lambda>np.
         bind_run
           (if pt = n_right np
            then bind_run (rotateLeft h root p) (\<lambda>(h1, root1).
                   bind_run (node_at h1 p) (\<lambda>n. Done (h1, root1, n_parent n)))
            else Done (h, root, p)) (\<lambda>(h1, root1, p1).
         bind_run (rotateRight h1 root1 g) (\<lambda>(h2, root2).
         bind_run (swap_colors h2 p1 g) (\<lambda>h3. Done (h3, root2, p1)))))))"

definition fix_right :: "heap \<Rightarrow> ptr \<Rightarrow> ptr \<Rightarrow> ptr \<Rightarrow> ptr \<Rightarrow> (heap \<times> ptr \<times> ptr) run" where
  "fix_right h root pt p g =
     bind_run (node_at h g) (\<lambda>ng. let u = n_left ng in
     bind_run (is_red h u) (\<lambda>red.
       if red then bind_run (recolor h g p u) (\<lambda>h1. Done (h1, root, g))
       else
         bind_run (node_at h p) (\<lambda>np.
         bind_run
           (if pt = n_left np
            then bind_run (rotateRight h root p) (\<lambda>(h1, root1).
                   bind_run (node_at h1 p) (\<lambda>n. Done (h1, root1, n_parent n)))
            else Done (h, root, p)) (\<lambda>(h1, root1, p1).
         bind_run (rotateLeft h1 root1 g) (\<lambda>(h2, root2).
         bind_run (swap_colors h2 p1 g) (\<lambda>h3. Done (h3, root2, p1)))))))"

definition fix_step :: "heap \<Rightarrow> ptr \<Rightarrow> ptr \<Rightarrow> (heap \<times> ptr \<times> ptr) run" where
  "fix_step h root pt =
     bind_run (node_at h pt) (\<lambda>n. let p = n_parent n in
     bind_run (node_at h p) (\<lambda>np. let g = n_parent np in
     bind_run (node_at h g) (\<lambda>ng.
       if p = n_left ng then fix_left h root pt p g else fix_right h root pt p g)))"

text \<open>The condition of the loop, evaluated from left to right.\<close>

definition violates :: "heap \<Rightarrow> ptr \<Rightarrow> ptr \<Rightarrow> bool run" where
  "violates h root pt =
     (if pt = root then Done False
      else bind_run (node_at h pt) (\<lambda>n.
        if n_color n = BLACK then Done False
        else bind_run (node_at h (n_parent n)) (\<lambda>p. Done (n_color p = RED))))"

partial_function (option) fixViolation :: "heap \<Rightarrow> ptr \<Rightarrow> ptr \<Rightarrow> (heap \<times> ptr) comp" where
  "fixViolation h root pt =
     bind_comp (Some (violates h root pt)) (\<lambda>v.
       if v then bind_comp (Some (fix_step h root pt)) (\<lambda>(h1, root1, pt1).
         fixViolation h1 root1 pt1)
       else bind_comp (Some (node_put h root (n_color_update (\<lambda>_. BLACK)))) (\<lambda>h1.
         Some (Done (h1, root))))"

partial_function (option) minValueNode :: "heap \<Rightarrow> ptr \<Rightarrow> ptr comp" where
  "minValueNode h current =
     bind_comp (Some (node_at h current)) (\<lambda>n.
       if n_left n \<noteq> None then minValueNode h (n_left n) else Some (Done current))"

partial_function (option) deleteNodeBST :: "heap \<Rightarrow> ptr \<Rightarrow> i32 \<Rightarrow> (heap \<times> ptr) comp" where
  "deleteNodeBST h root k =
     (if root = None then Some (Done (h, root))
      else bind_comp (Some (node_at h root)) (\<lambda>n.
        if k <s n_data n then
          bind_comp (deleteNodeBST h (n_left n) k) (\<lambda>(h1, q).
          bind_comp (Some (node_put h1 root (n_left_update (\<lambda>_. q)))) (\<lambda>h2. Some (Done (h2, root))))
        else if n_data n <s k then
          bind_comp (deleteNodeBST h (n_right n) k) (\<lambda>(h1, q).
          bind_comp (Some (node_put h1 root (n_right_update (\<lambda>_. q)))) (\<lambda>h2. Some (Done (h2, root))))
        else if n_left n = None \<or> n_right n = None then
          (let temp = (if n_left n \<noteq> None then n_left n else n_right n) in
           if temp = None
           then bind_comp (Some (node_free h root)) (\<lambda>h1. Some (Done (h1, None)))
           else bind_comp (Some (node_at h temp)) (\<lambda>nt.
                bind_comp (Some (node_put h root (\<lambda>_. nt))) (\<lambda>h1.
                bind_comp (Some (node_free h1 temp)) (\<lambda>h2. Some (Done (h2, root))))))
        else
          bind_comp (minValueNode h (n_right n)) (\<lambda>temp.
          bind_comp (Some (node_at h temp)) (\<lambda>nt.
          bind_comp (Some (node_put h root (n_data_update (\<lambda>_. n_data nt)))) (\<lambda>h1.
          bind_comp (deleteNodeBST h1 (n_right n) (n_data nt)) (\<lambda>(h2, q).
          bind_comp (Some (node_put h2 root (n_right_update (\<lambda>_. q)))) (\<lambda>h3.
            Some (Done (h3, root)))))))))"

definition insertNode :: "heap \<Rightarrow> ptr \<Rightarrow> i32 \<Rightarrow> (heap \<times> ptr) comp" where
  "insertNode h root k =
     (case createNode h k of (h1, pt) \<Rightarrow>
        bind_comp (insertBST h1 root pt) (\<lambda>(h2, root2). fixViolation h2 root2 pt))"

definition deleteNode :: "heap \<Rightarrow> ptr \<Rightarrow> i32 \<Rightarrow> (heap \<times> ptr) comp" where
  "deleteNode h root k = deleteNodeBST h root k"

partial_function (option) findNode :: "heap \<Rightarrow> ptr \<Rightarrow> i32 \<Rightarrow> ptr comp" where
  "findNode h root k =
     (if root = None then Some (Done root)
      else bind_comp (Some (node_at h root)) (\<lambda>n.
        if n_data n = k then Some (Done root)
        else if n_data n <s k then findNode h (n_right n) k
        else findNode h (n_left n) k))"

declare insertBST.simps [code] fixViolation.simps [code] minValueNode.simps [code]
  deleteNodeBST.simps [code] findNode.simps [code]

end
