(* ===== verification/Bpheap.thy ===== *)
theory Bpheap
  imports Bptree
begin

text \<open>
  The heap of theory \<open>Bptree\<close> as trees: the relation between a heap and a tree whose nodes
  carry their addresses, the paths from a node to the root, and what the rotations and the
  recolouring of \<open>map.c\<close> do to them.
\<close>

subsection \<open>Trees with addresses\<close>

datatype ptree = Lf | Nd ptree nat i32 color ptree

fun root_of :: "ptree \<Rightarrow> ptr" where
  "root_of Lf = None"
| "root_of (Nd l a k c r) = Some a"

fun addrs :: "ptree \<Rightarrow> nat list" where
  "addrs Lf = []"
| "addrs (Nd l a k c r) = addrs l @ a # addrs r"

fun is_Red :: "ptree \<Rightarrow> bool" where
  "is_Red Lf = False"
| "is_Red (Nd l a k c r) = (c = RED)"

fun blacken :: "ptree \<Rightarrow> ptree" where
  "blacken Lf = Lf"
| "blacken (Nd l a k c r) = Nd l a k BLACK r"

text \<open>The heap holds the tree below a node with the given parent.\<close>

fun rep :: "heap \<Rightarrow> ptr \<Rightarrow> ptree \<Rightarrow> bool" where
  "rep h par Lf = True"
| "rep h par (Nd l a k c r) =
     (cells h a = Some \<lparr>n_data = k, n_color = c, n_left = root_of l, n_right = root_of r, n_parent = par\<rparr> \<and>
      rep h (Some a) l \<and> rep h (Some a) r)"

text \<open>A path: the frames from the hole up to the root.\<close>

datatype frame =
    FL nat i32 color ptree   \<comment> \<open>the hole is the left child; address, key, colour, sibling\<close>
  | FR ptree nat i32 color   \<comment> \<open>the hole is the right child\<close>

fun fill :: "frame \<Rightarrow> ptree \<Rightarrow> ptree" where
  "fill (FL a k c r) t = Nd t a k c r"
| "fill (FR l a k c) t = Nd l a k c t"

fun plug :: "frame list \<Rightarrow> ptree \<Rightarrow> ptree" where
  "plug [] t = t"
| "plug (F # C) t = plug C (fill F t)"

fun faddr :: "frame \<Rightarrow> nat" where
  "faddr (FL a k c r) = a"
| "faddr (FR l a k c) = a"

fun fcolor :: "frame \<Rightarrow> color" where
  "fcolor (FL a k c r) = c"
| "fcolor (FR l a k c) = c"

fun sib :: "frame \<Rightarrow> ptree" where
  "sib (FL a k c r) = r"
| "sib (FR l a k c) = l"

definition up :: "frame list \<Rightarrow> ptr" where
  "up C = (case C of [] \<Rightarrow> None | F # _ \<Rightarrow> Some (faddr F))"

lemma up_simps [simp]: "up [] = None" "up (F # C) = Some (faddr F)"
  by (simp_all add: up_def)

text \<open>The heap holds the frames above a hole filled by the given pointer.\<close>

fun repC :: "heap \<Rightarrow> ptr \<Rightarrow> frame list \<Rightarrow> bool" where
  "repC h q [] = True"
| "repC h q (FL a k c r # C) =
     (cells h a = Some \<lparr>n_data = k, n_color = c, n_left = q, n_right = root_of r, n_parent = up C\<rparr> \<and>
      rep h (Some a) r \<and> repC h (Some a) C)"
| "repC h q (FR l a k c # C) =
     (cells h a = Some \<lparr>n_data = k, n_color = c, n_left = root_of l, n_right = q, n_parent = up C\<rparr> \<and>
      rep h (Some a) l \<and> repC h (Some a) C)"

fun caddrs :: "frame list \<Rightarrow> nat list" where
  "caddrs [] = []"
| "caddrs (F # C) = faddr F # addrs (sib F) @ caddrs C"

lemma root_fill [simp]: "root_of (fill F t) = Some (faddr F)"
  by (cases F) auto

lemma rep_plug: "rep h None (plug C t) \<longleftrightarrow> repC h (root_of t) C \<and> rep h (up C) t"
proof (induction C arbitrary: t)
  case (Cons F C)
  then show ?case by (cases F) auto
qed simp

lemma root_plug: "root_of (plug C t) = (if C = [] then root_of t else Some (faddr (last C)))"
  by (induction C arbitrary: t) auto

lemma set_addrs_plug: "set (addrs (plug C t)) = set (caddrs C) \<union> set (addrs t)"
proof (induction C arbitrary: t)
  case (Cons F C)
  then show ?case by (cases F) auto
qed simp

lemma distinct_plug: "distinct (addrs (plug C t)) \<longleftrightarrow> distinct (caddrs C @ addrs t)"
proof (induction C arbitrary: t)
  case (Cons F C)
  then show ?case by (cases F) auto
qed simp

lemma rep_frame:
  "rep h par t \<Longrightarrow> (\<And>a. a \<in> set (addrs t) \<Longrightarrow> cells h' a = cells h a) \<Longrightarrow> rep h' par t"
  by (induction t arbitrary: par) auto

lemma repC_frame:
  "repC h q C \<Longrightarrow> (\<And>a. a \<in> set (caddrs C) \<Longrightarrow> cells h' a = cells h a) \<Longrightarrow> repC h' q C"
proof (induction C arbitrary: q)
  case (Cons F C)
  then show ?case by (cases F) (auto intro: rep_frame)
qed simp

lemma rep_root_cell:
  "rep h par t \<Longrightarrow> root_of t = Some a \<Longrightarrow> a \<in> set (addrs t) \<and> (\<exists>n. cells h a = Some n \<and> n_parent n = par)"
  by (cases t) auto

text \<open>A new pointer in the hole of the first frame.\<close>

definition set_hole :: "frame \<Rightarrow> ptr \<Rightarrow> node \<Rightarrow> node" where
  "set_hole F q = (case F of FL _ _ _ _ \<Rightarrow> n_left_update (\<lambda>_. q) | FR _ _ _ _ \<Rightarrow> n_right_update (\<lambda>_. q))"

lemma node_at_Some [simp]: "cells h a = Some n \<Longrightarrow> node_at h (Some a) = Done n"
  by (simp add: node_at_def)

lemma node_put_Some [simp]:
  "cells h a = Some n \<Longrightarrow> node_put h (Some a) f = Done (h\<lparr>cells := (cells h)(a \<mapsto> f n)\<rparr>)"
  by (simp add: node_put_def)

text \<open>An update of a cell outside a tree or a path does not change them.\<close>

lemma rep_upd [simp]:
  "a \<notin> set (addrs t) \<Longrightarrow> rep (h\<lparr>cells := m(a := n)\<rparr>) par t = rep (h\<lparr>cells := m\<rparr>) par t"
  by (induction t arbitrary: par) auto

lemma repC_upd [simp]:
  "a \<notin> set (caddrs C) \<Longrightarrow> repC (h\<lparr>cells := m(a := n)\<rparr>) q C = repC (h\<lparr>cells := m\<rparr>) q C"
proof (induction C arbitrary: q)
  case (Cons F C)
  then show ?case by (cases F) (simp_all add: fun_upd_other del: fun_upd_apply)
qed simp

lemma rep_cells [simp]: "rep (h\<lparr>cells := cells h\<rparr>) par t = rep h par t"
  by simp

text \<open>Its root is not a node outside a tree.\<close>

lemma root_notin: "a \<notin> set (addrs t) \<Longrightarrow> root_of t \<noteq> Some a"
  by (cases t) auto

subsection \<open>A heap that holds a tree\<close>

definition holds :: "heap \<Rightarrow> ptr \<Rightarrow> ptree \<Rightarrow> bool" where
  "holds h root t \<longleftrightarrow>
     rep h None t \<and> root = root_of t \<and> distinct (addrs t) \<and> (\<forall>a \<in> set (addrs t). a < fresh h)"

lemma holds_plug:
  "holds h root (plug C t) \<longleftrightarrow>
     repC h (root_of t) C \<and> rep h (up C) t \<and> root = root_of (plug C t) \<and>
     distinct (caddrs C @ addrs t) \<and> (\<forall>a \<in> set (caddrs C) \<union> set (addrs t). a < fresh h)"
  by (auto simp: holds_def rep_plug distinct_plug set_addrs_plug)

lemma holds_at:
  "holds h root (plug C (Nd l a k c r)) \<Longrightarrow>
   node_at h (Some a) =
     Done \<lparr>n_data = k, n_color = c, n_left = root_of l, n_right = root_of r, n_parent = up C\<rparr>"
  by (simp add: holds_plug)

lemma root_in: "root_of t = Some a \<Longrightarrow> a \<in> set (addrs t)"
  by (cases t) auto

lemma last_in_caddrs: "C \<noteq> [] \<Longrightarrow> faddr (last C) \<in> set (caddrs C)"
  by (induction C) auto

lemma holds_root_other:
  "holds h root (plug C (Nd l a k c r)) \<Longrightarrow> C \<noteq> [] \<Longrightarrow> root \<noteq> Some a"
  using last_in_caddrs [of C] by (auto simp: holds_plug root_plug)

text \<open>The two children of a node are told apart by their addresses.\<close>

lemma holds_children:
  assumes "holds h root (plug C (Nd l a k c r))"
  shows "root_of l = Some b \<Longrightarrow> root_of r \<noteq> Some b"
proof -
  have "set (addrs l) \<inter> set (addrs r) = {}"
    using assms by (simp add: holds_plug)
  then show "root_of l = Some b \<Longrightarrow> root_of r \<noteq> Some b"
    using root_in by blast
qed

subsection \<open>Rotations\<close>

lemma rotateRight_holds:
  assumes "holds h root (plug C (Nd (Nd A p kp cp B) g kg cg D))"
  shows "\<exists>h' root'. rotateRight h root (Some g) = Done (h', root') \<and>
    holds h' root' (plug C (Nd A p kp cp (Nd B g kg cg D)))"
proof (cases C)
  case Nil
  then show ?thesis
    using assms by (cases B) (auto simp: rotateRight_def relink_def Let_def holds_def)
next
  case (Cons F C')
  show ?thesis
  proof (cases F)
    case (FL f kf cf S)
    then show ?thesis
      using assms Cons
      by (cases B) (auto simp: rotateRight_def relink_def Let_def holds_plug root_plug)
  next
    case (FR S f kf cf)
    then show ?thesis
      using assms Cons
      by (cases B)
         (auto simp: rotateRight_def relink_def Let_def holds_plug root_plug dest: root_notin)
  qed
qed

lemma rotateLeft_holds:
  assumes "holds h root (plug C (Nd D g kg cg (Nd B p kp cp A)))"
  shows "\<exists>h' root'. rotateLeft h root (Some g) = Done (h', root') \<and>
    holds h' root' (plug C (Nd (Nd D g kg cg B) p kp cp A))"
proof (cases C)
  case Nil
  then show ?thesis
    using assms by (cases B) (auto simp: rotateLeft_def relink_def Let_def holds_def)
next
  case (Cons F C')
  show ?thesis
  proof (cases F)
    case (FL f kf cf S)
    then show ?thesis
      using assms Cons
      by (cases B) (auto simp: rotateLeft_def relink_def Let_def holds_plug root_plug)
  next
    case (FR S f kf cf)
    then show ?thesis
      using assms Cons
      by (cases B)
         (auto simp: rotateLeft_def relink_def Let_def holds_plug root_plug dest: root_notin)
  qed
qed

subsection \<open>Colours\<close>

text \<open>A node that takes another colour.\<close>

lemma color_holds:
  assumes "holds h root (plug C (Nd l a k c r))"
  shows "\<exists>h'. node_put h (Some a) (n_color_update (\<lambda>_. c')) = Done h' \<and>
    holds h' root (plug C (Nd l a k c' r))"
  using assms by (auto simp: holds_plug root_plug)

lemma swap_right_holds:
  assumes "holds h root (plug C (Nd A p kp cp (Nd B g kg cg D)))"
  shows "\<exists>h'. swap_colors h (Some p) (Some g) = Done h' \<and>
    holds h' root (plug C (Nd A p kp cg (Nd B g kg cp D)))"
  using assms by (auto simp: swap_colors_def holds_plug root_plug)

lemma swap_left_holds:
  assumes "holds h root (plug C (Nd (Nd D g kg cg B) p kp cp A))"
  shows "\<exists>h'. swap_colors h (Some p) (Some g) = Done h' \<and>
    holds h' root (plug C (Nd (Nd D g kg cp B) p kp cg A))"
  using assms by (auto simp: swap_colors_def holds_plug root_plug)

lemma recolor_left_holds:
  assumes "holds h root (plug C (Nd (Nd A p kp cp B) g kg cg (Nd U u ku cu V)))"
  shows "\<exists>h'. recolor h (Some g) (Some p) (Some u) = Done h' \<and>
    holds h' root (plug C (Nd (Nd A p kp BLACK B) g kg RED (Nd U u ku BLACK V)))"
  using assms by (auto simp: recolor_def holds_plug root_plug)

lemma recolor_right_holds:
  assumes "holds h root (plug C (Nd (Nd U u ku cu V) g kg cg (Nd A p kp cp B)))"
  shows "\<exists>h'. recolor h (Some g) (Some p) (Some u) = Done h' \<and>
    holds h' root (plug C (Nd (Nd U u ku BLACK V) g kg RED (Nd A p kp BLACK B)))"
  using assms by (auto simp: recolor_def holds_plug root_plug)

subsection \<open>Repairing the colours\<close>

lemma is_red_holds:
  assumes "holds h root (plug C t)"
  shows "is_red h (root_of t) = Done (is_Red t)"
  using assms by (cases t) (auto simp: is_red_def dest: holds_at)

text \<open>One turn of the loop where the parent is a left child, by the colour of the uncle.\<close>

lemma fix_left_uncle:
  assumes "holds h root (plug (F # FL g kg cg U # C) T)" and "is_Red U"
  shows "\<exists>h'. fix_left h root pt (Some (faddr F)) (Some g) = Done (h', root, Some g) \<and>
    holds h' root (plug C (Nd (blacken (fill F T)) g kg RED (blacken U)))"
proof -
  obtain U1 u ku U2 where U: "U = Nd U1 u ku RED U2" using assms(2) by (cases U) auto
  obtain A p kp cp B where P: "fill F T = Nd A p kp cp B" by (cases F) auto
  have p: "faddr F = p" using P by (cases F) auto
  have t: "holds h root (plug C (Nd (Nd A p kp cp B) g kg cg U))" using assms(1) P by simp
  obtain h' where "recolor h (Some g) (Some p) (Some u) = Done h'"
    and "holds h' root (plug C (Nd (Nd A p kp BLACK B) g kg RED (Nd U1 u ku BLACK U2)))"
    using recolor_left_holds t U by blast
  moreover have "is_red h (Some u) = Done True"
    using is_red_holds [of h root "FR (Nd A p kp cp B) g kg cg # C" U] t U by simp
  ultimately show ?thesis
    using holds_at [OF t] by (simp add: fix_left_def P p U)
qed

lemma fix_left_outer:
  assumes "holds h root (plug (FL p kp cp B # FL g kg cg U # C) (Nd X a ka ca Y))" and "\<not> is_Red U"
  shows "\<exists>h' root'. fix_left h root (Some a) (Some p) (Some g) = Done (h', root', Some p) \<and>
    holds h' root' (plug C (Nd (Nd X a ka ca Y) p kp cg (Nd B g kg cp U)))"
proof -
  let ?T = "Nd X a ka ca Y"
  have t: "holds h root (plug C (Nd (Nd ?T p kp cp B) g kg cg U))" using assms(1) by simp
  have u: "is_red h (root_of U) = Done False"
    using is_red_holds [of h root "FR (Nd ?T p kp cp B) g kg cg # C" U] t assms(2) by simp
  have np: "node_at h (Some p) =
      Done \<lparr>n_data = kp, n_color = cp, n_left = Some a, n_right = root_of B, n_parent = Some g\<rparr>"
    using holds_at [of h root "FL g kg cg U # C" ?T p kp cp B] t by simp
  have "root_of B \<noteq> Some a"
    using holds_children [of h root "FL g kg cg U # C" ?T p kp cp B a] t by simp
  moreover obtain h1 root1 where "rotateRight h root (Some g) = Done (h1, root1)"
    and "holds h1 root1 (plug C (Nd ?T p kp cp (Nd B g kg cg U)))"
    using rotateRight_holds [OF t] by blast
  moreover from this(2) obtain h2 where "swap_colors h1 (Some p) (Some g) = Done h2"
    and "holds h2 root1 (plug C (Nd ?T p kp cg (Nd B g kg cp U)))"
    using swap_right_holds by blast
  ultimately show ?thesis
    using holds_at [OF t] u np by (simp add: fix_left_def Let_def)
qed

lemma fix_left_inner:
  assumes "holds h root (plug (FR A p kp cp # FL g kg cg U # C) (Nd X a ka ca Y))" and "\<not> is_Red U"
  shows "\<exists>h' root'. fix_left h root (Some a) (Some p) (Some g) = Done (h', root', Some a) \<and>
    holds h' root' (plug C (Nd (Nd A p kp cp X) a ka cg (Nd Y g kg ca U)))"
proof -
  let ?T = "Nd X a ka ca Y"
  have t: "holds h root (plug C (Nd (Nd A p kp cp ?T) g kg cg U))" using assms(1) by simp
  then have t': "holds h root (plug (FL g kg cg U # C) (Nd A p kp cp ?T))" by simp
  have u: "is_red h (root_of U) = Done False"
    using is_red_holds [of h root "FR (Nd A p kp cp ?T) g kg cg # C" U] t assms(2) by simp
  obtain h1 root1 where r1: "rotateLeft h root (Some p) = Done (h1, root1)"
    and t1: "holds h1 root1 (plug (FL g kg cg U # C) (Nd (Nd A p kp cp X) a ka ca Y))"
    using rotateLeft_holds [OF t'] by blast
  have np: "node_at h1 (Some p) =
      Done \<lparr>n_data = kp, n_color = cp, n_left = root_of A, n_right = root_of X, n_parent = Some a\<rparr>"
    using holds_at [of h1 root1 "FL a ka ca Y # FL g kg cg U # C" A p kp cp X] t1 by simp
  have "holds h1 root1 (plug C (Nd (Nd (Nd A p kp cp X) a ka ca Y) g kg cg U))" using t1 by simp
  then obtain h2 root2 where r2: "rotateRight h1 root1 (Some g) = Done (h2, root2)"
    and t2: "holds h2 root2 (plug C (Nd (Nd A p kp cp X) a ka ca (Nd Y g kg cg U)))"
    using rotateRight_holds by blast
  obtain h3 where r3: "swap_colors h2 (Some a) (Some g) = Done h3"
    and t3: "holds h3 root2 (plug C (Nd (Nd A p kp cp X) a ka cg (Nd Y g kg ca U)))"
    using swap_right_holds [OF t2] by blast
  show ?thesis
    using holds_at [OF t] holds_at [OF t'] u np r1 r2 r3 t3 by (simp add: fix_left_def Let_def)
qed

text \<open>The mirror images, where the parent is a right child.\<close>

lemma fix_right_uncle:
  assumes "holds h root (plug (F # FR U g kg cg # C) T)" and "is_Red U"
  shows "\<exists>h'. fix_right h root pt (Some (faddr F)) (Some g) = Done (h', root, Some g) \<and>
    holds h' root (plug C (Nd (blacken U) g kg RED (blacken (fill F T))))"
proof -
  obtain U1 u ku U2 where U: "U = Nd U1 u ku RED U2" using assms(2) by (cases U) auto
  obtain A p kp cp B where P: "fill F T = Nd A p kp cp B" by (cases F) auto
  have p: "faddr F = p" using P by (cases F) auto
  have t: "holds h root (plug C (Nd U g kg cg (Nd A p kp cp B)))" using assms(1) P by simp
  obtain h' where "recolor h (Some g) (Some p) (Some u) = Done h'"
    and "holds h' root (plug C (Nd (Nd U1 u ku BLACK U2) g kg RED (Nd A p kp BLACK B)))"
    using recolor_right_holds t U by blast
  moreover have "is_red h (Some u) = Done True"
    using is_red_holds [of h root "FL g kg cg (Nd A p kp cp B) # C" U] t U by simp
  ultimately show ?thesis
    using holds_at [OF t] by (simp add: fix_right_def P p U)
qed

lemma fix_right_outer:
  assumes "holds h root (plug (FR B p kp cp # FR U g kg cg # C) (Nd X a ka ca Y))" and "\<not> is_Red U"
  shows "\<exists>h' root'. fix_right h root (Some a) (Some p) (Some g) = Done (h', root', Some p) \<and>
    holds h' root' (plug C (Nd (Nd U g kg cp B) p kp cg (Nd X a ka ca Y)))"
proof -
  let ?T = "Nd X a ka ca Y"
  have t: "holds h root (plug C (Nd U g kg cg (Nd B p kp cp ?T)))" using assms(1) by simp
  have u: "is_red h (root_of U) = Done False"
    using is_red_holds [of h root "FL g kg cg (Nd B p kp cp ?T) # C" U] t assms(2) by simp
  have np: "node_at h (Some p) =
      Done \<lparr>n_data = kp, n_color = cp, n_left = root_of B, n_right = Some a, n_parent = Some g\<rparr>"
    using holds_at [of h root "FR U g kg cg # C" B p kp cp ?T] t by simp
  have "root_of B \<noteq> Some a"
    using holds_children [of h root "FR U g kg cg # C" B p kp cp ?T a] t by auto
  moreover obtain h1 root1 where "rotateLeft h root (Some g) = Done (h1, root1)"
    and "holds h1 root1 (plug C (Nd (Nd U g kg cg B) p kp cp ?T))"
    using rotateLeft_holds [OF t] by blast
  moreover from this(2) obtain h2 where "swap_colors h1 (Some p) (Some g) = Done h2"
    and "holds h2 root1 (plug C (Nd (Nd U g kg cp B) p kp cg ?T))"
    using swap_left_holds by blast
  ultimately show ?thesis
    using holds_at [OF t] u np by (simp add: fix_right_def Let_def)
qed

lemma fix_right_inner:
  assumes "holds h root (plug (FL p kp cp A # FR U g kg cg # C) (Nd X a ka ca Y))" and "\<not> is_Red U"
  shows "\<exists>h' root'. fix_right h root (Some a) (Some p) (Some g) = Done (h', root', Some a) \<and>
    holds h' root' (plug C (Nd (Nd U g kg ca X) a ka cg (Nd Y p kp cp A)))"
proof -
  let ?T = "Nd X a ka ca Y"
  have t: "holds h root (plug C (Nd U g kg cg (Nd ?T p kp cp A)))" using assms(1) by simp
  then have t': "holds h root (plug (FR U g kg cg # C) (Nd ?T p kp cp A))" by simp
  have u: "is_red h (root_of U) = Done False"
    using is_red_holds [of h root "FL g kg cg (Nd ?T p kp cp A) # C" U] t assms(2) by simp
  obtain h1 root1 where r1: "rotateRight h root (Some p) = Done (h1, root1)"
    and t1: "holds h1 root1 (plug (FR U g kg cg # C) (Nd X a ka ca (Nd Y p kp cp A)))"
    using rotateRight_holds [OF t'] by blast
  have np: "node_at h1 (Some p) =
      Done \<lparr>n_data = kp, n_color = cp, n_left = root_of Y, n_right = root_of A, n_parent = Some a\<rparr>"
    using holds_at [of h1 root1 "FR X a ka ca # FR U g kg cg # C" Y p kp cp A] t1 by simp
  have "holds h1 root1 (plug C (Nd U g kg cg (Nd X a ka ca (Nd Y p kp cp A))))" using t1 by simp
  then obtain h2 root2 where r2: "rotateLeft h1 root1 (Some g) = Done (h2, root2)"
    and t2: "holds h2 root2 (plug C (Nd (Nd U g kg cg X) a ka ca (Nd Y p kp cp A)))"
    using rotateLeft_holds by blast
  obtain h3 where r3: "swap_colors h2 (Some a) (Some g) = Done h3"
    and t3: "holds h3 root2 (plug C (Nd (Nd U g kg ca X) a ka cg (Nd Y p kp cp A)))"
    using swap_left_holds [OF t2] by blast
  show ?thesis
    using holds_at [OF t] holds_at [OF t'] u np r1 r2 r3 t3 by (simp add: fix_right_def Let_def)
qed

text \<open>Which of the two cases a turn takes.\<close>

lemma fix_step_left:
  assumes "holds h root (plug (F # FL g kg cg U # C) (Nd X a ka ca Y))"
  shows "fix_step h root (Some a) = fix_left h root (Some a) (Some (faddr F)) (Some g)"
proof -
  obtain A p kp cp B where P: "fill F (Nd X a ka ca Y) = Nd A p kp cp B" by (cases F) auto
  have p: "faddr F = p" using P by (cases F) auto
  have g: "holds h root (plug C (Nd (Nd A p kp cp B) g kg cg U))"
    and q: "holds h root (plug (FL g kg cg U # C) (Nd A p kp cp B))" using assms P by simp_all
  show ?thesis
    using holds_at [OF assms] holds_at [OF g] holds_at [OF q] by (simp add: fix_step_def Let_def p)
qed

lemma fix_step_right:
  assumes "holds h root (plug (F # FR U g kg cg # C) (Nd X a ka ca Y))"
  shows "fix_step h root (Some a) = fix_right h root (Some a) (Some (faddr F)) (Some g)"
proof -
  obtain A p kp cp B where P: "fill F (Nd X a ka ca Y) = Nd A p kp cp B" by (cases F) auto
  have p: "faddr F = p" using P by (cases F) auto
  have g: "holds h root (plug C (Nd U g kg cg (Nd A p kp cp B)))"
    and q: "holds h root (plug (FR U g kg cg # C) (Nd A p kp cp B))" using assms P by simp_all
  have "root_of U \<noteq> Some p" using holds_children [OF g, of p] by auto
  then show ?thesis
    using holds_at [OF assms] holds_at [OF g] holds_at [OF q]
    by (auto simp: fix_step_def Let_def p)
qed

end
