(* ===== verification/Bpfix.thy ===== *)
theory Bpfix
  imports Bpheap
begin

text \<open>
  The loop of \<open>fixViolation\<close>: the order, colour and height invariants of the tree, what one
  turn of the loop keeps of them, and that the loop ends with a red-black tree.
\<close>

subsection \<open>Keys and invariants\<close>

fun keys :: "ptree \<Rightarrow> i32 list" where
  "keys Lf = []"
| "keys (Nd l a k c r) = keys l @ k # keys r"

definition bst :: "ptree \<Rightarrow> bool" where
  "bst t \<longleftrightarrow> sorted_wrt (\<lambda>a b. a <s b) (keys t)"

text \<open>No red node has a red child.\<close>

fun norr :: "ptree \<Rightarrow> bool" where
  "norr Lf = True"
| "norr (Nd l a k c r) = (norr l \<and> norr r \<and> (c = RED \<longrightarrow> \<not> is_Red l \<and> \<not> is_Red r))"

text \<open>Every path down to a leaf has \<open>n\<close> black nodes.\<close>

fun bal :: "nat \<Rightarrow> ptree \<Rightarrow> bool" where
  "bal n Lf = (n = 0)"
| "bal n (Nd l a k c r) =
     (if c = RED then bal n l \<and> bal n r else 0 < n \<and> bal (n - 1) l \<and> bal (n - 1) r)"

text \<open>The same for a path: the colours are right above the hole, and the root is black.\<close>

fun okC :: "frame list \<Rightarrow> bool" where
  "okC [] = True"
| "okC (F # C) =
     (norr (sib F) \<and> okC C \<and>
      (fcolor F = RED \<longrightarrow> \<not> is_Red (sib F) \<and> C \<noteq> [] \<and> fcolor (hd C) = BLACK))"

lemma neq_color [simp]: "c \<noteq> RED \<longleftrightarrow> c = BLACK" "c \<noteq> BLACK \<longleftrightarrow> c = RED"
  by (cases c; simp)+

lemma okC_norr:
  "okC C \<Longrightarrow> norr t \<Longrightarrow> (is_Red t \<Longrightarrow> C = [] \<or> fcolor (hd C) = BLACK) \<Longrightarrow> norr (plug C t)"
proof (induction C arbitrary: t)
  case (Cons F C)
  have "norr (fill F t)" and "is_Red (fill F t) \<Longrightarrow> C = [] \<or> fcolor (hd C) = BLACK"
    using Cons.prems by (cases F; auto)+
  then show ?case using Cons.IH [of "fill F t"] Cons.prems(1) by simp
qed simp

lemma okC_root: "okC C \<Longrightarrow> C \<noteq> [] \<Longrightarrow> \<not> is_Red (plug C t)"
proof (induction C arbitrary: t)
  case (Cons F C)
  then show ?case by (cases F; cases "C = []") auto
qed simp

lemma keys_plug: "keys t = keys t' \<Longrightarrow> keys (plug C t) = keys (plug C t')"
proof (induction C arbitrary: t t')
  case (Cons F C)
  have "keys (fill F t) = keys (fill F t')" using Cons.prems by (cases F) auto
  then show ?case using Cons.IH [of "fill F t" "fill F t'"] by simp
qed simp

lemma bal_fill: "bal n (fill F t) \<Longrightarrow> \<exists>m. bal m t \<and> (\<forall>t'. bal m t' \<longrightarrow> bal n (fill F t'))"
  by (cases F) (auto split: if_splits)

lemma bal_plug: "bal n (plug C t) \<Longrightarrow> \<exists>m. bal m t \<and> (\<forall>t'. bal m t' \<longrightarrow> bal n (plug C t'))"
proof (induction C arbitrary: t)
  case (Cons F C)
  then obtain m where m: "bal m (fill F t)" "\<forall>t'. bal m t' \<longrightarrow> bal n (plug C t')" by force
  from bal_fill [OF m(1)] m(2) show ?case by auto
qed auto

lemma bal_plug_eq:
  assumes "bal n (plug C t)" and "\<And>m. bal m t \<Longrightarrow> bal m t'"
  shows "bal n (plug C t')"
  using bal_plug [OF assms(1)] assms(2) by blast

lemma blacken_simps [simp]:
  "keys (blacken t) = keys t" "norr t \<Longrightarrow> norr (blacken t)" "\<not> is_Red (blacken t)"
  by (cases t; simp)+

lemma bal_blacken: "bal n t \<Longrightarrow> \<exists>n'. bal n' (blacken t)"
proof (cases t)
  case (Nd l a k c r)
  assume "bal n t"
  then have "bal (if c = RED then Suc n else n) (blacken t)" using Nd by (auto split: if_splits)
  then show ?thesis ..
qed auto

lemma bal_blacken_red: "bal (n - Suc 0) t \<Longrightarrow> 0 < n \<Longrightarrow> is_Red t \<Longrightarrow> bal n (blacken t)"
  by (cases t) auto

text \<open>What insertion establishes.\<close>

definition rbt :: "ptree \<Rightarrow> bool" where
  "rbt t \<longleftrightarrow> norr t \<and> \<not> is_Red t \<and> (\<exists>n. bal n t)"

lemma rbt_blacken: "norr t \<Longrightarrow> bal n t \<Longrightarrow> rbt (blacken t)"
  using bal_blacken by (auto simp: rbt_def)

subsection \<open>\<open>fixViolation\<close>\<close>

lemma blacken_root:
  assumes "holds h root t" and "t \<noteq> Lf"
  shows "\<exists>h'. node_put h root (n_color_update (\<lambda>_. BLACK)) = Done h' \<and> holds h' root (blacken t)"
  using assms color_holds [of h root "[]" _ _ _ _ _ BLACK] by (cases t) (auto simp: holds_def)

lemma plug_not_Lf [simp]: "plug C (Nd l a k c r) \<noteq> Lf"
proof (induction C arbitrary: l a k c r)
  case (Cons F C)
  then show ?case by (cases F) auto
qed simp

lemma violates_eq:
  assumes "holds h root (plug C (Nd X a k c Y))"
  shows "violates h root (Some a) =
    Done (c = RED \<and> C \<noteq> [] \<and> fcolor (hd C) = RED)"
proof (cases C)
  case Nil
  then have "root = Some a" using assms by (simp add: holds_def)
  then show ?thesis using Nil by (simp add: violates_def)
next
  case (Cons F C')
  obtain l b kb cb r where F: "fill F (Nd X a k c Y) = Nd l b kb cb r" by (cases F) auto
  then have b: "faddr F = b" "fcolor F = cb" by (cases F; auto)+
  have "holds h root (plug C' (Nd l b kb cb r))" using assms Cons F by simp
  note holds_at [OF this]
  moreover have "root \<noteq> Some a" using holds_root_other [OF assms] Cons by simp
  ultimately show ?thesis
    using holds_at [OF assms] Cons b by (auto simp: violates_def)
qed

text \<open>The loop ends where the colours are right.\<close>

lemma fixViolation_exit:
  assumes "holds h root (plug C (Nd X a k c Y))" and "c = BLACK \<or> C = [] \<or> fcolor (hd C) = BLACK"
  shows "\<exists>h'. fixViolation h root (Some a) = Some (Done (h', root)) \<and>
    holds h' root (blacken (plug C (Nd X a k c Y)))"
proof -
  obtain h' where h': "node_put h root (n_color_update (\<lambda>_. BLACK)) = Done h'"
    "holds h' root (blacken (plug C (Nd X a k c Y)))"
    using blacken_root [OF assms(1)] by auto
  have "violates h root (Some a) = Done False"
    using violates_eq [OF assms(1)] assms(2) by auto
  then show ?thesis using h' by (subst fixViolation.simps) simp
qed

lemma fixViolation_turn:
  assumes "violates h root pt = Done True" and "fix_step h root pt = Done (h1, root1, pt1)"
  shows "fixViolation h root pt = fixViolation h1 root1 pt1"
  using assms by (subst fixViolation.simps) simp

definition repaired :: "heap \<Rightarrow> ptr \<Rightarrow> ptr \<Rightarrow> i32 list \<Rightarrow> bool" where
  "repaired h root pt ks \<longleftrightarrow>
     (\<exists>h' root' t'. fixViolation h root pt = Some (Done (h', root')) \<and> holds h' root' t' \<and>
        rbt t' \<and> keys t' = ks)"

lemma repaired_exit:
  assumes "holds h root (plug C (Nd X a k c Y))" and "c = BLACK \<or> C = [] \<or> fcolor (hd C) = BLACK"
    and "norr (plug C (Nd X a k c Y))" and "bal n (plug C (Nd X a k c Y))"
  shows "repaired h root (Some a) (keys (plug C (Nd X a k c Y)))"
  using fixViolation_exit [OF assms(1,2)] rbt_blacken [OF assms(3,4)]
  by (auto simp: repaired_def intro: blacken_simps)

lemma repaired_turn:
  assumes "violates h root pt = Done True" and "fix_step h root pt = Done (h1, root1, pt1)"
    and "repaired h1 root1 pt1 ks"
  shows "repaired h root pt ks"
  using assms(3) by (simp add: repaired_def fixViolation_turn [OF assms(1,2)])

text \<open>
  A turn of the loop on a red node below a red parent: the frames above the parent and the
  grandparent stay, and what is below them keeps its keys and its black height.
\<close>

definition turned :: "heap \<Rightarrow> ptr \<Rightarrow> nat \<Rightarrow> frame list \<Rightarrow> ptree \<Rightarrow> bool" where
  "turned h root a C t \<longleftrightarrow>
     (\<exists>h1 root1 X1 a1 k1 c1 Y1. fix_step h root (Some a) = Done (h1, root1, Some a1) \<and>
        holds h1 root1 (plug C (Nd X1 a1 k1 c1 Y1)) \<and> norr (Nd X1 a1 k1 c1 Y1) \<and>
        keys (Nd X1 a1 k1 c1 Y1) = keys t \<and>
        (\<forall>m. bal m t \<longrightarrow> bal m (Nd X1 a1 k1 c1 Y1)))"

lemma turnedI:
  assumes "fix_step h root (Some a) = Done (h1, root1, Some a1)"
    and "holds h1 root1 (plug C (Nd X1 a1 k1 c1 Y1))" and "norr (Nd X1 a1 k1 c1 Y1)"
    and "keys (Nd X1 a1 k1 c1 Y1) = keys t" and "\<And>m. bal m t \<Longrightarrow> bal m (Nd X1 a1 k1 c1 Y1)"
  shows "turned h root a C t"
  using assms unfolding turned_def by blast

lemma norr_parent:
  "norr (Nd X a k RED Y) \<Longrightarrow> norr (sib F) \<Longrightarrow> norr (blacken (fill F (Nd X a k RED Y)))"
  by (cases F) auto

lemma fix_step_turned:
  assumes t: "holds h root (plug (F # G # C) (Nd X a k RED Y))"
    and "norr (Nd X a k RED Y)" and "okC (F # G # C)" and "fcolor F = RED"
  shows "turned h root a C (fill G (fill F (Nd X a k RED Y)))"
proof -
  let ?T = "Nd X a k RED Y"
  have sF: "norr (sib F)" "\<not> is_Red (sib F)" and G: "fcolor G = BLACK" "norr (sib G)"
    using assms(3,4) by auto
  have redF: "is_Red (fill F ?T)" using assms(4) by (cases F) auto
  show ?thesis
  proof (cases G)
    case (FL g kg cg U)
    then have cg: "cg = BLACK" and U: "norr U" using G by auto
    note t = t [unfolded FL cg]
    note step = fix_step_left [OF t]
    show ?thesis
    proof (cases "is_Red U")
      case True
      then obtain h1 where "fix_left h root (Some a) (Some (faddr F)) (Some g) = Done (h1, root, Some g)"
        and t1: "holds h1 root (plug C (Nd (blacken (fill F ?T)) g kg RED (blacken U)))"
        using fix_left_uncle [OF t] by blast
      then have "fix_step h root (Some a) = Done (h1, root, Some g)" using step by simp
      then show ?thesis
      proof (rule turnedI [OF _ t1])
        show "norr (Nd (blacken (fill F ?T)) g kg RED (blacken U))"
          using norr_parent [OF assms(2) sF(1)] U by simp
        show "bal m (Nd (blacken (fill F ?T)) g kg RED (blacken U))" if "bal m (fill G (fill F ?T))" for m
          using that True redF unfolding FL cg by (auto dest: bal_blacken_red split: if_splits)
      qed (simp add: FL)
    next
      case False
      show ?thesis
      proof (cases F)
        case (FL p kp cp B)
        then show ?thesis
          using fix_left_outer [OF t [unfolded FL] False] step sF assms(2,4) U False
          unfolding \<open>G = FL g kg cg U\<close> cg by (auto intro!: turnedI)
      next
        case (FR A p kp cp)
        then show ?thesis
          using fix_left_inner [OF t [unfolded FR] False] step sF assms(2,4) U False
          unfolding \<open>G = FL g kg cg U\<close> cg by (auto intro!: turnedI)
      qed
    qed
  next
    case (FR U g kg cg)
    then have cg: "cg = BLACK" and U: "norr U" using G by auto
    note t = t [unfolded FR cg]
    note step = fix_step_right [OF t]
    show ?thesis
    proof (cases "is_Red U")
      case True
      then obtain h1 where "fix_right h root (Some a) (Some (faddr F)) (Some g) = Done (h1, root, Some g)"
        and t1: "holds h1 root (plug C (Nd (blacken U) g kg RED (blacken (fill F ?T))))"
        using fix_right_uncle [OF t] by blast
      then have "fix_step h root (Some a) = Done (h1, root, Some g)" using step by simp
      then show ?thesis
      proof (rule turnedI [OF _ t1])
        show "norr (Nd (blacken U) g kg RED (blacken (fill F ?T)))"
          using norr_parent [OF assms(2) sF(1)] U by simp
        show "bal m (Nd (blacken U) g kg RED (blacken (fill F ?T)))" if "bal m (fill G (fill F ?T))" for m
          using that True redF unfolding FR cg by (auto dest: bal_blacken_red split: if_splits)
      qed (simp add: FR)
    next
      case False
      show ?thesis
      proof (cases F)
        case (FR B p kp cp)
        then show ?thesis
          using fix_right_outer [OF t [unfolded FR] False] step sF assms(2,4) U False
          unfolding \<open>G = FR U g kg cg\<close> cg by (auto intro!: turnedI)
      next
        case (FL p kp cp A)
        then show ?thesis
          using fix_right_inner [OF t [unfolded FL] False] step sF assms(2,4) U False
          unfolding \<open>G = FR U g kg cg\<close> cg by (auto intro!: turnedI)
      qed
    qed
  qed
qed

text \<open>
  The loop, by the length of the path: a tree whose colours are right except between a red
  node and its parent becomes a red-black tree with the same keys.
\<close>

lemma fixViolation_repairs:
  assumes "holds h root (plug C (Nd X a k c Y))" and "norr (Nd X a k c Y)" and "okC C"
    and "bal n (plug C (Nd X a k c Y))"
  shows "repaired h root (Some a) (keys (plug C (Nd X a k c Y)))"
  using assms
proof (induction C arbitrary: h root X a k c Y rule: induct_list012)
  case 1
  then show ?case by (intro repaired_exit) auto
next
  case (2 F)
  then show ?case by (intro repaired_exit okC_norr) auto
next
  case (3 F G C)
  show ?case
  proof (cases "c = RED \<and> fcolor F = RED")
    case False
    then show ?thesis using "3.prems" by (intro repaired_exit okC_norr) auto
  next
    case True
    have "violates h root (Some a) = Done True"
      using violates_eq [OF "3.prems"(1)] True by simp
    moreover obtain h1 root1 X1 a1 k1 c1 Y1
      where step: "fix_step h root (Some a) = Done (h1, root1, Some a1)"
        and t1: "holds h1 root1 (plug C (Nd X1 a1 k1 c1 Y1))" "norr (Nd X1 a1 k1 c1 Y1)"
        and ks: "keys (Nd X1 a1 k1 c1 Y1) = keys (fill G (fill F (Nd X a k c Y)))"
        and b: "\<forall>m. bal m (fill G (fill F (Nd X a k c Y))) \<longrightarrow> bal m (Nd X1 a1 k1 c1 Y1)"
      using fix_step_turned [of h root F G C X a k Y] "3.prems"(1-3) True
      unfolding turned_def by blast
    moreover have "repaired h1 root1 (Some a1) (keys (plug C (Nd X1 a1 k1 c1 Y1)))"
    proof (rule "3.IH"(1) [OF t1])
      show "okC C" using "3.prems"(3) by simp
      show "bal n (plug C (Nd X1 a1 k1 c1 Y1))"
        using bal_plug_eq [OF _ b [rule_format], of n C] "3.prems"(4) by simp
    qed
    ultimately show ?thesis
      using repaired_turn keys_plug [OF ks] by simp
  qed
qed

end
