(* ===== verification/Bpset.thy ===== *)
theory Bpset
  imports Bpfix
begin

text \<open>
  The operations of \<open>map.c\<close> as operations on sets of keys: insertion of a new key keeps the
  search order and the red-black invariants and adds the key; search decides membership;
  deletion keeps the search order and removes the key, but not the parent pointers.
\<close>

subsection \<open>Search order\<close>

lemma sless_trans: "a <s b \<Longrightarrow> b <s c \<Longrightarrow> a <s c" for a b c :: i32
  by (simp add: word_sless_alt)

lemma sless_linear: "\<not> a <s b \<Longrightarrow> a \<noteq> b \<Longrightarrow> b <s a" for a b :: i32
  by (auto simp: word_sless_alt not_less le_less dest: signed_word_eqI)

lemma sless_irrefl [simp]: "\<not> a <s a" for a :: i32
  by (simp add: word_sless_alt)

lemma sless_asym: "a <s b \<Longrightarrow> \<not> b <s a" for a b :: i32
  by (simp add: word_sless_alt)

lemma bst_Lf [simp]: "bst Lf"
  by (simp add: bst_def)

lemma bst_Nd [simp]:
  "bst (Nd l a k c r) \<longleftrightarrow>
     bst l \<and> bst r \<and> (\<forall>x \<in> set (keys l). x <s k) \<and> (\<forall>x \<in> set (keys r). k <s x)"
  by (auto simp: bst_def sorted_wrt_append intro: sless_trans)

subsection \<open>\<open>insertBST\<close>\<close>

fun ins :: "i32 \<Rightarrow> nat \<Rightarrow> ptree \<Rightarrow> ptree" where
  "ins k q Lf = Nd Lf q k RED Lf"
| "ins k q (Nd l a x c r) =
     (if k <s x then Nd (ins k q l) a x c r
      else if x <s k then Nd l a x c (ins k q r)
      else Nd l a x c r)"

text \<open>The path on which the new node is reached.\<close>

fun descend :: "i32 \<Rightarrow> ptree \<Rightarrow> frame list \<Rightarrow> frame list" where
  "descend k Lf C = C"
| "descend k (Nd l a x c r) C =
     (if k <s x then descend k l (FL a x c r # C) else descend k r (FR l a x c # C))"

lemma ins_plug:
  "k \<notin> set (keys t) \<Longrightarrow> plug C (ins k q t) = plug (descend k t C) (Nd Lf q k RED Lf)"
proof (induction t arbitrary: C)
  case (Nd l a x c r)
  then show ?case
    using Nd.IH(1) [of "FL a x c r # C"] Nd.IH(2) [of "FR l a x c # C"] sless_linear [of k x] by auto
qed simp

lemma descend_okC:
  "norr t \<Longrightarrow> okC C \<Longrightarrow> (is_Red t \<Longrightarrow> C \<noteq> [] \<and> fcolor (hd C) = BLACK) \<Longrightarrow> okC (descend k t C)"
proof (induction t arbitrary: C)
  case (Nd l a x c r)
  then show ?case
    using Nd.IH(1) [of "FL a x c r # C"] Nd.IH(2) [of "FR l a x c # C"] by (cases c) auto
qed simp

lemma bal_ins: "bal n t \<Longrightarrow> bal n (ins k q t)"
  by (induction t arbitrary: n) auto

lemma set_keys_ins: "set (keys (ins k q t)) = insert k (set (keys t))"
  by (induction t) (auto dest: sless_linear)

lemma bst_ins: "bst t \<Longrightarrow> bst (ins k q t)"
  by (induction t) (auto simp: set_keys_ins)

lemma set_addrs_ins: "k \<notin> set (keys t) \<Longrightarrow> set (addrs (ins k q t)) = insert q (set (addrs t))"
  by (induction t) (auto dest: sless_linear)

lemma distinct_addrs_ins:
  "k \<notin> set (keys t) \<Longrightarrow> distinct (addrs t) \<Longrightarrow> q \<notin> set (addrs t) \<Longrightarrow> distinct (addrs (ins k q t))"
  by (induction t) (auto simp: set_addrs_ins)

lemma root_ins [simp]: "t \<noteq> Lf \<Longrightarrow> root_of (ins k q t) = root_of t"
  by (cases t) auto

lemma put_same:
  "cells h a = Some n \<Longrightarrow> f n = n \<Longrightarrow> node_put h (Some a) f = Done h"
  by (simp add: fun_upd_idem)

text \<open>What the recursion does to a subtree, for a key that is not in it.\<close>

definition inserted :: "heap \<Rightarrow> ptr \<Rightarrow> ptree \<Rightarrow> i32 \<Rightarrow> nat \<Rightarrow> bool" where
  "inserted h par t k q \<longleftrightarrow>
     (\<exists>h'. insertBST h (root_of t) (Some q) = Some (Done (h', root_of t)) \<and>
        rep h' par (ins k q t) \<and> fresh h' = fresh h \<and>
        (\<forall>b. b \<notin> insert q (set (addrs t)) \<longrightarrow> cells h' b = cells h b))"

lemma insertBST_None: "insertBST h None pt = Some (Done (h, pt))"
  by (subst insertBST.simps) simp

lemma insertBST_inserts:
  assumes "rep h par t" and "distinct (addrs t)" and "q \<notin> set (addrs t)" and "k \<notin> set (keys t)"
    and "cells h q = Some \<lparr>n_data = k, n_color = RED, n_left = None, n_right = None, n_parent = None\<rparr>"
    and "t \<noteq> Lf"
  shows "inserted h par t k q"
  using assms
proof (induction t arbitrary: par)
  case (Nd l a x c r)
  have ne: "k <s x \<or> \<not> k <s x \<and> x <s k" using Nd.prems(4) sless_linear [of k x] by auto
  have aq: "a \<noteq> q" using Nd.prems(3) by auto
  note na = Nd.prems(1)
  show ?case
  proof (cases "k <s x")
    case True
    show ?thesis
    proof (cases "l = Lf")
      case True
      then show ?thesis
        using Nd.prems \<open>k <s x\<close> aq unfolding inserted_def
        by (subst insertBST.simps) (auto simp: insertBST_None)
    next
      case False
      then obtain b where b: "root_of l = Some b" by (cases l) auto
      obtain h1 where h1: "insertBST h (root_of l) (Some q) = Some (Done (h1, root_of l))"
        "rep h1 (Some a) (ins k q l)" "fresh h1 = fresh h"
        "\<forall>b. b \<notin> insert q (set (addrs l)) \<longrightarrow> cells h1 b = cells h b"
        using Nd.IH(1) [of "Some a"] Nd.prems False by (auto simp: inserted_def)
      have a: "cells h1 a = cells h a" using h1(4) Nd.prems(2) aq by auto
      obtain n where n: "cells h1 b = Some n" "n_parent n = Some a"
        using rep_root_cell [OF h1(2), of b] False b by auto
      have "rep h1 (Some a) r"
        by (rule rep_frame [of h]) (use Nd.prems h1(4) in auto)
      then show ?thesis
        using Nd.prems \<open>k <s x\<close> aq h1 a n b False unfolding inserted_def
        by (subst insertBST.simps) (auto simp: put_same simp del: node_put_Some)
    qed
  next
    case gt: False
    show ?thesis
    proof (cases "r = Lf")
      case True
      then show ?thesis
        using Nd.prems gt ne aq unfolding inserted_def
        by (subst insertBST.simps) (auto simp: insertBST_None)
    next
      case False
      then obtain b where b: "root_of r = Some b" by (cases r) auto
      obtain h1 where h1: "insertBST h (root_of r) (Some q) = Some (Done (h1, root_of r))"
        "rep h1 (Some a) (ins k q r)" "fresh h1 = fresh h"
        "\<forall>b. b \<notin> insert q (set (addrs r)) \<longrightarrow> cells h1 b = cells h b"
        using Nd.IH(2) [of "Some a"] Nd.prems False by (auto simp: inserted_def)
      have a: "cells h1 a = cells h a" using h1(4) Nd.prems(2) aq by auto
      obtain n where n: "cells h1 b = Some n" "n_parent n = Some a"
        using rep_root_cell [OF h1(2), of b] False b by auto
      have "rep h1 (Some a) l"
        by (rule rep_frame [of h]) (use Nd.prems h1(4) in auto)
      then show ?thesis
        using Nd.prems gt ne aq h1 a n b False unfolding inserted_def
        by (subst insertBST.simps) (auto simp: put_same simp del: node_put_Some)
    qed
  qed
qed simp

subsection \<open>\<open>insertNode\<close>\<close>

lemma createNode_eq:
  "createNode h k =
     (h\<lparr>cells := (cells h)(fresh h \<mapsto>
          \<lparr>n_data = k, n_color = RED, n_left = None, n_right = None, n_parent = None\<rparr>),
        fresh := Suc (fresh h)\<rparr>, Some (fresh h))"
  by (simp add: createNode_def)

lemma rep_fresh [simp]: "rep (h\<lparr>cells := m, fresh := n\<rparr>) par t = rep (h\<lparr>cells := m\<rparr>) par t"
  by (induction t arbitrary: par) auto

text \<open>The heap with the new node, which is not yet in the tree.\<close>

lemma created_rep:
  assumes "holds h root t" and "createNode h k = (h1, pt)"
  shows "rep h1 None t" and "fresh h \<notin> set (addrs t)" and "pt = Some (fresh h)"
    and "cells h1 (fresh h) =
      Some \<lparr>n_data = k, n_color = RED, n_left = None, n_right = None, n_parent = None\<rparr>"
    and "fresh h1 = Suc (fresh h)" and "holds h1 root t"
proof -
  show n: "fresh h \<notin> set (addrs t)" using assms(1) by (auto simp: holds_def)
  show "pt = Some (fresh h)" "fresh h1 = Suc (fresh h)"
    "cells h1 (fresh h) =
      Some \<lparr>n_data = k, n_color = RED, n_left = None, n_right = None, n_parent = None\<rparr>"
    using assms(2) by (auto simp: createNode_eq)
  show r: "rep h1 None t"
    by (rule rep_frame [of h]) (use assms n in \<open>auto simp: holds_def createNode_eq\<close>)
  show "holds h1 root t"
    using assms r by (auto simp: holds_def createNode_eq less_Suc_eq)
qed

lemma inserted_holds:
  assumes "holds h root t" and "createNode h k = (h1, pt)" and "k \<notin> set (keys t)"
  shows "\<exists>h2 root2. insertBST h1 root pt = Some (Done (h2, root2)) \<and>
    holds h2 root2 (ins k (fresh h) t)"
proof (cases "t = Lf")
  case True
  then show ?thesis
    using assms by (auto simp: createNode_eq insertBST_None holds_def)
next
  case False
  note c = created_rep [OF assms(1,2)]
  have d: "distinct (addrs t)" and root: "root = root_of t" using assms(1) by (auto simp: holds_def)
  obtain h2 where h2: "insertBST h1 (root_of t) (Some (fresh h)) = Some (Done (h2, root_of t))"
    "rep h2 None (ins k (fresh h) t)" "fresh h2 = fresh h1"
    using insertBST_inserts [OF c(1) d c(2) assms(3) c(4) False] unfolding inserted_def by blast
  have "\<forall>a \<in> set (addrs (ins k (fresh h) t)). a < fresh h2"
    using assms(1) h2(3) c(5) set_addrs_ins [OF assms(3)] by (auto simp: holds_def less_Suc_eq)
  then have "holds h2 (root_of t) (ins k (fresh h) t)"
    using h2(2) distinct_addrs_ins [OF assms(3) d c(2)] False by (simp add: holds_def)
  then show ?thesis using h2(1) c(3) root by auto
qed

text \<open>Insertion of a new key into a red-black tree.\<close>

lemma insertNode_inserts:
  assumes "holds h root t" and "rbt t" and "bst t" and "k \<notin> set (keys t)"
  shows "\<exists>h' root' t'. insertNode h root k = Some (Done (h', root')) \<and> holds h' root' t' \<and>
    rbt t' \<and> bst t' \<and> set (keys t') = insert k (set (keys t))"
proof -
  obtain h1 pt where c: "createNode h k = (h1, pt)" by fastforce
  obtain h2 root2 where i: "insertBST h1 root pt = Some (Done (h2, root2))"
    and t2: "holds h2 root2 (ins k (fresh h) t)"
    using inserted_holds [OF assms(1) c assms(4)] by blast
  let ?C = "descend k t []" and ?T = "Nd Lf (fresh h) k RED Lf"
  have eq: "ins k (fresh h) t = plug ?C ?T" using ins_plug [OF assms(4), of "[]"] by simp
  obtain n where "bal n t" using assms(2) by (auto simp: rbt_def)
  then have "bal n (plug ?C ?T)" using bal_ins eq by metis
  moreover have "okC ?C" using assms(2) by (auto simp: rbt_def intro: descend_okC)
  ultimately have "repaired h2 root2 (Some (fresh h)) (keys (ins k (fresh h) t))"
    using fixViolation_repairs [of h2 root2 ?C Lf "fresh h" k RED Lf n] t2 eq by simp
  then obtain h' root' t' where "fixViolation h2 root2 (Some (fresh h)) = Some (Done (h', root'))"
    and t': "holds h' root' t'" "rbt t'" and ks: "keys t' = keys (ins k (fresh h) t)"
    by (auto simp: repaired_def)
  then have "insertNode h root k = Some (Done (h', root'))"
    using i c by (simp add: insertNode_def createNode_eq)
  moreover have "bst t'" using bst_ins [OF assms(3), of k "fresh h"] ks by (simp add: bst_def)
  ultimately show ?thesis using t' ks set_keys_ins by metis
qed

text \<open>
  A key that is already there: the new node is not linked, and \<open>fixViolation\<close> goes through
  its null parent.
\<close>

lemma insertBST_present:
  assumes "rep h par t" and "bst t" and "k \<in> set (keys t)"
    and "\<exists>n. cells h q = Some n \<and> n_data n = k"
  shows "insertBST h (root_of t) (Some q) = Some (Done (h, root_of t))"
  using assms
proof (induction t arbitrary: par)
  case (Nd l a x c r)
  consider (lt) "k <s x" "k \<in> set (keys l)" | (eq) "k = x" | (gt) "x <s k" "k \<in> set (keys r)"
    using Nd.prems(2,3) by auto
  then show ?case
  proof cases
    case lt
    then obtain b where b: "root_of l = Some b" by (cases l) auto
    obtain n where "cells h b = Some n" "n_parent n = Some a"
      using rep_root_cell [of h "Some a" l b] Nd.prems(1) b by auto
    then show ?thesis
      using Nd.prems Nd.IH(1) [of "Some a"] lt b
      by (subst insertBST.simps) (auto simp: put_same simp del: node_put_Some)
  next
    case eq
    then show ?thesis using Nd.prems by (subst insertBST.simps) auto
  next
    case gt
    then obtain b where b: "root_of r = Some b" by (cases r) auto
    obtain n where "cells h b = Some n" "n_parent n = Some a"
      using rep_root_cell [of h "Some a" r b] Nd.prems(1) b by auto
    then show ?thesis
      using Nd.prems Nd.IH(2) [of "Some a"] gt b sless_asym [OF gt(1)]
      by (subst insertBST.simps) (auto simp: put_same simp del: node_put_Some)
  qed
qed simp

lemma insertNode_present:
  assumes "holds h root t" and "bst t" and "k \<in> set (keys t)"
  shows "insertNode h root k = Some (Fault NullPointer)"
proof -
  obtain h1 pt where c: "createNode h k = (h1, pt)" by fastforce
  note r = created_rep [OF assms(1) c]
  have root: "root = root_of t" using assms(1) by (simp add: holds_def)
  have "insertBST h1 root pt = Some (Done (h1, root))"
    using insertBST_present [OF r(1) assms(2,3), of "fresh h"] r(3,4) root by simp
  moreover have "root \<noteq> pt" using r(2,3) root root_notin by auto
  then have "violates h1 root pt = Fault NullPointer"
    using r(3,4) by (simp add: violates_def node_at_def)
  then have "fixViolation h1 root pt = Some (Fault NullPointer)"
    by (subst fixViolation.simps) simp
  ultimately show ?thesis using c by (simp add: insertNode_def)
qed

end
