(* ===== verification/Bpdelete.thy ===== *)
theory Bpdelete
  imports Bpset
begin

text \<open>
  Search and deletion of \<open>map.c\<close>, which only follow child pointers: what they do on a heap
  whose child pointers form a search tree, whatever its parent pointers and colours are;
  and the runs on which the stale parent pointers that a deletion leaves make a later
  insertion tie the tree into a cycle.
\<close>

subsection \<open>Trees of child pointers\<close>

fun links :: "heap \<Rightarrow> ptree \<Rightarrow> bool" where
  "links h Lf = True"
| "links h (Nd l a k c r) =
     ((\<exists>p. cells h a = Some \<lparr>n_data = k, n_color = c, n_left = root_of l, n_right = root_of r,
        n_parent = p\<rparr>) \<and> links h l \<and> links h r)"

definition linked :: "heap \<Rightarrow> ptr \<Rightarrow> ptree \<Rightarrow> bool" where
  "linked h root t \<longleftrightarrow> links h t \<and> root = root_of t \<and> distinct (addrs t)"

lemma rep_links: "rep h par t \<Longrightarrow> links h t"
  by (induction t arbitrary: par) auto

lemma holds_linked: "holds h root t \<Longrightarrow> linked h root t"
  by (auto simp: holds_def linked_def rep_links)

lemma links_frame:
  "links h t \<Longrightarrow> (\<And>a. a \<in> set (addrs t) \<Longrightarrow> cells h' a = cells h a) \<Longrightarrow> links h' t"
  by (induction t) auto

lemma links_upd [simp]:
  "a \<notin> set (addrs t) \<Longrightarrow> links (h\<lparr>cells := m(a := n)\<rparr>) t = links (h\<lparr>cells := m\<rparr>) t"
  by (induction t) (auto simp: fun_upd_other simp del: fun_upd_apply)

subsection \<open>Search\<close>

lemma findNode_links:
  assumes "links h t" and "bst t"
  shows "\<exists>p. findNode h (root_of t) k = Some (Done p) \<and> (p \<noteq> None \<longleftrightarrow> k \<in> set (keys t))"
  using assms
proof (induction t)
  case Lf
  then show ?case by (subst findNode.simps) simp
next
  case (Nd l a x c r)
  consider (lt) "x <s k" | (eq) "k = x" | (gt) "k <s x" using sless_linear [of k x] by auto
  then show ?case
  proof cases
    case lt
    then have "x \<noteq> k" "k \<notin> set (keys l)" using Nd.prems(2) sless_asym by auto
    then show ?thesis using Nd.prems Nd.IH(2) lt by (subst findNode.simps) auto
  next
    case eq
    then show ?thesis using Nd.prems by (subst findNode.simps) auto
  next
    case gt
    then have "x \<noteq> k" "\<not> x <s k" "k \<notin> set (keys r)" using Nd.prems(2) sless_asym by auto
    then show ?thesis using Nd.prems Nd.IH(1) by (subst findNode.simps) auto
  qed
qed

lemma findNode_decides:
  "linked h root t \<Longrightarrow> bst t \<Longrightarrow>
   \<exists>p. findNode h root k = Some (Done p) \<and> (p \<noteq> None \<longleftrightarrow> k \<in> set (keys t))"
  using findNode_links by (auto simp: linked_def)

subsection \<open>Deletion\<close>

text \<open>
  The shape of the tree after a deletion. Where a node has one child, the child is copied
  into the node and freed, so that the address of the node stays.
\<close>

fun pull_up :: "nat \<Rightarrow> ptree \<Rightarrow> ptree" where
  "pull_up a Lf = Lf"
| "pull_up a (Nd l b k c r) = Nd l a k c r"

fun del :: "i32 \<Rightarrow> ptree \<Rightarrow> ptree" where
  "del k Lf = Lf"
| "del k (Nd l a x c r) =
     (if k <s x then Nd (del k l) a x c r
      else if x <s k then Nd l a x c (del k r)
      else if l = Lf then pull_up a r
      else if r = Lf then pull_up a l
      else Nd l a (hd (keys r)) c (del (hd (keys r)) r))"

lemma pull_up_simps [simp]:
  "keys (pull_up a t) = keys t" "bst (pull_up a t) = bst t"
  by (cases t; simp add: bst_def)+

lemma set_addrs_pull_up: "set (addrs (pull_up a t)) \<subseteq> insert a (set (addrs t))"
  by (cases t) auto

lemma distinct_pull_up: "distinct (addrs t) \<Longrightarrow> a \<notin> set (addrs t) \<Longrightarrow> distinct (addrs (pull_up a t))"
  by (cases t) auto

lemma set_addrs_del: "set (addrs (del k t)) \<subseteq> set (addrs t)"
proof (induction k t rule: del.induct)
  case (2 k l a x c r)
  then show ?case using set_addrs_pull_up [of a l] set_addrs_pull_up [of a r] by auto
qed simp

lemma notin_del: "a \<notin> set (addrs t) \<Longrightarrow> a \<notin> set (addrs (del k t))"
  using set_addrs_del by blast

lemma distinct_addrs_del: "distinct (addrs t) \<Longrightarrow> distinct (addrs (del k t))"
proof (induction k t rule: del.induct)
  case (2 k l a x c r)
  then show ?case
    using set_addrs_del [of k l] set_addrs_del [of k r] set_addrs_del [of "hd (keys r)" r]
    by (auto intro!: distinct_pull_up)
qed simp

lemma keys_Nil [simp]: "keys t = [] \<longleftrightarrow> t = Lf"
  by (cases t) auto

lemma bst_min: "bst t \<Longrightarrow> t \<noteq> Lf \<Longrightarrow> x \<in> set (keys t) \<Longrightarrow> x = hd (keys t) \<or> hd (keys t) <s x"
  unfolding bst_def by (cases "keys t") auto

lemma set_keys_del: "bst t \<Longrightarrow> set (keys (del k t)) = set (keys t) - {k}"
proof (induction k t rule: del.induct)
  case (2 k l a x c r)
  have "k <s x \<or> x <s k \<or> k = x" using sless_linear by blast
  moreover have "hd (keys r) \<in> set (keys r)" if "r \<noteq> Lf" using that by simp
  ultimately show ?case using 2 sless_irrefl by (auto dest: sless_asym)
qed simp

lemma bst_del: "bst t \<Longrightarrow> bst (del k t)"
proof (induction k t rule: del.induct)
  case (2 k l a x c r)
  have "hd (keys r) \<in> set (keys r)" if "r \<noteq> Lf" using that by simp
  then show ?case
    using 2 bst_min [of r] by (auto simp: set_keys_del intro: sless_trans)
qed simp

lemma minValueNode_min:
  assumes "links h t" and "t \<noteq> Lf"
  shows "\<exists>b n. minValueNode h (root_of t) = Some (Done (Some b)) \<and> cells h b = Some n \<and>
    n_data n = hd (keys t)"
  using assms
proof (induction t)
  case (Nd l a x c r)
  then show ?case by (subst minValueNode.simps) (cases l; auto simp: hd_append)
qed simp

text \<open>What the recursion of \<open>deleteNodeBST\<close> does to a subtree.\<close>

definition deleted :: "heap \<Rightarrow> ptree \<Rightarrow> i32 \<Rightarrow> bool" where
  "deleted h t k \<longleftrightarrow>
     (\<exists>h'. deleteNodeBST h (root_of t) k = Some (Done (h', root_of (del k t))) \<and>
        links h' (del k t) \<and> (\<forall>b. b \<notin> set (addrs t) \<longrightarrow> cells h' b = cells h b))"

lemma deleted_Lf: "deleted h Lf k"
  unfolding deleted_def by (subst deleteNodeBST.simps) simp

lemma deleteNodeBST_deletes:
  "links h t \<Longrightarrow> distinct (addrs t) \<Longrightarrow> deleted h t k"
proof (induction k t arbitrary: h rule: del.induct)
  case (1 k)
  show ?case by (rule deleted_Lf)
next
  case (2 k l a x c r)
  obtain p where a: "cells h a = Some \<lparr>n_data = x, n_color = c, n_left = root_of l,
      n_right = root_of r, n_parent = p\<rparr>" and l: "links h l" and r: "links h r"
    using "2.prems"(1) by auto
  consider (lt) "k <s x" | (gt) "\<not> k <s x" "x <s k" | (eq) "\<not> k <s x" "\<not> x <s k" by blast
  then show ?case
  proof cases
    case lt
    then obtain h1 where h1: "deleteNodeBST h (root_of l) k = Some (Done (h1, root_of (del k l)))"
      "links h1 (del k l)" "\<forall>b. b \<notin> set (addrs l) \<longrightarrow> cells h1 b = cells h b"
      using "2.IH"(1) [OF _ l] "2.prems"(2) by (auto simp: deleted_def)
    have "links h1 r" by (rule links_frame [OF r]) (use h1(3) "2.prems"(2) in auto)
    then show ?thesis
      using a h1 lt "2.prems"(2) notin_del [of a l k] unfolding deleted_def
      by (subst deleteNodeBST.simps) auto
  next
    case gt
    then obtain h1 where h1: "deleteNodeBST h (root_of r) k = Some (Done (h1, root_of (del k r)))"
      "links h1 (del k r)" "\<forall>b. b \<notin> set (addrs r) \<longrightarrow> cells h1 b = cells h b"
      using "2.IH"(2) [OF _ _ r] "2.prems"(2) by (auto simp: deleted_def)
    have "links h1 l" by (rule links_frame [OF l]) (use h1(3) "2.prems"(2) in auto)
    then show ?thesis
      using a h1 gt "2.prems"(2) notin_del [of a r k] unfolding deleted_def
      by (subst deleteNodeBST.simps) auto
  next
    case eq
    consider (Lf) "l = Lf" "r = Lf" | (r) "l = Lf" "r \<noteq> Lf" | (l) "l \<noteq> Lf" "r = Lf"
      | (both) "l \<noteq> Lf" "r \<noteq> Lf" by blast
    then show ?thesis
    proof cases
      case Lf
      then show ?thesis
        using a eq unfolding deleted_def
        by (subst deleteNodeBST.simps) (auto simp: node_free_def Let_def)
    next
      case r
      then show ?thesis
        using a eq "2.prems" unfolding deleted_def
        by (cases r; subst deleteNodeBST.simps) (auto simp: node_free_def Let_def)
    next
      case l
      then show ?thesis
        using a eq "2.prems" unfolding deleted_def
        by (cases l; subst deleteNodeBST.simps) (auto simp: node_free_def Let_def)
    next
      case both
      let ?m = "hd (keys r)"
      obtain b n where b: "minValueNode h (root_of r) = Some (Done (Some b))" "cells h b = Some n"
        "n_data n = ?m"
        using minValueNode_min [OF r both(2)] by blast
      let ?h1 = "h\<lparr>cells := (cells h)(a \<mapsto>
          \<lparr>n_data = ?m, n_color = c, n_left = root_of l, n_right = root_of r, n_parent = p\<rparr>)\<rparr>"
      have "links ?h1 r" using r "2.prems"(2) by simp
      then obtain h2 where h2: "deleteNodeBST ?h1 (root_of r) ?m = Some (Done (h2, root_of (del ?m r)))"
        "links h2 (del ?m r)" "\<forall>b. b \<notin> set (addrs r) \<longrightarrow> cells h2 b = cells ?h1 b"
        using "2.IH"(3) [of ?h1] eq both "2.prems"(2) by (auto simp: deleted_def)
      have "links h2 l" by (rule links_frame [OF l]) (use h2(3) "2.prems"(2) in auto)
      moreover obtain bl where "root_of l = Some bl" using both(1) by (cases l) auto
      moreover obtain br where "root_of r = Some br" using both(2) by (cases r) auto
      ultimately show ?thesis
        using a b h2 eq both "2.prems"(2) notin_del [of a r ?m] unfolding deleted_def
        by (subst deleteNodeBST.simps) auto
    qed
  qed
qed

lemma deleteNode_deletes:
  assumes "linked h root t" and "bst t"
  shows "\<exists>h' root' t'. deleteNode h root k = Some (Done (h', root')) \<and> linked h' root' t' \<and>
    bst t' \<and> set (keys t') = set (keys t) - {k}"
proof -
  have "deleted h t k" using assms(1) deleteNodeBST_deletes by (simp add: linked_def)
  then obtain h' where "deleteNode h root k = Some (Done (h', root_of (del k t)))" "links h' (del k t)"
    using assms(1) by (auto simp: deleted_def deleteNode_def linked_def)
  then show ?thesis
    using bst_del [OF assms(2)] set_keys_del [OF assms(2)] distinct_addrs_del assms(1)
    by (auto simp: linked_def)
qed

subsection \<open>A search that does not return\<close>

text \<open>The nodes of a set lead a search from one to the other and never to the key.\<close>

definition traps_search :: "heap \<Rightarrow> nat set \<Rightarrow> i32 \<Rightarrow> bool" where
  "traps_search h S k \<longleftrightarrow>
     (\<forall>a \<in> S. \<exists>n. cells h a = Some n \<and> n_data n \<noteq> k \<and>
        (if n_data n <s k then n_right n else n_left n) \<in> Some ` S)"

lemma traps_search_diverges:
  assumes "traps_search h S k" and "a \<in> S"
  shows "findNode h (Some a) k = None"
proof -
  have "\<not> (traps_search h S k \<and> root \<in> Some ` S)" if "findNode h root k = Some r" for h root k r
  proof (rule findNode.raw_induct [OF _ that, where P = "\<lambda>h root k r.
      \<not> (traps_search h S k \<and> root \<in> Some ` S)"], goal_cases)
    case (1 find h root k r)
    show ?case
    proof
      assume *: "traps_search h S k \<and> root \<in> Some ` S"
      then obtain a n where "root = Some a" "cells h a = Some n" "n_data n \<noteq> k"
        and "(if n_data n <s k then n_right n else n_left n) \<in> Some ` S"
        by (auto simp: traps_search_def)
      then show False using 1 * by (auto split: if_splits)
    qed
  qed
  then have "findNode h (Some a) k \<noteq> Some r" for r using assms by blast
  then show ?thesis by (cases "findNode h (Some a) k") auto
qed

subsection \<open>Insertion after a deletion\<close>

text \<open>The recursions on a node that is known, for the evaluation of a run.\<close>

lemma insertBST_left:
  "cells h q = Some np \<Longrightarrow> cells h a = Some nr \<Longrightarrow> n_data np <s n_data nr \<Longrightarrow>
   insertBST h (Some a) (Some q) =
     bind_comp (insertBST h (n_left nr) (Some q)) (\<lambda>(h1, p).
     bind_comp (Some (node_put h1 (Some a) (n_left_update (\<lambda>_. p)))) (\<lambda>h2.
     bind_comp (Some (node_put h2 p (n_parent_update (\<lambda>_. Some a)))) (\<lambda>h3.
       Some (Done (h3, Some a)))))"
  by (subst insertBST.simps) simp

lemma insertBST_right:
  "cells h q = Some np \<Longrightarrow> cells h a = Some nr \<Longrightarrow> n_data nr <s n_data np \<Longrightarrow>
   insertBST h (Some a) (Some q) =
     bind_comp (insertBST h (n_right nr) (Some q)) (\<lambda>(h1, p).
     bind_comp (Some (node_put h1 (Some a) (n_right_update (\<lambda>_. p)))) (\<lambda>h2.
     bind_comp (Some (node_put h2 p (n_parent_update (\<lambda>_. Some a)))) (\<lambda>h3.
       Some (Done (h3, Some a)))))"
  by (subst insertBST.simps) (simp add: sless_asym)

lemma fixViolation_False:
  "violates h root pt = Done False \<Longrightarrow>
   fixViolation h root pt =
     bind_comp (Some (node_put h root (n_color_update (\<lambda>_. BLACK)))) (\<lambda>h1. Some (Done (h1, root)))"
  by (subst fixViolation.simps) simp

definition empty_heap :: heap where
  "empty_heap = \<lparr>cells = (\<lambda>_. None), fresh = 0\<rparr>"

text \<open>
  Breakpoints at 16 and 8; the deletion of 16 copies the node of 8 over it, with its red
  colour and its parent pointer, which now points to the node itself.
\<close>

definition stale_heap :: heap where
  "stale_heap =
     \<lparr>cells = (\<lambda>_. None)
        (0 \<mapsto> \<lparr>n_data = 8, n_color = RED, n_left = None, n_right = None, n_parent = Some 0\<rparr>),
      fresh = 2\<rparr>"

text \<open>Then an insertion of 12 turns the two nodes into children of each other.\<close>

definition tied_heap :: heap where
  "tied_heap =
     \<lparr>cells = (\<lambda>_. None)
        (0 \<mapsto> \<lparr>n_data = 8, n_color = BLACK, n_left = None, n_right = Some 2, n_parent = Some 2\<rparr>,
         2 \<mapsto> \<lparr>n_data = 12, n_color = RED, n_left = Some 0, n_right = None, n_parent = Some 0\<rparr>),
      fresh = 3\<rparr>"

lemma stale_run:
  "bind_comp (insertNode empty_heap None 16) (\<lambda>(h, r).
   bind_comp (insertNode h r 8) (\<lambda>(h, r). deleteNode h r 16)) = Some (Done (stale_heap, Some 0))"
proof -
  let ?n = "\<lambda>k c l p. \<lparr>n_data = k, n_color = c, n_left = l, n_right = None, n_parent = p\<rparr>"
  have 1: "insertNode empty_heap None 16 =
      Some (Done (\<lparr>cells = (\<lambda>_. None)(0 \<mapsto> ?n 16 BLACK None None), fresh = 1\<rparr>, Some 0))"
    by (simp add: insertNode_def createNode_def empty_heap_def insertBST_None fixViolation_False
        violates_def)
  have 2: "insertNode \<lparr>cells = (\<lambda>_. None)(0 \<mapsto> ?n 16 BLACK None None), fresh = 1\<rparr> (Some 0) 8 =
      Some (Done (\<lparr>cells = (\<lambda>_. None)(0 \<mapsto> ?n 16 BLACK (Some 1) None, 1 \<mapsto> ?n 8 RED None (Some 0)),
        fresh = 2\<rparr>, Some 0))"
    by (simp add: insertNode_def createNode_def insertBST_None insertBST_left fixViolation_False
        violates_def word_sless_alt fun_upd_twist)
  have 3: "deleteNode \<lparr>cells = (\<lambda>_. None)(0 \<mapsto> ?n 16 BLACK (Some 1) None, 1 \<mapsto> ?n 8 RED None (Some 0)),
        fresh = 2\<rparr> (Some 0) 16 = Some (Done (stale_heap, Some 0))"
    unfolding deleteNode_def stale_heap_def
    by (subst deleteNodeBST.simps) (simp add: node_free_def fun_upd_twist)
  show ?thesis unfolding 1 bind_comp_simps prod.case 2 3 by (rule refl)
qed

lemma tied_run: "insertNode stale_heap (Some 0) 12 = Some (Done (tied_heap, Some 0))"
proof -
  let ?h = "\<lparr>cells = (\<lambda>_. None)
        (0 \<mapsto> \<lparr>n_data = 8, n_color = RED, n_left = None, n_right = Some 2, n_parent = Some 0\<rparr>,
         2 \<mapsto> \<lparr>n_data = 12, n_color = RED, n_left = None, n_right = None, n_parent = Some 0\<rparr>),
      fresh = 3\<rparr>"
  have 1: "insertBST (fst (createNode stale_heap 12)) (Some 0) (Some 2) = Some (Done (?h, Some 0))"
    by (simp add: createNode_def stale_heap_def insertBST_None insertBST_right word_sless_alt
        fun_upd_twist)
  have 2: "violates ?h (Some 0) (Some 2) = Done True"
    by (simp add: violates_def)
  let ?t = "\<lparr>cells = (\<lambda>_. None)
        (0 \<mapsto> \<lparr>n_data = 8, n_color = RED, n_left = None, n_right = Some 2, n_parent = Some 2\<rparr>,
         2 \<mapsto> \<lparr>n_data = 12, n_color = RED, n_left = Some 0, n_right = None, n_parent = Some 0\<rparr>),
      fresh = 3\<rparr>"
  have 3: "fix_step ?h (Some 0) (Some 2) = Done (?t, Some 0, Some 0)"
    by (simp add: fix_step_def fix_right_def is_red_def rotateLeft_def relink_def swap_colors_def
        Let_def fun_upd_twist)
  have 4: "fixViolation ?t (Some 0) (Some 0) = Some (Done (tied_heap, Some 0))"
    by (simp add: fixViolation_False violates_def tied_heap_def fun_upd_twist)
  have "snd (createNode stale_heap 12) = Some 2"
    by (simp add: createNode_def stale_heap_def)
  then show ?thesis
    using 1 fixViolation_turn [OF 2 3] 4 by (simp add: insertNode_def split_def)
qed

lemma tied_search: "findNode tied_heap (Some 0) 10 = None"
  by (rule traps_search_diverges [of _ "{0, 2}"])
     (simp_all add: traps_search_def tied_heap_def word_sless_alt)

end
