(* ===== verification/Gdbstub.thy ===== *)
theory Gdbstub
  imports Simulator Bpdelete
begin

text \<open>
  The callbacks of \<open>tools/gdbstub.c\<close>, which the library \<open>mini-gdbstub\<close> calls while a session
  with GDB runs: access to registers and memory, single steps, breakpoints, and the loop
  that runs the hart to the next breakpoint. The interface of the breakpoint tree is the
  locale \<open>breakpoint_store\<close>, interpreted on the functions of \<open>map.c\<close>.
\<close>

subsection \<open>State\<close>

text \<open>\<open>struct rv\<close> with its members for GDB; the heap of breakpoint nodes is explicit.\<close>

record 'w gdb =
  sim_of :: "'w sim"
  halt :: bool
  is_interrupted :: bool
  bp_heap :: heap
  bp_root :: ptr

definition EFAULT :: int where "EFAULT = 14"

datatype action = ACT_NONE | ACT_RESUME | ACT_SHUTDOWN

text \<open>The only kind of breakpoint the stub acts on, and all others.\<close>

datatype bp_type = BP_SOFTWARE | BP_OTHER

subsection \<open>Callbacks\<close>

definition srv_is_halted :: "'w gdb \<Rightarrow> bool" where
  "srv_is_halted g = halt g"

definition srv_is_interrupt :: "'w gdb \<Rightarrow> bool" where
  "srv_is_interrupt g = is_interrupted g"

definition srv_get_reg_bytes :: "int \<Rightarrow> nat" where
  "srv_get_reg_bytes regno = 4"

definition srv_on_interrupt :: "'w gdb \<Rightarrow> 'w gdb" where
  "srv_on_interrupt g = g\<lparr>is_interrupted := True\<rparr>"

text \<open>
  Registers. The value is a \<open>size_t\<close> of 64 bits; the \<open>int\<close> that is stored in it is
  sign-extended. A negative number reads in front of the array.
\<close>

definition srv_read_reg :: "config \<Rightarrow> 'w gdb \<Rightarrow> int \<Rightarrow> i64 \<Rightarrow> (int \<times> i64) run" where
  "srv_read_reg cfg g regno value =
     (let rv = cpu (sim_of g) in
      if int (REGNUM cfg) < regno then Done (EFAULT, value)
      else if regno = int (REGNUM cfg) then Done (0, scast (pc rv))
      else if regno < 0 then Fault OutOfBlock
      else Done (0, scast (srv32_read_regs cfg rv (nat regno))))"

definition srv_write_reg :: "config \<Rightarrow> 'w gdb \<Rightarrow> int \<Rightarrow> i64 \<Rightarrow> (int \<times> 'w gdb) run" where
  "srv_write_reg cfg g regno value =
     (let s = sim_of g; rv = cpu s in
      if int (REGNUM cfg) < regno then Done (EFAULT, g)
      else if regno = int (REGNUM cfg) then
        Done (0, g\<lparr>sim_of := s\<lparr>cpu := rv\<lparr>pc := ucast value\<rparr>\<rparr>\<rparr>)
      else if regno < 0 then Fault OutOfBlock
      else Done (0, g\<lparr>sim_of := s\<lparr>cpu := srv32_write_regs cfg rv (nat regno) (ucast value)\<rparr>\<rparr>))"

text \<open>
  Memory. Both answer 0 in every case: a range outside memory is not reported, and leaves the
  buffer \<open>val\<close> or the memory as it was.
\<close>

definition srv_read_mem :: "'w gdb \<Rightarrow> i64 \<Rightarrow> i64 \<Rightarrow> u8 list \<Rightarrow> (int \<times> u8 list) run" where
  "srv_read_mem g addr len val =
     bind_run (srv32_read_mem (cpu (sim_of g)) (ucast addr) (ucast len)) (\<lambda>r.
       Done (0, case r of Some bs \<Rightarrow> bs @ drop (length bs) val | None \<Rightarrow> val))"

definition srv_write_mem :: "'w gdb \<Rightarrow> i64 \<Rightarrow> i64 \<Rightarrow> u8 list \<Rightarrow> (int \<times> 'w gdb) run" where
  "srv_write_mem g addr len val =
     bind_run (srv32_write_mem (cpu (sim_of g)) (ucast addr) (ucast len) val) (\<lambda>r.
       Done (0, case r of Some rv \<Rightarrow> g\<lparr>sim_of := (sim_of g)\<lparr>cpu := rv\<rparr>\<rparr> | None \<Rightarrow> g))"

definition srv_stepi :: "config \<Rightarrow> 'w host \<Rightarrow> 'w gdb \<Rightarrow> ('w gdb \<times> action) run" where
  "srv_stepi cfg h g =
     bind_run (srv32_step cfg h (sim_of g)) (\<lambda>(s, r). Done (g\<lparr>sim_of := s\<rparr>, ACT_RESUME))"

definition srv_set_bp :: "'w gdb \<Rightarrow> i64 \<Rightarrow> bp_type \<Rightarrow> ('w gdb \<times> bool) comp" where
  "srv_set_bp g addr type =
     (if type \<noteq> BP_SOFTWARE then Some (Done (g, True))
      else bind_comp (insertNode (bp_heap g) (bp_root g) (ucast addr)) (\<lambda>(hp, root).
        Some (Done (g\<lparr>bp_heap := hp, bp_root := root\<rparr>, True))))"

definition srv_del_bp :: "'w gdb \<Rightarrow> i64 \<Rightarrow> bp_type \<Rightarrow> ('w gdb \<times> bool) comp" where
  "srv_del_bp g addr type =
     (if type \<noteq> BP_SOFTWARE then Some (Done (g, True))
      else bind_comp (findNode (bp_heap g) (bp_root g) (ucast addr)) (\<lambda>p.
        if p = None then Some (Done (g, True))
        else bind_comp (deleteNode (bp_heap g) (bp_root g) (ucast addr)) (\<lambda>(hp, root).
          Some (Done (g\<lparr>bp_heap := hp, bp_root := root\<rparr>, True)))))"

text \<open>
  \<open>srv_cont\<close>. The thread of the session may set the interrupt flag at any time: \<open>intr n\<close> says
  that it did so before the \<open>n\<close>-th test of the flag. The result of \<open>srv32_step\<close> is ignored.
\<close>

partial_function (option) cont_loop ::
    "config \<Rightarrow> 'w host \<Rightarrow> (nat \<Rightarrow> bool) \<Rightarrow> nat \<Rightarrow> 'w gdb \<Rightarrow> 'w gdb comp" where
  "cont_loop cfg h intr n g0 =
     (let g = (if intr n then srv_on_interrupt g0 else g0) in
      if srv_is_halted g \<or> srv_is_interrupt g then Some (Done g)
      else bind_comp (findNode (bp_heap g) (bp_root g) (pc (cpu (sim_of g)))) (\<lambda>p.
        if p \<noteq> None then Some (Done g)
        else bind_comp (Some (srv32_step cfg h (sim_of g))) (\<lambda>(s, r).
          cont_loop cfg h intr (Suc n) (g\<lparr>sim_of := s\<rparr>))))"

definition srv_cont ::
    "config \<Rightarrow> 'w host \<Rightarrow> (nat \<Rightarrow> bool) \<Rightarrow> 'w gdb \<Rightarrow> ('w gdb \<times> action) comp" where
  "srv_cont cfg h intr g =
     bind_comp (cont_loop cfg h intr 0 g) (\<lambda>g'.
       Some (Done (g'\<lparr>is_interrupted := False\<rparr>, ACT_RESUME)))"

declare cont_loop.simps [code]

subsection \<open>The breakpoint store\<close>

text \<open>
  What the callbacks rely on: a search decides membership in the set a store represents;
  an addition to a store in good order yields one in good order; a removal yields one that
  can be searched, but that need not be in good order.
\<close>

locale breakpoint_store =
  fixes find :: "'b \<Rightarrow> i32 \<Rightarrow> ptr comp"
    and add :: "'b \<Rightarrow> i32 \<Rightarrow> 'b comp"
    and remove :: "'b \<Rightarrow> i32 \<Rightarrow> 'b comp"
    and sound :: "'b \<Rightarrow> i32 set \<Rightarrow> bool"
    and readable :: "'b \<Rightarrow> i32 set \<Rightarrow> bool"
  assumes sound_readable: "sound b S \<Longrightarrow> readable b S"
    and find_decides: "readable b S \<Longrightarrow> \<exists>p. find b k = Some (Done p) \<and> (p \<noteq> None \<longleftrightarrow> k \<in> S)"
    and add_new: "sound b S \<Longrightarrow> k \<notin> S \<Longrightarrow> \<exists>b'. add b k = Some (Done b') \<and> sound b' (insert k S)"
    and remove_any: "readable b S \<Longrightarrow> \<exists>b'. remove b k = Some (Done b') \<and> readable b' (S - {k})"
begin

lemma find_hit: "readable b S \<Longrightarrow> k \<in> S \<Longrightarrow> \<exists>a. find b k = Some (Done (Some a))"
  using find_decides [of b S k] by auto

lemma find_miss: "readable b S \<Longrightarrow> k \<notin> S \<Longrightarrow> find b k = Some (Done None)"
  using find_decides [of b S k] by auto

fun adds :: "'b \<Rightarrow> i32 list \<Rightarrow> 'b comp" where
  "adds b [] = Some (Done b)"
| "adds b (k # ks) = bind_comp (add b k) (\<lambda>b'. adds b' ks)"

text \<open>Any number of new keys can be added, and are then found.\<close>

lemma adds_sound:
  "sound b S \<Longrightarrow> distinct ks \<Longrightarrow> set ks \<inter> S = {} \<Longrightarrow>
   \<exists>b'. adds b ks = Some (Done b') \<and> sound b' (set ks \<union> S)"
proof (induction ks arbitrary: b S)
  case (Cons k ks)
  then obtain b1 where "add b k = Some (Done b1)" "sound b1 (insert k S)"
    using add_new [of b S k] by auto
  then show ?case using Cons.IH [of b1 "insert k S"] Cons.prems by auto
qed simp

lemma adds_found:
  assumes "sound b {}" and "distinct ks"
  shows "\<exists>b'. adds b ks = Some (Done b') \<and>
    (\<forall>k. find b' k = Some (Done None) \<longleftrightarrow> k \<notin> set ks)"
proof -
  obtain b' where b': "adds b ks = Some (Done b')" "sound b' (set ks)"
    using adds_sound [OF assms(1,2)] by auto
  then have "find b' k = Some (Done None) \<longleftrightarrow> k \<notin> set ks" for k
    using find_hit find_miss sound_readable [OF b'(2)] by force
  then show ?thesis using b'(1) by blast
qed

end

definition sound_tree :: "heap \<times> ptr \<Rightarrow> i32 set \<Rightarrow> bool" where
  "sound_tree b S \<longleftrightarrow> (\<exists>t. holds (fst b) (snd b) t \<and> rbt t \<and> bst t \<and> set (keys t) = S)"

definition search_tree :: "heap \<times> ptr \<Rightarrow> i32 set \<Rightarrow> bool" where
  "search_tree b S \<longleftrightarrow> (\<exists>t. linked (fst b) (snd b) t \<and> bst t \<and> set (keys t) = S)"

lemma sound_search: "sound_tree b S \<Longrightarrow> search_tree b S"
  by (auto simp: sound_tree_def search_tree_def dest: holds_linked)

lemma tree_find:
  "search_tree b S \<Longrightarrow>
   \<exists>p. findNode (fst b) (snd b) k = Some (Done p) \<and> (p \<noteq> None \<longleftrightarrow> k \<in> S)"
  unfolding search_tree_def using findNode_decides by blast

lemma tree_add:
  "sound_tree b S \<Longrightarrow> k \<notin> S \<Longrightarrow>
   \<exists>b'. insertNode (fst b) (snd b) k = Some (Done b') \<and> sound_tree b' (insert k S)"
  unfolding sound_tree_def using insertNode_inserts by fastforce

lemma tree_remove:
  "search_tree b S \<Longrightarrow>
   \<exists>b'. deleteNode (fst b) (snd b) k = Some (Done b') \<and> search_tree b' (S - {k})"
  unfolding search_tree_def using deleteNode_deletes by fastforce

interpretation bps: breakpoint_store "\<lambda>b. findNode (fst b) (snd b)" "\<lambda>b. insertNode (fst b) (snd b)"
    "\<lambda>b. deleteNode (fst b) (snd b)" sound_tree search_tree
  by unfold_locales (fact sound_search tree_find tree_add tree_remove)+

lemma sound_tree_empty: "sound_tree (empty_heap, None) {}"
  unfolding sound_tree_def
  by (rule exI [of _ Lf]) (simp add: holds_def rbt_def empty_heap_def)

subsection \<open>Running to a breakpoint\<close>

lemma bind_comp_Done_iff:
  "bind_comp m f = Some (Done b) \<longleftrightarrow> (\<exists>a. m = Some (Done a) \<and> f a = Some (Done b))"
proof (cases m)
  case (Some r)
  then show ?thesis by (cases r) auto
qed simp

text \<open>The state after \<open>n\<close> steps, whatever they answer.\<close>

fun after_steps :: "config \<Rightarrow> 'w host \<Rightarrow> nat \<Rightarrow> 'w sim \<Rightarrow> 'w sim run" where
  "after_steps cfg h 0 s = Done s"
| "after_steps cfg h (Suc n) s = bind_run (srv32_step cfg h s) (\<lambda>(s', r). after_steps cfg h n s')"

definition breaks :: "'w gdb \<Rightarrow> i32 set \<Rightarrow> bool" where
  "breaks g S \<longleftrightarrow> search_tree (bp_heap g, bp_root g) S"

text \<open>
  The first state, counted from \<open>n\<close>, where the loop stops: the flag is set or the program
  counter is a breakpoint.
\<close>

fun first_stop ::
    "config \<Rightarrow> 'w host \<Rightarrow> (nat \<Rightarrow> bool) \<Rightarrow> i32 set \<Rightarrow> nat \<Rightarrow> nat \<Rightarrow> 'w sim \<Rightarrow> 'w sim \<Rightarrow> bool" where
  "first_stop cfg h intr S n 0 s s' \<longleftrightarrow> (intr n \<or> pc (cpu s) \<in> S) \<and> s' = s"
| "first_stop cfg h intr S n (Suc k) s s' \<longleftrightarrow>
     \<not> intr n \<and> pc (cpu s) \<notin> S \<and>
     (\<exists>s1 r. srv32_step cfg h s = Done (s1, r) \<and> first_stop cfg h intr S (Suc n) k s1 s')"

lemma first_stop_steps: "first_stop cfg h intr S n k s s' \<Longrightarrow> after_steps cfg h k s = Done s'"
  by (induction k arbitrary: n s) auto

lemma cont_loop_unfold:
  assumes "breaks g S" and "\<not> halt g" and "\<not> is_interrupted g"
  shows "cont_loop cfg h intr n g =
    (if intr n then Some (Done (srv_on_interrupt g))
     else if pc (cpu (sim_of g)) \<in> S then Some (Done g)
     else bind_comp (Some (srv32_step cfg h (sim_of g))) (\<lambda>(s, r).
            cont_loop cfg h intr (Suc n) (g\<lparr>sim_of := s\<rparr>)))"
proof -
  have g: "search_tree (bp_heap g, bp_root g) S" using assms(1) by (simp add: breaks_def)
  show ?thesis
  proof (cases "pc (cpu (sim_of g)) \<in> S")
    case True
    then show ?thesis
      using bps.find_hit [OF g True] assms(2,3)
      by (subst cont_loop.simps)
         (auto simp: Let_def srv_is_halted_def srv_is_interrupt_def srv_on_interrupt_def)
  next
    case False
    then show ?thesis
      using bps.find_miss [OF g False] assms(2,3)
      by (subst cont_loop.simps)
         (auto simp: Let_def srv_is_halted_def srv_is_interrupt_def srv_on_interrupt_def)
  qed
qed

lemma cont_loop_stops:
  assumes "first_stop cfg h intr S n k (sim_of g) s'" and "breaks g S" and "\<not> halt g"
    and "\<not> is_interrupted g"
  shows "cont_loop cfg h intr n g =
    Some (Done (g\<lparr>sim_of := s', is_interrupted := intr (n + k)\<rparr>))"
  using assms
proof (induction k arbitrary: n g)
  case 0
  then show ?case
    by (auto simp: cont_loop_unfold [OF 0(2-4)] srv_on_interrupt_def)
next
  case (Suc k)
  then obtain s1 r where s1: "srv32_step cfg h (sim_of g) = Done (s1, r)"
    and "first_stop cfg h intr S (Suc n) k s1 s'"
    and "\<not> intr n" "pc (cpu (sim_of g)) \<notin> S" by auto
  moreover have "breaks (g\<lparr>sim_of := s1\<rparr>) S" using Suc.prems(2) by (simp add: breaks_def)
  ultimately show ?case
    using Suc.IH [of "Suc n" "g\<lparr>sim_of := s1\<rparr>"] Suc.prems(3,4)
    by (simp add: cont_loop_unfold [OF Suc.prems(2-4)])
qed

lemma cont_loop_DoneD:
  assumes "cont_loop cfg h intr n g = Some r"
  shows "r = Done g' \<longrightarrow> breaks g S \<longrightarrow> \<not> halt g \<longrightarrow> \<not> is_interrupted g \<longrightarrow>
    (\<exists>k. first_stop cfg h intr S n k (sim_of g) (sim_of g'))"
proof (rule cont_loop.raw_induct [OF _ assms, where P = "\<lambda>cfg h intr n g r.
    r = Done g' \<longrightarrow> breaks g S \<longrightarrow> \<not> halt g \<longrightarrow> \<not> is_interrupted g \<longrightarrow>
    (\<exists>k. first_stop cfg h intr S n k (sim_of g) (sim_of g'))"], goal_cases)
  case (1 loop cfg h intr n g r)
  show ?case
  proof (intro impI)
    assume r: "r = Done g'" and b: "breaks g S" and f: "\<not> halt g" "\<not> is_interrupted g"
    have t: "search_tree (bp_heap g, bp_root g) S" using b by (simp add: breaks_def)
    show "\<exists>k. first_stop cfg h intr S n k (sim_of g) (sim_of g')"
    proof (cases "intr n \<or> pc (cpu (sim_of g)) \<in> S")
      case True
      then have "sim_of g' = sim_of g"
        using 1(2) r f bps.find_hit [OF t, of "pc (cpu (sim_of g))"]
        by (auto simp: Let_def srv_is_halted_def srv_is_interrupt_def srv_on_interrupt_def
            split: if_splits)
      then show ?thesis using True by (intro exI [of _ 0]) simp
    next
      case False
      then obtain s1 r1 where s1: "srv32_step cfg h (sim_of g) = Done (s1, r1)"
        and "loop cfg h intr (Suc n) (g\<lparr>sim_of := s1\<rparr>) = Some r"
        using 1(2) r f bps.find_miss [OF t, of "pc (cpu (sim_of g))"]
        by (cases "srv32_step cfg h (sim_of g)")
           (auto simp: Let_def srv_is_halted_def srv_is_interrupt_def srv_on_interrupt_def)
      moreover have "breaks (g\<lparr>sim_of := s1\<rparr>) S" using b by (simp add: breaks_def)
      ultimately obtain k where "first_stop cfg h intr S (Suc n) k s1 (sim_of g')"
        using 1(1) r f by fastforce
      then show ?thesis using False s1 by (intro exI [of _ "Suc k"]) auto
    qed
  qed
qed

lemma first_stop_unique:
  "first_stop cfg h intr S n k s s' \<Longrightarrow> first_stop cfg h intr S n k' s s'' \<Longrightarrow> k' = k \<and> s'' = s'"
proof (induction k arbitrary: n s k')
  case 0
  then show ?case by (cases k') auto
next
  case (Suc k)
  then show ?case by (cases k') fastforce+
qed

text \<open>
  \<open>srv_cont\<close> returns exactly at the first breakpoint or interrupt, and does not return where
  there is none; also not at the end of the program.
\<close>

lemma srv_cont_iff:
  assumes "breaks g S" and "\<not> halt g" and "\<not> is_interrupted g"
  shows "srv_cont cfg h intr g = Some (Done (g', a)) \<longleftrightarrow>
    a = ACT_RESUME \<and> (\<exists>k s'. first_stop cfg h intr S 0 k (sim_of g) s' \<and> g' = g\<lparr>sim_of := s'\<rparr>)"
proof
  assume "srv_cont cfg h intr g = Some (Done (g', a))"
  then obtain g1 where g1: "cont_loop cfg h intr 0 g = Some (Done g1)"
    and g': "g' = g1\<lparr>is_interrupted := False\<rparr>" and a: "a = ACT_RESUME"
    by (auto simp: srv_cont_def bind_comp_Done_iff)
  obtain k where k: "first_stop cfg h intr S 0 k (sim_of g) (sim_of g1)"
    using cont_loop_DoneD [OF g1] assms by blast
  have "g1 = g\<lparr>sim_of := sim_of g1, is_interrupted := intr (0 + k)\<rparr>"
    using cont_loop_stops [OF k assms] g1 by simp
  then have "g' = g\<lparr>sim_of := sim_of g1\<rparr>"
    unfolding g' using assms(3) by (cases g; cases g1) simp
  then show "a = ACT_RESUME \<and>
      (\<exists>k s'. first_stop cfg h intr S 0 k (sim_of g) s' \<and> g' = g\<lparr>sim_of := s'\<rparr>)"
    using k a by blast
next
  assume "a = ACT_RESUME \<and>
    (\<exists>k s'. first_stop cfg h intr S 0 k (sim_of g) s' \<and> g' = g\<lparr>sim_of := s'\<rparr>)"
  then obtain k s' where a: "a = ACT_RESUME" and k: "first_stop cfg h intr S 0 k (sim_of g) s'"
    and g': "g' = g\<lparr>sim_of := s'\<rparr>" by blast
  have "g\<lparr>sim_of := s', is_interrupted := False\<rparr> = g\<lparr>sim_of := s'\<rparr>"
    using assms(3) by (cases g) simp
  then show "srv_cont cfg h intr g = Some (Done (g', a))"
    using cont_loop_stops [OF k assms] a g' by (simp add: srv_cont_def)
qed

subsection \<open>Setting and deleting breakpoints\<close>

definition sound_breaks :: "'w gdb \<Rightarrow> i32 set \<Rightarrow> bool" where
  "sound_breaks g S \<longleftrightarrow> sound_tree (bp_heap g, bp_root g) S"

lemma sound_breaks_breaks: "sound_breaks g S \<Longrightarrow> breaks g S"
  by (simp add: sound_breaks_def breaks_def sound_search)

lemma srv_set_bp_new:
  assumes "sound_breaks g S" and "ucast addr \<notin> S"
  shows "\<exists>g'. srv_set_bp g addr BP_SOFTWARE = Some (Done (g', True)) \<and>
    sound_breaks g' (insert (ucast addr) S) \<and> sim_of g' = sim_of g \<and>
    halt g' = halt g \<and> is_interrupted g' = is_interrupted g"
  using bps.add_new [OF assms(1) [unfolded sound_breaks_def] assms(2)]
  by (auto simp: srv_set_bp_def sound_breaks_def)

lemma srv_set_bp_twice:
  assumes "sound_breaks g S" and "ucast addr \<in> S"
  shows "srv_set_bp g addr BP_SOFTWARE = Some (Fault NullPointer)"
  using assms insertNode_present
  by (auto simp: srv_set_bp_def sound_breaks_def sound_tree_def)

lemma srv_del_bp_removes:
  assumes "breaks g S"
  shows "\<exists>g'. srv_del_bp g addr BP_SOFTWARE = Some (Done (g', True)) \<and>
    breaks g' (S - {ucast addr}) \<and> sim_of g' = sim_of g \<and>
    halt g' = halt g \<and> is_interrupted g' = is_interrupted g"
proof (cases "ucast addr \<in> S")
  case True
  obtain b where "deleteNode (bp_heap g) (bp_root g) (ucast addr) = Some (Done b)"
    and "search_tree b (S - {ucast addr})"
    using bps.remove_any [OF assms [unfolded breaks_def], of "ucast addr"] by auto
  then show ?thesis
    using bps.find_hit [OF assms [unfolded breaks_def] True]
    by (cases b) (auto simp: srv_del_bp_def breaks_def)
next
  case False
  then show ?thesis
    using bps.find_miss [OF assms [unfolded breaks_def] False] assms
    by (auto simp: srv_del_bp_def)
qed

subsection \<open>Registers and memory\<close>

lemma read_after_write_reg:
  assumes "length (regs (cpu (sim_of g))) = REGNUM cfg" and "0 \<le> regno" and "regno \<le> int (REGNUM cfg)"
  shows "\<exists>g'. srv_write_reg cfg g regno v = Done (0, g') \<and>
    srv_read_reg cfg g' regno w = Done (0, scast (ucast v :: i32))"
  using assms read_write_regs [OF assms(1), of "nat regno" "ucast v" "nat regno"]
  by (auto simp: srv_write_reg_def srv_read_reg_def Let_def)

lemma gdb_mem_error_hidden:
  assumes "srv32_read_mem (cpu (sim_of g)) (ucast addr) (ucast len) = Done None"
  shows "srv_read_mem g addr len val = Done (0, val) \<and> srv_write_mem g addr len bs = Done (0, g)"
  using assms rvmem.wr_None_iff [of "cpu (sim_of g)" "ucast addr" "ucast len" bs]
  by (simp add: srv_read_mem_def srv_write_mem_def)

end
