(* ===== verification/Disops.thy ===== *)
theory Disops
  imports Prelude
begin

text \<open>
  The tables of the disassembler, \<open>tools/riscv-disas.h\<close> and the first part of
  \<open>tools/riscv-disas.c\<close>: the operations, codecs and constraints, and for every operation its
  name, codec, print format, pseudo-instructions and the operation a compressed one stands
  for. A C array that is read until an end marker is a list that holds the marker; a null
  pointer is \<open>None\<close>.
\<close>

subsection \<open>Enumerations\<close>

datatype rv_isa =
    rv32 | rv64 | rv128

text \<open>\<open>enum rv_rm\<close>.\<close>

abbreviation (input) rv_rm_rne :: u8 where "rv_rm_rne \<equiv> 0"
abbreviation (input) rv_rm_rtz :: u8 where "rv_rm_rtz \<equiv> 1"
abbreviation (input) rv_rm_rdn :: u8 where "rv_rm_rdn \<equiv> 2"
abbreviation (input) rv_rm_rup :: u8 where "rv_rm_rup \<equiv> 3"
abbreviation (input) rv_rm_rmm :: u8 where "rv_rm_rmm \<equiv> 4"
abbreviation (input) rv_rm_dyn :: u8 where "rv_rm_dyn \<equiv> 7"

text \<open>\<open>enum rv_fence\<close>.\<close>

abbreviation (input) rv_fence_i :: u8 where "rv_fence_i \<equiv> 8"
abbreviation (input) rv_fence_o :: u8 where "rv_fence_o \<equiv> 4"
abbreviation (input) rv_fence_r :: u8 where "rv_fence_r \<equiv> 2"
abbreviation (input) rv_fence_w :: u8 where "rv_fence_w \<equiv> 1"

text \<open>\<open>enum rv_ireg\<close>.\<close>

abbreviation (input) rv_ireg_zero :: u8 where "rv_ireg_zero \<equiv> 0"
abbreviation (input) rv_ireg_ra :: u8 where "rv_ireg_ra \<equiv> 1"
abbreviation (input) rv_ireg_sp :: u8 where "rv_ireg_sp \<equiv> 2"

datatype rvc_constraint =
    rvc_end | rvc_rd_eq_ra | rvc_rd_eq_x0 | rvc_rs1_eq_x0 | rvc_rs2_eq_x0 | rvc_rs2_eq_rs1
    | rvc_rs1_eq_ra | rvc_imm_eq_zero | rvc_imm_eq_n1 | rvc_imm_eq_p1 | rvc_csr_eq_0x001
    | rvc_csr_eq_0x002 | rvc_csr_eq_0x003 | rvc_csr_eq_0xc00 | rvc_csr_eq_0xc01
    | rvc_csr_eq_0xc02 | rvc_csr_eq_0xc80 | rvc_csr_eq_0xc81 | rvc_csr_eq_0xc82

datatype rv_codec =
    rv_codec_illegal | rv_codec_none | rv_codec_u | rv_codec_uj | rv_codec_i | rv_codec_i_sh5
    | rv_codec_i_sh6 | rv_codec_i_sh7 | rv_codec_i_csr | rv_codec_s | rv_codec_sb | rv_codec_r
    | rv_codec_r_m | rv_codec_r4_m | rv_codec_r_a | rv_codec_r_l | rv_codec_r_f | rv_codec_cb
    | rv_codec_cb_imm | rv_codec_cb_sh5 | rv_codec_cb_sh6 | rv_codec_ci | rv_codec_ci_sh5
    | rv_codec_ci_sh6 | rv_codec_ci_16sp | rv_codec_ci_lwsp | rv_codec_ci_ldsp
    | rv_codec_ci_lqsp | rv_codec_ci_li | rv_codec_ci_lui | rv_codec_ci_none | rv_codec_ciw_4spn
    | rv_codec_cj | rv_codec_cj_jal | rv_codec_cl_lw | rv_codec_cl_ld | rv_codec_cl_lq
    | rv_codec_cr | rv_codec_cr_mv | rv_codec_cr_jalr | rv_codec_cr_jr | rv_codec_cs
    | rv_codec_cs_sw | rv_codec_cs_sd | rv_codec_cs_sq | rv_codec_css_swsp | rv_codec_css_sdsp
    | rv_codec_css_sqsp

text \<open>\<open>enum rv_op\<close>, the index of an operation in \<open>opcode_data\<close>.\<close>

abbreviation (input) rv_op_illegal :: nat where "rv_op_illegal \<equiv> 0"
abbreviation (input) rv_op_lui :: nat where "rv_op_lui \<equiv> 1"
abbreviation (input) rv_op_auipc :: nat where "rv_op_auipc \<equiv> 2"
abbreviation (input) rv_op_jal :: nat where "rv_op_jal \<equiv> 3"
abbreviation (input) rv_op_jalr :: nat where "rv_op_jalr \<equiv> 4"
abbreviation (input) rv_op_beq :: nat where "rv_op_beq \<equiv> 5"
abbreviation (input) rv_op_bne :: nat where "rv_op_bne \<equiv> 6"
abbreviation (input) rv_op_blt :: nat where "rv_op_blt \<equiv> 7"
abbreviation (input) rv_op_bge :: nat where "rv_op_bge \<equiv> 8"
abbreviation (input) rv_op_bltu :: nat where "rv_op_bltu \<equiv> 9"
abbreviation (input) rv_op_bgeu :: nat where "rv_op_bgeu \<equiv> 10"
abbreviation (input) rv_op_lb :: nat where "rv_op_lb \<equiv> 11"
abbreviation (input) rv_op_lh :: nat where "rv_op_lh \<equiv> 12"
abbreviation (input) rv_op_lw :: nat where "rv_op_lw \<equiv> 13"
abbreviation (input) rv_op_lbu :: nat where "rv_op_lbu \<equiv> 14"
abbreviation (input) rv_op_lhu :: nat where "rv_op_lhu \<equiv> 15"
abbreviation (input) rv_op_sb :: nat where "rv_op_sb \<equiv> 16"
abbreviation (input) rv_op_sh :: nat where "rv_op_sh \<equiv> 17"
abbreviation (input) rv_op_sw :: nat where "rv_op_sw \<equiv> 18"
abbreviation (input) rv_op_addi :: nat where "rv_op_addi \<equiv> 19"
abbreviation (input) rv_op_slti :: nat where "rv_op_slti \<equiv> 20"
abbreviation (input) rv_op_sltiu :: nat where "rv_op_sltiu \<equiv> 21"
abbreviation (input) rv_op_xori :: nat where "rv_op_xori \<equiv> 22"
abbreviation (input) rv_op_ori :: nat where "rv_op_ori \<equiv> 23"
abbreviation (input) rv_op_andi :: nat where "rv_op_andi \<equiv> 24"
abbreviation (input) rv_op_slli :: nat where "rv_op_slli \<equiv> 25"
abbreviation (input) rv_op_srli :: nat where "rv_op_srli \<equiv> 26"
abbreviation (input) rv_op_srai :: nat where "rv_op_srai \<equiv> 27"
abbreviation (input) rv_op_add :: nat where "rv_op_add \<equiv> 28"
abbreviation (input) rv_op_sub :: nat where "rv_op_sub \<equiv> 29"
abbreviation (input) rv_op_sll :: nat where "rv_op_sll \<equiv> 30"
abbreviation (input) rv_op_slt :: nat where "rv_op_slt \<equiv> 31"
abbreviation (input) rv_op_sltu :: nat where "rv_op_sltu \<equiv> 32"
abbreviation (input) rv_op_xor :: nat where "rv_op_xor \<equiv> 33"
abbreviation (input) rv_op_srl :: nat where "rv_op_srl \<equiv> 34"
abbreviation (input) rv_op_sra :: nat where "rv_op_sra \<equiv> 35"
abbreviation (input) rv_op_or :: nat where "rv_op_or \<equiv> 36"
abbreviation (input) rv_op_and :: nat where "rv_op_and \<equiv> 37"
abbreviation (input) rv_op_fence :: nat where "rv_op_fence \<equiv> 38"
abbreviation (input) rv_op_fence_i :: nat where "rv_op_fence_i \<equiv> 39"
abbreviation (input) rv_op_lwu :: nat where "rv_op_lwu \<equiv> 40"
abbreviation (input) rv_op_ld :: nat where "rv_op_ld \<equiv> 41"
abbreviation (input) rv_op_sd :: nat where "rv_op_sd \<equiv> 42"
abbreviation (input) rv_op_addiw :: nat where "rv_op_addiw \<equiv> 43"
abbreviation (input) rv_op_slliw :: nat where "rv_op_slliw \<equiv> 44"
abbreviation (input) rv_op_srliw :: nat where "rv_op_srliw \<equiv> 45"
abbreviation (input) rv_op_sraiw :: nat where "rv_op_sraiw \<equiv> 46"
abbreviation (input) rv_op_addw :: nat where "rv_op_addw \<equiv> 47"
abbreviation (input) rv_op_subw :: nat where "rv_op_subw \<equiv> 48"
abbreviation (input) rv_op_sllw :: nat where "rv_op_sllw \<equiv> 49"
abbreviation (input) rv_op_srlw :: nat where "rv_op_srlw \<equiv> 50"
abbreviation (input) rv_op_sraw :: nat where "rv_op_sraw \<equiv> 51"
abbreviation (input) rv_op_ldu :: nat where "rv_op_ldu \<equiv> 52"
abbreviation (input) rv_op_lq :: nat where "rv_op_lq \<equiv> 53"
abbreviation (input) rv_op_sq :: nat where "rv_op_sq \<equiv> 54"
abbreviation (input) rv_op_addid :: nat where "rv_op_addid \<equiv> 55"
abbreviation (input) rv_op_sllid :: nat where "rv_op_sllid \<equiv> 56"
abbreviation (input) rv_op_srlid :: nat where "rv_op_srlid \<equiv> 57"
abbreviation (input) rv_op_sraid :: nat where "rv_op_sraid \<equiv> 58"
abbreviation (input) rv_op_addd :: nat where "rv_op_addd \<equiv> 59"
abbreviation (input) rv_op_subd :: nat where "rv_op_subd \<equiv> 60"
abbreviation (input) rv_op_slld :: nat where "rv_op_slld \<equiv> 61"
abbreviation (input) rv_op_srld :: nat where "rv_op_srld \<equiv> 62"
abbreviation (input) rv_op_srad :: nat where "rv_op_srad \<equiv> 63"
abbreviation (input) rv_op_mul :: nat where "rv_op_mul \<equiv> 64"
abbreviation (input) rv_op_mulh :: nat where "rv_op_mulh \<equiv> 65"
abbreviation (input) rv_op_mulhsu :: nat where "rv_op_mulhsu \<equiv> 66"
abbreviation (input) rv_op_mulhu :: nat where "rv_op_mulhu \<equiv> 67"
abbreviation (input) rv_op_div :: nat where "rv_op_div \<equiv> 68"
abbreviation (input) rv_op_divu :: nat where "rv_op_divu \<equiv> 69"
abbreviation (input) rv_op_rem :: nat where "rv_op_rem \<equiv> 70"
abbreviation (input) rv_op_remu :: nat where "rv_op_remu \<equiv> 71"
abbreviation (input) rv_op_mulw :: nat where "rv_op_mulw \<equiv> 72"
abbreviation (input) rv_op_divw :: nat where "rv_op_divw \<equiv> 73"
abbreviation (input) rv_op_divuw :: nat where "rv_op_divuw \<equiv> 74"
abbreviation (input) rv_op_remw :: nat where "rv_op_remw \<equiv> 75"
abbreviation (input) rv_op_remuw :: nat where "rv_op_remuw \<equiv> 76"
abbreviation (input) rv_op_muld :: nat where "rv_op_muld \<equiv> 77"
abbreviation (input) rv_op_divd :: nat where "rv_op_divd \<equiv> 78"
abbreviation (input) rv_op_divud :: nat where "rv_op_divud \<equiv> 79"
abbreviation (input) rv_op_remd :: nat where "rv_op_remd \<equiv> 80"
abbreviation (input) rv_op_remud :: nat where "rv_op_remud \<equiv> 81"
abbreviation (input) rv_op_lr_w :: nat where "rv_op_lr_w \<equiv> 82"
abbreviation (input) rv_op_sc_w :: nat where "rv_op_sc_w \<equiv> 83"
abbreviation (input) rv_op_amoswap_w :: nat where "rv_op_amoswap_w \<equiv> 84"
abbreviation (input) rv_op_amoadd_w :: nat where "rv_op_amoadd_w \<equiv> 85"
abbreviation (input) rv_op_amoxor_w :: nat where "rv_op_amoxor_w \<equiv> 86"
abbreviation (input) rv_op_amoor_w :: nat where "rv_op_amoor_w \<equiv> 87"
abbreviation (input) rv_op_amoand_w :: nat where "rv_op_amoand_w \<equiv> 88"
abbreviation (input) rv_op_amomin_w :: nat where "rv_op_amomin_w \<equiv> 89"
abbreviation (input) rv_op_amomax_w :: nat where "rv_op_amomax_w \<equiv> 90"
abbreviation (input) rv_op_amominu_w :: nat where "rv_op_amominu_w \<equiv> 91"
abbreviation (input) rv_op_amomaxu_w :: nat where "rv_op_amomaxu_w \<equiv> 92"
abbreviation (input) rv_op_lr_d :: nat where "rv_op_lr_d \<equiv> 93"
abbreviation (input) rv_op_sc_d :: nat where "rv_op_sc_d \<equiv> 94"
abbreviation (input) rv_op_amoswap_d :: nat where "rv_op_amoswap_d \<equiv> 95"
abbreviation (input) rv_op_amoadd_d :: nat where "rv_op_amoadd_d \<equiv> 96"
abbreviation (input) rv_op_amoxor_d :: nat where "rv_op_amoxor_d \<equiv> 97"
abbreviation (input) rv_op_amoor_d :: nat where "rv_op_amoor_d \<equiv> 98"
abbreviation (input) rv_op_amoand_d :: nat where "rv_op_amoand_d \<equiv> 99"
abbreviation (input) rv_op_amomin_d :: nat where "rv_op_amomin_d \<equiv> 100"
abbreviation (input) rv_op_amomax_d :: nat where "rv_op_amomax_d \<equiv> 101"
abbreviation (input) rv_op_amominu_d :: nat where "rv_op_amominu_d \<equiv> 102"
abbreviation (input) rv_op_amomaxu_d :: nat where "rv_op_amomaxu_d \<equiv> 103"
abbreviation (input) rv_op_lr_q :: nat where "rv_op_lr_q \<equiv> 104"
abbreviation (input) rv_op_sc_q :: nat where "rv_op_sc_q \<equiv> 105"
abbreviation (input) rv_op_amoswap_q :: nat where "rv_op_amoswap_q \<equiv> 106"
abbreviation (input) rv_op_amoadd_q :: nat where "rv_op_amoadd_q \<equiv> 107"
abbreviation (input) rv_op_amoxor_q :: nat where "rv_op_amoxor_q \<equiv> 108"
abbreviation (input) rv_op_amoor_q :: nat where "rv_op_amoor_q \<equiv> 109"
abbreviation (input) rv_op_amoand_q :: nat where "rv_op_amoand_q \<equiv> 110"
abbreviation (input) rv_op_amomin_q :: nat where "rv_op_amomin_q \<equiv> 111"
abbreviation (input) rv_op_amomax_q :: nat where "rv_op_amomax_q \<equiv> 112"
abbreviation (input) rv_op_amominu_q :: nat where "rv_op_amominu_q \<equiv> 113"
abbreviation (input) rv_op_amomaxu_q :: nat where "rv_op_amomaxu_q \<equiv> 114"
abbreviation (input) rv_op_ecall :: nat where "rv_op_ecall \<equiv> 115"
abbreviation (input) rv_op_ebreak :: nat where "rv_op_ebreak \<equiv> 116"
abbreviation (input) rv_op_uret :: nat where "rv_op_uret \<equiv> 117"
abbreviation (input) rv_op_sret :: nat where "rv_op_sret \<equiv> 118"
abbreviation (input) rv_op_hret :: nat where "rv_op_hret \<equiv> 119"
abbreviation (input) rv_op_mret :: nat where "rv_op_mret \<equiv> 120"
abbreviation (input) rv_op_dret :: nat where "rv_op_dret \<equiv> 121"
abbreviation (input) rv_op_sfence_vm :: nat where "rv_op_sfence_vm \<equiv> 122"
abbreviation (input) rv_op_sfence_vma :: nat where "rv_op_sfence_vma \<equiv> 123"
abbreviation (input) rv_op_wfi :: nat where "rv_op_wfi \<equiv> 124"
abbreviation (input) rv_op_csrrw :: nat where "rv_op_csrrw \<equiv> 125"
abbreviation (input) rv_op_csrrs :: nat where "rv_op_csrrs \<equiv> 126"
abbreviation (input) rv_op_csrrc :: nat where "rv_op_csrrc \<equiv> 127"
abbreviation (input) rv_op_csrrwi :: nat where "rv_op_csrrwi \<equiv> 128"
abbreviation (input) rv_op_csrrsi :: nat where "rv_op_csrrsi \<equiv> 129"
abbreviation (input) rv_op_csrrci :: nat where "rv_op_csrrci \<equiv> 130"
abbreviation (input) rv_op_flw :: nat where "rv_op_flw \<equiv> 131"
abbreviation (input) rv_op_fsw :: nat where "rv_op_fsw \<equiv> 132"
abbreviation (input) rv_op_fmadd_s :: nat where "rv_op_fmadd_s \<equiv> 133"
abbreviation (input) rv_op_fmsub_s :: nat where "rv_op_fmsub_s \<equiv> 134"
abbreviation (input) rv_op_fnmsub_s :: nat where "rv_op_fnmsub_s \<equiv> 135"
abbreviation (input) rv_op_fnmadd_s :: nat where "rv_op_fnmadd_s \<equiv> 136"
abbreviation (input) rv_op_fadd_s :: nat where "rv_op_fadd_s \<equiv> 137"
abbreviation (input) rv_op_fsub_s :: nat where "rv_op_fsub_s \<equiv> 138"
abbreviation (input) rv_op_fmul_s :: nat where "rv_op_fmul_s \<equiv> 139"
abbreviation (input) rv_op_fdiv_s :: nat where "rv_op_fdiv_s \<equiv> 140"
abbreviation (input) rv_op_fsgnj_s :: nat where "rv_op_fsgnj_s \<equiv> 141"
abbreviation (input) rv_op_fsgnjn_s :: nat where "rv_op_fsgnjn_s \<equiv> 142"
abbreviation (input) rv_op_fsgnjx_s :: nat where "rv_op_fsgnjx_s \<equiv> 143"
abbreviation (input) rv_op_fmin_s :: nat where "rv_op_fmin_s \<equiv> 144"
abbreviation (input) rv_op_fmax_s :: nat where "rv_op_fmax_s \<equiv> 145"
abbreviation (input) rv_op_fsqrt_s :: nat where "rv_op_fsqrt_s \<equiv> 146"
abbreviation (input) rv_op_fle_s :: nat where "rv_op_fle_s \<equiv> 147"
abbreviation (input) rv_op_flt_s :: nat where "rv_op_flt_s \<equiv> 148"
abbreviation (input) rv_op_feq_s :: nat where "rv_op_feq_s \<equiv> 149"
abbreviation (input) rv_op_fcvt_w_s :: nat where "rv_op_fcvt_w_s \<equiv> 150"
abbreviation (input) rv_op_fcvt_wu_s :: nat where "rv_op_fcvt_wu_s \<equiv> 151"
abbreviation (input) rv_op_fcvt_s_w :: nat where "rv_op_fcvt_s_w \<equiv> 152"
abbreviation (input) rv_op_fcvt_s_wu :: nat where "rv_op_fcvt_s_wu \<equiv> 153"
abbreviation (input) rv_op_fmv_x_s :: nat where "rv_op_fmv_x_s \<equiv> 154"
abbreviation (input) rv_op_fclass_s :: nat where "rv_op_fclass_s \<equiv> 155"
abbreviation (input) rv_op_fmv_s_x :: nat where "rv_op_fmv_s_x \<equiv> 156"
abbreviation (input) rv_op_fcvt_l_s :: nat where "rv_op_fcvt_l_s \<equiv> 157"
abbreviation (input) rv_op_fcvt_lu_s :: nat where "rv_op_fcvt_lu_s \<equiv> 158"
abbreviation (input) rv_op_fcvt_s_l :: nat where "rv_op_fcvt_s_l \<equiv> 159"
abbreviation (input) rv_op_fcvt_s_lu :: nat where "rv_op_fcvt_s_lu \<equiv> 160"
abbreviation (input) rv_op_fld :: nat where "rv_op_fld \<equiv> 161"
abbreviation (input) rv_op_fsd :: nat where "rv_op_fsd \<equiv> 162"
abbreviation (input) rv_op_fmadd_d :: nat where "rv_op_fmadd_d \<equiv> 163"
abbreviation (input) rv_op_fmsub_d :: nat where "rv_op_fmsub_d \<equiv> 164"
abbreviation (input) rv_op_fnmsub_d :: nat where "rv_op_fnmsub_d \<equiv> 165"
abbreviation (input) rv_op_fnmadd_d :: nat where "rv_op_fnmadd_d \<equiv> 166"
abbreviation (input) rv_op_fadd_d :: nat where "rv_op_fadd_d \<equiv> 167"
abbreviation (input) rv_op_fsub_d :: nat where "rv_op_fsub_d \<equiv> 168"
abbreviation (input) rv_op_fmul_d :: nat where "rv_op_fmul_d \<equiv> 169"
abbreviation (input) rv_op_fdiv_d :: nat where "rv_op_fdiv_d \<equiv> 170"
abbreviation (input) rv_op_fsgnj_d :: nat where "rv_op_fsgnj_d \<equiv> 171"
abbreviation (input) rv_op_fsgnjn_d :: nat where "rv_op_fsgnjn_d \<equiv> 172"
abbreviation (input) rv_op_fsgnjx_d :: nat where "rv_op_fsgnjx_d \<equiv> 173"
abbreviation (input) rv_op_fmin_d :: nat where "rv_op_fmin_d \<equiv> 174"
abbreviation (input) rv_op_fmax_d :: nat where "rv_op_fmax_d \<equiv> 175"
abbreviation (input) rv_op_fcvt_s_d :: nat where "rv_op_fcvt_s_d \<equiv> 176"
abbreviation (input) rv_op_fcvt_d_s :: nat where "rv_op_fcvt_d_s \<equiv> 177"
abbreviation (input) rv_op_fsqrt_d :: nat where "rv_op_fsqrt_d \<equiv> 178"
abbreviation (input) rv_op_fle_d :: nat where "rv_op_fle_d \<equiv> 179"
abbreviation (input) rv_op_flt_d :: nat where "rv_op_flt_d \<equiv> 180"
abbreviation (input) rv_op_feq_d :: nat where "rv_op_feq_d \<equiv> 181"
abbreviation (input) rv_op_fcvt_w_d :: nat where "rv_op_fcvt_w_d \<equiv> 182"
abbreviation (input) rv_op_fcvt_wu_d :: nat where "rv_op_fcvt_wu_d \<equiv> 183"
abbreviation (input) rv_op_fcvt_d_w :: nat where "rv_op_fcvt_d_w \<equiv> 184"
abbreviation (input) rv_op_fcvt_d_wu :: nat where "rv_op_fcvt_d_wu \<equiv> 185"
abbreviation (input) rv_op_fclass_d :: nat where "rv_op_fclass_d \<equiv> 186"
abbreviation (input) rv_op_fcvt_l_d :: nat where "rv_op_fcvt_l_d \<equiv> 187"
abbreviation (input) rv_op_fcvt_lu_d :: nat where "rv_op_fcvt_lu_d \<equiv> 188"
abbreviation (input) rv_op_fmv_x_d :: nat where "rv_op_fmv_x_d \<equiv> 189"
abbreviation (input) rv_op_fcvt_d_l :: nat where "rv_op_fcvt_d_l \<equiv> 190"
abbreviation (input) rv_op_fcvt_d_lu :: nat where "rv_op_fcvt_d_lu \<equiv> 191"
abbreviation (input) rv_op_fmv_d_x :: nat where "rv_op_fmv_d_x \<equiv> 192"
abbreviation (input) rv_op_flq :: nat where "rv_op_flq \<equiv> 193"
abbreviation (input) rv_op_fsq :: nat where "rv_op_fsq \<equiv> 194"
abbreviation (input) rv_op_fmadd_q :: nat where "rv_op_fmadd_q \<equiv> 195"
abbreviation (input) rv_op_fmsub_q :: nat where "rv_op_fmsub_q \<equiv> 196"
abbreviation (input) rv_op_fnmsub_q :: nat where "rv_op_fnmsub_q \<equiv> 197"
abbreviation (input) rv_op_fnmadd_q :: nat where "rv_op_fnmadd_q \<equiv> 198"
abbreviation (input) rv_op_fadd_q :: nat where "rv_op_fadd_q \<equiv> 199"
abbreviation (input) rv_op_fsub_q :: nat where "rv_op_fsub_q \<equiv> 200"
abbreviation (input) rv_op_fmul_q :: nat where "rv_op_fmul_q \<equiv> 201"
abbreviation (input) rv_op_fdiv_q :: nat where "rv_op_fdiv_q \<equiv> 202"
abbreviation (input) rv_op_fsgnj_q :: nat where "rv_op_fsgnj_q \<equiv> 203"
abbreviation (input) rv_op_fsgnjn_q :: nat where "rv_op_fsgnjn_q \<equiv> 204"
abbreviation (input) rv_op_fsgnjx_q :: nat where "rv_op_fsgnjx_q \<equiv> 205"
abbreviation (input) rv_op_fmin_q :: nat where "rv_op_fmin_q \<equiv> 206"
abbreviation (input) rv_op_fmax_q :: nat where "rv_op_fmax_q \<equiv> 207"
abbreviation (input) rv_op_fcvt_s_q :: nat where "rv_op_fcvt_s_q \<equiv> 208"
abbreviation (input) rv_op_fcvt_q_s :: nat where "rv_op_fcvt_q_s \<equiv> 209"
abbreviation (input) rv_op_fcvt_d_q :: nat where "rv_op_fcvt_d_q \<equiv> 210"
abbreviation (input) rv_op_fcvt_q_d :: nat where "rv_op_fcvt_q_d \<equiv> 211"
abbreviation (input) rv_op_fsqrt_q :: nat where "rv_op_fsqrt_q \<equiv> 212"
abbreviation (input) rv_op_fle_q :: nat where "rv_op_fle_q \<equiv> 213"
abbreviation (input) rv_op_flt_q :: nat where "rv_op_flt_q \<equiv> 214"
abbreviation (input) rv_op_feq_q :: nat where "rv_op_feq_q \<equiv> 215"
abbreviation (input) rv_op_fcvt_w_q :: nat where "rv_op_fcvt_w_q \<equiv> 216"
abbreviation (input) rv_op_fcvt_wu_q :: nat where "rv_op_fcvt_wu_q \<equiv> 217"
abbreviation (input) rv_op_fcvt_q_w :: nat where "rv_op_fcvt_q_w \<equiv> 218"
abbreviation (input) rv_op_fcvt_q_wu :: nat where "rv_op_fcvt_q_wu \<equiv> 219"
abbreviation (input) rv_op_fclass_q :: nat where "rv_op_fclass_q \<equiv> 220"
abbreviation (input) rv_op_fcvt_l_q :: nat where "rv_op_fcvt_l_q \<equiv> 221"
abbreviation (input) rv_op_fcvt_lu_q :: nat where "rv_op_fcvt_lu_q \<equiv> 222"
abbreviation (input) rv_op_fcvt_q_l :: nat where "rv_op_fcvt_q_l \<equiv> 223"
abbreviation (input) rv_op_fcvt_q_lu :: nat where "rv_op_fcvt_q_lu \<equiv> 224"
abbreviation (input) rv_op_fmv_x_q :: nat where "rv_op_fmv_x_q \<equiv> 225"
abbreviation (input) rv_op_fmv_q_x :: nat where "rv_op_fmv_q_x \<equiv> 226"
abbreviation (input) rv_op_c_addi4spn :: nat where "rv_op_c_addi4spn \<equiv> 227"
abbreviation (input) rv_op_c_fld :: nat where "rv_op_c_fld \<equiv> 228"
abbreviation (input) rv_op_c_lw :: nat where "rv_op_c_lw \<equiv> 229"
abbreviation (input) rv_op_c_flw :: nat where "rv_op_c_flw \<equiv> 230"
abbreviation (input) rv_op_c_fsd :: nat where "rv_op_c_fsd \<equiv> 231"
abbreviation (input) rv_op_c_sw :: nat where "rv_op_c_sw \<equiv> 232"
abbreviation (input) rv_op_c_fsw :: nat where "rv_op_c_fsw \<equiv> 233"
abbreviation (input) rv_op_c_nop :: nat where "rv_op_c_nop \<equiv> 234"
abbreviation (input) rv_op_c_addi :: nat where "rv_op_c_addi \<equiv> 235"
abbreviation (input) rv_op_c_jal :: nat where "rv_op_c_jal \<equiv> 236"
abbreviation (input) rv_op_c_li :: nat where "rv_op_c_li \<equiv> 237"
abbreviation (input) rv_op_c_addi16sp :: nat where "rv_op_c_addi16sp \<equiv> 238"
abbreviation (input) rv_op_c_lui :: nat where "rv_op_c_lui \<equiv> 239"
abbreviation (input) rv_op_c_srli :: nat where "rv_op_c_srli \<equiv> 240"
abbreviation (input) rv_op_c_srai :: nat where "rv_op_c_srai \<equiv> 241"
abbreviation (input) rv_op_c_andi :: nat where "rv_op_c_andi \<equiv> 242"
abbreviation (input) rv_op_c_sub :: nat where "rv_op_c_sub \<equiv> 243"
abbreviation (input) rv_op_c_xor :: nat where "rv_op_c_xor \<equiv> 244"
abbreviation (input) rv_op_c_or :: nat where "rv_op_c_or \<equiv> 245"
abbreviation (input) rv_op_c_and :: nat where "rv_op_c_and \<equiv> 246"
abbreviation (input) rv_op_c_subw :: nat where "rv_op_c_subw \<equiv> 247"
abbreviation (input) rv_op_c_addw :: nat where "rv_op_c_addw \<equiv> 248"
abbreviation (input) rv_op_c_j :: nat where "rv_op_c_j \<equiv> 249"
abbreviation (input) rv_op_c_beqz :: nat where "rv_op_c_beqz \<equiv> 250"
abbreviation (input) rv_op_c_bnez :: nat where "rv_op_c_bnez \<equiv> 251"
abbreviation (input) rv_op_c_slli :: nat where "rv_op_c_slli \<equiv> 252"
abbreviation (input) rv_op_c_fldsp :: nat where "rv_op_c_fldsp \<equiv> 253"
abbreviation (input) rv_op_c_lwsp :: nat where "rv_op_c_lwsp \<equiv> 254"
abbreviation (input) rv_op_c_flwsp :: nat where "rv_op_c_flwsp \<equiv> 255"
abbreviation (input) rv_op_c_jr :: nat where "rv_op_c_jr \<equiv> 256"
abbreviation (input) rv_op_c_mv :: nat where "rv_op_c_mv \<equiv> 257"
abbreviation (input) rv_op_c_ebreak :: nat where "rv_op_c_ebreak \<equiv> 258"
abbreviation (input) rv_op_c_jalr :: nat where "rv_op_c_jalr \<equiv> 259"
abbreviation (input) rv_op_c_add :: nat where "rv_op_c_add \<equiv> 260"
abbreviation (input) rv_op_c_fsdsp :: nat where "rv_op_c_fsdsp \<equiv> 261"
abbreviation (input) rv_op_c_swsp :: nat where "rv_op_c_swsp \<equiv> 262"
abbreviation (input) rv_op_c_fswsp :: nat where "rv_op_c_fswsp \<equiv> 263"
abbreviation (input) rv_op_c_ld :: nat where "rv_op_c_ld \<equiv> 264"
abbreviation (input) rv_op_c_sd :: nat where "rv_op_c_sd \<equiv> 265"
abbreviation (input) rv_op_c_addiw :: nat where "rv_op_c_addiw \<equiv> 266"
abbreviation (input) rv_op_c_ldsp :: nat where "rv_op_c_ldsp \<equiv> 267"
abbreviation (input) rv_op_c_sdsp :: nat where "rv_op_c_sdsp \<equiv> 268"
abbreviation (input) rv_op_c_lq :: nat where "rv_op_c_lq \<equiv> 269"
abbreviation (input) rv_op_c_sq :: nat where "rv_op_c_sq \<equiv> 270"
abbreviation (input) rv_op_c_lqsp :: nat where "rv_op_c_lqsp \<equiv> 271"
abbreviation (input) rv_op_c_sqsp :: nat where "rv_op_c_sqsp \<equiv> 272"
abbreviation (input) rv_op_nop :: nat where "rv_op_nop \<equiv> 273"
abbreviation (input) rv_op_mv :: nat where "rv_op_mv \<equiv> 274"
abbreviation (input) rv_op_not :: nat where "rv_op_not \<equiv> 275"
abbreviation (input) rv_op_neg :: nat where "rv_op_neg \<equiv> 276"
abbreviation (input) rv_op_negw :: nat where "rv_op_negw \<equiv> 277"
abbreviation (input) rv_op_sext_w :: nat where "rv_op_sext_w \<equiv> 278"
abbreviation (input) rv_op_seqz :: nat where "rv_op_seqz \<equiv> 279"
abbreviation (input) rv_op_snez :: nat where "rv_op_snez \<equiv> 280"
abbreviation (input) rv_op_sltz :: nat where "rv_op_sltz \<equiv> 281"
abbreviation (input) rv_op_sgtz :: nat where "rv_op_sgtz \<equiv> 282"
abbreviation (input) rv_op_fmv_s :: nat where "rv_op_fmv_s \<equiv> 283"
abbreviation (input) rv_op_fabs_s :: nat where "rv_op_fabs_s \<equiv> 284"
abbreviation (input) rv_op_fneg_s :: nat where "rv_op_fneg_s \<equiv> 285"
abbreviation (input) rv_op_fmv_d :: nat where "rv_op_fmv_d \<equiv> 286"
abbreviation (input) rv_op_fabs_d :: nat where "rv_op_fabs_d \<equiv> 287"
abbreviation (input) rv_op_fneg_d :: nat where "rv_op_fneg_d \<equiv> 288"
abbreviation (input) rv_op_fmv_q :: nat where "rv_op_fmv_q \<equiv> 289"
abbreviation (input) rv_op_fabs_q :: nat where "rv_op_fabs_q \<equiv> 290"
abbreviation (input) rv_op_fneg_q :: nat where "rv_op_fneg_q \<equiv> 291"
abbreviation (input) rv_op_beqz :: nat where "rv_op_beqz \<equiv> 292"
abbreviation (input) rv_op_bnez :: nat where "rv_op_bnez \<equiv> 293"
abbreviation (input) rv_op_blez :: nat where "rv_op_blez \<equiv> 294"
abbreviation (input) rv_op_bgez :: nat where "rv_op_bgez \<equiv> 295"
abbreviation (input) rv_op_bltz :: nat where "rv_op_bltz \<equiv> 296"
abbreviation (input) rv_op_bgtz :: nat where "rv_op_bgtz \<equiv> 297"
abbreviation (input) rv_op_ble :: nat where "rv_op_ble \<equiv> 298"
abbreviation (input) rv_op_bleu :: nat where "rv_op_bleu \<equiv> 299"
abbreviation (input) rv_op_bgt :: nat where "rv_op_bgt \<equiv> 300"
abbreviation (input) rv_op_bgtu :: nat where "rv_op_bgtu \<equiv> 301"
abbreviation (input) rv_op_j :: nat where "rv_op_j \<equiv> 302"
abbreviation (input) rv_op_ret :: nat where "rv_op_ret \<equiv> 303"
abbreviation (input) rv_op_jr :: nat where "rv_op_jr \<equiv> 304"
abbreviation (input) rv_op_rdcycle :: nat where "rv_op_rdcycle \<equiv> 305"
abbreviation (input) rv_op_rdtime :: nat where "rv_op_rdtime \<equiv> 306"
abbreviation (input) rv_op_rdinstret :: nat where "rv_op_rdinstret \<equiv> 307"
abbreviation (input) rv_op_rdcycleh :: nat where "rv_op_rdcycleh \<equiv> 308"
abbreviation (input) rv_op_rdtimeh :: nat where "rv_op_rdtimeh \<equiv> 309"
abbreviation (input) rv_op_rdinstreth :: nat where "rv_op_rdinstreth \<equiv> 310"
abbreviation (input) rv_op_frcsr :: nat where "rv_op_frcsr \<equiv> 311"
abbreviation (input) rv_op_frrm :: nat where "rv_op_frrm \<equiv> 312"
abbreviation (input) rv_op_frflags :: nat where "rv_op_frflags \<equiv> 313"
abbreviation (input) rv_op_fscsr :: nat where "rv_op_fscsr \<equiv> 314"
abbreviation (input) rv_op_fsrm :: nat where "rv_op_fsrm \<equiv> 315"
abbreviation (input) rv_op_fsflags :: nat where "rv_op_fsflags \<equiv> 316"
abbreviation (input) rv_op_fsrmi :: nat where "rv_op_fsrmi \<equiv> 317"
abbreviation (input) rv_op_fsflagsi :: nat where "rv_op_fsflagsi \<equiv> 318"

subsection \<open>Register names\<close>

definition rv_ireg_name_sym :: "string list" where
  "rv_ireg_name_sym =
     [''zero'', ''ra'', ''sp'', ''gp'', ''tp'', ''t0'', ''t1'', ''t2'',
      ''s0'', ''s1'', ''a0'', ''a1'', ''a2'', ''a3'', ''a4'', ''a5'',
      ''a6'', ''a7'', ''s2'', ''s3'', ''s4'', ''s5'', ''s6'', ''s7'',
      ''s8'', ''s9'', ''s10'', ''s11'', ''t3'', ''t4'', ''t5'', ''t6'']"

definition rv_freg_name_sym :: "string list" where
  "rv_freg_name_sym =
     [''ft0'', ''ft1'', ''ft2'', ''ft3'', ''ft4'', ''ft5'', ''ft6'', ''ft7'',
      ''fs0'', ''fs1'', ''fa0'', ''fa1'', ''fa2'', ''fa3'', ''fa4'', ''fa5'',
      ''fa6'', ''fa7'', ''fs2'', ''fs3'', ''fs4'', ''fs5'', ''fs6'', ''fs7'',
      ''fs8'', ''fs9'', ''fs10'', ''fs11'', ''ft8'', ''ft9'', ''ft10'', ''ft11'']"

subsection \<open>Print formats\<close>

abbreviation (input) rv_fmt_none :: string where "rv_fmt_none \<equiv> CHR ''O'' # CHR 0x09 # ''''"
abbreviation (input) rv_fmt_rs1 :: string where "rv_fmt_rs1 \<equiv> CHR ''O'' # CHR 0x09 # ''1''"
abbreviation (input) rv_fmt_offset :: string where "rv_fmt_offset \<equiv> CHR ''O'' # CHR 0x09 # ''o''"
abbreviation (input) rv_fmt_pred_succ :: string where "rv_fmt_pred_succ \<equiv> CHR ''O'' # CHR 0x09 # ''p,s''"
abbreviation (input) rv_fmt_rs1_rs2 :: string where "rv_fmt_rs1_rs2 \<equiv> CHR ''O'' # CHR 0x09 # ''1,2''"
abbreviation (input) rv_fmt_rd_imm :: string where "rv_fmt_rd_imm \<equiv> CHR ''O'' # CHR 0x09 # ''0,i''"
abbreviation (input) rv_fmt_rd_offset :: string where "rv_fmt_rd_offset \<equiv> CHR ''O'' # CHR 0x09 # ''0,o''"
abbreviation (input) rv_fmt_rd_rs1_rs2 :: string where "rv_fmt_rd_rs1_rs2 \<equiv> CHR ''O'' # CHR 0x09 # ''0,1,2''"
abbreviation (input) rv_fmt_frd_rs1 :: string where "rv_fmt_frd_rs1 \<equiv> CHR ''O'' # CHR 0x09 # ''3,1''"
abbreviation (input) rv_fmt_rd_frs1 :: string where "rv_fmt_rd_frs1 \<equiv> CHR ''O'' # CHR 0x09 # ''0,4''"
abbreviation (input) rv_fmt_rd_frs1_frs2 :: string where "rv_fmt_rd_frs1_frs2 \<equiv> CHR ''O'' # CHR 0x09 # ''0,4,5''"
abbreviation (input) rv_fmt_frd_frs1_frs2 :: string where "rv_fmt_frd_frs1_frs2 \<equiv> CHR ''O'' # CHR 0x09 # ''3,4,5''"
abbreviation (input) rv_fmt_rm_frd_frs1 :: string where "rv_fmt_rm_frd_frs1 \<equiv> CHR ''O'' # CHR 0x09 # ''r,3,4''"
abbreviation (input) rv_fmt_rm_frd_rs1 :: string where "rv_fmt_rm_frd_rs1 \<equiv> CHR ''O'' # CHR 0x09 # ''r,3,1''"
abbreviation (input) rv_fmt_rm_rd_frs1 :: string where "rv_fmt_rm_rd_frs1 \<equiv> CHR ''O'' # CHR 0x09 # ''r,0,4''"
abbreviation (input) rv_fmt_rm_frd_frs1_frs2 :: string where "rv_fmt_rm_frd_frs1_frs2 \<equiv> CHR ''O'' # CHR 0x09 # ''r,3,4,5''"
abbreviation (input) rv_fmt_rm_frd_frs1_frs2_frs3 :: string where "rv_fmt_rm_frd_frs1_frs2_frs3 \<equiv> CHR ''O'' # CHR 0x09 # ''r,3,4,5,6''"
abbreviation (input) rv_fmt_rd_rs1_imm :: string where "rv_fmt_rd_rs1_imm \<equiv> CHR ''O'' # CHR 0x09 # ''0,1,i''"
abbreviation (input) rv_fmt_rd_rs1_offset :: string where "rv_fmt_rd_rs1_offset \<equiv> CHR ''O'' # CHR 0x09 # ''0,1,i''"
abbreviation (input) rv_fmt_rd_offset_rs1 :: string where "rv_fmt_rd_offset_rs1 \<equiv> CHR ''O'' # CHR 0x09 # ''0,i(1)''"
abbreviation (input) rv_fmt_frd_offset_rs1 :: string where "rv_fmt_frd_offset_rs1 \<equiv> CHR ''O'' # CHR 0x09 # ''3,i(1)''"
abbreviation (input) rv_fmt_rd_csr_rs1 :: string where "rv_fmt_rd_csr_rs1 \<equiv> CHR ''O'' # CHR 0x09 # ''0,c,1''"
abbreviation (input) rv_fmt_rd_csr_zimm :: string where "rv_fmt_rd_csr_zimm \<equiv> CHR ''O'' # CHR 0x09 # ''0,c,7''"
abbreviation (input) rv_fmt_rs2_offset_rs1 :: string where "rv_fmt_rs2_offset_rs1 \<equiv> CHR ''O'' # CHR 0x09 # ''2,i(1)''"
abbreviation (input) rv_fmt_frs2_offset_rs1 :: string where "rv_fmt_frs2_offset_rs1 \<equiv> CHR ''O'' # CHR 0x09 # ''5,i(1)''"
abbreviation (input) rv_fmt_rs1_rs2_offset :: string where "rv_fmt_rs1_rs2_offset \<equiv> CHR ''O'' # CHR 0x09 # ''1,2,o''"
abbreviation (input) rv_fmt_rs2_rs1_offset :: string where "rv_fmt_rs2_rs1_offset \<equiv> CHR ''O'' # CHR 0x09 # ''2,1,o''"
abbreviation (input) rv_fmt_aqrl_rd_rs2_rs1 :: string where "rv_fmt_aqrl_rd_rs2_rs1 \<equiv> CHR ''O'' # CHR ''A'' # CHR ''R'' # CHR 0x09 # ''0,2,(1)''"
abbreviation (input) rv_fmt_aqrl_rd_rs1 :: string where "rv_fmt_aqrl_rd_rs1 \<equiv> CHR ''O'' # CHR ''A'' # CHR ''R'' # CHR 0x09 # ''0,(1)''"
abbreviation (input) rv_fmt_rd :: string where "rv_fmt_rd \<equiv> CHR ''O'' # CHR 0x09 # ''0''"
abbreviation (input) rv_fmt_rd_zimm :: string where "rv_fmt_rd_zimm \<equiv> CHR ''O'' # CHR 0x09 # ''0,7''"
abbreviation (input) rv_fmt_rd_rs1 :: string where "rv_fmt_rd_rs1 \<equiv> CHR ''O'' # CHR 0x09 # ''0,1''"
abbreviation (input) rv_fmt_rd_rs2 :: string where "rv_fmt_rd_rs2 \<equiv> CHR ''O'' # CHR 0x09 # ''0,2''"
abbreviation (input) rv_fmt_rs1_offset :: string where "rv_fmt_rs1_offset \<equiv> CHR ''O'' # CHR 0x09 # ''1,o''"
abbreviation (input) rv_fmt_rs2_offset :: string where "rv_fmt_rs2_offset \<equiv> CHR ''O'' # CHR 0x09 # ''2,o''"

subsection \<open>Pseudo-instructions\<close>

abbreviation (input) rvcc_last :: "rvc_constraint list" where
  "rvcc_last \<equiv> [rvc_end]"
abbreviation (input) rvcc_imm_eq_zero :: "rvc_constraint list" where
  "rvcc_imm_eq_zero \<equiv> [rvc_imm_eq_zero, rvc_end]"
abbreviation (input) rvcc_imm_eq_n1 :: "rvc_constraint list" where
  "rvcc_imm_eq_n1 \<equiv> [rvc_imm_eq_n1, rvc_end]"
abbreviation (input) rvcc_imm_eq_p1 :: "rvc_constraint list" where
  "rvcc_imm_eq_p1 \<equiv> [rvc_imm_eq_p1, rvc_end]"
abbreviation (input) rvcc_rs1_eq_x0 :: "rvc_constraint list" where
  "rvcc_rs1_eq_x0 \<equiv> [rvc_rs1_eq_x0, rvc_end]"
abbreviation (input) rvcc_rs2_eq_x0 :: "rvc_constraint list" where
  "rvcc_rs2_eq_x0 \<equiv> [rvc_rs2_eq_x0, rvc_end]"
abbreviation (input) rvcc_rs2_eq_rs1 :: "rvc_constraint list" where
  "rvcc_rs2_eq_rs1 \<equiv> [rvc_rs2_eq_rs1, rvc_end]"
abbreviation (input) rvcc_jal_j :: "rvc_constraint list" where
  "rvcc_jal_j \<equiv> [rvc_rd_eq_x0, rvc_end]"
abbreviation (input) rvcc_jal_jal :: "rvc_constraint list" where
  "rvcc_jal_jal \<equiv> [rvc_rd_eq_ra, rvc_end]"
abbreviation (input) rvcc_jalr_jr :: "rvc_constraint list" where
  "rvcc_jalr_jr \<equiv> [rvc_rd_eq_x0, rvc_imm_eq_zero, rvc_end]"
abbreviation (input) rvcc_jalr_jalr :: "rvc_constraint list" where
  "rvcc_jalr_jalr \<equiv> [rvc_rd_eq_ra, rvc_imm_eq_zero, rvc_end]"
abbreviation (input) rvcc_jalr_ret :: "rvc_constraint list" where
  "rvcc_jalr_ret \<equiv> [rvc_rd_eq_x0, rvc_rs1_eq_ra, rvc_end]"
abbreviation (input) rvcc_addi_nop :: "rvc_constraint list" where
  "rvcc_addi_nop \<equiv> [rvc_rd_eq_x0, rvc_rs1_eq_x0, rvc_imm_eq_zero, rvc_end]"
abbreviation (input) rvcc_rdcycle :: "rvc_constraint list" where
  "rvcc_rdcycle \<equiv> [rvc_rs1_eq_x0, rvc_csr_eq_0xc00, rvc_end]"
abbreviation (input) rvcc_rdtime :: "rvc_constraint list" where
  "rvcc_rdtime \<equiv> [rvc_rs1_eq_x0, rvc_csr_eq_0xc01, rvc_end]"
abbreviation (input) rvcc_rdinstret :: "rvc_constraint list" where
  "rvcc_rdinstret \<equiv> [rvc_rs1_eq_x0, rvc_csr_eq_0xc02, rvc_end]"
abbreviation (input) rvcc_rdcycleh :: "rvc_constraint list" where
  "rvcc_rdcycleh \<equiv> [rvc_rs1_eq_x0, rvc_csr_eq_0xc80, rvc_end]"
abbreviation (input) rvcc_rdtimeh :: "rvc_constraint list" where
  "rvcc_rdtimeh \<equiv> [rvc_rs1_eq_x0, rvc_csr_eq_0xc81, rvc_end]"
abbreviation (input) rvcc_rdinstreth :: "rvc_constraint list" where
  "rvcc_rdinstreth \<equiv> [rvc_rs1_eq_x0, rvc_csr_eq_0xc82, rvc_end]"
abbreviation (input) rvcc_frcsr :: "rvc_constraint list" where
  "rvcc_frcsr \<equiv> [rvc_rs1_eq_x0, rvc_csr_eq_0x003, rvc_end]"
abbreviation (input) rvcc_frrm :: "rvc_constraint list" where
  "rvcc_frrm \<equiv> [rvc_rs1_eq_x0, rvc_csr_eq_0x002, rvc_end]"
abbreviation (input) rvcc_frflags :: "rvc_constraint list" where
  "rvcc_frflags \<equiv> [rvc_rs1_eq_x0, rvc_csr_eq_0x001, rvc_end]"
abbreviation (input) rvcc_fscsr :: "rvc_constraint list" where
  "rvcc_fscsr \<equiv> [rvc_csr_eq_0x003, rvc_end]"
abbreviation (input) rvcc_fsrm :: "rvc_constraint list" where
  "rvcc_fsrm \<equiv> [rvc_csr_eq_0x002, rvc_end]"
abbreviation (input) rvcc_fsflags :: "rvc_constraint list" where
  "rvcc_fsflags \<equiv> [rvc_csr_eq_0x001, rvc_end]"
abbreviation (input) rvcc_fsrmi :: "rvc_constraint list" where
  "rvcc_fsrmi \<equiv> [rvc_csr_eq_0x002, rvc_end]"
abbreviation (input) rvcc_fsflagsi :: "rvc_constraint list" where
  "rvcc_fsflagsi \<equiv> [rvc_csr_eq_0x001, rvc_end]"

text \<open>\<open>struct rv_comp_data\<close>: an operation and the constraints under which it is printed.\<close>

record rv_comp_data =
  cd_op :: nat
  cd_constraints :: "rvc_constraint list option"

abbreviation (input) comp :: "nat \<Rightarrow> rvc_constraint list option \<Rightarrow> rv_comp_data" where
  "comp k cs \<equiv> \<lparr>cd_op = k, cd_constraints = cs\<rparr>"

abbreviation (input) rvcp_jal :: "rv_comp_data list" where
  "rvcp_jal \<equiv>
     [comp rv_op_j (Some rvcc_jal_j),
      comp rv_op_jal (Some rvcc_jal_jal),
      comp rv_op_illegal None]"

abbreviation (input) rvcp_jalr :: "rv_comp_data list" where
  "rvcp_jalr \<equiv>
     [comp rv_op_ret (Some rvcc_jalr_ret),
      comp rv_op_jr (Some rvcc_jalr_jr),
      comp rv_op_jalr (Some rvcc_jalr_jalr),
      comp rv_op_illegal None]"

abbreviation (input) rvcp_beq :: "rv_comp_data list" where
  "rvcp_beq \<equiv>
     [comp rv_op_beqz (Some rvcc_rs2_eq_x0),
      comp rv_op_illegal None]"

abbreviation (input) rvcp_bne :: "rv_comp_data list" where
  "rvcp_bne \<equiv>
     [comp rv_op_bnez (Some rvcc_rs2_eq_x0),
      comp rv_op_illegal None]"

abbreviation (input) rvcp_blt :: "rv_comp_data list" where
  "rvcp_blt \<equiv>
     [comp rv_op_bltz (Some rvcc_rs2_eq_x0),
      comp rv_op_bgtz (Some rvcc_rs1_eq_x0),
      comp rv_op_bgt (Some rvcc_last),
      comp rv_op_illegal None]"

abbreviation (input) rvcp_bge :: "rv_comp_data list" where
  "rvcp_bge \<equiv>
     [comp rv_op_blez (Some rvcc_rs1_eq_x0),
      comp rv_op_bgez (Some rvcc_rs2_eq_x0),
      comp rv_op_ble (Some rvcc_last),
      comp rv_op_illegal None]"

abbreviation (input) rvcp_bltu :: "rv_comp_data list" where
  "rvcp_bltu \<equiv>
     [comp rv_op_bgtu (Some rvcc_last),
      comp rv_op_illegal None]"

abbreviation (input) rvcp_bgeu :: "rv_comp_data list" where
  "rvcp_bgeu \<equiv>
     [comp rv_op_bleu (Some rvcc_last),
      comp rv_op_illegal None]"

abbreviation (input) rvcp_addi :: "rv_comp_data list" where
  "rvcp_addi \<equiv>
     [comp rv_op_nop (Some rvcc_addi_nop),
      comp rv_op_mv (Some rvcc_imm_eq_zero),
      comp rv_op_illegal None]"

abbreviation (input) rvcp_sltiu :: "rv_comp_data list" where
  "rvcp_sltiu \<equiv>
     [comp rv_op_seqz (Some rvcc_imm_eq_p1),
      comp rv_op_illegal None]"

abbreviation (input) rvcp_xori :: "rv_comp_data list" where
  "rvcp_xori \<equiv>
     [comp rv_op_not (Some rvcc_imm_eq_n1),
      comp rv_op_illegal None]"

abbreviation (input) rvcp_sub :: "rv_comp_data list" where
  "rvcp_sub \<equiv>
     [comp rv_op_neg (Some rvcc_rs1_eq_x0),
      comp rv_op_illegal None]"

abbreviation (input) rvcp_slt :: "rv_comp_data list" where
  "rvcp_slt \<equiv>
     [comp rv_op_sltz (Some rvcc_rs2_eq_x0),
      comp rv_op_sgtz (Some rvcc_rs1_eq_x0),
      comp rv_op_illegal None]"

abbreviation (input) rvcp_sltu :: "rv_comp_data list" where
  "rvcp_sltu \<equiv>
     [comp rv_op_snez (Some rvcc_rs1_eq_x0),
      comp rv_op_illegal None]"

abbreviation (input) rvcp_addiw :: "rv_comp_data list" where
  "rvcp_addiw \<equiv>
     [comp rv_op_sext_w (Some rvcc_imm_eq_zero),
      comp rv_op_illegal None]"

abbreviation (input) rvcp_subw :: "rv_comp_data list" where
  "rvcp_subw \<equiv>
     [comp rv_op_negw (Some rvcc_rs1_eq_x0),
      comp rv_op_illegal None]"

abbreviation (input) rvcp_csrrw :: "rv_comp_data list" where
  "rvcp_csrrw \<equiv>
     [comp rv_op_fscsr (Some rvcc_fscsr),
      comp rv_op_fsrm (Some rvcc_fsrm),
      comp rv_op_fsflags (Some rvcc_fsflags),
      comp rv_op_illegal None]"

abbreviation (input) rvcp_csrrs :: "rv_comp_data list" where
  "rvcp_csrrs \<equiv>
     [comp rv_op_rdcycle (Some rvcc_rdcycle),
      comp rv_op_rdtime (Some rvcc_rdtime),
      comp rv_op_rdinstret (Some rvcc_rdinstret),
      comp rv_op_rdcycleh (Some rvcc_rdcycleh),
      comp rv_op_rdtimeh (Some rvcc_rdtimeh),
      comp rv_op_rdinstreth (Some rvcc_rdinstreth),
      comp rv_op_frcsr (Some rvcc_frcsr),
      comp rv_op_frrm (Some rvcc_frrm),
      comp rv_op_frflags (Some rvcc_frflags),
      comp rv_op_illegal None]"

abbreviation (input) rvcp_csrrwi :: "rv_comp_data list" where
  "rvcp_csrrwi \<equiv>
     [comp rv_op_fsrmi (Some rvcc_fsrmi),
      comp rv_op_fsflagsi (Some rvcc_fsflagsi),
      comp rv_op_illegal None]"

abbreviation (input) rvcp_fsgnj_s :: "rv_comp_data list" where
  "rvcp_fsgnj_s \<equiv>
     [comp rv_op_fmv_s (Some rvcc_rs2_eq_rs1),
      comp rv_op_illegal None]"

abbreviation (input) rvcp_fsgnjn_s :: "rv_comp_data list" where
  "rvcp_fsgnjn_s \<equiv>
     [comp rv_op_fneg_s (Some rvcc_rs2_eq_rs1),
      comp rv_op_illegal None]"

abbreviation (input) rvcp_fsgnjx_s :: "rv_comp_data list" where
  "rvcp_fsgnjx_s \<equiv>
     [comp rv_op_fabs_s (Some rvcc_rs2_eq_rs1),
      comp rv_op_illegal None]"

abbreviation (input) rvcp_fsgnj_d :: "rv_comp_data list" where
  "rvcp_fsgnj_d \<equiv>
     [comp rv_op_fmv_d (Some rvcc_rs2_eq_rs1),
      comp rv_op_illegal None]"

abbreviation (input) rvcp_fsgnjn_d :: "rv_comp_data list" where
  "rvcp_fsgnjn_d \<equiv>
     [comp rv_op_fneg_d (Some rvcc_rs2_eq_rs1),
      comp rv_op_illegal None]"

abbreviation (input) rvcp_fsgnjx_d :: "rv_comp_data list" where
  "rvcp_fsgnjx_d \<equiv>
     [comp rv_op_fabs_d (Some rvcc_rs2_eq_rs1),
      comp rv_op_illegal None]"

abbreviation (input) rvcp_fsgnj_q :: "rv_comp_data list" where
  "rvcp_fsgnj_q \<equiv>
     [comp rv_op_fmv_q (Some rvcc_rs2_eq_rs1),
      comp rv_op_illegal None]"

abbreviation (input) rvcp_fsgnjn_q :: "rv_comp_data list" where
  "rvcp_fsgnjn_q \<equiv>
     [comp rv_op_fneg_q (Some rvcc_rs2_eq_rs1),
      comp rv_op_illegal None]"

abbreviation (input) rvcp_fsgnjx_q :: "rv_comp_data list" where
  "rvcp_fsgnjx_q \<equiv>
     [comp rv_op_fabs_q (Some rvcc_rs2_eq_rs1),
      comp rv_op_illegal None]"

subsection \<open>The operations\<close>

definition rvcd_imm_nz :: nat where "rvcd_imm_nz = 0x1"
definition rvcd_imm_nz_hint :: nat where "rvcd_imm_nz_hint = 0x2"

record rv_opcode_data =
  op_name :: string
  op_codec :: rv_codec
  op_format :: string
  op_pseudo :: "rv_comp_data list option"
  decomp_rv32 :: nat
  decomp_rv64 :: nat
  decomp_rv128 :: nat
  decomp_data :: nat

abbreviation (input) row ::
    "string \<Rightarrow> rv_codec \<Rightarrow> string \<Rightarrow> rv_comp_data list option \<Rightarrow> nat \<Rightarrow> nat \<Rightarrow> nat \<Rightarrow> nat
      \<Rightarrow> rv_opcode_data" where
  "row n c f p d32 d64 d128 dd \<equiv>
     \<lparr>op_name = n, op_codec = c, op_format = f, op_pseudo = p, decomp_rv32 = d32,
      decomp_rv64 = d64, decomp_rv128 = d128, decomp_data = dd\<rparr>"

definition opcodes_0 :: "rv_opcode_data list" where
  "opcodes_0 =
     [row ''illegal'' rv_codec_illegal rv_fmt_none None 0 0 0 0,
      row ''lui'' rv_codec_u rv_fmt_rd_imm None 0 0 0 0,
      row ''auipc'' rv_codec_u rv_fmt_rd_offset None 0 0 0 0,
      row ''jal'' rv_codec_uj rv_fmt_rd_offset (Some rvcp_jal) 0 0 0 0,
      row ''jalr'' rv_codec_i rv_fmt_rd_rs1_offset (Some rvcp_jalr) 0 0 0 0,
      row ''beq'' rv_codec_sb rv_fmt_rs1_rs2_offset (Some rvcp_beq) 0 0 0 0,
      row ''bne'' rv_codec_sb rv_fmt_rs1_rs2_offset (Some rvcp_bne) 0 0 0 0,
      row ''blt'' rv_codec_sb rv_fmt_rs1_rs2_offset (Some rvcp_blt) 0 0 0 0,
      row ''bge'' rv_codec_sb rv_fmt_rs1_rs2_offset (Some rvcp_bge) 0 0 0 0,
      row ''bltu'' rv_codec_sb rv_fmt_rs1_rs2_offset (Some rvcp_bltu) 0 0 0 0,
      row ''bgeu'' rv_codec_sb rv_fmt_rs1_rs2_offset (Some rvcp_bgeu) 0 0 0 0,
      row ''lb'' rv_codec_i rv_fmt_rd_offset_rs1 None 0 0 0 0,
      row ''lh'' rv_codec_i rv_fmt_rd_offset_rs1 None 0 0 0 0,
      row ''lw'' rv_codec_i rv_fmt_rd_offset_rs1 None 0 0 0 0,
      row ''lbu'' rv_codec_i rv_fmt_rd_offset_rs1 None 0 0 0 0,
      row ''lhu'' rv_codec_i rv_fmt_rd_offset_rs1 None 0 0 0 0,
      row ''sb'' rv_codec_s rv_fmt_rs2_offset_rs1 None 0 0 0 0,
      row ''sh'' rv_codec_s rv_fmt_rs2_offset_rs1 None 0 0 0 0,
      row ''sw'' rv_codec_s rv_fmt_rs2_offset_rs1 None 0 0 0 0,
      row ''addi'' rv_codec_i rv_fmt_rd_rs1_imm (Some rvcp_addi) 0 0 0 0,
      row ''slti'' rv_codec_i rv_fmt_rd_rs1_imm None 0 0 0 0,
      row ''sltiu'' rv_codec_i rv_fmt_rd_rs1_imm (Some rvcp_sltiu) 0 0 0 0,
      row ''xori'' rv_codec_i rv_fmt_rd_rs1_imm (Some rvcp_xori) 0 0 0 0,
      row ''ori'' rv_codec_i rv_fmt_rd_rs1_imm None 0 0 0 0,
      row ''andi'' rv_codec_i rv_fmt_rd_rs1_imm None 0 0 0 0,
      row ''slli'' rv_codec_i_sh7 rv_fmt_rd_rs1_imm None 0 0 0 0,
      row ''srli'' rv_codec_i_sh7 rv_fmt_rd_rs1_imm None 0 0 0 0,
      row ''srai'' rv_codec_i_sh7 rv_fmt_rd_rs1_imm None 0 0 0 0,
      row ''add'' rv_codec_r rv_fmt_rd_rs1_rs2 None 0 0 0 0,
      row ''sub'' rv_codec_r rv_fmt_rd_rs1_rs2 (Some rvcp_sub) 0 0 0 0,
      row ''sll'' rv_codec_r rv_fmt_rd_rs1_rs2 None 0 0 0 0,
      row ''slt'' rv_codec_r rv_fmt_rd_rs1_rs2 (Some rvcp_slt) 0 0 0 0,
      row ''sltu'' rv_codec_r rv_fmt_rd_rs1_rs2 (Some rvcp_sltu) 0 0 0 0,
      row ''xor'' rv_codec_r rv_fmt_rd_rs1_rs2 None 0 0 0 0,
      row ''srl'' rv_codec_r rv_fmt_rd_rs1_rs2 None 0 0 0 0,
      row ''sra'' rv_codec_r rv_fmt_rd_rs1_rs2 None 0 0 0 0,
      row ''or'' rv_codec_r rv_fmt_rd_rs1_rs2 None 0 0 0 0,
      row ''and'' rv_codec_r rv_fmt_rd_rs1_rs2 None 0 0 0 0,
      row ''fence'' rv_codec_r_f rv_fmt_pred_succ None 0 0 0 0,
      row ''fence.i'' rv_codec_none rv_fmt_none None 0 0 0 0,
      row ''lwu'' rv_codec_i rv_fmt_rd_offset_rs1 None 0 0 0 0,
      row ''ld'' rv_codec_i rv_fmt_rd_offset_rs1 None 0 0 0 0,
      row ''sd'' rv_codec_s rv_fmt_rs2_offset_rs1 None 0 0 0 0,
      row ''addiw'' rv_codec_i rv_fmt_rd_rs1_imm (Some rvcp_addiw) 0 0 0 0,
      row ''slliw'' rv_codec_i_sh5 rv_fmt_rd_rs1_imm None 0 0 0 0,
      row ''srliw'' rv_codec_i_sh5 rv_fmt_rd_rs1_imm None 0 0 0 0,
      row ''sraiw'' rv_codec_i_sh5 rv_fmt_rd_rs1_imm None 0 0 0 0,
      row ''addw'' rv_codec_r rv_fmt_rd_rs1_rs2 None 0 0 0 0,
      row ''subw'' rv_codec_r rv_fmt_rd_rs1_rs2 (Some rvcp_subw) 0 0 0 0,
      row ''sllw'' rv_codec_r rv_fmt_rd_rs1_rs2 None 0 0 0 0,
      row ''srlw'' rv_codec_r rv_fmt_rd_rs1_rs2 None 0 0 0 0,
      row ''sraw'' rv_codec_r rv_fmt_rd_rs1_rs2 None 0 0 0 0,
      row ''ldu'' rv_codec_i rv_fmt_rd_offset_rs1 None 0 0 0 0,
      row ''lq'' rv_codec_i rv_fmt_rd_offset_rs1 None 0 0 0 0,
      row ''sq'' rv_codec_s rv_fmt_rs2_offset_rs1 None 0 0 0 0,
      row ''addid'' rv_codec_i rv_fmt_rd_rs1_imm None 0 0 0 0,
      row ''sllid'' rv_codec_i_sh6 rv_fmt_rd_rs1_imm None 0 0 0 0,
      row ''srlid'' rv_codec_i_sh6 rv_fmt_rd_rs1_imm None 0 0 0 0,
      row ''sraid'' rv_codec_i_sh6 rv_fmt_rd_rs1_imm None 0 0 0 0,
      row ''addd'' rv_codec_r rv_fmt_rd_rs1_rs2 None 0 0 0 0,
      row ''subd'' rv_codec_r rv_fmt_rd_rs1_rs2 None 0 0 0 0,
      row ''slld'' rv_codec_r rv_fmt_rd_rs1_rs2 None 0 0 0 0,
      row ''srld'' rv_codec_r rv_fmt_rd_rs1_rs2 None 0 0 0 0,
      row ''srad'' rv_codec_r rv_fmt_rd_rs1_rs2 None 0 0 0 0]"

definition opcodes_64 :: "rv_opcode_data list" where
  "opcodes_64 =
     [row ''mul'' rv_codec_r rv_fmt_rd_rs1_rs2 None 0 0 0 0,
      row ''mulh'' rv_codec_r rv_fmt_rd_rs1_rs2 None 0 0 0 0,
      row ''mulhsu'' rv_codec_r rv_fmt_rd_rs1_rs2 None 0 0 0 0,
      row ''mulhu'' rv_codec_r rv_fmt_rd_rs1_rs2 None 0 0 0 0,
      row ''div'' rv_codec_r rv_fmt_rd_rs1_rs2 None 0 0 0 0,
      row ''divu'' rv_codec_r rv_fmt_rd_rs1_rs2 None 0 0 0 0,
      row ''rem'' rv_codec_r rv_fmt_rd_rs1_rs2 None 0 0 0 0,
      row ''remu'' rv_codec_r rv_fmt_rd_rs1_rs2 None 0 0 0 0,
      row ''mulw'' rv_codec_r rv_fmt_rd_rs1_rs2 None 0 0 0 0,
      row ''divw'' rv_codec_r rv_fmt_rd_rs1_rs2 None 0 0 0 0,
      row ''divuw'' rv_codec_r rv_fmt_rd_rs1_rs2 None 0 0 0 0,
      row ''remw'' rv_codec_r rv_fmt_rd_rs1_rs2 None 0 0 0 0,
      row ''remuw'' rv_codec_r rv_fmt_rd_rs1_rs2 None 0 0 0 0,
      row ''muld'' rv_codec_r rv_fmt_rd_rs1_rs2 None 0 0 0 0,
      row ''divd'' rv_codec_r rv_fmt_rd_rs1_rs2 None 0 0 0 0,
      row ''divud'' rv_codec_r rv_fmt_rd_rs1_rs2 None 0 0 0 0,
      row ''remd'' rv_codec_r rv_fmt_rd_rs1_rs2 None 0 0 0 0,
      row ''remud'' rv_codec_r rv_fmt_rd_rs1_rs2 None 0 0 0 0,
      row ''lr.w'' rv_codec_r_l rv_fmt_aqrl_rd_rs1 None 0 0 0 0,
      row ''sc.w'' rv_codec_r_a rv_fmt_aqrl_rd_rs2_rs1 None 0 0 0 0,
      row ''amoswap.w'' rv_codec_r_a rv_fmt_aqrl_rd_rs2_rs1 None 0 0 0 0,
      row ''amoadd.w'' rv_codec_r_a rv_fmt_aqrl_rd_rs2_rs1 None 0 0 0 0,
      row ''amoxor.w'' rv_codec_r_a rv_fmt_aqrl_rd_rs2_rs1 None 0 0 0 0,
      row ''amoor.w'' rv_codec_r_a rv_fmt_aqrl_rd_rs2_rs1 None 0 0 0 0,
      row ''amoand.w'' rv_codec_r_a rv_fmt_aqrl_rd_rs2_rs1 None 0 0 0 0,
      row ''amomin.w'' rv_codec_r_a rv_fmt_aqrl_rd_rs2_rs1 None 0 0 0 0,
      row ''amomax.w'' rv_codec_r_a rv_fmt_aqrl_rd_rs2_rs1 None 0 0 0 0,
      row ''amominu.w'' rv_codec_r_a rv_fmt_aqrl_rd_rs2_rs1 None 0 0 0 0,
      row ''amomaxu.w'' rv_codec_r_a rv_fmt_aqrl_rd_rs2_rs1 None 0 0 0 0,
      row ''lr.d'' rv_codec_r_l rv_fmt_aqrl_rd_rs1 None 0 0 0 0,
      row ''sc.d'' rv_codec_r_a rv_fmt_aqrl_rd_rs2_rs1 None 0 0 0 0,
      row ''amoswap.d'' rv_codec_r_a rv_fmt_aqrl_rd_rs2_rs1 None 0 0 0 0,
      row ''amoadd.d'' rv_codec_r_a rv_fmt_aqrl_rd_rs2_rs1 None 0 0 0 0,
      row ''amoxor.d'' rv_codec_r_a rv_fmt_aqrl_rd_rs2_rs1 None 0 0 0 0,
      row ''amoor.d'' rv_codec_r_a rv_fmt_aqrl_rd_rs2_rs1 None 0 0 0 0,
      row ''amoand.d'' rv_codec_r_a rv_fmt_aqrl_rd_rs2_rs1 None 0 0 0 0,
      row ''amomin.d'' rv_codec_r_a rv_fmt_aqrl_rd_rs2_rs1 None 0 0 0 0,
      row ''amomax.d'' rv_codec_r_a rv_fmt_aqrl_rd_rs2_rs1 None 0 0 0 0,
      row ''amominu.d'' rv_codec_r_a rv_fmt_aqrl_rd_rs2_rs1 None 0 0 0 0,
      row ''amomaxu.d'' rv_codec_r_a rv_fmt_aqrl_rd_rs2_rs1 None 0 0 0 0,
      row ''lr.q'' rv_codec_r_l rv_fmt_aqrl_rd_rs1 None 0 0 0 0,
      row ''sc.q'' rv_codec_r_a rv_fmt_aqrl_rd_rs2_rs1 None 0 0 0 0,
      row ''amoswap.q'' rv_codec_r_a rv_fmt_aqrl_rd_rs2_rs1 None 0 0 0 0,
      row ''amoadd.q'' rv_codec_r_a rv_fmt_aqrl_rd_rs2_rs1 None 0 0 0 0,
      row ''amoxor.q'' rv_codec_r_a rv_fmt_aqrl_rd_rs2_rs1 None 0 0 0 0,
      row ''amoor.q'' rv_codec_r_a rv_fmt_aqrl_rd_rs2_rs1 None 0 0 0 0,
      row ''amoand.q'' rv_codec_r_a rv_fmt_aqrl_rd_rs2_rs1 None 0 0 0 0,
      row ''amomin.q'' rv_codec_r_a rv_fmt_aqrl_rd_rs2_rs1 None 0 0 0 0,
      row ''amomax.q'' rv_codec_r_a rv_fmt_aqrl_rd_rs2_rs1 None 0 0 0 0,
      row ''amominu.q'' rv_codec_r_a rv_fmt_aqrl_rd_rs2_rs1 None 0 0 0 0,
      row ''amomaxu.q'' rv_codec_r_a rv_fmt_aqrl_rd_rs2_rs1 None 0 0 0 0,
      row ''ecall'' rv_codec_none rv_fmt_none None 0 0 0 0,
      row ''ebreak'' rv_codec_none rv_fmt_none None 0 0 0 0,
      row ''uret'' rv_codec_none rv_fmt_none None 0 0 0 0,
      row ''sret'' rv_codec_none rv_fmt_none None 0 0 0 0,
      row ''hret'' rv_codec_none rv_fmt_none None 0 0 0 0,
      row ''mret'' rv_codec_none rv_fmt_none None 0 0 0 0,
      row ''dret'' rv_codec_none rv_fmt_none None 0 0 0 0,
      row ''sfence.vm'' rv_codec_r rv_fmt_rs1 None 0 0 0 0,
      row ''sfence.vma'' rv_codec_r rv_fmt_rs1_rs2 None 0 0 0 0,
      row ''wfi'' rv_codec_none rv_fmt_none None 0 0 0 0,
      row ''csrrw'' rv_codec_i_csr rv_fmt_rd_csr_rs1 (Some rvcp_csrrw) 0 0 0 0,
      row ''csrrs'' rv_codec_i_csr rv_fmt_rd_csr_rs1 (Some rvcp_csrrs) 0 0 0 0,
      row ''csrrc'' rv_codec_i_csr rv_fmt_rd_csr_rs1 None 0 0 0 0]"

definition opcodes_128 :: "rv_opcode_data list" where
  "opcodes_128 =
     [row ''csrrwi'' rv_codec_i_csr rv_fmt_rd_csr_zimm (Some rvcp_csrrwi) 0 0 0 0,
      row ''csrrsi'' rv_codec_i_csr rv_fmt_rd_csr_zimm None 0 0 0 0,
      row ''csrrci'' rv_codec_i_csr rv_fmt_rd_csr_zimm None 0 0 0 0,
      row ''flw'' rv_codec_i rv_fmt_frd_offset_rs1 None 0 0 0 0,
      row ''fsw'' rv_codec_s rv_fmt_frs2_offset_rs1 None 0 0 0 0,
      row ''fmadd.s'' rv_codec_r4_m rv_fmt_rm_frd_frs1_frs2_frs3 None 0 0 0 0,
      row ''fmsub.s'' rv_codec_r4_m rv_fmt_rm_frd_frs1_frs2_frs3 None 0 0 0 0,
      row ''fnmsub.s'' rv_codec_r4_m rv_fmt_rm_frd_frs1_frs2_frs3 None 0 0 0 0,
      row ''fnmadd.s'' rv_codec_r4_m rv_fmt_rm_frd_frs1_frs2_frs3 None 0 0 0 0,
      row ''fadd.s'' rv_codec_r_m rv_fmt_rm_frd_frs1_frs2 None 0 0 0 0,
      row ''fsub.s'' rv_codec_r_m rv_fmt_rm_frd_frs1_frs2 None 0 0 0 0,
      row ''fmul.s'' rv_codec_r_m rv_fmt_rm_frd_frs1_frs2 None 0 0 0 0,
      row ''fdiv.s'' rv_codec_r_m rv_fmt_rm_frd_frs1_frs2 None 0 0 0 0,
      row ''fsgnj.s'' rv_codec_r rv_fmt_frd_frs1_frs2 (Some rvcp_fsgnj_s) 0 0 0 0,
      row ''fsgnjn.s'' rv_codec_r rv_fmt_frd_frs1_frs2 (Some rvcp_fsgnjn_s) 0 0 0 0,
      row ''fsgnjx.s'' rv_codec_r rv_fmt_frd_frs1_frs2 (Some rvcp_fsgnjx_s) 0 0 0 0,
      row ''fmin.s'' rv_codec_r rv_fmt_frd_frs1_frs2 None 0 0 0 0,
      row ''fmax.s'' rv_codec_r rv_fmt_frd_frs1_frs2 None 0 0 0 0,
      row ''fsqrt.s'' rv_codec_r_m rv_fmt_rm_frd_frs1 None 0 0 0 0,
      row ''fle.s'' rv_codec_r rv_fmt_rd_frs1_frs2 None 0 0 0 0,
      row ''flt.s'' rv_codec_r rv_fmt_rd_frs1_frs2 None 0 0 0 0,
      row ''feq.s'' rv_codec_r rv_fmt_rd_frs1_frs2 None 0 0 0 0,
      row ''fcvt.w.s'' rv_codec_r_m rv_fmt_rm_rd_frs1 None 0 0 0 0,
      row ''fcvt.wu.s'' rv_codec_r_m rv_fmt_rm_rd_frs1 None 0 0 0 0,
      row ''fcvt.s.w'' rv_codec_r_m rv_fmt_rm_frd_rs1 None 0 0 0 0,
      row ''fcvt.s.wu'' rv_codec_r_m rv_fmt_rm_frd_rs1 None 0 0 0 0,
      row ''fmv.x.s'' rv_codec_r rv_fmt_rd_frs1 None 0 0 0 0,
      row ''fclass.s'' rv_codec_r rv_fmt_rd_frs1 None 0 0 0 0,
      row ''fmv.s.x'' rv_codec_r rv_fmt_frd_rs1 None 0 0 0 0,
      row ''fcvt.l.s'' rv_codec_r_m rv_fmt_rm_rd_frs1 None 0 0 0 0,
      row ''fcvt.lu.s'' rv_codec_r_m rv_fmt_rm_rd_frs1 None 0 0 0 0,
      row ''fcvt.s.l'' rv_codec_r_m rv_fmt_rm_frd_rs1 None 0 0 0 0,
      row ''fcvt.s.lu'' rv_codec_r_m rv_fmt_rm_frd_rs1 None 0 0 0 0,
      row ''fld'' rv_codec_i rv_fmt_frd_offset_rs1 None 0 0 0 0,
      row ''fsd'' rv_codec_s rv_fmt_frs2_offset_rs1 None 0 0 0 0,
      row ''fmadd.d'' rv_codec_r4_m rv_fmt_rm_frd_frs1_frs2_frs3 None 0 0 0 0,
      row ''fmsub.d'' rv_codec_r4_m rv_fmt_rm_frd_frs1_frs2_frs3 None 0 0 0 0,
      row ''fnmsub.d'' rv_codec_r4_m rv_fmt_rm_frd_frs1_frs2_frs3 None 0 0 0 0,
      row ''fnmadd.d'' rv_codec_r4_m rv_fmt_rm_frd_frs1_frs2_frs3 None 0 0 0 0,
      row ''fadd.d'' rv_codec_r_m rv_fmt_rm_frd_frs1_frs2 None 0 0 0 0,
      row ''fsub.d'' rv_codec_r_m rv_fmt_rm_frd_frs1_frs2 None 0 0 0 0,
      row ''fmul.d'' rv_codec_r_m rv_fmt_rm_frd_frs1_frs2 None 0 0 0 0,
      row ''fdiv.d'' rv_codec_r_m rv_fmt_rm_frd_frs1_frs2 None 0 0 0 0,
      row ''fsgnj.d'' rv_codec_r rv_fmt_frd_frs1_frs2 (Some rvcp_fsgnj_d) 0 0 0 0,
      row ''fsgnjn.d'' rv_codec_r rv_fmt_frd_frs1_frs2 (Some rvcp_fsgnjn_d) 0 0 0 0,
      row ''fsgnjx.d'' rv_codec_r rv_fmt_frd_frs1_frs2 (Some rvcp_fsgnjx_d) 0 0 0 0,
      row ''fmin.d'' rv_codec_r rv_fmt_frd_frs1_frs2 None 0 0 0 0,
      row ''fmax.d'' rv_codec_r rv_fmt_frd_frs1_frs2 None 0 0 0 0,
      row ''fcvt.s.d'' rv_codec_r_m rv_fmt_rm_frd_frs1 None 0 0 0 0,
      row ''fcvt.d.s'' rv_codec_r_m rv_fmt_rm_frd_frs1 None 0 0 0 0,
      row ''fsqrt.d'' rv_codec_r_m rv_fmt_rm_frd_frs1 None 0 0 0 0,
      row ''fle.d'' rv_codec_r rv_fmt_rd_frs1_frs2 None 0 0 0 0,
      row ''flt.d'' rv_codec_r rv_fmt_rd_frs1_frs2 None 0 0 0 0,
      row ''feq.d'' rv_codec_r rv_fmt_rd_frs1_frs2 None 0 0 0 0,
      row ''fcvt.w.d'' rv_codec_r_m rv_fmt_rm_rd_frs1 None 0 0 0 0,
      row ''fcvt.wu.d'' rv_codec_r_m rv_fmt_rm_rd_frs1 None 0 0 0 0,
      row ''fcvt.d.w'' rv_codec_r_m rv_fmt_rm_frd_rs1 None 0 0 0 0,
      row ''fcvt.d.wu'' rv_codec_r_m rv_fmt_rm_frd_rs1 None 0 0 0 0,
      row ''fclass.d'' rv_codec_r rv_fmt_rd_frs1 None 0 0 0 0,
      row ''fcvt.l.d'' rv_codec_r_m rv_fmt_rm_rd_frs1 None 0 0 0 0,
      row ''fcvt.lu.d'' rv_codec_r_m rv_fmt_rm_rd_frs1 None 0 0 0 0,
      row ''fmv.x.d'' rv_codec_r rv_fmt_rd_frs1 None 0 0 0 0,
      row ''fcvt.d.l'' rv_codec_r_m rv_fmt_rm_frd_rs1 None 0 0 0 0,
      row ''fcvt.d.lu'' rv_codec_r_m rv_fmt_rm_frd_rs1 None 0 0 0 0]"

definition opcodes_192 :: "rv_opcode_data list" where
  "opcodes_192 =
     [row ''fmv.d.x'' rv_codec_r rv_fmt_frd_rs1 None 0 0 0 0,
      row ''flq'' rv_codec_i rv_fmt_frd_offset_rs1 None 0 0 0 0,
      row ''fsq'' rv_codec_s rv_fmt_frs2_offset_rs1 None 0 0 0 0,
      row ''fmadd.q'' rv_codec_r4_m rv_fmt_rm_frd_frs1_frs2_frs3 None 0 0 0 0,
      row ''fmsub.q'' rv_codec_r4_m rv_fmt_rm_frd_frs1_frs2_frs3 None 0 0 0 0,
      row ''fnmsub.q'' rv_codec_r4_m rv_fmt_rm_frd_frs1_frs2_frs3 None 0 0 0 0,
      row ''fnmadd.q'' rv_codec_r4_m rv_fmt_rm_frd_frs1_frs2_frs3 None 0 0 0 0,
      row ''fadd.q'' rv_codec_r_m rv_fmt_rm_frd_frs1_frs2 None 0 0 0 0,
      row ''fsub.q'' rv_codec_r_m rv_fmt_rm_frd_frs1_frs2 None 0 0 0 0,
      row ''fmul.q'' rv_codec_r_m rv_fmt_rm_frd_frs1_frs2 None 0 0 0 0,
      row ''fdiv.q'' rv_codec_r_m rv_fmt_rm_frd_frs1_frs2 None 0 0 0 0,
      row ''fsgnj.q'' rv_codec_r rv_fmt_frd_frs1_frs2 (Some rvcp_fsgnj_q) 0 0 0 0,
      row ''fsgnjn.q'' rv_codec_r rv_fmt_frd_frs1_frs2 (Some rvcp_fsgnjn_q) 0 0 0 0,
      row ''fsgnjx.q'' rv_codec_r rv_fmt_frd_frs1_frs2 (Some rvcp_fsgnjx_q) 0 0 0 0,
      row ''fmin.q'' rv_codec_r rv_fmt_frd_frs1_frs2 None 0 0 0 0,
      row ''fmax.q'' rv_codec_r rv_fmt_frd_frs1_frs2 None 0 0 0 0,
      row ''fcvt.s.q'' rv_codec_r_m rv_fmt_rm_frd_frs1 None 0 0 0 0,
      row ''fcvt.q.s'' rv_codec_r_m rv_fmt_rm_frd_frs1 None 0 0 0 0,
      row ''fcvt.d.q'' rv_codec_r_m rv_fmt_rm_frd_frs1 None 0 0 0 0,
      row ''fcvt.q.d'' rv_codec_r_m rv_fmt_rm_frd_frs1 None 0 0 0 0,
      row ''fsqrt.q'' rv_codec_r_m rv_fmt_rm_frd_frs1 None 0 0 0 0,
      row ''fle.q'' rv_codec_r rv_fmt_rd_frs1_frs2 None 0 0 0 0,
      row ''flt.q'' rv_codec_r rv_fmt_rd_frs1_frs2 None 0 0 0 0,
      row ''feq.q'' rv_codec_r rv_fmt_rd_frs1_frs2 None 0 0 0 0,
      row ''fcvt.w.q'' rv_codec_r_m rv_fmt_rm_rd_frs1 None 0 0 0 0,
      row ''fcvt.wu.q'' rv_codec_r_m rv_fmt_rm_rd_frs1 None 0 0 0 0,
      row ''fcvt.q.w'' rv_codec_r_m rv_fmt_rm_frd_rs1 None 0 0 0 0,
      row ''fcvt.q.wu'' rv_codec_r_m rv_fmt_rm_frd_rs1 None 0 0 0 0,
      row ''fclass.q'' rv_codec_r rv_fmt_rd_frs1 None 0 0 0 0,
      row ''fcvt.l.q'' rv_codec_r_m rv_fmt_rm_rd_frs1 None 0 0 0 0,
      row ''fcvt.lu.q'' rv_codec_r_m rv_fmt_rm_rd_frs1 None 0 0 0 0,
      row ''fcvt.q.l'' rv_codec_r_m rv_fmt_rm_frd_rs1 None 0 0 0 0,
      row ''fcvt.q.lu'' rv_codec_r_m rv_fmt_rm_frd_rs1 None 0 0 0 0,
      row ''fmv.x.q'' rv_codec_r rv_fmt_rd_frs1 None 0 0 0 0,
      row ''fmv.q.x'' rv_codec_r rv_fmt_frd_rs1 None 0 0 0 0,
      row ''c.addi4spn'' rv_codec_ciw_4spn rv_fmt_rd_rs1_imm None
        rv_op_addi rv_op_addi rv_op_addi rvcd_imm_nz,
      row ''c.fld'' rv_codec_cl_ld rv_fmt_frd_offset_rs1 None rv_op_fld rv_op_fld 0 0,
      row ''c.lw'' rv_codec_cl_lw rv_fmt_rd_offset_rs1 None rv_op_lw rv_op_lw rv_op_lw 0,
      row ''c.flw'' rv_codec_cl_lw rv_fmt_frd_offset_rs1 None rv_op_flw 0 0 0,
      row ''c.fsd'' rv_codec_cs_sd rv_fmt_frs2_offset_rs1 None rv_op_fsd rv_op_fsd 0 0,
      row ''c.sw'' rv_codec_cs_sw rv_fmt_rs2_offset_rs1 None rv_op_sw rv_op_sw rv_op_sw 0,
      row ''c.fsw'' rv_codec_cs_sw rv_fmt_frs2_offset_rs1 None rv_op_fsw 0 0 0,
      row ''c.nop'' rv_codec_ci_none rv_fmt_none None rv_op_addi rv_op_addi rv_op_addi 0,
      row ''c.addi'' rv_codec_ci rv_fmt_rd_rs1_imm None
        rv_op_addi rv_op_addi rv_op_addi rvcd_imm_nz_hint,
      row ''c.jal'' rv_codec_cj_jal rv_fmt_rd_offset None rv_op_jal 0 0 0,
      row ''c.li'' rv_codec_ci_li rv_fmt_rd_rs1_imm None rv_op_addi rv_op_addi rv_op_addi 0,
      row ''c.addi16sp'' rv_codec_ci_16sp rv_fmt_rd_rs1_imm None
        rv_op_addi rv_op_addi rv_op_addi rvcd_imm_nz,
      row ''c.lui'' rv_codec_ci_lui rv_fmt_rd_imm None rv_op_lui rv_op_lui rv_op_lui rvcd_imm_nz,
      row ''c.srli'' rv_codec_cb_sh6 rv_fmt_rd_rs1_imm None
        rv_op_srli rv_op_srli rv_op_srli rvcd_imm_nz,
      row ''c.srai'' rv_codec_cb_sh6 rv_fmt_rd_rs1_imm None
        rv_op_srai rv_op_srai rv_op_srai rvcd_imm_nz,
      row ''c.andi'' rv_codec_cb_imm rv_fmt_rd_rs1_imm None
        rv_op_andi rv_op_andi rv_op_andi rvcd_imm_nz,
      row ''c.sub'' rv_codec_cs rv_fmt_rd_rs1_rs2 None rv_op_sub rv_op_sub rv_op_sub 0,
      row ''c.xor'' rv_codec_cs rv_fmt_rd_rs1_rs2 None rv_op_xor rv_op_xor rv_op_xor 0,
      row ''c.or'' rv_codec_cs rv_fmt_rd_rs1_rs2 None rv_op_or rv_op_or rv_op_or 0,
      row ''c.and'' rv_codec_cs rv_fmt_rd_rs1_rs2 None rv_op_and rv_op_and rv_op_and 0,
      row ''c.subw'' rv_codec_cs rv_fmt_rd_rs1_rs2 None rv_op_subw rv_op_subw rv_op_subw 0,
      row ''c.addw'' rv_codec_cs rv_fmt_rd_rs1_rs2 None rv_op_addw rv_op_addw rv_op_addw 0,
      row ''c.j'' rv_codec_cj rv_fmt_rd_offset None rv_op_jal rv_op_jal rv_op_jal 0,
      row ''c.beqz'' rv_codec_cb rv_fmt_rs1_rs2_offset None rv_op_beq rv_op_beq rv_op_beq 0,
      row ''c.bnez'' rv_codec_cb rv_fmt_rs1_rs2_offset None rv_op_bne rv_op_bne rv_op_bne 0,
      row ''c.slli'' rv_codec_ci_sh6 rv_fmt_rd_rs1_imm None
        rv_op_slli rv_op_slli rv_op_slli rvcd_imm_nz,
      row ''c.fldsp'' rv_codec_ci_ldsp rv_fmt_frd_offset_rs1 None
        rv_op_fld rv_op_fld rv_op_fld 0,
      row ''c.lwsp'' rv_codec_ci_lwsp rv_fmt_rd_offset_rs1 None rv_op_lw rv_op_lw rv_op_lw 0,
      row ''c.flwsp'' rv_codec_ci_lwsp rv_fmt_frd_offset_rs1 None rv_op_flw 0 0 0]"

definition opcodes_256 :: "rv_opcode_data list" where
  "opcodes_256 =
     [row ''c.jr'' rv_codec_cr_jr rv_fmt_rd_rs1_offset None rv_op_jalr rv_op_jalr rv_op_jalr 0,
      row ''c.mv'' rv_codec_cr_mv rv_fmt_rd_rs1_rs2 None rv_op_addi rv_op_addi rv_op_addi 0,
      row ''c.ebreak'' rv_codec_ci_none rv_fmt_none None
        rv_op_ebreak rv_op_ebreak rv_op_ebreak 0,
      row ''c.jalr'' rv_codec_cr_jalr rv_fmt_rd_rs1_offset None
        rv_op_jalr rv_op_jalr rv_op_jalr 0,
      row ''c.add'' rv_codec_cr rv_fmt_rd_rs1_rs2 None rv_op_add rv_op_add rv_op_add 0,
      row ''c.fsdsp'' rv_codec_css_sdsp rv_fmt_frs2_offset_rs1 None
        rv_op_fsd rv_op_fsd rv_op_fsd 0,
      row ''c.swsp'' rv_codec_css_swsp rv_fmt_rs2_offset_rs1 None rv_op_sw rv_op_sw rv_op_sw 0,
      row ''c.fswsp'' rv_codec_css_swsp rv_fmt_frs2_offset_rs1 None rv_op_fsw 0 0 0,
      row ''c.ld'' rv_codec_cl_ld rv_fmt_rd_offset_rs1 None 0 rv_op_ld rv_op_ld 0,
      row ''c.sd'' rv_codec_cs_sd rv_fmt_rs2_offset_rs1 None 0 rv_op_sd rv_op_sd 0,
      row ''c.addiw'' rv_codec_ci rv_fmt_rd_rs1_imm None 0 rv_op_addiw rv_op_addiw 0,
      row ''c.ldsp'' rv_codec_ci_ldsp rv_fmt_rd_offset_rs1 None 0 rv_op_ld rv_op_ld 0,
      row ''c.sdsp'' rv_codec_css_sdsp rv_fmt_rs2_offset_rs1 None 0 rv_op_sd rv_op_sd 0,
      row ''c.lq'' rv_codec_cl_lq rv_fmt_rd_offset_rs1 None 0 0 rv_op_lq 0,
      row ''c.sq'' rv_codec_cs_sq rv_fmt_rs2_offset_rs1 None 0 0 rv_op_sq 0,
      row ''c.lqsp'' rv_codec_ci_lqsp rv_fmt_rd_offset_rs1 None 0 0 rv_op_lq 0,
      row ''c.sqsp'' rv_codec_css_sqsp rv_fmt_rs2_offset_rs1 None 0 0 rv_op_sq 0,
      row ''nop'' rv_codec_i rv_fmt_none None 0 0 0 0,
      row ''mv'' rv_codec_i rv_fmt_rd_rs1 None 0 0 0 0,
      row ''not'' rv_codec_i rv_fmt_rd_rs1 None 0 0 0 0,
      row ''neg'' rv_codec_r rv_fmt_rd_rs2 None 0 0 0 0,
      row ''negw'' rv_codec_r rv_fmt_rd_rs2 None 0 0 0 0,
      row ''sext.w'' rv_codec_i rv_fmt_rd_rs1 None 0 0 0 0,
      row ''seqz'' rv_codec_i rv_fmt_rd_rs1 None 0 0 0 0,
      row ''snez'' rv_codec_r rv_fmt_rd_rs2 None 0 0 0 0,
      row ''sltz'' rv_codec_r rv_fmt_rd_rs1 None 0 0 0 0,
      row ''sgtz'' rv_codec_r rv_fmt_rd_rs2 None 0 0 0 0,
      row ''fmv.s'' rv_codec_r rv_fmt_rd_rs1 None 0 0 0 0,
      row ''fabs.s'' rv_codec_r rv_fmt_rd_rs1 None 0 0 0 0,
      row ''fneg.s'' rv_codec_r rv_fmt_rd_rs1 None 0 0 0 0,
      row ''fmv.d'' rv_codec_r rv_fmt_rd_rs1 None 0 0 0 0,
      row ''fabs.d'' rv_codec_r rv_fmt_rd_rs1 None 0 0 0 0,
      row ''fneg.d'' rv_codec_r rv_fmt_rd_rs1 None 0 0 0 0,
      row ''fmv.q'' rv_codec_r rv_fmt_rd_rs1 None 0 0 0 0,
      row ''fabs.q'' rv_codec_r rv_fmt_rd_rs1 None 0 0 0 0,
      row ''fneg.q'' rv_codec_r rv_fmt_rd_rs1 None 0 0 0 0,
      row ''beqz'' rv_codec_sb rv_fmt_rs1_offset None 0 0 0 0,
      row ''bnez'' rv_codec_sb rv_fmt_rs1_offset None 0 0 0 0,
      row ''blez'' rv_codec_sb rv_fmt_rs2_offset None 0 0 0 0,
      row ''bgez'' rv_codec_sb rv_fmt_rs1_offset None 0 0 0 0,
      row ''bltz'' rv_codec_sb rv_fmt_rs1_offset None 0 0 0 0,
      row ''bgtz'' rv_codec_sb rv_fmt_rs2_offset None 0 0 0 0,
      row ''ble'' rv_codec_sb rv_fmt_rs2_rs1_offset None 0 0 0 0,
      row ''bleu'' rv_codec_sb rv_fmt_rs2_rs1_offset None 0 0 0 0,
      row ''bgt'' rv_codec_sb rv_fmt_rs2_rs1_offset None 0 0 0 0,
      row ''bgtu'' rv_codec_sb rv_fmt_rs2_rs1_offset None 0 0 0 0,
      row ''j'' rv_codec_uj rv_fmt_offset None 0 0 0 0,
      row ''ret'' rv_codec_i rv_fmt_none None 0 0 0 0,
      row ''jr'' rv_codec_i rv_fmt_rs1 None 0 0 0 0,
      row ''rdcycle'' rv_codec_i_csr rv_fmt_rd None 0 0 0 0,
      row ''rdtime'' rv_codec_i_csr rv_fmt_rd None 0 0 0 0,
      row ''rdinstret'' rv_codec_i_csr rv_fmt_rd None 0 0 0 0,
      row ''rdcycleh'' rv_codec_i_csr rv_fmt_rd None 0 0 0 0,
      row ''rdtimeh'' rv_codec_i_csr rv_fmt_rd None 0 0 0 0,
      row ''rdinstreth'' rv_codec_i_csr rv_fmt_rd None 0 0 0 0,
      row ''frcsr'' rv_codec_i_csr rv_fmt_rd None 0 0 0 0,
      row ''frrm'' rv_codec_i_csr rv_fmt_rd None 0 0 0 0,
      row ''frflags'' rv_codec_i_csr rv_fmt_rd None 0 0 0 0,
      row ''fscsr'' rv_codec_i_csr rv_fmt_rd_rs1 None 0 0 0 0,
      row ''fsrm'' rv_codec_i_csr rv_fmt_rd_rs1 None 0 0 0 0,
      row ''fsflags'' rv_codec_i_csr rv_fmt_rd_rs1 None 0 0 0 0,
      row ''fsrmi'' rv_codec_i_csr rv_fmt_rd_zimm None 0 0 0 0,
      row ''fsflagsi'' rv_codec_i_csr rv_fmt_rd_zimm None 0 0 0 0]"

definition opcode_data :: "rv_opcode_data list" where
  "opcode_data = opcodes_0 @ opcodes_64 @ opcodes_128 @ opcodes_192 @ opcodes_256"

lemmas opcodes_defs = opcodes_0_def opcodes_64_def opcodes_128_def opcodes_192_def opcodes_256_def

subsection \<open>CSR names\<close>

definition csr_names_0 :: "(i32 \<times> string) list" where
  "csr_names_0 =
     [(0x0, ''ustatus''), (0x1, ''fflags''), (0x2, ''frm''), (0x3, ''fcsr''),
      (0x4, ''uie''), (0x5, ''utvec''), (0x7, ''utvt''), (0x8, ''vstart''),
      (0x9, ''vxsat''), (0xa, ''vxrm''), (0xf, ''vcsr''), (0x40, ''uscratch''),
      (0x41, ''uepc''), (0x42, ''ucause''), (0x43, ''utval''), (0x44, ''uip''),
      (0x45, ''unxti''), (0x46, ''uintstatus''), (0x48, ''uscratchcsw''),
      (0x49, ''uscratchcswl''), (0x100, ''sstatus''), (0x102, ''sedeleg''),
      (0x103, ''sideleg''), (0x104, ''sie''), (0x105, ''stvec''), (0x106, ''scounteren''),
      (0x107, ''stvt''), (0x140, ''sscratch''), (0x141, ''sepc''), (0x142, ''scause''),
      (0x143, ''stval''), (0x144, ''sip''), (0x145, ''snxti''), (0x146, ''sintstatus''),
      (0x148, ''sscratchcsw''), (0x149, ''sscratchcswl''), (0x180, ''satp''),
      (0x200, ''vsstatus''), (0x204, ''vsie''), (0x205, ''vstvec''),
      (0x240, ''vsscratch''), (0x241, ''vsepc''), (0x242, ''vscause''),
      (0x243, ''vstval''), (0x244, ''vsip''), (0x280, ''vsatp''), (0x300, ''mstatus''),
      (0x301, ''misa''), (0x302, ''medeleg''), (0x303, ''mideleg''), (0x304, ''mie''),
      (0x305, ''mtvec''), (0x306, ''mcounteren''), (0x307, ''mtvt''),
      (0x310, ''mstatush''), (0x320, ''mcountinhibit''), (0x323, ''mhpmevent3''),
      (0x324, ''mhpmevent4''), (0x325, ''mhpmevent5''), (0x326, ''mhpmevent6''),
      (0x327, ''mhpmevent7''), (0x328, ''mhpmevent8''), (0x329, ''mhpmevent9''),
      (0x32a, ''mhpmevent10''), (0x32b, ''mhpmevent11''), (0x32c, ''mhpmevent12''),
      (0x32d, ''mhpmevent13''), (0x32e, ''mhpmevent14''), (0x32f, ''mhpmevent15''),
      (0x330, ''mhpmevent16''), (0x331, ''mhpmevent17''), (0x332, ''mhpmevent18''),
      (0x333, ''mhpmevent19''), (0x334, ''mhpmevent20''), (0x335, ''mhpmevent21''),
      (0x336, ''mhpmevent22''), (0x337, ''mhpmevent23''), (0x338, ''mhpmevent24''),
      (0x339, ''mhpmevent25''), (0x33a, ''mhpmevent26''), (0x33b, ''mhpmevent27''),
      (0x33c, ''mhpmevent28''), (0x33d, ''mhpmevent29''), (0x33e, ''mhpmevent30''),
      (0x33f, ''mhpmevent31''), (0x340, ''mscratch''), (0x341, ''mepc''),
      (0x342, ''mcause''), (0x343, ''mtval''), (0x344, ''mip''), (0x345, ''mnxti''),
      (0x346, ''mintstatus''), (0x348, ''mscratchcsw''), (0x349, ''mscratchcswl''),
      (0x34a, ''mtinst''), (0x34b, ''mtval2''), (0x3a0, ''pmpcfg0''), (0x3a1, ''pmpcfg1''),
      (0x3a2, ''pmpcfg2''), (0x3a3, ''pmpcfg3'')]"

definition csr_names_100 :: "(i32 \<times> string) list" where
  "csr_names_100 =
     [(0x3b0, ''pmpaddr0''), (0x3b1, ''pmpaddr1''), (0x3b2, ''pmpaddr2''),
      (0x3b3, ''pmpaddr3''), (0x3b4, ''pmpaddr4''), (0x3b5, ''pmpaddr5''),
      (0x3b6, ''pmpaddr6''), (0x3b7, ''pmpaddr7''), (0x3b8, ''pmpaddr8''),
      (0x3b9, ''pmpaddr9''), (0x3ba, ''pmpaddr10''), (0x3bb, ''pmpaddr11''),
      (0x3bc, ''pmpaddr12''), (0x3bd, ''pmpaddr13''), (0x3be, ''pmpaddr14''),
      (0x3bf, ''pmpaddr15''), (0x600, ''hstatus''), (0x602, ''hedeleg''),
      (0x603, ''hideleg''), (0x604, ''hie''), (0x605, ''htimedelta''),
      (0x606, ''hcounteren''), (0x607, ''hgeie''), (0x615, ''htimedeltah''),
      (0x643, ''htval''), (0x644, ''hip''), (0x645, ''hvip''), (0x64a, ''htinst''),
      (0x680, ''hgatp''), (0x7a0, ''tselect''), (0x7a1, ''tdata1''), (0x7a2, ''tdata2''),
      (0x7a3, ''tdata3''), (0x7a4, ''tinfo''), (0x7a5, ''tcontrol''),
      (0x7a8, ''mcontext''), (0x7a9, ''mnoise''), (0x7aa, ''scontext''), (0x7b0, ''dcsr''),
      (0x7b1, ''dpc''), (0x7b2, ''dscratch0''), (0x7b3, ''dscratch1''),
      (0xb00, ''mcycle''), (0xb02, ''minstret''), (0xb03, ''mhpmcounter3''),
      (0xb04, ''mhpmcounter4''), (0xb05, ''mhpmcounter5''), (0xb06, ''mhpmcounter6''),
      (0xb07, ''mhpmcounter7''), (0xb08, ''mhpmcounter8''), (0xb09, ''mhpmcounter9''),
      (0xb0a, ''mhpmcounter10''), (0xb0b, ''mhpmcounter11''), (0xb0c, ''mhpmcounter12''),
      (0xb0d, ''mhpmcounter13''), (0xb0e, ''mhpmcounter14''), (0xb0f, ''mhpmcounter15''),
      (0xb10, ''mhpmcounter16''), (0xb11, ''mhpmcounter17''), (0xb12, ''mhpmcounter18''),
      (0xb13, ''mhpmcounter19''), (0xb14, ''mhpmcounter20''), (0xb15, ''mhpmcounter21''),
      (0xb16, ''mhpmcounter22''), (0xb17, ''mhpmcounter23''), (0xb18, ''mhpmcounter24''),
      (0xb19, ''mhpmcounter25''), (0xb1a, ''mhpmcounter26''), (0xb1b, ''mhpmcounter27''),
      (0xb1c, ''mhpmcounter28''), (0xb1d, ''mhpmcounter29''), (0xb1e, ''mhpmcounter30''),
      (0xb1f, ''mhpmcounter31''), (0xb80, ''mcycleh''), (0xb82, ''minstreth''),
      (0xb83, ''mhpmcounter3h''), (0xb84, ''mhpmcounter4h''), (0xb85, ''mhpmcounter5h''),
      (0xb86, ''mhpmcounter6h''), (0xb87, ''mhpmcounter7h''), (0xb88, ''mhpmcounter8h''),
      (0xb89, ''mhpmcounter9h''), (0xb8a, ''mhpmcounter10h''), (0xb8b, ''mhpmcounter11h''),
      (0xb8c, ''mhpmcounter12h''), (0xb8d, ''mhpmcounter13h''),
      (0xb8e, ''mhpmcounter14h''), (0xb8f, ''mhpmcounter15h''),
      (0xb90, ''mhpmcounter16h''), (0xb91, ''mhpmcounter17h''),
      (0xb92, ''mhpmcounter18h''), (0xb93, ''mhpmcounter19h''),
      (0xb94, ''mhpmcounter20h''), (0xb95, ''mhpmcounter21h''),
      (0xb96, ''mhpmcounter22h''), (0xb97, ''mhpmcounter23h''),
      (0xb98, ''mhpmcounter24h''), (0xb99, ''mhpmcounter25h''),
      (0xb9a, ''mhpmcounter26h''), (0xb9b, ''mhpmcounter27h'')]"

definition csr_names_200 :: "(i32 \<times> string) list" where
  "csr_names_200 =
     [(0xb9c, ''mhpmcounter28h''), (0xb9d, ''mhpmcounter29h''),
      (0xb9e, ''mhpmcounter30h''), (0xb9f, ''mhpmcounter31h''), (0xc00, ''cycle''),
      (0xc01, ''time''), (0xc02, ''instret''), (0xc03, ''hpmcounter3''),
      (0xc04, ''hpmcounter4''), (0xc05, ''hpmcounter5''), (0xc06, ''hpmcounter6''),
      (0xc07, ''hpmcounter7''), (0xc08, ''hpmcounter8''), (0xc09, ''hpmcounter9''),
      (0xc0a, ''hpmcounter10''), (0xc0b, ''hpmcounter11''), (0xc0c, ''hpmcounter12''),
      (0xc0d, ''hpmcounter13''), (0xc0e, ''hpmcounter14''), (0xc0f, ''hpmcounter15''),
      (0xc10, ''hpmcounter16''), (0xc11, ''hpmcounter17''), (0xc12, ''hpmcounter18''),
      (0xc13, ''hpmcounter19''), (0xc14, ''hpmcounter20''), (0xc15, ''hpmcounter21''),
      (0xc16, ''hpmcounter22''), (0xc17, ''hpmcounter23''), (0xc18, ''hpmcounter24''),
      (0xc19, ''hpmcounter25''), (0xc1a, ''hpmcounter26''), (0xc1b, ''hpmcounter27''),
      (0xc1c, ''hpmcounter28''), (0xc1d, ''hpmcounter29''), (0xc1e, ''hpmcounter30''),
      (0xc1f, ''hpmcounter31''), (0xc20, ''vl''), (0xc21, ''vtype''), (0xc22, ''vlenb''),
      (0xc80, ''cycleh''), (0xc81, ''timeh''), (0xc82, ''instreth''),
      (0xc83, ''hpmcounter3h''), (0xc84, ''hpmcounter4h''), (0xc85, ''hpmcounter5h''),
      (0xc86, ''hpmcounter6h''), (0xc87, ''hpmcounter7h''), (0xc88, ''hpmcounter8h''),
      (0xc89, ''hpmcounter9h''), (0xc8a, ''hpmcounter10h''), (0xc8b, ''hpmcounter11h''),
      (0xc8c, ''hpmcounter12h''), (0xc8d, ''hpmcounter13h''), (0xc8e, ''hpmcounter14h''),
      (0xc8f, ''hpmcounter15h''), (0xc90, ''hpmcounter16h''), (0xc91, ''hpmcounter17h''),
      (0xc92, ''hpmcounter18h''), (0xc93, ''hpmcounter19h''), (0xc94, ''hpmcounter20h''),
      (0xc95, ''hpmcounter21h''), (0xc96, ''hpmcounter22h''), (0xc97, ''hpmcounter23h''),
      (0xc98, ''hpmcounter24h''), (0xc99, ''hpmcounter25h''), (0xc9a, ''hpmcounter26h''),
      (0xc9b, ''hpmcounter27h''), (0xc9c, ''hpmcounter28h''), (0xc9d, ''hpmcounter29h''),
      (0xc9e, ''hpmcounter30h''), (0xc9f, ''hpmcounter31h''), (0xe12, ''hgeip''),
      (0xf11, ''mvendorid''), (0xf12, ''marchid''), (0xf13, ''mimpid''),
      (0xf14, ''mhartid''), (0xf15, ''mentropy'')]"

definition csr_name :: "i32 \<Rightarrow> string option" where
  "csr_name csrno = map_of (csr_names_0 @ csr_names_100 @ csr_names_200) csrno"


end
