(* ===== verification/Disas.thy ===== *)
theory Disas
  imports Disops
begin

text \<open>
  The decoder of the disassembler, \<open>tools/riscv-disas.c\<close>: which operation an instruction
  word is, its operands, the operation a compressed one stands for, and the
  pseudo-instruction it is printed as. \<open>rv_inst\<close> has 64 bits. A \<open>switch\<close> is a list of cases
  and the value of its default; one that leaves \<open>op\<close> alone has the default
  \<open>rv_op_illegal\<close>, which \<open>op\<close> is initialised with.
\<close>

fun switch :: "'k \<Rightarrow> ('k \<times> 'a) list \<Rightarrow> 'a \<Rightarrow> 'a" where
  "switch k [] d = d"
| "switch k ((j, a) # cs) d = (if k = j then a else switch k cs d)"

text \<open>\<open>struct rv_decode\<close>.\<close>

record rv_decode =
  dec_pc :: i64
  dec_inst :: i64
  dec_imm :: i32
  dec_op :: nat
  dec_codec :: rv_codec
  dec_rd :: u8
  dec_rs1 :: u8
  dec_rs2 :: u8
  dec_rs3 :: u8
  dec_rm :: u8
  dec_pred :: u8
  dec_succ :: u8
  dec_aq :: u8
  dec_rl :: u8

subsection \<open>Operations\<close>

definition dis_load :: "i64 \<Rightarrow> nat" where
  "dis_load inst =
     switch (drop_bit 12 inst AND 0x7)
       [(0, rv_op_lb), (1, rv_op_lh), (2, rv_op_lw), (3, rv_op_ld), (4, rv_op_lbu),
        (5, rv_op_lhu), (6, rv_op_lwu), (7, rv_op_ldu)] rv_op_illegal"

definition dis_fload :: "i64 \<Rightarrow> nat" where
  "dis_fload inst =
     switch (drop_bit 12 inst AND 0x7)
       [(2, rv_op_flw), (3, rv_op_fld), (4, rv_op_flq)] rv_op_illegal"

definition dis_misc_mem :: "i64 \<Rightarrow> nat" where
  "dis_misc_mem inst =
     switch (drop_bit 12 inst AND 0x7)
       [(0, rv_op_fence), (1, rv_op_fence_i), (2, rv_op_lq)] rv_op_illegal"

definition dis_imm :: "i64 \<Rightarrow> nat" where
  "dis_imm inst =
     switch (drop_bit 12 inst AND 0x7)
       [(0, rv_op_addi),
        (1, switch (drop_bit 27 inst AND 0x1f)
            [(0, rv_op_slli)] rv_op_illegal),
        (2, rv_op_slti), (3, rv_op_sltiu), (4, rv_op_xori),
        (5, switch (drop_bit 27 inst AND 0x1f)
            [(0, rv_op_srli), (8, rv_op_srai)] rv_op_illegal),
        (6, rv_op_ori), (7, rv_op_andi)] rv_op_illegal"

definition dis_imm32 :: "i64 \<Rightarrow> nat" where
  "dis_imm32 inst =
     switch (drop_bit 12 inst AND 0x7)
       [(0, rv_op_addiw),
        (1, switch (drop_bit 25 inst AND 0x7f)
            [(0, rv_op_slliw)] rv_op_illegal),
        (5, switch (drop_bit 25 inst AND 0x7f)
            [(0, rv_op_srliw), (32, rv_op_sraiw)] rv_op_illegal)] rv_op_illegal"

definition dis_store :: "i64 \<Rightarrow> nat" where
  "dis_store inst =
     switch (drop_bit 12 inst AND 0x7)
       [(0, rv_op_sb), (1, rv_op_sh), (2, rv_op_sw), (3, rv_op_sd), (4, rv_op_sq)] rv_op_illegal"

definition dis_fstore :: "i64 \<Rightarrow> nat" where
  "dis_fstore inst =
     switch (drop_bit 12 inst AND 0x7)
       [(2, rv_op_fsw), (3, rv_op_fsd), (4, rv_op_fsq)] rv_op_illegal"

definition dis_amo :: "i64 \<Rightarrow> nat" where
  "dis_amo inst =
     switch ((drop_bit 24 inst AND 0xf8) OR (drop_bit 12 inst AND 0x7))
       [(2, rv_op_amoadd_w), (3, rv_op_amoadd_d), (4, rv_op_amoadd_q), (10, rv_op_amoswap_w),
        (11, rv_op_amoswap_d), (12, rv_op_amoswap_q),
        (18, switch (drop_bit 20 inst AND 0x1f)
            [(0, rv_op_lr_w)] rv_op_illegal),
        (19, switch (drop_bit 20 inst AND 0x1f)
            [(0, rv_op_lr_d)] rv_op_illegal),
        (20, switch (drop_bit 20 inst AND 0x1f)
            [(0, rv_op_lr_q)] rv_op_illegal),
        (26, rv_op_sc_w), (27, rv_op_sc_d), (28, rv_op_sc_q), (34, rv_op_amoxor_w),
        (35, rv_op_amoxor_d), (36, rv_op_amoxor_q), (66, rv_op_amoor_w), (67, rv_op_amoor_d),
        (68, rv_op_amoor_q), (98, rv_op_amoand_w), (99, rv_op_amoand_d),
        (100, rv_op_amoand_q), (130, rv_op_amomin_w), (131, rv_op_amomin_d),
        (132, rv_op_amomin_q), (162, rv_op_amomax_w), (163, rv_op_amomax_d),
        (164, rv_op_amomax_q), (194, rv_op_amominu_w), (195, rv_op_amominu_d),
        (196, rv_op_amominu_q), (226, rv_op_amomaxu_w), (227, rv_op_amomaxu_d),
        (228, rv_op_amomaxu_q)] rv_op_illegal"

definition dis_reg :: "i64 \<Rightarrow> nat" where
  "dis_reg inst =
     switch ((drop_bit 22 inst AND 0x3f8) OR (drop_bit 12 inst AND 0x7))
       [(0, rv_op_add), (1, rv_op_sll), (2, rv_op_slt), (3, rv_op_sltu), (4, rv_op_xor),
        (5, rv_op_srl), (6, rv_op_or), (7, rv_op_and), (8, rv_op_mul), (9, rv_op_mulh),
        (10, rv_op_mulhsu), (11, rv_op_mulhu), (12, rv_op_div), (13, rv_op_divu),
        (14, rv_op_rem), (15, rv_op_remu), (256, rv_op_sub), (261, rv_op_sra)] rv_op_illegal"

definition dis_reg32 :: "i64 \<Rightarrow> nat" where
  "dis_reg32 inst =
     switch ((drop_bit 22 inst AND 0x3f8) OR (drop_bit 12 inst AND 0x7))
       [(0, rv_op_addw), (1, rv_op_sllw), (5, rv_op_srlw), (8, rv_op_mulw), (12, rv_op_divw),
        (13, rv_op_divuw), (14, rv_op_remw), (15, rv_op_remuw), (256, rv_op_subw),
        (261, rv_op_sraw)] rv_op_illegal"

definition dis_fmadd :: "i64 \<Rightarrow> nat" where
  "dis_fmadd inst =
     switch (drop_bit 25 inst AND 0x3)
       [(0, rv_op_fmadd_s), (1, rv_op_fmadd_d), (3, rv_op_fmadd_q)] rv_op_illegal"

definition dis_fmsub :: "i64 \<Rightarrow> nat" where
  "dis_fmsub inst =
     switch (drop_bit 25 inst AND 0x3)
       [(0, rv_op_fmsub_s), (1, rv_op_fmsub_d), (3, rv_op_fmsub_q)] rv_op_illegal"

definition dis_fnmsub :: "i64 \<Rightarrow> nat" where
  "dis_fnmsub inst =
     switch (drop_bit 25 inst AND 0x3)
       [(0, rv_op_fnmsub_s), (1, rv_op_fnmsub_d), (3, rv_op_fnmsub_q)] rv_op_illegal"

definition dis_fnmadd :: "i64 \<Rightarrow> nat" where
  "dis_fnmadd inst =
     switch (drop_bit 25 inst AND 0x3)
       [(0, rv_op_fnmadd_s), (1, rv_op_fnmadd_d), (3, rv_op_fnmadd_q)] rv_op_illegal"

definition dis_fp_arith :: "i64 \<Rightarrow> (i64 \<times> nat) list" where
  "dis_fp_arith inst =
     [(0, rv_op_fadd_s), (1, rv_op_fadd_d), (3, rv_op_fadd_q), (4, rv_op_fsub_s),
      (5, rv_op_fsub_d), (7, rv_op_fsub_q), (8, rv_op_fmul_s), (9, rv_op_fmul_d),
      (11, rv_op_fmul_q), (12, rv_op_fdiv_s), (13, rv_op_fdiv_d), (15, rv_op_fdiv_q),
      (16, switch (drop_bit 12 inst AND 0x7)
          [(0, rv_op_fsgnj_s), (1, rv_op_fsgnjn_s), (2, rv_op_fsgnjx_s)] rv_op_illegal),
      (17, switch (drop_bit 12 inst AND 0x7)
          [(0, rv_op_fsgnj_d), (1, rv_op_fsgnjn_d), (2, rv_op_fsgnjx_d)] rv_op_illegal),
      (19, switch (drop_bit 12 inst AND 0x7)
          [(0, rv_op_fsgnj_q), (1, rv_op_fsgnjn_q), (2, rv_op_fsgnjx_q)] rv_op_illegal),
      (20, switch (drop_bit 12 inst AND 0x7)
          [(0, rv_op_fmin_s), (1, rv_op_fmax_s)] rv_op_illegal),
      (21, switch (drop_bit 12 inst AND 0x7)
          [(0, rv_op_fmin_d), (1, rv_op_fmax_d)] rv_op_illegal),
      (23, switch (drop_bit 12 inst AND 0x7)
          [(0, rv_op_fmin_q), (1, rv_op_fmax_q)] rv_op_illegal)]"

definition dis_fp_conv :: "i64 \<Rightarrow> (i64 \<times> nat) list" where
  "dis_fp_conv inst =
     [(32, switch (drop_bit 20 inst AND 0x1f)
          [(1, rv_op_fcvt_s_d), (3, rv_op_fcvt_s_q)] rv_op_illegal),
      (33, switch (drop_bit 20 inst AND 0x1f)
          [(0, rv_op_fcvt_d_s), (3, rv_op_fcvt_d_q)] rv_op_illegal),
      (35, switch (drop_bit 20 inst AND 0x1f)
          [(0, rv_op_fcvt_q_s), (1, rv_op_fcvt_q_d)] rv_op_illegal),
      (44, switch (drop_bit 20 inst AND 0x1f)
          [(0, rv_op_fsqrt_s)] rv_op_illegal),
      (45, switch (drop_bit 20 inst AND 0x1f)
          [(0, rv_op_fsqrt_d)] rv_op_illegal),
      (47, switch (drop_bit 20 inst AND 0x1f)
          [(0, rv_op_fsqrt_q)] rv_op_illegal),
      (80, switch (drop_bit 12 inst AND 0x7)
          [(0, rv_op_fle_s), (1, rv_op_flt_s), (2, rv_op_feq_s)] rv_op_illegal),
      (81, switch (drop_bit 12 inst AND 0x7)
          [(0, rv_op_fle_d), (1, rv_op_flt_d), (2, rv_op_feq_d)] rv_op_illegal),
      (83, switch (drop_bit 12 inst AND 0x7)
          [(0, rv_op_fle_q), (1, rv_op_flt_q), (2, rv_op_feq_q)] rv_op_illegal),
      (96, switch (drop_bit 20 inst AND 0x1f)
          [(0, rv_op_fcvt_w_s), (1, rv_op_fcvt_wu_s), (2, rv_op_fcvt_l_s),
           (3, rv_op_fcvt_lu_s)] rv_op_illegal),
      (97, switch (drop_bit 20 inst AND 0x1f)
          [(0, rv_op_fcvt_w_d), (1, rv_op_fcvt_wu_d), (2, rv_op_fcvt_l_d),
           (3, rv_op_fcvt_lu_d)] rv_op_illegal),
      (99, switch (drop_bit 20 inst AND 0x1f)
          [(0, rv_op_fcvt_w_q), (1, rv_op_fcvt_wu_q), (2, rv_op_fcvt_l_q),
           (3, rv_op_fcvt_lu_q)] rv_op_illegal),
      (104, switch (drop_bit 20 inst AND 0x1f)
          [(0, rv_op_fcvt_s_w), (1, rv_op_fcvt_s_wu), (2, rv_op_fcvt_s_l),
           (3, rv_op_fcvt_s_lu)] rv_op_illegal),
      (105, switch (drop_bit 20 inst AND 0x1f)
          [(0, rv_op_fcvt_d_w), (1, rv_op_fcvt_d_wu), (2, rv_op_fcvt_d_l),
           (3, rv_op_fcvt_d_lu)] rv_op_illegal),
      (107, switch (drop_bit 20 inst AND 0x1f)
          [(0, rv_op_fcvt_q_w), (1, rv_op_fcvt_q_wu), (2, rv_op_fcvt_q_l),
           (3, rv_op_fcvt_q_lu)] rv_op_illegal),
      (112, switch ((drop_bit 17 inst AND 0xf8) OR (drop_bit 12 inst AND 0x7))
          [(0, rv_op_fmv_x_s), (1, rv_op_fclass_s)] rv_op_illegal),
      (113, switch ((drop_bit 17 inst AND 0xf8) OR (drop_bit 12 inst AND 0x7))
          [(0, rv_op_fmv_x_d), (1, rv_op_fclass_d)] rv_op_illegal),
      (115, switch ((drop_bit 17 inst AND 0xf8) OR (drop_bit 12 inst AND 0x7))
          [(0, rv_op_fmv_x_q), (1, rv_op_fclass_q)] rv_op_illegal),
      (120, switch ((drop_bit 17 inst AND 0xf8) OR (drop_bit 12 inst AND 0x7))
          [(0, rv_op_fmv_s_x)] rv_op_illegal),
      (121, switch ((drop_bit 17 inst AND 0xf8) OR (drop_bit 12 inst AND 0x7))
          [(0, rv_op_fmv_d_x)] rv_op_illegal),
      (123, switch ((drop_bit 17 inst AND 0xf8) OR (drop_bit 12 inst AND 0x7))
          [(0, rv_op_fmv_q_x)] rv_op_illegal)]"

definition dis_fp :: "i64 \<Rightarrow> nat" where
  "dis_fp inst =
     switch (drop_bit 25 inst AND 0x7f) (dis_fp_arith inst @ dis_fp_conv inst) rv_op_illegal"

definition dis_imm64 :: "i64 \<Rightarrow> nat" where
  "dis_imm64 inst =
     switch (drop_bit 12 inst AND 0x7)
       [(0, rv_op_addid),
        (1, switch (drop_bit 26 inst AND 0x3f)
            [(0, rv_op_sllid)] rv_op_illegal),
        (5, switch (drop_bit 26 inst AND 0x3f)
            [(0, rv_op_srlid), (16, rv_op_sraid)] rv_op_illegal)] rv_op_illegal"

definition dis_branch :: "i64 \<Rightarrow> nat" where
  "dis_branch inst =
     switch (drop_bit 12 inst AND 0x7)
       [(0, rv_op_beq), (1, rv_op_bne), (4, rv_op_blt), (5, rv_op_bge), (6, rv_op_bltu),
        (7, rv_op_bgeu)] rv_op_illegal"

definition dis_jalr :: "i64 \<Rightarrow> nat" where
  "dis_jalr inst =
     switch (drop_bit 12 inst AND 0x7)
       [(0, rv_op_jalr)] rv_op_illegal"

definition dis_system :: "i64 \<Rightarrow> nat" where
  "dis_system inst =
     switch (drop_bit 12 inst AND 0x7)
       [(0, switch ((drop_bit 20 inst AND 0xfe0) OR (drop_bit 7 inst AND 0x1f))
            [(0, switch (drop_bit 15 inst AND 0x3ff)
                 [(0, rv_op_ecall), (32, rv_op_ebreak), (64, rv_op_uret)] rv_op_illegal),
             (256, switch (drop_bit 20 inst AND 0x1f)
                 [(2, switch (drop_bit 15 inst AND 0x1f)
                      [(0, rv_op_sret)] rv_op_illegal),
                  (4, rv_op_sfence_vm),
                  (5, switch (drop_bit 15 inst AND 0x1f)
                      [(0, rv_op_wfi)] rv_op_illegal)] rv_op_illegal),
             (288, rv_op_sfence_vma),
             (512, switch (drop_bit 15 inst AND 0x3ff)
                 [(64, rv_op_hret)] rv_op_illegal),
             (768, switch (drop_bit 15 inst AND 0x3ff)
                 [(64, rv_op_mret)] rv_op_illegal),
             (1952, switch (drop_bit 15 inst AND 0x3ff)
                 [(576, rv_op_dret)] rv_op_illegal)] rv_op_illegal),
        (1, rv_op_csrrw), (2, rv_op_csrrs), (3, rv_op_csrrc), (5, rv_op_csrrwi),
        (6, rv_op_csrrsi), (7, rv_op_csrrci)] rv_op_illegal"

definition dis_reg64 :: "i64 \<Rightarrow> nat" where
  "dis_reg64 inst =
     switch ((drop_bit 22 inst AND 0x3f8) OR (drop_bit 12 inst AND 0x7))
       [(0, rv_op_addd), (1, rv_op_slld), (5, rv_op_srld), (8, rv_op_muld), (12, rv_op_divd),
        (13, rv_op_divud), (14, rv_op_remd), (15, rv_op_remud), (256, rv_op_subd),
        (261, rv_op_srad)] rv_op_illegal"

definition dis_quadrant0 :: "rv_isa \<Rightarrow> i64 \<Rightarrow> nat" where
  "dis_quadrant0 isa inst =
     switch (drop_bit 13 inst AND 0x7)
       [(0, rv_op_c_addi4spn), (1, if isa = rv128 then rv_op_c_lq else rv_op_c_fld),
        (2, rv_op_c_lw), (3, if isa = rv32 then rv_op_c_flw else rv_op_c_ld),
        (5, if isa = rv128 then rv_op_c_sq else rv_op_c_fsd), (6, rv_op_c_sw),
        (7, if isa = rv32 then rv_op_c_fsw else rv_op_c_sd)] rv_op_illegal"

definition dis_quadrant1 :: "rv_isa \<Rightarrow> i64 \<Rightarrow> nat" where
  "dis_quadrant1 isa inst =
     switch (drop_bit 13 inst AND 0x7)
       [(0, switch (drop_bit 2 inst AND 0x7ff)
            [(0, rv_op_c_nop)] rv_op_c_addi),
        (1, if isa = rv32 then rv_op_c_jal else rv_op_c_addiw), (2, rv_op_c_li),
        (3, switch (drop_bit 7 inst AND 0x1f)
            [(2, rv_op_c_addi16sp)] rv_op_c_lui),
        (4, switch (drop_bit 10 inst AND 0x3)
            [(0, rv_op_c_srli), (1, rv_op_c_srai), (2, rv_op_c_andi),
             (3, switch ((drop_bit 10 inst AND 0x4) OR (drop_bit 5 inst AND 0x3))
                 [(0, rv_op_c_sub), (1, rv_op_c_xor), (2, rv_op_c_or), (3, rv_op_c_and),
                  (4, rv_op_c_subw), (5, rv_op_c_addw)] rv_op_illegal)] rv_op_illegal),
        (5, rv_op_c_j), (6, rv_op_c_beqz), (7, rv_op_c_bnez)] rv_op_illegal"

definition dis_quadrant2 :: "rv_isa \<Rightarrow> i64 \<Rightarrow> nat" where
  "dis_quadrant2 isa inst =
     switch (drop_bit 13 inst AND 0x7)
       [(0, rv_op_c_slli), (1, if isa = rv128 then rv_op_c_lqsp else rv_op_c_fldsp),
        (2, rv_op_c_lwsp), (3, if isa = rv32 then rv_op_c_flwsp else rv_op_c_ldsp),
        (4, switch (drop_bit 12 inst AND 0x1)
            [(0, switch (drop_bit 2 inst AND 0x1f)
                 [(0, rv_op_c_jr)] rv_op_c_mv),
             (1, switch (drop_bit 2 inst AND 0x1f)
                 [(0, switch (drop_bit 7 inst AND 0x1f)
                      [(0, rv_op_c_ebreak)] rv_op_c_jalr)] rv_op_c_add)] rv_op_illegal),
        (5, if isa = rv128 then rv_op_c_sqsp else rv_op_c_fsdsp), (6, rv_op_c_swsp),
        (7, if isa = rv32 then rv_op_c_fswsp else rv_op_c_sdsp)] rv_op_illegal"

definition dis_quadrant3 :: "i64 \<Rightarrow> nat" where
  "dis_quadrant3 inst =
     switch (drop_bit 2 inst AND 0x1f)
       [(0, dis_load inst), (1, dis_fload inst), (3, dis_misc_mem inst), (4, dis_imm inst),
        (5, rv_op_auipc), (6, dis_imm32 inst), (8, dis_store inst), (9, dis_fstore inst),
        (11, dis_amo inst), (12, dis_reg inst), (13, rv_op_lui), (14, dis_reg32 inst),
        (16, dis_fmadd inst), (17, dis_fmsub inst), (18, dis_fnmsub inst),
        (19, dis_fnmadd inst), (20, dis_fp inst), (22, dis_imm64 inst),
        (24, dis_branch inst), (25, dis_jalr inst), (27, rv_op_jal), (28, dis_system inst),
        (30, dis_reg64 inst)] rv_op_illegal"

definition opcode_of :: "rv_isa \<Rightarrow> i64 \<Rightarrow> nat" where
  "opcode_of isa inst =
     switch (drop_bit 0 inst AND 0x3)
       [(0, dis_quadrant0 isa inst), (1, dis_quadrant1 isa inst), (2, dis_quadrant2 isa inst),
        (3, dis_quadrant3 inst)] rv_op_illegal"

definition decode_inst_opcode :: "rv_decode \<Rightarrow> rv_isa \<Rightarrow> rv_decode" where
  "decode_inst_opcode dec isa = dec\<lparr>dec_op := opcode_of isa (dec_inst dec)\<rparr>"

subsection \<open>Operand extractors\<close>

definition operand_rd :: "i64 \<Rightarrow> i32" where
  "operand_rd inst = ucast (drop_bit 59 (push_bit 52 inst))"

definition operand_rs1 :: "i64 \<Rightarrow> i32" where
  "operand_rs1 inst = ucast (drop_bit 59 (push_bit 44 inst))"

definition operand_rs2 :: "i64 \<Rightarrow> i32" where
  "operand_rs2 inst = ucast (drop_bit 59 (push_bit 39 inst))"

definition operand_rs3 :: "i64 \<Rightarrow> i32" where
  "operand_rs3 inst = ucast (drop_bit 59 (push_bit 32 inst))"

definition operand_aq :: "i64 \<Rightarrow> i32" where
  "operand_aq inst = ucast (drop_bit 63 (push_bit 37 inst))"

definition operand_rl :: "i64 \<Rightarrow> i32" where
  "operand_rl inst = ucast (drop_bit 63 (push_bit 38 inst))"

definition operand_pred :: "i64 \<Rightarrow> i32" where
  "operand_pred inst = ucast (drop_bit 60 (push_bit 36 inst))"

definition operand_succ :: "i64 \<Rightarrow> i32" where
  "operand_succ inst = ucast (drop_bit 60 (push_bit 40 inst))"

definition operand_rm :: "i64 \<Rightarrow> i32" where
  "operand_rm inst = ucast (drop_bit 61 (push_bit 49 inst))"

definition operand_shamt5 :: "i64 \<Rightarrow> i32" where
  "operand_shamt5 inst = ucast (drop_bit 59 (push_bit 39 inst))"

definition operand_shamt6 :: "i64 \<Rightarrow> i32" where
  "operand_shamt6 inst = ucast (drop_bit 58 (push_bit 38 inst))"

definition operand_shamt7 :: "i64 \<Rightarrow> i32" where
  "operand_shamt7 inst = ucast (drop_bit 57 (push_bit 37 inst))"

definition operand_crdq :: "i64 \<Rightarrow> i32" where
  "operand_crdq inst = ucast (drop_bit 61 (push_bit 59 inst))"

definition operand_crs1q :: "i64 \<Rightarrow> i32" where
  "operand_crs1q inst = ucast (drop_bit 61 (push_bit 54 inst))"

definition operand_crs1rdq :: "i64 \<Rightarrow> i32" where
  "operand_crs1rdq inst = ucast (drop_bit 61 (push_bit 54 inst))"

definition operand_crs2q :: "i64 \<Rightarrow> i32" where
  "operand_crs2q inst = ucast (drop_bit 61 (push_bit 59 inst))"

definition operand_crd :: "i64 \<Rightarrow> i32" where
  "operand_crd inst = ucast (drop_bit 59 (push_bit 52 inst))"

definition operand_crs1 :: "i64 \<Rightarrow> i32" where
  "operand_crs1 inst = ucast (drop_bit 59 (push_bit 52 inst))"

definition operand_crs1rd :: "i64 \<Rightarrow> i32" where
  "operand_crs1rd inst = ucast (drop_bit 59 (push_bit 52 inst))"

definition operand_crs2 :: "i64 \<Rightarrow> i32" where
  "operand_crs2 inst = ucast (drop_bit 59 (push_bit 57 inst))"

definition operand_cimmsh5 :: "i64 \<Rightarrow> i32" where
  "operand_cimmsh5 inst = ucast (drop_bit 59 (push_bit 57 inst))"

definition operand_csr12 :: "i64 \<Rightarrow> i32" where
  "operand_csr12 inst = ucast (drop_bit 52 (push_bit 32 inst))"

definition operand_imm12 :: "i64 \<Rightarrow> i32" where
  "operand_imm12 inst = ucast (signed_drop_bit 52 (push_bit 32 inst))"

definition operand_imm20 :: "i64 \<Rightarrow> i32" where
  "operand_imm20 inst = ucast (push_bit 12 (signed_drop_bit 44 (push_bit 32 inst)))"

definition operand_jimm20 :: "i64 \<Rightarrow> i32" where
  "operand_jimm20 inst =
     ucast (push_bit 20 (signed_drop_bit 63 (push_bit 32 inst)) OR
       push_bit 1 (drop_bit 54 (push_bit 33 inst)) OR
       push_bit 11 (drop_bit 63 (push_bit 43 inst)) OR
       push_bit 12 (drop_bit 56 (push_bit 44 inst)))"

definition operand_simm12 :: "i64 \<Rightarrow> i32" where
  "operand_simm12 inst =
     ucast (push_bit 5 (signed_drop_bit 57 (push_bit 32 inst)) OR
       drop_bit 59 (push_bit 52 inst))"

definition operand_sbimm12 :: "i64 \<Rightarrow> i32" where
  "operand_sbimm12 inst =
     ucast (push_bit 12 (signed_drop_bit 63 (push_bit 32 inst)) OR
       push_bit 5 (drop_bit 58 (push_bit 33 inst)) OR
       push_bit 1 (drop_bit 60 (push_bit 52 inst)) OR
       push_bit 11 (drop_bit 63 (push_bit 56 inst)))"

definition operand_cimmsh6 :: "i64 \<Rightarrow> i32" where
  "operand_cimmsh6 inst =
     ucast (push_bit 5 (drop_bit 63 (push_bit 51 inst)) OR
       drop_bit 59 (push_bit 57 inst))"

definition operand_cimmi :: "i64 \<Rightarrow> i32" where
  "operand_cimmi inst =
     ucast (push_bit 5 (signed_drop_bit 63 (push_bit 51 inst)) OR
       drop_bit 59 (push_bit 57 inst))"

definition operand_cimmui :: "i64 \<Rightarrow> i32" where
  "operand_cimmui inst =
     ucast (push_bit 17 (signed_drop_bit 63 (push_bit 51 inst)) OR
       push_bit 12 (drop_bit 59 (push_bit 57 inst)))"

definition operand_cimmlwsp :: "i64 \<Rightarrow> i32" where
  "operand_cimmlwsp inst =
     ucast (push_bit 5 (drop_bit 63 (push_bit 51 inst)) OR
       push_bit 2 (drop_bit 61 (push_bit 57 inst)) OR
       push_bit 6 (drop_bit 62 (push_bit 60 inst)))"

definition operand_cimmldsp :: "i64 \<Rightarrow> i32" where
  "operand_cimmldsp inst =
     ucast (push_bit 5 (drop_bit 63 (push_bit 51 inst)) OR
       push_bit 3 (drop_bit 62 (push_bit 57 inst)) OR
       push_bit 6 (drop_bit 61 (push_bit 59 inst)))"

definition operand_cimmlqsp :: "i64 \<Rightarrow> i32" where
  "operand_cimmlqsp inst =
     ucast (push_bit 5 (drop_bit 63 (push_bit 51 inst)) OR
       push_bit 4 (drop_bit 63 (push_bit 57 inst)) OR
       push_bit 6 (drop_bit 60 (push_bit 58 inst)))"

definition operand_cimm16sp :: "i64 \<Rightarrow> i32" where
  "operand_cimm16sp inst =
     ucast (push_bit 9 (signed_drop_bit 63 (push_bit 51 inst)) OR
       push_bit 4 (drop_bit 63 (push_bit 57 inst)) OR
       push_bit 6 (drop_bit 63 (push_bit 58 inst)) OR
       push_bit 7 (drop_bit 62 (push_bit 59 inst)) OR
       push_bit 5 (drop_bit 63 (push_bit 61 inst)))"

definition operand_cimmj :: "i64 \<Rightarrow> i32" where
  "operand_cimmj inst =
     ucast (push_bit 11 (signed_drop_bit 63 (push_bit 51 inst)) OR
       push_bit 4 (drop_bit 63 (push_bit 52 inst)) OR
       push_bit 8 (drop_bit 62 (push_bit 53 inst)) OR
       push_bit 10 (drop_bit 63 (push_bit 55 inst)) OR
       push_bit 6 (drop_bit 63 (push_bit 56 inst)) OR
       push_bit 7 (drop_bit 63 (push_bit 57 inst)) OR
       push_bit 1 (drop_bit 61 (push_bit 58 inst)) OR
       push_bit 5 (drop_bit 63 (push_bit 61 inst)))"

definition operand_cimmb :: "i64 \<Rightarrow> i32" where
  "operand_cimmb inst =
     ucast (push_bit 8 (signed_drop_bit 63 (push_bit 51 inst)) OR
       push_bit 3 (drop_bit 62 (push_bit 52 inst)) OR
       push_bit 6 (drop_bit 62 (push_bit 57 inst)) OR
       push_bit 1 (drop_bit 62 (push_bit 59 inst)) OR
       push_bit 5 (drop_bit 63 (push_bit 61 inst)))"

definition operand_cimmswsp :: "i64 \<Rightarrow> i32" where
  "operand_cimmswsp inst =
     ucast (push_bit 2 (drop_bit 60 (push_bit 51 inst)) OR
       push_bit 6 (drop_bit 62 (push_bit 55 inst)))"

definition operand_cimmsdsp :: "i64 \<Rightarrow> i32" where
  "operand_cimmsdsp inst =
     ucast (push_bit 3 (drop_bit 61 (push_bit 51 inst)) OR
       push_bit 6 (drop_bit 61 (push_bit 54 inst)))"

definition operand_cimmsqsp :: "i64 \<Rightarrow> i32" where
  "operand_cimmsqsp inst =
     ucast (push_bit 4 (drop_bit 62 (push_bit 51 inst)) OR
       push_bit 6 (drop_bit 60 (push_bit 53 inst)))"

definition operand_cimm4spn :: "i64 \<Rightarrow> i32" where
  "operand_cimm4spn inst =
     ucast (push_bit 4 (drop_bit 62 (push_bit 51 inst)) OR
       push_bit 6 (drop_bit 60 (push_bit 53 inst)) OR
       push_bit 2 (drop_bit 63 (push_bit 57 inst)) OR
       push_bit 3 (drop_bit 63 (push_bit 58 inst)))"

definition operand_cimmw :: "i64 \<Rightarrow> i32" where
  "operand_cimmw inst =
     ucast (push_bit 3 (drop_bit 61 (push_bit 51 inst)) OR
       push_bit 2 (drop_bit 63 (push_bit 57 inst)) OR
       push_bit 6 (drop_bit 63 (push_bit 58 inst)))"

definition operand_cimmd :: "i64 \<Rightarrow> i32" where
  "operand_cimmd inst =
     ucast (push_bit 3 (drop_bit 61 (push_bit 51 inst)) OR
       push_bit 6 (drop_bit 62 (push_bit 57 inst)))"

definition operand_cimmq :: "i64 \<Rightarrow> i32" where
  "operand_cimmq inst =
     ucast (push_bit 4 (drop_bit 62 (push_bit 51 inst)) OR
       push_bit 8 (drop_bit 63 (push_bit 53 inst)) OR
       push_bit 6 (drop_bit 62 (push_bit 57 inst)))"

lemmas operand_defs =
  operand_rd_def operand_rs1_def operand_rs2_def operand_rs3_def
  operand_aq_def operand_rl_def operand_pred_def operand_succ_def
  operand_rm_def operand_shamt5_def operand_shamt6_def operand_shamt7_def
  operand_crdq_def operand_crs1q_def operand_crs1rdq_def operand_crs2q_def
  operand_crd_def operand_crs1_def operand_crs1rd_def operand_crs2_def
  operand_cimmsh5_def operand_csr12_def operand_imm12_def operand_imm20_def
  operand_jimm20_def operand_simm12_def operand_sbimm12_def operand_cimmsh6_def
  operand_cimmi_def operand_cimmui_def operand_cimmlwsp_def operand_cimmldsp_def
  operand_cimmlqsp_def operand_cimm16sp_def operand_cimmj_def operand_cimmb_def
  operand_cimmswsp_def operand_cimmsdsp_def operand_cimmsqsp_def operand_cimm4spn_def
  operand_cimmw_def operand_cimmd_def operand_cimmq_def

subsection \<open>Operands\<close>

definition operands_compressed :: "rv_codec \<Rightarrow> i64 \<Rightarrow> rv_decode \<Rightarrow> rv_decode" where
  "operands_compressed codec inst dec = (case codec of
     rv_codec_cb \<Rightarrow>
       dec\<lparr>dec_rd := rv_ireg_zero, dec_rs1 := ucast (operand_crs1q inst + 8),
         dec_rs2 := rv_ireg_zero, dec_imm := operand_cimmb inst\<rparr>
   | rv_codec_cb_imm \<Rightarrow>
       dec\<lparr>dec_rd := ucast (operand_crs1rdq inst + 8),
         dec_rs1 := ucast (operand_crs1rdq inst + 8), dec_rs2 := rv_ireg_zero,
         dec_imm := operand_cimmi inst\<rparr>
   | rv_codec_cb_sh5 \<Rightarrow>
       dec\<lparr>dec_rd := ucast (operand_crs1rdq inst + 8),
         dec_rs1 := ucast (operand_crs1rdq inst + 8), dec_rs2 := rv_ireg_zero,
         dec_imm := operand_cimmsh5 inst\<rparr>
   | rv_codec_cb_sh6 \<Rightarrow>
       dec\<lparr>dec_rd := ucast (operand_crs1rdq inst + 8),
         dec_rs1 := ucast (operand_crs1rdq inst + 8), dec_rs2 := rv_ireg_zero,
         dec_imm := operand_cimmsh6 inst\<rparr>
   | rv_codec_ci \<Rightarrow>
       dec\<lparr>dec_rd := ucast (operand_crs1rd inst),
         dec_rs1 := ucast (operand_crs1rd inst), dec_rs2 := rv_ireg_zero,
         dec_imm := operand_cimmi inst\<rparr>
   | rv_codec_ci_sh5 \<Rightarrow>
       dec\<lparr>dec_rd := ucast (operand_crs1rd inst),
         dec_rs1 := ucast (operand_crs1rd inst), dec_rs2 := rv_ireg_zero,
         dec_imm := operand_cimmsh5 inst\<rparr>
   | rv_codec_ci_sh6 \<Rightarrow>
       dec\<lparr>dec_rd := ucast (operand_crs1rd inst),
         dec_rs1 := ucast (operand_crs1rd inst), dec_rs2 := rv_ireg_zero,
         dec_imm := operand_cimmsh6 inst\<rparr>
   | rv_codec_ci_16sp \<Rightarrow>
       dec\<lparr>dec_rd := rv_ireg_sp, dec_rs1 := rv_ireg_sp, dec_rs2 := rv_ireg_zero,
         dec_imm := operand_cimm16sp inst\<rparr>
   | rv_codec_ci_lwsp \<Rightarrow>
       dec\<lparr>dec_rd := ucast (operand_crd inst), dec_rs1 := rv_ireg_sp,
         dec_rs2 := rv_ireg_zero, dec_imm := operand_cimmlwsp inst\<rparr>
   | rv_codec_ci_ldsp \<Rightarrow>
       dec\<lparr>dec_rd := ucast (operand_crd inst), dec_rs1 := rv_ireg_sp,
         dec_rs2 := rv_ireg_zero, dec_imm := operand_cimmldsp inst\<rparr>
   | rv_codec_ci_lqsp \<Rightarrow>
       dec\<lparr>dec_rd := ucast (operand_crd inst), dec_rs1 := rv_ireg_sp,
         dec_rs2 := rv_ireg_zero, dec_imm := operand_cimmlqsp inst\<rparr>
   | rv_codec_ci_li \<Rightarrow>
       dec\<lparr>dec_rd := ucast (operand_crd inst), dec_rs1 := rv_ireg_zero,
         dec_rs2 := rv_ireg_zero, dec_imm := operand_cimmi inst\<rparr>
   | rv_codec_ci_lui \<Rightarrow>
       dec\<lparr>dec_rd := ucast (operand_crd inst), dec_rs1 := rv_ireg_zero,
         dec_rs2 := rv_ireg_zero, dec_imm := operand_cimmui inst\<rparr>
   | rv_codec_ci_none \<Rightarrow>
       dec\<lparr>dec_rd := rv_ireg_zero, dec_rs1 := rv_ireg_zero, dec_rs2 := rv_ireg_zero,
         dec_imm := 0\<rparr>
   | rv_codec_ciw_4spn \<Rightarrow>
       dec\<lparr>dec_rd := ucast (operand_crdq inst + 8), dec_rs1 := rv_ireg_sp,
         dec_rs2 := rv_ireg_zero, dec_imm := operand_cimm4spn inst\<rparr>
   | rv_codec_cj \<Rightarrow>
       dec\<lparr>dec_rd := rv_ireg_zero, dec_rs1 := rv_ireg_zero, dec_rs2 := rv_ireg_zero,
         dec_imm := operand_cimmj inst\<rparr>
   | rv_codec_cj_jal \<Rightarrow>
       dec\<lparr>dec_rd := rv_ireg_ra, dec_rs1 := rv_ireg_zero, dec_rs2 := rv_ireg_zero,
         dec_imm := operand_cimmj inst\<rparr>
   | rv_codec_cl_lw \<Rightarrow>
       dec\<lparr>dec_rd := ucast (operand_crdq inst + 8),
         dec_rs1 := ucast (operand_crs1q inst + 8), dec_rs2 := rv_ireg_zero,
         dec_imm := operand_cimmw inst\<rparr>
   | rv_codec_cl_ld \<Rightarrow>
       dec\<lparr>dec_rd := ucast (operand_crdq inst + 8),
         dec_rs1 := ucast (operand_crs1q inst + 8), dec_rs2 := rv_ireg_zero,
         dec_imm := operand_cimmd inst\<rparr>
   | rv_codec_cl_lq \<Rightarrow>
       dec\<lparr>dec_rd := ucast (operand_crdq inst + 8),
         dec_rs1 := ucast (operand_crs1q inst + 8), dec_rs2 := rv_ireg_zero,
         dec_imm := operand_cimmq inst\<rparr>
   | rv_codec_cr \<Rightarrow>
       dec\<lparr>dec_rd := ucast (operand_crs1rd inst),
         dec_rs1 := ucast (operand_crs1rd inst),
         dec_rs2 := ucast (operand_crs2 inst), dec_imm := 0\<rparr>
   | rv_codec_cr_mv \<Rightarrow>
       dec\<lparr>dec_rd := ucast (operand_crd inst), dec_rs1 := ucast (operand_crs2 inst),
         dec_rs2 := rv_ireg_zero, dec_imm := 0\<rparr>
   | rv_codec_cr_jalr \<Rightarrow>
       dec\<lparr>dec_rd := rv_ireg_ra, dec_rs1 := ucast (operand_crs1 inst),
         dec_rs2 := rv_ireg_zero, dec_imm := 0\<rparr>
   | rv_codec_cr_jr \<Rightarrow>
       dec\<lparr>dec_rd := rv_ireg_zero, dec_rs1 := ucast (operand_crs1 inst),
         dec_rs2 := rv_ireg_zero, dec_imm := 0\<rparr>
   | rv_codec_cs \<Rightarrow>
       dec\<lparr>dec_rd := ucast (operand_crs1rdq inst + 8),
         dec_rs1 := ucast (operand_crs1rdq inst + 8),
         dec_rs2 := ucast (operand_crs2q inst + 8), dec_imm := 0\<rparr>
   | rv_codec_cs_sw \<Rightarrow>
       dec\<lparr>dec_rd := rv_ireg_zero, dec_rs1 := ucast (operand_crs1q inst + 8),
         dec_rs2 := ucast (operand_crs2q inst + 8), dec_imm := operand_cimmw inst\<rparr>
   | rv_codec_cs_sd \<Rightarrow>
       dec\<lparr>dec_rd := rv_ireg_zero, dec_rs1 := ucast (operand_crs1q inst + 8),
         dec_rs2 := ucast (operand_crs2q inst + 8), dec_imm := operand_cimmd inst\<rparr>
   | rv_codec_cs_sq \<Rightarrow>
       dec\<lparr>dec_rd := rv_ireg_zero, dec_rs1 := ucast (operand_crs1q inst + 8),
         dec_rs2 := ucast (operand_crs2q inst + 8), dec_imm := operand_cimmq inst\<rparr>
   | rv_codec_css_swsp \<Rightarrow>
       dec\<lparr>dec_rd := rv_ireg_zero, dec_rs1 := rv_ireg_sp,
         dec_rs2 := ucast (operand_crs2 inst), dec_imm := operand_cimmswsp inst\<rparr>
   | rv_codec_css_sdsp \<Rightarrow>
       dec\<lparr>dec_rd := rv_ireg_zero, dec_rs1 := rv_ireg_sp,
         dec_rs2 := ucast (operand_crs2 inst), dec_imm := operand_cimmsdsp inst\<rparr>
   | rv_codec_css_sqsp \<Rightarrow>
       dec\<lparr>dec_rd := rv_ireg_zero, dec_rs1 := rv_ireg_sp,
         dec_rs2 := ucast (operand_crs2 inst), dec_imm := operand_cimmsqsp inst\<rparr>
   | _ \<Rightarrow> dec)"

definition operands_base :: "rv_codec \<Rightarrow> i64 \<Rightarrow> rv_decode \<Rightarrow> rv_decode" where
  "operands_base codec inst dec = (case codec of
     rv_codec_none \<Rightarrow>
       dec\<lparr>dec_rd := rv_ireg_zero, dec_rs1 := rv_ireg_zero, dec_rs2 := rv_ireg_zero,
         dec_imm := 0\<rparr>
   | rv_codec_u \<Rightarrow>
       dec\<lparr>dec_rd := ucast (operand_rd inst), dec_rs1 := rv_ireg_zero,
         dec_rs2 := rv_ireg_zero, dec_imm := operand_imm20 inst\<rparr>
   | rv_codec_uj \<Rightarrow>
       dec\<lparr>dec_rd := ucast (operand_rd inst), dec_rs1 := rv_ireg_zero,
         dec_rs2 := rv_ireg_zero, dec_imm := operand_jimm20 inst\<rparr>
   | rv_codec_i \<Rightarrow>
       dec\<lparr>dec_rd := ucast (operand_rd inst), dec_rs1 := ucast (operand_rs1 inst),
         dec_rs2 := rv_ireg_zero, dec_imm := operand_imm12 inst\<rparr>
   | rv_codec_i_sh5 \<Rightarrow>
       dec\<lparr>dec_rd := ucast (operand_rd inst), dec_rs1 := ucast (operand_rs1 inst),
         dec_rs2 := rv_ireg_zero, dec_imm := operand_shamt5 inst\<rparr>
   | rv_codec_i_sh6 \<Rightarrow>
       dec\<lparr>dec_rd := ucast (operand_rd inst), dec_rs1 := ucast (operand_rs1 inst),
         dec_rs2 := rv_ireg_zero, dec_imm := operand_shamt6 inst\<rparr>
   | rv_codec_i_sh7 \<Rightarrow>
       dec\<lparr>dec_rd := ucast (operand_rd inst), dec_rs1 := ucast (operand_rs1 inst),
         dec_rs2 := rv_ireg_zero, dec_imm := operand_shamt7 inst\<rparr>
   | rv_codec_i_csr \<Rightarrow>
       dec\<lparr>dec_rd := ucast (operand_rd inst), dec_rs1 := ucast (operand_rs1 inst),
         dec_rs2 := rv_ireg_zero, dec_imm := operand_csr12 inst\<rparr>
   | rv_codec_s \<Rightarrow>
       dec\<lparr>dec_rd := rv_ireg_zero, dec_rs1 := ucast (operand_rs1 inst),
         dec_rs2 := ucast (operand_rs2 inst), dec_imm := operand_simm12 inst\<rparr>
   | rv_codec_sb \<Rightarrow>
       dec\<lparr>dec_rd := rv_ireg_zero, dec_rs1 := ucast (operand_rs1 inst),
         dec_rs2 := ucast (operand_rs2 inst), dec_imm := operand_sbimm12 inst\<rparr>
   | rv_codec_r \<Rightarrow>
       dec\<lparr>dec_rd := ucast (operand_rd inst), dec_rs1 := ucast (operand_rs1 inst),
         dec_rs2 := ucast (operand_rs2 inst), dec_imm := 0\<rparr>
   | rv_codec_r_m \<Rightarrow>
       dec\<lparr>dec_rd := ucast (operand_rd inst), dec_rs1 := ucast (operand_rs1 inst),
         dec_rs2 := ucast (operand_rs2 inst), dec_imm := 0,
         dec_rm := ucast (operand_rm inst)\<rparr>
   | rv_codec_r4_m \<Rightarrow>
       dec\<lparr>dec_rd := ucast (operand_rd inst), dec_rs1 := ucast (operand_rs1 inst),
         dec_rs2 := ucast (operand_rs2 inst), dec_rs3 := ucast (operand_rs3 inst),
         dec_imm := 0, dec_rm := ucast (operand_rm inst)\<rparr>
   | rv_codec_r_a \<Rightarrow>
       dec\<lparr>dec_rd := ucast (operand_rd inst), dec_rs1 := ucast (operand_rs1 inst),
         dec_rs2 := ucast (operand_rs2 inst), dec_imm := 0,
         dec_aq := ucast (operand_aq inst), dec_rl := ucast (operand_rl inst)\<rparr>
   | rv_codec_r_l \<Rightarrow>
       dec\<lparr>dec_rd := ucast (operand_rd inst), dec_rs1 := ucast (operand_rs1 inst),
         dec_rs2 := rv_ireg_zero, dec_imm := 0, dec_aq := ucast (operand_aq inst),
         dec_rl := ucast (operand_rl inst)\<rparr>
   | rv_codec_r_f \<Rightarrow>
       dec\<lparr>dec_rd := rv_ireg_zero, dec_rs1 := rv_ireg_zero, dec_rs2 := rv_ireg_zero,
         dec_pred := ucast (operand_pred inst),
         dec_succ := ucast (operand_succ inst), dec_imm := 0\<rparr>
   | _ \<Rightarrow> operands_compressed codec inst dec)"

definition decode_inst_operands :: "rv_decode \<Rightarrow> rv_decode" where
  "decode_inst_operands dec =
     (let inst = dec_inst dec;
          codec = op_codec (opcode_data ! dec_op dec)
      in operands_base codec inst (dec\<lparr>dec_codec := codec\<rparr>))"

subsection \<open>Decompression\<close>

definition decomp_op :: "rv_isa \<Rightarrow> rv_opcode_data \<Rightarrow> nat" where
  "decomp_op isa r = (case isa of
     rv32 \<Rightarrow> decomp_rv32 r | rv64 \<Rightarrow> decomp_rv64 r | rv128 \<Rightarrow> decomp_rv128 r)"

definition decode_inst_decompress :: "rv_decode \<Rightarrow> rv_isa \<Rightarrow> rv_decode" where
  "decode_inst_decompress dec isa =
     (let r = opcode_data ! dec_op dec; d = decomp_op isa r
      in if d \<noteq> rv_op_illegal then
           (if decomp_data r AND rvcd_imm_nz \<noteq> 0 \<and> dec_imm dec = 0
            then dec\<lparr>dec_op := rv_op_illegal\<rparr>
            else dec\<lparr>dec_op := d, dec_codec := op_codec (opcode_data ! d)\<rparr>)
         else dec)"

subsection \<open>Pseudo-instructions\<close>

definition constraint_holds :: "rv_decode \<Rightarrow> rvc_constraint \<Rightarrow> bool" where
  "constraint_holds dec c =
     (let imm = dec_imm dec; rd = dec_rd dec; rs1 = dec_rs1 dec; rs2 = dec_rs2 dec
      in case c of
        rvc_rd_eq_ra \<Rightarrow> rd = 1
      | rvc_rd_eq_x0 \<Rightarrow> rd = 0
      | rvc_rs1_eq_x0 \<Rightarrow> rs1 = 0
      | rvc_rs2_eq_x0 \<Rightarrow> rs2 = 0
      | rvc_rs2_eq_rs1 \<Rightarrow> rs2 = rs1
      | rvc_rs1_eq_ra \<Rightarrow> rs1 = 1
      | rvc_imm_eq_zero \<Rightarrow> imm = 0
      | rvc_imm_eq_n1 \<Rightarrow> imm = - 1
      | rvc_imm_eq_p1 \<Rightarrow> imm = 1
      | rvc_csr_eq_0x001 \<Rightarrow> imm = 0x001
      | rvc_csr_eq_0x002 \<Rightarrow> imm = 0x002
      | rvc_csr_eq_0x003 \<Rightarrow> imm = 0x003
      | rvc_csr_eq_0xc00 \<Rightarrow> imm = 0xc00
      | rvc_csr_eq_0xc01 \<Rightarrow> imm = 0xc01
      | rvc_csr_eq_0xc02 \<Rightarrow> imm = 0xc02
      | rvc_csr_eq_0xc80 \<Rightarrow> imm = 0xc80
      | rvc_csr_eq_0xc81 \<Rightarrow> imm = 0xc81
      | rvc_csr_eq_0xc82 \<Rightarrow> imm = 0xc82
      | rvc_end \<Rightarrow> True)"

text \<open>Every array of constraints ends with \<open>rvc_end\<close>.\<close>

fun check_constraints :: "rv_decode \<Rightarrow> rvc_constraint list \<Rightarrow> bool" where
  "check_constraints dec [] = True"
| "check_constraints dec (c # cs) =
     (if c = rvc_end then True
      else if \<not> constraint_holds dec c then False else check_constraints dec cs)"

fun lift_from :: "rv_comp_data list \<Rightarrow> rv_decode \<Rightarrow> rv_decode" where
  "lift_from [] dec = dec"
| "lift_from (d # ds) dec = (case cd_constraints d of
     None \<Rightarrow> dec
   | Some cs \<Rightarrow>
       if check_constraints dec cs
       then dec\<lparr>dec_op := cd_op d, dec_codec := op_codec (opcode_data ! cd_op d)\<rparr>
       else lift_from ds dec)"

definition decode_inst_lift_pseudo :: "rv_decode \<Rightarrow> rv_decode" where
  "decode_inst_lift_pseudo dec = (case op_pseudo (opcode_data ! dec_op dec) of
     None \<Rightarrow> dec | Some ds \<Rightarrow> lift_from ds dec)"

text \<open>\<open>disasm_inst\<close> up to the printing.\<close>

definition dec_init :: "i64 \<Rightarrow> i64 \<Rightarrow> rv_decode" where
  "dec_init pc inst =
     \<lparr>dec_pc = pc, dec_inst = inst, dec_imm = 0, dec_op = rv_op_illegal,
      dec_codec = rv_codec_illegal, dec_rd = 0, dec_rs1 = 0, dec_rs2 = 0, dec_rs3 = 0,
      dec_rm = 0, dec_pred = 0, dec_succ = 0, dec_aq = 0, dec_rl = 0\<rparr>"

definition disasm_decode :: "rv_isa \<Rightarrow> i64 \<Rightarrow> i64 \<Rightarrow> rv_decode" where
  "disasm_decode isa pc inst =
     decode_inst_lift_pseudo
       (decode_inst_decompress
         (decode_inst_operands (decode_inst_opcode (dec_init pc inst) isa)) isa)"

end

