(* ===== verification/Disshow.thy ===== *)
theory Disshow
  imports Disas Rvc
begin

text \<open>
  What the disassembler shows, against the instruction set. \<open>shown\<close> gives every RV32IM
  operation and every pseudo-instruction the meaning the assembler gives it, from the
  operands its format prints.
\<close>

subsection \<open>The meaning of a printed instruction\<close>

text \<open>The pseudo-instructions of the assembler manual.\<close>

definition shown_pseudo :: "nat \<Rightarrow> nat \<Rightarrow> nat \<Rightarrow> i32 \<Rightarrow> (nat \<times> insn) list" where
  "shown_pseudo rd rs1 rs2 imm =
     [(rv_op_nop, OpImm A_add 0 0 0),
      (rv_op_mv, OpImm A_add rd rs1 0),
      (rv_op_not, OpImm A_xor rd rs1 (- 1)),
      (rv_op_neg, Op A_sub rd 0 rs2),
      (rv_op_seqz, OpImm A_sltu rd rs1 1),
      (rv_op_snez, Op A_sltu rd 0 rs2),
      (rv_op_sltz, Op A_slt rd rs1 0),
      (rv_op_sgtz, Op A_slt rd 0 rs2),
      (rv_op_beqz, Branch B_eq rs1 0 imm),
      (rv_op_bnez, Branch B_ne rs1 0 imm),
      (rv_op_blez, Branch B_ge 0 rs2 imm),
      (rv_op_bgez, Branch B_ge rs1 0 imm),
      (rv_op_bltz, Branch B_lt rs1 0 imm),
      (rv_op_bgtz, Branch B_lt 0 rs2 imm),
      (rv_op_ble, Branch B_ge rs1 rs2 imm),
      (rv_op_bleu, Branch B_geu rs1 rs2 imm),
      (rv_op_bgt, Branch B_lt rs1 rs2 imm),
      (rv_op_bgtu, Branch B_ltu rs1 rs2 imm),
      (rv_op_j, Jal 0 imm),
      (rv_op_ret, Jalr 0 1 0),
      (rv_op_jr, Jalr 0 rs1 0),
      (rv_op_rdcycle, Csr C_rs rd 0 0xc00),
      (rv_op_rdtime, Csr C_rs rd 0 0xc01),
      (rv_op_rdinstret, Csr C_rs rd 0 0xc02),
      (rv_op_rdcycleh, Csr C_rs rd 0 0xc80),
      (rv_op_rdtimeh, Csr C_rs rd 0 0xc81),
      (rv_op_rdinstreth, Csr C_rs rd 0 0xc82),
      (rv_op_frcsr, Csr C_rs rd 0 0x003),
      (rv_op_frrm, Csr C_rs rd 0 0x002),
      (rv_op_frflags, Csr C_rs rd 0 0x001),
      (rv_op_fscsr, Csr C_rw rd rs1 0x003),
      (rv_op_fsrm, Csr C_rw rd rs1 0x002),
      (rv_op_fsflags, Csr C_rw rd rs1 0x001),
      (rv_op_fsrmi, CsrImm C_rw rd (of_nat rs1) 0x002),
      (rv_op_fsflagsi, CsrImm C_rw rd (of_nat rs1) 0x001)]"

definition shown_base :: "nat \<Rightarrow> nat \<Rightarrow> nat \<Rightarrow> i32 \<Rightarrow> (nat \<times> insn) list" where
  "shown_base rd rs1 rs2 imm =
     [(rv_op_lui, Lui rd imm), (rv_op_auipc, Auipc rd imm), (rv_op_jal, Jal rd imm),
      (rv_op_jalr, Jalr rd rs1 imm),
      (rv_op_beq, Branch B_eq rs1 rs2 imm), (rv_op_bne, Branch B_ne rs1 rs2 imm),
      (rv_op_blt, Branch B_lt rs1 rs2 imm), (rv_op_bge, Branch B_ge rs1 rs2 imm),
      (rv_op_bltu, Branch B_ltu rs1 rs2 imm), (rv_op_bgeu, Branch B_geu rs1 rs2 imm),
      (rv_op_lb, Load L_b rd rs1 imm), (rv_op_lh, Load L_h rd rs1 imm),
      (rv_op_lw, Load L_w rd rs1 imm), (rv_op_lbu, Load L_bu rd rs1 imm),
      (rv_op_lhu, Load L_hu rd rs1 imm), (rv_op_sb, Store S_b rs2 rs1 imm),
      (rv_op_sh, Store S_h rs2 rs1 imm), (rv_op_sw, Store S_w rs2 rs1 imm),
      (rv_op_addi, OpImm A_add rd rs1 imm), (rv_op_slti, OpImm A_slt rd rs1 imm),
      (rv_op_sltiu, OpImm A_sltu rd rs1 imm), (rv_op_xori, OpImm A_xor rd rs1 imm),
      (rv_op_ori, OpImm A_or rd rs1 imm), (rv_op_andi, OpImm A_and rd rs1 imm),
      (rv_op_slli, OpImm A_sll rd rs1 imm), (rv_op_srli, OpImm A_srl rd rs1 imm),
      (rv_op_srai, OpImm A_sra rd rs1 imm), (rv_op_add, Op A_add rd rs1 rs2),
      (rv_op_sub, Op A_sub rd rs1 rs2), (rv_op_sll, Op A_sll rd rs1 rs2),
      (rv_op_slt, Op A_slt rd rs1 rs2), (rv_op_sltu, Op A_sltu rd rs1 rs2),
      (rv_op_xor, Op A_xor rd rs1 rs2), (rv_op_srl, Op A_srl rd rs1 rs2),
      (rv_op_sra, Op A_sra rd rs1 rs2), (rv_op_or, Op A_or rd rs1 rs2),
      (rv_op_and, Op A_and rd rs1 rs2), (rv_op_fence, Fence), (rv_op_fence_i, Fence),
      (rv_op_mul, Op A_mul rd rs1 rs2), (rv_op_mulh, Op A_mulh rd rs1 rs2),
      (rv_op_mulhsu, Op A_mulhsu rd rs1 rs2), (rv_op_mulhu, Op A_mulhu rd rs1 rs2),
      (rv_op_div, Op A_div rd rs1 rs2), (rv_op_divu, Op A_divu rd rs1 rs2),
      (rv_op_rem, Op A_rem rd rs1 rs2), (rv_op_remu, Op A_remu rd rs1 rs2),
      (rv_op_ecall, Ecall), (rv_op_ebreak, Ebreak), (rv_op_mret, Mret),
      (rv_op_csrrw, Csr C_rw rd rs1 imm), (rv_op_csrrs, Csr C_rs rd rs1 imm),
      (rv_op_csrrc, Csr C_rc rd rs1 imm), (rv_op_csrrwi, CsrImm C_rw rd (of_nat rs1) imm),
      (rv_op_csrrsi, CsrImm C_rs rd (of_nat rs1) imm),
      (rv_op_csrrci, CsrImm C_rc rd (of_nat rs1) imm)]"

definition all_ops :: "nat \<Rightarrow> nat \<Rightarrow> nat \<Rightarrow> i32 \<Rightarrow> (nat \<times> insn) list" where
  "all_ops rd rs1 rs2 imm = shown_base rd rs1 rs2 imm @ shown_pseudo rd rs1 rs2 imm"

fun find_op :: "nat \<Rightarrow> (nat \<times> insn) list \<Rightarrow> insn option" where
  "find_op k [] = None"
| "find_op k ((j, i) # rest) = (if k = j then Some i else find_op k rest)"

definition shown :: "rv_decode \<Rightarrow> insn option" where
  "shown d =
     find_op (dec_op d)
       (all_ops (unat (dec_rd d)) (unat (dec_rs1 d)) (unat (dec_rs2 d)) (dec_imm d))"

lemma find_op_mem: "find_op k t = Some i \<Longrightarrow> (k, i) \<in> set t"
  by (induction k t rule: find_op.induct) (auto split: if_splits)

text \<open>
  \<open>rvcc_jalr_ret\<close> does not ask for a zero offset, so every \<open>jalr x0, k(ra)\<close> is printed
  as \<open>ret\<close>.
\<close>

definition as_printed :: "insn \<Rightarrow> insn" where
  "as_printed i = (case i of
     Jalr rd rs1 imm \<Rightarrow> if rd = 0 \<and> rs1 = 1 then Jalr 0 1 0 else i
   | _ \<Rightarrow> i)"

subsection \<open>The operand extractors\<close>

abbreviation lo32 :: "i64 \<Rightarrow> i32" where "lo32 inst \<equiv> ucast inst"

lemma take_of_shift:
  "a \<le> b \<Longrightarrow> b < 64 \<Longrightarrow> 32 \<le> a \<Longrightarrow>
     ucast (drop_bit b (push_bit a inst)) = fld (b - a) (64 - b) (lo32 inst)"
  for inst :: i64
  by (rule bit_word_eqI) (auto simp: bits bit_simps dest: bit_imp_le_length)

lemma field_operands [simp]:
  "operand_rd inst = fld 7 5 (lo32 inst)" "operand_rs1 inst = fld 15 5 (lo32 inst)"
  "operand_rs2 inst = fld 20 5 (lo32 inst)" "operand_shamt7 inst = fld 20 7 (lo32 inst)"
  "operand_csr12 inst = fld 20 12 (lo32 inst)" "operand_crdq inst = fld 2 3 (lo32 inst)"
  "operand_crs1q inst = fld 7 3 (lo32 inst)" "operand_crs1rdq inst = fld 7 3 (lo32 inst)"
  "operand_crs2q inst = fld 2 3 (lo32 inst)" "operand_crd inst = fld 7 5 (lo32 inst)"
  "operand_crs1 inst = fld 7 5 (lo32 inst)" "operand_crs1rd inst = fld 7 5 (lo32 inst)"
  "operand_crs2 inst = fld 2 5 (lo32 inst)"
  by (simp_all add: operand_defs take_of_shift)

lemma immediate_operands [simp]:
  "operand_imm12 inst = imm_I (lo32 inst)" "operand_imm20 inst = imm_U (lo32 inst)"
  "operand_jimm20 inst = imm_J (lo32 inst)" "operand_simm12 inst = imm_S (lo32 inst)"
  "operand_sbimm12 inst = imm_B (lo32 inst)"
  by (rule word32_eqI, simp add: operand_defs imm_I_def imm_U_def imm_J_def imm_S_def imm_B_def
      bits bit_simps bit_positions_def)+

lemma compressed_operands [simp]:
  "operand_cimmi inst = imm_ci (lo32 inst)" "operand_cimmui inst = imm_clui (lo32 inst)"
  "operand_cimm16sp inst = imm_addi16sp (lo32 inst)" "operand_cimmj inst = imm_cj (lo32 inst)"
  "operand_cimmb inst = imm_cb (lo32 inst)" "operand_cimmlwsp inst = uimm_lwsp (lo32 inst)"
  "operand_cimmswsp inst = uimm_swsp (lo32 inst)" "operand_cimmw inst = uimm_lw (lo32 inst)"
  "operand_cimm4spn inst = uimm_addi4spn (lo32 inst)"
  by (rule word32_eqI, simp add: operand_defs imm_ci_def imm_clui_def imm_addi16sp_def imm_cj_def
      imm_cb_def uimm_lwsp_def uimm_swsp_def uimm_lw_def uimm_addi4spn_def
      numeral_2_eq_2 [symmetric] bits bit_simps bit_positions_def)+

lemma operand_cimmsh6_small:
  "\<not> bit (lo32 inst) 12 \<Longrightarrow> operand_cimmsh6 inst = fld 2 5 (lo32 inst)"
  by (rule word32_eqI) (simp add: operand_defs bits bit_simps bit_positions_def)

text \<open>The switch of the decoder selects the fields of the low 32 bits.\<close>

lemma selected_field: "a + n \<le> 32 \<Longrightarrow> drop_bit a inst AND mask n = ucast (fld a n (lo32 inst))"
  for inst :: i64
  by (rule bit_word_eqI) (auto simp: bits bit_simps)

lemma selectors:
  "drop_bit 0 inst AND 0x3 = ucast (fld 0 2 (lo32 inst))"
  "drop_bit 2 inst AND 0x1f = ucast (fld 2 5 (lo32 inst))"
  "drop_bit 2 inst AND 0x7ff = ucast (fld 2 11 (lo32 inst))"
  "drop_bit 7 inst AND 0x1f = ucast (fld 7 5 (lo32 inst))"
  "drop_bit 10 inst AND 0x3 = ucast (fld 10 2 (lo32 inst))"
  "drop_bit 12 inst AND 0x1 = ucast (fld 12 1 (lo32 inst))"
  "drop_bit 12 inst AND 0x7 = ucast (fld 12 3 (lo32 inst))"
  "drop_bit 13 inst AND 0x7 = ucast (fld 13 3 (lo32 inst))"
  "drop_bit 27 inst AND 0x1f = ucast (fld 27 5 (lo32 inst))"
  for inst :: i64
  using selected_field [of 0 2 inst] selected_field [of 2 5 inst] selected_field [of 2 11 inst]
    selected_field [of 7 5 inst] selected_field [of 10 2 inst] selected_field [of 12 1 inst]
    selected_field [of 12 3 inst] selected_field [of 13 3 inst] selected_field [of 27 5 inst]
  by (simp_all add: mask_eq_decr_exp)

subsection \<open>Looking up the table\<close>

lemma length_opcodes:
  "length opcodes_0 = 64"
  "length opcodes_64 = 64"
  "length opcodes_128 = 64"
  "length opcodes_192 = 64"
  "length opcodes_256 = 63"
  by (simp_all add: opcodes_defs)

lemma opcode_data_nth:
  "k < 64 \<Longrightarrow> opcode_data ! k = opcodes_0 ! k"
  "64 \<le> k \<Longrightarrow> k < 128 \<Longrightarrow> opcode_data ! k = opcodes_64 ! (k - 64)"
  "128 \<le> k \<Longrightarrow> k < 192 \<Longrightarrow> opcode_data ! k = opcodes_128 ! (k - 128)"
  "192 \<le> k \<Longrightarrow> k < 256 \<Longrightarrow> opcode_data ! k = opcodes_192 ! (k - 192)"
  "256 \<le> k \<Longrightarrow> k < 319 \<Longrightarrow> opcode_data ! k = opcodes_256 ! (k - 256)"
  by (simp_all add: opcode_data_def nth_append length_opcodes)

lemmas lookup = opcode_data_nth opcodes_defs

subsection \<open>Lifting to pseudo-instructions\<close>

definition plain_ops :: "nat list" where
  "plain_ops =
     [rv_op_lui, rv_op_auipc, rv_op_lb, rv_op_lh, rv_op_lw, rv_op_lbu, rv_op_lhu, rv_op_sb,
      rv_op_sh, rv_op_sw, rv_op_slti, rv_op_ori, rv_op_andi, rv_op_slli, rv_op_srli,
      rv_op_srai, rv_op_add, rv_op_sll, rv_op_xor, rv_op_srl, rv_op_sra, rv_op_or, rv_op_and,
      rv_op_fence, rv_op_fence_i, rv_op_mul, rv_op_mulh, rv_op_mulhsu, rv_op_mulhu,
      rv_op_div, rv_op_divu, rv_op_rem, rv_op_remu, rv_op_ecall, rv_op_ebreak, rv_op_mret,
      rv_op_csrrc, rv_op_csrrsi, rv_op_csrrci, rv_op_nop, rv_op_mv, rv_op_not, rv_op_neg,
      rv_op_seqz, rv_op_snez, rv_op_sltz, rv_op_sgtz, rv_op_beqz, rv_op_bnez, rv_op_blez,
      rv_op_bgez, rv_op_bltz, rv_op_bgtz, rv_op_ble, rv_op_bleu, rv_op_bgt, rv_op_bgtu,
      rv_op_j, rv_op_ret, rv_op_jr, rv_op_rdcycle, rv_op_rdtime, rv_op_rdinstret,
      rv_op_rdcycleh, rv_op_rdtimeh, rv_op_rdinstreth, rv_op_frcsr, rv_op_frrm,
      rv_op_frflags, rv_op_fscsr, rv_op_fsrm, rv_op_fsflags, rv_op_fsrmi, rv_op_fsflagsi]"

lemma plain_ops_no_pseudo: "k \<in> set plain_ops \<Longrightarrow> op_pseudo (opcode_data ! k) = None"
  by (auto simp: plain_ops_def lookup)

lemma lifted_ops:
  "op_pseudo (opcode_data ! rv_op_jal) = Some rvcp_jal"
  "op_pseudo (opcode_data ! rv_op_jalr) = Some rvcp_jalr"
  "op_pseudo (opcode_data ! rv_op_beq) = Some rvcp_beq"
  "op_pseudo (opcode_data ! rv_op_bne) = Some rvcp_bne"
  "op_pseudo (opcode_data ! rv_op_blt) = Some rvcp_blt"
  "op_pseudo (opcode_data ! rv_op_bge) = Some rvcp_bge"
  "op_pseudo (opcode_data ! rv_op_bltu) = Some rvcp_bltu"
  "op_pseudo (opcode_data ! rv_op_bgeu) = Some rvcp_bgeu"
  "op_pseudo (opcode_data ! rv_op_addi) = Some rvcp_addi"
  "op_pseudo (opcode_data ! rv_op_sltiu) = Some rvcp_sltiu"
  "op_pseudo (opcode_data ! rv_op_xori) = Some rvcp_xori"
  "op_pseudo (opcode_data ! rv_op_sub) = Some rvcp_sub"
  "op_pseudo (opcode_data ! rv_op_slt) = Some rvcp_slt"
  "op_pseudo (opcode_data ! rv_op_sltu) = Some rvcp_sltu"
  "op_pseudo (opcode_data ! rv_op_csrrw) = Some rvcp_csrrw"
  "op_pseudo (opcode_data ! rv_op_csrrs) = Some rvcp_csrrs"
  "op_pseudo (opcode_data ! rv_op_csrrwi) = Some rvcp_csrrwi"
  by (simp_all add: lookup)


lemma lifted_rv_decode:
  "op_pseudo (opcode_data ! dec_op d) = Some ds \<Longrightarrow> decode_inst_lift_pseudo d = lift_from ds d"
  by (simp add: decode_inst_lift_pseudo_def)

definition lifted_list :: "nat list" where
  "lifted_list =
     [rv_op_jal, rv_op_jalr, rv_op_beq, rv_op_bne, rv_op_blt, rv_op_bge, rv_op_bltu,
      rv_op_bgeu, rv_op_addi, rv_op_sltiu, rv_op_xori, rv_op_sub, rv_op_slt, rv_op_sltu,
      rv_op_csrrw, rv_op_csrrs, rv_op_csrrwi]"

lemma all_ops_split:
  "list_all (\<lambda>(k, i). k \<in> set plain_ops \<and> as_printed i = i \<or> k \<in> set lifted_list)
     (all_ops rd rs1 rs2 imm)"
  by (simp add: all_ops_def shown_base_def shown_pseudo_def plain_ops_def lifted_list_def
      as_printed_def)

lemma shown_ops:
  "shown d = Some i \<Longrightarrow>
     dec_op d \<in> set plain_ops \<and> as_printed i = i \<or> dec_op d \<in> set lifted_list"
  using all_ops_split by (force simp: shown_def list_all_iff dest: find_op_mem)

lemmas shown_simps =
  shown_def all_ops_def shown_base_def shown_pseudo_def as_printed_def constraint_holds_def

lemma unat_u8_simps [simp]:
  "0 < unat r \<longleftrightarrow> r \<noteq> 0" "unat r = Suc 0 \<longleftrightarrow> r = 1" for r :: u8
  using word_unat_eq_iff [of r 1] by (simp_all add: unat_gt_0)

text \<open>The lifted operation prints the same instruction, the offset of \<open>ret\<close> apart.\<close>

lemma lift_jumps:
  "dec_op d = rv_op_jal \<Longrightarrow> shown (decode_inst_lift_pseudo d) = map_option as_printed (shown d)"
  "dec_op d = rv_op_jalr \<Longrightarrow> shown (decode_inst_lift_pseudo d) = map_option as_printed (shown d)"
  by (simp_all add: lifted_rv_decode lifted_ops shown_simps)

lemma lift_branches:
  "dec_op d \<in> {rv_op_beq, rv_op_bne, rv_op_blt, rv_op_bge, rv_op_bltu, rv_op_bgeu} \<Longrightarrow>
     shown (decode_inst_lift_pseudo d) = map_option as_printed (shown d)"
  by (elim insertE emptyE; simp add: lifted_rv_decode lifted_ops shown_simps)

lemma lift_arith:
  "dec_op d \<in> {rv_op_addi, rv_op_sltiu, rv_op_xori, rv_op_sub, rv_op_slt, rv_op_sltu} \<Longrightarrow>
     shown (decode_inst_lift_pseudo d) = map_option as_printed (shown d)"
  by (elim insertE emptyE; simp add: lifted_rv_decode lifted_ops shown_simps)

lemma shown_codec [simp]: "shown (d\<lparr>dec_op := k, dec_codec := x\<rparr>) = shown (d\<lparr>dec_op := k\<rparr>)"
  by (simp add: shown_def)

lemma lift_from_shows:
  assumes "\<And>e cs. e \<in> set ds \<Longrightarrow> cd_constraints e = Some cs \<Longrightarrow> check_constraints d cs \<Longrightarrow>
             shown (d\<lparr>dec_op := cd_op e\<rparr>) = shown d"
  shows "shown (lift_from ds d) = shown d"
  using assms by (induction ds) (auto split: option.split)

lemma shown_csr:
  "shown (d\<lparr>dec_op := rv_op_rdcycle\<rparr>) = Some (Csr C_rs (unat (dec_rd d)) 0 0xc00)"
  "shown (d\<lparr>dec_op := rv_op_rdtime\<rparr>) = Some (Csr C_rs (unat (dec_rd d)) 0 0xc01)"
  "shown (d\<lparr>dec_op := rv_op_rdinstret\<rparr>) = Some (Csr C_rs (unat (dec_rd d)) 0 0xc02)"
  "shown (d\<lparr>dec_op := rv_op_rdcycleh\<rparr>) = Some (Csr C_rs (unat (dec_rd d)) 0 0xc80)"
  "shown (d\<lparr>dec_op := rv_op_rdtimeh\<rparr>) = Some (Csr C_rs (unat (dec_rd d)) 0 0xc81)"
  "shown (d\<lparr>dec_op := rv_op_rdinstreth\<rparr>) = Some (Csr C_rs (unat (dec_rd d)) 0 0xc82)"
  "shown (d\<lparr>dec_op := rv_op_frcsr\<rparr>) = Some (Csr C_rs (unat (dec_rd d)) 0 0x003)"
  "shown (d\<lparr>dec_op := rv_op_frrm\<rparr>) = Some (Csr C_rs (unat (dec_rd d)) 0 0x002)"
  "shown (d\<lparr>dec_op := rv_op_frflags\<rparr>) = Some (Csr C_rs (unat (dec_rd d)) 0 0x001)"
  "shown (d\<lparr>dec_op := rv_op_fscsr\<rparr>) = Some (Csr C_rw (unat (dec_rd d)) (unat (dec_rs1 d)) 0x003)"
  "shown (d\<lparr>dec_op := rv_op_fsrm\<rparr>) = Some (Csr C_rw (unat (dec_rd d)) (unat (dec_rs1 d)) 0x002)"
  "shown (d\<lparr>dec_op := rv_op_fsflags\<rparr>) = Some (Csr C_rw (unat (dec_rd d)) (unat (dec_rs1 d)) 0x001)"
  "shown (d\<lparr>dec_op := rv_op_fsrmi\<rparr>) =
     Some (CsrImm C_rw (unat (dec_rd d)) (of_nat (unat (dec_rs1 d))) 0x002)"
  "shown (d\<lparr>dec_op := rv_op_fsflagsi\<rparr>) =
     Some (CsrImm C_rw (unat (dec_rd d)) (of_nat (unat (dec_rs1 d))) 0x001)"
  "dec_op d = rv_op_csrrw \<Longrightarrow> shown d =
     Some (Csr C_rw (unat (dec_rd d)) (unat (dec_rs1 d)) (dec_imm d))"
  "dec_op d = rv_op_csrrs \<Longrightarrow> shown d =
     Some (Csr C_rs (unat (dec_rd d)) (unat (dec_rs1 d)) (dec_imm d))"
  "dec_op d = rv_op_csrrwi \<Longrightarrow> shown d =
     Some (CsrImm C_rw (unat (dec_rd d)) (of_nat (unat (dec_rs1 d))) (dec_imm d))"
  by (simp_all add: shown_simps)

lemma lift_csr:
  "dec_op d = rv_op_csrrw \<Longrightarrow> shown (lift_from rvcp_csrrw d) = shown d"
  "dec_op d = rv_op_csrrs \<Longrightarrow> shown (lift_from rvcp_csrrs d) = shown d"
  "dec_op d = rv_op_csrrwi \<Longrightarrow> shown (lift_from rvcp_csrrwi d) = shown d"
  by (rule lift_from_shows; auto simp: shown_csr constraint_holds_def split: if_splits)+

lemma lift_shows:
  assumes "dec_op d \<in> set lifted_list"
  shows "shown (decode_inst_lift_pseudo d) = map_option as_printed (shown d)"
proof -
  have csr: "map_option as_printed (shown d) = shown d"
    if "dec_op d \<in> {rv_op_csrrw, rv_op_csrrs, rv_op_csrrwi}"
    using that by (auto simp: shown_simps)
  consider "dec_op d = rv_op_jal" | "dec_op d = rv_op_jalr"
    | "dec_op d \<in> {rv_op_beq, rv_op_bne, rv_op_blt, rv_op_bge, rv_op_bltu, rv_op_bgeu}"
    | "dec_op d \<in> {rv_op_addi, rv_op_sltiu, rv_op_xori, rv_op_sub, rv_op_slt, rv_op_sltu}"
    | "dec_op d = rv_op_csrrw" | "dec_op d = rv_op_csrrs" | "dec_op d = rv_op_csrrwi"
    using assms by (simp add: lifted_list_def) blast
  then show ?thesis
  proof cases
    case 5
    then show ?thesis using lift_csr(1) csr by (simp add: lifted_rv_decode lifted_ops)
  next
    case 6
    then show ?thesis using lift_csr(2) csr by (simp add: lifted_rv_decode lifted_ops)
  next
    case 7
    then show ?thesis using lift_csr(3) csr by (simp add: lifted_rv_decode lifted_ops)
  qed (fact lift_jumps lift_branches lift_arith)+
qed

lemma lift_keeps_meaning:
  assumes "shown d = Some i"
  shows "shown (decode_inst_lift_pseudo d) = Some (as_printed i)"
  using shown_ops [OF assms]
proof
  assume "dec_op d \<in> set plain_ops \<and> as_printed i = i"
  then show ?thesis
    using plain_ops_no_pseudo assms by (simp add: decode_inst_lift_pseudo_def)
next
  assume "dec_op d \<in> set lifted_list"
  then show ?thesis using lift_shows assms by simp
qed

end
