(* ===== verification/Disagree.thy ===== *)
theory Disagree
  imports Disshow
begin

text \<open>
  The disassembler and the instruction set agree: for every RV32IM word, and for every
  compressed code, the instruction the disassembler shows is the one the simulator
  executes.
\<close>

subsection \<open>Decoding a word\<close>

text \<open>\<open>disasm_inst\<close> before the pseudo-instructions.\<close>

definition disasm_raw :: "i64 \<Rightarrow> i64 \<Rightarrow> rv_decode" where
  "disasm_raw pc inst =
     decode_inst_decompress
       (decode_inst_operands (decode_inst_opcode (dec_init pc inst) rv32)) rv32"

lemma disasm_decode_raw: "disasm_decode rv32 pc inst = decode_inst_lift_pseudo (disasm_raw pc inst)"
  by (simp add: disasm_decode_def disasm_raw_def)

lemma dec_op_operands [simp]: "dec_op (operands_base codec inst d) = dec_op d"
  by (cases codec) (simp_all add: operands_base_def operands_compressed_def)

lemma dec_inst_operands [simp]: "dec_inst (operands_base codec inst d) = dec_inst d"
  by (cases codec) (simp_all add: operands_base_def operands_compressed_def)

lemma raw_of:
  assumes "decomp_rv32 (opcode_data ! opcode_of rv32 inst) = 0"
  shows "disasm_raw pc inst =
     (let k = opcode_of rv32 inst; codec = op_codec (opcode_data ! k)
      in operands_base codec inst ((dec_init pc inst)\<lparr>dec_op := k, dec_codec := codec\<rparr>))"
  using assms
  by (simp add: disasm_raw_def decode_inst_opcode_def decode_inst_operands_def Let_def
      decode_inst_decompress_def decomp_op_def dec_init_def)

lemma unat_reg_byte [simp]:
  "len \<le> 8 \<Longrightarrow> unat (ucast (fld lo len w) :: u8) = unat (fld lo len w)" for w :: i32
  by (simp add: fld_def unsigned_ucast_eq unsigned_take_bit_eq take_bit_take_bit min_def)

lemma sub_fields:
  "fld 0 2 w = take_bit 2 (fld 0 7 w)" "fld 2 5 w = drop_bit 2 (fld 0 7 w)"
  "fld 27 5 w = drop_bit 2 (fld 25 7 w)" for w :: i32
  by (rule word32_eqI, simp add: bits bit_simps bit_positions_def)+

lemma low_selector: "inst AND 0x3 = ucast (fld 0 2 (lo32 inst))" for inst :: i64
  using selectors(1) [of inst] by simp

lemma major_opcode:
  "fld 0 7 (lo32 inst) = 0x37 \<Longrightarrow> opcode_of isa inst = rv_op_lui"
  "fld 0 7 (lo32 inst) = 0x17 \<Longrightarrow> opcode_of isa inst = rv_op_auipc"
  "fld 0 7 (lo32 inst) = 0x6f \<Longrightarrow> opcode_of isa inst = rv_op_jal"
  "fld 0 7 (lo32 inst) = 0x67 \<Longrightarrow> opcode_of isa inst = dis_jalr inst"
  "fld 0 7 (lo32 inst) = 0x63 \<Longrightarrow> opcode_of isa inst = dis_branch inst"
  "fld 0 7 (lo32 inst) = 0x03 \<Longrightarrow> opcode_of isa inst = dis_load inst"
  "fld 0 7 (lo32 inst) = 0x23 \<Longrightarrow> opcode_of isa inst = dis_store inst"
  "fld 0 7 (lo32 inst) = 0x13 \<Longrightarrow> opcode_of isa inst = dis_imm inst"
  "fld 0 7 (lo32 inst) = 0x33 \<Longrightarrow> opcode_of isa inst = dis_reg inst"
  "fld 0 7 (lo32 inst) = 0x0f \<Longrightarrow> opcode_of isa inst = dis_misc_mem inst"
  "fld 0 7 (lo32 inst) = 0x73 \<Longrightarrow> opcode_of isa inst = dis_system inst"
  by (simp_all add: opcode_of_def dis_quadrant3_def low_selector selectors sub_fields)

lemma joined_selectors:
  "drop_bit 22 inst AND 0x3f8 = ucast (push_bit 3 (fld 25 7 (lo32 inst)))"
  "drop_bit 20 inst AND 0xfe0 = ucast (push_bit 5 (fld 25 7 (lo32 inst)))"
  "drop_bit 15 inst AND 0x3ff = ucast (fld 15 10 (lo32 inst))"
  for inst :: i64
proof -
  have "drop_bit 22 inst AND push_bit 3 (mask 7) = ucast (push_bit 3 (fld 25 7 (lo32 inst)))"
    by (rule bit_word_eqI) (auto simp: bits bit_simps)
  then show "drop_bit 22 inst AND 0x3f8 = ucast (push_bit 3 (fld 25 7 (lo32 inst)))"
    by (simp add: mask_eq_decr_exp)
  have "drop_bit 20 inst AND push_bit 5 (mask 7) = ucast (push_bit 5 (fld 25 7 (lo32 inst)))"
    by (rule bit_word_eqI) (auto simp: bits bit_simps)
  then show "drop_bit 20 inst AND 0xfe0 = ucast (push_bit 5 (fld 25 7 (lo32 inst)))"
    by (simp add: mask_eq_decr_exp)
  show "drop_bit 15 inst AND 0x3ff = ucast (fld 15 10 (lo32 inst))"
    using selected_field [of 15 10 inst] by (simp add: mask_eq_decr_exp)
qed

lemmas raw_simps =
  raw_of lookup operands_base_def dec_init_def shown_simps

subsection \<open>The operations of RV32IM\<close>

lemma shows_upper:
  "fld 0 7 (lo32 inst) = 0x37 \<Longrightarrow>
     shown (disasm_raw pc inst) = Some (Lui (unat (fld 7 5 (lo32 inst))) (imm_U (lo32 inst)))"
  "fld 0 7 (lo32 inst) = 0x17 \<Longrightarrow>
     shown (disasm_raw pc inst) = Some (Auipc (unat (fld 7 5 (lo32 inst))) (imm_U (lo32 inst)))"
  by (simp_all add: raw_simps major_opcode)

lemma shows_jumps:
  "fld 0 7 (lo32 inst) = 0x6f \<Longrightarrow>
     shown (disasm_raw pc inst) = Some (Jal (unat (fld 7 5 (lo32 inst))) (imm_J (lo32 inst)))"
  "fld 0 7 (lo32 inst) = 0x67 \<Longrightarrow> fld 12 3 (lo32 inst) = 0 \<Longrightarrow>
     shown (disasm_raw pc inst) =
       Some (Jalr (unat (fld 7 5 (lo32 inst))) (unat (fld 15 5 (lo32 inst))) (imm_I (lo32 inst)))"
  by (simp_all add: raw_simps major_opcode dis_jalr_def selectors)

text \<open>The operation the decoder finds for each operation of the reference.\<close>

definition branch_code :: "branch_op \<Rightarrow> nat" where
  "branch_code b = (case b of B_eq \<Rightarrow> rv_op_beq | B_ne \<Rightarrow> rv_op_bne | B_lt \<Rightarrow> rv_op_blt
     | B_ge \<Rightarrow> rv_op_bge | B_ltu \<Rightarrow> rv_op_bltu | B_geu \<Rightarrow> rv_op_bgeu)"

definition load_code :: "load_op \<Rightarrow> nat" where
  "load_code l = (case l of L_b \<Rightarrow> rv_op_lb | L_h \<Rightarrow> rv_op_lh | L_w \<Rightarrow> rv_op_lw
     | L_bu \<Rightarrow> rv_op_lbu | L_hu \<Rightarrow> rv_op_lhu)"

definition store_code :: "store_op \<Rightarrow> nat" where
  "store_code s = (case s of S_b \<Rightarrow> rv_op_sb | S_h \<Rightarrow> rv_op_sh | S_w \<Rightarrow> rv_op_sw)"

lemma branch_code:
  "branch_op_of (fld 12 3 (lo32 inst)) = Some b \<Longrightarrow> dis_branch inst = branch_code b"
  by (simp add: branch_op_of_def dis_branch_def selectors branch_code_def split: if_splits)

lemma load_code:
  "load_op_of (fld 12 3 (lo32 inst)) = Some l \<Longrightarrow> dis_load inst = load_code l"
  by (simp add: load_op_of_def dis_load_def selectors load_code_def split: if_splits)

lemma store_code:
  "store_op_of (fld 12 3 (lo32 inst)) = Some s \<Longrightarrow> dis_store inst = store_code s"
  by (simp add: store_op_of_def dis_store_def selectors store_code_def split: if_splits)

lemma shows_branch:
  "opcode_of rv32 inst = branch_code b \<Longrightarrow>
     shown (disasm_raw pc inst) =
       Some (Branch b (unat (fld 15 5 (lo32 inst))) (unat (fld 20 5 (lo32 inst)))
         (imm_B (lo32 inst)))"
  by (cases b; simp add: branch_code_def raw_simps)

lemma shows_load:
  "opcode_of rv32 inst = load_code l \<Longrightarrow>
     shown (disasm_raw pc inst) =
       Some (Load l (unat (fld 7 5 (lo32 inst))) (unat (fld 15 5 (lo32 inst))) (imm_I (lo32 inst)))"
  by (cases l; simp add: load_code_def raw_simps)

lemma shows_store:
  "opcode_of rv32 inst = store_code s \<Longrightarrow>
     shown (disasm_raw pc inst) =
       Some (Store s (unat (fld 20 5 (lo32 inst))) (unat (fld 15 5 (lo32 inst)))
         (imm_S (lo32 inst)))"
  by (cases s; simp add: store_code_def raw_simps)

definition imm_code :: "alu_op \<Rightarrow> nat" where
  "imm_code a = (case a of A_add \<Rightarrow> rv_op_addi | A_sll \<Rightarrow> rv_op_slli | A_slt \<Rightarrow> rv_op_slti
     | A_sltu \<Rightarrow> rv_op_sltiu | A_xor \<Rightarrow> rv_op_xori | A_srl \<Rightarrow> rv_op_srli
     | A_sra \<Rightarrow> rv_op_srai | A_or \<Rightarrow> rv_op_ori | A_and \<Rightarrow> rv_op_andi
     | _ \<Rightarrow> rv_op_illegal)"

definition reg_code :: "alu_op \<Rightarrow> nat" where
  "reg_code a = (case a of A_add \<Rightarrow> rv_op_add | A_sub \<Rightarrow> rv_op_sub | A_sll \<Rightarrow> rv_op_sll
     | A_slt \<Rightarrow> rv_op_slt | A_sltu \<Rightarrow> rv_op_sltu | A_xor \<Rightarrow> rv_op_xor | A_srl \<Rightarrow> rv_op_srl
     | A_sra \<Rightarrow> rv_op_sra | A_or \<Rightarrow> rv_op_or | A_and \<Rightarrow> rv_op_and | A_mul \<Rightarrow> rv_op_mul
     | A_mulh \<Rightarrow> rv_op_mulh | A_mulhsu \<Rightarrow> rv_op_mulhsu | A_mulhu \<Rightarrow> rv_op_mulhu
     | A_div \<Rightarrow> rv_op_div | A_divu \<Rightarrow> rv_op_divu | A_rem \<Rightarrow> rv_op_rem
     | A_remu \<Rightarrow> rv_op_remu)"

lemma imm_code:
  "imm_op_of (fld 12 3 (lo32 inst)) (fld 25 7 (lo32 inst)) = Some a \<Longrightarrow>
     dis_imm inst = imm_code a \<and> imm_code a \<noteq> rv_op_illegal"
  by (simp add: imm_op_of_def dis_imm_def selectors sub_fields imm_code_def split: if_splits)

lemma reg_code:
  "reg_op_of (fld 12 3 (lo32 inst)) (fld 25 7 (lo32 inst)) = Some a \<Longrightarrow>
     dis_reg inst = reg_code a"
  by (simp add: reg_op_of_def dis_reg_def joined_selectors selectors reg_code_def split: if_splits)

text \<open>The decoder takes seven bits as the shift amount, of which two are zero.\<close>

lemma shift_amount:
  fixes w :: i32
  assumes "imm_op_of f (fld 25 7 w) = Some a" "is_shift a"
  shows "fld 20 7 w = fld 20 5 w"
proof -
  have "fld 25 7 w = 0 \<or> fld 25 7 w = 0x20"
    using assms by (simp add: imm_op_of_def is_shift_def split: if_splits)
  then have "\<not> bit (fld 25 7 w) 0 \<and> \<not> bit (fld 25 7 w) 1" by auto
  then have "\<not> bit w 25 \<and> \<not> bit w 26" by (simp add: bits)
  then show ?thesis by - (rule word32_eqI, simp add: bits bit_simps bit_positions_def)
qed

lemma shows_imm:
  "opcode_of rv32 inst = imm_code a \<Longrightarrow> imm_code a \<noteq> rv_op_illegal \<Longrightarrow>
     shown (disasm_raw pc inst) =
       Some (OpImm a (unat (fld 7 5 (lo32 inst))) (unat (fld 15 5 (lo32 inst)))
         (if is_shift a then fld 20 7 (lo32 inst) else imm_I (lo32 inst)))"
  by (cases a; simp add: imm_code_def is_shift_def raw_simps)

lemma shows_reg:
  "opcode_of rv32 inst = reg_code a \<Longrightarrow>
     shown (disasm_raw pc inst) =
       Some (Op a (unat (fld 7 5 (lo32 inst))) (unat (fld 15 5 (lo32 inst)))
         (unat (fld 20 5 (lo32 inst))))"
  by (cases a; simp add: reg_code_def raw_simps)

lemma shows_fence:
  "fld 0 7 (lo32 inst) = 0x0f \<Longrightarrow> fld 12 3 (lo32 inst) = 0 \<or> fld 12 3 (lo32 inst) = 1 \<Longrightarrow>
     shown (disasm_raw pc inst) = Some Fence"
  by (elim disjE; simp add: raw_simps major_opcode dis_misc_mem_def selectors)

lemma shows_csr:
  "opcode_of rv32 inst = rv_op_csrrw \<Longrightarrow> shown (disasm_raw pc inst) =
     Some (Csr C_rw (unat (fld 7 5 (lo32 inst))) (unat (fld 15 5 (lo32 inst))) (fld 20 12 (lo32 inst)))"
  "opcode_of rv32 inst = rv_op_csrrs \<Longrightarrow> shown (disasm_raw pc inst) =
     Some (Csr C_rs (unat (fld 7 5 (lo32 inst))) (unat (fld 15 5 (lo32 inst))) (fld 20 12 (lo32 inst)))"
  "opcode_of rv32 inst = rv_op_csrrc \<Longrightarrow> shown (disasm_raw pc inst) =
     Some (Csr C_rc (unat (fld 7 5 (lo32 inst))) (unat (fld 15 5 (lo32 inst))) (fld 20 12 (lo32 inst)))"
  "opcode_of rv32 inst = rv_op_csrrwi \<Longrightarrow> shown (disasm_raw pc inst) =
     Some (CsrImm C_rw (unat (fld 7 5 (lo32 inst))) (fld 15 5 (lo32 inst)) (fld 20 12 (lo32 inst)))"
  "opcode_of rv32 inst = rv_op_csrrsi \<Longrightarrow> shown (disasm_raw pc inst) =
     Some (CsrImm C_rs (unat (fld 7 5 (lo32 inst))) (fld 15 5 (lo32 inst)) (fld 20 12 (lo32 inst)))"
  "opcode_of rv32 inst = rv_op_csrrci \<Longrightarrow> shown (disasm_raw pc inst) =
     Some (CsrImm C_rc (unat (fld 7 5 (lo32 inst))) (fld 15 5 (lo32 inst)) (fld 20 12 (lo32 inst)))"
  by (simp_all add: raw_simps)

lemma shows_priv:
  "opcode_of rv32 inst = rv_op_ecall \<Longrightarrow> shown (disasm_raw pc inst) = Some Ecall"
  "opcode_of rv32 inst = rv_op_ebreak \<Longrightarrow> shown (disasm_raw pc inst) = Some Ebreak"
  "opcode_of rv32 inst = rv_op_mret \<Longrightarrow> shown (disasm_raw pc inst) = Some Mret"
  by (simp_all add: raw_simps)

lemma priv_opcode:
  "lo32 inst = 0x00000073 \<Longrightarrow> dis_system inst = rv_op_ecall"
  "lo32 inst = 0x00100073 \<Longrightarrow> dis_system inst = rv_op_ebreak"
  "lo32 inst = 0x30200073 \<Longrightarrow> dis_system inst = rv_op_mret"
  by (simp_all add: dis_system_def joined_selectors selectors fld_def)

lemma csr_opcode:
  "fld 12 3 (lo32 inst) = 1 \<Longrightarrow> dis_system inst = rv_op_csrrw"
  "fld 12 3 (lo32 inst) = 2 \<Longrightarrow> dis_system inst = rv_op_csrrs"
  "fld 12 3 (lo32 inst) = 3 \<Longrightarrow> dis_system inst = rv_op_csrrc"
  "fld 12 3 (lo32 inst) = 5 \<Longrightarrow> dis_system inst = rv_op_csrrwi"
  "fld 12 3 (lo32 inst) = 6 \<Longrightarrow> dis_system inst = rv_op_csrrsi"
  "fld 12 3 (lo32 inst) = 7 \<Longrightarrow> dis_system inst = rv_op_csrrci"
  by (simp_all add: dis_system_def selectors)

lemma shows_system:
  assumes "fld 0 7 (lo32 inst) = 0x73" "decode_system (lo32 inst) = Some i"
  shows "shown (disasm_raw pc inst) = Some i"
proof (cases "fld 12 3 (lo32 inst) = 0")
  case True
  then show ?thesis
    using assms by (auto simp: decode_system_def Let_def major_opcode priv_opcode shows_priv
        split: if_splits)
next
  case False
  then show ?thesis
    using assms by (simp add: decode_system_def Let_def major_opcode csr_opcode shows_csr
        split: if_splits)
qed

text \<open>The immediate of \<open>fence\<close> is not decoded by the simulator.\<close>

lemma decode_opcodes:
  "decode w = Some i \<Longrightarrow>
     fld 0 7 w \<in> {0x37, 0x17, 0x6f, 0x67, 0x63, 0x03, 0x23, 0x13, 0x33, 0x0f, 0x73}"
  by (simp add: decode_def Let_def split: if_splits)

lemma raw_shows_decoded:
  assumes d: "decode (lo32 inst) = Some i"
    and f: "fld 0 7 (lo32 inst) = 0x0f \<Longrightarrow> fld 12 3 (lo32 inst) = 0 \<or> fld 12 3 (lo32 inst) = 1"
  shows "shown (disasm_raw pc inst) = Some i"
  using decode_opcodes [OF d]
proof (elim insertE emptyE)
  assume *: "fld 0 7 (lo32 inst) = 0x67"
  with d show ?thesis by (simp add: decode_def Let_def shows_jumps split: if_splits)
next
  assume *: "fld 0 7 (lo32 inst) = 0x63"
  with d obtain b where "branch_op_of (fld 12 3 (lo32 inst)) = Some b"
    "i = Branch b (unat (fld 15 5 (lo32 inst))) (unat (fld 20 5 (lo32 inst))) (imm_B (lo32 inst))"
    by (auto simp: decode_def Let_def)
  with * show ?thesis by (simp add: shows_branch major_opcode branch_code)
next
  assume *: "fld 0 7 (lo32 inst) = 0x03"
  with d obtain l where "load_op_of (fld 12 3 (lo32 inst)) = Some l"
    "i = Load l (unat (fld 7 5 (lo32 inst))) (unat (fld 15 5 (lo32 inst))) (imm_I (lo32 inst))"
    by (auto simp: decode_def Let_def)
  with * show ?thesis by (simp add: shows_load major_opcode load_code)
next
  assume *: "fld 0 7 (lo32 inst) = 0x23"
  with d obtain s where "store_op_of (fld 12 3 (lo32 inst)) = Some s"
    "i = Store s (unat (fld 20 5 (lo32 inst))) (unat (fld 15 5 (lo32 inst))) (imm_S (lo32 inst))"
    by (auto simp: decode_def Let_def)
  with * show ?thesis by (simp add: shows_store major_opcode store_code)
next
  assume *: "fld 0 7 (lo32 inst) = 0x13"
  with d obtain a where a: "imm_op_of (fld 12 3 (lo32 inst)) (fld 25 7 (lo32 inst)) = Some a"
    "i = OpImm a (unat (fld 7 5 (lo32 inst))) (unat (fld 15 5 (lo32 inst)))
       (if is_shift a then fld 20 5 (lo32 inst) else imm_I (lo32 inst))"
    by (auto simp: decode_def Let_def)
  with * show ?thesis
    using imm_code [OF a(1)] shift_amount [OF a(1)] by (simp add: shows_imm major_opcode)
next
  assume *: "fld 0 7 (lo32 inst) = 0x33"
  with d obtain a where "reg_op_of (fld 12 3 (lo32 inst)) (fld 25 7 (lo32 inst)) = Some a"
    "i = Op a (unat (fld 7 5 (lo32 inst))) (unat (fld 15 5 (lo32 inst)))
       (unat (fld 20 5 (lo32 inst)))"
    by (auto simp: decode_def Let_def)
  with * show ?thesis by (simp add: shows_reg major_opcode reg_code)
next
  assume *: "fld 0 7 (lo32 inst) = 0x73"
  with d show ?thesis using shows_system [OF *] by (simp add: decode_def Let_def)
qed (use d f in \<open>simp_all add: decode_def Let_def shows_upper shows_jumps shows_fence\<close>)

lemma shows_decoded:
  assumes "decode (lo32 inst) = Some i"
    and "fld 0 7 (lo32 inst) = 0x0f \<Longrightarrow> fld 12 3 (lo32 inst) = 0 \<or> fld 12 3 (lo32 inst) = 1"
  shows "shown (disasm_decode rv32 pc inst) = Some (as_printed i)"
  using lift_keeps_meaning [OF raw_shows_decoded [OF assms]] by (simp add: disasm_decode_raw)

end
