(* ===== verification/Discomp.thy ===== *)
theory Discomp
  imports Disagree
begin

text \<open>
  The compressed codes: what the disassembler shows for one has the effect the RVC tables
  give it. A code whose immediate is zero where the manual has a hint, or an \<open>andi\<close> with
  zero, is shown as \<open>illegal\<close>.
\<close>

subsection \<open>What is shown for each operation\<close>

lemma raw_compressed:
  "disasm_raw pc inst =
     (let r = opcode_data ! opcode_of rv32 inst;
          d = operands_base (op_codec r) inst
                ((dec_init pc inst)\<lparr>dec_op := opcode_of rv32 inst, dec_codec := op_codec r\<rparr>);
          t = decomp_rv32 r
      in if t = rv_op_illegal then d
         else if decomp_data r AND rvcd_imm_nz \<noteq> 0 \<and> dec_imm d = 0 then d\<lparr>dec_op := rv_op_illegal\<rparr>
         else d\<lparr>dec_op := t, dec_codec := op_codec (opcode_data ! t)\<rparr>)"
  by (simp add: disasm_raw_def decode_inst_opcode_def decode_inst_operands_def Let_def
      decode_inst_decompress_def decomp_op_def dec_init_def)

lemma unat_creg [simp]: "unat (ucast (fld lo 3 w + 8) :: u8) = creg lo w" for w :: i32
proof -
  have "unat (fld lo 3 w) < 8"
    using unat_take_bit_less [of 3 "drop_bit lo w"] by (simp add: fld_def)
  then show ?thesis by (simp add: creg_def unsigned_ucast_eq unat_word_ariths take_bit_nat_eq_self)
qed

lemmas comp_simps =
  raw_compressed lookup operands_base_def operands_compressed_def dec_init_def shown_simps
  rvcd_imm_nz_def rvcd_imm_nz_hint_def Let_def

lemma shows_c0:
  "opcode_of rv32 inst = rv_op_c_addi4spn \<Longrightarrow> uimm_addi4spn (lo32 inst) \<noteq> 0 \<Longrightarrow>
     shown (disasm_raw pc inst) = Some (OpImm A_add (creg 2 (lo32 inst)) 2 (uimm_addi4spn (lo32 inst)))"
  "opcode_of rv32 inst = rv_op_c_lw \<Longrightarrow> shown (disasm_raw pc inst) =
     Some (Load L_w (creg 2 (lo32 inst)) (creg 7 (lo32 inst)) (uimm_lw (lo32 inst)))"
  "opcode_of rv32 inst = rv_op_c_sw \<Longrightarrow> shown (disasm_raw pc inst) =
     Some (Store S_w (creg 2 (lo32 inst)) (creg 7 (lo32 inst)) (uimm_lw (lo32 inst)))"
  by (simp_all add: comp_simps)

lemma shows_c1:
  "opcode_of rv32 inst = rv_op_c_nop \<Longrightarrow> shown (disasm_raw pc inst) = Some nop"
  "opcode_of rv32 inst = rv_op_c_addi \<Longrightarrow> shown (disasm_raw pc inst) =
     Some (OpImm A_add (unat (fld 7 5 (lo32 inst))) (unat (fld 7 5 (lo32 inst))) (imm_ci (lo32 inst)))"
  "opcode_of rv32 inst = rv_op_c_jal \<Longrightarrow> shown (disasm_raw pc inst) = Some (Jal 1 (imm_cj (lo32 inst)))"
  "opcode_of rv32 inst = rv_op_c_li \<Longrightarrow> shown (disasm_raw pc inst) =
     Some (OpImm A_add (unat (fld 7 5 (lo32 inst))) 0 (imm_ci (lo32 inst)))"
  "opcode_of rv32 inst = rv_op_c_addi16sp \<Longrightarrow> imm_addi16sp (lo32 inst) \<noteq> 0 \<Longrightarrow>
     shown (disasm_raw pc inst) = Some (OpImm A_add 2 2 (imm_addi16sp (lo32 inst)))"
  "opcode_of rv32 inst = rv_op_c_lui \<Longrightarrow> imm_clui (lo32 inst) \<noteq> 0 \<Longrightarrow>
     shown (disasm_raw pc inst) = Some (Lui (unat (fld 7 5 (lo32 inst))) (imm_clui (lo32 inst)))"
  "opcode_of rv32 inst = rv_op_c_j \<Longrightarrow> shown (disasm_raw pc inst) = Some (Jal 0 (imm_cj (lo32 inst)))"
  "opcode_of rv32 inst = rv_op_c_beqz \<Longrightarrow> shown (disasm_raw pc inst) =
     Some (Branch B_eq (creg 7 (lo32 inst)) 0 (imm_cb (lo32 inst)))"
  "opcode_of rv32 inst = rv_op_c_bnez \<Longrightarrow> shown (disasm_raw pc inst) =
     Some (Branch B_ne (creg 7 (lo32 inst)) 0 (imm_cb (lo32 inst)))"
  by (simp_all add: comp_simps nop_def)

text \<open>A zero immediate makes the disassembler print \<open>illegal\<close>.\<close>

lemma shows_c_imm:
  "opcode_of rv32 inst = rv_op_c_andi \<Longrightarrow> imm_ci (lo32 inst) = 0 \<Longrightarrow>
     dec_op (disasm_raw pc inst) = rv_op_illegal"
  "opcode_of rv32 inst = rv_op_c_andi \<Longrightarrow> imm_ci (lo32 inst) \<noteq> 0 \<Longrightarrow> shown (disasm_raw pc inst) =
     Some (OpImm A_and (creg 7 (lo32 inst)) (creg 7 (lo32 inst)) (imm_ci (lo32 inst)))"
  "opcode_of rv32 inst = rv_op_c_srli \<Longrightarrow> \<not> bit (lo32 inst) 12 \<Longrightarrow>
     fld 2 5 (lo32 inst) = 0 \<Longrightarrow>
     dec_op (disasm_raw pc inst) = rv_op_illegal"
  "opcode_of rv32 inst = rv_op_c_srli \<Longrightarrow> \<not> bit (lo32 inst) 12 \<Longrightarrow>
     fld 2 5 (lo32 inst) \<noteq> 0 \<Longrightarrow> shown (disasm_raw pc inst) =
     Some (OpImm A_srl (creg 7 (lo32 inst)) (creg 7 (lo32 inst)) (fld 2 5 (lo32 inst)))"
  "opcode_of rv32 inst = rv_op_c_srai \<Longrightarrow> \<not> bit (lo32 inst) 12 \<Longrightarrow>
     fld 2 5 (lo32 inst) = 0 \<Longrightarrow>
     dec_op (disasm_raw pc inst) = rv_op_illegal"
  "opcode_of rv32 inst = rv_op_c_srai \<Longrightarrow> \<not> bit (lo32 inst) 12 \<Longrightarrow>
     fld 2 5 (lo32 inst) \<noteq> 0 \<Longrightarrow> shown (disasm_raw pc inst) =
     Some (OpImm A_sra (creg 7 (lo32 inst)) (creg 7 (lo32 inst)) (fld 2 5 (lo32 inst)))"
  "opcode_of rv32 inst = rv_op_c_slli \<Longrightarrow> \<not> bit (lo32 inst) 12 \<Longrightarrow>
     fld 2 5 (lo32 inst) = 0 \<Longrightarrow>
     dec_op (disasm_raw pc inst) = rv_op_illegal"
  "opcode_of rv32 inst = rv_op_c_slli \<Longrightarrow> \<not> bit (lo32 inst) 12 \<Longrightarrow>
     fld 2 5 (lo32 inst) \<noteq> 0 \<Longrightarrow> shown (disasm_raw pc inst) =
     Some (OpImm A_sll (unat (fld 7 5 (lo32 inst))) (unat (fld 7 5 (lo32 inst))) (fld 2 5 (lo32 inst)))"
  by (simp_all add: comp_simps operand_cimmsh6_small)

lemma shows_c_reg:
  "opcode_of rv32 inst = rv_op_c_sub \<Longrightarrow> shown (disasm_raw pc inst) =
     Some (Op A_sub (creg 7 (lo32 inst)) (creg 7 (lo32 inst)) (creg 2 (lo32 inst)))"
  "opcode_of rv32 inst = rv_op_c_xor \<Longrightarrow> shown (disasm_raw pc inst) =
     Some (Op A_xor (creg 7 (lo32 inst)) (creg 7 (lo32 inst)) (creg 2 (lo32 inst)))"
  "opcode_of rv32 inst = rv_op_c_or \<Longrightarrow> shown (disasm_raw pc inst) =
     Some (Op A_or (creg 7 (lo32 inst)) (creg 7 (lo32 inst)) (creg 2 (lo32 inst)))"
  "opcode_of rv32 inst = rv_op_c_and \<Longrightarrow> shown (disasm_raw pc inst) =
     Some (Op A_and (creg 7 (lo32 inst)) (creg 7 (lo32 inst)) (creg 2 (lo32 inst)))"
  by (simp_all add: comp_simps)

lemma shows_c2:
  "opcode_of rv32 inst = rv_op_c_lwsp \<Longrightarrow> shown (disasm_raw pc inst) =
     Some (Load L_w (unat (fld 7 5 (lo32 inst))) 2 (uimm_lwsp (lo32 inst)))"
  "opcode_of rv32 inst = rv_op_c_swsp \<Longrightarrow> shown (disasm_raw pc inst) =
     Some (Store S_w (unat (fld 2 5 (lo32 inst))) 2 (uimm_swsp (lo32 inst)))"
  "opcode_of rv32 inst = rv_op_c_jr \<Longrightarrow> shown (disasm_raw pc inst) =
     Some (Jalr 0 (unat (fld 7 5 (lo32 inst))) 0)"
  "opcode_of rv32 inst = rv_op_c_mv \<Longrightarrow> shown (disasm_raw pc inst) =
     Some (OpImm A_add (unat (fld 7 5 (lo32 inst))) (unat (fld 2 5 (lo32 inst))) 0)"
  "opcode_of rv32 inst = rv_op_c_ebreak \<Longrightarrow> shown (disasm_raw pc inst) = Some Ebreak"
  "opcode_of rv32 inst = rv_op_c_jalr \<Longrightarrow> shown (disasm_raw pc inst) =
     Some (Jalr 1 (unat (fld 7 5 (lo32 inst))) 0)"
  "opcode_of rv32 inst = rv_op_c_add \<Longrightarrow> shown (disasm_raw pc inst) =
     Some (Op A_add (unat (fld 7 5 (lo32 inst))) (unat (fld 7 5 (lo32 inst)))
       (unat (fld 2 5 (lo32 inst))))"
  by (simp_all add: comp_simps)

subsection \<open>The operation of a compressed code\<close>

lemma quadrant_opcode:
  "fld 0 2 (lo32 inst) = 0 \<Longrightarrow> opcode_of isa inst = dis_quadrant0 isa inst"
  "fld 0 2 (lo32 inst) = 1 \<Longrightarrow> opcode_of isa inst = dis_quadrant1 isa inst"
  "fld 0 2 (lo32 inst) = 2 \<Longrightarrow> opcode_of isa inst = dis_quadrant2 isa inst"
  by (simp_all add: opcode_of_def low_selector)

lemma quadrant0_opcode:
  "fld 13 3 (lo32 inst) = 0 \<Longrightarrow> dis_quadrant0 rv32 inst = rv_op_c_addi4spn"
  "fld 13 3 (lo32 inst) = 2 \<Longrightarrow> dis_quadrant0 rv32 inst = rv_op_c_lw"
  "fld 13 3 (lo32 inst) = 6 \<Longrightarrow> dis_quadrant0 rv32 inst = rv_op_c_sw"
  by (simp_all add: dis_quadrant0_def selectors)

lemma bit_selectors:
  "drop_bit 10 inst AND 0x4 = (if bit (lo32 inst) 12 then 4 else 0)"
  "drop_bit 5 inst AND 0x3 = ucast (fld 5 2 (lo32 inst))"
  for inst :: i64
proof -
  have four: "bit (4 :: int) n \<longleftrightarrow> n = 2" for n
    using bit_push_bit_iff [of 2 "1 :: int" n] by (auto simp: bit_1_iff)
  show "drop_bit 10 inst AND 0x4 = (if bit (lo32 inst) 12 then 4 else 0)"
    by (rule bit_word_eqI) (auto simp: bit_simps four)
  show "drop_bit 5 inst AND 0x3 = ucast (fld 5 2 (lo32 inst))"
    using selected_field [of 5 2 inst] by (simp add: mask_eq_decr_exp)
qed

lemma ucast_up: "ucast x = (ucast y :: i64) \<longleftrightarrow> x = y" for x y :: i32
proof
  assume *: "ucast x = (ucast y :: i64)"
  have "bit x n = bit y n" if "n < 32" for n
    using arg_cong [OF *, of "\<lambda>w. bit w n"] that by (simp add: bit_simps)
  then show "x = y" by (auto intro: bit_word_eqI)
qed simp

lemma ucast_small [simp]:
  "ucast x = (0 :: i64) \<longleftrightarrow> x = 0" "ucast x = (1 :: i64) \<longleftrightarrow> x = 1"
  "ucast x = (2 :: i64) \<longleftrightarrow> x = 2"
  for x :: i32
  using ucast_up [of x 0] ucast_up [of x 1] ucast_up [of x 2] by simp_all

lemma quadrant1_opcode:
  "fld 13 3 (lo32 inst) = 0 \<Longrightarrow> dis_quadrant1 rv32 inst =
     (if fld 2 11 (lo32 inst) = 0 then rv_op_c_nop else rv_op_c_addi)"
  "fld 13 3 (lo32 inst) = 1 \<Longrightarrow> dis_quadrant1 rv32 inst = rv_op_c_jal"
  "fld 13 3 (lo32 inst) = 2 \<Longrightarrow> dis_quadrant1 rv32 inst = rv_op_c_li"
  "fld 13 3 (lo32 inst) = 3 \<Longrightarrow> dis_quadrant1 rv32 inst =
     (if fld 7 5 (lo32 inst) = 2 then rv_op_c_addi16sp else rv_op_c_lui)"
  "fld 13 3 (lo32 inst) = 5 \<Longrightarrow> dis_quadrant1 rv32 inst = rv_op_c_j"
  "fld 13 3 (lo32 inst) = 6 \<Longrightarrow> dis_quadrant1 rv32 inst = rv_op_c_beqz"
  "fld 13 3 (lo32 inst) = 7 \<Longrightarrow> dis_quadrant1 rv32 inst = rv_op_c_bnez"
  by (simp_all add: dis_quadrant1_def selectors)

lemma quadrant1_arith_opcode:
  assumes "fld 13 3 (lo32 inst) = 4"
  shows "fld 10 2 (lo32 inst) = 0 \<Longrightarrow> dis_quadrant1 rv32 inst = rv_op_c_srli"
    and "fld 10 2 (lo32 inst) = 1 \<Longrightarrow> dis_quadrant1 rv32 inst = rv_op_c_srai"
    and "fld 10 2 (lo32 inst) = 2 \<Longrightarrow> dis_quadrant1 rv32 inst = rv_op_c_andi"
    and "fld 10 2 (lo32 inst) = 3 \<Longrightarrow> \<not> bit (lo32 inst) 12 \<Longrightarrow> fld 5 2 (lo32 inst) = 0 \<Longrightarrow>
      dis_quadrant1 rv32 inst = rv_op_c_sub"
    and "fld 10 2 (lo32 inst) = 3 \<Longrightarrow> \<not> bit (lo32 inst) 12 \<Longrightarrow> fld 5 2 (lo32 inst) = 1 \<Longrightarrow>
      dis_quadrant1 rv32 inst = rv_op_c_xor"
    and "fld 10 2 (lo32 inst) = 3 \<Longrightarrow> \<not> bit (lo32 inst) 12 \<Longrightarrow> fld 5 2 (lo32 inst) = 2 \<Longrightarrow>
      dis_quadrant1 rv32 inst = rv_op_c_or"
    and "fld 10 2 (lo32 inst) = 3 \<Longrightarrow> \<not> bit (lo32 inst) 12 \<Longrightarrow> fld 5 2 (lo32 inst) = 3 \<Longrightarrow>
      dis_quadrant1 rv32 inst = rv_op_c_and"
  using assms by (simp_all add: dis_quadrant1_def selectors bit_selectors)

lemma quadrant2_opcode:
  "fld 13 3 (lo32 inst) = 0 \<Longrightarrow> dis_quadrant2 rv32 inst = rv_op_c_slli"
  "fld 13 3 (lo32 inst) = 2 \<Longrightarrow> dis_quadrant2 rv32 inst = rv_op_c_lwsp"
  "fld 13 3 (lo32 inst) = 4 \<Longrightarrow> dis_quadrant2 rv32 inst =
     (if bit (lo32 inst) 12
      then (if fld 2 5 (lo32 inst) = 0
            then (if fld 7 5 (lo32 inst) = 0 then rv_op_c_ebreak else rv_op_c_jalr)
            else rv_op_c_add)
      else (if fld 2 5 (lo32 inst) = 0 then rv_op_c_jr else rv_op_c_mv))"
  "fld 13 3 (lo32 inst) = 6 \<Longrightarrow> dis_quadrant2 rv32 inst = rv_op_c_swsp"
  by (simp_all add: dis_quadrant2_def selectors single_bit_tests)

subsection \<open>The same effect\<close>

text \<open>
  The hints of the manual, which write \<open>x0\<close>, and \<open>c.mv\<close>, printed as \<open>mv\<close>, are shown as
  other instructions with the same effect.
\<close>

definition same_effect :: "insn \<Rightarrow> insn \<Rightarrow> bool" where
  "same_effect i j \<longleftrightarrow> (\<forall>len s. xreg s 0 = 0 \<longrightarrow> isa_exec len i s = isa_exec len j s)"

lemma same_effect_refl [simp]: "same_effect i i"
  by (simp add: same_effect_def)

lemma same_effect_x0:
  "same_effect (OpImm a 0 r imm) nop" "same_effect (Lui 0 imm) nop"
  by (simp_all add: same_effect_def nop_def set_x_def)

lemma same_effect_mv: "same_effect (OpImm A_add rd r 0) (Op A_add rd 0 r)"
  by (simp add: same_effect_def alu_def)

definition zero_immediate :: "insn \<Rightarrow> bool" where
  "zero_immediate i = (case i of
     OpImm a _ _ imm \<Rightarrow> imm = 0 \<and> (a = A_and \<or> a = A_sll \<or> a = A_srl \<or> a = A_sra)
   | _ \<Rightarrow> False)"

lemma as_printed_simps [simp]:
  "as_printed (OpImm a r q imm) = OpImm a r q imm" "as_printed (Op a r q v) = Op a r q v"
  "as_printed (Lui r imm) = Lui r imm" "as_printed (Jal r imm) = Jal r imm"
  "as_printed (Jalr r q 0) = Jalr r q 0" "as_printed (Branch b r q imm) = Branch b r q imm"
  "as_printed (Load l r q imm) = Load l r q imm" "as_printed (Store t r q imm) = Store t r q imm"
  "as_printed Ebreak = Ebreak" "as_printed nop = nop"
  by (simp_all add: as_printed_def nop_def)

definition shows_like :: "rv_decode \<Rightarrow> insn \<Rightarrow> bool" where
  "shows_like d i =
     (if zero_immediate i then dec_op d = rv_op_illegal
      else (case shown d of None \<Rightarrow> False | Some j \<Rightarrow> same_effect j i \<and> as_printed j = j))"

lemma shows_like_lift:
  assumes "shows_like d i"
  shows "shows_like (decode_inst_lift_pseudo d) i"
proof (cases "zero_immediate i")
  case True
  then show ?thesis
    using assms by (simp add: shows_like_def decode_inst_lift_pseudo_def lookup)
next
  case False
  then obtain j where "shown d = Some j" "same_effect j i" "as_printed j = j"
    using assms by (auto simp: shows_like_def split: option.splits)
  then show ?thesis
    using False lift_keeps_meaning [of d j] by (simp add: shows_like_def)
qed

subsection \<open>The reference reads the low 16 bits\<close>

lemma fld_low16: "lo + len \<le> 16 \<Longrightarrow> fld lo len (ucast (ucast inst :: u16)) = fld lo len (lo32 inst)"
  for inst :: i64
  by (rule bit_word_eqI) (auto simp: bits bit_simps)

lemma rvc_spec_low16:
  "rvc_spec (ucast inst) =
     (let w = lo32 inst
      in if fld 0 2 w = 0 then rvc0 w else if fld 0 2 w = 1 then rvc1 w
         else if fld 0 2 w = 2 then rvc2 w else None)"
proof -
  define v where "v = (ucast (ucast inst :: u16) :: i32)"
  have f: "fld lo len v = fld lo len (lo32 inst)" if "lo + len \<le> 16" for lo len
    using fld_low16 [OF that] by (simp add: v_def)
  have b: "bit v 12 = bit (lo32 inst) 12"
    by (simp add: v_def bit_simps)
  have imms: "imm_ci v = imm_ci (lo32 inst)" "imm_clui v = imm_clui (lo32 inst)"
    "imm_cj v = imm_cj (lo32 inst)" "imm_cb v = imm_cb (lo32 inst)"
    "imm_addi16sp v = imm_addi16sp (lo32 inst)" "uimm_addi4spn v = uimm_addi4spn (lo32 inst)"
    "uimm_lw v = uimm_lw (lo32 inst)" "uimm_lwsp v = uimm_lwsp (lo32 inst)"
    "uimm_swsp v = uimm_swsp (lo32 inst)"
    by (simp_all add: imm_ci_def imm_clui_def imm_cj_def imm_cb_def imm_addi16sp_def
        uimm_addi4spn_def uimm_lw_def uimm_lwsp_def uimm_swsp_def f)
  have r: "creg 2 v = creg 2 (lo32 inst)" "creg 7 v = creg 7 (lo32 inst)"
    by (simp_all add: creg_def f)
  show ?thesis
    by (simp add: rvc_spec_def v_def [symmetric] rvc0_def rvc1_def rvc2_def rvc1_arith_def
        rvc1_lui_def f b r imms Let_def cong: if_cong)
qed

subsection \<open>Agreement\<close>

lemma word32_zero_iff: "a = 0 \<longleftrightarrow> list_all (\<lambda>n. \<not> bit a n) bit_positions" for a :: i32
  using word32_eqI [of a 0] by (auto simp: list_all_iff)

lemma imm_zero:
  "uimm_addi4spn w = 0 \<longleftrightarrow> fld 5 8 w = 0" "imm_addi16sp w = 0 \<longleftrightarrow> imm_ci w = 0"
  "imm_clui w = 0 \<longleftrightarrow> imm_ci w = 0"
  by (simp_all only: word32_zero_iff)
    (auto simp: uimm_addi4spn_def imm_addi16sp_def imm_clui_def imm_ci_def imm_bits)

lemma fld_values: "fld lo len w \<in> of_nat ` set [0..<2 ^ len]" for w :: i32
proof (rule image_eqI [of _ _ "unat (fld lo len w)"])
  show "unat (fld lo len w) \<in> set [0..<2 ^ len]"
    using unat_take_bit_less [of len "drop_bit lo w"] by (simp add: fld_def)
qed simp

lemma fld_exhaust:
  "fld lo 2 w \<in> {0, 1, 2, 3}" "fld lo 3 w \<in> {0, 1, 2, 3, 4, 5, 6, 7}" for w :: i32
  using fld_values [of lo 2 w] fld_values [of lo 3 w] by (simp_all add: upt_rec)

lemma shows_like_same [simp]:
  "shown d = Some i \<Longrightarrow> \<not> zero_immediate i \<Longrightarrow> as_printed i = i \<Longrightarrow> shows_like d i"
  by (simp add: shows_like_def)

lemma agree0:
  assumes "fld 0 2 (lo32 inst) = 0" "rvc0 (lo32 inst) = Some i"
  shows "shows_like (disasm_raw pc inst) i"
  using assms
  by (auto simp: rvc0_def quadrant_opcode quadrant0_opcode shows_c0 imm_zero zero_immediate_def
      split: if_splits)

lemma agree1_arith:
  assumes "fld 0 2 (lo32 inst) = 1" "fld 13 3 (lo32 inst) = 4" "rvc1_arith (lo32 inst) = Some i"
  shows "shows_like (disasm_raw pc inst) i"
proof -
  note op = quadrant1_arith_opcode [OF assms(2)]
  have q: "fld 10 2 (lo32 inst) \<in> {0, 1, 2, 3}" "fld 5 2 (lo32 inst) \<in> {0, 1, 2, 3}"
    by (rule fld_exhaust)+
  show ?thesis
  proof (cases "fld 10 2 (lo32 inst) = 3")
    case False
    then show ?thesis
      using q(1) assms op
      by (elim insertE emptyE; cases "fld 2 5 (lo32 inst) = 0"; cases "imm_ci (lo32 inst) = 0";
          auto simp: rvc1_arith_def Let_def quadrant_opcode shows_c_imm zero_immediate_def
          shows_like_def split: if_splits)
  next
    case True
    then show ?thesis
      using q(2) assms op
      by (elim insertE emptyE; auto simp: rvc1_arith_def Let_def quadrant_opcode shows_c_reg
          zero_immediate_def split: if_splits)
  qed
qed

lemma zero_immediate_simps [simp]:
  "zero_immediate (OpImm a r q imm) \<longleftrightarrow>
     imm = 0 \<and> (a = A_and \<or> a = A_sll \<or> a = A_srl \<or> a = A_sra)"
  "\<not> zero_immediate nop" "\<not> zero_immediate (Lui r imm)" "\<not> zero_immediate (Jal r imm)"
  "\<not> zero_immediate (Jalr r q imm)" "\<not> zero_immediate (Branch b r q imm)"
  by (simp_all add: zero_immediate_def nop_def)

lemma unat_i32_2: "unat x = 2 \<longleftrightarrow> x = 2" for x :: i32
  using word_unat_eq_iff [of x 2] by simp

lemma agree1_addi:
  assumes "fld 0 2 (lo32 inst) = 1" "fld 13 3 (lo32 inst) = 0" "rvc1 (lo32 inst) = Some i"
  shows "shows_like (disasm_raw pc inst) i"
proof (cases "fld 2 11 (lo32 inst) = 0")
  case True
  have "fld 7 5 (lo32 inst) = drop_bit 5 (take_bit 10 (fld 2 11 (lo32 inst)))"
    by (rule word32_eqI) (simp add: bits bit_simps bit_positions_def)
  then show ?thesis
    using True assms
    by (auto simp: rvc1_def Let_def quadrant_opcode quadrant1_opcode shows_c1)
next
  case False
  then show ?thesis
    using assms
    by (auto simp: rvc1_def Let_def quadrant_opcode quadrant1_opcode shows_c1 shows_like_def
        same_effect_x0 unat_eq_0 split: if_splits)
qed

lemma agree1_lui:
  assumes "fld 0 2 (lo32 inst) = 1" "fld 13 3 (lo32 inst) = 3" "rvc1_lui (lo32 inst) = Some i"
  shows "shows_like (disasm_raw pc inst) i"
proof (cases "fld 7 5 (lo32 inst) = 2")
  case True
  then show ?thesis
    using assms
    by (auto simp: rvc1_lui_def Let_def quadrant_opcode quadrant1_opcode shows_c1 imm_zero
        split: if_splits)
next
  case False
  then show ?thesis
    using assms
    by (auto simp: rvc1_lui_def Let_def quadrant_opcode quadrant1_opcode shows_c1 imm_zero
        shows_like_def same_effect_x0 unat_eq_0 unat_i32_2 split: if_splits)
qed

lemma agree1:
  assumes "fld 0 2 (lo32 inst) = 1" "rvc1 (lo32 inst) = Some i"
  shows "shows_like (disasm_raw pc inst) i"
proof -
  have "fld 13 3 (lo32 inst) \<in> {0, 1, 2, 3, 4, 5, 6, 7}" by (rule fld_exhaust)
  then show ?thesis
  proof (elim insertE emptyE)
    assume "fld 13 3 (lo32 inst) = 0"
    then show ?thesis using assms agree1_addi by simp
  next
    assume "fld 13 3 (lo32 inst) = 3"
    then show ?thesis using assms agree1_lui by (simp add: rvc1_def Let_def)
  next
    assume "fld 13 3 (lo32 inst) = 4"
    then show ?thesis using assms agree1_arith by (simp add: rvc1_def Let_def)
  qed (use assms in \<open>auto simp: rvc1_def Let_def quadrant_opcode quadrant1_opcode shows_c1
        shows_like_def same_effect_x0 unat_eq_0 split: if_splits\<close>)
qed

lemma agree2:
  assumes "fld 0 2 (lo32 inst) = 2" "rvc2 (lo32 inst) = Some i"
  shows "shows_like (disasm_raw pc inst) i"
proof -
  have "fld 13 3 (lo32 inst) \<in> {0, 1, 2, 3, 4, 5, 6, 7}" by (rule fld_exhaust)
  then show ?thesis
    using assms
    by (elim insertE emptyE)
      (auto simp: rvc2_def Let_def quadrant_opcode quadrant2_opcode shows_c2 shows_c_imm
        shows_like_def same_effect_mv unat_eq_0 zero_immediate_def split: if_splits)
qed

lemma raw_shows_compressed:
  assumes "rvc_spec (ucast inst) = Some i"
  shows "shows_like (disasm_raw pc inst) i"
  using assms agree0 agree1 agree2 by (simp add: rvc_spec_low16 Let_def split: if_splits)

lemma shows_compressed:
  assumes "rvc_spec (ucast inst) = Some i"
  shows "shows_like (disasm_decode rv32 pc inst) i"
  using shows_like_lift [OF raw_shows_compressed [OF assms]] by (simp add: disasm_decode_raw)

end
