(* ===== verification/Disfmt.thy ===== *)
theory Disfmt
  imports Debug Disagree
begin

text \<open>
  The printing of the disassembler, \<open>tools/riscv-disas.c\<close>: \<open>append\<close>,
  \<open>decode_inst_format\<close> and \<open>disasm_inst\<close>. The buffer is the string before its terminator, so
  a string as long as the buffer is one whose terminator is written behind it. The padding
  loops are partial: with a buffer shorter than the column they never end.
\<close>

subsection \<open>The conversions of \<open>snprintf\<close>\<close>

definition digit_char :: "nat \<Rightarrow> char" where
  "digit_char d = (if d < 10 then char_of (48 + d) else char_of (87 + d))"

fun show_nat :: "nat \<Rightarrow> nat \<Rightarrow> string" where
  "show_nat b n =
     (if b < 2 \<or> n < b then [digit_char n] else show_nat b (n div b) @ [digit_char (n mod b)])"

declare show_nat.simps [simp del]

definition show_int :: "int \<Rightarrow> string" where
  "show_int i = (if i < 0 then CHR ''-'' # show_nat 10 (nat (- i)) else show_nat 10 (nat i))"

definition zero_pad :: "nat \<Rightarrow> string \<Rightarrow> string" where
  "zero_pad w s = replicate (w - length s) (CHR ''0'') @ s"

definition snprintf :: "nat \<Rightarrow> string \<Rightarrow> string" where
  "snprintf n s = take (n - 1) s"

lemma length_show_nat: "2 \<le> b \<Longrightarrow> 0 < d \<Longrightarrow> length (show_nat b n) \<le> d \<longleftrightarrow> n < b ^ d"
proof (induction b n arbitrary: d rule: show_nat.induct)
  case (1 b n)
  show ?case
  proof (cases "n < b")
    case True
    have "b ^ 1 \<le> b ^ d" using 1 by (intro power_increasing) auto
    then show ?thesis using True 1 by (simp add: show_nat.simps)
  next
    case False
    then have len: "length (show_nat b n) = Suc (length (show_nat b (n div b)))"
      using 1 by (subst show_nat.simps) simp
    obtain e where e: "d = Suc e" using 1 by (cases d) auto
    show ?thesis
    proof (cases "e = 0")
      case True
      have "0 < length (show_nat b (n div b))" by (subst show_nat.simps) simp
      then show ?thesis using True False e len by simp
    next
      case e0: False
      then have "length (show_nat b (n div b)) \<le> e \<longleftrightarrow> n div b < b ^ e"
        using 1 False by simp
      then show ?thesis
        using 1 e len by (simp add: div_less_iff_less_mult mult.commute)
    qed
  qed
qed

lemma length_show_int: "- (2 ^ 31) \<le> i \<Longrightarrow> i < 2 ^ 31 \<Longrightarrow> length (show_int i) \<le> 11"
  using length_show_nat [of 10 10 "nat (- i)"] length_show_nat [of 10 10 "nat i"]
  by (auto simp: show_int_def)

subsection \<open>Appending to the buffer\<close>

definition append_buf :: "string \<Rightarrow> string \<Rightarrow> nat \<Rightarrow> string" where
  "append_buf s1 s2 n =
     (let l1 = length s1 in if l1 + 1 < n then s1 @ take (n - l1) s2 else s1)"

text \<open>\<open>while (strlen(buf) < tab) append(buf, " ", buflen)\<close>\<close>

partial_function (option) pad_to :: "nat \<Rightarrow> nat \<Rightarrow> string \<Rightarrow> string option" where
  "pad_to n tab buf =
     (if length buf < tab then pad_to n tab (append_buf buf '' '' n) else Some buf)"

subsection \<open>The parts of an instruction\<close>

definition rm_name :: "u8 \<Rightarrow> string" where
  "rm_name rm =
     switch rm
       [(rv_rm_rne, ''rne''), (rv_rm_rtz, ''rtz''), (rv_rm_rdn, ''rdn''), (rv_rm_rup, ''rup''),
        (rv_rm_rmm, ''rmm''), (rv_rm_dyn, ''dyn'')] ''inv''"

definition append_fence :: "u8 \<Rightarrow> string \<Rightarrow> nat \<Rightarrow> string" where
  "append_fence v buf n =
     (let buf = (if v AND rv_fence_i \<noteq> 0 then append_buf buf ''i'' n else buf);
          buf = (if v AND rv_fence_o \<noteq> 0 then append_buf buf ''o'' n else buf);
          buf = (if v AND rv_fence_r \<noteq> 0 then append_buf buf ''r'' n else buf)
      in if v AND rv_fence_w \<noteq> 0 then append_buf buf ''w'' n else buf)"

definition csr_text :: "i32 \<Rightarrow> string" where
  "csr_text imm =
     (case csr_name (imm AND 0xfff) of
        Some name \<Rightarrow> name
      | None \<Rightarrow> snprintf 64 (''0x'' @ zero_pad 3 (show_nat 16 (unat (imm AND 0xfff)))))"

definition target :: "rv_decode \<Rightarrow> i64" where
  "target dec = dec_pc dec + scast (dec_imm dec)"

definition append_offset :: "nat \<Rightarrow> nat \<Rightarrow> rv_decode \<Rightarrow> string \<Rightarrow> string option" where
  "append_offset n tab dec buf =
     Option.bind (pad_to n (tab * 2) (append_buf buf (snprintf 64 (show_int (sint (dec_imm dec)))) n))
       (\<lambda>buf. Some (append_buf buf (snprintf 64 (''# 0x'' @ show_nat 16 (unat (target dec)))) n))"

definition format_char :: "nat \<Rightarrow> nat \<Rightarrow> rv_decode \<Rightarrow> char \<Rightarrow> string \<Rightarrow> string option" where
  "format_char n tab dec c buf =
     (if c = CHR ''O'' then Some (append_buf buf (op_name (opcode_data ! dec_op dec)) n)
      else if c = CHR ''('' then Some (append_buf buf ''('' n)
      else if c = CHR '','' then Some (append_buf buf '','' n)
      else if c = CHR '')'' then Some (append_buf buf '')'' n)
      else if c = CHR ''0'' then Some (append_buf buf (rv_ireg_name_sym ! unat (dec_rd dec)) n)
      else if c = CHR ''1'' then Some (append_buf buf (rv_ireg_name_sym ! unat (dec_rs1 dec)) n)
      else if c = CHR ''2'' then Some (append_buf buf (rv_ireg_name_sym ! unat (dec_rs2 dec)) n)
      else if c = CHR ''3'' then Some (append_buf buf (rv_freg_name_sym ! unat (dec_rd dec)) n)
      else if c = CHR ''4'' then Some (append_buf buf (rv_freg_name_sym ! unat (dec_rs1 dec)) n)
      else if c = CHR ''5'' then Some (append_buf buf (rv_freg_name_sym ! unat (dec_rs2 dec)) n)
      else if c = CHR ''6'' then Some (append_buf buf (rv_freg_name_sym ! unat (dec_rs3 dec)) n)
      else if c = CHR ''7'' then Some (append_buf buf (snprintf 64 (show_int (uint (dec_rs1 dec)))) n)
      else if c = CHR ''i'' then Some (append_buf buf (snprintf 64 (show_int (sint (dec_imm dec)))) n)
      else if c = CHR ''o'' then append_offset n tab dec buf
      else if c = CHR ''c'' then Some (append_buf buf (csr_text (dec_imm dec)) n)
      else if c = CHR ''r'' then Some (append_buf buf (rm_name (dec_rm dec)) n)
      else if c = CHR ''p'' then Some (append_fence (dec_pred dec) buf n)
      else if c = CHR ''s'' then Some (append_fence (dec_succ dec) buf n)
      else if c = CHR 0x09 then pad_to n tab buf
      else if c = CHR ''A'' then Some (if dec_aq dec \<noteq> 0 then append_buf buf ''.aq'' n else buf)
      else if c = CHR ''R'' then Some (if dec_rl dec \<noteq> 0 then append_buf buf ''.rl'' n else buf)
      else Some buf)"

fun format_chars :: "nat \<Rightarrow> nat \<Rightarrow> rv_decode \<Rightarrow> string \<Rightarrow> string \<Rightarrow> string option" where
  "format_chars n tab dec [] buf = Some buf"
| "format_chars n tab dec (c # cs) buf =
     Option.bind (format_char n tab dec c buf) (format_chars n tab dec cs)"

definition inst_fmt :: "nat \<Rightarrow> i64 \<Rightarrow> nat \<Rightarrow> string" where
  "inst_fmt w v k = zero_pad w (show_nat 16 (unat v)) @ replicate k (CHR '' '')"

definition format_inst :: "nat \<Rightarrow> i64 \<Rightarrow> string" where
  "format_inst n inst =
     (let len = inst_length inst
      in if len = 2 then snprintf n (inst_fmt 4 (inst AND 0xffff) 14)
         else if len = 4 then snprintf n (inst_fmt 8 (inst AND 0xffffffff) 10)
         else if len = 6 then snprintf n (inst_fmt 12 (inst AND 0xffffffffffff) 6)
         else snprintf n (inst_fmt 16 (inst AND 0xffffffffffffffff) 2))"

definition decode_inst_format :: "nat \<Rightarrow> nat \<Rightarrow> rv_decode \<Rightarrow> string option" where
  "decode_inst_format n tab dec =
     format_chars n tab dec (op_format (opcode_data ! dec_op dec)) (format_inst n (dec_inst dec))"

definition disasm_inst :: "nat \<Rightarrow> rv_isa \<Rightarrow> i64 \<Rightarrow> i64 \<Rightarrow> string option" where
  "disasm_inst buflen isa addr inst =
     decode_inst_format buflen 32 (disasm_decode isa addr inst)"

subsection \<open>Fetching an instruction\<close>

definition inst_byte :: "u8 list \<Rightarrow> nat \<Rightarrow> i64" where
  "inst_byte data k = push_bit (8 * k) (ucast (data ! k))"

definition inst_fetch :: "u8 list \<Rightarrow> i64 \<times> nat" where
  "inst_fetch data =
     (let inst = inst_byte data 1 OR inst_byte data 0;
          len = inst_length inst;
          inst = (if 8 \<le> len then inst OR (inst_byte data 7 OR inst_byte data 6) else inst);
          inst = (if 6 \<le> len then inst OR (inst_byte data 5 OR inst_byte data 4) else inst);
          inst = (if 4 \<le> len then inst OR (inst_byte data 3 OR inst_byte data 2) else inst)
      in (inst, len))"

lemma inst_length_low: "inst_length (take_bit 7 w) = inst_length w"
  by (simp add: inst_length_def take_bit_eq_mask mask_eq_decr_exp and.assoc)

lemma inst_byte_low: "0 < k \<Longrightarrow> take_bit 7 (inst_byte data k) = 0"
  by (rule bit_word_eqI) (auto simp: inst_byte_def bit_simps)

text \<open>The length found in the first two bytes is that of the whole instruction.\<close>

lemma inst_fetch_length: "inst_length (fst (inst_fetch data)) = snd (inst_fetch data)"
  by (simp add: inst_fetch_def Let_def inst_length_low [of "_ OR _", symmetric]
      inst_byte_low)

subsection \<open>How long the parts are\<close>

lemma length_append_buf:
  "length (append_buf s1 s2 n) =
     (if length s1 + 1 < n then length s1 + min (n - length s1) (length s2) else length s1)"
  by (simp add: append_buf_def min_def)

lemma pad_to_fits: "tab < n \<Longrightarrow> pad_to n tab buf = Some (buf @ replicate (tab - length buf) (CHR '' ''))"
proof (induction "tab - length buf" arbitrary: buf)
  case 0
  then show ?case by (simp add: pad_to.simps)
next
  case (Suc k)
  then have "Suc (length buf) < n" by simp
  then have "append_buf buf '' '' n = buf @ '' ''"
    by (cases "n - length buf") (simp_all add: append_buf_def)
  moreover have "tab - length buf = Suc (tab - length (buf @ '' ''))"
    using Suc.hyps(2) by simp
  ultimately show ?case
    using Suc by (subst pad_to.simps) (simp add: replicate_append_same [symmetric])
qed

lemma length_snprintf [simp]: "length (snprintf n s) = min (n - 1) (length s)"
  by (simp add: snprintf_def min.commute)

lemma ireg_name_width: "r < 32 \<Longrightarrow> length (rv_ireg_name_sym ! r) \<le> 4"
  using nth_mem [of r rv_ireg_name_sym] by (auto simp: rv_ireg_name_sym_def)

lemma freg_name_width: "r < 32 \<Longrightarrow> length (rv_freg_name_sym ! r) \<le> 4"
  using nth_mem [of r rv_freg_name_sym] by (auto simp: rv_freg_name_sym_def)

lemma csr_name_width: "csr_name k = Some s \<Longrightarrow> length s \<le> 14"
proof -
  have "list_all (\<lambda>(k, s). length s \<le> 14) (csr_names_0 @ csr_names_100 @ csr_names_200)"
    by (simp add: csr_names_0_def csr_names_100_def csr_names_200_def)
  then show "csr_name k = Some s \<Longrightarrow> length s \<le> 14"
    unfolding csr_name_def by (auto simp: list_all_iff dest!: map_of_SomeD)
qed

lemma csr_text_width: "length (csr_text imm) \<le> 14"
proof (cases "csr_name (imm AND 0xfff)")
  case None
  have "imm AND 0xfff \<le> 0xfff" by (rule word_and_le1)
  then have "unat (imm AND 0xfff) < 16 ^ 3" by (simp add: word_le_nat_alt)
  then have "length (show_nat 16 (unat (imm AND 0xfff))) \<le> 3"
    by (simp add: length_show_nat)
  then show ?thesis using None by (simp add: csr_text_def zero_pad_def)
next
  case (Some name)
  then show ?thesis using csr_name_width by (simp add: csr_text_def)
qed

lemma rm_name_width: "length (rm_name rm) \<le> 3"
  by (simp add: rm_name_def)

lemma append_fence_width: "length (append_fence v buf n) \<le> length buf + 4"
  by (simp add: append_fence_def length_append_buf Let_def)

lemma imm_width: "length (show_int (sint imm)) \<le> 11" for imm :: i32
  using sint_range_size [of imm] by (intro length_show_int) (simp_all add: word_size)

lemma zimm_width: "length (show_int (uint r)) \<le> 3" for r :: u8
proof -
  have "unat r < 256" using unsigned_less [of r] by simp
  then show ?thesis by (simp add: show_int_def length_show_nat unat_eq_nat_uint [symmetric])
qed

subsection \<open>How long a printed instruction is\<close>

text \<open>The most a character of a format appends, and what of it needs the registers in range.\<close>

definition width :: "rv_opcode_data \<Rightarrow> char \<Rightarrow> nat" where
  "width r c =
     (if c = CHR ''O'' then length (op_name r)
      else if c \<in> set ''(,)'' then 1 else if c \<in> set ''0123456ps'' then 4
      else if c \<in> set ''7rAR'' then 3 else if c = CHR ''i'' then 11
      else if c = CHR ''c'' then 14 else 0)"

definition regs_in_range :: "rv_decode \<Rightarrow> bool" where
  "regs_in_range d \<longleftrightarrow>
     unat (dec_rd d) < 32 \<and> unat (dec_rs1 d) < 32 \<and> unat (dec_rs2 d) < 32 \<and> unat (dec_rs3 d) < 32"

lemma append_within:
  "length s2 \<le> k \<Longrightarrow> length (append_buf s1 s2 n) \<le> length s1 + k"
  by (auto simp: length_append_buf)

lemma some_if:
  "(P \<Longrightarrow> \<exists>b. x = Some b \<and> Q b) \<Longrightarrow> (\<not> P \<Longrightarrow> \<exists>b. y = Some b \<and> Q b) \<Longrightarrow>
     \<exists>b. (if P then x else y) = Some b \<and> Q b"
  by simp

lemma format_char_fits:
  assumes "c \<noteq> CHR ''o''" "regs_in_range d"
  shows "\<exists>buf'. format_char 80 32 d c buf = Some buf' \<and>
           length buf' \<le> max 32 (length buf + width (opcode_data ! dec_op d) c)"
proof (cases "c = CHR 0x09")
  case True
  then show ?thesis by (simp add: format_char_def pad_to_fits)
next
  case False
  have le: "length (append_buf buf s 80) \<le> max 32 (length buf + k)" if "length s \<le> k" for s k
    using append_within [OF that, of buf 80] by simp
  have one: "length (append_buf buf [x] 80) \<le> Suc (max 31 (length buf))" for x
    by (simp add: length_append_buf)
  have stay: "length buf \<le> max 32 (length buf + 3)" by simp
  have fence: "length (append_fence v buf 80) \<le> max 32 (length buf + 4)" for v
    using append_fence_width [of v buf 80] by simp
  show ?thesis
    unfolding format_char_def
    using assms False
    by (intro some_if)
      (simp_all add: width_def regs_in_range_def le one fence stay min_le_iff_disj ireg_name_width freg_name_width
        csr_text_width rm_name_width imm_width zimm_width)
qed

lemma format_chars_fit:
  assumes "CHR ''o'' \<notin> set cs" "regs_in_range d"
  shows "\<exists>buf'. format_chars 80 32 d cs buf = Some buf' \<and>
     length buf' \<le> max 32 (length buf) + (\<Sum>c\<leftarrow>cs. width (opcode_data ! dec_op d) c)"
  using assms(1)
proof (induction cs arbitrary: buf)
  case (Cons c cs)
  then obtain b where b: "format_char 80 32 d c buf = Some b"
    "length b \<le> max 32 (length buf + width (opcode_data ! dec_op d) c)"
    using format_char_fits [of c d buf] assms(2) by auto
  from Cons obtain b' where "format_chars 80 32 d cs b = Some b'"
    "length b' \<le> max 32 (length b) + (\<Sum>c\<leftarrow>cs. width (opcode_data ! dec_op d) c)" by auto
  with b show ?case by auto
qed simp

text \<open>The line starts with 18 characters.\<close>

lemma zero_pad_length: "0 < w \<Longrightarrow> unat v < 16 ^ w \<Longrightarrow> length (inst_fmt w v k) = w + k"
  using length_show_nat [of 16 w "unat v"] by (simp add: inst_fmt_def zero_pad_def)

lemma and_mask_bound: "unat (v AND mask k) < 2 ^ k" for v :: i64
  by (metis take_bit_eq_mask unat_take_bit_less)

lemma format_inst_length: "length (format_inst 80 inst) = 18"
proof -
  have "unat (inst AND 0xffff) < 16 ^ 4" "unat (inst AND 0xffffffff) < 16 ^ 8"
    "unat (inst AND 0xffffffffffff) < 16 ^ 12" "unat (inst AND 0xffffffffffffffff) < 16 ^ 16"
    using and_mask_bound [of inst 16] and_mask_bound [of inst 32] and_mask_bound [of inst 48]
      and_mask_bound [of inst 64] by (simp_all add: mask_eq_decr_exp)
  then show ?thesis by (simp add: format_inst_def zero_pad_length Let_def)
qed

subsection \<open>The decoded instruction is in range\<close>

definition row_fits :: "rv_opcode_data \<Rightarrow> bool" where
  "row_fits r \<longleftrightarrow>
     (let f = op_format r
      in if CHR ''o'' \<in> set f
         then last f = CHR ''o'' \<and> CHR ''o'' \<notin> set (butlast f) \<and>
              32 + (\<Sum>c\<leftarrow>butlast f. width r c) + 11 \<le> 64
         else 32 + (\<Sum>c\<leftarrow>f. width r c) \<le> 79)"

definition row_closed :: "rv_opcode_data \<Rightarrow> bool" where
  "row_closed r \<longleftrightarrow>
     decomp_rv32 r < 319 \<and> decomp_rv64 r < 319 \<and> decomp_rv128 r < 319 \<and>
     (case op_pseudo r of None \<Rightarrow> True | Some ds \<Rightarrow> list_all (\<lambda>e. cd_op e < 319) ds)"

lemma rows_fit:
  "list_all row_fits opcodes_0" "list_all row_fits opcodes_64" "list_all row_fits opcodes_128"
  "list_all row_fits opcodes_192" "list_all row_fits opcodes_256"
  by code_simp+

lemma rows_closed:
  "list_all row_closed opcodes_0" "list_all row_closed opcodes_64"
  "list_all row_closed opcodes_128" "list_all row_closed opcodes_192"
  "list_all row_closed opcodes_256"
  by code_simp+

lemma length_opcode_data: "length opcode_data = 319"
  by (simp add: opcode_data_def length_opcodes)

lemma row_fits_nth: "k < 319 \<Longrightarrow> row_fits (opcode_data ! k)"
  using rows_fit nth_mem [of k opcode_data]
  by (auto simp: opcode_data_def list_all_iff length_opcodes)

lemma row_closed_nth: "k < 319 \<Longrightarrow> row_closed (opcode_data ! k)"
  using rows_closed nth_mem [of k opcode_data]
  by (auto simp: opcode_data_def list_all_iff length_opcodes)

lemma switch_less: "list_all (\<lambda>(j, a). a < n) cs \<Longrightarrow> d < n \<Longrightarrow> switch k cs d < n" for n :: nat
  by (induction k cs d rule: switch.induct) auto

lemma opcode_in_range: "opcode_of isa inst < 319"
  by (simp add: opcode_of_def dis_quadrant0_def dis_quadrant1_def dis_quadrant2_def
      dis_quadrant3_def dis_load_def dis_fload_def dis_misc_mem_def dis_imm_def dis_imm32_def
      dis_store_def dis_fstore_def dis_amo_def dis_reg_def dis_reg32_def dis_fmadd_def
      dis_fmsub_def dis_fnmsub_def dis_fnmadd_def dis_fp_def dis_fp_arith_def dis_fp_conv_def
      dis_imm64_def dis_branch_def dis_jalr_def dis_system_def dis_reg64_def switch_less
      del: switch.simps)

lemma reg_field_range:
  "unat (ucast (fld lo 5 w) :: u8) < 32" "unat (ucast (fld lo 3 w + 8) :: u8) < 32" for w :: i32
proof -
  have 5: "unat (fld lo 5 w) < 32" and 3: "unat (fld lo 3 w) < 8"
    using unat_take_bit_less [of 5 "drop_bit lo w"] unat_take_bit_less [of 3 "drop_bit lo w"]
    by (simp_all add: fld_def)
  show "unat (ucast (fld lo 5 w) :: u8) < 32"
    using 5 by (simp add: unsigned_ucast_eq take_bit_nat_eq_self)
  show "unat (ucast (fld lo 3 w + 8) :: u8) < 32"
    using 3 by (simp add: unsigned_ucast_eq unat_word_ariths take_bit_nat_eq_self)
qed

lemma operand_rs3_field [simp]: "operand_rs3 inst = fld 27 5 (lo32 inst)"
  by (simp add: operand_rs3_def take_of_shift)

lemma operands_in_range:
  "regs_in_range d \<Longrightarrow> regs_in_range (operands_base codec inst d)"
  by (cases codec)
    (simp_all add: operands_base_def operands_compressed_def regs_in_range_def reg_field_range
      del: unat_reg_byte)

lemma lift_from_range:
  "regs_in_range (lift_from ds d) = regs_in_range d"
  "dec_op d < 319 \<Longrightarrow> list_all (\<lambda>e. cd_op e < 319) ds \<Longrightarrow> dec_op (lift_from ds d) < 319"
  "dec_imm (lift_from ds d) = dec_imm d" "dec_pc (lift_from ds d) = dec_pc d"
  "dec_inst (lift_from ds d) = dec_inst d"
  by (induction ds) (auto simp: regs_in_range_def split: option.splits)

lemma decompress_range:
  assumes "dec_op d < 319"
  shows "dec_op (decode_inst_decompress d isa) < 319"
    and "regs_in_range (decode_inst_decompress d isa) = regs_in_range d"
  using assms row_closed_nth [OF assms]
  by (auto simp: decode_inst_decompress_def decomp_op_def row_closed_def regs_in_range_def Let_def
      split: rv_isa.splits)

lemma disasm_decode_range:
  "dec_op (disasm_decode isa a inst) < 319" "regs_in_range (disasm_decode isa a inst)"
proof -
  define d where "d = decode_inst_operands (decode_inst_opcode (dec_init a inst) isa)"
  have d: "dec_op d < 319" "regs_in_range d"
    unfolding d_def decode_inst_operands_def Let_def
    subgoal by (simp add: decode_inst_opcode_def opcode_in_range)
    subgoal
      by (rule operands_in_range) (simp add: decode_inst_opcode_def dec_init_def regs_in_range_def)
    done
  define e where "e = decode_inst_decompress d isa"
  have e: "dec_op e < 319" "regs_in_range e"
    unfolding e_def using decompress_range [OF d(1)] d(2) by simp_all
  show "dec_op (disasm_decode isa a inst) < 319" "regs_in_range (disasm_decode isa a inst)"
    unfolding disasm_decode_def d_def [symmetric] e_def [symmetric]
    using e row_closed_nth [OF e(1)]
    by (auto simp: decode_inst_lift_pseudo_def lift_from_range row_closed_def
        split: option.splits)
qed

subsection \<open>The length of a line\<close>

text \<open>
  In the buffer of 80 bytes of the debugger, every line fits except where an offset is
  printed and the target has more than eleven hexadecimal digits: the terminator is then
  written behind the buffer.
\<close>

definition prints_offset :: "rv_decode \<Rightarrow> bool" where
  "prints_offset d \<longleftrightarrow> CHR ''o'' \<in> set (op_format (opcode_data ! dec_op d))"

lemma format_chars_append:
  "format_chars n tab d (xs @ ys) buf = Option.bind (format_chars n tab d xs buf) (format_chars n tab d ys)"
  by (induction xs arbitrary: buf) (simp_all split: bind_splits)

lemma append_offset_length:
  assumes "length buf + 11 \<le> 64"
  shows "\<exists>s. append_offset 80 32 d buf = Some s \<and> length s \<le> 80 \<and>
           (length s = 80 \<longleftrightarrow> 2 ^ 44 \<le> unat (target d))"
proof -
  let ?t = "show_nat 16 (unat (target d))"
  have short: "length (show_int (sint (dec_imm d))) \<le> 11" by (rule imm_width)
  have full: "length ?t \<le> 16"
    using unsigned_less [of "target d"] by (simp add: length_show_nat)
  have big: "length ?t \<le> 11 \<longleftrightarrow> unat (target d) < 2 ^ 44"
    by (simp add: length_show_nat)
  define b where "b = append_buf buf (snprintf 64 (show_int (sint (dec_imm d)))) 80"
  have "length b \<le> 64"
    unfolding b_def using assms short by (simp add: length_append_buf)
  then have "length (b @ replicate (64 - length b) (CHR '' '')) = 64" by simp
  then show ?thesis
    using big full
    by (simp add: append_offset_def b_def [symmetric] pad_to_fits length_append_buf; linarith)
qed

lemma disasm_line_length:
  "\<exists>s. disasm_inst 80 isa a inst = Some s \<and> length s \<le> 80 \<and>
     (length s = 80 \<longleftrightarrow>
        prints_offset (disasm_decode isa a inst) \<and>
        2 ^ 44 \<le> unat (target (disasm_decode isa a inst)))"
proof -
  define d where "d = disasm_decode isa a inst"
  define r where "r = opcode_data ! dec_op d"
  define buf where "buf = format_inst 80 (dec_inst d)"
  have d: "regs_in_range d" "row_fits r"
    using disasm_decode_range row_fits_nth by (simp_all add: d_def r_def)
  have len: "length buf = 18" by (simp add: buf_def format_inst_length)
  have run: "disasm_inst 80 isa a inst = format_chars 80 32 d (op_format r) buf"
    by (simp add: disasm_inst_def decode_inst_format_def d_def r_def buf_def)
  show ?thesis
  proof (cases "CHR ''o'' \<in> set (op_format r)")
    case False
    then obtain b where "format_chars 80 32 d (op_format r) buf = Some b" "length b \<le> 79"
      using format_chars_fit [OF False d(1), of buf] d(2) len
      by (auto simp: row_fits_def Let_def r_def)
    then show ?thesis
      using False run by (simp add: prints_offset_def d_def [symmetric] r_def [symmetric])
  next
    case True
    then have o: "CHR ''o'' \<notin> set (butlast (op_format r))"
      "32 + (\<Sum>c\<leftarrow>butlast (op_format r). width r c) + 11 \<le> 64"
      "op_format r = butlast (op_format r) @ ''o''"
      using d(2) append_butlast_last_id [of "op_format r"]
      by (force simp: row_fits_def Let_def)+
    obtain b where b: "format_chars 80 32 d (butlast (op_format r)) buf = Some b"
      "length b + 11 \<le> 64"
      using format_chars_fit [OF o(1) d(1), of buf] o(2) len by (auto simp: r_def)
    have "format_chars 80 32 d (op_format r) buf = append_offset 80 32 d b"
      by (subst o(3), cases "append_offset 80 32 d b")
        (simp_all add: format_chars_append b(1) format_char_def)
    then show ?thesis
      using append_offset_length [OF b(2), of d] run True
      by (simp add: prints_offset_def d_def [symmetric] r_def [symmetric])
  qed
qed

text \<open>A jump from address 0 to 4 bytes before it.\<close>

lemma overrun_example:
  "prints_offset (disasm_decode rv32 0 0xffdff06f)"
  "2 ^ 44 \<le> unat (target (disasm_decode rv32 0 0xffdff06f))"
  by (simp_all add: prints_offset_def target_def disasm_decode_raw raw_simps major_opcode fld_def
      decode_inst_lift_pseudo_def constraint_holds_def imm_J_def sext_def)

end
