(* ===== verification/Runtime.thy ===== *)
theory Runtime
  imports Loadstore
begin

text \<open>
  The other side of the host interface: the run-time library the simulated programs are
  linked with, \<open>sw/common/syscall.c\<close>, built with \<open>HAVE_TOHOST\<close>. Its volatile accesses are
  word stores and loads of the hart. A system call of the library is shown to be the service
  of the simulator on the same arguments.
\<close>

subsection \<open>System calls\<close>

text \<open>
  A sequence of word stores, and what it answers: 0, or the cause of the trap an access
  raised.
\<close>

fun store_words :: "'w host \<Rightarrow> i32 \<Rightarrow> i32 list \<Rightarrow> 'w sim \<Rightarrow> ('w sim \<times> i32) run" where
  "store_words h a [] s = Done (s, 0)"
| "store_words h a (v # vs) s =
     bind_run (memrw_store h s OP_SW a v) (\<lambda>(s, c).
       if c = 0 then store_words h (a + 4) vs s else Done (s, c))"

text \<open>\<open>htif_mem\<close> is the address of the static array of \<open>__internal_syscall\<close>.\<close>

definition internal_syscall ::
    "'w host \<Rightarrow> i32 \<Rightarrow> i32 \<Rightarrow> i32 list \<Rightarrow> 'w sim \<Rightarrow> ('w sim \<times> (i32 + i32)) run" where
  "internal_syscall h htif_mem n args s =
     bind_run (store_words h htif_mem (n # args) s) (\<lambda>(s, c).
       if c \<noteq> 0 then Done (s, Inl c)
       else bind_run (memrw_store h s OP_SW MMIO_TOHOST htif_mem) (\<lambda>(s, c).
         if c \<noteq> 0 then Done (s, Inl c)
         else bind_run (memrw_load h s OP_LW MMIO_FROMHOST) (\<lambda>(s, c, v).
           Done (s, if c \<noteq> 0 then Inl c else Inr v))))"

definition guest_open where
  "guest_open h b pathname flags mode s =
     internal_syscall h b SYS_OPEN [pathname, flags, mode, 0, 0, 0, 0] s"

definition guest_write where
  "guest_write h b file ptr len s =
     internal_syscall h b SYS_WRITE [file, ptr, len, 0, 0, 0, 0] s"

definition guest_close where
  "guest_close h b file s = internal_syscall h b SYS_CLOSE [file, 0, 0, 0, 0, 0, 0] s"

definition guest_lseek where
  "guest_lseek h b file ptr dir s =
     internal_syscall h b SYS_LSEEK [file, ptr, dir, 0, 0, 0, 0] s"

definition guest_read where
  "guest_read h b file ptr len s =
     internal_syscall h b SYS_READ [file, ptr, len, 0, 0, 0, 0] s"

lemmas guest_calls =
  guest_open_def guest_read_def guest_write_def guest_lseek_def guest_close_def

text \<open>\<open>_exit\<close> loops when the call comes back: it then does not return.\<close>

definition guest_exit :: "'w host \<Rightarrow> i32 \<Rightarrow> i32 \<Rightarrow> 'w sim \<Rightarrow> unit run option" where
  "guest_exit h b code s =
     (case internal_syscall h b SYS_EXIT [code, 0, 0, 0, 0, 0, 0] s of
        Done _ \<Rightarrow> None
      | Terminated e \<Rightarrow> Some (Terminated e)
      | Fault f \<Rightarrow> Some (Fault f))"

definition libc_exit where
  "libc_exit h b code s = guest_exit h b code s"

definition guest_fstat :: "i32 \<Rightarrow> i32 \<Rightarrow> i32" where
  "guest_fstat file buf = - 1"

definition guest_isatty :: "i32 \<Rightarrow> i32" where
  "guest_isatty file = (if file = 0 \<or> file = 2 \<or> file = 1 then 1 else 0)"

definition guest_kill :: "i32 \<Rightarrow> i32 \<Rightarrow> i32" where
  "guest_kill pid sig = - 1"

definition guest_getpid :: i32 where
  "guest_getpid = 0"

text \<open>
  \<open>_putchar\<close> and \<open>_getchar\<close> pass the address \<open>p\<close> of their character on the stack; the
  characters of the target are unsigned.
\<close>

definition guest_putchar ::
    "'w host \<Rightarrow> i32 \<Rightarrow> i32 \<Rightarrow> i32 \<Rightarrow> 'w sim \<Rightarrow> ('w sim \<times> (i32 + i32)) run" where
  "guest_putchar h b p ch s =
     bind_run (memrw_store h s OP_SB p ch) (\<lambda>(s, c).
       if c \<noteq> 0 then Done (s, Inl c) else guest_write h b 1 p 1 s)"

definition guest_getchar ::
    "'w host \<Rightarrow> i32 \<Rightarrow> i32 \<Rightarrow> 'w sim \<Rightarrow> ('w sim \<times> (i32 + i32)) run" where
  "guest_getchar h b p s =
     bind_run (memrw_store h s OP_SB p 0) (\<lambda>(s, c).
       if c \<noteq> 0 then Done (s, Inl c)
       else bind_run (guest_read h b 0 p 1 s) (\<lambda>(s, r).
         case r of Inl c \<Rightarrow> Done (s, Inl c)
         | Inr _ \<Rightarrow> bind_run (memrw_load h s OP_LBU p) (\<lambda>(s, c, v).
             Done (s, if c \<noteq> 0 then Inl c else Inr v))))"

text \<open>
  \<open>_sbrk\<close>, with the addresses of \<open>_end\<close> and \<open>_stack\<close> from the linker: the answer and the new
  \<open>heap_ptr\<close>.
\<close>

definition sbrk :: "i32 \<Rightarrow> i32 \<Rightarrow> i32 \<Rightarrow> i32 \<Rightarrow> i32 \<times> i32" where
  "sbrk end_addr stack_addr heap_ptr nbytes =
     (let heap_ptr = (if heap_ptr = 0 then end_addr else heap_ptr)
      in if stack_addr \<le>s heap_ptr + nbytes then (0, heap_ptr)
         else (heap_ptr, heap_ptr + nbytes))"

subsection \<open>The argument block\<close>

definition args_in_memory :: "rv \<Rightarrow> i32 \<Rightarrow> nat \<Rightarrow> bool" where
  "args_in_memory rv a n \<longleftrightarrow>
     mem_ok rv \<and> unat a mod 4 = 0 \<and> sint (mem_base rv) \<le> sint a \<and>
     sint a + 4 * int n \<le> sint (mem_base rv) + sint (mem_size rv)"

definition offset :: "rv \<Rightarrow> i32 \<Rightarrow> int" where
  "offset rv a = sint a - sint (mem_base rv)"

lemma args_offset:
  assumes "args_in_memory rv a n"
  shows "sint (a - mem_base rv) = offset rv a" "0 \<le> offset rv a"
    "offset rv a + 4 * int n \<le> sint (mem_size rv)"
proof -
  show "0 \<le> offset rv a" "offset rv a + 4 * int n \<le> sint (mem_size rv)"
    using assms by (auto simp: args_in_memory_def offset_def)
  then show "sint (a - mem_base rv) = offset rv a"
    using sint_lt [of "mem_size rv"] unfolding offset_def by (intro sint_diff_exact) auto
qed

lemma args_range:
  assumes "args_in_memory rv a n" "0 < n"
  shows "range_check rv a 4"
proof -
  have "sint (a + 4) = sint a + 4"
    using assms sint_ge [of a] sint_add_exact [of a 4] by (auto simp: args_in_memory_def mem_ok_def)
  moreover have "sint (mem_base rv + mem_size rv) = sint (mem_base rv) + sint (mem_size rv)"
    using assms mem_end_exact by (simp add: args_in_memory_def)
  ultimately show ?thesis
    using assms by (auto simp: range_check_def word_sless_alt args_in_memory_def)
qed

lemma args_next:
  assumes "args_in_memory rv a (Suc n)" "0 < n"
  shows "args_in_memory rv (a + 4) n" "offset rv (a + 4) = offset rv a + 4"
proof -
  have s: "sint (a + 4) = sint a + 4"
    using assms sint_ge [of a] sint_add_exact [of a 4] by (auto simp: args_in_memory_def mem_ok_def)
  have "unat (a + 4) mod 4 = (unat a + 4) mod 2 ^ 32 mod 4"
    by (simp add: unat_word_ariths)
  also have "\<dots> = unat a mod 4"
    by (subst mod_mod_cancel) simp_all
  finally have "unat (a + 4) mod 4 = 0"
    using assms(1) by (simp add: args_in_memory_def)
  then show "args_in_memory rv (a + 4) n"
    using assms s by (auto simp: args_in_memory_def)
  show "offset rv (a + 4) = offset rv a + 4"
    using s by (simp add: offset_def)
qed

lemma block_store_append:
  "0 \<le> off \<Longrightarrow> block_store (block_store rv off bs) (off + int (length bs)) cs =
     block_store rv off (bs @ cs)"
  by (rule rv.equality) (auto simp: block_store_def nat_add_distrib fun_eq_iff nth_append)

lemma args_store [simp]:
  "args_in_memory (block_store rv off bs) a n = args_in_memory rv a n"
  "offset (block_store rv off bs) a = offset rv a"
  by (simp_all add: args_in_memory_def offset_def mem_ok_def)

definition word_bytes :: "i32 list \<Rightarrow> u8 list" where
  "word_bytes vs = concat (map (le_bytes 4) vs)"

lemma length_word_bytes [simp]: "length (word_bytes vs) = 4 * length vs"
  by (induction vs) (simp_all add: word_bytes_def)

text \<open>The stores of the library fill the block with the words.\<close>

lemma store_words_memory:
  "args_in_memory (cpu s) a (length vs) \<Longrightarrow>
     store_words h a vs s =
       Done (s\<lparr>cpu := block_store (cpu s) (offset (cpu s) a) (word_bytes vs)\<rparr>, 0)"
proof (induction vs arbitrary: s a)
  case Nil
  then show ?case by (simp add: word_bytes_def)
next
  case (Cons v vs)
  let ?off = "offset (cpu s) a"
  let ?s = "s\<lparr>cpu := block_store (cpu s) ?off (le_bytes 4 v)\<rparr>"
  have off: "sint (a - mem_base (cpu s)) = ?off" "0 \<le> ?off" "?off + 4 \<le> sint (mem_size (cpu s))"
    using args_offset [OF Cons.prems] by simp_all
  have "srv32_write_mem (cpu s) a 4 (le_bytes 4 v) = Done (Some (cpu ?s))"
    using args_range [OF Cons.prems] off by (simp add: srv32_write_mem_def in_block_def)
  moreover have "unat a mod 4 = 0"
    using Cons.prems by (simp add: args_in_memory_def)
  ultimately have first: "memrw_store h s OP_SW a v = Done (?s, 0)"
    using memrw_store_memory [of OP_SW S_w a s v "cpu ?s" h]
    by (simp add: store_op_of_def store_width_def)
  show ?case
  proof (cases "vs = []")
    case True
    then show ?thesis using first by (simp add: word_bytes_def)
  next
    case False
    then have next_args: "args_in_memory (cpu s) (a + 4) (length vs)"
      and next_off: "offset (cpu s) (a + 4) = ?off + 4"
      using args_next [of "cpu s" a "length vs"] Cons.prems by auto
    show ?thesis
      using first Cons.IH [of ?s "a + 4"] next_args next_off off(2)
        block_store_append [of ?off "cpu s" "le_bytes 4 v" "word_bytes vs"]
      by (simp add: word_bytes_def)
  qed
qed

lemma word_bytes_split:
  assumes "k < length vs"
  shows "word_bytes vs =
    word_bytes (take k vs) @ le_bytes 4 (vs ! k) @ word_bytes (drop (Suc k) vs)"
proof -
  have "word_bytes vs = word_bytes (take k vs @ vs ! k # drop (Suc k) vs)"
    using id_take_nth_drop [OF assms] by simp
  then show ?thesis by (simp add: word_bytes_def)
qed

lemma stored_word:
  assumes "k < length vs" "0 \<le> off"
  shows "block_bytes (block_store rv off (word_bytes vs)) (off + 4 * int k) 4 = le_bytes 4 (vs ! k)"
proof -
  let ?A = "word_bytes (take k vs)" and ?B = "le_bytes 4 (vs ! k)"
    and ?C = "word_bytes (drop (Suc k) vs)"
  let ?rv = "block_store (block_store rv off ?A) (off + 4 * int k) ?B"
  have "block_store rv off (word_bytes vs) = block_store ?rv (off + 4 * int k + 4) ?C"
    using assms block_store_append [of off rv ?A "?B @ ?C"]
      block_store_append [of "off + 4 * int k" "block_store rv off ?A" ?B ?C]
    by (simp add: word_bytes_split [OF assms(1)] min_def)
  moreover have "block_bytes ?rv (off + 4 * int k) 4 = ?B"
    using block_bytes_store_same [of "block_store rv off ?A" "off + 4 * int k" ?B] by simp
  ultimately show ?thesis
    using assms(2) by (simp add: block_bytes_store_disjoint)
qed

lemma int_at_stored:
  assumes "args_in_memory rv a (length vs)" "k < length vs"
  shows "int_at (block_store rv (offset rv a) (word_bytes vs)) (Some (offset rv a)) k = Done (vs ! k)"
  using args_offset [OF assms(1)] assms(2)
  by (simp add: int_at_def in_block_def stored_word le_word_le_bytes take_bit_word_eq_self)

lemma memptr_block_store [simp]:
  "srv32_get_memptr (block_store rv off bs) a = srv32_get_memptr rv a"
  by (simp add: srv32_get_memptr_def)

lemma args_memptr:
  "args_in_memory rv a n \<Longrightarrow> srv32_get_memptr rv a = Some (offset rv a)"
  using args_offset [of rv a n] mem_end_exact [of rv]
  by (auto simp: srv32_get_memptr_def args_in_memory_def word_sless_alt)

subsection \<open>A call reaches its service\<close>

definition file_call :: "i32 \<Rightarrow> bool" where
  "file_call n \<longleftrightarrow> n = SYS_OPEN \<or> n = SYS_CLOSE \<or> n = SYS_LSEEK \<or> n = SYS_READ \<or> n = SYS_WRITE"

lemma tohost_file_call:
  assumes "args_in_memory rv a (length (n # args))" "length args = 7" "file_call n"
    and "cpu s = block_store rv (offset rv a) (word_bytes (n # args))"
  shows "srv32_tohost h s a =
    bind_run (srv32_syscall h s n (args ! 0) (args ! 1) (args ! 2)) set_result"
proof -
  have p: "srv32_get_memptr (cpu s) a = Some (offset rv a)"
    using args_memptr [of "cpu s" a "length (n # args)"] assms by simp
  have at: "int_at (cpu s) (Some (offset rv a)) k = Done ((n # args) ! k)" if "k < 8" for k
    using int_at_stored [OF assms(1), of k] assms(2,4) that by simp
  show ?thesis
    using assms(3) at [of 0] at [of 1] at [of 2] at [of 3]
    by (auto simp: srv32_tohost_def srv32_syscall_def p Let_def file_call_def)
qed

lemma tohost_exit_call:
  assumes "args_in_memory rv a (length (SYS_EXIT # args))" "length args = 7"
    and "cpu s = block_store rv (offset rv a) (word_bytes (SYS_EXIT # args))"
  shows "srv32_tohost h s a = prog_exit (cpu s)"
proof -
  have p: "srv32_get_memptr (cpu s) a = Some (offset rv a)"
    using args_memptr [of "cpu s" a "length (SYS_EXIT # args)"] assms by simp
  have at: "int_at (cpu s) (Some (offset rv a)) k = Done ((SYS_EXIT # args) ! k)" if "k < 8" for k
    using int_at_stored [OF assms(1), of k] assms(2,3) that by simp
  show ?thesis
    using at [of 0] at [of 1] at [of 2] at [of 3]
    by (simp add: srv32_tohost_def p Let_def)
qed

text \<open>The device registers lie below memory that starts at a positive address.\<close>

lemma device_not_memory:
  assumes "0 \<le> sint (mem_base rv)"
  shows "\<not> range_check rv MMIO_TOHOST 4" "\<not> range_check rv MMIO_FROMHOST 4"
  using assms by (simp_all add: range_check_def word_sless_alt)

lemma internal_syscall_tohost:
  assumes "args_in_memory (cpu s) a (length (n # args))" "0 \<le> sint (mem_base (cpu s))"
  shows "internal_syscall h a n args s =
    bind_run
      (srv32_tohost h (s\<lparr>cpu := block_store (cpu s) (offset (cpu s) a) (word_bytes (n # args))\<rparr>) a)
      (\<lambda>s'. Done (s', Inr (result s')))"
proof -
  let ?s = "s\<lparr>cpu := block_store (cpu s) (offset (cpu s) a) (word_bytes (n # args))\<rparr>"
  have "range_check (cpu ?s) a 4"
    using args_range [of "cpu ?s" a "length (n # args)"] assms(1) by simp
  then obtain bs where trace: "srv32_read_mem (cpu ?s) a 4 = Done (Some bs)"
    using args_offset [OF assms(1)] by (simp add: srv32_read_mem_def in_block_def Let_def)
  have store: "memrw_store h ?s OP_SW MMIO_TOHOST a =
      bind_run (srv32_tohost h ?s a) (\<lambda>s'. Done (s', 0))"
    using device_not_memory [of "cpu ?s"] assms(2) trace
    by (simp add: memrw_store_def store_check_def srv32_write_mem_def mmio_write_def Let_def)
  have load: "memrw_load h s' OP_LW MMIO_FROMHOST = Done (s', 0, result s')"
    if "srv32_tohost h ?s a = Done s'" for s'
  proof -
    have "service_frame ?s s'" using run_allD [OF tohost_frame that] .
    then have "mem_base (cpu s') = mem_base (cpu s)" by (auto simp: service_frame_def)
    then show ?thesis
      using device_not_memory [of "cpu s'"] assms(2)
      by (simp add: memrw_load_def load_check_def srv32_read_mem_def mmio_read_def
          srv32_fromhost_def load_extend_unsigned Let_def)
  qed
  show ?thesis
    using store_words_memory [of s a "n # args" h] assms(1) store load
    by (cases "srv32_tohost h ?s a") (simp_all add: internal_syscall_def)
qed

lemma call_reaches_service:
  assumes "args_in_memory (cpu s) a 8" "0 \<le> sint (mem_base (cpu s))" "length args = 7" "file_call n"
  shows "internal_syscall h a n args s =
    bind_run
      (srv32_syscall h (s\<lparr>cpu := block_store (cpu s) (offset (cpu s) a) (word_bytes (n # args))\<rparr>)
        n (args ! 0) (args ! 1) (args ! 2))
      (\<lambda>(r, s'). Done (s'\<lparr>result := r\<rparr>, Inr r))"
  using internal_syscall_tohost [of s a n args h]
    tohost_file_call [of "cpu s" a n args
      "s\<lparr>cpu := block_store (cpu s) (offset (cpu s) a) (word_bytes (n # args))\<rparr>" h] assms
  by (simp add: bind_run_assoc set_result_def split_def)

text \<open>The state in which the service is called, and what the library makes of its answer.\<close>

definition with_args :: "'w sim \<Rightarrow> i32 \<Rightarrow> i32 \<Rightarrow> i32 \<Rightarrow> i32 \<Rightarrow> i32 \<Rightarrow> 'w sim" where
  "with_args s b n a0 a1 a2 =
     s\<lparr>cpu := block_store (cpu s) (offset (cpu s) b) (word_bytes [n, a0, a1, a2, 0, 0, 0, 0])\<rparr>"

definition answered :: "i32 \<times> 'w sim \<Rightarrow> ('w sim \<times> (i32 + i32)) run" where
  "answered = (\<lambda>(r, s). Done (s\<lparr>result := r\<rparr>, Inr r))"

lemma file_operations:
  assumes "args_in_memory (cpu s) b 8" "0 \<le> sint (mem_base (cpu s))"
  shows "guest_open h b p flags mode s =
      bind_run (host_open h (with_args s b SYS_OPEN p flags mode) (srv32_get_memptr (cpu s) p))
        answered"
    and "guest_read h b fd p len s =
      bind_run (host_read h (with_args s b SYS_READ fd p len) fd (srv32_get_memptr (cpu s) p) len)
        answered"
    and "guest_write h b fd p len s =
      bind_run (host_write h (with_args s b SYS_WRITE fd p len) fd (srv32_get_memptr (cpu s) p) len)
        answered"
    and "guest_lseek h b fd off wh s =
      bind_run (host_lseek h (with_args s b SYS_LSEEK fd off wh) fd off wh) answered"
    and "guest_close h b fd s =
      bind_run (host_close h (with_args s b SYS_CLOSE fd 0 0) fd) answered"
proof -
  have call: "internal_syscall h b n [a0, a1, a2, 0, 0, 0, 0] s =
      bind_run (srv32_syscall h (with_args s b n a0 a1 a2) n a0 a1 a2) answered"
    if "file_call n" for n a0 a1 a2
    using call_reaches_service [OF assms _ that, of "[a0, a1, a2, 0, 0, 0, 0]" h]
    by (simp add: with_args_def answered_def split_def)
  have mem [simp]: "srv32_get_memptr (cpu (with_args s b n a0 a1 a2)) q = srv32_get_memptr (cpu s) q"
    for n a0 a1 a2 q
    by (simp add: with_args_def)
  show "guest_open h b p flags mode s =
      bind_run (host_open h (with_args s b SYS_OPEN p flags mode) (srv32_get_memptr (cpu s) p))
        answered"
    using call [of SYS_OPEN p flags mode]
    by (simp add: guest_open_def srv32_syscall_def file_call_def)
  show "guest_read h b fd p len s =
      bind_run (host_read h (with_args s b SYS_READ fd p len) fd (srv32_get_memptr (cpu s) p) len)
        answered"
    using call [of SYS_READ fd p len]
    by (simp add: guest_read_def srv32_syscall_def file_call_def)
  show "guest_write h b fd p len s =
      bind_run (host_write h (with_args s b SYS_WRITE fd p len) fd (srv32_get_memptr (cpu s) p) len)
        answered"
    using call [of SYS_WRITE fd p len]
    by (simp add: guest_write_def srv32_syscall_def file_call_def)
  show "guest_lseek h b fd off wh s =
      bind_run (host_lseek h (with_args s b SYS_LSEEK fd off wh) fd off wh) answered"
    using call [of SYS_LSEEK fd off wh]
    by (simp add: guest_lseek_def srv32_syscall_def file_call_def)
  show "guest_close h b fd s =
      bind_run (host_close h (with_args s b SYS_CLOSE fd 0 0) fd) answered"
    using call [of SYS_CLOSE fd 0 0]
    by (simp add: guest_close_def srv32_syscall_def file_call_def)
qed

text \<open>\<open>_exit\<close> ends the process, with a status that does not depend on its argument.\<close>

lemma exit_call:
  assumes "args_in_memory (cpu s) a 8" "0 \<le> sint (mem_base (cpu s))"
  shows "guest_exit h a code s =
    Some (Terminated (if debug_en (cpu s) then 0 else exitcode (cpu s)))"
proof -
  let ?args = "[code, 0, 0, 0, 0, 0, 0]"
  have len: "args_in_memory (cpu s) a (length (SYS_EXIT # ?args))"
    using assms(1) by (simp add: eval_nat_numeral)
  have same: "debug_en (block_store rv off bs) = debug_en rv"
    "exitcode (block_store rv off bs) = exitcode rv" for rv off bs
    by (simp_all add: block_store_def)
  show ?thesis
    using internal_syscall_tohost [OF len assms(2), of h] tohost_exit_call [OF len, of _ h]
    by (simp add: guest_exit_def prog_exit_def same)
qed

subsection \<open>The heap\<close>

text \<open>The answers of successive requests, with their sizes.\<close>

fun sbrk_calls :: "i32 \<Rightarrow> i32 \<Rightarrow> i32 \<Rightarrow> i32 list \<Rightarrow> (i32 \<times> i32) list" where
  "sbrk_calls e t hp [] = []"
| "sbrk_calls e t hp (n # ns) =
     (case sbrk e t hp n of (p, hp') \<Rightarrow> (p, n) # sbrk_calls e t hp' ns)"

definition granted :: "(i32 \<times> i32) list \<Rightarrow> (i32 \<times> i32) list" where
  "granted bs = filter (\<lambda>(p, n). p \<noteq> 0) bs"

definition heap_top :: "i32 \<Rightarrow> i32 \<Rightarrow> i32" where
  "heap_top e hp = (if hp = 0 then e else hp)"

lemma granted_simps [simp]:
  "granted [] = []"
  "granted ((p, n) # bs) = (if p = 0 then granted bs else (p, n) # granted bs)"
  by (simp_all add: granted_def)

text \<open>Sizes that are not negative, and small enough for the sum with the top of the heap.\<close>

definition fair_request :: "i32 \<Rightarrow> i32 \<Rightarrow> bool" where
  "fair_request t n \<longleftrightarrow> 0 \<le> sint n \<and> sint t + sint n < 2 ^ 31"

lemma sbrk_grants:
  assumes "0 < sint e" "sint e \<le> sint (heap_top e hp)" "sint (heap_top e hp) < sint t"
    and "fair_request t n" "sbrk e t hp n = (p, hp')"
  shows "if p = 0 then hp' = heap_top e hp
    else p = heap_top e hp \<and> sint hp' = sint p + sint n \<and> sint hp' < sint t \<and> heap_top e hp' = hp'"
proof -
  have sum: "sint (heap_top e hp + n) = sint (heap_top e hp) + sint n"
    using assms by (intro sint_add_exact) (auto simp: fair_request_def)
  have "heap_top e hp \<noteq> 0" using assms(1,2) by auto
  moreover have "heap_top e hp + n \<noteq> 0" using sum assms by (auto simp: fair_request_def)
  ultimately show ?thesis
    using assms(5) sum
    by (auto simp: sbrk_def heap_top_def [symmetric] word_sle_eq Let_def split: if_splits)
      (simp add: heap_top_def)
qed

lemma sbrk_calls_disjoint:
  assumes "0 < sint e" "sint e \<le> sint (heap_top e hp)" "sint (heap_top e hp) < sint t"
    and "list_all (fair_request t) ns"
  shows "(\<forall>(p, n) \<in> set (granted (sbrk_calls e t hp ns)).
            sint (heap_top e hp) \<le> sint p \<and> sint p + sint n < sint t) \<and>
         sorted_wrt (\<lambda>(p, n) (q, m). sint p + sint n \<le> sint q) (granted (sbrk_calls e t hp ns))"
  using assms(2-)
proof (induction ns arbitrary: hp)
  case (Cons n ns)
  obtain p hp' where r: "sbrk e t hp n = (p, hp')" by force
  note g = sbrk_grants [OF assms(1) Cons.prems(1,2) _ r]
  show ?case
  proof (cases "p = 0")
    case True
    then have "hp' = heap_top e hp" "heap_top e hp' = heap_top e hp"
      using g Cons.prems assms(1) by (auto simp: heap_top_def)
    then show ?thesis
      using Cons.IH [of hp'] Cons.prems True r by simp
  next
    case False
    then have h: "p = heap_top e hp" "sint hp' = sint p + sint n" "sint hp' < sint t"
      "heap_top e hp' = hp'" "0 \<le> sint n"
      using g Cons.prems(3) by (auto simp: fair_request_def)
    have "(\<forall>(q, m) \<in> set (granted (sbrk_calls e t hp' ns)).
            sint hp' \<le> sint q \<and> sint q + sint m < sint t) \<and>
         sorted_wrt (\<lambda>(p, n) (q, m). sint p + sint n \<le> sint q) (granted (sbrk_calls e t hp' ns))"
      using Cons.IH [of hp'] Cons.prems h by simp
    then show ?thesis
      using h r False by fastforce
  qed
qed simp

end
