(* ===== verification/Simload.thy ===== *)
theory Simload
  imports Elfloader
begin

text \<open>
  \<open>sim/elfloader.c\<close>, the loader of the test bench of the hardware model, with \<open>elfread\<close> of
  \<open>sim/sim_main.cpp\<close> that calls it. It loads into one buffer, whose first half is the
  instruction memory and whose second half is the data memory. It is compared with the
  loader of the simulator, which loads the same file into one memory.
\<close>

subsection \<open>The loader\<close>

text \<open>
  The buffer is the list of its bytes, and \<open>None\<close> for a null pointer. A result \<open>None\<close> is the
  answer 0; the buffer is then of no use, because a read that fails may have changed it.
\<close>

definition put_bytes :: "u8 list \<Rightarrow> int \<Rightarrow> u8 list \<Rightarrow> u8 list run" where
  "put_bytes m off bs =
     (if 0 \<le> off \<and> off + int (length bs) \<le> int (length m)
      then Done (take (nat off) m @ bs @ drop (nat off + length bs) m)
      else Fault OutOfBlock)"

definition fread_into ::
    "u8 list \<Rightarrow> Elf32_Phdr \<Rightarrow> u8 list \<Rightarrow> int \<Rightarrow> u8 list option option run" where
  "fread_into file ph m off =
     (case fread_sized file (unat (p_offset ph)) (p_memsz ph) of
        None \<Rightarrow> Done None
      | Some bs \<Rightarrow> bind_run (put_bytes m off bs) (\<lambda>m'. Done (Some (Some m'))))"

text \<open>The range check of the two memories.\<close>

definition sim_range :: "i32 \<Rightarrow> i32 \<Rightarrow> Elf32_Phdr \<Rightarrow> bool" where
  "sim_range base len ph \<longleftrightarrow>
     base \<le>s p_vaddr ph \<and> p_vaddr ph + p_memsz ph \<le>s base + len"

definition sim_load_segment ::
    "u8 list \<Rightarrow> i32 \<Rightarrow> i32 \<Rightarrow> i32 \<Rightarrow> i32 \<Rightarrow> u8 list option \<Rightarrow> Elf32_Phdr \<Rightarrow>
       u8 list option option run" where
  "sim_load_segment file imem_base dmem_base imem_size dmem_size buf ph =
     (if p_type ph \<noteq> PT_LOAD then Done (Some buf)
      else case buf of
        None \<Rightarrow> Done (Some buf)
      | Some m \<Rightarrow>
          if sim_range imem_base imem_size ph
          then fread_into file ph m (sint (p_vaddr ph - imem_base))
          else if sim_range dmem_base dmem_size ph
          then fread_into file ph m (sint imem_size + sint (p_vaddr ph - dmem_base))
          else Terminated (- 1))"

fun sim_load_segments ::
    "u8 list \<Rightarrow> i32 \<Rightarrow> i32 \<Rightarrow> i32 \<Rightarrow> i32 \<Rightarrow> Elf32_Phdr list \<Rightarrow> u8 list option \<Rightarrow>
       u8 list option option run" where
  "sim_load_segments file ib db is ds [] buf = Done (Some buf)"
| "sim_load_segments file ib db is ds (ph # phs) buf =
     bind_run (sim_load_segment file ib db is ds buf ph) (\<lambda>r.
       case r of None \<Rightarrow> Done None
       | Some mem' \<Rightarrow> sim_load_segments file ib db is ds phs mem')"

definition sim_elf32_read ::
    "u8 list \<Rightarrow> u8 list option \<Rightarrow> i32 \<Rightarrow> i32 \<Rightarrow> i32 \<Rightarrow> i32 \<Rightarrow> u8 list option option run" where
  "sim_elf32_read file buf ib db is ds =
     (case fread_at file 0 ehdr_size of
        None \<Rightarrow> Done None
      | Some hb \<Rightarrow>
          (let hdr = ehdr_of hb; n = unat (e_phnum hdr) in
           case fread_at file (unat (e_phoff hdr)) (phdr_size * n) of
             None \<Rightarrow> Done None
           | Some pb \<Rightarrow> sim_load_segments file ib db is ds (phdrs_of pb n) buf))"

definition sim_elfloader ::
    "u8 list option \<Rightarrow> u8 list option \<Rightarrow> i32 \<Rightarrow> i32 \<Rightarrow> i32 \<Rightarrow> i32 \<Rightarrow>
       u8 list option option run" where
  "sim_elfloader file buf ib db is ds =
     (case file of
        None \<Rightarrow> Done None
      | Some bytes \<Rightarrow>
          (case fread_at bytes 0 EI_NIDENT of
             None \<Rightarrow> Done None
           | Some h \<Rightarrow>
               if h ! 0 = 0x7f \<or> h ! 1 = 0x45
               then (if h ! EI_CLASS = 1 then sim_elf32_read bytes buf ib db is ds else Done None)
               else Done None))"

text \<open>
  \<open>elfread\<close>: the contents of the files \<open>imem.bin\<close> and \<open>dmem.bin\<close>. The buffer is what
  \<open>malloc\<close> returned, with its contents; the file operations are taken to succeed.
\<close>

definition elfread :: "i32 \<Rightarrow> u8 list option \<Rightarrow> u8 list option \<Rightarrow> (u8 list \<times> u8 list) run" where
  "elfread memsize buffer file =
     (case buffer of
        None \<Rightarrow> Terminated 1
      | Some m \<Rightarrow>
          bind_run (sim_elfloader file (Some m) 0 memsize memsize memsize) (\<lambda>r.
            case r of
              Some (Some m') \<Rightarrow> Done (take (nat (sint memsize)) m', drop (nat (sint memsize)) m')
            | _ \<Rightarrow> Terminated 1))"

subsection \<open>The same contents as the memory of the simulator\<close>

text \<open>
  A segment that straddles the border of the two halves is the one kind that the simulator
  loads and the test bench rejects.
\<close>

definition straddles :: "i32 \<Rightarrow> Elf32_Phdr \<Rightarrow> bool" where
  "straddles M ph \<longleftrightarrow> p_type ph = PT_LOAD \<and> 0 \<le>s p_vaddr ph \<and> p_vaddr ph <s M \<and>
     M <s p_vaddr ph + p_memsz ph \<and> p_vaddr ph + p_memsz ph \<le>s M + M"

definition contents :: "rv \<Rightarrow> u8 list" where
  "contents rv = map (mem rv) [0..<nat (sint (mem_size rv))]"

definition twin_geometry :: "i32 \<Rightarrow> rv \<Rightarrow> bool" where
  "twin_geometry M rv \<longleftrightarrow> 0 < sint M \<and> sint M < 2 ^ 30 \<and> mem_base rv = 0 \<and> mem_size rv = M + M"

definition loaded_contents :: "rv \<times> bool \<Rightarrow> u8 list option option" where
  "loaded_contents = (\<lambda>(rv, ok). if ok then Some (Some (contents rv)) else None)"

lemma length_contents [simp]: "length (contents rv) = nat (sint (mem_size rv))"
  by (simp add: contents_def)

lemma contents_block_store:
  assumes "0 \<le> off" "off + int (length bs) \<le> sint (mem_size rv)"
  shows "contents (block_store rv off bs) =
    take (nat off) (contents rv) @ bs @ drop (nat off + length bs) (contents rv)"
  using assms
  by (intro nth_equalityI) (auto simp: contents_def block_store_def nth_append)

lemma twin_size: "twin_geometry M rv \<Longrightarrow> sint (M + M) = 2 * sint M"
  by (subst sint_add_exact) (auto simp: twin_geometry_def)


lemma half_checks:
  assumes g: "twin_geometry M rv" and n: "0 < sint n"
  shows "0 \<le>s v \<and> v + n \<le>s 0 + M \<or> M \<le>s v \<and> v + n \<le>s M + M \<longleftrightarrow>
    range_check rv v n \<and> \<not> (0 \<le>s v \<and> v <s M \<and> M <s v + n \<and> v + n \<le>s M + M)"
  using g n twin_size [OF g]
  by (auto simp: twin_geometry_def range_check_def word_sle_eq word_sless_alt)

text \<open>One segment: the same bytes at the same place, and the same failures.\<close>

lemma sim_load_segment_twin:
  assumes g: "twin_geometry M rv"
  shows "sim_load_segment file 0 M M M (Some (contents rv)) ph = Done (Some mem') \<longleftrightarrow>
    (\<exists>rv'. load_segment file rv ph = Done (rv', True) \<and> mem' = Some (contents rv')) \<and>
    \<not> straddles M ph"
proof (cases "p_type ph = PT_LOAD \<and> fread_sized file (unat (p_offset ph)) (p_memsz ph) \<noteq> None")
  case False
  then show ?thesis
    by (auto simp: sim_load_segment_def load_segment_def straddles_def fread_into_def)
next
  case True
  then obtain bs where bs: "fread_sized file (unat (p_offset ph)) (p_memsz ph) = Some bs"
    and t: "p_type ph = PT_LOAD" by auto
  note f = fread_sized_SomeD [OF bs]
  let ?v = "p_vaddr ph" and ?n = "p_memsz ph"
  have base: "mem_base rv = 0" and size: "mem_size rv = M + M" "sint (M + M) = 2 * sint M"
    using g twin_size [OF g] by (auto simp: twin_geometry_def)
  have nonneg: "0 \<le> sint (mem_size rv)"
    using g size by (simp add: twin_geometry_def)
  have len: "int (length bs) = sint ?n"
    using f(2-4) nat_0_le [of "sint ?n"] by simp
  then have pos: "0 < length bs" using f(2) by (cases bs) simp_all
  have off: "sint M + sint (?v - M) = sint ?v" if "M \<le>s ?v"
  proof -
    have "sint (?v - M) = sint ?v - sint M"
      using that g sint_lt [of ?v]
      by (intro sint_diff_exact) (auto simp: word_sle_eq twin_geometry_def)
    then show ?thesis by simp
  qed
  have sim: "sim_load_segment file 0 M M M (Some (contents rv)) ph =
    (if range_check rv ?v ?n \<and> \<not> straddles M ph
     then bind_run (put_bytes (contents rv) (sint ?v) bs) (\<lambda>m. Done (Some (Some m)))
     else Terminated (- 1))"
    using half_checks [OF g f(2), of ?v] off t bs
    by (auto simp: sim_load_segment_def sim_range_def fread_into_def straddles_def)
  have load: "load_segment file rv ph =
    (if \<not> range_check rv ?v ?n then Terminated (- 1)
     else if in_block rv (sint ?v) (length bs) then Done (block_store rv (sint ?v) bs, True)
     else Fault OutOfBlock)"
    using t bs f(2-5) base by (simp add: load_segment_def srv32_write_mem_def Let_def)
  have "put_bytes (contents rv) (sint ?v) bs =
    (if in_block rv (sint ?v) (length bs) then Done (contents (block_store rv (sint ?v) bs))
     else Fault OutOfBlock)"
    using nonneg pos len by (auto simp: put_bytes_def in_block_def contents_block_store)
  then show ?thesis unfolding sim load by auto
qed

lemma twin_geometry_mem: "only_mem_differs rv rv' \<Longrightarrow> twin_geometry M rv' = twin_geometry M rv"
  by (simp add: twin_geometry_def only_mem_differs_frame)

lemma sim_load_segments_twin:
  "twin_geometry M rv \<Longrightarrow>
   sim_load_segments file 0 M M M phs (Some (contents rv)) = Done (Some mem') \<longleftrightarrow>
     (\<exists>rv'. load_segments file phs rv = Done (rv', True) \<and> mem' = Some (contents rv')) \<and>
     list_all (\<lambda>ph. \<not> straddles M ph) phs"
proof (induction phs arbitrary: rv)
  case (Cons ph phs)
  note step = sim_load_segment_twin [OF Cons.prems, where ?file = "file" and ph = ph]
  show ?case
  proof (cases "\<exists>rv1. load_segment file rv ph = Done (rv1, True) \<and> \<not> straddles M ph")
    case True
    then obtain rv1 where rv1: "load_segment file rv ph = Done (rv1, True)" "\<not> straddles M ph"
      by blast
    moreover have "twin_geometry M rv1"
      using Cons.prems twin_geometry_mem [OF load_segment_only_mem [OF rv1(1)]] by simp
    ultimately show ?thesis
      using Cons.IH [of rv1] step [where mem' = "Some (contents rv1)"] by simp
  next
    case False
    then have "sim_load_segment file 0 M M M (Some (contents rv)) ph \<noteq> Done (Some x)" for x
      using step [where mem' = x] by blast
    then show ?thesis
      using False by (auto simp: bind_run_Done_iff split: option.splits if_splits)
  qed
qed auto

lemma sim_elf32_read_twin:
  assumes "twin_geometry M rv"
  shows "sim_elf32_read file (Some (contents rv)) 0 M M M = Done (Some mem') \<longleftrightarrow>
    (\<exists>rv'. elf32_read file rv = Done (rv', True) \<and> mem' = Some (contents rv')) \<and>
    list_all (\<lambda>ph. \<not> straddles M ph) (elf_phdrs file)"
proof (cases "fread_at file 0 ehdr_size")
  case None
  then show ?thesis by (simp add: sim_elf32_read_def elf32_read_def)
next
  case hb: (Some hb)
  let ?n = "unat (e_phnum (ehdr_of hb))"
  show ?thesis
  proof (cases "fread_at file (unat (e_phoff (ehdr_of hb))) (phdr_size * ?n)")
    case None
    then show ?thesis using hb by (simp add: sim_elf32_read_def elf32_read_def Let_def)
  next
    case (Some pb)
    have "elf_phdrs file = phdrs_of pb ?n"
      using fread_at_SomeD [OF hb] fread_at_SomeD [OF Some] by (simp add: elf_phdrs_def Let_def)
    then show ?thesis
      using hb Some sim_load_segments_twin [OF assms]
      by (simp add: sim_elf32_read_def elf32_read_def Let_def)
  qed
qed

lemma sim_elfloader_twin:
  assumes "twin_geometry M rv"
  shows "sim_elfloader (Some file) (Some (contents rv)) 0 M M M = Done (Some mem') \<longleftrightarrow>
    (\<exists>rv'. elfloader (Some file) rv = Done (rv', True) \<and> mem' = Some (contents rv')) \<and>
    list_all (\<lambda>ph. \<not> straddles M ph) (elf_phdrs file)"
  using sim_elf32_read_twin [OF assms, where ?file = "file" and mem' = mem']
  by (auto simp: sim_elfloader_def elfloader_def split: option.splits)

lemma elfread_twin:
  assumes "twin_geometry M rv"
  shows "elfread M (Some (contents rv)) (Some file) = Done (imem, dmem) \<longleftrightarrow>
    (\<exists>rv'. elfloader (Some file) rv = Done (rv', True) \<and> imem @ dmem = contents rv' \<and>
      length imem = nat (sint M)) \<and>
    list_all (\<lambda>ph. \<not> straddles M ph) (elf_phdrs file)"
proof -
  have run: "elfread M (Some (contents rv)) (Some file) = Done (imem, dmem) \<longleftrightarrow>
    (\<exists>m. sim_elfloader (Some file) (Some (contents rv)) 0 M M M = Done (Some (Some m)) \<and>
      imem = take (nat (sint M)) m \<and> dmem = drop (nat (sint M)) m)"
    by (cases "sim_elfloader (Some file) (Some (contents rv)) 0 M M M")
      (auto simp: elfread_def split: option.split)
  have "nat (sint M) \<le> length (contents rv')" if "elfloader (Some file) rv = Done (rv', True)" for rv'
  proof -
    have "twin_geometry M rv'"
      using assms twin_geometry_mem [OF elfloader_only_mem [OF that]] by simp
    then show ?thesis
      using twin_size [of M rv'] by (simp add: twin_geometry_def)
  qed
  then have split: "imem = take (nat (sint M)) m \<and> dmem = drop (nat (sint M)) m \<longleftrightarrow>
      imem @ dmem = m \<and> length imem = nat (sint M)"
    if "m = contents rv'" "elfloader (Some file) rv = Done (rv', True)" for m rv'
    using that append_eq_conv_conj [of imem dmem m] by (auto simp: min_def)
  show ?thesis
    unfolding run sim_elfloader_twin [OF assms] using split by blast
qed

end
