(* ===== verification/Coreutil.thy ===== *)
theory Coreutil
  imports Prelude
begin

text \<open>
  \<open>sw/coremark/core_util.c\<close>: the 16-bit CRC with which CoreMark checks its results, the
  seeds and the check of the data types, as they are built for this target (\<open>SEED_VOLATILE\<close>).
  The CRC is shown to be the remainder of a polynomial division over the field of two
  elements, and to tell apart any two sequences that differ in one value.
\<close>

subsection \<open>Seeds and data types\<close>

text \<open>The five volatile variables, by number.\<close>

definition get_seed_32 :: "(nat \<Rightarrow> i32) \<Rightarrow> i32 \<Rightarrow> i32" where
  "get_seed_32 seed_volatile i =
     (if i = 1 then seed_volatile 1
      else if i = 2 then seed_volatile 2
      else if i = 3 then seed_volatile 3
      else if i = 4 then seed_volatile 4
      else if i = 5 then seed_volatile 5
      else 0)"

definition get_seed :: "(nat \<Rightarrow> i32) \<Rightarrow> i32 \<Rightarrow> u16" where
  "get_seed seed_volatile x = ucast (get_seed_32 seed_volatile x)"

text \<open>\<open>sizeof\<close> of the types, as the compiler answers it.\<close>

record sizes =
  size_u8 :: nat
  size_u16 :: nat
  size_s16 :: nat
  size_s32 :: nat
  size_u32 :: nat
  size_ptr_int :: nat
  size_int_ptr :: nat

definition check_data_types :: "sizes \<Rightarrow> u8" where
  "check_data_types z =
     (let retval = 0 :: u8;
          retval = (if size_u8 z \<noteq> 1 then retval + 1 else retval);
          retval = (if size_u16 z \<noteq> 2 then retval + 1 else retval);
          retval = (if size_s16 z \<noteq> 2 then retval + 1 else retval);
          retval = (if size_s32 z \<noteq> 4 then retval + 1 else retval);
          retval = (if size_u32 z \<noteq> 4 then retval + 1 else retval);
          retval = (if size_ptr_int z \<noteq> size_int_ptr z then retval + 1 else retval)
      in retval)"

subsection \<open>The CRC\<close>

text \<open>One turn of the loop of \<open>crcu8\<close>: the new data and the new code.\<close>

definition crcu8_turn :: "u8 \<Rightarrow> u16 \<Rightarrow> u8 \<times> u16" where
  "crcu8_turn data crc =
     (let x16 = (data AND 1) XOR (ucast crc AND 1);
          data = drop_bit 1 data;
          (crc, carry) = (if x16 = 1 then (crc XOR 0x4002, True) else (crc, False));
          crc = drop_bit 1 crc;
          crc = (if carry then crc OR 0x8000 else crc AND 0x7fff)
      in (data, crc))"

fun crcu8_loop :: "nat \<Rightarrow> u8 \<Rightarrow> u16 \<Rightarrow> u16" where
  "crcu8_loop 0 data crc = crc"
| "crcu8_loop (Suc n) data crc =
     (case crcu8_turn data crc of (data', crc') \<Rightarrow> crcu8_loop n data' crc')"

definition crcu8 :: "u8 \<Rightarrow> u16 \<Rightarrow> u16" where
  "crcu8 data crc = crcu8_loop 8 data crc"

definition crcu16 :: "u16 \<Rightarrow> u16 \<Rightarrow> u16" where
  "crcu16 newval crc =
     (let crc = crcu8 (ucast newval) crc
      in crcu8 (ucast (drop_bit 8 newval)) crc)"

definition crc16 :: "u16 \<Rightarrow> u16 \<Rightarrow> u16" where
  "crc16 newval crc = crcu16 newval crc"

definition crcu32 :: "i32 \<Rightarrow> u16 \<Rightarrow> u16" where
  "crcu32 newval crc =
     (let crc = crc16 (ucast newval) crc
      in crc16 (ucast (drop_bit 16 newval)) crc)"

subsection \<open>The register and its feedback\<close>

text \<open>
  The reference: a shift register with the reflected generator 0xA001, into which the bits
  of the data are added from the lowest one on.
\<close>

definition crc_bit :: "u16 \<Rightarrow> bool \<Rightarrow> u16" where
  "crc_bit c b = drop_bit 1 c XOR (if b \<noteq> bit c 0 then 0xA001 else 0)"

definition low_bits :: "nat \<Rightarrow> 'a::len word \<Rightarrow> bool list" where
  "low_bits n w = map (bit w) [0..<n]"

lemma low_bits_Suc: "low_bits (Suc n) w = bit w 0 # low_bits n (drop_bit 1 w)"
  by (simp add: low_bits_def map_upt_Suc bit_simps del: upt_Suc)

lemma and_1_xor_and_1: "(a AND 1) XOR (b AND 1) = (of_bool (bit a 0 \<noteq> bit b 0) :: 'a::len word)"
  by (rule bit_word_eqI) (auto simp: bit_simps)

lemma word16_eqI:
  "list_all (\<lambda>n. bit a n = bit b n) [0, 1, 2, 3, 4, 5, 6, 7, 8, 9, 10, 11, 12, 13, 14, 15] \<Longrightarrow> a = b"
  for a b :: u16
proof (rule bit_word_eqI)
  fix n assume "list_all (\<lambda>n. bit a n = bit b n) [0, 1, 2, 3, 4, 5, 6, 7, 8, 9, 10, 11, 12, 13, 14, 15]"
    and "n < LENGTH(16)"
  moreover have "set [0, 1, 2, 3, 4, 5, 6, 7, 8, 9, 10, 11, 12, 13, 14, 15] = {..<16 :: nat}"
    by (simp add: set_eq_iff) presburger
  ultimately show "bit a n = bit b n" by (simp only: list_all_iff) simp
qed

lemma crcu8_turn_bit: "crcu8_turn data crc = (drop_bit 1 data, crc_bit crc (bit data 0))"
proof -
  have "drop_bit 1 (c XOR 0x4002) OR 0x8000 = drop_bit 1 c XOR 0xA001"
    "drop_bit 1 c AND 0x7fff = drop_bit 1 c" for c :: u16
    using bit_imp_le_length [of c 16] by (auto intro!: word16_eqI simp: bit_simps)
  then show ?thesis
    by (simp add: crcu8_turn_def and_1_xor_and_1 Let_def crc_bit_def bit_simps)
qed

lemma crcu8_loop_bits: "crcu8_loop n data crc = foldl crc_bit crc (low_bits n data)"
  by (induction n arbitrary: data crc) (simp_all add: crcu8_turn_bit low_bits_Suc low_bits_def[of 0])

lemma crcu8_bits: "crcu8 data crc = foldl crc_bit crc (low_bits 8 data)"
  by (simp add: crcu8_def crcu8_loop_bits)

lemma low_bits_append:
  "low_bits (m + n) w = low_bits m w @ low_bits n (drop_bit m w)"
  by (rule nth_equalityI) (auto simp: low_bits_def nth_append bit_simps)

lemma low_bits_ucast: "n \<le> LENGTH('b) \<Longrightarrow> low_bits n (ucast w :: 'b::len word) = low_bits n w"
  by (auto simp: low_bits_def bit_simps)

lemma crcu16_bits: "crcu16 v crc = foldl crc_bit crc (low_bits 16 v)"
  using low_bits_append [of 8 8 v]
  by (simp add: crcu16_def crcu8_bits low_bits_ucast)

lemma crcu32_bits: "crcu32 v crc = foldl crc_bit crc (low_bits 32 v)"
  using low_bits_append [of 16 16 v]
  by (simp add: crcu32_def crc16_def crcu16_bits low_bits_ucast)

subsection \<open>The remainder of a polynomial division\<close>

text \<open>
  A polynomial over the field of two elements is the integer with its coefficients as bits.
  \<open>gf2_times bs g\<close> is the product of \<open>g\<close> with the polynomial of the coefficients \<open>bs\<close>, the
  highest first. The register holds its polynomial the other way round.
\<close>

definition gf2_times :: "bool list \<Rightarrow> int \<Rightarrow> int" where
  "gf2_times bs g = foldl (\<lambda>a b. push_bit 1 a XOR (if b then g else 0)) 0 bs"

definition crc_generator :: int where
  "crc_generator = 0x18005"

definition reflected :: "u16 \<Rightarrow> int" where
  "reflected c = horner_sum of_bool 2 (rev (low_bits 16 c))"

lemma gf2_times_simps [simp]:
  "gf2_times [] g = 0"
  "gf2_times (bs @ [b]) g = push_bit 1 (gf2_times bs g) XOR (if b then g else 0)"
  by (simp_all add: gf2_times_def)

lemma bit_reflected: "bit (reflected c) n \<longleftrightarrow> n < 16 \<and> bit c (15 - n)"
  by (auto simp: reflected_def bit_horner_sum_bit_iff low_bits_def rev_nth)

lemma bit_generator:
  "bit crc_generator n \<longleftrightarrow> n = 16 \<or> n < 16 \<and> bit (0xA001 :: u16) (15 - n)"
proof (cases "n < 17")
  case True
  have "list_all (\<lambda>n. bit (0x18005 :: int) n = (n = 16 \<or> n < 16 \<and> bit (0xA001 :: u16) (15 - n)))
      [0..<17]"
    by code_simp
  then show ?thesis using True by (simp add: list_all_iff crc_generator_def)
next
  case False
  have "crc_generator = take_bit 17 crc_generator"
    by (simp add: crc_generator_def)
  then have "bit crc_generator n \<longleftrightarrow> n < 17 \<and> bit crc_generator n"
    by (metis bit_take_bit_iff)
  then show ?thesis using False by simp
qed

text \<open>A turn multiplies by the variable and subtracts the generator where it divides.\<close>

lemma reflected_crc_bit:
  "push_bit 1 (reflected c) XOR (if b then 2 ^ 16 else 0) =
     (if b \<noteq> bit c 0 then crc_generator else 0) XOR reflected (crc_bit c b)"
proof (rule bit_eqI)
  fix n
  have top: "bit (65536 :: int) n \<longleftrightarrow> n = 16"
    using bit_exp_iff [of 16 n, where 'a = int] by simp
  have shifted: "bit (reflected c * 2) k \<longleftrightarrow> 0 < k \<and> k < 17 \<and> bit c (16 - k)" for k
    using bit_push_bit_iff [of 1 "reflected c" k]
    by (cases k) (auto simp: bit_reflected bit_0)
  have "bit (reflected (crc_bit c b)) n \<longleftrightarrow>
      n < 16 \<and> (bit c (16 - n) \<noteq> (b \<noteq> bit c 0 \<and> bit (0xA001 :: u16) (15 - n)))"
    by (cases "n < 16") (auto simp: bit_reflected crc_bit_def bit_simps Suc_diff_le [symmetric])
  then show "bit (push_bit 1 (reflected c) XOR (if b then 2 ^ 16 else 0)) n =
    bit ((if b \<noteq> bit c 0 then crc_generator else 0) XOR reflected (crc_bit c b)) n"
    using bit_imp_le_length [of c 16]
    by (cases "n = 0"; cases "n = 16")
      (auto simp: bit_simps bit_generator top shifted)
qed

lemma crc_remainder:
  "\<exists>q. gf2_times bs (2 ^ 16) XOR push_bit (length bs) (reflected c) =
     gf2_times q crc_generator XOR reflected (foldl crc_bit c bs)"
proof (induction bs rule: rev_induct)
  case Nil
  show ?case by (rule exI [of _ "[]"]) simp
next
  case (snoc b bs)
  let ?c = "foldl crc_bit c bs"
  obtain q where q: "gf2_times bs (2 ^ 16) XOR push_bit (length bs) (reflected c) =
     gf2_times q crc_generator XOR reflected ?c"
    using snoc.IH by blast
  have "gf2_times (bs @ [b]) (2 ^ 16) XOR push_bit (length (bs @ [b])) (reflected c) =
    push_bit 1 (gf2_times bs (2 ^ 16) XOR push_bit (length bs) (reflected c))
      XOR (if b then 2 ^ 16 else 0)"
    by (simp add: push_bit_xor ac_simps push_bit_push_bit)
  also have "\<dots> = gf2_times (q @ [b \<noteq> bit ?c 0]) crc_generator XOR reflected (crc_bit ?c b)"
    unfolding q using reflected_crc_bit [of ?c b] by (simp add: push_bit_xor ac_simps)
  finally show ?case by (auto simp del: gf2_times_simps)
qed

lemma reflected_bounds: "0 \<le> reflected c \<and> reflected c < 2 ^ 16"
proof -
  have "take_bit 16 (reflected c) = reflected c"
    by (rule bit_eqI) (auto simp: bit_simps bit_reflected)
  then show ?thesis
    by (metis take_bit_int_less_exp take_bit_nonnegative)
qed

subsection \<open>Errors in one value are detected\<close>

lemma crc_bit_inj: "crc_bit c b = crc_bit c' b \<Longrightarrow> c = c'"
proof (rule bit_word_eqI)
  fix n assume eq: "crc_bit c b = crc_bit c' b" and n: "n < LENGTH(16)"
  have b: "bit (crc_bit c b) k = bit (crc_bit c' b) k" for k by (simp add: eq)
  have fst: "bit c 0 = bit c' 0"
    using b [of 15] bit_imp_le_length [of c 16] bit_imp_le_length [of c' 16]
    by (auto simp: crc_bit_def bit_simps split: if_splits)
  show "bit c n = bit c' n"
  proof (cases n)
    case 0
    then show ?thesis using fst by simp
  next
    case (Suc k)
    then show ?thesis using b [of k] fst by (auto simp: crc_bit_def bit_simps split: if_splits)
  qed
qed

text \<open>Adding the data bit by bit is adding it to the register first.\<close>

lemma crc_bits_shift:
  "n \<le> 16 \<Longrightarrow> foldl crc_bit c (low_bits n v) = foldl crc_bit (c XOR take_bit n v) (replicate n False)"
  for v :: u16
proof (induction n arbitrary: c v)
  case 0
  then show ?case by (simp add: low_bits_def)
next
  case (Suc n)
  have "crc_bit c (bit v 0) XOR take_bit n (drop_bit 1 v) = crc_bit (c XOR take_bit (Suc n) v) False"
    by (rule bit_word_eqI) (auto simp: crc_bit_def bit_simps)
  then show ?case
    using Suc by (simp add: low_bits_Suc)
qed

lemma crcu16_shift: "crcu16 v c = foldl crc_bit (c XOR v) (replicate 16 False)"
  using crc_bits_shift [of 16 c v] by (simp add: crcu16_bits take_bit_word_eq_self)

lemma crc_bits_inj: "foldl crc_bit c bs = foldl crc_bit c' bs \<Longrightarrow> c = c'"
  by (induction bs arbitrary: c c') (auto dest: crc_bit_inj)

lemma crcu16_inj:
  "crcu16 v c = crcu16 v' c \<longleftrightarrow> v = v'" "crcu16 v c = crcu16 v c' \<longleftrightarrow> c = c'"
proof -
  have x: "a XOR b = a XOR b' \<longleftrightarrow> b = b'" for a b b' :: u16
    by (metis xor.assoc xor_self_eq xor.left_neutral)
  show "crcu16 v c = crcu16 v' c \<longleftrightarrow> v = v'" "crcu16 v c = crcu16 v c' \<longleftrightarrow> c = c'"
    using crc_bits_inj [of "c XOR v" "replicate 16 False" "c XOR v'"]
      crc_bits_inj [of "c XOR v" "replicate 16 False" "c' XOR v"] x [of c v v'] x [of v c c']
    by (auto simp: crcu16_shift xor.commute)
qed

lemma crc_values_inj: "foldl (\<lambda>c v. crc16 v c) c vs = foldl (\<lambda>c v. crc16 v c) c' vs \<Longrightarrow> c = c'"
  by (induction vs arbitrary: c c') (auto simp: crc16_def dest: crcu16_inj(2) [THEN iffD1])

lemma crc_detects_one:
  "foldl (\<lambda>c v. crc16 v c) c (vs @ v # ws) = foldl (\<lambda>c v. crc16 v c) c (vs @ v' # ws) \<longleftrightarrow> v = v'"
  using crc_values_inj by (fastforce simp: crc16_def crcu16_inj)

end
