(* ===== verification/Corestate.thy ===== *)
theory Corestate
  imports Coreutil
begin

text \<open>
  \<open>sw/coremark/core_state.c\<close>: the state machine that classifies the tokens of its input, the
  input it is run on, and the benchmark that corrupts and repairs this input between runs. A
  pointer into the input is the list of the bytes from there on; reading behind the block is
  a fault. The classification is compared with grammars of numbers, and the benchmark is
  shown to stay inside its block.
\<close>

subsection \<open>The state machine\<close>

datatype core_state =
  CORE_START | CORE_INVALID | CORE_S1 | CORE_S2 | CORE_INT | CORE_FLOAT | CORE_EXPONENT
  | CORE_SCIENTIFIC

definition core_states :: "core_state list" where
  "core_states = [CORE_START, CORE_INVALID, CORE_S1, CORE_S2, CORE_INT, CORE_FLOAT,
     CORE_EXPONENT, CORE_SCIENTIFIC]"

type_synonym counts = "core_state \<Rightarrow> i32"

abbreviation (input) COMMA :: u8 where "COMMA \<equiv> 0x2c"
abbreviation (input) PLUS :: u8 where "PLUS \<equiv> 0x2b"
abbreviation (input) MINUS :: u8 where "MINUS \<equiv> 0x2d"
abbreviation (input) DOT :: u8 where "DOT \<equiv> 0x2e"
abbreviation (input) UPPER_E :: u8 where "UPPER_E \<equiv> 0x45"
abbreviation (input) LOWER_E :: u8 where "LOWER_E \<equiv> 0x65"

definition ee_isdigit :: "u8 \<Rightarrow> bool" where
  "ee_isdigit c \<longleftrightarrow> 0x30 \<le> c \<and> c \<le> 0x39"

definition count_up :: "core_state \<Rightarrow> counts \<Rightarrow> counts" where
  "count_up st t = t(st := t st + 1)"

text \<open>The switch: the next state and the counters of transitions.\<close>

fun core_state_switch :: "core_state \<Rightarrow> u8 \<Rightarrow> counts \<Rightarrow> core_state \<times> counts" where
  "core_state_switch CORE_START c t =
     (if ee_isdigit c then (CORE_INT, count_up CORE_START t)
      else if c = PLUS \<or> c = MINUS then (CORE_S1, count_up CORE_START t)
      else if c = DOT then (CORE_FLOAT, count_up CORE_START t)
      else (CORE_INVALID, count_up CORE_START (count_up CORE_INVALID t)))"
| "core_state_switch CORE_S1 c t =
     (if ee_isdigit c then (CORE_INT, count_up CORE_S1 t)
      else if c = DOT then (CORE_FLOAT, count_up CORE_S1 t)
      else (CORE_INVALID, count_up CORE_S1 t))"
| "core_state_switch CORE_INT c t =
     (if c = DOT then (CORE_FLOAT, count_up CORE_INT t)
      else if \<not> ee_isdigit c then (CORE_INVALID, count_up CORE_INT t)
      else (CORE_INT, t))"
| "core_state_switch CORE_FLOAT c t =
     (if c = UPPER_E \<or> c = LOWER_E then (CORE_S2, count_up CORE_FLOAT t)
      else if \<not> ee_isdigit c then (CORE_INVALID, count_up CORE_FLOAT t)
      else (CORE_FLOAT, t))"
| "core_state_switch CORE_S2 c t =
     (if c = PLUS \<or> c = MINUS then (CORE_EXPONENT, count_up CORE_S2 t)
      else (CORE_INVALID, count_up CORE_S2 t))"
| "core_state_switch CORE_EXPONENT c t =
     (if ee_isdigit c then (CORE_SCIENTIFIC, count_up CORE_EXPONENT t)
      else (CORE_INVALID, count_up CORE_EXPONENT t))"
| "core_state_switch CORE_SCIENTIFIC c t =
     (if \<not> ee_isdigit c then (CORE_INVALID, count_up CORE_INVALID t)
      else (CORE_SCIENTIFIC, t))"
| "core_state_switch CORE_INVALID c t = (CORE_INVALID, t)"

fun core_state_loop :: "core_state \<Rightarrow> counts \<Rightarrow> u8 list \<Rightarrow> (core_state \<times> counts \<times> u8 list) run" where
  "core_state_loop st t [] = Fault OutOfBlock"
| "core_state_loop st t (c # cs) =
     (if c = 0 \<or> st = CORE_INVALID then Done (st, t, c # cs)
      else if c = COMMA then Done (st, t, cs)
      else case core_state_switch st c t of (st', t') \<Rightarrow> core_state_loop st' t' cs)"

definition core_state_transition :: "u8 list \<Rightarrow> counts \<Rightarrow> (core_state \<times> counts \<times> u8 list) run" where
  "core_state_transition str t = core_state_loop CORE_START t str"

subsection \<open>The benchmark\<close>

lemma core_state_loop_shorter:
  "core_state_loop st t cs = Done (st', t', rest) \<Longrightarrow> length rest \<le> length cs"
  by (induction st t cs rule: core_state_loop.induct) (auto split: if_splits prod.splits)

lemma core_state_transition_shorter:
  assumes "core_state_transition (c # cs) t = Done (st', t', rest)" "c \<noteq> 0"
  shows "length rest < length (c # cs)"
proof -
  have "length rest \<le> length cs"
    using assms core_state_loop_shorter
    by (fastforce simp: core_state_transition_def split: if_splits prod.splits)
  then show ?thesis by simp
qed

text \<open>A run over the input, with the counters of final states and of transitions.\<close>

function core_state_scan :: "u8 list \<Rightarrow> counts \<Rightarrow> counts \<Rightarrow> (counts \<times> counts) run" where
  "core_state_scan [] final track = Fault OutOfBlock"
| "core_state_scan (c # cs) final track =
     (if c = 0 then Done (final, track)
      else case core_state_transition (c # cs) track of
        Done (st, track', rest) \<Rightarrow> core_state_scan rest (count_up st final) track'
      | Terminated e \<Rightarrow> Terminated e
      | Fault f \<Rightarrow> Fault f)"
  by pat_completeness auto
termination
  by (relation "measure (\<lambda>(cs, _, _). length cs)")
    (auto dest: core_state_transition_shorter)

text \<open>
  The loops that change every \<open>step\<close>-th byte: the index is the distance from the start of
  the block. With a step of 0 the loop does not end; with a negative one it leaves the block.
\<close>

partial_function (option) core_state_corrupt ::
    "u8 list \<Rightarrow> int \<Rightarrow> i32 \<Rightarrow> u16 \<Rightarrow> u16 \<Rightarrow> u8 list comp" where
  "core_state_corrupt blk p blksize seed step =
     (if p < int (unat blksize)
      then if p < 0 \<or> int (length blk) \<le> p then Some (Fault OutOfBlock)
           else core_state_corrupt
                  (if blk ! nat p \<noteq> COMMA then blk[nat p := blk ! nat p XOR ucast seed] else blk)
                  (p + sint step) blksize seed step
      else Some (Done blk))"

fun crc_counts :: "counts \<Rightarrow> counts \<Rightarrow> core_state list \<Rightarrow> u16 \<Rightarrow> u16" where
  "crc_counts final track [] crc = crc"
| "crc_counts final track (i # is) crc =
     (let crc = crcu32 (final i) crc; crc = crcu32 (track i) crc
      in crc_counts final track is crc)"

definition core_bench_state ::
    "i32 \<Rightarrow> u8 list \<Rightarrow> u16 \<Rightarrow> u16 \<Rightarrow> u16 \<Rightarrow> u16 \<Rightarrow> (u16 \<times> u8 list) comp" where
  "core_bench_state blksize memblock seed1 seed2 step crc =
     bind_comp (Some (core_state_scan memblock (\<lambda>_. 0) (\<lambda>_. 0))) (\<lambda>(final, track).
     bind_comp (core_state_corrupt memblock 0 blksize seed1 step) (\<lambda>memblock.
     bind_comp (Some (core_state_scan memblock final track)) (\<lambda>(final, track).
     bind_comp (core_state_corrupt memblock 0 blksize seed2 step) (\<lambda>memblock.
       Some (Done (crc_counts final track core_states crc, memblock))))))"

subsection \<open>The input\<close>

definition intpat :: "u8 list list" where
  "intpat = [ascii ''5012'', ascii ''1234'', ascii ''-874'', ascii ''+122'']"

definition floatpat :: "u8 list list" where
  "floatpat = [ascii ''35.54400'', ascii ''.1234500'', ascii ''-110.700'', ascii ''+0.64400'']"

definition scipat :: "u8 list list" where
  "scipat = [ascii ''5.500e+3'', ascii ''-.123e-2'', ascii ''-87e+832'', ascii ''+0.6e-12'']"

definition errpat :: "u8 list list" where
  "errpat = [ascii ''T0.3e-1F'', ascii ''-T.T++Tq'', ascii ''1T3.4e4z'', ascii ''34.0e-T^'']"

text \<open>The switch over the seed: the pattern and its length.\<close>

definition core_init_pattern :: "u16 \<Rightarrow> u8 list \<times> nat" where
  "core_init_pattern seed =
     (let k = unat (seed AND 0x7); row = unat (signed_drop_bit 3 seed AND 0x3)
      in if k \<le> 2 then (intpat ! row, 4)
         else if k \<le> 4 then (floatpat ! row, 8)
         else if k \<le> 6 then (scipat ! row, 8)
         else (errpat ! row, 8))"

definition store_all :: "u8 list \<Rightarrow> nat \<Rightarrow> u8 list \<Rightarrow> u8 list run" where
  "store_all blk p bs =
     (if p + length bs \<le> length blk
      then Done (take p blk @ bs @ drop (p + length bs) blk)
      else Fault OutOfBlock)"

text \<open>The filling loop: what is left is the total and the block.\<close>

partial_function (option) core_init_fill ::
    "i32 \<Rightarrow> i32 \<Rightarrow> nat \<Rightarrow> u8 list \<Rightarrow> u16 \<Rightarrow> u8 list \<Rightarrow> (i32 \<times> u8 list) comp" where
  "core_init_fill size1 tot nxt buf seed blk =
     (if tot + of_nat nxt + 1 < size1
      then bind_comp
        (Some (if 0 < nxt then store_all blk (unat tot) (take nxt buf @ [COMMA]) else Done blk))
        (\<lambda>blk'.
          (case core_init_pattern (seed + 1) of (buf', nxt') \<Rightarrow>
             core_init_fill size1 (if 0 < nxt then tot + of_nat nxt + 1 else tot)
               nxt' buf' (seed + 1) blk'))
      else Some (Done (tot, blk)))"

definition core_init_state :: "i32 \<Rightarrow> u16 \<Rightarrow> u8 list \<Rightarrow> u8 list comp" where
  "core_init_state blksize seed p =
     bind_comp (core_init_fill (blksize - 1) 0 0 [] seed p) (\<lambda>(tot, blk).
       Some (store_all blk (unat tot) (replicate (unat blksize - unat tot) 0)))"

subsection \<open>The numbers the machine recognises\<close>

definition digits :: "u8 list \<Rightarrow> bool" where
  "digits w \<longleftrightarrow> list_all ee_isdigit w"

definition sign_part :: "u8 list \<Rightarrow> bool" where
  "sign_part s \<longleftrightarrow> s = [] \<or> s = [PLUS] \<or> s = [MINUS]"

definition int_literal :: "u8 list \<Rightarrow> bool" where
  "int_literal w \<longleftrightarrow> (\<exists>s d. w = s @ d \<and> sign_part s \<and> d \<noteq> [] \<and> digits d)"

definition float_literal :: "u8 list \<Rightarrow> bool" where
  "float_literal w \<longleftrightarrow> (\<exists>s i f. w = s @ i @ DOT # f \<and> sign_part s \<and> digits i \<and> digits f)"

definition sci_literal :: "u8 list \<Rightarrow> bool" where
  "sci_literal w \<longleftrightarrow>
     (\<exists>m e sg d. w = m @ e # sg # d \<and> float_literal m \<and> (e = UPPER_E \<or> e = LOWER_E) \<and>
        (sg = PLUS \<or> sg = MINUS) \<and> d \<noteq> [] \<and> digits d)"

definition number_literal :: "u8 list \<Rightarrow> bool" where
  "number_literal w \<longleftrightarrow> int_literal w \<or> float_literal w \<or> sci_literal w"

definition state_after :: "core_state \<Rightarrow> u8 list \<Rightarrow> core_state" where
  "state_after = foldl (\<lambda>st c. fst (core_state_switch st c (\<lambda>_. 0)))"

lemma state_after_simps [simp]:
  "state_after st [] = st"
  "state_after st (c # cs) = state_after (fst (core_state_switch st c (\<lambda>_. 0))) cs"
  "state_after st (xs @ ys) = state_after (state_after st xs) ys"
  by (simp_all add: state_after_def)

lemma switch_state: "fst (core_state_switch st c t) = fst (core_state_switch st c (\<lambda>_. 0))"
  by (cases st) simp_all

lemma state_after_invalid [simp]: "state_after CORE_INVALID w = CORE_INVALID"
  by (induction w) simp_all

lemma digits_simps [simp]:
  "digits []" "digits (c # w) \<longleftrightarrow> ee_isdigit c \<and> digits w" "digits (v @ w) \<longleftrightarrow> digits v \<and> digits w"
  by (simp_all add: digits_def)

lemma not_digit [simp]:
  "\<not> ee_isdigit PLUS" "\<not> ee_isdigit MINUS" "\<not> ee_isdigit DOT" "\<not> ee_isdigit UPPER_E"
  "\<not> ee_isdigit LOWER_E" "ee_isdigit 0x30"
  by (simp_all add: ee_isdigit_def)

text \<open>The loop is the automaton, up to the end of the token.\<close>

lemma core_state_loop_token:
  assumes "0 \<notin> set w" "COMMA \<notin> set w" "d = 0 \<or> d = COMMA"
    and "core_state_loop st t (w @ d # rest) = Done (st', t', rest')"
  shows "st' = state_after st w"
  using assms
proof (induction w arbitrary: st t)
  case Nil
  then show ?case by (auto split: if_splits prod.splits)
next
  case (Cons c w)
  obtain st1 t1 where sw: "core_state_switch st c t = (st1, t1)" by force
  then have "fst (core_state_switch st c (\<lambda>_. 0)) = st1"
    using switch_state [of st c t] by simp
  then show ?case
    using Cons sw by (cases "st = CORE_INVALID") auto
qed

lemma token_ends:
  "d = 0 \<or> d = COMMA \<Longrightarrow> \<exists>st' t' rest'. core_state_loop st t (w @ d # rest) = Done (st', t', rest')"
proof (induction w arbitrary: st t)
  case Nil
  then show ?case by (auto split: prod.splits)
next
  case (Cons c w)
  obtain st1 t1 where "core_state_switch st c t = (st1, t1)" by force
  then show ?case using Cons by auto
qed

text \<open>A word that has, after some digits, a character and a rest of a kind.\<close>

definition after_digits :: "(u8 \<Rightarrow> u8 list \<Rightarrow> bool) \<Rightarrow> u8 list \<Rightarrow> bool" where
  "after_digits Q w \<longleftrightarrow> (\<exists>i c r. w = i @ c # r \<and> digits i \<and> Q c r)"

lemma after_digits_Cons [simp]:
  "after_digits Q (c # w) \<longleftrightarrow> Q c w \<or> ee_isdigit c \<and> after_digits Q w"
proof
  assume "after_digits Q (c # w)"
  then obtain i d r where "c # w = i @ d # r" "digits i" "Q d r"
    unfolding after_digits_def by blast
  then show "Q c w \<or> ee_isdigit c \<and> after_digits Q w"
    unfolding after_digits_def by (cases i) auto
next
  have "after_digits Q (c # w)" if "Q c w"
    unfolding after_digits_def using that digits_simps(1) by (metis append_Nil)
  moreover have "after_digits Q (c # w)" if "ee_isdigit c" "after_digits Q w"
    using that unfolding after_digits_def by (metis append_Cons digits_simps(2))
  ultimately show "Q c w \<or> ee_isdigit c \<and> after_digits Q w \<Longrightarrow> after_digits Q (c # w)"
    by blast
qed

lemma after_digits_Nil [simp]: "\<not> after_digits Q []"
  by (simp add: after_digits_def)

lemma scientific_rest:
  "state_after CORE_SCIENTIFIC w = (if digits w then CORE_SCIENTIFIC else CORE_INVALID)"
  by (induction w) simp_all

lemma exponent_rest:
  "state_after CORE_EXPONENT w = CORE_SCIENTIFIC \<longleftrightarrow> w \<noteq> [] \<and> digits w"
  by (cases w) (simp_all add: scientific_rest)

lemma s2_rest:
  "state_after CORE_S2 w = CORE_SCIENTIFIC \<longleftrightarrow>
     (\<exists>sg d. w = sg # d \<and> (sg = PLUS \<or> sg = MINUS) \<and> d \<noteq> [] \<and> digits d)"
  by (cases w) (auto simp: exponent_rest)

text \<open>From the later states the earlier ones are not reached.\<close>

lemma no_way_back:
  "state_after CORE_EXPONENT w \<in> {CORE_EXPONENT, CORE_SCIENTIFIC, CORE_INVALID}"
  "state_after CORE_S2 w \<in> {CORE_S2, CORE_EXPONENT, CORE_SCIENTIFIC, CORE_INVALID}"
proof -
  show *: "state_after CORE_EXPONENT w \<in> {CORE_EXPONENT, CORE_SCIENTIFIC, CORE_INVALID}" for w
    by (cases w) (simp_all add: scientific_rest)
  show "state_after CORE_S2 w \<in> {CORE_S2, CORE_EXPONENT, CORE_SCIENTIFIC, CORE_INVALID}"
    using * by (cases w) auto
qed

lemma float_rest:
  "state_after CORE_FLOAT w = CORE_FLOAT \<longleftrightarrow> digits w"
  "state_after CORE_FLOAT w = CORE_SCIENTIFIC \<longleftrightarrow>
     after_digits (\<lambda>e r. (e = UPPER_E \<or> e = LOWER_E) \<and> state_after CORE_S2 r = CORE_SCIENTIFIC) w"
  "state_after CORE_FLOAT w \<noteq> CORE_INT"
proof (induction w)
  case (Cons c w)
  {
    case 1
    show ?case using Cons no_way_back(2) [of w] by auto
  next
    case 2
    show ?case
      using Cons no_way_back(2) [of w] by auto
  next
    case 3
    show ?case using Cons no_way_back(2) [of w] by auto
  }
qed auto

lemma int_rest:
  "state_after CORE_INT w = CORE_INT \<longleftrightarrow> digits w"
  "x = CORE_FLOAT \<or> x = CORE_SCIENTIFIC \<Longrightarrow> state_after CORE_INT w = x \<longleftrightarrow>
     after_digits (\<lambda>c r. c = DOT \<and> state_after CORE_FLOAT r = x) w"
proof (induction w)
  case (Cons c w)
  {
    case 1
    show ?case using Cons float_rest(3) [of w] by auto
  next
    case 2
    then show ?case using Cons by auto
  }
qed auto

lemma s1_rest:
  "state_after CORE_S1 w = CORE_INT \<longleftrightarrow> w \<noteq> [] \<and> digits w"
  "x = CORE_FLOAT \<or> x = CORE_SCIENTIFIC \<Longrightarrow> state_after CORE_S1 w = x \<longleftrightarrow>
     after_digits (\<lambda>c r. c = DOT \<and> state_after CORE_FLOAT r = x) w"
  by (cases w; auto simp: int_rest float_rest(3))+

lemma sign_part_split:
  "(\<exists>s r. w = s @ r \<and> sign_part s \<and> P r) \<longleftrightarrow>
     P w \<or> (\<exists>r. w = PLUS # r \<and> P r) \<or> (\<exists>r. w = MINUS # r \<and> P r)"
proof
  show "\<exists>s r. w = s @ r \<and> sign_part s \<and> P r \<Longrightarrow>
    P w \<or> (\<exists>r. w = PLUS # r \<and> P r) \<or> (\<exists>r. w = MINUS # r \<and> P r)"
    by (auto simp: sign_part_def)
  show "P w \<or> (\<exists>r. w = PLUS # r \<and> P r) \<or> (\<exists>r. w = MINUS # r \<and> P r) \<Longrightarrow>
    \<exists>s r. w = s @ r \<and> sign_part s \<and> P r"
    unfolding sign_part_def by (metis append_Nil append_Cons)
qed

lemma start_rest:
  "x = CORE_INT \<or> x = CORE_FLOAT \<or> x = CORE_SCIENTIFIC \<Longrightarrow>
   state_after CORE_START w = x \<longleftrightarrow> (\<exists>s r. w = s @ r \<and> sign_part s \<and> state_after CORE_S1 r = x)"
  unfolding sign_part_split by (cases w) auto

lemma int_recognised: "state_after CORE_START w = CORE_INT \<longleftrightarrow> int_literal w"
  by (simp add: start_rest s1_rest int_literal_def)

lemma float_recognised: "state_after CORE_START w = CORE_FLOAT \<longleftrightarrow> float_literal w"
  by (auto simp: start_rest s1_rest float_rest(1) float_literal_def after_digits_def)

lemma sci_recognised: "state_after CORE_START w = CORE_SCIENTIFIC \<longleftrightarrow> sci_literal w"
proof
  assume "state_after CORE_START w = CORE_SCIENTIFIC"
  then obtain s r where w: "w = s @ r" "sign_part s" "state_after CORE_S1 r = CORE_SCIENTIFIC"
    unfolding start_rest [OF disjI2 [OF disjI2 [OF refl]]] by blast
  then obtain i r1 where r: "r = i @ DOT # r1" "digits i" "state_after CORE_FLOAT r1 = CORE_SCIENTIFIC"
    unfolding s1_rest(2) [OF disjI2 [OF refl]] after_digits_def by blast
  then obtain f e r2 where r1: "r1 = f @ e # r2" "digits f" "e = UPPER_E \<or> e = LOWER_E"
    and "state_after CORE_S2 r2 = CORE_SCIENTIFIC"
    unfolding float_rest(2) after_digits_def by blast
  then obtain sg d where r2: "r2 = sg # d" "sg = PLUS \<or> sg = MINUS" "d \<noteq> []" "digits d"
    unfolding s2_rest by blast
  have "float_literal (s @ i @ DOT # f)"
    using w r r1 unfolding float_literal_def by blast
  moreover have "w = (s @ i @ DOT # f) @ e # sg # d"
    using w r r1 r2 by simp
  ultimately show "sci_literal w"
    using r1 r2 unfolding sci_literal_def by blast
next
  assume "sci_literal w"
  then obtain m e sg d where w: "w = m @ e # sg # d" "float_literal m" "e = UPPER_E \<or> e = LOWER_E"
    "sg = PLUS \<or> sg = MINUS" "d \<noteq> []" "digits d"
    unfolding sci_literal_def by blast
  have "state_after CORE_START m = CORE_FLOAT"
    using w(2) by (simp add: float_recognised)
  moreover have "state_after CORE_S2 (sg # d) = CORE_SCIENTIFIC"
    using w(4-6) s2_rest by blast
  ultimately show "state_after CORE_START w = CORE_SCIENTIFIC"
    using w(1,3) by auto
qed

lemma accepted_prefix:
  "state_after CORE_START w = CORE_INVALID \<longleftrightarrow> (\<forall>v. \<not> number_literal (w @ v))"
proof
  assume "state_after CORE_START w = CORE_INVALID"
  then have "state_after CORE_START (w @ v) = CORE_INVALID" for v by simp
  then show "\<forall>v. \<not> number_literal (w @ v)"
    unfolding number_literal_def
    by (metis int_recognised float_recognised sci_recognised core_state.distinct)
next
  have "\<exists>v. state_after st v \<in> {CORE_INT, CORE_FLOAT, CORE_SCIENTIFIC}" if "st \<noteq> CORE_INVALID" for st
  proof -
    have "state_after st [] \<in> {CORE_INT, CORE_FLOAT, CORE_SCIENTIFIC} \<or>
      state_after st [0x30] \<in> {CORE_INT, CORE_FLOAT, CORE_SCIENTIFIC} \<or>
      state_after st [PLUS, 0x30] \<in> {CORE_INT, CORE_FLOAT, CORE_SCIENTIFIC}"
      using that by (cases st) simp_all
    then show ?thesis by blast
  qed
  then show "\<forall>v. \<not> number_literal (w @ v) \<Longrightarrow> state_after CORE_START w = CORE_INVALID"
    unfolding number_literal_def int_recognised [symmetric] float_recognised [symmetric]
      sci_recognised [symmetric]
    by fastforce
qed

subsection \<open>The benchmark stays in its block\<close>

lemma core_state_loop_stops:
  "0 \<in> set cs \<Longrightarrow> \<exists>st' t' rest. core_state_loop st t cs = Done (st', t', rest) \<and> 0 \<in> set rest"
  by (induction st t cs rule: core_state_loop.induct) (auto split: prod.splits)

lemma core_state_scan_stops:
  "0 \<in> set cs \<Longrightarrow> \<exists>r. core_state_scan cs f t = Done r"
proof (induction cs f t rule: core_state_scan.induct)
  case (2 c cs f t)
  show ?case
  proof (cases "c = 0")
    case False
    obtain st t' rest where "core_state_transition (c # cs) t = Done (st, t', rest)" "0 \<in> set rest"
      using core_state_loop_stops [OF "2.prems", of CORE_START t]
      unfolding core_state_transition_def by blast
    then show ?thesis using 2 False by simp
  qed simp
qed simp

text \<open>What a loop over every \<open>step\<close>-th byte leaves, from the index \<open>p\<close> on.\<close>

definition corrupt_byte :: "u16 \<Rightarrow> u8 \<Rightarrow> u8" where
  "corrupt_byte seed b = (if b \<noteq> COMMA then b XOR ucast seed else b)"

definition corrupted :: "nat \<Rightarrow> nat \<Rightarrow> u16 \<Rightarrow> u8 list \<Rightarrow> u8 list" where
  "corrupted p step seed blk =
     map (\<lambda>i. if p \<le> i \<and> step dvd (i - p) then corrupt_byte seed (blk ! i) else blk ! i)
       [0..<length blk]"

lemma length_corrupted [simp]: "length (corrupted p step seed blk) = length blk"
  by (simp add: corrupted_def)

lemma corrupted_beyond: "length blk \<le> p \<Longrightarrow> corrupted p step seed blk = blk"
  by (rule nth_equalityI) (auto simp: corrupted_def)

lemma corrupted_step:
  assumes "p < length blk" "0 < step"
  shows "corrupted p step seed blk =
    corrupted (p + step) step seed (blk[p := corrupt_byte seed (blk ! p)])"
proof (rule nth_equalityI)
  fix i assume "i < length (corrupted p step seed blk)"
  moreover have "step dvd (i - p) \<longleftrightarrow> i = p \<or> p + step \<le> i \<and> step dvd (i - (p + step))" if "p \<le> i"
  proof (cases "p + step \<le> i")
    case True
    then have "i - p = (i - (p + step)) + step" by simp
    then show ?thesis using True assms(2) by (metis dvd_add_triv_right_iff le_add1 trans_less_add1 not_le add_le_same_cancel1)
  next
    case False
    then have "i - p < step" using that by simp
    then show ?thesis using False that by (auto dest: nat_dvd_not_less)
  qed
  ultimately show "corrupted p step seed blk ! i =
      corrupted (p + step) step seed (blk[p := corrupt_byte seed (blk ! p)]) ! i"
    using assms by (auto simp: corrupted_def nth_list_update)
qed simp

lemma core_state_corrupt_eq:
  assumes "0 < sint step" "length blk = unat blksize"
  shows "core_state_corrupt blk (int p) blksize seed step =
    Some (Done (corrupted p (nat (sint step)) seed blk))"
  using assms(2)
proof (induction "length blk - p" arbitrary: p blk rule: less_induct)
  case less
  show ?case
  proof (cases "p < length blk")
    case True
    let ?blk = "blk[p := corrupt_byte seed (blk ! p)]"
    have "(if blk ! p \<noteq> COMMA then blk[p := blk ! p XOR ucast seed] else blk) = ?blk"
      by (auto simp: corrupt_byte_def) (metis list_update_id)
    then have "core_state_corrupt blk (int p) blksize seed step =
      core_state_corrupt ?blk (int (p + nat (sint step))) blksize seed step"
      using True assms(1) unfolding core_state_corrupt.simps [of blk "int p"] less.prems [symmetric] nat_int
      by (simp split del: if_split)
    also have "\<dots> = Some (Done (corrupted (p + nat (sint step)) (nat (sint step)) seed ?blk))"
      using True less.prems assms(1) by (intro less.hyps) auto
    finally show ?thesis
      using corrupted_step [OF True] assms(1) by simp
  next
    case False
    then show ?thesis
      unfolding core_state_corrupt.simps [of blk "int p"] less.prems [symmetric]
      by (simp add: corrupted_beyond)
  qed
qed

text \<open>Of two neighbouring bytes one is not touched when the step is at least 2.\<close>

lemma corrupted_keeps_zero:
  assumes "2 \<le> step" "2 \<le> length blk" "blk ! (length blk - 1) = 0" "blk ! (length blk - 2) = 0"
  shows "0 \<in> set (corrupted 0 step seed blk)"
proof -
  let ?n = "length blk"
  have "\<not> (step dvd (?n - 1) \<and> step dvd (?n - 2))"
  proof
    assume "step dvd (?n - 1) \<and> step dvd (?n - 2)"
    then have "step dvd (?n - 1) - (?n - 2)" by (blast intro: dvd_diff_nat)
    moreover have "(?n - 1) - (?n - 2) = 1" using assms(2) by simp
    ultimately show False using assms(1) by simp
  qed
  then have "corrupted 0 step seed blk ! (?n - 1) = 0 \<or> corrupted 0 step seed blk ! (?n - 2) = 0"
    using assms by (auto simp: corrupted_def)
  then show ?thesis
    using assms(2) nth_mem [of "?n - 1" "corrupted 0 step seed blk"]
      nth_mem [of "?n - 2" "corrupted 0 step seed blk"] by fastforce
qed

definition ends_in_zeros :: "u8 list \<Rightarrow> bool" where
  "ends_in_zeros blk \<longleftrightarrow>
     2 \<le> length blk \<and> blk ! (length blk - 1) = 0 \<and> blk ! (length blk - 2) = 0"

lemma bench_state_returns:
  assumes "ends_in_zeros blk" "length blk = unat blksize" "2 \<le> sint step"
  shows "\<exists>crc'. core_bench_state blksize blk seed1 seed2 step crc =
    Some (Done (crc', corrupted 0 (nat (sint step)) seed2 (corrupted 0 (nat (sint step)) seed1 blk)))"
proof -
  let ?k = "nat (sint step)" and ?b1 = "corrupted 0 (nat (sint step)) seed1 blk"
  have "0 \<in> set blk"
    using assms(1) nth_mem [of "length blk - 1" blk] by (fastforce simp: ends_in_zeros_def)
  then obtain f t where one: "core_state_scan blk (\<lambda>_. 0) (\<lambda>_. 0) = Done (f, t)"
    using core_state_scan_stops by (metis surj_pair)
  have "0 \<in> set ?b1"
    using corrupted_keeps_zero [of ?k blk seed1] assms by (simp add: ends_in_zeros_def)
  then obtain f' t' where two: "core_state_scan ?b1 f t = Done (f', t')"
    using core_state_scan_stops by (metis surj_pair)
  show ?thesis
    using one two core_state_corrupt_eq [of step blk blksize 0 seed1]
      core_state_corrupt_eq [of step ?b1 blksize 0 seed2] assms
    by (simp add: core_bench_state_def)
qed

text \<open>When the corruption is undone.\<close>

lemma corrupt_byte_twice:
  "corrupt_byte seed (corrupt_byte seed b) = b \<longleftrightarrow> b = COMMA \<or> b XOR ucast seed \<noteq> COMMA"
  by (auto simp: corrupt_byte_def xor.assoc)

lemma corrupted_twice:
  "corrupted 0 step seed (corrupted 0 step seed blk) = blk \<longleftrightarrow>
     (\<forall>i < length blk. step dvd i \<longrightarrow> blk ! i = COMMA \<or> blk ! i XOR ucast seed \<noteq> COMMA)"
proof -
  let ?c = "corrupted 0 step seed (corrupted 0 step seed blk)"
  have "?c ! i = (if step dvd i then corrupt_byte seed (corrupt_byte seed (blk ! i)) else blk ! i)"
    if "i < length blk" for i
    using that by (simp add: corrupted_def)
  then have "?c = blk \<longleftrightarrow>
      (\<forall>i < length blk. step dvd i \<longrightarrow> corrupt_byte seed (corrupt_byte seed (blk ! i)) = blk ! i)"
    by (auto simp: list_eq_iff_nth_eq)
  then show ?thesis unfolding corrupt_byte_twice .
qed

subsection \<open>The input fills its block\<close>

lemma init_pattern_length:
  "core_init_pattern seed = (buf, nxt) \<Longrightarrow> length buf = nxt \<and> (nxt = 4 \<or> nxt = 8)"
proof -
  define row where "row = unat (signed_drop_bit 3 seed AND 0x3)"
  have "signed_drop_bit 3 seed AND 0x3 \<le> 0x3" by (rule word_and_le1)
  then have "row \<le> 3" by (simp add: row_def word_le_nat_alt)
  then have "row = 0 \<or> row = 1 \<or> row = 2 \<or> row = 3" by linarith
  moreover assume "core_init_pattern seed = (buf, nxt)"
  ultimately show ?thesis
    by (auto simp: core_init_pattern_def Let_def row_def [symmetric] ascii_def
        intpat_def floatpat_def scipat_def errpat_def split: if_splits)
qed

text \<open>The bytes of the patterns have a property that the comma and 0 have.\<close>

definition pattern_bytes :: "(u8 \<Rightarrow> bool) \<Rightarrow> bool" where
  "pattern_bytes P \<longleftrightarrow> list_all (list_all P) (intpat @ floatpat @ scipat @ errpat) \<and> P COMMA \<and> P 0"

lemma init_pattern_bytes:
  assumes "core_init_pattern seed = (buf, nxt)" "pattern_bytes P"
  shows "list_all P buf"
proof -
  define row where "row = unat (signed_drop_bit 3 seed AND 0x3)"
  have "signed_drop_bit 3 seed AND 0x3 \<le> 0x3" by (rule word_and_le1)
  then have "row \<le> 3" by (simp add: row_def word_le_nat_alt)
  moreover have "length intpat = 4" "length floatpat = 4" "length scipat = 4" "length errpat = 4"
    by (simp_all add: intpat_def floatpat_def scipat_def errpat_def)
  ultimately have "buf \<in> set (intpat @ floatpat @ scipat @ errpat)"
    using assms(1) by (auto simp: core_init_pattern_def Let_def row_def [symmetric] split: if_splits)
  then show ?thesis using assms(2) unfolding pattern_bytes_def list_all_iff by blast
qed

lemma store_all_length: "store_all blk p bs = Done blk' \<Longrightarrow> length blk' = length blk"
  by (auto simp: store_all_def split: if_splits)

lemma store_all_bytes:
  assumes "store_all blk p bs = Done blk'" "list_all P (take p blk)" "list_all P bs"
  shows "list_all P (take (p + length bs) blk')"
proof -
  have "p + length bs \<le> length blk" "blk' = take p blk @ bs @ drop (p + length bs) blk"
    using assms(1) by (simp_all add: store_all_def split: if_splits)
  then show ?thesis using assms(2,3) by simp
qed

lemma core_init_fill_ends:
  assumes "pattern_bytes P"
    and "unat size1 < length blk" "unat size1 < 2 ^ 31" "unat tot < unat size1"
    and "nxt = 4 \<or> nxt = 8" "length buf = nxt" "list_all P buf" "list_all P (take (unat tot) blk)"
  shows "\<exists>tot' blk'. core_init_fill size1 tot nxt buf seed blk = Some (Done (tot', blk')) \<and>
    unat tot' < unat size1 \<and> length blk' = length blk \<and> list_all P (take (unat tot') blk')"
  using assms(2-)
proof (induction "unat size1 - unat tot" arbitrary: tot nxt buf seed blk rule: less_induct)
  case less
  have sum: "unat (tot + of_nat nxt + 1) = unat tot + nxt + 1"
    using less.prems by (auto simp: unat_word_ariths)
  show ?case
  proof (cases "tot + of_nat nxt + 1 < size1")
    case True
    then have lt: "unat tot + nxt + 1 < unat size1"
      using sum by (simp add: word_less_nat_alt)
    obtain buf' nxt' where pat: "core_init_pattern (seed + 1) = (buf', nxt')" by force
    obtain blk' where st: "store_all blk (unat tot) (take nxt buf @ [COMMA]) = Done blk'"
      using lt less.prems by (auto simp: store_all_def)
    have "list_all P (take (unat tot + nxt + 1) blk')"
      using store_all_bytes [OF st less.prems(7)] less.prems(5,6) assms(1)
      by (simp add: pattern_bytes_def ac_simps)
    moreover have "list_all P buf'"
      using init_pattern_bytes [OF pat assms(1)] .
    moreover have "core_init_fill size1 tot nxt buf seed blk =
      core_init_fill size1 (tot + of_nat nxt + 1) nxt' buf' (seed + 1) blk'"
      using True st pat less.prems by (subst core_init_fill.simps) auto
    moreover have "\<exists>tot' blk''. core_init_fill size1 (tot + of_nat nxt + 1) nxt' buf' (seed + 1) blk' =
        Some (Done (tot', blk'')) \<and> unat tot' < unat size1 \<and> length blk'' = length blk' \<and>
        list_all P (take (unat tot') blk'')"
      using less.prems lt sum store_all_length [OF st] init_pattern_length [OF pat] calculation
      by (intro less.hyps) auto
    ultimately show ?thesis using store_all_length [OF st] by simp
  next
    case False
    then show ?thesis using less.prems by (subst core_init_fill.simps) auto
  qed
qed

lemma core_init_state_ends:
  assumes "unat blksize = length blk" "2 \<le> length blk" "length blk < 2 ^ 31" "pattern_bytes P"
  shows "\<exists>blk'. core_init_state blksize seed blk = Some (Done blk') \<and> length blk' = length blk \<and>
    ends_in_zeros blk' \<and> list_all P blk'"
proof -
  have size1: "unat (blksize - 1) = length blk - 1"
    using assms by (subst unat_minus_one) auto
  have "\<exists>tot' blk'. core_init_fill (blksize - 1) 0 0 [] seed blk = Some (Done (tot', blk')) \<and>
      unat tot' < length blk - 1 \<and> length blk' = length blk \<and> list_all P (take (unat tot') blk')"
  proof (cases "1 < blksize - 1")
    case True
    obtain buf' nxt' where pat: "core_init_pattern (seed + 1) = (buf', nxt')" by force
    have "core_init_fill (blksize - 1) 0 0 [] seed blk =
        core_init_fill (blksize - 1) 0 nxt' buf' (seed + 1) blk"
      using True pat by (subst core_init_fill.simps) simp
    moreover have "list_all P buf'"
      using init_pattern_bytes [OF pat assms(4)] .
    ultimately show ?thesis
      using core_init_fill_ends [OF assms(4), of "blksize - 1" blk 0 nxt' buf' "seed + 1"] assms size1
        init_pattern_length [OF pat] by auto
  next
    case False
    then show ?thesis using assms size1 by (subst core_init_fill.simps) auto
  qed
  then obtain tot' blk' where fill: "core_init_fill (blksize - 1) 0 0 [] seed blk = Some (Done (tot', blk'))"
    and t: "unat tot' < length blk - 1" "length blk' = length blk" "list_all P (take (unat tot') blk')"
    by blast
  let ?z = "replicate (length blk - unat tot') 0 :: u8 list"
  have "core_init_state blksize seed blk = Some (Done (take (unat tot') blk' @ ?z))"
    using fill t assms(1) by (simp add: core_init_state_def store_all_def)
  moreover have "ends_in_zeros (take (unat tot') blk' @ ?z)"
    using t assms(2) by (auto simp: ends_in_zeros_def nth_append)
  moreover have "list_all P (take (unat tot') blk' @ ?z)"
    using t(3) assms(4) by (auto simp: pattern_bytes_def list_all_iff)
  ultimately show ?thesis using t by auto
qed

end
