(* ===== verification/Corematrix.thy ===== *)
theory Corematrix
  imports Coreutil
begin

text \<open>
  \<open>sw/coremark/core_matrix.c\<close>: the matrix operations of CoreMark on arrays of 16-bit and
  32-bit integers. An array is the list of its elements, an access outside it is a fault.
  The operations are shown to be those of linear algebra modulo \<open>2^32\<close>, the test to leave its
  input unchanged, and the three matrices to fit into the block they are made from.
\<close>

subsection \<open>Loops over arrays\<close>

text \<open>\<open>for (i = 0; i < n; i++)\<close>\<close>

definition for_loop :: "i32 \<Rightarrow> (nat \<Rightarrow> 's \<Rightarrow> 's run) \<Rightarrow> 's \<Rightarrow> 's run" where
  "for_loop n f = for_each [0..<unat n] f"

text \<open>The index \<open>i * N + j\<close>, which is computed in 32 bits.\<close>

definition cell :: "i32 \<Rightarrow> nat \<Rightarrow> nat \<Rightarrow> nat" where
  "cell N i j = unat (of_nat i * N + of_nat j)"

subsection \<open>The operations\<close>

definition matrix_mul_const :: "i32 \<Rightarrow> i32 list \<Rightarrow> u16 list \<Rightarrow> u16 \<Rightarrow> i32 list run" where
  "matrix_mul_const N C A val =
     for_loop N (\<lambda>i. for_loop N (\<lambda>j C.
       bind_run (get_at A (cell N i j)) (\<lambda>a. put_at C (cell N i j) (scast a * scast val)))) C"

definition matrix_add_const :: "i32 \<Rightarrow> u16 list \<Rightarrow> u16 \<Rightarrow> u16 list run" where
  "matrix_add_const N A val =
     for_loop N (\<lambda>i. for_loop N (\<lambda>j A.
       bind_run (get_at A (cell N i j)) (\<lambda>a. put_at A (cell N i j) (a + val)))) A"

text \<open>\<open>C[k] += v\<close>\<close>

definition add_at :: "i32 list \<Rightarrow> nat \<Rightarrow> i32 \<Rightarrow> i32 list run" where
  "add_at C k v = bind_run (get_at C k) (\<lambda>c. put_at C k (c + v))"

definition matrix_mul_vect :: "i32 \<Rightarrow> i32 list \<Rightarrow> u16 list \<Rightarrow> u16 list \<Rightarrow> i32 list run" where
  "matrix_mul_vect N C A B =
     for_loop N (\<lambda>i C. bind_run (put_at C i 0)
       (for_loop N (\<lambda>j C.
          bind_run (get_at A (cell N i j)) (\<lambda>a. bind_run (get_at B j) (\<lambda>b.
            add_at C i (scast a * scast b)))))) C"

definition matrix_mul_matrix :: "i32 \<Rightarrow> i32 list \<Rightarrow> u16 list \<Rightarrow> u16 list \<Rightarrow> i32 list run" where
  "matrix_mul_matrix N C A B =
     for_loop N (\<lambda>i. for_loop N (\<lambda>j C. bind_run (put_at C (cell N i j) 0)
       (for_loop N (\<lambda>k C.
          bind_run (get_at A (cell N i k)) (\<lambda>a. bind_run (get_at B (cell N k j)) (\<lambda>b.
            add_at C (cell N i j) (scast a * scast b))))))) C"

definition bit_extract :: "i32 \<Rightarrow> nat \<Rightarrow> nat \<Rightarrow> i32" where
  "bit_extract x from to = signed_drop_bit from x AND NOT (push_bit to 0xffffffff)"

definition matrix_mul_matrix_bitextract ::
    "i32 \<Rightarrow> i32 list \<Rightarrow> u16 list \<Rightarrow> u16 list \<Rightarrow> i32 list run" where
  "matrix_mul_matrix_bitextract N C A B =
     for_loop N (\<lambda>i. for_loop N (\<lambda>j C. bind_run (put_at C (cell N i j) 0)
       (for_loop N (\<lambda>k C.
          bind_run (get_at A (cell N i k)) (\<lambda>a. bind_run (get_at B (cell N k j)) (\<lambda>b.
            let tmp = scast a * scast b
            in add_at C (cell N i j) (bit_extract tmp 2 4 * bit_extract tmp 5 7))))))) C"

text \<open>The state of \<open>matrix_sum\<close>: \<open>tmp\<close>, \<open>prev\<close> and \<open>ret\<close>.\<close>

definition matrix_sum_step :: "u16 \<Rightarrow> i32 \<Rightarrow> i32 \<times> i32 \<times> u16 \<Rightarrow> i32 \<times> i32 \<times> u16" where
  "matrix_sum_step clipval cur = (\<lambda>(tmp, prev, ret).
     let tmp = tmp + cur
     in if scast clipval <s tmp then (0, cur, ret + 10)
        else (tmp, cur, ret + (if prev <s cur then 1 else 0)))"

definition matrix_sum :: "i32 \<Rightarrow> i32 list \<Rightarrow> u16 \<Rightarrow> u16 run" where
  "matrix_sum N C clipval =
     bind_run
       (for_loop N (\<lambda>i. for_loop N (\<lambda>j s.
          bind_run (get_at C (cell N i j)) (\<lambda>cur. Done (matrix_sum_step clipval cur s)))) (0, 0, 0))
       (\<lambda>(tmp, prev, ret). Done ret)"

definition matrix_big :: "u16 \<Rightarrow> u16" where
  "matrix_big x = 0xf000 OR x"

text \<open>The result is the code and the arrays \<open>A\<close> and \<open>C\<close>.\<close>

definition matrix_test ::
    "i32 \<Rightarrow> i32 list \<Rightarrow> u16 list \<Rightarrow> u16 list \<Rightarrow> u16 \<Rightarrow> (u16 \<times> u16 list \<times> i32 list) run" where
  "matrix_test N C A B val =
     (let crc = 0; clipval = matrix_big val in
      bind_run (matrix_add_const N A val) (\<lambda>A.
      bind_run (matrix_mul_const N C A val) (\<lambda>C.
      bind_run (matrix_sum N C clipval) (\<lambda>v. let crc = crc16 v crc in
      bind_run (matrix_mul_vect N C A B) (\<lambda>C.
      bind_run (matrix_sum N C clipval) (\<lambda>v. let crc = crc16 v crc in
      bind_run (matrix_mul_matrix N C A B) (\<lambda>C.
      bind_run (matrix_sum N C clipval) (\<lambda>v. let crc = crc16 v crc in
      bind_run (matrix_mul_matrix_bitextract N C A B) (\<lambda>C.
      bind_run (matrix_sum N C clipval) (\<lambda>v. let crc = crc16 v crc in
      bind_run (matrix_add_const N A (- val)) (\<lambda>A.
        Done (crc, A, C))))))))))))"

record mat_params =
  mat_N :: i32
  mat_A :: "u16 list"
  mat_B :: "u16 list"
  mat_C :: "i32 list"

definition core_bench_matrix :: "mat_params \<Rightarrow> u16 \<Rightarrow> u16 \<Rightarrow> (u16 \<times> mat_params) run" where
  "core_bench_matrix p seed crc =
     bind_run (matrix_test (mat_N p) (mat_C p) (mat_A p) (mat_B p) seed) (\<lambda>(v, A, C).
       Done (crc16 v crc, p\<lparr>mat_A := A, mat_C := C\<rparr>))"

subsection \<open>Making the matrices\<close>

text \<open>The search for the dimension: \<open>i\<close> and \<open>j\<close>, with a product that wraps around.\<close>

partial_function (option) matrix_dimension :: "i32 \<Rightarrow> i32 \<Rightarrow> i32 \<Rightarrow> i32 option" where
  "matrix_dimension blksize i j =
     (if j < blksize
      then matrix_dimension blksize (i + 1) ((i + 1) * (i + 1) * 2 * 4)
      else Some (i - 1))"

definition align_mem :: "i32 \<Rightarrow> i32" where
  "align_mem x = 4 + ((x - 1) AND NOT 3)"

definition matrix_clip :: "u16 \<Rightarrow> bool \<Rightarrow> u16" where
  "matrix_clip x y = (if y then x AND 0xff else x AND 0xffff)"

text \<open>The values of the cells, in the order in which they are stored: of \<open>A\<close> and of \<open>B\<close>.\<close>

fun matrix_values :: "nat \<Rightarrow> i32 \<Rightarrow> i32 \<Rightarrow> (u16 \<times> u16) list" where
  "matrix_values 0 seed order = []"
| "matrix_values (Suc n) seed order =
     (let seed = word_of_int (sint (order * seed) smod 65536);
          b = matrix_clip (ucast (seed + order)) False;
          a = matrix_clip (ucast (scast b + order)) True
      in (a, b) # matrix_values n seed (order + 1))"

text \<open>The addresses of the three matrices in the block at \<open>memblk\<close>.\<close>

definition matrix_layout :: "i32 \<Rightarrow> i32 \<Rightarrow> i32 \<times> i32 \<times> i32" where
  "matrix_layout memblk N =
     (let A = align_mem memblk; B = A + 2 * (N * N); C = align_mem (B + 2 * (N * N))
      in (A, B, C))"

text \<open>\<open>C\<close> is not initialised: its contents \<open>c0\<close> are what the block held.\<close>

definition core_init_matrix :: "i32 \<Rightarrow> i32 \<Rightarrow> i32 list \<Rightarrow> mat_params option" where
  "core_init_matrix blksize seed c0 =
     (case matrix_dimension blksize 0 0 of
        None \<Rightarrow> None
      | Some N \<Rightarrow>
          (let vs = matrix_values (unat N * unat N) (if seed = 0 then 1 else seed) 1
           in Some \<lparr>mat_N = N, mat_A = map fst vs, mat_B = map snd vs, mat_C = c0\<rparr>))"

subsection \<open>Loops over a matrix\<close>

text \<open>The first \<open>m\<close> elements of an array are replaced.\<close>

definition replaced :: "nat \<Rightarrow> (nat \<Rightarrow> 'a \<Rightarrow> 'a) \<Rightarrow> 'a list \<Rightarrow> 'a list" where
  "replaced m g xs = map (\<lambda>k. if k < m then g k (xs ! k) else xs ! k) [0..<length xs]"

lemma length_replaced [simp]: "length (replaced m g xs) = length xs"
  by (simp add: replaced_def)

lemma nth_replaced: "k < length xs \<Longrightarrow> replaced m g xs ! k = (if k < m then g k (xs ! k) else xs ! k)"
  by (simp add: replaced_def)

lemma replaced_0 [simp]: "replaced 0 g xs = xs"
  by (rule nth_equalityI) (simp_all add: nth_replaced)

lemma replaced_Suc:
  "m < length xs \<Longrightarrow> (replaced m g xs)[m := g m (replaced m g xs ! m)] = replaced (Suc m) g xs"
  by (rule nth_equalityI) (auto simp: nth_replaced nth_list_update less_Suc_eq)

lemma cell_index:
  assumes "unat N = n" "n < 2 ^ 16" "i < n" "j < n"
  shows "cell N i j = i * n + j" "i * n + j < n * n" "(i * n + j) div n = i" "(i * n + j) mod n = j"
proof -
  have "i * n + j < (i + 1) * n" using assms by simp
  also have "\<dots> \<le> n * n" using assms by (intro mult_right_mono) auto
  finally show lt: "i * n + j < n * n" .
  have "n * n < 2 ^ 16 * 2 ^ 16"
    using assms(2) by (intro mult_strict_mono) auto
  then have "(i * n + j) mod 2 ^ 32 = i * n + j"
    using lt by simp
  moreover have "of_nat i * N + of_nat j = (of_nat (i * n + j) :: i32)"
    using assms(1) by auto
  ultimately show "cell N i j = i * n + j"
    unfolding cell_def by (simp add: unat_of_nat del: of_nat_add of_nat_mult)
  show "(i * n + j) div n = i" "(i * n + j) mod n = j"
    using assms by simp_all
qed

lemma matrix_loop:
  assumes n: "unat N = n" "n < 2 ^ 16" "n * n \<le> length xs"
    and body: "\<And>i j ys. i < n \<Longrightarrow> j < n \<Longrightarrow> length ys = length xs \<Longrightarrow>
      f i j ys = Done (ys[i * n + j := g (i * n + j) (ys ! (i * n + j))])"
  shows "for_loop N (\<lambda>i. for_loop N (f i)) xs = Done (replaced (n * n) g xs)"
proof -
  have row: "for_each [0..<m] (f i) (replaced (i * n) g xs) = Done (replaced (i * n + m) g xs)"
    if "i < n" "m \<le> n" for i m
    using that(2)
  proof (induction m)
    case (Suc m)
    have "i * n + m < length xs"
      using cell_index(2) [OF n(1,2) that(1), of m] Suc.prems n(3) by simp
    then show ?case
      using Suc body [of i m "replaced (i * n + m) g xs"] that(1) replaced_Suc [of "i * n + m" xs g]
      by (simp add: for_each_Suc del: upt_Suc)
  qed simp
  have "for_each [0..<m] (\<lambda>i. for_each [0..<n] (f i)) xs = Done (replaced (m * n) g xs)"
    if "m \<le> n" for m
    using that
  proof (induction m)
    case (Suc m)
    then show ?case
      using row [of m n] by (simp add: for_each_Suc add.commute del: upt_Suc)
  qed simp
  then show ?thesis by (simp add: for_loop_def n(1))
qed

text \<open>A sum in one cell.\<close>

lemma sum_loop:
  assumes "p < length C" "\<And>k D. k < m \<Longrightarrow> length D = length C \<Longrightarrow> f k D = add_at D p (t k)"
  shows "for_each [0..<m] f C = Done (C[p := C ! p + (\<Sum>k<m. t k)])"
  using assms(2)
proof (induction m)
  case 0
  then show ?case by simp
next
  case (Suc m)
  then show ?case
    using assms(1)
    by (simp add: for_each_Suc add_at_def get_at_def put_at_def ac_simps del: upt_Suc)
qed

subsection \<open>What the operations compute\<close>

definition square :: "i32 \<Rightarrow> nat \<Rightarrow> bool" where
  "square N n \<longleftrightarrow> unat N = n \<and> n < 2 ^ 16"

lemma squareD: "square N n \<Longrightarrow> unat N = n" "square N n \<Longrightarrow> n < 2 ^ 16"
  by (simp_all add: square_def)

lemmas cell_eq = cell_index [OF squareD]

lemma mul_const_eq:
  assumes "square N n" "n * n \<le> length C" "n * n \<le> length A"
  shows "matrix_mul_const N C A val = Done (replaced (n * n) (\<lambda>k _. scast (A ! k) * scast val) C)"
  unfolding matrix_mul_const_def
proof (rule matrix_loop [OF squareD(1,2) [OF assms(1)] assms(2)])
  fix i j and ys :: "i32 list" assume "i < n" "j < n" "length ys = length C"
  then show "bind_run (get_at A (cell N i j)) (\<lambda>a. put_at ys (cell N i j) (scast a * scast val)) =
    Done (ys[i * n + j := scast (A ! (i * n + j)) * scast val])"
    using cell_eq [OF assms(1,1), of i j] assms(2,3) by (simp add: get_at_def put_at_def)
qed

lemma add_const_eq:
  assumes "square N n" "n * n \<le> length A"
  shows "matrix_add_const N A val = Done (replaced (n * n) (\<lambda>k a. a + val) A)"
  unfolding matrix_add_const_def
proof (rule matrix_loop [OF squareD(1,2) [OF assms(1)] assms(2)])
  fix i j and ys :: "u16 list" assume "i < n" "j < n" "length ys = length A"
  then show "bind_run (get_at ys (cell N i j)) (\<lambda>a. put_at ys (cell N i j) (a + val)) =
    Done (ys[i * n + j := ys ! (i * n + j) + val])"
    using cell_eq [OF assms(1,1), of i j] assms(2) by (simp add: get_at_def put_at_def)
qed

definition matrix_product :: "nat \<Rightarrow> (i32 \<Rightarrow> i32) \<Rightarrow> u16 list \<Rightarrow> u16 list \<Rightarrow> nat \<Rightarrow> i32" where
  "matrix_product n h A B p =
     (\<Sum>k<n. h (scast (A ! (p div n * n + k)) * scast (B ! (k * n + p mod n))))"

lemma mul_loop:
  assumes "square N n" "n * n \<le> length C" "n * n \<le> length A" "n * n \<le> length B"
  shows "for_loop N (\<lambda>i. for_loop N (\<lambda>j C. bind_run (put_at C (cell N i j) 0)
       (for_loop N (\<lambda>k C.
          bind_run (get_at A (cell N i k)) (\<lambda>a. bind_run (get_at B (cell N k j)) (\<lambda>b.
            add_at C (cell N i j) (h (scast a * scast b)))))))) C =
    Done (replaced (n * n) (\<lambda>p _. matrix_product n h A B p) C)"
proof (rule matrix_loop [OF squareD(1,2) [OF assms(1)] assms(2)])
  fix i j and ys :: "i32 list" assume ij: "i < n" "j < n" and len: "length ys = length C"
  note c = cell_eq [OF assms(1,1) ij]
  have p: "i * n + j < length ys" using c(2) assms(2) len by simp
  have "for_each [0..<n] (\<lambda>k C.
          bind_run (get_at A (cell N i k)) (\<lambda>a. bind_run (get_at B (cell N k j)) (\<lambda>b.
            add_at C (cell N i j) (h (scast a * scast b))))) (ys[i * n + j := 0]) =
    Done ((ys[i * n + j := 0])[i * n + j := (ys[i * n + j := 0]) ! (i * n + j) +
      (\<Sum>k<n. h (scast (A ! (i * n + k)) * scast (B ! (k * n + j))))])"
  proof (rule sum_loop)
    fix k and D :: "i32 list" assume "k < n"
    then show "bind_run (get_at A (cell N i k)) (\<lambda>a. bind_run (get_at B (cell N k j)) (\<lambda>b.
            add_at D (cell N i j) (h (scast a * scast b)))) =
        add_at D (i * n + j) (h (scast (A ! (i * n + k)) * scast (B ! (k * n + j))))"
      using c(1) cell_eq [OF assms(1,1) ij(1), of k] cell_eq [OF assms(1,1) _ ij(2), of k] assms(3,4)
      by (simp add: get_at_def)
  qed (use p in simp)
  then show "bind_run (put_at ys (cell N i j) 0)
       (for_loop N (\<lambda>k C.
          bind_run (get_at A (cell N i k)) (\<lambda>a. bind_run (get_at B (cell N k j)) (\<lambda>b.
            add_at C (cell N i j) (h (scast a * scast b)))))) =
      Done (ys[i * n + j := matrix_product n h A B (i * n + j)])"
    using p c squareD(1) [OF assms(1)]
    by (simp add: put_at_def for_loop_def matrix_product_def)
qed

lemma mul_matrix_eq:
  assumes "square N n" "n * n \<le> length C" "n * n \<le> length A" "n * n \<le> length B"
  shows "matrix_mul_matrix N C A B =
    Done (replaced (n * n) (\<lambda>p _. matrix_product n (\<lambda>v. v) A B p) C)"
  unfolding matrix_mul_matrix_def by (rule mul_loop [OF assms])

lemma mul_bitextract_eq:
  assumes "square N n" "n * n \<le> length C" "n * n \<le> length A" "n * n \<le> length B"
  shows "matrix_mul_matrix_bitextract N C A B =
    Done (replaced (n * n)
      (\<lambda>p _. matrix_product n (\<lambda>v. bit_extract v 2 4 * bit_extract v 5 7) A B p) C)"
  unfolding matrix_mul_matrix_bitextract_def Let_def by (rule mul_loop [OF assms])

lemma mul_vect_eq:
  assumes "square N n" "n * n \<le> length C" "n * n \<le> length A" "n * n \<le> length B"
  shows "matrix_mul_vect N C A B =
    Done (replaced n (\<lambda>i _. \<Sum>j<n. scast (A ! (i * n + j)) * scast (B ! j)) C)"
proof -
  let ?t = "\<lambda>i. \<Sum>j<n. scast (A ! (i * n + j)) * scast (B ! j) :: i32"
  let ?row = "\<lambda>i C. bind_run (put_at C i 0)
       (for_loop N (\<lambda>j C.
          bind_run (get_at A (cell N i j)) (\<lambda>a. bind_run (get_at B j) (\<lambda>b.
            add_at C i (scast a * scast b)))))"
  have row: "?row i ys = Done (ys[i := ?t i])" if i: "i < n" and len: "length ys = length C" for i ys
  proof -
    have p: "i < length ys" using i len assms(2) by (cases n) auto
    have "for_each [0..<n] (\<lambda>j C.
          bind_run (get_at A (cell N i j)) (\<lambda>a. bind_run (get_at B j) (\<lambda>b.
            add_at C i (scast a * scast b)))) (ys[i := 0]) =
      Done ((ys[i := 0])[i := (ys[i := 0]) ! i + ?t i])"
    proof (rule sum_loop)
      fix j and D :: "i32 list" assume j: "j < n"
      have "j < length B" using j assms(4) by (cases n) auto
      then show "bind_run (get_at A (cell N i j)) (\<lambda>a. bind_run (get_at B j) (\<lambda>b.
            add_at D i (scast a * scast b))) = add_at D i (scast (A ! (i * n + j)) * scast (B ! j))"
        using cell_eq [OF assms(1,1) i j] assms(3) by (simp add: get_at_def)
    qed (use p in simp)
    then show ?thesis using p squareD(1) [OF assms(1)] by (simp add: put_at_def for_loop_def)
  qed
  have "for_each [0..<m] ?row C = Done (replaced m (\<lambda>i _. ?t i) C)" if "m \<le> n" for m
    using that
  proof (induction m)
    case (Suc m)
    moreover have "m < length C" using Suc.prems assms(2) by (cases n) auto
    ultimately show ?case
      using row [of m "replaced m (\<lambda>i _. ?t i) C"] replaced_Suc [of m C "\<lambda>i _. ?t i"]
      by (simp add: for_each_Suc del: upt_Suc)
  qed simp
  then show ?thesis
    unfolding matrix_mul_vect_def for_loop_def [of N ?row] squareD(1) [OF assms(1)] by simp
qed

lemma matrix_sum_returns:
  assumes "square N n" "n * n \<le> length C"
  shows "\<exists>r. matrix_sum N C clipval = Done r"
proof -
  have "\<exists>s'. bind_run (get_at C (cell N i j)) (\<lambda>cur. Done (matrix_sum_step clipval cur s)) = Done s'"
    if "i < n" "j < n" for i j s
    using cell_eq(1,2) [OF assms(1,1) that] assms(2) by (simp add: get_at_def split_paired_all) (cases "matrix_sum_step clipval (C ! (i * n + j)) s"; simp)
  then have "\<exists>s'. for_loop N (\<lambda>i. for_loop N (\<lambda>j s.
          bind_run (get_at C (cell N i j)) (\<lambda>cur. Done (matrix_sum_step clipval cur s)))) s = Done s'" for s
    unfolding for_loop_def squareD(1) [OF assms(1)]
    by (intro for_each_returns) auto
  then obtain s' where "for_loop N (\<lambda>i. for_loop N (\<lambda>j s.
      bind_run (get_at C (cell N i j)) (\<lambda>cur. Done (matrix_sum_step clipval cur s)))) (0, 0, 0) = Done s'"
    by blast
  then show ?thesis by (cases s') (simp add: matrix_sum_def)
qed

text \<open>The test returns and leaves the matrix \<open>A\<close> as it was.\<close>

lemma matrix_test_restores:
  assumes "square N n" "n * n \<le> length C" "n * n \<le> length A" "n * n \<le> length B"
  shows "\<exists>crc C'. matrix_test N C A B val = Done (crc, A, C') \<and> length C' = length C"
proof -
  have undo: "replaced (n * n) (\<lambda>k a. a - val) (replaced (n * n) (\<lambda>k a. a + val) A) = A"
    by (rule nth_equalityI) (simp_all add: nth_replaced)
  obtain r where r: "\<And>C clipval. n * n \<le> length C \<Longrightarrow> matrix_sum N C clipval = Done (r C clipval)"
    using matrix_sum_returns [OF assms(1)] by metis
  show ?thesis
    using assms undo
    by (simp add: matrix_test_def Let_def add_const_eq mul_const_eq mul_vect_eq mul_matrix_eq
        mul_bitextract_eq r)
qed

subsection \<open>The matrices fit into their block\<close>

lemma matrix_dimension_square:
  assumes "unat blksize < 2 ^ 30" "unat i < 2 ^ 14" "j = 8 * (i * i)"
    and "i = 0 \<or> 8 * ((unat i - 1) * (unat i - 1)) < unat blksize"
  shows "\<exists>N. matrix_dimension blksize i j = Some N \<and>
    (blksize = 0 \<or> 8 * (unat N * unat N) < unat blksize \<and> unat N < 2 ^ 14)"
  using assms
proof (induction "2 ^ 14 - unat i" arbitrary: i j rule: less_induct)
  case less
  have sq: "unat i * unat i < 2 ^ 28"
    using mult_strict_mono [of "unat i" "2 ^ 14" "unat i" "2 ^ 14"] less.prems(2) by simp
  have j: "unat j = 8 * (unat i * unat i)"
    using sq by (simp add: less.prems(3) unat_word_ariths)
  show ?case
  proof (cases "j < blksize")
    case True
    then have lt: "8 * (unat i * unat i) < unat blksize"
      using j by (simp add: word_less_nat_alt)
    have "unat i < 2 ^ 14 - 1"
    proof (rule ccontr)
      assume "\<not> unat i < 2 ^ 14 - 1"
      then have "(2 ^ 14 - 1) * (2 ^ 14 - 1) \<le> unat i * unat i"
        by (intro mult_mono) auto
      then show False using lt less.prems(1) by simp
    qed
    then have next_i: "unat (i + 1) = unat i + 1" by (simp add: unat_word_ariths)
    have "matrix_dimension blksize i j = matrix_dimension blksize (i + 1) (8 * ((i + 1) * (i + 1)))"
      using True by (subst matrix_dimension.simps) (simp add: ac_simps)
    then show ?thesis
      using less.hyps [of "i + 1" "8 * ((i + 1) * (i + 1))"] less.prems next_i lt \<open>unat i < 2 ^ 14 - 1\<close>
      by simp
  next
    case False
    then have "matrix_dimension blksize i j = Some (i - 1)"
      by (subst matrix_dimension.simps) simp
    moreover have "blksize = 0" if "i = 0"
      using False that less.prems(3) by (simp add: word_less_nat_alt unat_eq_zero)
    moreover have "unat (i - 1) = unat i - 1" if "i \<noteq> 0"
      using that by (rule unat_minus_one)
    ultimately show ?thesis
      using less.prems(2,4) by (cases "i = 0") auto
  qed
qed

lemma unat_and_not_3: "unat (x AND NOT 3) = unat x div 4 * 4" for x :: i32
proof -
  have lt: "unat x < 2 ^ 32" using unsigned_less [of x, where ?'a = nat] by simp
  have "x AND NOT (mask 2) = push_bit 2 (drop_bit 2 x)"
    by (rule bit_word_eqI) (auto simp: bit_simps not_less le_add_diff_inverse simp del: add_2_eq_Suc add_2_eq_Suc')
  moreover have "(3 :: i32) = mask 2" by (simp add: mask_eq_exp_minus_1)
  ultimately have "unat (x AND NOT 3) = take_bit 32 (push_bit 2 (drop_bit 2 (unat x)))"
    by (simp add: unsigned_push_bit_eq unat_drop_bit_eq)
  also have "\<dots> = (unat x div 4 * 4) mod 2 ^ 32"
    by (simp add: take_bit_eq_mod push_bit_eq_mult drop_bit_eq_div)
  also have "\<dots> = unat x div 4 * 4"
    using lt by (intro mod_less) linarith
  finally show ?thesis .
qed

lemma align_mem_aligned:
  assumes "unat x mod 4 = 0" "x \<noteq> 0"
  shows "align_mem x = x"
proof -
  have lt: "unat x < 2 ^ 32" using unsigned_less [of x, where ?'a = nat] by simp
  obtain k where k: "unat x = 4 * k"
    using assms(1) by (metis mod_0_imp_dvd dvdE)
  then have "0 < k" using assms(2) by (cases k) (auto simp: unat_eq_zero)
  have "unat ((x - 1) AND NOT 3) = (4 * k - 1) div 4 * 4"
    unfolding unat_and_not_3 unat_minus_one [OF assms(2)] k ..
  also have "\<dots> = 4 * k - 4"
    using \<open>0 < k\<close> by presburger
  finally show ?thesis
    using k \<open>0 < k\<close> lt
    by (simp add: align_mem_def word_unat_eq_iff unat_word_ariths)
qed

lemma matrix_layout_fits:
  assumes "unat memblk mod 4 = 0" "memblk \<noteq> 0" "unat memblk + unat blksize < 2 ^ 32"
    and "8 * (unat N * unat N) \<le> unat blksize"
  shows "case matrix_layout memblk N of (a, b, c) \<Rightarrow>
    unat a = unat memblk \<and> unat b = unat a + 2 * (unat N * unat N) \<and>
    unat c = unat b + 2 * (unat N * unat N) \<and>
    unat c + 4 * (unat N * unat N) \<le> unat memblk + unat blksize"
proof -
  let ?n = "unat N * unat N"
  have nn: "unat (N * N) = ?n" using assms(3,4) by (simp add: unat_word_ariths)
  have b: "unat (memblk + 2 * (N * N)) = unat memblk + 2 * ?n"
    using assms(3,4) nn by (simp add: unat_word_ariths)
  have c: "unat (memblk + 2 * (N * N) + 2 * (N * N)) = unat memblk + 4 * ?n"
    using assms(3,4) nn b unfolding unat_word_ariths(1) [of "memblk + 2 * (N * N)"]
    by (simp add: unat_word_ariths(2))
  have "align_mem (memblk + 2 * (N * N) + 2 * (N * N)) = memblk + 2 * (N * N) + 2 * (N * N)"
  proof (rule align_mem_aligned)
    show "unat (memblk + 2 * (N * N) + 2 * (N * N)) mod 4 = 0"
      unfolding c using assms(1) by presburger
    show "memblk + 2 * (N * N) + 2 * (N * N) \<noteq> 0"
      using c assms(2) by (metis add_is_0 unat_0 unat_eq_zero)
  qed
  then show ?thesis
    using align_mem_aligned [OF assms(1,2)] b c assms(4)
    by (simp add: matrix_layout_def Let_def)
qed

lemma core_init_matrix_fits:
  assumes "0 < unat blksize" "unat blksize < 2 ^ 30"
  shows "\<exists>p. core_init_matrix blksize seed c0 = Some p \<and>
    8 * (unat (mat_N p) * unat (mat_N p)) < unat blksize \<and> square (mat_N p) (unat (mat_N p)) \<and>
    length (mat_A p) = unat (mat_N p) * unat (mat_N p) \<and>
    length (mat_B p) = unat (mat_N p) * unat (mat_N p) \<and> mat_C p = c0"
proof -
  have len: "length (matrix_values n s order) = n" for n s order
    by (induction n arbitrary: s order) (simp_all add: Let_def)
  obtain N where N: "matrix_dimension blksize 0 0 = Some N"
    "8 * (unat N * unat N) < unat blksize" "unat N < 2 ^ 14"
    using matrix_dimension_square [of blksize 0 0] assms by (auto simp: unat_eq_zero)
  then show ?thesis
    by (simp add: core_init_matrix_def Let_def len square_def)
qed

end
