(* ===== verification/Corelist.thy ===== *)
theory Corelist
  imports Corestate Corematrix
begin

text \<open>
  \<open>sw/coremark/core_list_join.c\<close>: the linked lists of CoreMark. The items and their data are
  two arrays, a pointer to an item is an index or \<open>None\<close> for the null pointer, a pointer to
  data is an index. A call that may not return is a \<open>comp\<close>. Theory \<open>Coresort\<close> verifies the
  operations and the merge sort.
\<close>

subsection \<open>Items, data and results\<close>

record list_data =
  data16 :: u16
  idx :: u16

type_synonym item = "nat option"

record list_head =
  lh_next :: item
  lh_info :: nat

text \<open>
  \<open>core_results\<close>, with the memory its pointers lead to: the items and the data of the list,
  the input of the state machine (\<open>memblock[3]\<close>) and the matrices.
\<close>

record core_results =
  res_seed1 :: u16
  res_seed2 :: u16
  res_seed3 :: u16
  res_state :: "u8 list"
  res_size :: i32
  res_iterations :: i32
  res_execs :: i32
  res_list :: item
  res_mat :: mat_params
  res_crc :: u16
  res_crclist :: u16
  res_crcmatrix :: u16
  res_crcstate :: u16
  res_err :: u16
  heads :: "list_head list"
  datas :: "list_data list"

definition get_head :: "core_results \<Rightarrow> item \<Rightarrow> list_head run" where
  "get_head m p =
     (case p of None \<Rightarrow> Fault NullPointer | Some a \<Rightarrow> get_at (heads m) a)"

definition put_head :: "core_results \<Rightarrow> item \<Rightarrow> (list_head \<Rightarrow> list_head) \<Rightarrow> core_results run" where
  "put_head m p f =
     bind_run (get_head m p) (\<lambda>n. Done (m\<lparr>heads := (heads m)[the p := f n]\<rparr>))"

definition get_next :: "core_results \<Rightarrow> item \<Rightarrow> item run" where
  "get_next m p = bind_run (get_head m p) (\<lambda>n. Done (lh_next n))"

definition set_next :: "core_results \<Rightarrow> item \<Rightarrow> item \<Rightarrow> core_results run" where
  "set_next m p q = put_head m p (lh_next_update (\<lambda>_. q))"

definition get_data :: "core_results \<Rightarrow> nat \<Rightarrow> list_data run" where
  "get_data m d = get_at (datas m) d"

definition put_data :: "core_results \<Rightarrow> nat \<Rightarrow> (list_data \<Rightarrow> list_data) \<Rightarrow> core_results run" where
  "put_data m d f = bind_run (get_data m d) (\<lambda>v. Done (m\<lparr>datas := (datas m)[d := f v]\<rparr>))"

text \<open>\<open>p->info->data16\<close> and the like.\<close>

definition get_info :: "core_results \<Rightarrow> item \<Rightarrow> list_data run" where
  "get_info m p = bind_run (get_head m p) (\<lambda>n. get_data m (lh_info n))"

subsection \<open>Comparing data\<close>

text \<open>The type of the operation and its parameter, when the value is not cached.\<close>

definition calc_dtype :: "u16 \<Rightarrow> u16" where
  "calc_dtype data =
     (let dtype = signed_drop_bit 3 data AND 0xf in dtype OR push_bit 4 dtype)"

definition calc_value :: "u16 \<Rightarrow> core_results \<Rightarrow> (u16 \<times> core_results) comp" where
  "calc_value data m =
     (let flag = data AND 0x7; dtype = calc_dtype data in
      if flag = 0 then
        bind_comp
          (core_bench_state (res_size m) (res_state m) (res_seed1 m) (res_seed2 m)
             (if dtype <s 0x22 then 0x22 else dtype) (res_crc m))
          (\<lambda>(retval, blk). let m = m\<lparr>res_state := blk\<rparr> in
             Some (Done (retval, if res_crcstate m = 0 then m\<lparr>res_crcstate := retval\<rparr> else m)))
      else if flag = 1 then
        bind_comp (Some (core_bench_matrix (res_mat m) dtype (res_crc m))) (\<lambda>(retval, mat).
          let m = m\<lparr>res_mat := mat\<rparr> in
            Some (Done (retval, if res_crcmatrix m = 0 then m\<lparr>res_crcmatrix := retval\<rparr> else m)))
      else Some (Done (data, m)))"

definition calc_func :: "nat \<Rightarrow> core_results \<Rightarrow> (u16 \<times> core_results) comp" where
  "calc_func d m =
     bind_comp (Some (get_data m d)) (\<lambda>v. let data = data16 v in
       if signed_drop_bit 7 data AND 1 \<noteq> 0 then Some (Done (data AND 0x7f, m))
       else bind_comp (calc_value data m) (\<lambda>(retval, m).
         let m = m\<lparr>res_crc := crcu16 retval (res_crc m)\<rparr>;
             retval = retval AND 0x7f
         in bind_comp
              (Some (put_data m d (data16_update (\<lambda>_. (data AND 0xff00) OR 0x0080 OR retval))))
              (\<lambda>m. Some (Done (retval, m)))))"

type_synonym list_cmp = "nat \<Rightarrow> nat \<Rightarrow> core_results \<Rightarrow> (i32 \<times> core_results) comp"

definition cmp_complex :: list_cmp where
  "cmp_complex a b m =
     bind_comp (calc_func a m) (\<lambda>(val1, m).
     bind_comp (calc_func b m) (\<lambda>(val2, m).
       Some (Done (scast val1 - scast val2, m))))"

definition regenerate :: "u16 \<Rightarrow> u16" where
  "regenerate d = (d AND 0xff00) OR (0x00ff AND signed_drop_bit 8 d)"

text \<open>The first argument is whether \<open>res\<close> is the null pointer.\<close>

definition cmp_idx :: "bool \<Rightarrow> list_cmp" where
  "cmp_idx res_null a b m =
     bind_comp
       (Some (if res_null
          then bind_run (put_data m a (data16_update regenerate)) (\<lambda>m.
                 put_data m b (data16_update regenerate))
          else Done m))
       (\<lambda>m. bind_comp (Some (get_data m a)) (\<lambda>va. bind_comp (Some (get_data m b)) (\<lambda>vb.
          Some (Done (scast (idx va) - scast (idx vb), m)))))"

subsection \<open>Operations on lists\<close>

definition copy_info :: "core_results \<Rightarrow> nat \<Rightarrow> list_data \<Rightarrow> core_results run" where
  "copy_info m to from =
     put_data m to (\<lambda>v. v\<lparr>data16 := data16 from, idx := idx from\<rparr>)"

text \<open>The free items and data are those from the two indices on.\<close>

definition core_list_insert_new ::
    "core_results \<Rightarrow> item \<Rightarrow> list_data \<Rightarrow> nat \<Rightarrow> nat \<Rightarrow> nat \<Rightarrow> nat \<Rightarrow>
       (core_results \<times> nat \<times> nat \<times> item) run" where
  "core_list_insert_new m insert_point info memblock datablock memblock_end datablock_end =
     (if memblock_end \<le> memblock + 1 then Done (m, memblock, datablock, None)
      else if datablock_end \<le> datablock + 1 then Done (m, memblock, datablock, None)
      else
        (let newitem = Some memblock in
         bind_run (get_next m insert_point) (\<lambda>n.
         bind_run (set_next m newitem n) (\<lambda>m.
         bind_run (set_next m insert_point newitem) (\<lambda>m.
         bind_run (put_head m newitem (lh_info_update (\<lambda>_. datablock))) (\<lambda>m.
         bind_run (copy_info m datablock info) (\<lambda>m.
           Done (m, memblock + 1, datablock + 1, newitem))))))))"

definition core_list_remove :: "core_results \<Rightarrow> item \<Rightarrow> (core_results \<times> item) run" where
  "core_list_remove m item =
     bind_run (get_head m item) (\<lambda>ni. let ret = lh_next ni in
     bind_run (get_head m ret) (\<lambda>nr.
     bind_run (put_head m item (lh_info_update (\<lambda>_. lh_info nr))) (\<lambda>m.
     bind_run (put_head m ret (lh_info_update (\<lambda>_. lh_info ni))) (\<lambda>m.
     bind_run (get_next m item) (\<lambda>n. bind_run (get_next m n) (\<lambda>nn.
     bind_run (set_next m item nn) (\<lambda>m.
     bind_run (set_next m ret None) (\<lambda>m. Done (m, ret)))))))))"

definition core_list_undo_remove ::
    "core_results \<Rightarrow> item \<Rightarrow> item \<Rightarrow> (core_results \<times> item) run" where
  "core_list_undo_remove m item_removed item_modified =
     bind_run (get_head m item_removed) (\<lambda>nr. bind_run (get_head m item_modified) (\<lambda>nm.
     bind_run (put_head m item_removed (lh_info_update (\<lambda>_. lh_info nm))) (\<lambda>m.
     bind_run (put_head m item_modified (lh_info_update (\<lambda>_. lh_info nr))) (\<lambda>m.
     bind_run (get_next m item_modified) (\<lambda>n.
     bind_run (set_next m item_removed n) (\<lambda>m.
     bind_run (set_next m item_modified item_removed) (\<lambda>m. Done (m, item_removed))))))))"

definition find_matches :: "list_data \<Rightarrow> list_data \<Rightarrow> bool" where
  "find_matches info v \<longleftrightarrow>
     (if 0 \<le>s idx info then idx v = idx info
      else sint (data16 v AND 0xff) = sint (data16 info))"

partial_function (option) core_list_find ::
    "core_results \<Rightarrow> item \<Rightarrow> list_data \<Rightarrow> item comp" where
  "core_list_find m p info =
     (if p = None then Some (Done None)
      else bind_comp (Some (get_info m p)) (\<lambda>v.
        if find_matches info v then Some (Done p)
        else bind_comp (Some (get_next m p)) (\<lambda>q. core_list_find m q info)))"

text \<open>The loop of \<open>core_list_reverse\<close>, with its variable \<open>next\<close>.\<close>

partial_function (option) reverse_loop ::
    "core_results \<Rightarrow> item \<Rightarrow> item \<Rightarrow> (core_results \<times> item) comp" where
  "reverse_loop m p nxt =
     (if p = None then Some (Done (m, nxt))
      else bind_comp (Some (get_next m p)) (\<lambda>tmp.
        bind_comp (Some (set_next m p nxt)) (\<lambda>m. reverse_loop m tmp p)))"

definition core_list_reverse :: "core_results \<Rightarrow> item \<Rightarrow> (core_results \<times> item) comp" where
  "core_list_reverse m p = reverse_loop m p None"

subsection \<open>Merge sort\<close>

text \<open>
  The counters \<open>psize\<close>, \<open>qsize\<close> and \<open>insize\<close> are natural numbers: they stay below twice the
  length of the list, and no list in a 32-bit memory is long enough for an \<open>int\<close> to overflow.
\<close>

fun step_along :: "core_results \<Rightarrow> nat \<Rightarrow> nat \<Rightarrow> item \<Rightarrow> (nat \<times> item) run" where
  "step_along m 0 psize q = Done (psize, q)"
| "step_along m (Suc k) psize q =
     bind_run (get_next m q) (\<lambda>q'.
       if q' = None then Done (psize + 1, None) else step_along m k (psize + 1) q')"

text \<open>Whether the next element comes from \<open>p\<close>.\<close>

definition takes_p ::
    "list_cmp \<Rightarrow> item \<Rightarrow> item \<Rightarrow> nat \<Rightarrow> nat \<Rightarrow> core_results \<Rightarrow> (bool \<times> core_results) comp" where
  "takes_p cmp p q psize qsize m =
     (if psize = 0 then Some (Done (False, m))
      else if qsize = 0 \<or> q = None then Some (Done (True, m))
      else bind_comp (Some (get_head m p)) (\<lambda>np. bind_comp (Some (get_head m q)) (\<lambda>nq.
        bind_comp (cmp (lh_info np) (lh_info nq) m) (\<lambda>(r, m). Some (Done (r \<le>s 0, m))))))"

definition add_to_tail ::
    "core_results \<Rightarrow> item \<Rightarrow> item \<Rightarrow> item \<Rightarrow> (core_results \<times> item) run" where
  "add_to_tail m lst tail e =
     (if tail \<noteq> None then bind_run (set_next m tail e) (\<lambda>m. Done (m, lst)) else Done (m, e))"

text \<open>The loop that merges two runs: the results are \<open>q\<close>, \<open>list\<close>, \<open>tail\<close> and the memory.\<close>

partial_function (option) merge_runs ::
    "list_cmp \<Rightarrow> item \<Rightarrow> item \<Rightarrow> nat \<Rightarrow> nat \<Rightarrow> item \<Rightarrow> item \<Rightarrow> core_results \<Rightarrow>
       (item \<times> item \<times> item \<times> core_results) comp" where
  "merge_runs cmp p q psize qsize lst tail m =
     (if 0 < psize \<or> 0 < qsize \<and> q \<noteq> None
      then bind_comp (takes_p cmp p q psize qsize m) (\<lambda>(from_p, m).
        bind_comp (Some (get_next m (if from_p then p else q))) (\<lambda>n.
        bind_comp (Some (add_to_tail m lst tail (if from_p then p else q))) (\<lambda>(m, lst).
          if from_p then merge_runs cmp n q (psize - 1) qsize lst p m
          else merge_runs cmp p n psize (qsize - 1) lst q m)))
      else Some (Done (q, lst, tail, m)))"

text \<open>A pass over the list: the results are \<open>list\<close>, \<open>tail\<close>, \<open>nmerges\<close> and the memory.\<close>

partial_function (option) merge_pass ::
    "list_cmp \<Rightarrow> nat \<Rightarrow> item \<Rightarrow> item \<Rightarrow> item \<Rightarrow> nat \<Rightarrow> core_results \<Rightarrow>
       (item \<times> item \<times> nat \<times> core_results) comp" where
  "merge_pass cmp insize p lst tail nmerges m =
     (if p = None then Some (Done (lst, tail, nmerges, m))
      else bind_comp (Some (step_along m insize 0 p)) (\<lambda>(psize, q).
        bind_comp (merge_runs cmp p q psize insize lst tail m) (\<lambda>(q, lst, tail, m).
          merge_pass cmp insize q lst tail (nmerges + 1) m)))"

partial_function (option) sort_passes ::
    "list_cmp \<Rightarrow> nat \<Rightarrow> item \<Rightarrow> core_results \<Rightarrow> (item \<times> core_results) comp" where
  "sort_passes cmp insize lst m =
     bind_comp (merge_pass cmp insize lst None None 0 m) (\<lambda>(lst, tail, nmerges, m).
       bind_comp (Some (set_next m tail None)) (\<lambda>m.
         if nmerges \<le> 1 then Some (Done (lst, m)) else sort_passes cmp (insize * 2) lst m))"

definition core_list_mergesort :: "core_results \<Rightarrow> item \<Rightarrow> list_cmp \<Rightarrow> (item \<times> core_results) comp" where
  "core_list_mergesort m lst cmp = sort_passes cmp 1 lst m"

subsection \<open>Making the list\<close>

text \<open>The variables of the insertions: the memory and the two block pointers.\<close>

definition init_info :: "u16 \<Rightarrow> i32 \<Rightarrow> list_data" where
  "init_info seed i =
     (let datpat = ucast (scast seed XOR i) AND 0xf;
          dat = push_bit 3 datpat OR ucast (i AND 0x7)
      in \<lparr>data16 = push_bit 8 dat OR dat, idx = 0x7fff\<rparr>)"

definition insert_next ::
    "nat \<Rightarrow> list_data \<Rightarrow> core_results \<times> nat \<times> nat \<Rightarrow> (core_results \<times> nat \<times> nat) run" where
  "insert_next size0 info = (\<lambda>(m, memblock, datablock).
     bind_run (core_list_insert_new m (Some 0) info memblock datablock size0 size0)
       (\<lambda>(m, memblock, datablock, r). Done (m, memblock, datablock)))"

text \<open>The loop that numbers the items: a part in order, then pseudo-random numbers.\<close>

partial_function (option) index_loop ::
    "u16 \<Rightarrow> i32 \<Rightarrow> item \<Rightarrow> i32 \<Rightarrow> core_results \<Rightarrow> core_results comp" where
  "index_loop seed size0 finder i m =
     bind_comp (Some (get_head m finder)) (\<lambda>n.
       if lh_next n \<noteq> None
       then bind_comp
         (Some (if i < size0 div 5
            then put_data m (lh_info n) (idx_update (\<lambda>_. ucast i))
            else put_data m (lh_info n) (idx_update (\<lambda>_.
                   0x3fff AND (push_bit 8 (ucast (i + 1) AND 0x07) OR ucast (i XOR scast seed))))))
         (\<lambda>m. bind_comp (Some (get_next m finder)) (\<lambda>q. index_loop seed size0 q (i + 1) m))
       else Some (Done m))"

text \<open>\<open>memblock\<close> and \<open>datablock\<close> start at index 0 of their arrays.\<close>

definition core_list_init :: "i32 \<Rightarrow> core_results \<Rightarrow> u16 \<Rightarrow> (item \<times> core_results) comp" where
  "core_list_init blksize m seed =
     (let per_item = 16 + 4; size0 = blksize div per_item - 2; n = unat size0 in
      bind_comp (Some (put_head m (Some 0) (\<lambda>h. h\<lparr>lh_next := None, lh_info := 0\<rparr>))) (\<lambda>m.
      bind_comp (Some (put_data m 0 (\<lambda>d. d\<lparr>idx := 0, data16 := 0x8080\<rparr>))) (\<lambda>m.
      bind_comp (Some (insert_next n \<lparr>data16 = 0xffff, idx = 0x7fff\<rparr> (m, 1, 1))) (\<lambda>s.
      bind_comp (Some (for_loop size0 (\<lambda>i. insert_next n (init_info seed (of_nat i))) s)) (\<lambda>(m, free).
      bind_comp (Some (get_next m (Some 0))) (\<lambda>finder.
      bind_comp (index_loop seed size0 finder 1 m) (\<lambda>m.
        core_list_mergesort m (Some 0) (cmp_idx True))))))))"

subsection \<open>The benchmark\<close>

text \<open>The variables of the finding loop.\<close>

record finding =
  fl_list :: item
  fl_retval :: u16
  fl_found :: u16
  fl_missed :: u16
  fl_info :: list_data

text \<open>The next item is moved behind the head of the list.\<close>

definition move_to_front :: "core_results \<Rightarrow> item \<Rightarrow> item \<Rightarrow> core_results run" where
  "move_to_front m this_find lst =
     bind_run (get_next m this_find) (\<lambda>finder.
       if finder = None then Done m
       else bind_run (get_next m finder) (\<lambda>n.
         bind_run (set_next m this_find n) (\<lambda>m.
         bind_run (get_next m lst) (\<lambda>l.
         bind_run (set_next m finder l) (\<lambda>m.
           set_next m lst finder)))))"

definition find_turn :: "i32 \<Rightarrow> finding \<Rightarrow> core_results \<Rightarrow> (finding \<times> core_results) comp" where
  "find_turn i f m =
     (let info = (fl_info f)\<lparr>data16 := ucast (i AND 0xff)\<rparr> in
      bind_comp (core_list_find m (fl_list f) info) (\<lambda>this_find.
      bind_comp (core_list_reverse m (fl_list f)) (\<lambda>(m, lst).
      bind_comp
        (if this_find = None
         then bind_comp (Some (get_next m lst)) (\<lambda>n. bind_comp (Some (get_info m n)) (\<lambda>v.
           Some (Done (f\<lparr>fl_missed := fl_missed f + 1,
             fl_retval := fl_retval f + (signed_drop_bit 8 (data16 v) AND 1)\<rparr>, m))))
         else bind_comp (Some (get_info m this_find)) (\<lambda>v.
           let add = (if data16 v AND 0x1 \<noteq> 0 then signed_drop_bit 9 (data16 v) AND 1 else 0)
           in bind_comp (Some (move_to_front m this_find lst)) (\<lambda>m.
             Some (Done (f\<lparr>fl_found := fl_found f + 1, fl_retval := fl_retval f + add\<rparr>, m)))))
        (\<lambda>(f, m).
          Some (Done (f\<lparr>fl_list := lst,
            fl_info := (if 0 \<le>s idx info then info\<lparr>idx := idx info + 1\<rparr> else info)\<rparr>, m))))))"

fun find_loop :: "nat \<Rightarrow> i32 \<Rightarrow> finding \<Rightarrow> core_results \<Rightarrow> (finding \<times> core_results) comp" where
  "find_loop 0 i f m = Some (Done (f, m))"
| "find_loop (Suc k) i f m =
     bind_comp (find_turn i f m) (\<lambda>(f, m). find_loop k (i + 1) f m)"

text \<open>The loops that add the data of the head to the code once per item from \<open>finder\<close> on.\<close>

partial_function (option) crc_loop :: "core_results \<Rightarrow> item \<Rightarrow> item \<Rightarrow> u16 \<Rightarrow> u16 comp" where
  "crc_loop m lst finder retval =
     (if finder = None then Some (Done retval)
      else bind_comp (Some (get_info m lst)) (\<lambda>v.
        bind_comp (Some (get_next m finder)) (\<lambda>q.
          crc_loop m lst q (crc16 (data16 v) retval))))"

definition core_bench_list :: "core_results \<Rightarrow> u16 \<Rightarrow> (u16 \<times> core_results) comp" where
  "core_bench_list m finder_idx =
     (let find_num = res_seed3 m;
          f = \<lparr>fl_list = res_list m, fl_retval = 0, fl_found = 0, fl_missed = 0,
               fl_info = \<lparr>data16 = 0, idx = finder_idx\<rparr>\<rparr> in
      bind_comp (find_loop (nat (sint find_num)) 0 f m) (\<lambda>(f, m).
      let retval = fl_retval f + (fl_found f * 4 - fl_missed f); info = fl_info f in
      bind_comp
        (if 0 <s finder_idx then core_list_mergesort m (fl_list f) cmp_complex
         else Some (Done (fl_list f, m))) (\<lambda>(lst, m).
      bind_comp (Some (get_next m lst)) (\<lambda>first.
      bind_comp (Some (core_list_remove m first)) (\<lambda>(m, remover).
      bind_comp (core_list_find m lst info) (\<lambda>finder.
      bind_comp (Some (if finder = None then get_next m lst else Done finder)) (\<lambda>finder.
      bind_comp (crc_loop m lst finder retval) (\<lambda>retval.
      bind_comp (Some (get_next m lst)) (\<lambda>first.
      bind_comp (Some (core_list_undo_remove m remover first)) (\<lambda>(m, remover).
      bind_comp (core_list_mergesort m lst (cmp_idx True)) (\<lambda>(lst, m).
      bind_comp (Some (get_next m lst)) (\<lambda>finder.
      bind_comp (crc_loop m lst finder retval) (\<lambda>retval.
        Some (Done (retval, m)))))))))))))))"

end
