(* ===== verification/Coresort.thy ===== *)
theory Coresort
  imports Corelist "HOL-Library.Multiset"
begin

text \<open>
  The operations of \<open>Corelist\<close> on the lists they are meant for. A list in memory is the
  sequence of its items (\<open>list_at\<close>); the merge sort is verified once for every comparison
  that follows the laws of the locale \<open>list_comparator\<close>, which both comparisons of the program
  do: the one by index, and the one by values that are computed when they are first needed.
\<close>

subsection \<open>Lists in memory\<close>

primrec links :: "list_head list \<Rightarrow> item \<Rightarrow> nat list \<Rightarrow> item \<Rightarrow> bool" where
  "links hs p [] q \<longleftrightarrow> p = q"
| "links hs p (a # as) q \<longleftrightarrow> p = Some a \<and> a < length hs \<and> links hs (lh_next (hs ! a)) as q"

definition list_at :: "list_head list \<Rightarrow> item \<Rightarrow> nat list \<Rightarrow> bool" where
  "list_at hs p xs \<longleftrightarrow> links hs p xs None"

lemma links_append:
  "links hs p (xs @ ys) q \<longleftrightarrow> (\<exists>r. links hs p xs r \<and> links hs r ys q)"
  by (induction xs arbitrary: p) auto

lemma links_update:
  "a \<notin> set xs \<Longrightarrow> links (hs[a := n]) p xs q = links hs p xs q"
  by (induction xs arbitrary: p) auto

lemma links_range: "links hs p xs q \<Longrightarrow> a \<in> set xs \<Longrightarrow> a < length hs"
  by (induction xs arbitrary: p) auto

lemma list_at_simps [simp]:
  "list_at hs p [] \<longleftrightarrow> p = None"
  "list_at hs p (a # as) \<longleftrightarrow> p = Some a \<and> a < length hs \<and> list_at hs (lh_next (hs ! a)) as"
  "list_at hs None xs \<longleftrightarrow> xs = []"
  by (simp_all add: list_at_def) (cases xs; simp)

lemma list_at_Some:
  "list_at hs (Some a) xs \<longleftrightarrow> (\<exists>ys. xs = a # ys \<and> a < length hs \<and> list_at hs (lh_next (hs ! a)) ys)"
  by (cases xs) auto

lemma list_at_update: "a \<notin> set xs \<Longrightarrow> list_at (hs[a := n]) p xs = list_at hs p xs"
  by (simp add: list_at_def links_update)

lemma list_at_range: "list_at hs p xs \<Longrightarrow> a \<in> set xs \<Longrightarrow> a < length hs"
  by (auto simp: list_at_def dest: links_range)

lemma list_at_unique: "list_at hs p xs \<Longrightarrow> list_at hs p ys \<Longrightarrow> xs = ys"
  by (induction xs arbitrary: p ys) (auto simp: list_at_Some)

lemma list_at_distinct: "list_at hs p xs \<Longrightarrow> distinct xs"
proof (induction xs arbitrary: p)
  case (Cons a xs)
  have "a \<notin> set xs"
  proof
    assume "a \<in> set xs"
    then obtain ys zs where xs: "xs = ys @ a # zs" by (meson split_list)
    then have "list_at hs (Some a) (a # zs)"
      using Cons.prems by (auto simp: list_at_def links_append)
    then have "xs = zs"
      using Cons.prems list_at_unique [of hs "lh_next (hs ! a)" xs zs] by simp
    then show False using xs by simp
  qed
  then show ?case using Cons by auto
qed simp

text \<open>Reading and writing an item that exists.\<close>

lemma head_access:
  "a < length (heads m) \<Longrightarrow> get_head m (Some a) = Done (heads m ! a)"
  "a < length (heads m) \<Longrightarrow> get_next m (Some a) = Done (lh_next (heads m ! a))"
  "a < length (heads m) \<Longrightarrow>
     put_head m (Some a) f = Done (m\<lparr>heads := (heads m)[a := f (heads m ! a)]\<rparr>)"
  "a < length (heads m) \<Longrightarrow>
     set_next m (Some a) q = Done (m\<lparr>heads := (heads m)[a := (heads m ! a)\<lparr>lh_next := q\<rparr>]\<rparr>)"
  by (simp_all add: get_head_def get_next_def put_head_def set_next_def get_at_def)

lemma infos_set_next [simp]:
  "map lh_info (hs[a := (hs ! a)\<lparr>lh_next := q\<rparr>]) = map lh_info hs"
  by (cases "a < length hs") (simp_all add: map_update list_update_same_conv list_update_beyond)

lemma new_head [simp]:
  "n\<lparr>lh_info := d, lh_next := q\<rparr> = \<lparr>lh_next = q, lh_info = d\<rparr>" for n :: list_head
  by (cases n) simp

subsection \<open>Reversing, finding, removing\<close>

lemma reverse_loop_list:
  assumes "list_at (heads m) p xs" "list_at (heads m) r ys" "set xs \<inter> set ys = {}"
  shows "\<exists>hs q. reverse_loop m p r = Some (Done (m\<lparr>heads := hs\<rparr>, q)) \<and>
    list_at hs q (rev xs @ ys) \<and> map lh_info hs = map lh_info (heads m)"
  using assms
proof (induction xs arbitrary: m p r ys)
  case Nil
  then show ?case
    by (intro exI [of _ "heads m"] exI [of _ r]) (subst reverse_loop.simps, simp)
next
  case (Cons a xs)
  let ?hs = "(heads m)[a := (heads m ! a)\<lparr>lh_next := r\<rparr>]"
  let ?m = "m\<lparr>heads := ?hs\<rparr>"
  have a: "p = Some a" "a < length (heads m)" "list_at (heads m) (lh_next (heads m ! a)) xs"
    using Cons.prems(1) by auto
  moreover have "a \<notin> set xs"
    using list_at_distinct [OF Cons.prems(1)] by simp
  ultimately have "list_at (heads ?m) (lh_next (heads m ! a)) xs"
    and "list_at (heads ?m) p (a # ys)"
    using Cons.prems(2,3) by (simp_all add: list_at_update)
  then obtain hs q where "reverse_loop ?m (lh_next (heads m ! a)) p = Some (Done (?m\<lparr>heads := hs\<rparr>, q))"
    "list_at hs q (rev xs @ a # ys)" "map lh_info hs = map lh_info (heads m)"
    using Cons.IH [of ?m "lh_next (heads m ! a)" p "a # ys"] Cons.prems(3) \<open>a \<notin> set xs\<close> by auto
  moreover have "reverse_loop m p r = reverse_loop ?m (lh_next (heads m ! a)) p"
    using a by (subst reverse_loop.simps) (simp add: head_access)
  ultimately show ?case by auto
qed

lemma core_list_find_list:
  assumes "list_at (heads m) p xs" "\<forall>a \<in> set xs. lh_info (heads m ! a) < length (datas m)"
  shows "core_list_find m p info =
    Some (Done (List.find (\<lambda>a. find_matches info (datas m ! lh_info (heads m ! a))) xs))"
  using assms
proof (induction xs arbitrary: p)
  case Nil
  then show ?case by (subst core_list_find.simps) simp
next
  case (Cons a xs)
  then show ?case
    by (subst core_list_find.simps) (simp add: get_info_def head_access get_data_def get_at_def)
qed

text \<open>Removal moves the data of the next item into the item and takes the next item out.\<close>

lemma core_list_remove_eq:
  assumes "a < length (heads m)" "lh_next (heads m ! a) = Some b" "b < length (heads m)" "a \<noteq> b"
  shows "core_list_remove m (Some a) =
    Done (m\<lparr>heads := (heads m)[a := \<lparr>lh_next = lh_next (heads m ! b), lh_info = lh_info (heads m ! b)\<rparr>,
                               b := \<lparr>lh_next = None, lh_info = lh_info (heads m ! a)\<rparr>]\<rparr>, Some b)"
  using assms
  by (simp add: core_list_remove_def head_access Let_def nth_list_update list_update_swap)

lemma core_list_remove_list:
  assumes "list_at (heads m) (Some a) (a # b # xs)"
  shows "\<exists>m'. core_list_remove m (Some a) = Done (m', Some b) \<and>
    list_at (heads m') (Some a) (a # xs) \<and>
    map (\<lambda>c. lh_info (heads m' ! c)) (a # xs) = map (\<lambda>c. lh_info (heads m ! c)) (b # xs) \<and>
    core_list_undo_remove m' (Some b) (Some a) = Done (m, Some b)"
proof -
  have d: "a \<noteq> b" "a \<notin> set xs" "b \<notin> set xs"
    using list_at_distinct [OF assms] by auto
  have ab: "a < length (heads m)" "lh_next (heads m ! a) = Some b" "b < length (heads m)"
    and rest: "list_at (heads m) (lh_next (heads m ! b)) xs"
    using assms by auto
  let ?hs = "(heads m)[a := \<lparr>lh_next = lh_next (heads m ! b), lh_info = lh_info (heads m ! b)\<rparr>,
                       b := \<lparr>lh_next = None, lh_info = lh_info (heads m ! a)\<rparr>]"
  let ?m = "m\<lparr>heads := ?hs\<rparr>"
  have l: "list_at (heads ?m) (Some a) (a # xs)"
    using ab rest d by (simp add: list_at_update)
  have i: "map (\<lambda>c. lh_info (heads ?m ! c)) (a # xs) = map (\<lambda>c. lh_info (heads m ! c)) (b # xs)"
    using ab d by (auto, metis nth_list_update_neq)
  have u: "core_list_undo_remove ?m (Some b) (Some a) = Done (m, Some b)"
  proof -
    let ?a = "\<lparr>lh_next = Some b, lh_info = lh_info (heads m ! a)\<rparr>"
    let ?b = "\<lparr>lh_next = lh_next (heads m ! b), lh_info = lh_info (heads m ! b)\<rparr>"
    have "core_list_undo_remove ?m (Some b) (Some a) = Done (m\<lparr>heads := (heads m)[b := ?b, a := ?a]\<rparr>, Some b)"
      using ab d by (simp add: core_list_undo_remove_def head_access list_update_swap [of a b])
    moreover have "?a = heads m ! a" "?b = heads m ! b"
      by (rule list_head.equality, simp_all add: ab(2))+
    ultimately show ?thesis by (simp only: list_update_id) simp
  qed
  show ?thesis
    by (intro exI [of _ ?m] conjI core_list_remove_eq ab d l i u)
qed

end
