(* ===== verification/Coremerge.thy ===== *)
theory Coremerge
  imports Coresort
begin

text \<open>
  The merge sort of \<open>Corelist\<close>, verified for every comparison with the laws of
  \<open>list_comparator\<close>, and the two comparisons of the program as its interpretations.
\<close>

subsection \<open>The output list\<close>

text \<open>The list from \<open>lst\<close> to \<open>tail\<close>; the link of the last item is not yet of the list.\<close>

definition out_list :: "list_head list \<Rightarrow> item \<Rightarrow> item \<Rightarrow> nat list \<Rightarrow> bool" where
  "out_list hs lst tail ys \<longleftrightarrow>
     (if ys = [] then tail = None
      else tail = Some (last ys) \<and> last ys < length hs \<and> links hs lst (butlast ys) (Some (last ys)))"

lemma out_list_Nil [simp]: "out_list hs lst tail [] \<longleftrightarrow> tail = None"
  by (simp add: out_list_def)

lemma links_snoc: "links hs p (xs @ [a]) q \<longleftrightarrow> links hs p xs (Some a) \<and> a < length hs \<and> lh_next (hs ! a) = q"
  by (auto simp: links_append)

lemma add_to_tail_out:
  assumes "out_list (heads m) lst tail ys" "e < length (heads m)" "e \<notin> set ys" "distinct ys"
  obtains m' lst' hs where "add_to_tail m lst tail (Some e) = Done (m', lst')"
    "m' = m\<lparr>heads := hs\<rparr>" "map lh_info hs = map lh_info (heads m)"
    "out_list hs lst' (Some e) (ys @ [e])"
    "\<And>p xs q. set xs \<inter> set ys = {} \<Longrightarrow> links hs p xs q = links (heads m) p xs q"
proof (cases "ys = []")
  case True
  then show ?thesis
    using that [of m "Some e" "heads m"] assms by (simp add: add_to_tail_def out_list_def)
next
  case False
  then obtain zs z where ys: "ys = zs @ [z]" by (meson rev_exhaust)
  let ?hs = "(heads m)[z := (heads m ! z)\<lparr>lh_next := Some e\<rparr>]"
  have z: "tail = Some z" "z < length (heads m)" "links (heads m) lst zs (Some z)" "z \<notin> set zs"
    using assms ys by (auto simp: out_list_def)
  have "add_to_tail m lst tail (Some e) = Done (m\<lparr>heads := ?hs\<rparr>, lst)"
    using z by (simp add: add_to_tail_def head_access)
  moreover have "out_list ?hs lst (Some e) (ys @ [e])"
    using z assms(2) unfolding out_list_def ys butlast_snoc
    by (simp add: links_snoc links_update)
  moreover have "links ?hs p xs q = links (heads m) p xs q" if "set xs \<inter> set ys = {}" for p xs q
    using that ys by (intro links_update) auto
  ultimately show ?thesis using that [of "m\<lparr>heads := ?hs\<rparr>" lst ?hs] by simp
qed

lemma step_along_list:
  "list_at (heads m) p xs \<Longrightarrow> xs \<noteq> [] \<or> k = 0 \<Longrightarrow>
   \<exists>q. step_along m k n p = Done (n + length (take k xs), q) \<and>
     links (heads m) p (take k xs) q \<and> list_at (heads m) q (drop k xs)"
proof (induction k arbitrary: n p xs)
  case (Suc k)
  then obtain a ys where xs: "xs = a # ys" by (cases xs) auto
  then have a: "p = Some a" "a < length (heads m)" "list_at (heads m) (lh_next (heads m ! a)) ys"
    using Suc.prems(1) by auto
  show ?case
  proof (cases "lh_next (heads m ! a) = None")
    case True
    then show ?thesis using a xs by (simp add: head_access)
  next
    case False
    then have "ys \<noteq> []" using a(3) by auto
    then show ?thesis
      using Suc.IH [OF a(3), of "n + 1"] False a xs by (auto simp: head_access)
  qed
qed simp

subsection \<open>Runs\<close>

locale list_comparator =
  fixes cmp :: list_cmp
    and ok :: "core_results \<Rightarrow> bool"
    and key :: "core_results \<Rightarrow> nat \<Rightarrow> int option"
  assumes ok_heads: "ok (m\<lparr>heads := hs\<rparr>) = ok m"
    and key_heads: "key (m\<lparr>heads := hs\<rparr>) = key m"
    and cmp_law: "ok m \<Longrightarrow> a < length (datas m) \<Longrightarrow> b < length (datas m) \<Longrightarrow>
      \<exists>r m' ka kb. cmp a b m = Some (Done (r, m')) \<and> ok m' \<and> heads m' = heads m \<and>
        length (datas m') = length (datas m) \<and> key m' a = Some ka \<and> key m' b = Some kb \<and>
        (r \<le>s 0 \<longleftrightarrow> ka \<le> kb) \<and> (\<forall>c k. key m c = Some k \<longrightarrow> key m' c = Some k)"
begin

text \<open>What a comparison or a relinking leaves.\<close>

definition grows :: "core_results \<Rightarrow> core_results \<Rightarrow> bool" where
  "grows m m' \<longleftrightarrow> ok m' \<and> map lh_info (heads m') = map lh_info (heads m) \<and>
     length (datas m') = length (datas m) \<and> (\<forall>c k. key m c = Some k \<longrightarrow> key m' c = Some k)"

definition item_key :: "core_results \<Rightarrow> nat \<Rightarrow> int option" where
  "item_key m a = key m (map lh_info (heads m) ! a)"

definition valid_items :: "core_results \<Rightarrow> nat list \<Rightarrow> bool" where
  "valid_items m xs \<longleftrightarrow>
     (\<forall>a \<in> set xs. a < length (heads m) \<and> lh_info (heads m ! a) < length (datas m))"

fun ordered :: "core_results \<Rightarrow> nat list \<Rightarrow> bool" where
  "ordered m [] \<longleftrightarrow> True"
| "ordered m (a # xs) \<longleftrightarrow>
     (\<exists>k. item_key m a = Some k \<and> (\<forall>b \<in> set xs. \<exists>l. item_key m b = Some l \<and> k \<le> l)) \<and> ordered m xs"

text \<open>A single item need not have its key yet.\<close>

definition sorted_run :: "core_results \<Rightarrow> nat list \<Rightarrow> bool" where
  "sorted_run m xs \<longleftrightarrow> length xs \<le> 1 \<or> ordered m xs"

lemma grows_refl: "ok m \<Longrightarrow> grows m m"
  by (simp add: grows_def)

lemma grows_trans: "grows m m1 \<Longrightarrow> grows m1 m2 \<Longrightarrow> grows m m2"
  by (simp add: grows_def)

lemma grows_heads: "ok m \<Longrightarrow> map lh_info hs = map lh_info (heads m) \<Longrightarrow> grows m (m\<lparr>heads := hs\<rparr>)"
  by (simp add: grows_def ok_heads key_heads)

lemma grows_ok: "grows m m' \<Longrightarrow> ok m'"
  by (simp add: grows_def)

lemma grows_length: "grows m m' \<Longrightarrow> length (heads m') = length (heads m)"
  by (metis grows_def length_map)

lemma grows_key: "grows m m' \<Longrightarrow> item_key m a = Some k \<Longrightarrow> item_key m' a = Some k"
  by (simp add: grows_def item_key_def)

lemma grows_ordered: "grows m m' \<Longrightarrow> ordered m xs \<Longrightarrow> ordered m' xs"
proof (induction xs)
  case (Cons a xs)
  obtain k where k: "item_key m a = Some k" "\<forall>b \<in> set xs. \<exists>l. item_key m b = Some l \<and> k \<le> l"
    using Cons.prems(2) by auto
  have "\<exists>l. item_key m' b = Some l \<and> k \<le> l" if "b \<in> set xs" for b
    using k(2) that grows_key [OF Cons.prems(1)] by blast
  then show ?case
    using grows_key [OF Cons.prems(1) k(1)] Cons by simp
qed simp

lemma grows_run: "grows m m' \<Longrightarrow> sorted_run m xs \<Longrightarrow> sorted_run m' xs"
  by (auto simp: sorted_run_def grows_ordered)

lemma grows_info:
  assumes "grows m m'" "a < length (heads m)"
  shows "lh_info (heads m' ! a) = lh_info (heads m ! a)"
proof -
  have "map lh_info (heads m') ! a = map lh_info (heads m) ! a"
    using assms(1) by (simp add: grows_def)
  then show ?thesis using assms(2) grows_length [OF assms(1)] by simp
qed

lemma grows_valid:
  assumes "grows m m'"
  shows "valid_items m' xs \<longleftrightarrow> valid_items m xs"
  using assms grows_length [OF assms] grows_info [OF assms]
  by (auto simp: valid_items_def grows_def)

lemma valid_items_simps [simp]:
  "valid_items m []"
  "valid_items m (a # xs) \<longleftrightarrow>
     a < length (heads m) \<and> lh_info (heads m ! a) < length (datas m) \<and> valid_items m xs"
  "valid_items m (xs @ ys) \<longleftrightarrow> valid_items m xs \<and> valid_items m ys"
  by (auto simp: valid_items_def)

lemma run_tail: "sorted_run m (a # xs) \<Longrightarrow> sorted_run m xs"
  by (cases xs) (auto simp: sorted_run_def)

lemma run_head_keyed: "sorted_run m (a # xs) \<Longrightarrow> item_key m a = Some k \<Longrightarrow> ordered m (a # xs)"
  by (cases xs) (auto simp: sorted_run_def)

text \<open>The comparison of two items.\<close>

lemma takes_p_compare:
  assumes "ok m" "0 < psize" "0 < qsize" "valid_items m [a, b]"
  obtains r m' ka kb where "takes_p cmp (Some a) (Some b) psize qsize m = Some (Done (ka \<le> kb, m'))"
    "grows m m'" "heads m' = heads m" "item_key m' a = Some ka" "item_key m' b = Some kb"
proof -
  obtain r m' ka kb where "cmp (lh_info (heads m ! a)) (lh_info (heads m ! b)) m = Some (Done (r, m'))"
    "ok m'" "heads m' = heads m" "length (datas m') = length (datas m)"
    "key m' (lh_info (heads m ! a)) = Some ka" "key m' (lh_info (heads m ! b)) = Some kb"
    "r \<le>s 0 \<longleftrightarrow> ka \<le> kb" "\<forall>c k. key m c = Some k \<longrightarrow> key m' c = Some k"
    using cmp_law [OF assms(1), of "lh_info (heads m ! a)" "lh_info (heads m ! b)"] assms(4) by auto
  then show ?thesis
    using assms that [of ka kb m'] by (simp add: takes_p_def head_access grows_def item_key_def)
qed

subsection \<open>Merging two runs\<close>

definition merged :: "nat list \<Rightarrow> nat list \<Rightarrow> core_results \<Rightarrow> nat list \<Rightarrow> bool" where
  "merged xs ts m ms \<longleftrightarrow> mset ms = mset xs + mset ts \<and> sorted_run m ms \<and>
     (xs \<noteq> [] \<and> ts \<noteq> [] \<longrightarrow> ordered m ms) \<and> (xs = [] \<longrightarrow> ms = ts) \<and> (ts = [] \<longrightarrow> ms = xs)"

text \<open>The state of the merging loop: the two inputs and the output.\<close>

definition merging ::
    "core_results \<Rightarrow> item \<Rightarrow> nat list \<Rightarrow> item \<Rightarrow> nat list \<Rightarrow> item \<Rightarrow> item \<Rightarrow> nat list \<Rightarrow> bool" where
  "merging m p xs q zs lst tail ys \<longleftrightarrow> ok m \<and> (\<exists>r. links (heads m) p xs r) \<and>
     list_at (heads m) q zs \<and> out_list (heads m) lst tail ys \<and> distinct (ys @ xs @ zs) \<and>
     valid_items m (xs @ zs)"

lemma merging_sizes:
  assumes "merging m p xs q zs lst tail ys"
  shows "xs = [] \<or> p = Some (hd xs)" "q = None \<longleftrightarrow> zs = []" "zs = [] \<or> q = Some (hd zs)"
  using assms by (cases xs; cases zs; auto simp: merging_def)+

lemma merging_grows:
  assumes "merging m p xs q zs lst tail ys" "grows m m1" "heads m1 = heads m"
  shows "merging m1 p xs q zs lst tail ys"
  using assms by (simp add: merging_def grows_ok grows_valid)

lemma add_item:
  assumes "merging m p xs q zs lst tail ys" "e \<in> set (xs @ zs)"
  obtains m2 lst2 where "add_to_tail m lst tail (Some e) = Done (m2, lst2)" "grows m m2"
    "out_list (heads m2) lst2 (Some e) (ys @ [e])"
    "\<And>p us q. set us \<subseteq> set xs \<union> set zs \<Longrightarrow> links (heads m2) p us q = links (heads m) p us q"
proof -
  have I: "out_list (heads m) lst tail ys" "e < length (heads m)" "e \<notin> set ys" "distinct ys" "ok m"
    "(set xs \<union> set zs) \<inter> set ys = {}"
    using assms by (auto simp: merging_def valid_items_def)
  obtain m2 lst2 hs where add: "add_to_tail m lst tail (Some e) = Done (m2, lst2)"
    "m2 = m\<lparr>heads := hs\<rparr>" "map lh_info hs = map lh_info (heads m)"
    "out_list hs lst2 (Some e) (ys @ [e])"
    and keeps: "\<And>p xs q. set xs \<inter> set ys = {} \<Longrightarrow> links hs p xs q = links (heads m) p xs q"
    using add_to_tail_out [OF I(1-4)] by metis
  have "links (heads m2) p us q = links (heads m) p us q" if "set us \<subseteq> set xs \<union> set zs" for p us q
    using keeps [of us] that I(6) add(2) by auto
  then show ?thesis
    using that add grows_heads [OF I(5) add(3)] by simp
qed

lemma merge_runs_take_p:
  assumes "merging m p (e # xs) q zs lst tail ys"
    and "takes_p cmp p q (Suc (length xs)) k m = Some (Done (True, m1))" "grows m m1" "heads m1 = heads m"
  obtains m2 lst2 where "merge_runs cmp p q (Suc (length xs)) k lst tail m =
      merge_runs cmp (lh_next (heads m ! e)) q (length xs) k lst2 (Some e) m2"
    "grows m1 m2" "merging m2 (lh_next (heads m ! e)) xs q zs lst2 (Some e) (ys @ [e])"
proof -
  note I = merging_grows [OF assms(1,3,4)]
  obtain m2 lst2 where add: "add_to_tail m1 lst tail (Some e) = Done (m2, lst2)" "grows m1 m2"
    "out_list (heads m2) lst2 (Some e) (ys @ [e])"
    and keeps: "\<And>p us q. set us \<subseteq> set (e # xs) \<union> set zs \<Longrightarrow> links (heads m2) p us q = links (heads m1) p us q"
    using add_item [OF I, of e] by auto
  have e: "p = Some e" "e < length (heads m1)" using I by (auto simp: merging_def)
  have "merge_runs cmp p q (Suc (length xs)) k lst tail m =
      merge_runs cmp (lh_next (heads m ! e)) q (length xs) k lst2 (Some e) m2"
    using assms(2,4) e add(1) by (subst merge_runs.simps) (simp add: head_access)
  moreover have "merging m2 (lh_next (heads m ! e)) xs q zs lst2 (Some e) (ys @ [e])"
    using I e add(3) keeps [of xs] keeps [of zs] assms(4)
    by (auto simp: merging_def list_at_def grows_ok [OF add(2)] grows_valid [OF add(2)])
  ultimately show ?thesis using that add(2) by blast
qed

lemma merge_runs_take_q:
  assumes "merging m p xs q (e # zs) lst tail ys"
    and "takes_p cmp p q (length xs) (Suc k) m = Some (Done (False, m1))" "grows m m1" "heads m1 = heads m"
  obtains m2 lst2 where "merge_runs cmp p q (length xs) (Suc k) lst tail m =
      merge_runs cmp p (lh_next (heads m ! e)) (length xs) k lst2 (Some e) m2"
    "grows m1 m2" "merging m2 p xs (lh_next (heads m ! e)) zs lst2 (Some e) (ys @ [e])"
proof -
  note I = merging_grows [OF assms(1,3,4)]
  obtain m2 lst2 where add: "add_to_tail m1 lst tail (Some e) = Done (m2, lst2)" "grows m1 m2"
    "out_list (heads m2) lst2 (Some e) (ys @ [e])"
    and keeps: "\<And>p us q. set us \<subseteq> set xs \<union> set (e # zs) \<Longrightarrow> links (heads m2) p us q = links (heads m1) p us q"
    using add_item [OF I, of e] by auto
  have e: "q = Some e" "e < length (heads m1)" using I by (auto simp: merging_def)
  have "merge_runs cmp p q (length xs) (Suc k) lst tail m =
      merge_runs cmp p (lh_next (heads m ! e)) (length xs) k lst2 (Some e) m2"
    using assms(2,4) e add(1) by (subst merge_runs.simps) (simp add: head_access)
  moreover have "merging m2 p xs (lh_next (heads m ! e)) zs lst2 (Some e) (ys @ [e])"
    using I e add(3) keeps [of xs] keeps [of zs] assms(4)
    by (auto simp: merging_def list_at_def grows_ok [OF add(2)] grows_valid [OF add(2)])
  ultimately show ?thesis using that add(2) by blast
qed

lemma ordered_above:
  "ordered m (a # xs) \<Longrightarrow> item_key m a = Some ka \<Longrightarrow> k \<le> ka \<Longrightarrow> b \<in> set (a # xs) \<Longrightarrow>
   \<exists>l. item_key m b = Some l \<and> k \<le> l"
  by (cases "b = a") fastforce+

text \<open>The smaller head in front of the merged rest.\<close>

lemma merged_Cons:
  assumes "merged xs (z # ts) m ms" "ordered m (e # xs)" "ordered m (z # ts)"
    and "item_key m e = Some ke" "item_key m z = Some kz" "ke \<le> kz"
  shows "merged (e # xs) (z # ts) m (e # ms)"
proof -
  have set: "set ms = set xs \<union> set (z # ts)"
    using assms(1) by (metis merged_def set_mset_mset set_mset_union)
  have "\<exists>l. item_key m b = Some l \<and> ke \<le> l" if "b \<in> set ms" for b
    using that assms(2,4) ordered_above [OF assms(3,5,6)] unfolding set by auto
  moreover have "ordered m ms"
    using assms(1,3) by (cases "xs = []") (auto simp: merged_def)
  ultimately have "ordered m (e # ms)" using assms(4) by simp
  then show ?thesis using assms(1) by (simp add: merged_def sorted_run_def)
qed

lemma merged_commute: "merged xs ts m ms \<Longrightarrow> merged ts xs m ms"
  by (auto simp: merged_def ac_simps)

lemma merge_runs_correct:
  assumes "merging m p xs q zs lst tail ys" "sorted_run m xs" "sorted_run m (take k zs)"
  shows "\<exists>q' lst' tail' m' ms.
    merge_runs cmp p q (length xs) k lst tail m = Some (Done (q', lst', tail', m')) \<and>
    grows m m' \<and> merging m' None [] q' (drop k zs) lst' tail' (ys @ ms) \<and>
    merged xs (take k zs) m' ms"
  using assms
proof (induction "length xs + length (take k zs)" arbitrary: p xs q zs k lst tail ys m rule: less_induct)
  case less
  note I = less.prems(1) and sizes = merging_sizes [OF less.prems(1)]
  have okm: "ok m" using I by (simp add: merging_def)
  consider (stop) "xs = []" "take k zs = []"
    | (q_only) e zs' k' where "xs = []" "zs = e # zs'" "k = Suc k'"
    | (p_only) e xs' where "xs = e # xs'" "take k zs = []"
    | (both) e xs' z zs' k' where "xs = e # xs'" "zs = z # zs'" "k = Suc k'"
    by (cases xs; cases zs; cases k) auto
  then show ?case
  proof cases
    case stop
    then have "merge_runs cmp p q (length xs) k lst tail m = Some (Done (q, lst, tail, m))"
      using sizes by (subst merge_runs.simps) auto
    moreover have "merging m None [] q (drop k zs) lst tail (ys @ [])"
      using I stop by (auto simp: merging_def)
    ultimately show ?thesis
      using grows_refl [OF okm] stop by (fastforce simp: merged_def sorted_run_def)
  next
    case q_only
    have "takes_p cmp p q (length xs) (Suc k') m = Some (Done (False, m))"
      by (simp add: takes_p_def q_only)
    then obtain m2 lst2 where step: "merge_runs cmp p q (length xs) k lst tail m =
        merge_runs cmp p (lh_next (heads m ! e)) (length xs) k' lst2 (Some e) m2"
      "grows m m2" "merging m2 p xs (lh_next (heads m ! e)) zs' lst2 (Some e) (ys @ [e])"
      using merge_runs_take_q [OF I [unfolded q_only(2)] _ grows_refl [OF okm] refl] q_only by metis
    have "sorted_run m2 xs" "sorted_run m2 (take k' zs')"
      using less.prems(2,3) q_only grows_run [OF step(2)] run_tail [of m e "take k' zs'"] by auto
    then obtain q' lst' tail' m' ms where
      rest: "merge_runs cmp p (lh_next (heads m ! e)) (length xs) k' lst2 (Some e) m2 =
        Some (Done (q', lst', tail', m'))" "grows m2 m'"
      "merging m' None [] q' (drop k' zs') lst' tail' ((ys @ [e]) @ ms)" "merged xs (take k' zs') m' ms"
      using less.hyps [OF _ step(3), of k'] q_only by auto
    have "merged xs (take k zs) m' (e # ms)"
      using rest(4) q_only grows_run [OF grows_trans [OF step(2) rest(2)] less.prems(3)]
      by (auto simp: merged_def)
    then show ?thesis
      using step(1) rest(1,3) grows_trans [OF step(2) rest(2)] q_only by auto
  next
    case p_only
    have "takes_p cmp p q (Suc (length xs')) k m = Some (Done (True, m))"
      using p_only sizes(2) by (auto simp: takes_p_def)
    then obtain m2 lst2 where step: "merge_runs cmp p q (Suc (length xs')) k lst tail m =
        merge_runs cmp (lh_next (heads m ! e)) q (length xs') k lst2 (Some e) m2"
      "grows m m2" "merging m2 (lh_next (heads m ! e)) xs' q zs lst2 (Some e) (ys @ [e])"
      using merge_runs_take_p [OF I [unfolded p_only(1)] _ grows_refl [OF okm] refl] by metis
    have "sorted_run m2 xs'" "sorted_run m2 (take k zs)"
      using less.prems(2,3) p_only(1) grows_run [OF step(2)] run_tail [of m e xs'] by auto
    then obtain q' lst' tail' m' ms where
      rest: "merge_runs cmp (lh_next (heads m ! e)) q (length xs') k lst2 (Some e) m2 =
        Some (Done (q', lst', tail', m'))" "grows m2 m'"
      "merging m' None [] q' (drop k zs) lst' tail' ((ys @ [e]) @ ms)" "merged xs' (take k zs) m' ms"
      using less.hyps [OF _ step(3), of k] p_only by auto
    have "merged xs (take k zs) m' (e # ms)"
      using rest(4) p_only grows_run [OF grows_trans [OF step(2) rest(2)] less.prems(2)]
      by (auto simp: merged_def)
    then show ?thesis
      using step(1) rest(1,3) grows_trans [OF step(2) rest(2)] p_only(1) by auto
  next
    case both
    have "valid_items m [e, z]" "p = Some e" "q = Some z"
      using I both by (auto simp: merging_def)
    then obtain ka kb m1 where cmp1: "takes_p cmp p q (Suc (length xs')) (Suc k') m = Some (Done (ka \<le> kb, m1))"
      "grows m m1" "heads m1 = heads m" and keys: "item_key m1 e = Some ka" "item_key m1 z = Some kb"
      using takes_p_compare [OF okm, of "Suc (length xs')" "Suc k'" e z] by (metis zero_less_Suc)
    have "sorted_run m1 (e # xs')" "sorted_run m1 (z # take k' zs')"
      using less.prems(2,3) both grows_run [OF cmp1(2)] by auto
    then have ord: "ordered m1 (e # xs')" "ordered m1 (z # take k' zs')"
      using run_head_keyed keys by blast+
    show ?thesis
    proof (cases "ka \<le> kb")
      case True
      then have "takes_p cmp p q (Suc (length xs')) k m = Some (Done (True, m1))"
        using cmp1(1) both(3) by simp
      then obtain m2 lst2 where step: "merge_runs cmp p q (Suc (length xs')) k lst tail m =
          merge_runs cmp (lh_next (heads m ! e)) q (length xs') k lst2 (Some e) m2"
        "grows m1 m2" "merging m2 (lh_next (heads m ! e)) xs' q zs lst2 (Some e) (ys @ [e])"
        using merge_runs_take_p [OF I [unfolded both(1)] _ cmp1(2,3)] by metis
      note g = grows_trans [OF cmp1(2) step(2)]
      have "sorted_run m2 xs'" "sorted_run m2 (take k zs)"
        using less.prems(2,3) both(1) grows_run [OF g] run_tail [of m e xs'] by auto
      then obtain q' lst' tail' m' ms where
        rest: "merge_runs cmp (lh_next (heads m ! e)) q (length xs') k lst2 (Some e) m2 =
          Some (Done (q', lst', tail', m'))" "grows m2 m'"
        "merging m' None [] q' (drop k zs) lst' tail' ((ys @ [e]) @ ms)" "merged xs' (take k zs) m' ms"
        using less.hyps [OF _ step(3), of k] both by auto
      note g' = grows_trans [OF step(2) rest(2)]
      have "merged xs (take k zs) m' (e # ms)"
        using merged_Cons [OF _ grows_ordered [OF g' ord(1)] grows_ordered [OF g' ord(2)]
            grows_key [OF g' keys(1)] grows_key [OF g' keys(2)] True] rest(4) both by simp
      then show ?thesis
        using step(1) rest(1,3) grows_trans [OF g rest(2)] both(1) by auto
    next
      case False
      then have "takes_p cmp p q (length xs) (Suc k') m = Some (Done (False, m1))"
        using cmp1(1) both(1) by simp
      then obtain m2 lst2 where step: "merge_runs cmp p q (length xs) k lst tail m =
          merge_runs cmp p (lh_next (heads m ! z)) (length xs) k' lst2 (Some z) m2"
        "grows m1 m2" "merging m2 p xs (lh_next (heads m ! z)) zs' lst2 (Some z) (ys @ [z])"
        using merge_runs_take_q [OF I [unfolded both(2)] _ cmp1(2,3)] both(3) by metis
      note g = grows_trans [OF cmp1(2) step(2)]
      have "sorted_run m2 xs" "sorted_run m2 (take k' zs')"
        using less.prems(2,3) both grows_run [OF g] run_tail [of m z "take k' zs'"] by auto
      then obtain q' lst' tail' m' ms where
        rest: "merge_runs cmp p (lh_next (heads m ! z)) (length xs) k' lst2 (Some z) m2 =
          Some (Done (q', lst', tail', m'))" "grows m2 m'"
        "merging m' None [] q' (drop k' zs') lst' tail' ((ys @ [z]) @ ms)" "merged xs (take k' zs') m' ms"
        using less.hyps [OF _ step(3), of k'] both by auto
      note g' = grows_trans [OF step(2) rest(2)]
      have "merged (take k zs) xs m' (z # ms)"
        using merged_Cons [OF _ grows_ordered [OF g' ord(2)] grows_ordered [OF g' ord(1)]
            grows_key [OF g' keys(2)] grows_key [OF g' keys(1)]] merged_commute [OF rest(4)] both False
        by simp
      then show ?thesis
        using step(1) rest(1,3) grows_trans [OF g rest(2)] both merged_commute by auto
    qed
  qed
qed

subsection \<open>The passes\<close>

text \<open>A list of sorted runs of a length.\<close>

definition sorted_runs :: "nat \<Rightarrow> core_results \<Rightarrow> nat list \<Rightarrow> bool" where
  "sorted_runs k m xs \<longleftrightarrow> (\<forall>i. sorted_run m (take k (drop (i * k) xs)))"

lemma sorted_runs_one: "sorted_runs 1 m xs"
  by (simp add: sorted_runs_def sorted_run_def)

lemma sorted_runs_grow: "grows m m' \<Longrightarrow> sorted_runs k m xs \<Longrightarrow> sorted_runs k m' xs"
  by (simp add: sorted_runs_def grows_run)

lemma sorted_runs_drop: "sorted_runs k m xs \<Longrightarrow> sorted_runs k m (drop (j * k) xs)"
  by (simp add: sorted_runs_def flip: add_mult_distrib)

lemma sorted_runs_nth: "sorted_runs k m xs \<Longrightarrow> sorted_run m (take k (drop (i * k) xs))"
  by (simp add: sorted_runs_def)

lemmas sorted_runs_first = sorted_runs_nth [where i = 0, simplified]
lemmas sorted_runs_second = sorted_runs_nth [where i = 1, simplified]

lemma sorted_runs_append:
  assumes "sorted_runs k m ys" "length ys = c * k" "sorted_run m ms" "length ms \<le> k"
  shows "sorted_runs k m (ys @ ms)"
  unfolding sorted_runs_def
proof
  fix i
  consider "i < c" | "i = c" | "c < i" by linarith
  then show "sorted_run m (take k (drop (i * k) (ys @ ms)))"
  proof cases
    case 1
    then have "Suc i * k \<le> c * k" by (intro mult_le_mono1) simp
    then have "i * k + k \<le> length ys" using assms(2) by simp
    then have "take k (drop (i * k) (ys @ ms)) = take k (drop (i * k) ys)" by simp
    then show ?thesis using sorted_runs_nth [OF assms(1)] by (simp only:)
  next
    case 2
    then show ?thesis using assms by simp
  next
    case 3
    then have "Suc c * k \<le> i * k" by (intro mult_le_mono1) simp
    then have "length (ys @ ms) \<le> i * k" using assms(2,4) by simp
    then show ?thesis by (simp add: sorted_run_def)
  qed
qed

lemma merge_pass_correct:
  assumes "0 < k" "merging m None [] p xs lst tail ys" "sorted_runs k m xs"
    and "sorted_runs (2 * k) m ys" "xs \<noteq> [] \<Longrightarrow> length ys = c * (2 * k)"
  shows "\<exists>lst' tail' n' m' zs. merge_pass cmp k p lst tail n m = Some (Done (lst', tail', n', m')) \<and>
    grows m m' \<and> merging m' None [] None [] lst' tail' zs \<and> mset zs = mset ys + mset xs \<and>
    sorted_runs (2 * k) m' zs \<and> (n' \<le> 1 \<longleftrightarrow> n + (length xs + 2 * k - 1) div (2 * k) \<le> 1)"
  using assms
proof (induction "length xs" arbitrary: p xs lst tail ys n m c rule: less_induct)
  case less
  have okm: "ok m" using less.prems(2) by (simp add: merging_def)
  show ?case
  proof (cases "xs = []")
    case True
    then have "p = None" using less.prems(2) by (simp add: merging_def)
    then have "merge_pass cmp k p lst tail n m = Some (Done (lst, tail, n, m))"
      by (subst merge_pass.simps) simp
    then show ?thesis
      using less.prems(1,2,4) True \<open>p = None\<close> grows_refl [OF okm] by auto
  next
    case False
    have p: "p \<noteq> None" "list_at (heads m) p xs"
      using less.prems(2) False by (auto simp: merging_def)
    obtain q where q: "step_along m k 0 p = Done (length (take k xs), q)"
      "links (heads m) p (take k xs) q" "list_at (heads m) q (drop k xs)"
      using step_along_list [OF p(2), of k 0] False by auto
    have "distinct (ys @ take k xs @ drop k xs)"
      using less.prems(2) by (simp add: merging_def del: distinct_append)
    then have merging: "merging m p (take k xs) q (drop k xs) lst tail ys"
      using less.prems(2) q(2,3) unfolding merging_def by (auto simp: valid_items_def dest: in_set_takeD in_set_dropD)
    obtain q' lst1 tail1 m1 ms where
      run: "merge_runs cmp p q (length (take k xs)) k lst tail m = Some (Done (q', lst1, tail1, m1))"
      "grows m m1" "merging m1 None [] q' (drop k (drop k xs)) lst1 tail1 (ys @ ms)"
      "merged (take k xs) (take k (drop k xs)) m1 ms"
      using merge_runs_correct [OF merging sorted_runs_first sorted_runs_second] less.prems(3) by blast
    have rest: "drop k (drop k xs) = drop (2 * k) xs" by (simp add: mult_2)
    have ms: "mset ms = mset (take (2 * k) xs)"
    proof -
      have "take (2 * k) xs = take k xs @ take k (drop k xs)" by (simp add: mult_2 take_add)
      then show ?thesis using run(4) by (simp add: merged_def)
    qed
    then have len: "length ms = min (length xs) (2 * k)" by (metis length_take mset_eq_length)
    have c: "length ys = c * (2 * k)" using less.prems(5) False by simp
    have "sorted_runs (2 * k) m1 (ys @ ms)"
      using sorted_runs_append [OF sorted_runs_grow [OF run(2) less.prems(4)] c] run(4) len
      by (simp add: merged_def)
    moreover have "sorted_runs k m1 (drop (2 * k) xs)"
      using sorted_runs_grow [OF run(2) sorted_runs_drop [OF less.prems(3), of 2]] by simp
    moreover have "length (ys @ ms) = Suc c * (2 * k)" if "drop (2 * k) xs \<noteq> []"
      using that c len by simp
    moreover have "length (drop (2 * k) xs) < length xs"
      using False less.prems(1) by simp
    ultimately obtain lst' tail' n' m' zs where
      end1: "merge_pass cmp k q' lst1 tail1 (n + 1) m1 = Some (Done (lst', tail', n', m'))"
      "grows m1 m'" "merging m' None [] None [] lst' tail' zs"
      "mset zs = mset (ys @ ms) + mset (drop (2 * k) xs)" "sorted_runs (2 * k) m' zs"
      "n' \<le> 1 \<longleftrightarrow> (n + 1) + (length (drop (2 * k) xs) + 2 * k - 1) div (2 * k) \<le> 1"
      using less.hyps [of "drop (2 * k) xs" m1 q' lst1 tail1 "ys @ ms" "Suc c" "n + 1"] less.prems(1)
        run(3) rest by metis
    have "mset zs = mset ys + mset xs"
      using end1(4) ms by (metis append_take_drop_id mset_append add.assoc)
    moreover have "(n + 1) + (length (drop (2 * k) xs) + 2 * k - 1) div (2 * k) =
      n + (length xs + 2 * k - 1) div (2 * k)"
    proof (cases "2 * k \<le> length xs")
      case True
      then have "length xs + 2 * k - 1 = (length xs - 2 * k + 2 * k - 1) + 2 * k"
        using less.prems(1) by simp
      then show ?thesis using less.prems(1) by (simp only: div_add_self2) simp
    next
      case F: False
      have "(2 * k - 1) div (2 * k) = 0" using less.prems(1) by simp
      moreover have "(length xs + 2 * k - 1) div (2 * k) = 1"
      proof (rule div_nat_eqI)
        have "1 \<le> length xs" using False by (cases xs) simp_all
        then show "2 * k * 1 \<le> length xs + 2 * k - 1"
          unfolding mult_1_right by linarith
        show "length xs + 2 * k - 1 < 2 * k * Suc 1"
          using F less.prems(1) by simp
      qed
      ultimately show ?thesis using F by simp
    qed
    moreover have "merge_pass cmp k p lst tail n m = merge_pass cmp k q' lst1 tail1 (n + 1) m1"
      unfolding merge_pass.simps [of cmp k p lst tail n m] if_not_P [OF p(1)] using q(1) run(1) by simp
    ultimately show ?thesis
      using end1 grows_trans [OF run(2) end1(2)] by auto
  qed
qed

lemma sort_passes_correct:
  assumes "0 < k" "ok m" "list_at (heads m) p xs" "xs \<noteq> []" "valid_items m xs" "sorted_runs k m xs"
  shows "\<exists>p' m' ys. sort_passes cmp k p m = Some (Done (p', m')) \<and> grows m m' \<and>
    list_at (heads m') p' ys \<and> mset ys = mset xs \<and> sorted_run m' ys"
  using assms
proof (induction "length xs - k" arbitrary: k p xs m rule: less_induct)
  case less
  have "merging m None [] p xs None None []"
    using less.prems list_at_distinct [OF less.prems(3)] by (simp add: merging_def)
  moreover have "sorted_runs (2 * k) m []" by (simp add: sorted_runs_def sorted_run_def)
  ultimately obtain p1 tail n m1 zs where
    pass: "merge_pass cmp k p None None 0 m = Some (Done (p1, tail, n, m1))" "grows m m1"
    "merging m1 None [] None [] p1 tail zs" "mset zs = mset [] + mset xs" "sorted_runs (2 * k) m1 zs"
    "n \<le> 1 \<longleftrightarrow> 0 + (length xs + 2 * k - 1) div (2 * k) \<le> 1"
    using merge_pass_correct [OF less.prems(1) _ less.prems(6), of p None None "[]" 0 0] by auto
  have perm: "mset zs = mset xs" using pass(4) by simp
  then have ne: "zs \<noteq> []" using less.prems(4) by auto
  let ?t = "last zs"
  have out: "out_list (heads m1) p1 tail zs" "distinct zs"
    using pass(3) by (auto simp: merging_def)
  then have t: "tail = Some ?t" "?t < length (heads m1)" "links (heads m1) p1 (butlast zs) (Some ?t)"
    using ne by (auto simp: out_list_def)
  let ?hs = "(heads m1)[?t := (heads m1 ! ?t)\<lparr>lh_next := None\<rparr>]"
  let ?m = "m1\<lparr>heads := ?hs\<rparr>"
  have cut: "set_next m1 tail None = Done ?m" using t by (simp add: head_access)
  have "distinct (butlast zs @ [?t])" using out(2) ne by simp
  then have "?t \<notin> set (butlast zs)" by simp
  then have "links ?hs p1 (butlast zs @ [?t]) None"
    using t by (simp add: links_snoc links_update)
  then have lst: "list_at (heads ?m) p1 zs"
    using ne by (simp add: list_at_def)
  have g: "grows m ?m"
    using grows_trans [OF pass(2) grows_heads [OF grows_ok [OF pass(2)]]] by simp
  have gm: "grows m1 ?m" by (rule grows_heads [OF grows_ok [OF pass(2)]]) simp
  note runs = sorted_runs_grow [OF gm pass(5)]
  show ?case
  proof (cases "n \<le> 1")
    case True
    then have "(length xs + 2 * k - 1) div (2 * k) < 2" using pass(6) by simp
    then have "length xs + 2 * k - 1 < 2 * (2 * k)"
      using less.prems(1) by (simp add: div_less_iff_less_mult)
    then have "length zs \<le> 2 * k" using mset_eq_length [OF perm] less.prems(1) by simp
    then have "take (2 * k) zs = zs" by simp
    then have "sorted_run ?m zs" using sorted_runs_first [OF runs] by (simp only:)
    moreover have "sort_passes cmp k p m = Some (Done (p1, ?m))"
      unfolding sort_passes.simps [of cmp k p m] pass(1) using cut True by simp
    ultimately show ?thesis using g lst perm by blast
  next
    case False
    then have "2 \<le> (length xs + 2 * k - 1) div (2 * k)" using pass(6) by simp
    then have "2 * (2 * k) \<le> length xs + 2 * k - 1"
      using less.prems(1) by (simp add: less_eq_div_iff_mult_less_eq)
    then have long: "2 * k < length xs" using less.prems(1) by linarith
    have "sort_passes cmp k p m = sort_passes cmp (k * 2) p1 ?m"
      unfolding sort_passes.simps [of cmp k p m] pass(1) using cut False by simp
    moreover have "valid_items ?m zs"
    proof -
      have "valid_items m zs"
        using less.prems(5) mset_eq_setD [OF perm] by (simp add: valid_items_def)
      then show ?thesis using grows_valid [OF g] by blast
    qed
    moreover have "length zs = length xs" using perm by (rule mset_eq_length)
    moreover have "sorted_runs (k * 2) ?m zs" using runs by (simp add: mult.commute)
    moreover have "length xs - k * 2 < length xs - k" using long less.prems(1) by linarith
    ultimately obtain p' m' ys where
      "sort_passes cmp k p m = Some (Done (p', m'))" "grows ?m m'" "list_at (heads m') p' ys"
      "mset ys = mset zs" "sorted_run m' ys"
      using less.hyps [OF _ _ grows_ok [OF g] lst ne, of "k * 2"] less.prems(1) long by auto
    then show ?thesis
      using grows_trans [OF g] perm by (metis (no_types))
  qed
qed

lemma ordered_wrt:
  "ordered m xs \<Longrightarrow> (\<And>a k. a \<in> set xs \<Longrightarrow> item_key m a = Some k \<Longrightarrow> f a = k) \<Longrightarrow>
   sorted_wrt (\<lambda>a b. f a \<le> f b) xs"
proof (induction xs)
  case (Cons a xs)
  obtain k where k: "item_key m a = Some k" "\<forall>b \<in> set xs. \<exists>l. item_key m b = Some l \<and> k \<le> l"
    using Cons.prems(1) by auto
  have "f a \<le> f b" if b: "b \<in> set xs" for b
  proof -
    obtain l where "item_key m b = Some l" "k \<le> l" using k(2) b by blast
    then show ?thesis using Cons.prems(2) [of a k] Cons.prems(2) [of b l] k(1) b by simp
  qed
  then show ?case using Cons by simp
qed simp

lemma sorted_run_wrt:
  assumes "sorted_run m xs" "\<And>a k. a \<in> set xs \<Longrightarrow> item_key m a = Some k \<Longrightarrow> f a = k"
  shows "sorted_wrt (\<lambda>a b. f a \<le> f b) xs"
proof (cases "ordered m xs")
  case False
  then have "length xs \<le> 1" using assms(1) by (simp add: sorted_run_def)
  then show ?thesis by (cases xs) auto
qed (use ordered_wrt assms(2) in blast)

lemma mergesort_correct:
  assumes "ok m" "list_at (heads m) p xs" "xs \<noteq> []" "valid_items m xs"
  shows "\<exists>p' m' ys. core_list_mergesort m p cmp = Some (Done (p', m')) \<and> grows m m' \<and>
    list_at (heads m') p' ys \<and> mset ys = mset xs \<and> sorted_run m' ys"
  using sort_passes_correct [OF _ assms sorted_runs_one] by (simp add: core_list_mergesort_def)

end

subsection \<open>Sorting by position\<close>

text \<open>The difference of two sign-extended 16-bit numbers does not overflow.\<close>

lemma scast_diff_le: "scast (a :: u16) - scast (b :: u16) \<le>s (0 :: i32) \<longleftrightarrow> sint a \<le> sint b"
proof -
  have w: "scast (x :: u16) = (word_of_int (sint x) :: i32)" for x
    by (rule bit_word_eqI) (simp add: bit_simps)
  have "- 32768 \<le> sint x" "sint x < 32768" for x :: u16
    using sint_ge [of x] sint_lt [of x] by simp_all
  from this [of a] this [of b] have "signed_take_bit 31 (sint a - sint b) = sint a - sint b"
    by (intro signed_take_bit_int_eq_self) simp_all
  then show ?thesis
    unfolding w word_sle_eq wi_hom_sub sint_sbintrunc' by simp
qed

text \<open>The key of data: its \<open>idx\<close>.\<close>

definition idx_key :: "core_results \<Rightarrow> nat \<Rightarrow> int option" where
  "idx_key m c = (if c < length (datas m) then Some (sint (idx (datas m ! c))) else None)"

lemma idx_key_heads: "idx_key (m\<lparr>heads := hs\<rparr>) = idx_key m"
  by (simp add: idx_key_def fun_eq_iff)

lemma put_data_eq:
  "d < length (datas m) \<Longrightarrow> put_data m d f = Done (m\<lparr>datas := (datas m)[d := f (datas m ! d)]\<rparr>)"
  by (simp add: put_data_def get_data_def get_at_def)

lemma get_data_eq: "d < length (datas m) \<Longrightarrow> get_data m d = Done (datas m ! d)"
  by (simp add: get_data_def get_at_def)

text \<open>Everything but the list.\<close>

definition off_list :: "core_results \<Rightarrow> core_results" where
  "off_list m = m\<lparr>heads := [], datas := []\<rparr>"

lemma off_list_simps [simp]:
  "off_list (m\<lparr>heads := hs\<rparr>) = off_list m" "off_list (m\<lparr>datas := ds\<rparr>) = off_list m"
  by (simp_all add: off_list_def)

lemma cmp_idx_law:
  assumes "a < length (datas m)" "b < length (datas m)"
  shows "\<exists>r m' ka kb. cmp_idx res_null a b m = Some (Done (r, m')) \<and> off_list m' = off_list m \<and>
    heads m' = heads m \<and>
    length (datas m') = length (datas m) \<and> idx_key m' a = Some ka \<and> idx_key m' b = Some kb \<and>
    (r \<le>s 0 \<longleftrightarrow> ka \<le> kb) \<and> (\<forall>c k. idx_key m c = Some k \<longrightarrow> idx_key m' c = Some k)"
  using assms
  by (auto simp: cmp_idx_def put_data_eq get_data_eq idx_key_def scast_diff_le nth_list_update)

interpretation by_idx: list_comparator "cmp_idx res_null" "\<lambda>m. off_list m = base" idx_key
  for res_null and base
  using cmp_idx_law by unfold_locales (auto simp: idx_key_heads)

end
