(* ===== verification/Corevalue.thy ===== *)
theory Corevalue
  imports Coremerge
begin

text \<open>
  The comparison of list items by value, which computes a value when it is first needed and
  caches it in the item: it follows the laws of \<open>list_comparator\<close> as long as the input of the
  state machine survives the corruption that the computation does and undoes.
\<close>

subsection \<open>The input survives\<close>

definition survives :: "u16 \<Rightarrow> u8 list \<Rightarrow> bool" where
  "survives seed blk \<longleftrightarrow> (\<forall>b \<in> set blk. b = COMMA \<or> b XOR ucast seed \<noteq> COMMA)"

lemma survives_corrupted: "survives seed blk \<Longrightarrow> corrupted 0 k seed (corrupted 0 k seed blk) = blk"
  by (simp add: corrupted_twice survives_def)

lemma corrupted_low_byte:
  "ucast seed1 = (ucast seed2 :: u8) \<Longrightarrow> corrupted p k seed1 = corrupted p k seed2"
  by (simp add: corrupted_def corrupt_byte_def fun_eq_iff)

text \<open>The memory of the benchmark is as its initialisation left it.\<close>

definition mat_ok :: "mat_params \<Rightarrow> bool" where
  "mat_ok p \<longleftrightarrow> (let n = unat (mat_N p) in square (mat_N p) n \<and>
     n * n \<le> length (mat_A p) \<and> n * n \<le> length (mat_B p) \<and> n * n \<le> length (mat_C p))"

definition bench_ready :: "core_results \<Rightarrow> bool" where
  "bench_ready m \<longleftrightarrow> ends_in_zeros (res_state m) \<and> length (res_state m) = unat (res_size m) \<and>
     (ucast (res_seed1 m) :: u8) = ucast (res_seed2 m) \<and> survives (res_seed1 m) (res_state m) \<and>
     mat_ok (res_mat m)"

lemma bench_matrix_returns:
  assumes "mat_ok p"
  shows "\<exists>v C. core_bench_matrix p seed crc = Done (v, p\<lparr>mat_C := C\<rparr>) \<and> length C = length (mat_C p)"
proof -
  obtain n where n: "square (mat_N p) n" "n * n \<le> length (mat_C p)" "n * n \<le> length (mat_A p)"
    "n * n \<le> length (mat_B p)" "n = unat (mat_N p)"
    using assms by (simp add: mat_ok_def Let_def)
  obtain crc' C where "matrix_test (mat_N p) (mat_C p) (mat_A p) (mat_B p) seed = Done (crc', mat_A p, C)"
    "length C = length (mat_C p)"
    using matrix_test_restores [OF n(1-4)] by blast
  then show ?thesis
    using n by (auto simp: core_bench_matrix_def)
qed

subsection \<open>The value of an item\<close>

definition same_list :: "core_results \<Rightarrow> core_results \<Rightarrow> bool" where
  "same_list m m' \<longleftrightarrow> heads m' = heads m \<and> datas m' = datas m"

text \<open>What the benchmark does not change.\<close>

type_synonym bench_inputs =
  "u16 \<times> u16 \<times> u16 \<times> i32 \<times> i32 \<times> item \<times> u16 list \<times> u8 list \<times> i32 \<times> u16 list \<times> u16 list"

definition inputs :: "core_results \<Rightarrow> bench_inputs" where
  "inputs m = (res_seed1 m, res_seed2 m, res_seed3 m, res_size m, res_execs m,
     res_list m, map idx (datas m), res_state m, mat_N (res_mat m), mat_A (res_mat m), mat_B (res_mat m))"

lemma dtype_step:
  "2 \<le> sint (if calc_dtype data <s 0x22 then 0x22 else calc_dtype data)"
proof (cases "calc_dtype data <s 0x22")
  case False
  then have "sint (0x22 :: u16) \<le> sint (calc_dtype data)"
    by (simp add: word_sless_alt not_less del: sint_numeral)
  then show ?thesis using False by simp
qed simp

lemma calc_value_returns:
  assumes "bench_ready m"
  shows "\<exists>v m'. calc_value data m = Some (Done (v, m')) \<and> bench_ready m' \<and> inputs m' = inputs m \<and>
    same_list m m'"
proof -
  let ?step = "if calc_dtype data <s 0x22 then 0x22 else calc_dtype data"
  have ends: "ends_in_zeros (res_state m)" "length (res_state m) = unat (res_size m)"
    using assms by (simp_all add: bench_ready_def)
  have "corrupted 0 (nat (sint ?step)) (res_seed2 m)
      (corrupted 0 (nat (sint ?step)) (res_seed1 m) (res_state m)) = res_state m"
    using survives_corrupted [of "res_seed1 m" "res_state m"]
      corrupted_low_byte [of "res_seed1 m" "res_seed2 m"] assms
    by (simp add: bench_ready_def)
  then obtain c where c: "core_bench_state (res_size m) (res_state m) (res_seed1 m) (res_seed2 m)
      ?step (res_crc m) = Some (Done (c, res_state m))"
    using bench_state_returns [OF ends dtype_step] by metis
  obtain v C where "core_bench_matrix (res_mat m) (calc_dtype data) (res_crc m) =
      Done (v, (res_mat m)\<lparr>mat_C := C\<rparr>)" "length C = length (mat_C (res_mat m))"
    using bench_matrix_returns [of "res_mat m" "calc_dtype data" "res_crc m"] assms
    by (auto simp: bench_ready_def)
  then show ?thesis
    using assms c by (simp add: calc_value_def Let_def bench_ready_def same_list_def inputs_def mat_ok_def)
qed

text \<open>The key of data: the cached value, once there is one.\<close>

definition value_key :: "core_results \<Rightarrow> nat \<Rightarrow> int option" where
  "value_key m c =
     (if c < length (datas m) \<and> bit (data16 (datas m ! c)) 7
      then Some (sint (data16 (datas m ! c) AND 0x7f)) else None)"

lemma cached_bit: "signed_drop_bit 7 data AND 1 \<noteq> 0 \<longleftrightarrow> bit data 7" for data :: u16
proof -
  have "signed_drop_bit 7 data AND 1 = of_bool (bit data 7)"
    by (rule bit_word_eqI) (auto simp: bit_simps)
  then show ?thesis by simp
qed

lemma cache_word: "(data AND 0xff00 OR 0x80 OR v AND 0x7f) AND 0x7f = v AND 0x7f" for data v :: u16
  by (simp add: bit.conj_disj_distrib2 and.assoc)

lemma cache_bit: "bit (data AND 0xff00 OR 0x80 OR v AND 0x7f) 7" for data v :: u16
  by (simp add: bit_simps)

lemma calc_func_returns:
  assumes "bench_ready m" "d < length (datas m)"
  shows "\<exists>v m'. calc_func d m = Some (Done (v, m')) \<and> bench_ready m' \<and> inputs m' = inputs m \<and>
    heads m' = heads m \<and> length (datas m') = length (datas m) \<and> value_key m' d = Some (sint v) \<and>
    (\<forall>c k. value_key m c = Some k \<longrightarrow> value_key m' c = Some k)"
proof (cases "bit (data16 (datas m ! d)) 7")
  case True
  then show ?thesis
    using assms by (simp add: calc_func_def get_data_eq Let_def cached_bit value_key_def)
next
  case False
  let ?data = "data16 (datas m ! d)"
  obtain v m1 where m1: "calc_value ?data m = Some (Done (v, m1))" "bench_ready m1"
    "inputs m1 = inputs m" "same_list m m1"
    using calc_value_returns [OF assms(1)] by blast
  let ?upd = "data16_update (\<lambda>_. ?data AND 0xff00 OR 0x80 OR v AND 0x7f)"
  let ?m = "m1\<lparr>res_crc := crcu16 v (res_crc m1), datas := (datas m)[d := ?upd (datas m ! d)]\<rparr>"
  have "calc_func d m = Some (Done (v AND 0x7f, ?m))"
    using assms(2) False m1
    by (simp add: calc_func_def get_data_eq put_data_eq Let_def cached_bit same_list_def)
  moreover have "bench_ready ?m" using m1(2) by (simp add: bench_ready_def)
  moreover have "inputs ?m = inputs m"
    using m1(3,4) assms(2) by (simp add: inputs_def same_list_def map_update list_update_same_conv)
  moreover have "value_key ?m d = Some (sint (v AND 0x7f))"
    using assms(2) by (simp add: value_key_def cache_word cache_bit)
  moreover have "value_key ?m c = Some k" if "value_key m c = Some k" for c k
    using that False by (cases "c = d") (auto simp: value_key_def split: if_splits)
  ultimately show ?thesis using m1(4) by (simp add: same_list_def)
qed

lemma cmp_complex_law:
  assumes "bench_ready m" "a < length (datas m)" "b < length (datas m)"
  shows "\<exists>r m' ka kb. cmp_complex a b m = Some (Done (r, m')) \<and> bench_ready m' \<and> inputs m' = inputs m \<and>
    heads m' = heads m \<and> length (datas m') = length (datas m) \<and> value_key m' a = Some ka \<and> value_key m' b = Some kb \<and>
    (r \<le>s 0 \<longleftrightarrow> ka \<le> kb) \<and> (\<forall>c k. value_key m c = Some k \<longrightarrow> value_key m' c = Some k)"
proof -
  obtain v1 m1 where m1: "calc_func a m = Some (Done (v1, m1))" "bench_ready m1" "inputs m1 = inputs m" "heads m1 = heads m"
    "length (datas m1) = length (datas m)" "value_key m1 a = Some (sint v1)"
    "\<forall>c k. value_key m c = Some k \<longrightarrow> value_key m1 c = Some k"
    using calc_func_returns [OF assms(1,2)] by blast
  obtain v2 m2 where "calc_func b m1 = Some (Done (v2, m2))" "bench_ready m2" "inputs m2 = inputs m1" "heads m2 = heads m1"
    "length (datas m2) = length (datas m1)" "value_key m2 b = Some (sint v2)"
    "\<forall>c k. value_key m1 c = Some k \<longrightarrow> value_key m2 c = Some k"
    using calc_func_returns [OF m1(2), of b] assms(3) m1(5) by auto
  then show ?thesis
    using m1 by (simp add: cmp_complex_def scast_diff_le)
qed

lemma bench_ready_heads [simp]: "bench_ready (m\<lparr>heads := hs\<rparr>) = bench_ready m"
  by (simp add: bench_ready_def)

lemma inputs_heads [simp]: "inputs (m\<lparr>heads := hs\<rparr>) = inputs m"
  by (simp add: inputs_def)

lemma value_key_heads: "value_key (m\<lparr>heads := hs\<rparr>) = value_key m"
  by (simp add: value_key_def fun_eq_iff)

interpretation by_value: list_comparator cmp_complex "\<lambda>m. bench_ready m \<and> inputs m = base" value_key
  for base
  using cmp_complex_law by unfold_locales (auto simp: value_key_heads)

subsection \<open>Both orders\<close>

definition item_value :: "core_results \<Rightarrow> nat \<Rightarrow> int" where
  "item_value m a = sint (data16 (datas m ! lh_info (heads m ! a)) AND 0x7f)"

definition item_idx :: "core_results \<Rightarrow> nat \<Rightarrow> int" where
  "item_idx m a = sint (idx (datas m ! lh_info (heads m ! a)))"

text \<open>A list whose items have data.\<close>

definition item_list :: "core_results \<Rightarrow> item \<Rightarrow> nat list \<Rightarrow> bool" where
  "item_list m p xs \<longleftrightarrow>
     list_at (heads m) p xs \<and> list_all (\<lambda>a. lh_info (heads m ! a) < length (datas m)) xs"

lemma item_list_valid: "item_list m p xs \<Longrightarrow> by_value.valid_items m xs"
  by (auto simp: item_list_def by_value.valid_items_def list_all_iff dest: list_at_range)

lemma item_list_valid_idx: "item_list m p xs \<Longrightarrow> by_idx.valid_items m xs"
  by (auto simp: item_list_def by_idx.valid_items_def list_all_iff dest: list_at_range)

lemma item_key_value:
  "by_value.item_key m a = Some k \<Longrightarrow> a < length (heads m) \<Longrightarrow> item_value m a = k"
  by (auto simp: by_value.item_key_def value_key_def item_value_def split: if_splits)

lemma item_key_idx:
  "by_idx.item_key m a = Some k \<Longrightarrow> a < length (heads m) \<Longrightarrow> item_idx m a = k"
  by (auto simp: by_idx.item_key_def idx_key_def item_idx_def split: if_splits)

lemma item_list_key: "item_list m p xs \<Longrightarrow> a \<in> set xs \<Longrightarrow> a < length (heads m)"
  by (auto simp: item_list_def dest: list_at_range)

lemma item_list_sorted:
  assumes "map lh_info (heads m') = map lh_info (heads m)" "length (datas m') = length (datas m)"
    and "item_list m p xs" "list_at (heads m') p' ys" "mset ys = mset xs"
  shows "item_list m' p' ys"
proof -
  have "lh_info (heads m' ! a) = lh_info (heads m ! a)" if "a \<in> set xs" for a
  proof -
    have "a < length (heads m)" "length (heads m') = length (heads m)"
      using that assms(1,3) by (auto dest: item_list_key map_eq_imp_length_eq)
    then show ?thesis using assms(1) by (metis nth_map)
  qed
  then show ?thesis
    using assms mset_eq_setD [OF assms(5)] by (simp add: item_list_def list_all_iff)
qed

lemma mergesort_by_value:
  assumes "bench_ready m" "item_list m p xs" "xs \<noteq> []"
  shows "\<exists>p' m' ys. core_list_mergesort m p cmp_complex = Some (Done (p', m')) \<and>
    bench_ready m' \<and> inputs m' = inputs m \<and> item_list m' p' ys \<and> mset ys = mset xs \<and>
    sorted_wrt (\<lambda>a b. item_value m' a \<le> item_value m' b) ys \<and>
    map lh_info (heads m') = map lh_info (heads m) \<and> length (datas m') = length (datas m)"
proof -
  have "list_at (heads m) p xs" using assms(2) by (simp add: item_list_def)
  from by_value.mergesort_correct [OF conjI [OF assms(1) refl] this assms(3) item_list_valid [OF assms(2)]]
  obtain p' m' ys where r: "core_list_mergesort m p cmp_complex = Some (Done (p', m'))"
    "by_value.grows (inputs m) m m'" "list_at (heads m') p' ys" "mset ys = mset xs" "by_value.sorted_run m' ys"
    by blast
  then have l: "item_list m' p' ys"
    using item_list_sorted [OF _ _ assms(2)] by (simp add: by_value.grows_def)
  have "sorted_wrt (\<lambda>a b. item_value m' a \<le> item_value m' b) ys"
    using by_value.sorted_run_wrt [OF r(5)] item_key_value item_list_key [OF l] by blast
  then show ?thesis using r l by (auto simp: by_value.grows_def)
qed

lemma mergesort_by_idx:
  assumes "item_list m p xs" "xs \<noteq> []"
  shows "\<exists>p' m' ys. core_list_mergesort m p (cmp_idx res_null) = Some (Done (p', m')) \<and>
    off_list m' = off_list m \<and> item_list m' p' ys \<and> mset ys = mset xs \<and>
    sorted_wrt (\<lambda>a b. item_idx m' a \<le> item_idx m' b) ys \<and>
    map lh_info (heads m') = map lh_info (heads m) \<and> map idx (datas m') = map idx (datas m)"
proof -
  have "list_at (heads m) p xs" using assms(1) by (simp add: item_list_def)
  from by_idx.mergesort_correct [OF refl this assms(2) item_list_valid_idx [OF assms(1)]]
  obtain p' m' ys where r: "core_list_mergesort m p (cmp_idx res_null) = Some (Done (p', m'))"
    "by_idx.grows (off_list m) m m'" "list_at (heads m') p' ys" "mset ys = mset xs" "by_idx.sorted_run m' ys"
    by blast
  then have l: "item_list m' p' ys"
    using item_list_sorted [OF _ _ assms(1)] by (simp add: by_idx.grows_def)
  have "sorted_wrt (\<lambda>a b. item_idx m' a \<le> item_idx m' b) ys"
    using by_idx.sorted_run_wrt [OF r(5)] item_key_idx item_list_key [OF l] by blast
  moreover have "map idx (datas m') = map idx (datas m)"
  proof (rule nth_equalityI)
    show "length (map idx (datas m')) = length (map idx (datas m))"
      using r(2) by (simp add: by_idx.grows_def)
  next
    fix c assume "c < length (map idx (datas m'))"
    then have "idx_key m c = Some (sint (idx (datas m ! c)))" "c < length (datas m')" "c < length (datas m)"
      using r(2) by (simp_all add: by_idx.grows_def idx_key_def)
    moreover from this have "idx_key m' c = Some (sint (idx (datas m ! c)))"
      using r(2) by (simp add: by_idx.grows_def)
    ultimately show "map idx (datas m') ! c = map idx (datas m) ! c"
      by (auto simp: idx_key_def intro: signed_word_eqI)
  qed
  ultimately show ?thesis using r l by (auto simp: by_idx.grows_def)
qed

end
