(* ===== verification/Corebench.thy ===== *)
theory Corebench
  imports Corevalue
begin

text \<open>
  The list benchmark as a whole: it returns, it leaves the list sorted by index with the items
  it had, and everything the next call relies on.
\<close>

subsection \<open>The finding loop\<close>

definition same_infos :: "core_results \<Rightarrow> core_results \<Rightarrow> bool" where
  "same_infos m m' \<longleftrightarrow> (\<exists>hs. m' = m\<lparr>heads := hs\<rparr> \<and> map lh_info hs = map lh_info (heads m))"

lemma same_infosI: "map lh_info hs = map lh_info (heads m) \<Longrightarrow> same_infos m (m\<lparr>heads := hs\<rparr>)"
  by (auto simp: same_infos_def)

lemma same_infos_refl: "same_infos m m"
  by (auto simp: same_infos_def intro: exI [of _ "heads m"])

lemma same_infos_trans: "same_infos m m1 \<Longrightarrow> same_infos m1 m2 \<Longrightarrow> same_infos m m2"
  by (auto simp: same_infos_def)

lemma same_infosD:
  assumes "same_infos m m'"
  shows "map lh_info (heads m') = map lh_info (heads m)" "datas m' = datas m"
    "off_list m' = off_list m" "inputs m' = inputs m" "bench_ready m' = bench_ready m"
  using assms by (auto simp: same_infos_def)

lemma same_infos_list:
  "same_infos m m' \<Longrightarrow> item_list m p xs \<Longrightarrow> list_at (heads m') p' ys \<Longrightarrow> mset ys = mset xs \<Longrightarrow>
   item_list m' p' ys"
  by (rule item_list_sorted) (simp_all add: same_infosD)

text \<open>The item behind the found one becomes the second of the list.\<close>

lemma move_to_front_list:
  assumes "list_at (heads m) (Some h) (h # zs)" "a \<in> set (h # zs)"
  shows "\<exists>m' ys. move_to_front m (Some a) (Some h) = Done m' \<and> same_infos m m' \<and>
    list_at (heads m') (Some h) ys \<and> mset ys = mset (h # zs)"
proof -
  have dist: "distinct (h # zs)" by (rule list_at_distinct [OF assms(1)])
  obtain pre post where split: "h # zs = pre @ a # post"
    using assms(2) by (meson split_list)
  then have post: "a < length (heads m)" "list_at (heads m) (lh_next (heads m ! a)) post"
    and pre: "links (heads m) (Some h) pre (Some a)"
    using assms(1) by (auto simp: list_at_def links_append)
  show ?thesis
  proof (cases post)
    case Nil
    then show ?thesis
      using post assms(1) same_infos_refl [of m]
      by (auto simp: move_to_front_def head_access intro!: exI [of _ "h # zs"])
  next
    case (Cons b rest)
    have b: "lh_next (heads m ! a) = Some b" "b < length (heads m)"
      "list_at (heads m) (lh_next (heads m ! b)) rest"
      using post Cons by auto
    let ?hs1 = "(heads m)[a := (heads m ! a)\<lparr>lh_next := lh_next (heads m ! b)\<rparr>]"
    let ?hs2 = "?hs1[b := (?hs1 ! b)\<lparr>lh_next := lh_next (?hs1 ! h)\<rparr>]"
    let ?hs = "?hs2[h := (?hs2 ! h)\<lparr>lh_next := Some b\<rparr>]"
    have h: "h < length (heads m)" using assms(1) by simp
    have "move_to_front m (Some a) (Some h) = Done (m\<lparr>heads := ?hs\<rparr>)"
      using post(1) b h by (simp add: move_to_front_def head_access)
    moreover have "same_infos m (m\<lparr>heads := ?hs\<rparr>)"
      by (rule same_infosI) simp
    moreover have "\<exists>ys. list_at ?hs (Some h) ys \<and> mset ys = mset (h # zs)"
    proof (cases pre)
      case Nil
      then have eq: "a = h" "zs = b # rest" using split Cons by auto
      have l: "list_at ?hs (Some h) (h # b # rest)"
        using eq b h dist by (auto simp: list_at_update)
      show ?thesis unfolding eq(2) by (intro exI conjI, rule l) simp
    next
      case pre': (Cons c pre1)
      then have c: "c = h" "zs = pre1 @ a # b # rest" using split Cons by auto
      have "links (heads m) (lh_next (heads m ! h)) pre1 (Some a)"
        using pre pre' c by simp
      then have "links ?hs (lh_next (heads m ! h)) pre1 (Some a)"
        using dist c by (simp add: links_update)
      moreover have "list_at ?hs (lh_next (heads m ! b)) rest"
        using dist c b(3) by (simp add: list_at_update)
      ultimately have "list_at ?hs (Some h) (h # b # pre1 @ a # rest)"
        using dist c h b post(1) by (auto simp: list_at_def links_append)
      then show ?thesis using c by (intro exI [of _ "h # b # pre1 @ a # rest"]) simp
    qed
    ultimately show ?thesis by auto
  qed
qed

lemma get_info_item:
  "item_list m p xs \<Longrightarrow> a \<in> set xs \<Longrightarrow> get_info m (Some a) = Done (datas m ! lh_info (heads m ! a))"
  using item_list_key [of m p xs a]
  by (auto simp: get_info_def head_access get_data_eq item_list_def list_all_iff)

lemma find_item:
  assumes "item_list m p xs"
  obtains r where "core_list_find m p info = Some (Done r)" "r = None \<or> (\<exists>a \<in> set xs. r = Some a)"
proof -
  let ?r = "List.find (\<lambda>a. find_matches info (datas m ! lh_info (heads m ! a))) xs"
  have "core_list_find m p info = Some (Done ?r)"
    using assms core_list_find_list by (simp add: item_list_def list_all_iff)
  moreover have "?r = None \<or> (\<exists>a \<in> set xs. ?r = Some a)"
    by (metis find_Some_iff nth_mem option.exhaust)
  ultimately show ?thesis using that by blast
qed

lemma find_turn_list:
  assumes "item_list m (fl_list f) xs" "2 \<le> length xs"
  shows "\<exists>f' m' ys. find_turn i f m = Some (Done (f', m')) \<and> same_infos m m' \<and>
    item_list m' (fl_list f') ys \<and> mset ys = mset xs"
proof -
  let ?info = "(fl_info f)\<lparr>data16 := ucast (i AND 0xff)\<rparr>"
  obtain r where find: "core_list_find m (fl_list f) ?info = Some (Done r)"
    and r: "r = None \<or> (\<exists>a \<in> set xs. r = Some a)"
    using find_item [OF assms(1)] by blast
  obtain hs q where rev: "core_list_reverse m (fl_list f) = Some (Done (m\<lparr>heads := hs\<rparr>, q))"
    and hs: "list_at hs q (rev xs)" "map lh_info hs = map lh_info (heads m)"
    using reverse_loop_list [of m "fl_list f" xs None "[]"] assms(1)
    by (auto simp: core_list_reverse_def item_list_def)
  let ?m = "m\<lparr>heads := hs\<rparr>"
  have same: "same_infos m ?m" using hs(2) by (rule same_infosI)
  have l: "item_list ?m q (rev xs)"
    using same_infos_list [OF same assms(1), of q "rev xs"] hs(1) by simp
  obtain h b zs where ys: "rev xs = h # b # zs"
    using assms(2) by (cases "rev xs" rule: remdups_adj.cases) auto
  have q: "q = Some h" "get_next ?m q = Done (Some b)"
    using hs(1) ys by (auto simp: head_access)
  show ?thesis
  proof (cases r)
    case None
    have "get_info ?m (Some b) = Done (datas ?m ! lh_info (hs ! b))"
      using get_info_item [OF l, of b] ys by simp
    then show ?thesis
      using find rev None q same l
      by (auto simp: find_turn_def Let_def intro!: exI [of _ ?m] exI [of _ "rev xs"])
  next
    case (Some a)
    then have a: "a \<in> set (h # b # zs)" using r ys by (metis option.distinct(1) option.inject set_rev)
    obtain m' vs where mv: "move_to_front ?m (Some a) (Some h) = Done m'" "same_infos ?m m'"
      "list_at (heads m') (Some h) vs" "mset vs = mset (h # b # zs)"
      using move_to_front_list [of ?m h "b # zs" a] hs(1) ys q(1) a by auto
    have "get_info ?m (Some a) = Done (datas ?m ! lh_info (hs ! a))"
      using get_info_item [OF l, of a] ys a by simp
    moreover have "item_list m' (Some h) vs"
      using same_infos_list [OF mv(2) l mv(3)] mv(4) ys by simp
    moreover have "mset vs = mset xs" using mv(4) ys by (metis mset_rev)
    ultimately show ?thesis
      using find rev Some q mv(1) same_infos_trans [OF same mv(2)]
      by (auto simp: find_turn_def Let_def)
  qed
qed

lemma find_loop_list:
  assumes "item_list m (fl_list f) xs" "2 \<le> length xs"
  shows "\<exists>f' m' ys. find_loop k i f m = Some (Done (f', m')) \<and> same_infos m m' \<and>
    item_list m' (fl_list f') ys \<and> mset ys = mset xs"
  using assms
proof (induction k arbitrary: i f m xs)
  case 0
  then show ?case using same_infos_refl by auto
next
  case (Suc k)
  obtain f1 m1 ys where t: "find_turn i f m = Some (Done (f1, m1))" "same_infos m m1"
    "item_list m1 (fl_list f1) ys" "mset ys = mset xs"
    using find_turn_list [OF Suc.prems] by blast
  then have "2 \<le> length ys" using Suc.prems(2) mset_eq_length by metis
  then show ?case
    using Suc.IH [OF t(3), of "i + 1"] t same_infos_trans by fastforce
qed

subsection \<open>The benchmark\<close>

lemma crc_loop_returns:
  assumes "get_info m lst = Done v" "list_at (heads m) p xs"
  shows "\<exists>r. crc_loop m lst p retval = Some (Done r)"
  using assms(2)
proof (induction xs arbitrary: p retval)
  case Nil
  then show ?case by (subst crc_loop.simps) simp
next
  case (Cons a xs)
  then show ?case using assms(1) by (subst crc_loop.simps) (simp add: head_access)
qed

lemma off_listE:
  assumes "off_list m' = off_list m"
  obtains hs ds where "m' = m\<lparr>heads := hs, datas := ds\<rparr>"
proof -
  have "m' = (off_list m)\<lparr>heads := heads m', datas := datas m'\<rparr>"
    unfolding assms [symmetric] by (simp add: off_list_def)
  then show ?thesis using that by (simp add: off_list_def)
qed

lemma off_list_ready:
  assumes "off_list m' = off_list m"
  shows "bench_ready m' = bench_ready m" "map idx (datas m') = map idx (datas m) \<Longrightarrow> inputs m' = inputs m"
  using assms by (auto elim!: off_listE simp: bench_ready_def inputs_def)

text \<open>Between the sorts an item is removed and put back.\<close>

lemma removal_undone:
  assumes "item_list m p xs" "3 \<le> length xs"
  shows "\<exists>x y m1 z zs. p = Some x \<and> get_next m p = Done (Some y) \<and>
    core_list_remove m (Some y) = Done (m1, Some z) \<and> item_list m1 p (x # y # zs) \<and>
    core_list_undo_remove m1 (Some z) (Some y) = Done (m, Some z)"
proof -
  obtain x y z zs where xs: "xs = x # y # z # zs"
    using assms(2) by (cases xs rule: remdups_adj.cases; cases "drop 2 xs") auto
  have l: "list_at (heads m) p xs" and d: "\<forall>a \<in> set xs. lh_info (heads m ! a) < length (datas m)"
    using assms(1) by (simp_all add: item_list_def list_all_iff)
  have p: "p = Some x" "lh_next (heads m ! x) = Some y" "x < length (heads m)"
    and rest: "list_at (heads m) (Some y) (y # z # zs)"
    using l xs by auto
  have dist: "distinct xs" by (rule list_at_distinct [OF l])
  obtain m1 where m1: "core_list_remove m (Some y) = Done (m1, Some z)"
    "list_at (heads m1) (Some y) (y # zs)"
    "map (\<lambda>c. lh_info (heads m1 ! c)) (y # zs) = map (\<lambda>c. lh_info (heads m ! c)) (z # zs)"
    "core_list_undo_remove m1 (Some z) (Some y) = Done (m, Some z)"
    using core_list_remove_list [OF rest] by blast
  obtain hs where m1_eq: "m1 = m\<lparr>heads := hs\<rparr>" "hs ! x = heads m ! x" "length hs = length (heads m)"
    using m1(1) core_list_remove_eq [of y m z] rest dist xs by auto
  have "list_all (\<lambda>i. i < length (datas m)) (map (\<lambda>c. lh_info (heads m1 ! c)) (y # zs))"
    unfolding m1(3) using d xs by (auto simp: list_all_iff)
  then have "item_list m1 p (x # y # zs)"
    using m1(2) m1_eq p d xs by (simp add: item_list_def list_all_iff)
  then show ?thesis
    using p m1 by (auto simp: head_access)
qed

text \<open>The three parts of the benchmark after the finding loop.\<close>

lemma value_sort_part:
  assumes "bench_ready m" "item_list m p xs" "xs \<noteq> []"
  shows "\<exists>p' m' ys. (if 0 <s finder_idx then core_list_mergesort m p cmp_complex
      else Some (Done (p, m))) = Some (Done (p', m')) \<and>
    bench_ready m' \<and> inputs m' = inputs m \<and> item_list m' p' ys \<and> mset ys = mset xs \<and>
    map lh_info (heads m') = map lh_info (heads m)"
  using mergesort_by_value [OF assms] assms by (cases "0 <s finder_idx") auto

lemma removal_part:
  assumes "item_list m p xs" "3 \<le> length xs"
  shows "\<exists>y m1 z r q c. get_next m p = Done y \<and> core_list_remove m y = Done (m1, z) \<and>
    core_list_find m1 p info = Some (Done r) \<and>
    (if r = None then get_next m1 p else Done r) = Done q \<and>
    crc_loop m1 p q retval = Some (Done c) \<and> get_next m1 p = Done y \<and>
    core_list_undo_remove m1 z y = Done (m, z)"
proof -
  obtain x y m1 z zs where rem: "p = Some x" "get_next m p = Done (Some y)"
    "core_list_remove m (Some y) = Done (m1, Some z)" "item_list m1 p (x # y # zs)"
    "core_list_undo_remove m1 (Some z) (Some y) = Done (m, Some z)"
    using removal_undone [OF assms] by blast
  have l: "list_at (heads m1) (Some x) (x # y # zs)" using rem(1,4) by (simp add: item_list_def)
  then have nxt: "get_next m1 p = Done (Some y)" using rem(1) by (simp add: head_access)
  obtain v where v: "get_info m1 p = Done v"
    using get_info_item [OF rem(4), of x] rem(1) by auto
  obtain r where find: "core_list_find m1 p info = Some (Done r)"
    and r: "r = None \<or> (\<exists>a \<in> set (x # y # zs). r = Some a)"
    using find_item [OF rem(4)] by blast
  obtain q qs where finder: "(if r = None then get_next m1 p else Done r) = Done q"
    "list_at (heads m1) q qs"
  proof (cases r)
    case None
    then show ?thesis using that [of "Some y" "y # zs"] nxt l by simp
  next
    case (Some a)
    then obtain us ws where "x # y # zs = us @ a # ws"
      using r by (metis option.distinct(1) option.inject split_list)
    then have "list_at (heads m1) (Some a) (a # ws)"
      using l by (auto simp: list_at_def links_append)
    then show ?thesis using that [of "Some a" "a # ws"] Some by simp
  qed
  obtain c where "crc_loop m1 p q retval = Some (Done c)"
    using crc_loop_returns [OF v finder(2)] by blast
  then show ?thesis using rem nxt find finder(1) by blast
qed

lemma index_sort_part:
  assumes "item_list m p xs" "xs \<noteq> []"
  shows "\<exists>p' m' ys q c. core_list_mergesort m p (cmp_idx True) = Some (Done (p', m')) \<and>
    get_next m' p' = Done q \<and> crc_loop m' p' q retval = Some (Done c) \<and>
    off_list m' = off_list m \<and> map idx (datas m') = map idx (datas m) \<and>
    map lh_info (heads m') = map lh_info (heads m) \<and> item_list m' p' ys \<and> mset ys = mset xs \<and>
    sorted_wrt (\<lambda>a b. item_idx m' a \<le> item_idx m' b) ys"
proof -
  obtain p' m' ys where sort: "core_list_mergesort m p (cmp_idx True) = Some (Done (p', m'))"
    "off_list m' = off_list m" "item_list m' p' ys" "mset ys = mset xs"
    "sorted_wrt (\<lambda>a b. item_idx m' a \<le> item_idx m' b) ys"
    "map lh_info (heads m') = map lh_info (heads m)" "map idx (datas m') = map idx (datas m)"
    using mergesort_by_idx [OF assms] by blast
  obtain a as where ys: "ys = a # as"
    using mset_eq_length [OF sort(4)] assms(2) by (cases ys) auto
  have l: "list_at (heads m') p' (a # as)" using sort(3) ys by (simp add: item_list_def)
  then have nxt: "get_next m' p' = Done (lh_next (heads m' ! a))"
    "list_at (heads m') (lh_next (heads m' ! a)) as"
    by (auto simp: head_access)
  obtain v where "get_info m' p' = Done v"
    using get_info_item [OF sort(3), of a] ys l by auto
  then obtain c where "crc_loop m' p' (lh_next (heads m' ! a)) retval = Some (Done c)"
    using crc_loop_returns [OF _ nxt(2)] by blast
  then show ?thesis using sort nxt(1) by blast
qed

lemma bench_list_returns:
  assumes "bench_ready m" "item_list m (res_list m) xs" "3 \<le> length xs"
  shows "\<exists>crc m' p ys. core_bench_list m finder_idx = Some (Done (crc, m')) \<and> bench_ready m' \<and>
    inputs m' = inputs m \<and> item_list m' p ys \<and> mset ys = mset xs \<and>
    sorted_wrt (\<lambda>a b. item_idx m' a \<le> item_idx m' b) ys \<and>
    map lh_info (heads m') = map lh_info (heads m)"
proof -
  let ?f = "\<lparr>fl_list = res_list m, fl_retval = 0, fl_found = 0, fl_missed = 0,
             fl_info = \<lparr>data16 = 0, idx = finder_idx\<rparr>\<rparr>"
  have "item_list m (fl_list ?f) xs" "2 \<le> length xs" using assms(2,3) by simp_all
  from find_loop_list [OF this] obtain f1 m1 xs1 where
    loop: "find_loop (nat (sint (res_seed3 m))) 0 ?f m = Some (Done (f1, m1))"
    "same_infos m m1" "item_list m1 (fl_list f1) xs1" "mset xs1 = mset xs" by blast
  have len1: "length xs1 = length xs" using mset_eq_length [OF loop(4)] .
  then have "bench_ready m1" "xs1 \<noteq> []" using assms loop(2) by (auto simp: same_infosD)
  from value_sort_part [OF this(1) loop(3) this(2), of finder_idx] obtain p2 m2 xs2 where
    sort: "(if 0 <s finder_idx then core_list_mergesort m1 (fl_list f1) cmp_complex
       else Some (Done (fl_list f1, m1))) = Some (Done (p2, m2))"
    "bench_ready m2" "inputs m2 = inputs m1" "item_list m2 p2 xs2" "mset xs2 = mset xs1"
    "map lh_info (heads m2) = map lh_info (heads m1)" by blast
  have len2: "3 \<le> length xs2" "xs2 \<noteq> []"
    using mset_eq_length [OF sort(5)] len1 assms(3) by auto
  from removal_part [OF sort(4) len2(1)] obtain y m3 z r q c1 where
    rem: "get_next m2 p2 = Done y" "core_list_remove m2 y = Done (m3, z)"
    "core_list_find m3 p2 (fl_info f1) = Some (Done r)"
    "(if r = None then get_next m3 p2 else Done r) = Done q"
    "crc_loop m3 p2 q (fl_retval f1 + (fl_found f1 * 4 - fl_missed f1)) = Some (Done c1)"
    "get_next m3 p2 = Done y" "core_list_undo_remove m3 z y = Done (m2, z)" by blast
  from index_sort_part [OF sort(4) len2(2)] obtain p4 m4 ys q4 c2 where
    sort2: "core_list_mergesort m2 p2 (cmp_idx True) = Some (Done (p4, m4))"
    "get_next m4 p4 = Done q4" "crc_loop m4 p4 q4 c1 = Some (Done c2)"
    "off_list m4 = off_list m2" "map idx (datas m4) = map idx (datas m2)"
    "map lh_info (heads m4) = map lh_info (heads m2)" "item_list m4 p4 ys" "mset ys = mset xs2"
    "sorted_wrt (\<lambda>a b. item_idx m4 a \<le> item_idx m4 b) ys" by blast
  have "core_bench_list m finder_idx = Some (Done (c2, m4))"
    unfolding core_bench_list_def Let_def
    using loop(1) sort(1) rem sort2(1-3) by simp
  moreover have "bench_ready m4" "inputs m4 = inputs m2"
    using off_list_ready [OF sort2(4)] sort(2) sort2(5) by simp_all
  ultimately show ?thesis
    using sort2 sort loop by (auto simp: same_infosD)
qed

end
