(* ===== verification/Coremain.thy ===== *)
theory Coremain
  imports Corebench
begin

text \<open>
  \<open>sw/coremark/core_main.c\<close> and \<open>riscv/core_portme.c\<close>: the seeds, the division of the memory,
  the initialisation, the iterations and the check of the results, as they are built for this
  target (one context, memory on the stack, volatile seeds). What is printed is left out.
\<close>

subsection \<open>The parts of the program\<close>

text \<open>The three configurations of the port: the values of the volatile seeds.\<close>

datatype run_kind = VALIDATION_RUN | PERFORMANCE_RUN | PROFILE_RUN

definition seed_volatile :: "run_kind \<Rightarrow> i32 \<Rightarrow> nat \<Rightarrow> i32" where
  "seed_volatile k iterations i =
     (case k of
        VALIDATION_RUN \<Rightarrow> [0x3415, 0x3415, 0x66, iterations, 0]
      | PERFORMANCE_RUN \<Rightarrow> [0x0, 0x0, 0x66, iterations, 0]
      | PROFILE_RUN \<Rightarrow> [0x8, 0x8, 0x8, iterations, 0]) ! (i - 1)"

text \<open>The bits of \<open>execs\<close>.\<close>

definition runs_algorithm :: "i32 \<Rightarrow> nat \<Rightarrow> bool" where
  "runs_algorithm execs i \<longleftrightarrow> push_bit i 1 AND execs \<noteq> 0"

definition get_seeds :: "(nat \<Rightarrow> i32) \<Rightarrow> core_results \<Rightarrow> core_results" where
  "get_seeds sv m =
     (let m = m\<lparr>res_seed1 := get_seed sv 1, res_seed2 := get_seed sv 2, res_seed3 := get_seed sv 3,
                res_iterations := get_seed_32 sv 4, res_execs := get_seed_32 sv 5\<rparr>;
          m = (if res_execs m = 0 then m\<lparr>res_execs := 7\<rparr> else m);
          m = (if res_seed1 m = 0 \<and> res_seed2 m = 0 \<and> res_seed3 m = 0
               then m\<lparr>res_seed1 := 0, res_seed2 := 0, res_seed3 := 0x66\<rparr> else m)
      in if res_seed1 m = 1 \<and> res_seed2 m = 0 \<and> res_seed3 m = 0
         then m\<lparr>res_seed1 := 0x3415, res_seed2 := 0x3415, res_seed3 := 0x66\<rparr> else m)"

text \<open>The number of algorithms, and the size of the block of each: a division by 0 answers what
  the processor answers.\<close>

definition num_algorithms :: "i32 \<Rightarrow> i32" where
  "num_algorithms execs = of_nat (length (filter (runs_algorithm execs) [0, 1, 2]))"

definition block_size :: "i32 \<Rightarrow> i32 \<Rightarrow> i32" where
  "block_size size0 n = (if n = 0 then 0xffffffff else size0 div n)"

text \<open>\<open>memblock[1]\<close> to \<open>memblock[3]\<close>, as offsets from \<open>memblock[0]\<close>.\<close>

fun memblocks :: "i32 \<Rightarrow> i32 \<Rightarrow> i32 \<Rightarrow> nat list \<Rightarrow> i32 option list" where
  "memblocks execs size0 j [] = []"
| "memblocks execs size0 j (i # is) =
     (if runs_algorithm execs i
      then Some (size0 * j) # memblocks execs size0 (j + 1) is
      else None # memblocks execs size0 j is)"

text \<open>The calls of the three initialisations.\<close>

definition init_list :: "core_results \<Rightarrow> core_results comp" where
  "init_list m =
     (if runs_algorithm (res_execs m) 0
      then bind_comp (core_list_init (res_size m) m (res_seed1 m)) (\<lambda>(lst, m).
        Some (Done (m\<lparr>res_list := lst\<rparr>)))
      else Some (Done m))"

definition init_matrix :: "core_results \<Rightarrow> core_results comp" where
  "init_matrix m =
     (if runs_algorithm (res_execs m) 1
      then (case core_init_matrix (res_size m)
                   (scast (res_seed1 m) OR push_bit 16 (scast (res_seed2 m))) (mat_C (res_mat m)) of
              None \<Rightarrow> None
            | Some p \<Rightarrow> Some (Done (m\<lparr>res_mat := p\<rparr>)))
      else Some (Done m))"

definition init_state :: "core_results \<Rightarrow> core_results comp" where
  "init_state m =
     (if runs_algorithm (res_execs m) 2
      then bind_comp (core_init_state (res_size m) (res_seed1 m) (res_state m)) (\<lambda>blk.
        Some (Done (m\<lparr>res_state := blk\<rparr>)))
      else Some (Done m))"

text \<open>One turn of the loop of \<open>iterate\<close>: \<open>core_bench_list(res, 1)\<close>, \<open>core_bench_list(res, -1)\<close>.\<close>

definition bench_half :: "u16 \<Rightarrow> core_results \<Rightarrow> core_results comp" where
  "bench_half finder_idx m =
     bind_comp (core_bench_list m finder_idx) (\<lambda>(crc, m).
       Some (Done (m\<lparr>res_crc := crcu16 crc (res_crc m)\<rparr>)))"

definition iterate_turn :: "nat \<Rightarrow> core_results \<Rightarrow> core_results comp" where
  "iterate_turn i m =
     bind_comp (bench_half 1 m) (\<lambda>m. bind_comp (bench_half (- 1) m) (\<lambda>m.
       Some (Done (if i = 0 then m\<lparr>res_crclist := res_crc m\<rparr> else m))))"

fun iterate_loop :: "nat list \<Rightarrow> core_results \<Rightarrow> core_results comp" where
  "iterate_loop [] m = Some (Done m)"
| "iterate_loop (i # is) m = bind_comp (iterate_turn i m) (iterate_loop is)"

definition iterate :: "core_results \<Rightarrow> core_results comp" where
  "iterate m =
     iterate_loop [0..<unat (res_iterations m)]
       (m\<lparr>res_crc := 0, res_crclist := 0, res_crcmatrix := 0, res_crcstate := 0\<rparr>)"

text \<open>
  The number of iterations is determined by trying: \<open>ticks k\<close> is the time the run number \<open>k\<close>
  takes on the clock, which counts \<open>10^8\<close> ticks in a second.
\<close>

partial_function (option) calibrate :: "(nat \<Rightarrow> i32) \<Rightarrow> nat \<Rightarrow> core_results \<Rightarrow> core_results comp" where
  "calibrate ticks k m =
     bind_comp (iterate (m\<lparr>res_iterations := res_iterations m * 10\<rparr>)) (\<lambda>m.
       if ticks k <s 100000000 then calibrate ticks (Suc k) m
       else Some (Done (m\<lparr>res_iterations :=
              res_iterations m * (1 + 10 div (ticks k div 100000000))\<rparr>)))"

subsection \<open>The check of the results\<close>

definition list_known_crc :: "u16 list" where
  "list_known_crc = [0xd4b0, 0x3340, 0x6a79, 0xe714, 0xe3c1]"

definition matrix_known_crc :: "u16 list" where
  "matrix_known_crc = [0xbe52, 0x1199, 0x5608, 0x1fd7, 0x0747]"

definition state_known_crc :: "u16 list" where
  "state_known_crc = [0x5e47, 0x39bf, 0xe5a4, 0x8e3a, 0x8d84]"

definition seed_crc :: "core_results \<Rightarrow> u16" where
  "seed_crc m =
     (let seedcrc = 0;
          seedcrc = crc16 (res_seed1 m) seedcrc;
          seedcrc = crc16 (res_seed2 m) seedcrc;
          seedcrc = crc16 (res_seed3 m) seedcrc
      in crc16 (ucast (res_size m)) seedcrc)"

text \<open>\<open>None\<close> for parameters that are not known.\<close>

definition known_id :: "u16 \<Rightarrow> nat option" where
  "known_id seedcrc =
     (if seedcrc = 0x8a02 then Some 0
      else if seedcrc = 0x7b05 then Some 1
      else if seedcrc = 0x4eaf then Some 2
      else if seedcrc = 0xe9f5 then Some 3
      else if seedcrc = 0x18f2 then Some 4
      else None)"

definition count_errors :: "nat \<Rightarrow> core_results \<Rightarrow> u16" where
  "count_errors k m =
     (let err = 0;
          err = (if runs_algorithm (res_execs m) 0 \<and> res_crclist m \<noteq> list_known_crc ! k then err + 1 else err);
          err = (if runs_algorithm (res_execs m) 1 \<and> res_crcmatrix m \<noteq> matrix_known_crc ! k then err + 1 else err)
      in if runs_algorithm (res_execs m) 2 \<and> res_crcstate m \<noteq> state_known_crc ! k then err + 1 else err)"

text \<open>The errors of the context and the total.\<close>

definition check_results :: "sizes \<Rightarrow> core_results \<Rightarrow> core_results \<times> u16" where
  "check_results z m =
     (case known_id (seed_crc m) of
        None \<Rightarrow> (m, - 1 + ucast (check_data_types z))
      | Some k \<Rightarrow>
          (let err = count_errors k m
           in (m\<lparr>res_err := err\<rparr>, err + ucast (check_data_types z))))"

text \<open>The program: the volatile seeds, the clock and what the stack holds are parameters.\<close>

definition core_setup :: "(nat \<Rightarrow> i32) \<Rightarrow> core_results \<Rightarrow> core_results comp" where
  "core_setup sv m =
     (let m = (get_seeds sv m)\<lparr>res_size := 2 * 1000, res_err := 0\<rparr>;
          m = m\<lparr>res_size := block_size (res_size m) (num_algorithms (res_execs m))\<rparr>
      in bind_comp (init_list m) (\<lambda>m. bind_comp (init_matrix m) init_state))"

definition coremark_main ::
    "sizes \<Rightarrow> (nat \<Rightarrow> i32) \<Rightarrow> (nat \<Rightarrow> i32) \<Rightarrow> core_results \<Rightarrow> (core_results \<times> u16) comp" where
  "coremark_main z sv ticks m =
     bind_comp (core_setup sv m) (\<lambda>m.
     bind_comp
       (if res_iterations m = 0 then calibrate ticks 0 (m\<lparr>res_iterations := 1\<rparr>) else Some (Done m))
       (\<lambda>m. bind_comp (iterate m) (\<lambda>m. Some (Done (check_results z m)))))"

end
