(* ===== verification/Corerun.thy ===== *)
theory Corerun
  imports Coremain
begin

text \<open>
  The program of \<open>Coremain\<close> from start to end: what the initialisation leaves is what the
  iterations need, each iteration leaves it again, so that the program runs to its check.
\<close>

subsection \<open>The iterations\<close>

text \<open>The head of the list is the one item with the least index.\<close>

definition list_ready :: "core_results \<Rightarrow> nat list \<Rightarrow> bool" where
  "list_ready m xs \<longleftrightarrow> item_list m (res_list m) xs \<and> 3 \<le> length xs \<and>
     (\<forall>a \<in> set xs. res_list m = Some a \<or> item_idx m (hd xs) < item_idx m a)"

lemma item_idx_eq:
  assumes "map lh_info (heads m') = map lh_info (heads m)" "map idx (datas m') = map idx (datas m)"
    and "a < length (heads m)" "lh_info (heads m ! a) < length (datas m)"
  shows "item_idx m' a = item_idx m a"
proof -
  have "lh_info (heads m' ! a) = lh_info (heads m ! a)"
    using assms(1,3) by (metis length_map nth_map)
  moreover have "idx (datas m' ! c) = idx (datas m ! c)" if "c < length (datas m)" for c
    using assms(2) that by (metis length_map nth_map)
  ultimately show ?thesis using assms(4) by (simp add: item_idx_def)
qed

lemma least_first:
  fixes f :: "nat \<Rightarrow> int"
  assumes "sorted_wrt (\<lambda>a b. f a \<le> f b) ys" "h \<in> set ys" "\<And>a. a \<in> set ys \<Longrightarrow> a = h \<or> f h < f a"
  shows "hd ys = h"
  using assms by (cases ys) fastforce+

lemma list_ready_sorted:
  assumes "list_ready m xs" "item_list m' p ys" "mset ys = mset xs" "inputs m' = inputs m"
    and "sorted_wrt (\<lambda>a b. item_idx m' a \<le> item_idx m' b) ys"
    and "map lh_info (heads m') = map lh_info (heads m)"
  shows "list_ready m' ys"
proof -
  have same: "set ys = set xs" "length ys = length xs" "res_list m' = res_list m"
    "map idx (datas m') = map idx (datas m)"
    using mset_eq_setD [OF assms(3)] mset_eq_length [OF assms(3)] assms(4)
    by (simp_all add: inputs_def)
  have l: "item_list m (res_list m) xs" using assms(1) by (simp add: list_ready_def)
  have eq: "item_idx m' a = item_idx m a" if "a \<in> set xs" for a
    using item_idx_eq [OF assms(6) same(4) item_list_key [OF l that]] l that
    by (simp add: item_list_def list_all_iff)
  obtain h t where xs: "xs = h # t" using assms(1) by (cases xs) (auto simp: list_ready_def)
  then have h: "res_list m = Some h" using l by (simp add: item_list_def)
  have "hd ys = h"
  proof (rule least_first [OF assms(5)])
    show "h \<in> set ys" using same(1) xs by simp
    fix a assume "a \<in> set ys"
    then show "a = h \<or> item_idx m' h < item_idx m' a"
      using assms(1) h xs same(1) eq by (auto simp: list_ready_def)
  qed
  moreover have "p = Some (hd ys)"
    using assms(2) same(2) xs by (cases ys) (auto simp: item_list_def)
  ultimately show ?thesis
    using assms(1,2) same h xs eq by (auto simp: list_ready_def)
qed

definition iterable :: "core_results \<Rightarrow> bool" where
  "iterable m \<longleftrightarrow> bench_ready m \<and> (\<exists>xs. list_ready m xs)"

lemma iterable_crc [simp]:
  "iterable (m\<lparr>res_crc := c\<rparr>) = iterable m" "iterable (m\<lparr>res_crclist := c\<rparr>) = iterable m"
  "iterable (m\<lparr>res_crcmatrix := c\<rparr>) = iterable m" "iterable (m\<lparr>res_crcstate := c\<rparr>) = iterable m"
  "iterable (m\<lparr>res_iterations := n\<rparr>) = iterable m"
  by (simp_all add: iterable_def bench_ready_def list_ready_def item_list_def item_idx_def)

lemma inputs_crc [simp]:
  "inputs (m\<lparr>res_crc := c\<rparr>) = inputs m" "inputs (m\<lparr>res_crclist := c\<rparr>) = inputs m"
  "inputs (m\<lparr>res_crcmatrix := c\<rparr>) = inputs m" "inputs (m\<lparr>res_crcstate := c\<rparr>) = inputs m"
  "inputs (m\<lparr>res_iterations := n\<rparr>) = inputs m" "inputs (m\<lparr>res_err := c\<rparr>) = inputs m"
  by (simp_all add: inputs_def)

lemma bench_half_returns:
  assumes "iterable m"
  shows "\<exists>m'. bench_half k m = Some (Done m') \<and> iterable m' \<and> inputs m' = inputs m"
proof -
  obtain xs where xs: "bench_ready m" "list_ready m xs" using assms by (auto simp: iterable_def)
  then obtain crc m' p ys where b: "core_bench_list m k = Some (Done (crc, m'))" "bench_ready m'"
    "inputs m' = inputs m" "item_list m' p ys" "mset ys = mset xs"
    "sorted_wrt (\<lambda>a b. item_idx m' a \<le> item_idx m' b) ys"
    "map lh_info (heads m') = map lh_info (heads m)"
    using bench_list_returns [of m xs k] by (auto simp: list_ready_def)
  then have "iterable m'"
    using list_ready_sorted [OF xs(2) b(4,5,3,6,7)] by (auto simp: iterable_def)
  then show ?thesis using b by (simp add: bench_half_def)
qed

lemma iterate_loop_returns:
  "iterable m \<Longrightarrow> \<exists>m'. iterate_loop is m = Some (Done m') \<and> iterable m' \<and> inputs m' = inputs m"
proof (induction "is" arbitrary: m)
  case (Cons i "is")
  obtain m1 where m1: "bench_half 1 m = Some (Done m1)" "iterable m1" "inputs m1 = inputs m"
    using bench_half_returns [OF Cons.prems] by blast
  obtain m2 where m2: "bench_half (- 1) m1 = Some (Done m2)" "iterable m2" "inputs m2 = inputs m1"
    using bench_half_returns [OF m1(2)] by blast
  let ?m = "if i = 0 then m2\<lparr>res_crclist := res_crc m2\<rparr> else m2"
  have "iterate_turn i m = Some (Done ?m)" using m1 m2 by (simp add: iterate_turn_def)
  moreover have "iterable ?m" "inputs ?m = inputs m" using m1 m2 by simp_all
  ultimately show ?case using Cons.IH [of ?m] by auto
qed simp

lemma iterate_returns:
  assumes "iterable m"
  shows "\<exists>m'. iterate m = Some (Done m') \<and> iterable m' \<and> inputs m' = inputs m"
  using iterate_loop_returns [of "m\<lparr>res_crc := 0, res_crclist := 0, res_crcmatrix := 0, res_crcstate := 0\<rparr>"]
    assms by (simp add: iterate_def)

end
