(* ===== verification/Coreinit.thy ===== *)
theory Coreinit
  imports Corerun
begin

text \<open>
  The initialisation of CoreMark: the list is made inside its blocks and sorted by index with
  its head first, the input of the state machine and the matrices fill their blocks, so that
  the program runs to its check for the seeds of the port.
\<close>

subsection \<open>Inserting the items\<close>

text \<open>The list after the items up to \<open>b\<close>: the head, the others from the last one on.\<close>

definition building :: "nat \<Rightarrow> nat \<Rightarrow> core_results \<Rightarrow> bool" where
  "building n b m \<longleftrightarrow> 1 \<le> b \<and> b < n \<and> n \<le> length (heads m) \<and> n \<le> length (datas m) \<and>
     list_at (heads m) (Some 0) (0 # rev [1..<b]) \<and> (\<forall>a < b. lh_info (heads m ! a) = a) \<and>
     idx (datas m ! 0) = 0 \<and> (\<forall>a. 1 \<le> a \<and> a < b \<longrightarrow> idx (datas m ! a) = 0x7fff)"

lemma new_data [simp]: "d\<lparr>data16 := v, idx := k\<rparr> = \<lparr>data16 = v, idx = k\<rparr>" for d :: list_data
  by (cases d) simp

lemma insert_next_building:
  assumes "building n b m" "idx info = 0x7fff"
  shows "\<exists>m'. insert_next n info (m, b, b) = Done (m', min (b + 1) (n - 1), min (b + 1) (n - 1)) \<and>
    building n (min (b + 1) (n - 1)) m' \<and> off_list m' = off_list m"
proof (cases "b + 1 < n")
  case False
  then have "b = n - 1" using assms(1) unfolding building_def by linarith
  then show ?thesis
    using assms(1) by (auto simp: insert_next_def core_list_insert_new_def building_def)
next
  case True
  note b = assms(1) [unfolded building_def]
  let ?hs1 = "(heads m)[b := (heads m ! b)\<lparr>lh_next := lh_next (heads m ! 0)\<rparr>]"
  let ?hs2 = "?hs1[0 := (?hs1 ! 0)\<lparr>lh_next := Some b\<rparr>]"
  let ?hs = "?hs2[b := (?hs2 ! b)\<lparr>lh_info := b\<rparr>]"
  let ?ds = "(datas m)[b := \<lparr>data16 = data16 info, idx = idx info\<rparr>]"
  let ?m = "m\<lparr>heads := ?hs, datas := ?ds\<rparr>"
  have len: "0 < length (heads m)" "b < length (heads m)" "b < length (datas m)" "b \<noteq> 0"
    using b by auto
  have "insert_next n info (m, b, b) = Done (?m, b + 1, b + 1)"
    using True len
    by (simp add: insert_next_def core_list_insert_new_def head_access copy_info_def put_data_eq Let_def)
  moreover have "building n (b + 1) ?m"
  proof -
    have "list_at (heads m) (lh_next (heads m ! 0)) (rev [1..<b])"
      using b by simp
    then have "list_at ?hs (lh_next (heads m ! 0)) (rev [1..<b])"
      by (simp add: list_at_update)
    then have "list_at ?hs (Some 0) (0 # b # rev [1..<b])"
      using len by simp
    moreover have "rev [1..<b + 1] = b # rev [1..<b]"
      using len by simp
    ultimately show ?thesis
      using b True len assms(2) by (auto simp: building_def nth_list_update less_Suc_eq)
  qed
  ultimately show ?thesis using True by (simp add: off_list_def)
qed

lemma insert_loop_building:
  assumes "building n b m" "\<And>i. idx (f i) = 0x7fff"
  shows "\<exists>m'. for_each is (\<lambda>i. insert_next n (f i)) (m, b, b) =
      Done (m', min (b + length is) (n - 1), min (b + length is) (n - 1)) \<and>
    building n (min (b + length is) (n - 1)) m' \<and> off_list m' = off_list m"
  using assms(1)
proof (induction "is" arbitrary: b m)
  case Nil
  then show ?case by (auto simp: building_def min_def)
next
  case (Cons i "is")
  let ?b = "min (b + 1) (n - 1)"
  obtain m1 where m1: "insert_next n (f i) (m, b, b) = Done (m1, ?b, ?b)" "building n ?b m1"
    "off_list m1 = off_list m"
    using insert_next_building [OF Cons.prems assms(2)] by blast
  have "min (?b + length is) (n - 1) = min (b + length (i # is)) (n - 1)" by simp
  then show ?case using Cons.IH [OF m1(2)] m1 by simp
qed

subsection \<open>Numbering them\<close>

definition index_value :: "u16 \<Rightarrow> i32 \<Rightarrow> i32 \<Rightarrow> u16" where
  "index_value seed size0 i =
     (if i < size0 div 5 then ucast i
      else 0x3fff AND (push_bit 8 (ucast (i + 1) AND 0x07) OR ucast (i XOR scast seed)))"

lemma small_sint: "unat i < 2 ^ 15 \<Longrightarrow> sint (ucast i :: u16) = int (unat i)" for i :: i32
proof -
  assume "unat i < 2 ^ 15"
  then have "int (unat i) < int (2 ^ 15)" by (simp only: of_nat_less_iff)
  then have "uint i < 2 ^ 15" by simp
  then have "signed_take_bit 15 (uint i) = uint i"
    by (intro signed_take_bit_int_eq_self) (simp_all add: order_trans [OF _ uint_ge_0])
  moreover have "(ucast i :: u16) = word_of_int (uint i)" by (rule ucast_eq)
  ultimately show ?thesis using sint_sbintrunc' [of "uint i", where ?'a = 16] by simp
qed

lemma low_mask: "(7 :: u16) = mask 3" "(0x3fff :: u16) = mask 14"
  by (simp_all add: mask_eq_exp_minus_1)

lemma unat_low: "unat (w AND 7) = unat w mod 8" for w :: u16
proof -
  have "unat (take_bit 3 w) = take_bit 3 (unat w)" by (rule unsigned_take_bit_eq)
  then show ?thesis by (simp add: low_mask(1) take_bit_eq_mask [symmetric] take_bit_eq_mod [of 3 "unat w"] del: unsigned_take_bit_eq)
qed

lemma low_seven: "(w + 1) AND 7 = 0 \<Longrightarrow> w AND 7 = 7" for w :: u16
proof -
  assume "(w + 1) AND 7 = 0"
  then have "unat (w + 1) mod 8 = 0" using unat_low [of "w + 1"] by simp
  moreover have "unat (w + 1) = (unat w + 1) mod 65536" by (simp add: unat_word_ariths)
  ultimately have "(unat w + 1) mod 8 = 0" by (simp add: mod_mod_cancel)
  then have "unat w mod 8 = 7" by presburger
  then show "w AND 7 = 7" using unat_low [of w] by (simp add: word_unat_eq_iff)
qed

lemma index_bits:
  fixes u w s :: u16
  assumes "0x3fff AND (push_bit 8 (u AND 7) OR (w XOR s)) = 0"
  shows "u AND 7 = 0" "w AND 7 = s AND 7"
proof -
  have b: "n < 14 \<Longrightarrow> \<not> bit (push_bit 8 (u AND 7) OR (w XOR s)) n" for n
    using assms by (auto simp: low_mask(2) bit_eq_iff [of "_ AND _"] bit_simps)
  show "u AND 7 = 0"
  proof (rule bit_word_eqI)
    fix n show "bit (u AND 7) n = bit 0 n"
      using b [of "n + 8"] by (auto simp: low_mask(1) bit_simps)
  qed
  show "w AND 7 = s AND 7"
  proof (rule bit_word_eqI)
    fix n assume "n < LENGTH(16)" show "bit (w AND 7) n = bit (s AND 7) n"
      using b [of n] \<open>n < LENGTH(16)\<close> by (auto simp: low_mask(1) bit_simps)
  qed
qed

lemma mask_sint: "sint (0x3fff AND x) = uint (0x3fff AND x)" for x :: u16
proof -
  have "uint (take_bit 14 x) = take_bit 14 (uint x)" by (rule unsigned_take_bit_eq)
  then have "uint (0x3fff AND x) = take_bit 14 (uint x)"
    by (simp add: low_mask(2) take_bit_eq_mask and.commute)
  then have "uint (0x3fff AND x) < 2 ^ 14" by (simp only: take_bit_int_less_exp)
  then have "signed_take_bit 15 (uint (0x3fff AND x)) = uint (0x3fff AND x)"
    by (intro signed_take_bit_int_eq_self) (simp_all add: order_trans [OF _ uint_ge_0])
  then show ?thesis by (simp add: sint_uint)
qed

lemma narrow_add: "(ucast (a + b) :: u16) = ucast a + ucast b" for a b :: i32
proof -
  have n: "(ucast (word_of_int k :: i32) :: u16) = word_of_int k" for k
    by (rule bit_word_eqI) (simp add: bit_simps)
  have "(ucast (a + b) :: u16) = word_of_int (uint a + uint b)"
    unfolding word_add_def by (rule n)
  also have "\<dots> = word_of_int (uint a) + word_of_int (uint b)" by (rule wi_hom_add [symmetric])
  finally show ?thesis by (simp only: ucast_eq)
qed

text \<open>No number is 0, unless the seed ends in seven.\<close>

lemma index_value_positive:
  assumes "seed AND 7 \<noteq> 7" "1 \<le> unat i" "unat size0 < 2 ^ 15"
  shows "0 < sint (index_value seed size0 i)"
proof (cases "i < size0 div 5")
  case True
  then have "unat i < unat (size0 div 5)" by (simp add: word_less_nat_alt)
  also have "\<dots> \<le> unat size0" by (simp add: unat_div)
  finally have "sint (ucast i :: u16) = int (unat i)" using assms(3) by (intro small_sint) simp
  then show ?thesis using True assms(2) by (simp add: index_value_def del: of_nat_unat)
next
  case False
  let ?w = "ucast i :: u16"
  have parts: "ucast (i + 1) = ?w + 1" "ucast (i XOR scast seed) = ?w XOR seed"
  proof -
    show "ucast (i + 1) = ?w + 1" using narrow_add [of i 1] by simp
    show "ucast (i XOR scast seed) = ?w XOR seed" by (rule bit_word_eqI) (simp add: bit_simps)
  qed
  have "index_value seed size0 i \<noteq> 0"
  proof
    assume "index_value seed size0 i = 0"
    then have "0x3fff AND (push_bit 8 ((?w + 1) AND 7) OR (?w XOR seed)) = 0"
      using False by (simp only: index_value_def parts if_False)
    from index_bits [OF this] show False using low_seven [of ?w] assms(1) by simp
  qed
  moreover have "sint (index_value seed size0 i) = uint (index_value seed size0 i)"
    using False mask_sint by (simp only: index_value_def if_False)
  ultimately show ?thesis
    using uint_ge_0 [of "index_value seed size0 i"] by (simp add: uint_0_iff order_less_le)
qed

lemma index_loop_step:
  assumes "a < length (heads m)" "lh_info (heads m ! a) = a" "a < length (datas m)"
    and "lh_next (heads m ! a) = Some b"
  shows "index_loop seed size0 (Some a) i m =
    index_loop seed size0 (Some b) (i + 1)
      (m\<lparr>datas := (datas m)[a := (datas m ! a)\<lparr>idx := index_value seed size0 i\<rparr>]\<rparr>)"
  using assms
  by (subst index_loop.simps) (simp add: head_access put_data_eq index_value_def)

lemma index_loop_numbers:
  assumes "list_at (heads m) p (ys @ [l])"
    and "list_all (\<lambda>a. lh_info (heads m ! a) = a \<and> a < length (datas m)) ys"
    and "seed AND 7 \<noteq> 7" "1 \<le> unat i" "unat i + length ys < 2 ^ 32" "unat size0 < 2 ^ 15"
  shows "\<exists>m'. index_loop seed size0 p i m = Some (Done m') \<and> heads m' = heads m \<and>
    off_list m' = off_list m \<and> length (datas m') = length (datas m) \<and>
    (\<forall>c. c \<notin> set ys \<longrightarrow> datas m' ! c = datas m ! c) \<and>
    (\<forall>a \<in> set ys. 0 < sint (idx (datas m' ! a)))"
  using assms
proof (induction ys arbitrary: p i m)
  case Nil
  then show ?case
    by (intro exI [of _ m]) (subst index_loop.simps, auto simp: head_access)
next
  case (Cons a ys)
  have a: "p = Some a" "a < length (heads m)" "lh_info (heads m ! a) = a" "a < length (datas m)"
    and rest: "list_at (heads m) (lh_next (heads m ! a)) (ys @ [l])"
    using Cons.prems(1,2) by auto
  obtain b where b: "lh_next (heads m ! a) = Some b"
    using rest by (cases "lh_next (heads m ! a)") auto
  have dist: "a \<notin> set ys" using list_at_distinct [OF Cons.prems(1)] by simp
  let ?m = "m\<lparr>datas := (datas m)[a := (datas m ! a)\<lparr>idx := index_value seed size0 i\<rparr>]\<rparr>"
  have i: "unat (i + 1) = unat i + 1" using Cons.prems(5) by (simp add: unat_word_ariths)
  have "\<exists>m'. index_loop seed size0 (Some b) (i + 1) ?m = Some (Done m') \<and> heads m' = heads ?m \<and>
    off_list m' = off_list ?m \<and> length (datas m') = length (datas ?m) \<and>
    (\<forall>c. c \<notin> set ys \<longrightarrow> datas m' ! c = datas ?m ! c) \<and>
    (\<forall>a \<in> set ys. 0 < sint (idx (datas m' ! a)))"
    using Cons.prems rest b i by (intro Cons.IH) auto
  then obtain m' where m': "index_loop seed size0 (Some b) (i + 1) ?m = Some (Done m')"
    "heads m' = heads m" "off_list m' = off_list m" "length (datas m') = length (datas m)"
    "\<forall>c. c \<notin> set ys \<longrightarrow> datas m' ! c = datas ?m ! c"
    "\<forall>a \<in> set ys. 0 < sint (idx (datas m' ! a))" by auto
  have "0 < sint (idx (datas m' ! a))"
    using m'(5) dist a(4) index_value_positive [OF Cons.prems(3,4,6)] by simp
  moreover have "index_loop seed size0 p i m = Some (Done m')"
    using index_loop_step [OF a(2-4) b] m'(1) a(1) by simp
  ultimately show ?case using m' by auto
qed

subsection \<open>The list\<close>

lemma built_list:
  assumes "1 < unat (blksize div 20 - 2)" "unat (blksize div 20 - 2) \<le> length (heads m)"
    "unat (blksize div 20 - 2) \<le> length (datas m)"
  defines "n \<equiv> unat (blksize div 20 - 2)"
  shows "\<exists>m1 m2. put_head m (Some 0) (\<lambda>h. h\<lparr>lh_next := None, lh_info := 0\<rparr>) = Done m1 \<and>
    put_data m1 0 (\<lambda>d. d\<lparr>idx := 0, data16 := 0x8080\<rparr>) = Done m2 \<and> building n 1 m2 \<and>
    off_list m2 = off_list m"
proof -
  have h: "0 < length (heads m)" "0 < length (datas m)" using assms by auto
  then show ?thesis
    using assms by (auto simp: head_access put_data_eq building_def off_list_def)
qed

lemma inserted_list:
  assumes "4 \<le> n" "n = unat size0" "building n 1 m"
  shows "\<exists>m3 m4. insert_next n \<lparr>data16 = 0xffff, idx = 0x7fff\<rparr> (m, 1, 1) = Done (m3, 2, 2) \<and>
    for_loop size0 (\<lambda>i. insert_next n (init_info seed (of_nat i))) (m3, 2, 2) =
      Done (m4, n - 1, n - 1) \<and> building n (n - 1) m4 \<and> off_list m4 = off_list m"
proof -
  have min: "min (1 + 1) (n - 1) = 2" "min (2 + length [0..<n]) (n - 1) = n - 1"
    using assms(1) by simp_all
  have "idx (\<lparr>data16 = 0xffff, idx = 0x7fff\<rparr> :: list_data) = 0x7fff" by simp
  from insert_next_building [OF assms(3) this] obtain m3 where
    m3: "insert_next n \<lparr>data16 = 0xffff, idx = 0x7fff\<rparr> (m, 1, 1) = Done (m3, 2, 2)"
      "building n 2 m3" "off_list m3 = off_list m"
    unfolding min by blast
  have "idx (init_info seed (of_nat i)) = 0x7fff" for i
    by (simp add: init_info_def Let_def)
  from insert_loop_building [OF m3(2), of "\<lambda>i. init_info seed (of_nat i)" "[0..<n]", OF this]
  show ?thesis using m3 unfolding for_loop_def assms(2) [symmetric] min by auto
qed

lemma numbered_list:
  assumes "4 \<le> n" "n < 2 ^ 15" "n = unat size0" "building n (n - 1) m" "seed AND 7 \<noteq> 7"
  shows "\<exists>m' xs. index_loop seed size0 (lh_next (heads m ! 0)) 1 m = Some (Done m') \<and>
    heads m \<noteq> [] \<and> off_list m' = off_list m \<and> list_ready (m'\<lparr>res_list := Some 0\<rparr>) xs"
proof -
  define ys where "ys = rev [2..<n - 1]"
  have "[1..<n - 1] = 1 # [2..<n - 1]" using assms(1) by (simp add: upt_rec numeral_2_eq_2)
  then have l: "list_at (heads m) (Some 0) (0 # ys @ [1])" "heads m \<noteq> []"
    and infos: "\<forall>a < n - 1. lh_info (heads m ! a) = a" "n \<le> length (datas m)" "n \<le> length (heads m)"
    and idxs: "idx (datas m ! 0) = 0" "idx (datas m ! 1) = 0x7fff"
    using assms(1,4) by (auto simp: building_def ys_def)
  have ys: "\<forall>a \<in> set ys. 1 < a \<and> a < n - 1" "length ys < 2 ^ 32 - 1" "1 \<le> length ys"
    using assms(1,2) by (auto simp: ys_def)
  have "list_at (heads m) (lh_next (heads m ! 0)) (ys @ [1])" using l by simp
  moreover have "list_all (\<lambda>a. lh_info (heads m ! a) = a \<and> a < length (datas m)) ys"
    using infos ys(1) by (auto simp: list_all_iff)
  ultimately obtain m' where m': "index_loop seed size0 (lh_next (heads m ! 0)) 1 m = Some (Done m')"
    "heads m' = heads m" "off_list m' = off_list m" "length (datas m') = length (datas m)"
    "\<forall>c. c \<notin> set ys \<longrightarrow> datas m' ! c = datas m ! c" "\<forall>a \<in> set ys. 0 < sint (idx (datas m' ! a))"
    using index_loop_numbers [of m "lh_next (heads m ! 0)" ys 1 seed 1 size0] assms ys(2) by auto
  have "0 \<notin> set ys" "1 \<notin> set ys" using ys(1) by auto
  then have "idx (datas m' ! 0) = 0" "idx (datas m' ! 1) = 0x7fff" using m'(5) idxs by simp_all
  then have "item_idx m' 0 = 0" "\<forall>a \<in> set (ys @ [1]). 0 < item_idx m' a"
    using m'(2,6) infos(1) ys(1) assms(1) by (auto simp: item_idx_def)
  moreover have "item_list m' (Some 0) (0 # ys @ [1])"
    using l infos m'(2,4) ys(1) assms(1) by (auto simp: item_list_def list_all_iff)
  ultimately have "list_ready (m'\<lparr>res_list := Some 0\<rparr>) (0 # ys @ [1])"
    using ys(3) by (auto simp: list_ready_def item_list_def item_idx_def)
  then show ?thesis using m'(1,3) l(2) by blast
qed

lemma sorted_ready:
  assumes "list_ready (m\<lparr>res_list := Some 0\<rparr>) xs"
  shows "\<exists>p m' ys. core_list_mergesort m (Some 0) (cmp_idx True) = Some (Done (p, m')) \<and>
    off_list m' = off_list m \<and> list_ready (m'\<lparr>res_list := p\<rparr>) ys"
proof -
  have xs: "item_list m (Some 0) xs" "xs \<noteq> []"
    using assms by (auto simp: list_ready_def item_list_def)
  from mergesort_by_idx [OF xs] obtain p m' ys where
    m': "core_list_mergesort m (Some 0) (cmp_idx True) = Some (Done (p, m'))" "off_list m' = off_list m"
    "item_list m' p ys" "mset ys = mset xs" "sorted_wrt (\<lambda>a b. item_idx m' a \<le> item_idx m' b) ys"
    "map lh_info (heads m') = map lh_info (heads m)" "map idx (datas m') = map idx (datas m)" by blast
  let ?m = "m'\<lparr>res_list := Some 0\<rparr>"
  have "inputs ?m = inputs (m\<lparr>res_list := Some 0\<rparr>)"
    using off_list_ready(2) [OF m'(2,7)] by (simp add: inputs_def)
  then have ready: "list_ready ?m ys"
    using m' by (intro list_ready_sorted [OF assms, where p = p]) (simp_all add: item_list_def item_idx_def)
  then have "p = Some 0"
    using m'(3) by (cases ys) (auto simp: list_ready_def item_list_def)
  then show ?thesis using m'(1,2) ready by blast
qed

lemma core_list_init_ready:
  assumes "4 \<le> unat (blksize div 20 - 2)" "unat (blksize div 20 - 2) < 2 ^ 15"
    and "unat (blksize div 20 - 2) \<le> length (heads m)" "unat (blksize div 20 - 2) \<le> length (datas m)"
    and "seed AND 7 \<noteq> 7"
  shows "\<exists>p m' ys. core_list_init blksize m seed = Some (Done (p, m')) \<and> off_list m' = off_list m \<and>
    list_ready (m'\<lparr>res_list := p\<rparr>) ys"
proof -
  let ?size0 = "blksize div 20 - 2"
  let ?n = "unat ?size0"
  obtain m1 m2 where start: "put_head m (Some 0) (\<lambda>h. h\<lparr>lh_next := None, lh_info := 0\<rparr>) = Done m1"
    "put_data m1 0 (\<lambda>d. d\<lparr>idx := 0, data16 := 0x8080\<rparr>) = Done m2" "building ?n 1 m2"
    "off_list m2 = off_list m"
    using built_list [of blksize m] assms by auto
  from inserted_list [OF assms(1) refl start(3), of seed] obtain m3 m4 where
    ins: "insert_next ?n \<lparr>data16 = 0xffff, idx = 0x7fff\<rparr> (m2, 1, 1) = Done (m3, 2, 2)"
    "for_loop ?size0 (\<lambda>i. insert_next ?n (init_info seed (of_nat i))) (m3, 2, 2) =
      Done (m4, ?n - 1, ?n - 1)" "building ?n (?n - 1) m4" "off_list m4 = off_list m2" by blast
  from numbered_list [OF assms(1,2) refl ins(3) assms(5)] obtain m5 xs where
    num: "index_loop seed ?size0 (lh_next (heads m4 ! 0)) 1 m4 = Some (Done m5)" "heads m4 \<noteq> []"
    "off_list m5 = off_list m4" "list_ready (m5\<lparr>res_list := Some 0\<rparr>) xs" by blast
  from sorted_ready [OF num(4)] obtain p m6 ys where
    m6: "core_list_mergesort m5 (Some 0) (cmp_idx True) = Some (Done (p, m6))" "off_list m6 = off_list m5"
    "list_ready (m6\<lparr>res_list := p\<rparr>) ys" by blast
  have "core_list_init blksize m seed = Some (Done (p, m6))"
    unfolding core_list_init_def Let_def
    using start(1,2) ins(1,2) num(1,2) m6(1) by (simp add: head_access)
  then show ?thesis using m6 num(3) ins(4) start(4) by auto
qed

subsection \<open>The program\<close>

lemma survives_pattern:
  "pattern_bytes (\<lambda>b. b = COMMA \<or> b XOR ucast seed \<noteq> COMMA)"
  if "seed = 0 \<or> seed = 0x3415 \<or> seed = 8" for seed :: u16
  using that by (elim disjE; simp only:) code_simp+

text \<open>The three blocks, of 666 bytes, do not overlap and lie in the 2000 bytes on the stack.\<close>

lemma memblocks_placed: "memblocks 7 666 0 [0, 1, 2] = [Some 0, Some 666, Some 1332]"
  by (simp add: runs_algorithm_def)

lemma calibrate_returns:
  assumes "iterable m" "\<not> ticks (k + d) <s 100000000"
  shows "\<exists>m'. calibrate ticks k m = Some (Done m') \<and> iterable m' \<and> inputs m' = inputs m"
  using assms
proof (induction d arbitrary: k m)
  case 0
  then show ?case
    using iterate_returns [of "m\<lparr>res_iterations := res_iterations m * 10\<rparr>"]
    by (subst calibrate.simps) auto
next
  case (Suc d)
  obtain m1 where m1: "iterate (m\<lparr>res_iterations := res_iterations m * 10\<rparr>) = Some (Done m1)"
    "iterable m1" "inputs m1 = inputs m"
    using iterate_returns [of "m\<lparr>res_iterations := res_iterations m * 10\<rparr>"] Suc.prems(1) by auto
  show ?case
  proof (cases "ticks k <s 100000000")
    case True
    then show ?thesis
      using m1 Suc.IH [of m1 "Suc k"] Suc.prems(2) by (subst calibrate.simps) auto
  next
    case False
    then show ?thesis using m1 by (subst calibrate.simps) simp
  qed
qed

text \<open>The blocks on the stack, which hold anything.\<close>

definition stack_blocks :: "core_results \<Rightarrow> bool" where
  "stack_blocks m \<longleftrightarrow> 31 \<le> length (heads m) \<and> 31 \<le> length (datas m) \<and> length (res_state m) = 666 \<and>
     83 \<le> length (mat_C (res_mat m))"

lemma list_ready_cong:
  "heads m' = heads m \<Longrightarrow> datas m' = datas m \<Longrightarrow> res_list m' = res_list m \<Longrightarrow>
   list_ready m' xs = list_ready m xs"
  by (simp add: list_ready_def item_list_def item_idx_def)

lemma inits_ready:
  assumes "stack_blocks m" "res_size m = 666" "res_execs m = 7" "res_seed2 m = res_seed1 m"
    and "res_seed1 m = 0 \<or> res_seed1 m = 0x3415 \<or> res_seed1 m = 8"
  shows "\<exists>m'. bind_comp (init_list m) (\<lambda>m. bind_comp (init_matrix m) init_state) = Some (Done m') \<and>
    iterable m' \<and> res_iterations m' = res_iterations m \<and> seed_crc m' = seed_crc m"
proof -
  let ?s = "res_seed1 m"
  have execs: "runs_algorithm 7 0" "runs_algorithm 7 1" "runs_algorithm 7 2"
    by (simp_all add: runs_algorithm_def)
  have "?s AND 7 \<noteq> 7" using assms(5) by auto
  moreover have "unat (666 div 20 - 2 :: i32) = 31" by code_simp
  ultimately obtain p hs ds ys where l: "core_list_init 666 m ?s = Some (Done (p, m\<lparr>heads := hs, datas := ds\<rparr>))"
    "list_ready (m\<lparr>heads := hs, datas := ds, res_list := p\<rparr>) ys"
    using core_list_init_ready [of 666 m ?s] assms(1) by (auto simp: stack_blocks_def elim!: off_listE)
  let ?seed = "scast ?s OR push_bit 16 (scast ?s) :: i32"
  obtain q where q: "core_init_matrix 666 ?seed (mat_C (res_mat m)) = Some q"
    "8 * (unat (mat_N q) * unat (mat_N q)) < 666" "square (mat_N q) (unat (mat_N q))"
    "length (mat_A q) = unat (mat_N q) * unat (mat_N q)"
    "length (mat_B q) = unat (mat_N q) * unat (mat_N q)" "mat_C q = mat_C (res_mat m)"
    using core_init_matrix_fits [of 666 ?seed "mat_C (res_mat m)"] by auto
  then have mat: "mat_ok q" using assms(1) by (simp add: mat_ok_def Let_def stack_blocks_def)
  obtain blk where blk: "core_init_state 666 ?s (res_state m) = Some (Done blk)" "length blk = 666"
    "ends_in_zeros blk" "survives ?s blk"
    using core_init_state_ends [of 666 "res_state m" _ ?s, OF _ _ _ survives_pattern [OF assms(5)]] assms(1)
    by (auto simp: stack_blocks_def survives_def list_all_iff)
  let ?m = "m\<lparr>heads := hs, datas := ds, res_list := p, res_mat := q, res_state := blk\<rparr>"
  have "bind_comp (init_list m) (\<lambda>m. bind_comp (init_matrix m) init_state) = Some (Done ?m)"
    using l(1) q(1) blk(1) assms(2-4) execs by (simp add: init_list_def init_matrix_def init_state_def)
  moreover have "list_ready ?m ys" using l(2) by (rule list_ready_cong [THEN iffD2, rotated 3]) simp_all
  moreover have "bench_ready ?m" using blk mat assms(2,4) by (simp add: bench_ready_def)
  ultimately show ?thesis by (auto simp: iterable_def seed_crc_def)
qed

lemma seeds_chosen:
  "\<exists>s t. get_seeds (seed_volatile k iterations) m =
     m\<lparr>res_seed1 := s, res_seed2 := s, res_seed3 := t, res_iterations := iterations, res_execs := 7\<rparr> \<and>
     (s, t) = (case k of VALIDATION_RUN \<Rightarrow> (0x3415, 0x66) | PERFORMANCE_RUN \<Rightarrow> (0, 0x66) | PROFILE_RUN \<Rightarrow> (8, 8))"
  by (cases k) (simp_all add: get_seeds_def get_seed_def get_seed_32_def seed_volatile_def Let_def)

lemma seed_crcs:
  "crc16 666 (crc16 0x66 (crc16 0x3415 (crc16 0x3415 0))) = 0x18f2"
  "crc16 666 (crc16 0x66 (crc16 0 (crc16 0 0))) = 0xe9f5"
  "known_id (crc16 666 (crc16 8 (crc16 8 (crc16 8 0)))) = None"
  by code_simp+

definition run_id :: "run_kind \<Rightarrow> nat option" where
  "run_id k = (case k of VALIDATION_RUN \<Rightarrow> Some 4 | PERFORMANCE_RUN \<Rightarrow> Some 3 | PROFILE_RUN \<Rightarrow> None)"

lemma core_setup_ready:
  assumes "stack_blocks m"
  shows "\<exists>m'. core_setup (seed_volatile k iterations) m = Some (Done m') \<and> iterable m' \<and>
    res_iterations m' = iterations \<and> known_id (seed_crc m') = run_id k"
proof -
  have "num_algorithms 7 = 3" by (simp add: num_algorithms_def runs_algorithm_def)
  moreover have "block_size 2000 3 = 666" by code_simp
  moreover obtain s t where "get_seeds (seed_volatile k iterations) m =
     m\<lparr>res_seed1 := s, res_seed2 := s, res_seed3 := t, res_iterations := iterations, res_execs := 7\<rparr>"
     "s = 0 \<or> s = 0x3415 \<or> s = 8"
     "known_id (crc16 666 (crc16 t (crc16 s (crc16 s 0)))) = run_id k"
    using seeds_chosen [of k iterations m] seed_crcs
    by (cases k) (auto simp: run_id_def known_id_def)
  ultimately show ?thesis
    using inits_ready [of "m\<lparr>res_seed1 := s, res_seed2 := s, res_seed3 := t,
      res_iterations := iterations, res_execs := 7, res_err := 0, res_size := 666\<rparr>"] assms
    by (auto simp: core_setup_def Let_def stack_blocks_def seed_crc_def)
qed

lemma coremark_main_returns:
  assumes "stack_blocks m" "iterations \<noteq> 0 \<or> \<not> ticks d <s 100000000"
  shows "\<exists>m0 m'. core_setup (seed_volatile k iterations) m = Some (Done m0) \<and> iterable m0 \<and>
    coremark_main z (seed_volatile k iterations) ticks m = Some (Done (check_results z m')) \<and>
    iterable m' \<and> inputs m' = inputs m0 \<and> known_id (seed_crc m') = run_id k"
proof -
  obtain m0 where m0: "core_setup (seed_volatile k iterations) m = Some (Done m0)" "iterable m0"
    "res_iterations m0 = iterations" "known_id (seed_crc m0) = run_id k"
    using core_setup_ready [OF assms(1)] by blast
  have "\<exists>m1. (if res_iterations m0 = 0 then calibrate ticks 0 (m0\<lparr>res_iterations := 1\<rparr>)
      else Some (Done m0)) = Some (Done m1) \<and> iterable m1 \<and> inputs m1 = inputs m0"
    using assms(2) m0(2,3) calibrate_returns [of "m0\<lparr>res_iterations := 1\<rparr>" ticks 0 d] by auto
  then obtain m1 where m1: "(if res_iterations m0 = 0 then calibrate ticks 0 (m0\<lparr>res_iterations := 1\<rparr>)
      else Some (Done m0)) = Some (Done m1)" "iterable m1" "inputs m1 = inputs m0" by blast
  obtain m2 where m2: "iterate m1 = Some (Done m2)" "iterable m2" "inputs m2 = inputs m1"
    using iterate_returns [OF m1(2)] by blast
  have "seed_crc m2 = seed_crc m0"
    using m2(3) m1(3) by (simp add: inputs_def seed_crc_def)
  then show ?thesis
    using m0 m1 m2 by (auto simp: coremark_main_def)
qed

end
