(* ===== verification/Dhrystone.thy ===== *)
theory Dhrystone
  imports Prelude "HOL-Library.Signed_Division"
begin

text \<open>
  \<open>sw/dhrystone/dhry_1.c\<close> and \<open>dhry_2.c\<close>, the Dhrystone benchmark as it is built for this
  target. The two records are at addresses 0 and 1 of a heap, the arrays are lists, and what is
  not initialised is a parameter. The program prints the final values of its variables beside
  those they should have: they are shown to agree for every number of runs.
\<close>

subsection \<open>Types and variables\<close>

datatype Enumeration = Ident_1 | Ident_2 | Ident_3 | Ident_4 | Ident_5

record Rec_Type =
  Ptr_Comp :: "nat option"
  Discr :: Enumeration
  Enum_Comp :: Enumeration
  Int_Comp :: i32
  Str_Comp :: "u8 list"

text \<open>The global variables, and the records that \<open>malloc\<close> returned.\<close>

record globs =
  Ptr_Glob :: "nat option"
  Next_Ptr_Glob :: "nat option"
  Int_Glob :: i32
  Bool_Glob :: i32
  Ch_1_Glob :: u8
  Ch_2_Glob :: u8
  Arr_1_Glob :: "i32 list"
  Arr_2_Glob :: "i32 list list"
  recs :: "Rec_Type list"

text \<open>The local variables of \<open>main\<close>.\<close>

record locs =
  Int_1_Loc :: i32
  Int_2_Loc :: i32
  Int_3_Loc :: i32
  Enum_Loc :: Enumeration
  Str_1_Loc :: "u8 list"
  Str_2_Loc :: "u8 list"

definition get_rec :: "globs \<Rightarrow> nat option \<Rightarrow> Rec_Type run" where
  "get_rec s p = (case p of None \<Rightarrow> Fault NullPointer | Some a \<Rightarrow> get_at (recs s) a)"

definition put_rec :: "globs \<Rightarrow> nat option \<Rightarrow> (Rec_Type \<Rightarrow> Rec_Type) \<Rightarrow> globs run" where
  "put_rec s p f =
     bind_run (get_rec s p) (\<lambda>r. Done (s\<lparr>recs := (recs s)[the p := f r]\<rparr>))"

text \<open>An index that is an \<open>int\<close>.\<close>

definition get_int :: "'a list \<Rightarrow> i32 \<Rightarrow> 'a run" where
  "get_int xs i = (if i <s 0 then Fault OutOfBlock else get_at xs (unat i))"

definition put_int :: "'a list \<Rightarrow> i32 \<Rightarrow> 'a \<Rightarrow> 'a list run" where
  "put_int xs i v = (if i <s 0 then Fault OutOfBlock else put_at xs (unat i) v)"

subsection \<open>\<open>dhry_2.c\<close>\<close>

definition Func_3 :: "Enumeration \<Rightarrow> bool" where
  "Func_3 Enum_Par_Val \<longleftrightarrow> Enum_Par_Val = Ident_3"

text \<open>The value left in \<open>*Enum_Ref_Par\<close>.\<close>

definition Proc_6 :: "globs \<Rightarrow> Enumeration \<Rightarrow> Enumeration" where
  "Proc_6 s Enum_Val_Par =
     (let r = Enum_Val_Par;
          r = (if \<not> Func_3 Enum_Val_Par then Ident_4 else r)
      in case Enum_Val_Par of
           Ident_1 \<Rightarrow> Ident_1
         | Ident_2 \<Rightarrow> if 100 <s Int_Glob s then Ident_1 else Ident_4
         | Ident_3 \<Rightarrow> Ident_2
         | Ident_4 \<Rightarrow> r
         | Ident_5 \<Rightarrow> Ident_3)"

definition Proc_7 :: "i32 \<Rightarrow> i32 \<Rightarrow> i32" where
  "Proc_7 Int_1_Par_Val Int_2_Par_Val =
     (let Int_Loc = Int_1_Par_Val + 2 in Int_2_Par_Val + Int_Loc)"

text \<open>\<open>Arr_2_Par_Ref [i] [j] = v\<close>\<close>

definition put_int2 :: "i32 list list \<Rightarrow> i32 \<Rightarrow> i32 \<Rightarrow> i32 \<Rightarrow> i32 list list run" where
  "put_int2 a i j v =
     bind_run (get_int a i) (\<lambda>row. bind_run (put_int row j v) (\<lambda>row'. put_int a i row'))"

definition Proc_8 ::
    "i32 list \<Rightarrow> i32 list list \<Rightarrow> i32 \<Rightarrow> i32 \<Rightarrow> globs \<Rightarrow> (i32 list \<times> i32 list list \<times> globs) run" where
  "Proc_8 a1 a2 Int_1_Par_Val Int_2_Par_Val s =
     (let Int_Loc = Int_1_Par_Val + 5 in
      bind_run (put_int a1 Int_Loc Int_2_Par_Val) (\<lambda>a1.
      bind_run (get_int a1 Int_Loc) (\<lambda>v. bind_run (put_int a1 (Int_Loc + 1) v) (\<lambda>a1.
      bind_run (put_int a1 (Int_Loc + 30) Int_Loc) (\<lambda>a1.
      bind_run (put_int2 a2 Int_Loc Int_Loc Int_Loc) (\<lambda>a2.
      bind_run (put_int2 a2 Int_Loc (Int_Loc + 1) Int_Loc) (\<lambda>a2.
      bind_run (get_int a2 Int_Loc) (\<lambda>row. bind_run (get_int row (Int_Loc - 1)) (\<lambda>v.
      bind_run (put_int2 a2 Int_Loc (Int_Loc - 1) (v + 1)) (\<lambda>a2.
      bind_run (get_int a1 Int_Loc) (\<lambda>v.
      bind_run (put_int2 a2 (Int_Loc + 20) Int_Loc v) (\<lambda>a2.
        Done (a1, a2, s\<lparr>Int_Glob := 5\<rparr>)))))))))))))"

definition Func_1 :: "u8 \<Rightarrow> u8 \<Rightarrow> globs \<Rightarrow> Enumeration \<times> globs" where
  "Func_1 Ch_1_Par_Val Ch_2_Par_Val s =
     (let Ch_1_Loc = Ch_1_Par_Val; Ch_2_Loc = Ch_1_Loc
      in if Ch_2_Loc \<noteq> Ch_2_Par_Val then (Ident_1, s)
         else (Ident_2, s\<lparr>Ch_1_Glob := Ch_1_Loc\<rparr>))"

text \<open>A character of a string, which has a terminator; \<open>strcmp (a, b) > 0\<close>.\<close>

definition str_at :: "u8 list \<Rightarrow> i32 \<Rightarrow> u8 run" where
  "str_at w i = get_int (w @ [0]) i"

fun str_greater :: "u8 list \<Rightarrow> u8 list \<Rightarrow> bool" where
  "str_greater [] v \<longleftrightarrow> False"
| "str_greater (c # w) [] \<longleftrightarrow> True"
| "str_greater (c # w) (d # v) \<longleftrightarrow> d < c \<or> c = d \<and> str_greater w v"

text \<open>The loop of \<open>Func_2\<close>: what is left is \<open>Int_Loc\<close>, \<open>Ch_Loc\<close> and the global variables.\<close>

partial_function (option) func_2_loop ::
    "u8 list \<Rightarrow> u8 list \<Rightarrow> i32 \<Rightarrow> u8 \<Rightarrow> globs \<Rightarrow> (i32 \<times> u8 \<times> globs) comp" where
  "func_2_loop w v Int_Loc Ch_Loc s =
     (if Int_Loc \<le>s 2
      then bind_comp (Some (str_at w Int_Loc)) (\<lambda>c. bind_comp (Some (str_at v (Int_Loc + 1))) (\<lambda>d.
        (case Func_1 c d s of (e, s') \<Rightarrow>
           if e = Ident_1 then func_2_loop w v (Int_Loc + 1) 0x41 s'
           else func_2_loop w v Int_Loc Ch_Loc s')))
      else Some (Done (Int_Loc, Ch_Loc, s)))"

definition Func_2 :: "u8 \<Rightarrow> u8 list \<Rightarrow> u8 list \<Rightarrow> globs \<Rightarrow> (bool \<times> globs) comp" where
  "Func_2 Ch_Loc w v s =
     bind_comp (func_2_loop w v 2 Ch_Loc s) (\<lambda>(Int_Loc, Ch_Loc, s).
       let Int_Loc = (if 0x57 \<le> Ch_Loc \<and> Ch_Loc < 0x5a then 7 else Int_Loc) in
       if Ch_Loc = 0x52 then Some (Done (True, s))
       else if str_greater w v then Some (Done (True, s\<lparr>Int_Glob := Int_Loc + 7\<rparr>))
       else Some (Done (False, s)))"

subsection \<open>The procedures of \<open>dhry_1.c\<close>\<close>

definition Proc_5 :: "globs \<Rightarrow> globs" where
  "Proc_5 s = s\<lparr>Ch_1_Glob := 0x41, Bool_Glob := 0\<rparr>"

definition Proc_4 :: "globs \<Rightarrow> globs" where
  "Proc_4 s =
     (let Bool_Loc = (if Ch_1_Glob s = 0x41 then 1 else 0)
      in s\<lparr>Bool_Glob := Bool_Loc OR Bool_Glob s, Ch_2_Glob := 0x42\<rparr>)"

text \<open>The parameter points to the member \<open>Ptr_Comp\<close> of the record at \<open>r\<close>.\<close>

definition Proc_3 :: "nat option \<Rightarrow> globs \<Rightarrow> globs run" where
  "Proc_3 r s =
     bind_run
       (if Ptr_Glob s \<noteq> None
        then bind_run (get_rec s (Ptr_Glob s)) (\<lambda>g. put_rec s r (\<lambda>v. v\<lparr>Ptr_Comp := Ptr_Comp g\<rparr>))
        else Done s)
       (\<lambda>s. put_rec s (Ptr_Glob s) (\<lambda>v. v\<lparr>Int_Comp := Proc_7 10 (Int_Glob s)\<rparr>))"

text \<open>The loop of \<open>Proc_2\<close>: \<open>Enum_Loc\<close> is not initialised.\<close>

partial_function (option) proc_2_loop :: "globs \<Rightarrow> i32 \<Rightarrow> Enumeration \<Rightarrow> i32 \<Rightarrow> i32 option" where
  "proc_2_loop s Int_Loc e Int_Par_Ref =
     (let (Int_Loc, Int_Par_Ref, e) =
            (if Ch_1_Glob s = 0x41 then (Int_Loc - 1, Int_Loc - 1 - Int_Glob s, Ident_1)
             else (Int_Loc, Int_Par_Ref, e))
      in if e \<noteq> Ident_1 then proc_2_loop s Int_Loc e Int_Par_Ref
         else Some Int_Par_Ref)"

definition Proc_2 :: "Enumeration \<Rightarrow> globs \<Rightarrow> i32 \<Rightarrow> i32 option" where
  "Proc_2 e s Int_Par_Ref = proc_2_loop s (Int_Par_Ref + 10) e Int_Par_Ref"

definition Proc_1 :: "nat option \<Rightarrow> globs \<Rightarrow> globs run" where
  "Proc_1 p s =
     bind_run (get_rec s p) (\<lambda>v. let Next_Record = Ptr_Comp v in
     bind_run (get_rec s (Ptr_Glob s)) (\<lambda>g. bind_run (put_rec s (Ptr_Comp v) (\<lambda>_. g)) (\<lambda>s.
     bind_run (put_rec s p (\<lambda>v. v\<lparr>Int_Comp := 5\<rparr>)) (\<lambda>s.
     bind_run (get_rec s p) (\<lambda>v.
     bind_run (put_rec s Next_Record (\<lambda>r. r\<lparr>Int_Comp := Int_Comp v\<rparr>)) (\<lambda>s.
     bind_run (get_rec s p) (\<lambda>v.
     bind_run (put_rec s Next_Record (\<lambda>r. r\<lparr>Ptr_Comp := Ptr_Comp v\<rparr>)) (\<lambda>s.
     bind_run (Proc_3 Next_Record s) (\<lambda>s.
     bind_run (get_rec s Next_Record) (\<lambda>r.
       if Discr r = Ident_1
       then bind_run (put_rec s Next_Record (\<lambda>r. r\<lparr>Int_Comp := 6\<rparr>)) (\<lambda>s.
         bind_run (get_rec s p) (\<lambda>v.
         bind_run (put_rec s Next_Record (\<lambda>r. r\<lparr>Enum_Comp := Proc_6 s (Enum_Comp v)\<rparr>)) (\<lambda>s.
         bind_run (get_rec s (Ptr_Glob s)) (\<lambda>g.
         bind_run (put_rec s Next_Record (\<lambda>r. r\<lparr>Ptr_Comp := Ptr_Comp g\<rparr>)) (\<lambda>s.
           put_rec s Next_Record (\<lambda>r. r\<lparr>Int_Comp := Proc_7 (Int_Comp r) 10\<rparr>))))))
       else bind_run (get_rec s p) (\<lambda>v. bind_run (get_rec s (Ptr_Comp v)) (\<lambda>r.
         put_rec s p (\<lambda>_. r)))))))))))))"

subsection \<open>The main program\<close>

definition str_some :: "u8 list" where "str_some = ascii ''DHRYSTONE PROGRAM, SOME STRING''"
definition str_1st :: "u8 list" where "str_1st = ascii ''DHRYSTONE PROGRAM, 1'ST STRING''"
definition str_2nd :: "u8 list" where "str_2nd = ascii ''DHRYSTONE PROGRAM, 2'ND STRING''"
definition str_3rd :: "u8 list" where "str_3rd = ascii ''DHRYSTONE PROGRAM, 3'RD STRING''"

text \<open>The two loops of a run.\<close>

partial_function (option) seven_loop :: "locs \<Rightarrow> locs option" where
  "seven_loop l =
     (if Int_1_Loc l <s Int_2_Loc l
      then seven_loop
             (l\<lparr>Int_3_Loc := Proc_7 (Int_1_Loc l) (Int_2_Loc l), Int_1_Loc := Int_1_Loc l + 1\<rparr>)
      else Some l)"

partial_function (option) char_loop :: "i32 \<Rightarrow> u8 \<Rightarrow> locs \<Rightarrow> globs \<Rightarrow> (locs \<times> globs) option" where
  "char_loop Run_Index Ch_Index l s =
     (if Ch_Index \<le> Ch_2_Glob s
      then (case Func_1 Ch_Index 0x43 s of (e, s') \<Rightarrow>
        if Enum_Loc l = e
        then char_loop Run_Index (Ch_Index + 1)
               (l\<lparr>Enum_Loc := Proc_6 s' Ident_1, Str_2_Loc := str_3rd, Int_2_Loc := Run_Index\<rparr>)
               (s'\<lparr>Int_Glob := Run_Index\<rparr>)
        else char_loop Run_Index (Ch_Index + 1) l s')
      else Some (l, s))"

definition int_div :: "i32 \<Rightarrow> i32 \<Rightarrow> i32" where
  "int_div a b = (if b = 0 then - 1 else word_of_int (sint a sdiv sint b))"

text \<open>What is not initialised: \<open>Ch_Loc\<close> of \<open>Func_2\<close> and \<open>Enum_Loc\<close> of \<open>Proc_2\<close>.\<close>

type_synonym garbage = "u8 \<times> Enumeration"

definition dhry_run :: "garbage \<Rightarrow> i32 \<Rightarrow> locs \<times> globs \<Rightarrow> (locs \<times> globs) comp" where
  "dhry_run g Run_Index = (\<lambda>(l, s).
     let s = Proc_4 (Proc_5 s);
         l = l\<lparr>Int_1_Loc := 2, Int_2_Loc := 3, Str_2_Loc := str_2nd, Enum_Loc := Ident_2\<rparr> in
     bind_comp (Func_2 (fst g) (Str_1_Loc l) (Str_2_Loc l) s) (\<lambda>(b, s).
     let s = s\<lparr>Bool_Glob := (if b then 0 else 1)\<rparr> in
     bind_comp (map_option Done (seven_loop l)) (\<lambda>l.
     bind_comp (Some (Proc_8 (Arr_1_Glob s) (Arr_2_Glob s) (Int_1_Loc l) (Int_3_Loc l) s)) (\<lambda>(a1, a2, s).
     let s = s\<lparr>Arr_1_Glob := a1, Arr_2_Glob := a2\<rparr> in
     bind_comp (Some (Proc_1 (Ptr_Glob s) s)) (\<lambda>s.
     bind_comp (map_option Done (char_loop Run_Index 0x41 l s)) (\<lambda>(l, s).
     let i2 = Int_2_Loc l * Int_1_Loc l;
         i1 = int_div i2 (Int_3_Loc l);
         i2 = 7 * (i2 - Int_3_Loc l) - i1 in
     bind_comp (map_option Done (Proc_2 (snd g) s i1)) (\<lambda>i1.
       Some (Done (l\<lparr>Int_1_Loc := i1, Int_2_Loc := i2\<rparr>, s)))))))))"

fun dhry_runs :: "garbage \<Rightarrow> nat \<Rightarrow> i32 \<Rightarrow> locs \<times> globs \<Rightarrow> (locs \<times> globs) comp" where
  "dhry_runs g 0 Run_Index ls = Some (Done ls)"
| "dhry_runs g (Suc n) Run_Index ls =
     bind_comp (dhry_run g Run_Index ls) (\<lambda>ls. dhry_runs g n (Run_Index + 1) ls)"

text \<open>
  The initialisations: \<open>m1\<close> and \<open>m2\<close> are what the two calls of \<open>malloc\<close> return, \<open>l\<close> and the
  records hold anything.
\<close>

definition zero_globs :: "Rec_Type list \<Rightarrow> globs" where
  "zero_globs rs =
     \<lparr>Ptr_Glob = None, Next_Ptr_Glob = None, Int_Glob = 0, Bool_Glob = 0, Ch_1_Glob = 0, Ch_2_Glob = 0,
      Arr_1_Glob = replicate 50 0, Arr_2_Glob = replicate 50 (replicate 50 0), recs = rs\<rparr>"

definition dhry_init :: "nat option \<Rightarrow> nat option \<Rightarrow> Rec_Type list \<Rightarrow> locs \<Rightarrow> (locs \<times> globs) run" where
  "dhry_init m1 m2 rs l =
     (let s = (zero_globs rs)\<lparr>Next_Ptr_Glob := m1, Ptr_Glob := m2\<rparr> in
      bind_run (put_rec s (Ptr_Glob s) (\<lambda>r. r\<lparr>Ptr_Comp := Next_Ptr_Glob s, Discr := Ident_1,
        Enum_Comp := Ident_3, Int_Comp := 40, Str_Comp := str_some\<rparr>)) (\<lambda>s.
      bind_run (put_int2 (Arr_2_Glob s) 8 7 10) (\<lambda>a2.
        Done (l\<lparr>Str_1_Loc := str_1st\<rparr>, s\<lparr>Arr_2_Glob := a2\<rparr>))))"

definition dhry_main ::
    "i32 \<Rightarrow> garbage \<Rightarrow> nat option \<Rightarrow> nat option \<Rightarrow> Rec_Type list \<Rightarrow> locs \<Rightarrow> (locs \<times> globs) comp" where
  "dhry_main Number_Of_Runs g m1 m2 rs l =
     bind_comp (Some (dhry_init m1 m2 rs l)) (\<lambda>ls.
       dhry_runs g (nat (sint Number_Of_Runs)) 1 ls)"

text \<open>The figures that are printed, from the times and the instructions counted.\<close>

definition cycles_per_instruction_x1000 :: "i32 \<Rightarrow> i32 \<Rightarrow> i32" where
  "cycles_per_instruction_x1000 User_Time User_Insn = int_div (1000 * User_Time) User_Insn"

definition dhrystones_per_second_per_MHz :: "i32 \<Rightarrow> i32 \<Rightarrow> i32" where
  "dhrystones_per_second_per_MHz Number_Of_Runs User_Time = int_div (Number_Of_Runs * 1000000) User_Time"

definition dmips_per_MHz_x1000 :: "i32 \<Rightarrow> i32" where
  "dmips_per_MHz_x1000 d = int_div (1000 * d) 1757"

subsection \<open>A run\<close>

lemma func_2_first:
  "Func_2 ch str_1st str_2nd s = Some (Done (False, s))"
proof -
  have c: "str_at str_1st 2 = Done 0x52" "str_at str_2nd 3 = Done 0x59" "\<not> str_greater str_1st str_2nd"
    by code_simp+
  have "func_2_loop str_1st str_2nd 3 0x41 s = Some (Done (3, 0x41, s))"
    by (subst func_2_loop.simps) (simp add: word_sle_eq)
  then have "func_2_loop str_1st str_2nd 2 ch s = Some (Done (3, 0x41, s))"
    using c by (subst func_2_loop.simps) (simp add: word_sle_eq Func_1_def)
  then show ?thesis using c(3) by (simp add: Func_2_def)
qed

lemma seven_once:
  "Int_1_Loc l = 2 \<Longrightarrow> Int_2_Loc l = 3 \<Longrightarrow> seven_loop l = Some (l\<lparr>Int_3_Loc := 7, Int_1_Loc := 3\<rparr>)"
  by (subst seven_loop.simps, subst seven_loop.simps) (simp add: Proc_7_def)

lemma char_twice:
  assumes "Ch_2_Glob s = 0x42" "Enum_Loc l = Ident_2"
  shows "char_loop i 0x41 l s = Some (l, s)"
proof -
  have "char_loop i 0x43 l s = Some (l, s)"
    using assms by (subst char_loop.simps) simp
  then have "char_loop i 0x42 l s = Some (l, s)"
    using assms by (subst char_loop.simps) (simp add: Func_1_def)
  then show ?thesis
    using assms by (subst char_loop.simps) (simp add: Func_1_def)
qed

lemma proc_2_once: "Ch_1_Glob s = 0x41 \<Longrightarrow> Proc_2 e s r = Some (r + 9 - Int_Glob s)"
  unfolding Proc_2_def by (subst proc_2_loop.simps) simp

text \<open>The arrays have their sizes.\<close>

definition arrays_ok :: "globs \<Rightarrow> bool" where
  "arrays_ok s \<longleftrightarrow> length (Arr_1_Glob s) = 50 \<and> length (Arr_2_Glob s) = 50 \<and>
     list_all (\<lambda>row. length row = 50) (Arr_2_Glob s)"

lemma put_int2_ok:
  assumes "length a = 50" "list_all (\<lambda>row. length row = 50) a" "0 \<le>s i" "0 \<le>s j" "unat i < 50" "unat j < 50"
  shows "put_int2 a i j v = Done (a[unat i := (a ! unat i)[unat j := v]])"
  using assms by (simp add: put_int2_def get_int_def put_int_def get_at_def put_at_def list_all_length
      word_sle_eq word_sless_alt not_less)

lemma list_all_update: "list_all P xs \<Longrightarrow> P v \<Longrightarrow> list_all P (xs[k := v])"
  by (cases "k < length xs") (auto simp: list_all_length nth_list_update)

lemma proc_8_values:
  assumes "arrays_ok s"
  shows "\<exists>a1 a2. Proc_8 (Arr_1_Glob s) (Arr_2_Glob s) 3 7 s = Done (a1, a2, s\<lparr>Int_Glob := 5\<rparr>) \<and>
    arrays_ok (s\<lparr>Arr_1_Glob := a1, Arr_2_Glob := a2\<rparr>) \<and> a1 ! 8 = 7 \<and>
    a2 ! 8 ! 7 = Arr_2_Glob s ! 8 ! 7 + 1"
proof -
  let ?a = "Arr_2_Glob s"
  have len: "length (Arr_1_Glob s) = 50" "length ?a = 50" "list_all (\<lambda>row. length row = 50) ?a"
    using assms by (simp_all add: arrays_ok_def)
  then have row: "length (?a ! 8) = 50" "length (?a ! 28) = 50" by (simp_all add: list_all_length)
  show ?thesis
    using len row
    by (simp add: Proc_8_def put_int2_ok get_int_def put_int_def get_at_def put_at_def list_all_update
        word_sless_alt word_sle_eq arrays_ok_def)
qed

text \<open>The record of \<open>Ptr_Glob\<close>, at \<open>b\<close>, leads to the one of \<open>Next_Ptr_Glob\<close>, at \<open>a\<close>.\<close>

definition linked :: "nat \<Rightarrow> nat \<Rightarrow> globs \<Rightarrow> bool" where
  "linked a b s \<longleftrightarrow> a \<noteq> b \<and> a < length (recs s) \<and> b < length (recs s) \<and>
     Next_Ptr_Glob s = Some a \<and> Ptr_Glob s = Some b \<and> Ptr_Comp (recs s ! b) = Some a \<and>
     Discr (recs s ! b) = Ident_1 \<and> Enum_Comp (recs s ! b) = Ident_3 \<and> Str_Comp (recs s ! b) = str_some"

lemma rec_access:
  "a < length (recs s) \<Longrightarrow> get_rec s (Some a) = Done (recs s ! a)"
  "a < length (recs s) \<Longrightarrow> put_rec s (Some a) f = Done (s\<lparr>recs := (recs s)[a := f (recs s ! a)]\<rparr>)"
  by (simp_all add: get_rec_def put_rec_def get_at_def)

definition rec_b :: "nat \<Rightarrow> Rec_Type" where
  "rec_b a = \<lparr>Ptr_Comp = Some a, Discr = Ident_1, Enum_Comp = Ident_3, Int_Comp = 17, Str_Comp = str_some\<rparr>"

definition rec_a :: "nat \<Rightarrow> Rec_Type" where
  "rec_a a = \<lparr>Ptr_Comp = Some a, Discr = Ident_1, Enum_Comp = Ident_2, Int_Comp = 18, Str_Comp = str_some\<rparr>"

lemma proc_1_values:
  assumes "linked a b s" "Int_Glob s = 5"
  shows "Proc_1 (Some b) s = Done (s\<lparr>recs := (recs s)[b := rec_b a, a := rec_a a]\<rparr>)"
proof -
  obtain i where b: "recs s ! b =
      \<lparr>Ptr_Comp = Some a, Discr = Ident_1, Enum_Comp = Ident_3, Int_Comp = i, Str_Comp = str_some\<rparr>"
    using assms(1) by (cases "recs s ! b") (simp add: linked_def)
  have "a \<noteq> b" "a < length (recs s)" "b < length (recs s)" "Ptr_Glob s = Some b"
    using assms(1) by (simp_all add: linked_def)
  then show ?thesis
    using b assms(2)
    by (simp add: Proc_1_def Let_def rec_access Proc_3_def Proc_6_def Func_3_def Proc_7_def
        rec_a_def rec_b_def list_update_swap [of b a])
qed

subsection \<open>The final values\<close>

text \<open>The values that the program prints as those that should be.\<close>

definition should_be :: "nat \<Rightarrow> nat \<Rightarrow> i32 \<Rightarrow> locs \<times> globs \<Rightarrow> bool" where
  "should_be a b runs = (\<lambda>(l, s).
     Int_Glob s = 5 \<and> Bool_Glob s = 1 \<and> Ch_1_Glob s = of_char (CHR ''A'') \<and>
     Ch_2_Glob s = of_char (CHR ''B'') \<and> Arr_1_Glob s ! 8 = 7 \<and> Arr_2_Glob s ! 8 ! 7 = runs + 10 \<and>
     Ptr_Glob s = Some b \<and> recs s ! b = rec_b a \<and> Next_Ptr_Glob s = Some a \<and> recs s ! a = rec_a a \<and>
     Int_1_Loc l = 5 \<and> Int_2_Loc l = 13 \<and> Int_3_Loc l = 7 \<and> Enum_Loc l = Ident_2 \<and>
     Str_1_Loc l = str_1st \<and> Str_2_Loc l = str_2nd)"

definition before_run :: "nat \<Rightarrow> nat \<Rightarrow> i32 \<Rightarrow> locs \<times> globs \<Rightarrow> bool" where
  "before_run a b runs = (\<lambda>(l, s).
     linked a b s \<and> arrays_ok s \<and> Arr_2_Glob s ! 8 ! 7 = runs + 10 \<and> Str_1_Loc l = str_1st)"

lemma dhry_run_values:
  assumes "before_run a b n ls"
  shows "\<exists>ls'. dhry_run g i ls = Some (Done ls') \<and> before_run a b (n + 1) ls' \<and> should_be a b (n + 1) ls'"
proof -
  obtain l s where ls: "ls = (l, s)" by force
  let ?s1 = "(Proc_4 (Proc_5 s))\<lparr>Bool_Glob := 1\<rparr>"
  have s1: "linked a b ?s1" "arrays_ok ?s1" "Arr_2_Glob ?s1 ! 8 ! 7 = n + 10" "Str_1_Loc l = str_1st"
    using assms by (simp_all add: ls before_run_def linked_def arrays_ok_def Proc_4_def Proc_5_def Let_def)
  obtain a1 a2 where p8: "Proc_8 (Arr_1_Glob ?s1) (Arr_2_Glob ?s1) 3 7 ?s1 = Done (a1, a2, ?s1\<lparr>Int_Glob := 5\<rparr>)"
    "arrays_ok (?s1\<lparr>Arr_1_Glob := a1, Arr_2_Glob := a2\<rparr>)" "a1 ! 8 = 7" "a2 ! 8 ! 7 = n + 10 + 1"
    using proc_8_values [OF s1(2)] s1(3) by metis
  let ?s2 = "?s1\<lparr>Int_Glob := 5, Arr_1_Glob := a1, Arr_2_Glob := a2\<rparr>"
  let ?s3 = "?s2\<lparr>recs := (recs s)[b := rec_b a, a := rec_a a]\<rparr>"
  have "linked a b ?s2" "Ptr_Glob ?s1 = Some b" "recs ?s2 = recs s"
    using s1(1) by (simp_all add: linked_def Proc_4_def Proc_5_def Let_def)
  then have p1: "Proc_1 (Some b) ?s2 = Done ?s3"
    using proc_1_values [of a b ?s2] by simp
  let ?l = "l\<lparr>Int_1_Loc := 2, Int_2_Loc := 3, Str_2_Loc := str_2nd, Enum_Loc := Ident_2\<rparr>"
  let ?l1 = "?l\<lparr>Int_3_Loc := 7, Int_1_Loc := 3\<rparr>"
  have ch: "Ch_1_Glob ?s3 = 0x41" "Ch_2_Glob ?s3 = 0x42" by (simp_all add: Proc_4_def Proc_5_def Let_def)
  let ?ls = "(?l1\<lparr>Int_1_Loc := 5, Int_2_Loc := 13\<rparr>, ?s3)"
  have "dhry_run g i (l, s) = Some (Done ?ls)"
    using p8(1) p1 \<open>Ptr_Glob ?s1 = Some b\<close> s1(4) char_twice [OF ch(2), of ?l1 i] proc_2_once [OF ch(1), of "snd g" 1]
    by (simp add: dhry_run_def Let_def func_2_first seven_once int_div_def)
  moreover have "linked a b s" using assms by (simp add: ls before_run_def)
  then have "before_run a b (n + 1) ?ls" "should_be a b (n + 1) ?ls"
    using p8(2-4) s1(4)
    by (simp_all add: before_run_def should_be_def linked_def arrays_ok_def rec_a_def rec_b_def
        Proc_4_def Proc_5_def Let_def ac_simps)
  ultimately show ?thesis using ls by blast
qed

lemma dhry_runs_values:
  assumes "before_run a b n ls"
  shows "\<exists>ls'. dhry_runs g (Suc k) i ls = Some (Done ls') \<and> should_be a b (n + of_nat (Suc k)) ls'"
  using assms
proof (induction k arbitrary: n i ls)
  case 0
  then show ?case using dhry_run_values [OF 0, of g i] by auto
next
  case (Suc k)
  obtain ls1 where ls1: "dhry_run g i ls = Some (Done ls1)" "before_run a b (n + 1) ls1"
    using dhry_run_values [OF Suc.prems] by blast
  show ?case using Suc.IH [OF ls1(2), of "i + 1"] ls1(1) by (simp add: ac_simps)
qed

lemma dhry_init_values:
  assumes "a \<noteq> b" "a < length rs" "b < length rs"
  shows "\<exists>ls. dhry_init (Some a) (Some b) rs l = Done ls \<and> before_run a b 0 ls"
proof -
  let ?z = "zero_globs rs"
  have "put_int2 (replicate 50 (replicate 50 0)) 8 7 10 =
      Done ((replicate 50 (replicate 50 0))[8 := (replicate 50 0)[7 := 10]])"
    by (subst put_int2_ok) (simp_all add: list_all_length word_sle_eq)
  moreover have "list_all (\<lambda>row. length row = 50)
      ((replicate 50 (replicate 50 (0 :: i32)))[8 := (replicate 50 0)[7 := 10]])"
    by (rule list_all_update) (simp_all add: list_all_length)
  ultimately show ?thesis
    using assms
    by (simp add: dhry_init_def Let_def rec_access zero_globs_def before_run_def linked_def arrays_ok_def)
qed

lemma dhry_main_values:
  assumes "a \<noteq> b" "a < length rs" "b < length rs" "0 < sint runs"
  shows "\<exists>ls. dhry_main runs g (Some a) (Some b) rs l = Some (Done ls) \<and> should_be a b runs ls"
proof -
  obtain ls where ls: "dhry_init (Some a) (Some b) rs l = Done ls" "before_run a b 0 ls"
    using dhry_init_values [OF assms(1-3)] by blast
  obtain k where k: "nat (sint runs) = Suc k" using assms(4) by (cases "nat (sint runs)") auto
  then have "(of_nat (Suc k) :: i32) = of_int (sint runs)" using assms(4) by (metis of_nat_nat less_imp_le)
  then have "(of_nat (Suc k) :: i32) = runs" by simp
  then show ?thesis
    using dhry_runs_values [OF ls(2), of g k 1] ls(1) k by (simp add: dhry_main_def)
qed

end
