(* ===== verification/Scibase.thy ===== *)
theory Scibase
  imports Prelude
begin

text \<open>
  What the files of \<open>sw/scimark2\<close> share. The processor has no floating-point unit: every
  operation on a \<open>double\<close> is a call of the compiler's support library, which is not part of the
  repository, and so are \<open>sin\<close> and \<open>malloc\<close>. They are parameters: the record \<open>plat\<close>
  holds them, for any type \<open>'d\<close> of floating-point numbers, together with the readings of the
  cycle counter and the contents of fresh memory. \<open>array.c\<close> is here as well.
\<close>

record 'd plat =
  f_add :: "'d \<Rightarrow> 'd \<Rightarrow> 'd"
  f_sub :: "'d \<Rightarrow> 'd \<Rightarrow> 'd"
  f_mul :: "'d \<Rightarrow> 'd \<Rightarrow> 'd"
  f_div :: "'d \<Rightarrow> 'd \<Rightarrow> 'd"
  f_less :: "'d \<Rightarrow> 'd \<Rightarrow> bool"
  f_le :: "'d \<Rightarrow> 'd \<Rightarrow> bool"
  f_eq :: "'d \<Rightarrow> 'd \<Rightarrow> bool"
  f_abs :: "'d \<Rightarrow> 'd"
  f_sin :: "'d \<Rightarrow> 'd"
  f_int :: "i32 \<Rightarrow> 'd"
  f_clock :: "i32 \<Rightarrow> 'd"
  f_lit :: "int \<Rightarrow> int \<Rightarrow> 'd"
  malloc_ok :: "nat \<Rightarrow> bool"
  rdcycle :: "nat \<Rightarrow> i32"
  junk :: 'd
  junk_int :: i32

text \<open>
  \<open>f_int\<close> is the conversion of an \<open>int\<close>, \<open>f_clock\<close> that of a \<open>clock_t\<close>, \<open>f_lit m e\<close> the literal \<open>m * 10 ^ e\<close>,
  \<open>malloc_ok k\<close> tells if the call number \<open>k\<close> of \<open>malloc\<close> finds memory, \<open>rdcycle k\<close> is the
  reading number \<open>k\<close> of the counter; \<open>junk\<close> and \<open>junk_int\<close> are what fresh memory holds.
\<close>

subsection \<open>Memory\<close>

text \<open>The calls of \<open>malloc\<close> so far, the blocks in use, the readings of the counter so far.\<close>

record env =
  mallocs :: nat
  live :: nat
  reads :: nat

definition malloc :: "'d plat \<Rightarrow> env \<Rightarrow> bool \<times> env" where
  "malloc P e =
     (let ok = malloc_ok P (mallocs e)
      in (ok, e\<lparr>mallocs := mallocs e + 1, live := (if ok then live e + 1 else live e)\<rparr>))"

definition free :: "env \<Rightarrow> env" where
  "free e = e\<lparr>live := live e - 1\<rparr>"

definition free_blocks :: "nat \<Rightarrow> env \<Rightarrow> env" where
  "free_blocks n e = e\<lparr>live := live e - n\<rparr>"

text \<open>A pointer that \<open>malloc\<close> returned is dereferenced.\<close>

fun deref :: "'a option \<Rightarrow> 'a run" where
  "deref None = Fault NullPointer"
| "deref (Some x) = Done x"

text \<open>The number of turns of \<open>for (i = 0; i < n; i++)\<close>.\<close>

definition turns :: "i32 \<Rightarrow> nat" where
  "turns n = nat (sint n)"

lemma sint_nonneg: "0 \<le> sint n \<Longrightarrow> sint n = uint n" for n :: i32
proof -
  assume "0 \<le> sint n"
  then have "\<not> bit (uint n) 31"
    by (simp add: sint_uint not_less [symmetric])
  moreover have "take_bit 32 (uint n) = uint n"
    using take_bit_int_eq_self [of "uint n" 32] uint_lt2p [of n] by simp
  ultimately have "take_bit 31 (uint n) = uint n"
    using take_bit_Suc_from_most [of 31 "uint n"] by simp
  with \<open>\<not> bit (uint n) 31\<close> show ?thesis
    by (simp add: sint_uint signed_take_bit_eq_if_positive)
qed

lemma turns_eq: "0 \<le> sint n \<Longrightarrow> turns n = unat n" for n :: i32
  unfolding turns_def by (metis sint_nonneg unat_eq_nat_uint)

text \<open>\<open>/\<close> and \<open>%\<close> on an \<open>int\<close>: for the divisor 0, what the processor answers.\<close>

definition sdiv32 :: "i32 \<Rightarrow> i32 \<Rightarrow> i32" where
  "sdiv32 a b = (if b = 0 then - 1 else word_of_int (sint a sdiv sint b))"

definition smod32 :: "i32 \<Rightarrow> i32 \<Rightarrow> i32" where
  "smod32 a b = (if b = 0 then a else word_of_int (sint a smod sint b))"

lemma sint_of_int_self:
  "- (2 ^ 31) \<le> x \<Longrightarrow> x < 2 ^ 31 \<Longrightarrow> sint (word_of_int x :: i32) = x"
  by (simp add: sint_sbintrunc' signed_take_bit_int_eq_self_iff)

lemma sint_ring:
  "- (2 ^ 31) \<le> sint a + sint b \<Longrightarrow> sint a + sint b < 2 ^ 31 \<Longrightarrow> sint (a + b) = sint a + sint b"
  "- (2 ^ 31) \<le> sint a - sint b \<Longrightarrow> sint a - sint b < 2 ^ 31 \<Longrightarrow> sint (a - b) = sint a - sint b"
  "- (2 ^ 31) \<le> sint a * sint b \<Longrightarrow> sint a * sint b < 2 ^ 31 \<Longrightarrow> sint (a * b) = sint a * sint b"
  for a b :: i32
  using sint_of_int_self [of "sint a + sint b"] sint_of_int_self [of "sint a - sint b"]
    sint_of_int_self [of "sint a * sint b"] by simp_all

text \<open>On what is not negative they are the unsigned operations.\<close>

lemma sdiv_nonneg: "0 \<le> a \<Longrightarrow> 0 \<le> b \<Longrightarrow> a sdiv b = a div b" for a b :: int
  by (cases "a = 0"; cases "b = 0") (simp_all add: signed_divide_int_def sgn_if)

lemma smod_nonneg: "0 \<le> a \<Longrightarrow> 0 \<le> b \<Longrightarrow> a smod b = a mod b" for a b :: int
  by (cases "a = 0") (simp_all add: signed_modulo_int_def)

text \<open>A loop of calls that may not return.\<close>

fun repeat_comp :: "nat \<Rightarrow> ('s \<Rightarrow> 's comp) \<Rightarrow> 's \<Rightarrow> 's comp" where
  "repeat_comp 0 f s = Some (Done s)"
| "repeat_comp (Suc n) f s = bind_comp (f s) (repeat_comp n f)"

lemma repeat_comp_inv:
  "I s \<Longrightarrow> (\<And>s. I s \<Longrightarrow> \<exists>s'. f s = Some (Done s') \<and> I s') \<Longrightarrow>
     \<exists>s'. repeat_comp n f s = Some (Done s') \<and> I s'"
proof (induction n arbitrary: s)
  case (Suc n)
  obtain s1 where "f s = Some (Done s1)" "I s1" using Suc.prems by blast
  then show ?case using Suc.IH [of s1] Suc.prems(2) by simp
qed simp

subsection \<open>Elements of a matrix\<close>

text \<open>An array of pointers to rows, no two of them equal, is the list of the rows.\<close>

definition get2 :: "'a list list \<Rightarrow> nat \<Rightarrow> nat \<Rightarrow> 'a run" where
  "get2 A i j = bind_run (get_at A i) (\<lambda>row. get_at row j)"

definition put2 :: "'a list list \<Rightarrow> nat \<Rightarrow> nat \<Rightarrow> 'a \<Rightarrow> 'a list list run" where
  "put2 A i j v = bind_run (get_at A i) (\<lambda>row. bind_run (put_at row j v) (\<lambda>row. put_at A i row))"

definition shaped :: "nat \<Rightarrow> nat \<Rightarrow> 'a list list \<Rightarrow> bool" where
  "shaped m n A \<longleftrightarrow> length A = m \<and> (\<forall>row \<in> set A. length row = n)"

lemma shapedD: "shaped m n A \<Longrightarrow> length A = m" "shaped m n A \<Longrightarrow> i < m \<Longrightarrow> length (A ! i) = n"
  by (auto simp: shaped_def)

definition upd2 :: "'a list list \<Rightarrow> nat \<Rightarrow> nat \<Rightarrow> 'a \<Rightarrow> 'a list list" where
  "upd2 A i j v = A[i := (A ! i)[j := v]]"

lemma get2_eq: "shaped m n A \<Longrightarrow> i < m \<Longrightarrow> j < n \<Longrightarrow> get2 A i j = Done (A ! i ! j)"
  by (simp add: get2_def get_at_def shapedD)

lemma put2_eq: "shaped m n A \<Longrightarrow> i < m \<Longrightarrow> j < n \<Longrightarrow> put2 A i j v = Done (upd2 A i j v)"
  by (simp add: put2_def get_at_def put_at_def shapedD upd2_def)

lemma shaped_upd2 [simp]: "shaped m n A \<Longrightarrow> shaped m n (upd2 A i j v)"
  by (cases "i < length A")
    (auto simp: shaped_def upd2_def list_update_beyond dest!: set_update_subset_insert [THEN subsetD])

lemma nth_upd2:
  "shaped m n A \<Longrightarrow> i < m \<Longrightarrow> j < n \<Longrightarrow>
     upd2 A i j v ! p ! q = (if p = i \<and> q = j then v else A ! p ! q)"
  by (auto simp: upd2_def shapedD nth_list_update)

lemma shaped_swap: "shaped m n A \<Longrightarrow> i < m \<Longrightarrow> j < m \<Longrightarrow> shaped m n (A[i := A ! j, j := A ! i])"
  by (auto simp: shaped_def set_conv_nth nth_list_update)

text \<open>An element whose index is an \<open>int\<close>.\<close>

definition get_i32 :: "'a list \<Rightarrow> i32 \<Rightarrow> 'a run" where
  "get_i32 xs i = (if i <s 0 then Fault OutOfBlock else get_at xs (unat i))"

definition put_i32 :: "'a list \<Rightarrow> i32 \<Rightarrow> 'a \<Rightarrow> 'a list run" where
  "put_i32 xs i v = (if i <s 0 then Fault OutOfBlock else put_at xs (unat i) v)"

subsection \<open>\<open>array.c\<close>\<close>

text \<open>The rows are allocated: the number of the first one there is no memory for.\<close>

fun alloc_rows :: "'d plat \<Rightarrow> nat \<Rightarrow> nat \<Rightarrow> env \<Rightarrow> nat option \<times> env" where
  "alloc_rows P 0 i e = (None, e)"
| "alloc_rows P (Suc k) i e =
     (let (ok, e) = malloc P e in if ok then alloc_rows P k (Suc i) e else (Some i, e))"

text \<open>\<open>for (; i<=0; i--) free(A[i]);\<close>\<close>

function clean_up :: "int \<Rightarrow> env \<Rightarrow> env run" where
  "clean_up i e =
     (if i \<le> 0 then (if i < 0 then Fault OutOfBlock else clean_up (i - 1) (free e)) else Done e)"
  by pat_completeness auto
termination by (relation "measure (\<lambda>(i, e). nat (i + 1))") auto

definition new_Array2D_double :: "'d plat \<Rightarrow> i32 \<Rightarrow> i32 \<Rightarrow> env \<Rightarrow> ('d list list option \<times> env) run" where
  "new_Array2D_double P M N e =
     (let (ok, e) = malloc P e in
      if \<not> ok then Done (None, e)
      else case alloc_rows P (turns M) 0 e of
             (None, e) \<Rightarrow> Done (Some (replicate (turns M) (replicate (turns N) (junk P))), e)
           | (Some i, e) \<Rightarrow> bind_run (clean_up (int i - 1) e) (\<lambda>e. Done (None, free e)))"

definition Array2D_double_delete :: "i32 \<Rightarrow> i32 \<Rightarrow> 'd list list option \<Rightarrow> env \<Rightarrow> env" where
  "Array2D_double_delete M N A e = (if A = None then e else free (free_blocks (turns M) e))"

text \<open>The two loops over a row: single elements first, then four at a time.\<close>

definition copy1 :: "nat \<Rightarrow> 'a list \<Rightarrow> nat \<Rightarrow> 'a list \<Rightarrow> 'a list run" where
  "copy1 d Ai j Bi = bind_run (get_at Ai (j + d)) (\<lambda>v. put_at Bi (j + d) v)"

definition copy4 :: "'a list \<Rightarrow> nat \<Rightarrow> 'a list \<Rightarrow> 'a list run" where
  "copy4 Ai j Bi =
     bind_run (copy1 0 Ai j Bi) (\<lambda>Bi. bind_run (copy1 1 Ai j Bi) (\<lambda>Bi.
     bind_run (copy1 2 Ai j Bi) (\<lambda>Bi. copy1 3 Ai j Bi)))"

function copy_fours :: "'a list \<Rightarrow> nat \<Rightarrow> nat \<Rightarrow> 'a list \<Rightarrow> 'a list run" where
  "copy_fours Ai N j Bi =
     (if j < N then bind_run (copy4 Ai j Bi) (copy_fours Ai N (j + 4)) else Done Bi)"
  by pat_completeness auto
termination by (relation "measure (\<lambda>(Ai, N, j, Bi). N - j)") auto

definition copy_row :: "i32 \<Rightarrow> 'a list \<Rightarrow> 'a list \<Rightarrow> 'a list run" where
  "copy_row N Ai Bi =
     (let remainder = unat (N AND 3) in
      bind_run (for_each [0..<remainder] (copy1 0 Ai) Bi) (copy_fours Ai (turns N) remainder))"

definition Array2D_double_copy :: "i32 \<Rightarrow> i32 \<Rightarrow> 'a list list \<Rightarrow> 'a list list \<Rightarrow> 'a list list run" where
  "Array2D_double_copy M N B A =
     for_each [0..<turns M] (\<lambda>i B.
       bind_run (get_at B i) (\<lambda>Bi. bind_run (get_at A i) (\<lambda>Ai.
       bind_run (copy_row N Ai Bi) (put_at B i)))) B"

end
