(* ===== verification/Sciexact.thy ===== *)
theory Sciexact
  imports Complex_Main Scibase
begin

text \<open>
  Exact arithmetic as an instance of the parameters of \<open>sw/scimark2\<close>: a \<open>double\<close> is a real
  number, no operation rounds, and the sine takes the literal \<open>PI\<close> for a half turn. It tells
  what the algorithms compute apart from rounding.
\<close>

definition literal :: "int \<Rightarrow> int \<Rightarrow> real" where
  "literal m e = of_int m * 10 powi e"

definition real_plat :: "(nat \<Rightarrow> bool) \<Rightarrow> (nat \<Rightarrow> i32) \<Rightarrow> real plat" where
  "real_plat ok clk =
     \<lparr>f_add = (+), f_sub = (-), f_mul = (*), f_div = (/), f_less = (<), f_le = (\<le>), f_eq = (=),
      f_abs = abs, f_sin = (\<lambda>x. sin (x * (pi / literal 31415926535897932 (- 16)))),
      f_int = (\<lambda>k. of_int (sint k)), f_clock = (\<lambda>k. of_nat (unat k)), f_lit = literal,
      malloc_ok = ok, rdcycle = clk, junk = 0, junk_int = 0\<rparr>"

lemma literal_simps [simp]: "literal m 0 = of_int m"
  by (simp add: literal_def)

end
