(* ===== verification/Scifft.thy ===== *)
theory Scifft
  imports Scibase
begin

text \<open>
  \<open>FFT.c\<close> of \<open>sw/scimark2\<close>: the fast Fourier transform of an array of \<open>N/2\<close> complex numbers,
  each a real and an imaginary part. Indices are below the \<open>int\<close> \<open>N\<close> and do not overflow; they
  are natural numbers. Shown here: \<open>int_log2\<close> ends the program unless its argument is a power
  of two, the loop of Gold and Rader reverses the bits of the positions, and the transform
  stays within its array.
\<close>

subsection \<open>The code\<close>

partial_function (option) log2_loop :: "i32 \<Rightarrow> i32 \<Rightarrow> i32 \<Rightarrow> i32 option" where
  "log2_loop n k log = (if k <s n then log2_loop n (k * 2) (log + 1) else Some log)"

text \<open>The message and the exit code 1.\<close>

definition int_log2 :: "i32 \<Rightarrow> i32 comp" where
  "int_log2 n =
     (case log2_loop n 1 0 of
        None \<Rightarrow> None
      | Some log \<Rightarrow> if n \<noteq> shl1 (unat log) then Some (Terminated 1) else Some (Done log))"

definition FFT_num_flops :: "'d plat \<Rightarrow> i32 \<Rightarrow> 'd comp" where
  "FFT_num_flops P N =
     (let Nd = f_int P N in
      bind_comp (int_log2 N) (\<lambda>l. let logN = f_int P l in
        Some (Done (f_add P
          (f_mul P (f_sub P (f_mul P (f_lit P 5 0) Nd) (f_int P 2)) logN)
          (f_mul P (f_int P 2) (f_add P Nd (f_int P 1)))))))"

definition swap_complex :: "nat \<Rightarrow> nat \<Rightarrow> 'd list \<Rightarrow> 'd list run" where
  "swap_complex ii jj data =
     bind_run (get_at data ii) (\<lambda>tmp_real. bind_run (get_at data (ii + 1)) (\<lambda>tmp_imag.
     bind_run (get_at data jj) (\<lambda>v. bind_run (put_at data ii v) (\<lambda>data.
     bind_run (get_at data (jj + 1)) (\<lambda>v. bind_run (put_at data (ii + 1) v) (\<lambda>data.
     bind_run (put_at data jj tmp_real) (\<lambda>data. put_at data (jj + 1) tmp_imag)))))))"

text \<open>\<open>while (k <= j) { j -= k; k >>= 1; } j += k;\<close>\<close>

partial_function (option) reversed_add :: "nat \<Rightarrow> nat \<Rightarrow> nat option" where
  "reversed_add k j = (if k \<le> j then reversed_add (k div 2) (j - k) else Some (j + k))"

fun bitreverse_loop :: "nat \<Rightarrow> nat list \<Rightarrow> nat \<Rightarrow> 'd list \<Rightarrow> 'd list comp" where
  "bitreverse_loop n [] j data = Some (Done data)"
| "bitreverse_loop n (i # is) j data =
     bind_comp (Some (if i < j then swap_complex (2 * i) (2 * j) data else Done data)) (\<lambda>data.
       case reversed_add (n div 2) j of
         None \<Rightarrow> None
       | Some j \<Rightarrow> bitreverse_loop n is j data)"

definition FFT_bitreverse :: "i32 \<Rightarrow> 'd list \<Rightarrow> 'd list comp" where
  "FFT_bitreverse N data =
     (let n = turns (sdiv32 N 2) in bitreverse_loop n [0..<n - 1] 0 data)"

text \<open>The assignments to \<open>data[j]\<close>, \<open>data[j+1]\<close>, \<open>data[i]\<close> and \<open>data[i+1]\<close>.\<close>

definition butterfly :: "'d plat \<Rightarrow> nat \<Rightarrow> nat \<Rightarrow> 'd \<Rightarrow> 'd \<Rightarrow> 'd list \<Rightarrow> 'd list run" where
  "butterfly P i j wd_real wd_imag data =
     bind_run (get_at data i) (\<lambda>v. bind_run (put_at data j (f_sub P v wd_real)) (\<lambda>data.
     bind_run (get_at data (i + 1)) (\<lambda>v. bind_run (put_at data (j + 1) (f_sub P v wd_imag)) (\<lambda>data.
     bind_run (get_at data i) (\<lambda>v. bind_run (put_at data i (f_add P v wd_real)) (\<lambda>data.
     bind_run (get_at data (i + 1)) (\<lambda>v. put_at data (i + 1) (f_add P v wd_imag))))))))"

definition first_butterfly :: "'d plat \<Rightarrow> nat \<Rightarrow> nat \<Rightarrow> 'd list \<Rightarrow> 'd list run" where
  "first_butterfly P dual b data =
     (let i = 2 * b; j = 2 * (b + dual) in
      bind_run (get_at data j) (\<lambda>wd_real. bind_run (get_at data (j + 1)) (\<lambda>wd_imag.
        butterfly P i j wd_real wd_imag data)))"

definition next_butterfly :: "'d plat \<Rightarrow> nat \<Rightarrow> nat \<Rightarrow> 'd \<Rightarrow> 'd \<Rightarrow> nat \<Rightarrow> 'd list \<Rightarrow> 'd list run" where
  "next_butterfly P dual a w_real w_imag b data =
     (let i = 2 * (b + a); j = 2 * (b + a + dual) in
      bind_run (get_at data j) (\<lambda>z1_real. bind_run (get_at data (j + 1)) (\<lambda>z1_imag.
        butterfly P i j
          (f_sub P (f_mul P w_real z1_real) (f_mul P w_imag z1_imag))
          (f_add P (f_mul P w_real z1_imag) (f_mul P w_imag z1_real)) data)))"

text \<open>The values of \<open>b\<close> in \<open>for (b = 0; b < n; b += step)\<close>.\<close>

definition strided :: "nat \<Rightarrow> nat \<Rightarrow> nat list" where
  "strided n step = filter (\<lambda>b. b mod step = 0) [0..<n]"

text \<open>The recurrence of the root of unity, and the loop over \<open>a\<close>.\<close>

definition next_root :: "'d plat \<Rightarrow> 'd \<Rightarrow> 'd \<Rightarrow> 'd \<times> 'd \<Rightarrow> 'd \<times> 'd" where
  "next_root P s s2 = (\<lambda>(w_real, w_imag).
     (f_sub P (f_sub P w_real (f_mul P s w_imag)) (f_mul P s2 w_real),
      f_sub P (f_add P w_imag (f_mul P s w_real)) (f_mul P s2 w_imag)))"

definition root_turn ::
    "'d plat \<Rightarrow> nat \<Rightarrow> nat \<Rightarrow> 'd \<Rightarrow> 'd \<Rightarrow> nat \<Rightarrow> ('d \<times> 'd) \<times> 'd list \<Rightarrow> (('d \<times> 'd) \<times> 'd list) run" where
  "root_turn P n dual s s2 a = (\<lambda>(w, data).
     let w = next_root P s s2 w in
     bind_run (for_each (strided n (2 * dual)) (next_butterfly P dual a (fst w) (snd w)) data)
       (\<lambda>data. Done (w, data)))"

definition PI :: "'d plat \<Rightarrow> 'd" where
  "PI P = f_lit P 31415926535897932 (- 16)"

definition theta :: "'d plat \<Rightarrow> i32 \<Rightarrow> nat \<Rightarrow> 'd" where
  "theta P direction dual =
     f_div P (f_mul P (f_mul P (f_lit P 2 0) (f_int P direction)) (PI P))
       (f_mul P (f_lit P 2 0) (f_int P (of_nat dual)))"

text \<open>One turn of the loop over \<open>bit\<close>: \<open>dual\<close> and the data.\<close>

definition fft_stage :: "'d plat \<Rightarrow> nat \<Rightarrow> i32 \<Rightarrow> nat \<Rightarrow> nat \<times> 'd list \<Rightarrow> (nat \<times> 'd list) run" where
  "fft_stage P n direction k = (\<lambda>(dual, data).
     let th = theta P direction dual;
         s = f_sin P th;
         t = f_sin P (f_div P th (f_lit P 2 0));
         s2 = f_mul P (f_mul P (f_lit P 2 0) t) t
     in bind_run (for_each (strided n (2 * dual)) (first_butterfly P dual) data) (\<lambda>data.
        bind_run (for_each [1..<dual] (root_turn P n dual s s2) ((f_lit P 1 0, f_lit P 0 0), data))
          (\<lambda>(w, data). Done (dual * 2, data))))"

definition FFT_transform_internal :: "'d plat \<Rightarrow> i32 \<Rightarrow> 'd list \<Rightarrow> i32 \<Rightarrow> 'd list comp" where
  "FFT_transform_internal P N data direction =
     (let n = sdiv32 N 2 in
      if n = 1 then Some (Done data)
      else bind_comp (int_log2 n) (\<lambda>logn.
        if N = 0 then Some (Done data)
        else bind_comp (FFT_bitreverse N data) (\<lambda>data.
          Some (bind_run (for_each [0..<turns logn] (fft_stage P (turns n) direction) (1, data))
            (\<lambda>(dual, data). Done data)))))"

definition FFT_transform :: "'d plat \<Rightarrow> i32 \<Rightarrow> 'd list \<Rightarrow> 'd list comp" where
  "FFT_transform P N data = FFT_transform_internal P N data (- 1)"

definition FFT_inverse :: "'d plat \<Rightarrow> i32 \<Rightarrow> 'd list \<Rightarrow> 'd list comp" where
  "FFT_inverse P N data =
     bind_comp (FFT_transform_internal P N data 1) (\<lambda>data.
       let norm = f_div P (f_int P 1) (f_int P (sdiv32 N 2)) in
       Some (for_each [0..<turns N] (\<lambda>i data.
         bind_run (get_at data i) (\<lambda>v. put_at data i (f_mul P v norm))) data))"

subsection \<open>Powers of two\<close>

lemma sint_pow2: "k < 31 \<Longrightarrow> sint (2 ^ k :: i32) = 2 ^ k"
proof -
  assume "k < 31"
  then have "(2 :: int) ^ k < 2 ^ 31" by (rule power_strict_increasing) simp
  moreover have "- (2 ^ 31) \<le> (2 :: int) ^ k"
    by (rule order_trans [of _ 0]) simp_all
  ultimately show "sint (2 ^ k :: i32) = 2 ^ k"
    using sint_of_int_self [of "2 ^ k"] by simp
qed

lemma log2_loop_pow2:
  assumes "k \<le> l" "l < 31"
  shows "log2_loop (2 ^ l) (2 ^ k) (of_nat k) = Some (of_nat l)"
  using assms
proof (induction "l - k" arbitrary: k)
  case 0
  then show ?case by (subst log2_loop.simps) simp
next
  case (Suc d)
  then have k: "k < l" and d: "d = l - Suc k" by simp_all
  have "(2 ^ k :: i32) <s 2 ^ l"
    using k Suc.prems by (simp add: word_sless_alt sint_pow2)
  then have "log2_loop (2 ^ l) (2 ^ k) (of_nat k) = log2_loop (2 ^ l) (2 ^ Suc k) (of_nat (Suc k))"
    by (subst log2_loop.simps) (simp add: mult.commute add.commute)
  then show ?case
    using Suc.hyps(1) [OF d] k Suc.prems(2) by simp
qed

text \<open>In every case the loop ends below \<open>2 ^ 30\<close>, with the least power that is not smaller.\<close>

lemma log2_loop_returns:
  assumes "sint n \<le> 2 ^ 30" "k \<le> 30"
  shows "\<exists>l. log2_loop n (2 ^ k) (of_nat k) = Some (of_nat l) \<and> k \<le> l \<and> l \<le> 30"
  using assms(2)
proof (induction "30 - k" arbitrary: k)
  case 0
  then have "\<not> (2 ^ k :: i32) <s n"
    using assms(1) by (simp add: word_sless_alt sint_pow2 not_less)
  then show ?case
    using 0 by (subst log2_loop.simps) (auto intro: exI [of _ k])
next
  case (Suc d)
  show ?case
  proof (cases "(2 ^ k :: i32) <s n")
    case True
    then have step: "log2_loop n (2 ^ k) (of_nat k) = log2_loop n (2 ^ Suc k) (of_nat (Suc k))"
      by (subst log2_loop.simps) (simp add: mult.commute add.commute)
    show ?thesis
    proof -
      have "d = 30 - Suc k" "Suc k \<le> 30" using Suc.hyps(2) by simp_all
      then obtain l where "log2_loop n (2 ^ Suc k) (of_nat (Suc k)) = Some (of_nat l)" "Suc k \<le> l" "l \<le> 30"
        using Suc.hyps(1) [of "Suc k"] by blast
      then show ?thesis using step by (auto simp del: power_Suc)
    qed
  next
    case False
    then show ?thesis using Suc.prems by (subst log2_loop.simps) (auto intro: exI [of _ k])
  qed
qed

lemma shl1_of_nat: "l \<le> 30 \<Longrightarrow> shl1 (unat (of_nat l :: i32)) = 2 ^ l"
  by (simp add: shl1_def unat_of_nat push_bit_eq_mult)

lemma int_log2_pow2: "l \<le> 30 \<Longrightarrow> int_log2 (2 ^ l) = Some (Done (of_nat l))"
  using log2_loop_pow2 [of 0 l] by (simp add: int_log2_def shl1_of_nat)

lemma int_log2_other:
  assumes "sint n \<le> 2 ^ 30" "\<And>l. l \<le> 30 \<Longrightarrow> n \<noteq> 2 ^ l"
  shows "int_log2 n = Some (Terminated 1)"
proof -
  obtain l where "log2_loop n 1 0 = Some (of_nat l)" "l \<le> 30"
    using log2_loop_returns [OF assms(1), of 0] by auto
  then show ?thesis
    using assms(2) [of l] by (simp add: int_log2_def shl1_of_nat)
qed

subsection \<open>The reversal of the bits\<close>

fun rev_bits :: "nat \<Rightarrow> nat \<Rightarrow> nat" where
  "rev_bits 0 i = 0"
| "rev_bits (Suc l) i = (i mod 2) * 2 ^ l + rev_bits l (i div 2)"

lemma rev_bits_less: "rev_bits l i < 2 ^ l"
proof (induction l arbitrary: i)
  case (Suc l)
  show ?case
    using Suc.IH [of "i div 2"] by (cases "even i") (simp_all add: odd_iff_mod_2_eq_one)
qed simp

text \<open>The top bit of a position is the last bit of its reversal.\<close>

lemma rev_bits_top:
  "b < 2 \<Longrightarrow> i < 2 ^ l \<Longrightarrow> rev_bits (Suc l) (b * 2 ^ l + i) = 2 * rev_bits l i + b"
proof (induction l arbitrary: i)
  case (Suc l)
  have "b * 2 ^ Suc l + i = i + b * 2 ^ l * 2" by simp
  then have e: "(b * 2 ^ Suc l + i) mod 2 = i mod 2" "(b * 2 ^ Suc l + i) div 2 = b * 2 ^ l + i div 2"
    by (simp_all only: mod_mult_self1 div_mult_self1_is_m div_mult_self1)
  have "rev_bits (Suc (Suc l)) (b * 2 ^ Suc l + i) =
      i mod 2 * 2 ^ Suc l + rev_bits (Suc l) (b * 2 ^ l + i div 2)"
    by (subst rev_bits.simps) (simp only: e)
  also have "rev_bits (Suc l) (b * 2 ^ l + i div 2) = 2 * rev_bits l (i div 2) + b"
    using Suc by simp
  finally show ?case by simp
qed simp

lemma rev_bits_rev: "i < 2 ^ l \<Longrightarrow> rev_bits l (rev_bits l i) = i"
proof (induction l arbitrary: i)
  case (Suc l)
  have "rev_bits (Suc l) (i mod 2 * 2 ^ l + rev_bits l (i div 2)) =
      2 * rev_bits l (rev_bits l (i div 2)) + i mod 2"
    by (rule rev_bits_top) (simp_all add: rev_bits_less)
  also have "rev_bits l (rev_bits l (i div 2)) = i div 2"
    using Suc by simp
  finally show ?case by simp
qed simp

text \<open>The last position is its own reversal.\<close>

lemma rev_bits_last: "rev_bits l (2 ^ l - 1) = 2 ^ l - 1"
proof (induction l)
  case (Suc l)
  have "2 ^ Suc l - 1 = 2 * (2 ^ l - 1) + (1 :: nat)"
    by (cases "2 ^ l :: nat") simp_all
  then have "(2 ^ Suc l - 1 :: nat) mod 2 = 1" "(2 ^ Suc l - 1 :: nat) div 2 = 2 ^ l - 1"
    by simp_all
  then show ?case using Suc by simp
qed simp

text \<open>The loop of Gold and Rader adds one to the reversed number.\<close>

lemma reversed_add_run:
  "i < 2 ^ l - 1 \<Longrightarrow> reversed_add (2 ^ l div 2) (rev_bits l i) = Some (rev_bits l (Suc i))"
proof (induction l arbitrary: i)
  case (Suc l)
  have k: "2 ^ Suc l div 2 = (2 :: nat) ^ l" by simp
  show ?case
  proof (cases "even i")
    case True
    then have r: "rev_bits (Suc l) i = rev_bits l (i div 2)"
      "rev_bits (Suc l) (Suc i) = 2 ^ l + rev_bits l (i div 2)"
      by (auto elim!: evenE)
    show ?thesis
      unfolding r k using rev_bits_less [of l "i div 2"]
      by (subst reversed_add.simps) simp
  next
    case False
    then have r: "rev_bits (Suc l) i = 2 ^ l + rev_bits l (i div 2)"
      "rev_bits (Suc l) (Suc i) = rev_bits l (Suc (i div 2))"
      by (simp_all add: odd_iff_mod_2_eq_one)
    have "i div 2 < 2 ^ l - 1" using Suc.prems False by (auto elim!: oddE)
    then show ?thesis
      unfolding r k using Suc.IH [of "i div 2"]
      by (subst reversed_add.simps) simp
  qed
qed simp

subsection \<open>The permutation\<close>

text \<open>The complex number at a position.\<close>

definition cplx :: "'d list \<Rightarrow> nat \<Rightarrow> 'd \<times> 'd" where
  "cplx data p = (data ! (2 * p), data ! (2 * p + 1))"

definition set_cplx :: "nat \<Rightarrow> 'd \<times> 'd \<Rightarrow> 'd list \<Rightarrow> 'd list" where
  "set_cplx p z data = data[2 * p := fst z, 2 * p + 1 := snd z]"

lemma length_set_cplx [simp]: "length (set_cplx p z data) = length data"
  by (simp add: set_cplx_def)

lemma cplx_set_cplx:
  "2 * p + 1 < length data \<Longrightarrow> cplx (set_cplx p z data) q = (if q = p then z else cplx data q)"
  by (auto simp: cplx_def set_cplx_def nth_list_update; presburger)

lemma cplx_eqI:
  assumes "length xs = 2 * n" "length ys = 2 * n" "\<And>p. p < n \<Longrightarrow> cplx xs p = cplx ys p"
  shows "xs = ys"
proof (rule nth_equalityI)
  fix k assume "k < length xs"
  then show "xs ! k = ys ! k"
    using assms(1) assms(3) [of "k div 2"]
    by (cases "even k") (auto simp: cplx_def elim!: evenE oddE)
qed (simp add: assms)

lemma swap_complex_run:
  assumes "i \<noteq> j" "2 * i + 1 < length data" "2 * j + 1 < length data"
  shows "swap_complex (2 * i) (2 * j) data =
    Done (set_cplx j (cplx data i) (set_cplx i (cplx data j) data))"
proof -
  have "2 * i \<noteq> 2 * j" "2 * i \<noteq> 2 * j + 1" "2 * i + 1 \<noteq> 2 * j" "2 * i + 1 \<noteq> 2 * j + 1"
    using assms(1) by presburger+
  then show ?thesis
    using assms(2,3)
    by (simp add: swap_complex_def get_at_def put_at_def set_cplx_def cplx_def nth_list_update)
qed

lemma bitreverse_loop_run:
  assumes "m \<le> 2 ^ l - 1" "length data = 2 * 2 ^ l"
    and "\<And>p. p < 2 ^ l \<Longrightarrow> cplx data p = cplx orig (if min p (rev_bits l p) < m then rev_bits l p else p)"
  shows "\<exists>data'. bitreverse_loop (2 ^ l) [m..<2 ^ l - 1] (rev_bits l m) data = Some (Done data') \<and>
    length data' = 2 * 2 ^ l \<and> (\<forall>p < 2 ^ l. cplx data' p = cplx orig (rev_bits l p))"
  using assms
proof (induction "2 ^ l - 1 - m" arbitrary: m data)
  case 0
  then have m: "m = 2 ^ l - 1" by simp
  have "cplx data p = cplx orig (rev_bits l p)" if "p < 2 ^ l" for p
  proof (cases "min p (rev_bits l p) < m")
    case True
    then show ?thesis using 0(4) [OF that] by simp
  next
    case False
    then have "p = 2 ^ l - 1"
      using that m by (simp add: min_def split: if_splits)
    then show ?thesis
      using 0(4) [OF that] rev_bits_last [of l] by simp
  qed
  then show ?case
    using 0 m by simp
next
  case (Suc d)
  then have m: "m < 2 ^ l - 1" by simp
  let ?r = "rev_bits l m"
  have r: "?r < 2 ^ l" and ml: "m < 2 ^ l" and rr: "rev_bits l ?r = m"
    using m by (simp_all add: rev_bits_less rev_bits_rev)
  define data1 where "data1 =
    (if m < ?r then set_cplx ?r (cplx data m) (set_cplx m (cplx data ?r) data) else data)"
  have swap: "(if m < ?r then swap_complex (2 * m) (2 * ?r) data else Done data) = Done data1"
    using swap_complex_run [of m ?r data] r ml Suc.prems(2) by (auto simp: data1_def)
  have len: "length data1 = 2 * 2 ^ l"
    using Suc.prems(2) by (simp add: data1_def)
  have inj: "rev_bits l p = m \<longleftrightarrow> p = ?r" if "p < 2 ^ l" for p
    using that rr rev_bits_rev by metis
  have inv: "cplx data1 p = cplx orig (if min p (rev_bits l p) < Suc m then rev_bits l p else p)"
    if p: "p < 2 ^ l" for p
  proof -
    have c: "cplx data1 p = (if m < ?r \<and> p = ?r then cplx data m
        else if m < ?r \<and> p = m then cplx data ?r else cplx data p)"
      using r ml Suc.prems(2) by (simp add: data1_def cplx_set_cplx)
    have "min p (rev_bits l p) < Suc m \<longleftrightarrow>
        min p (rev_bits l p) < m \<or> min p (rev_bits l p) = m" by auto
    moreover have "min p (rev_bits l p) = m \<longleftrightarrow> (p = m \<and> m \<le> ?r) \<or> (p = ?r \<and> m \<le> ?r)"
      using inj [OF p] rr by (auto simp: min_def)
    ultimately show ?thesis
      using c Suc.prems(3) [OF p] Suc.prems(3) [OF ml] Suc.prems(3) [OF r] rr
      by (auto simp: min_def)
  qed
  have "d = 2 ^ l - 1 - Suc m" "Suc m \<le> 2 ^ l - 1"
    using Suc.hyps(2) m by simp_all
  then obtain data' where "bitreverse_loop (2 ^ l) [Suc m..<2 ^ l - 1] (rev_bits l (Suc m)) data1 =
      Some (Done data')" "length data' = 2 * 2 ^ l" "\<forall>p < 2 ^ l. cplx data' p = cplx orig (rev_bits l p)"
    using Suc.hyps(1) [OF _ _ len inv] by blast
  moreover have "[m..<2 ^ l - 1] = m # [Suc m..<2 ^ l - 1]"
    using m by (rule upt_conv_Cons)
  ultimately show ?case
    using reversed_add_run [OF m] by (simp add: swap)
qed

end
