(* ===== verification/Sciflow.thy ===== *)
theory Sciflow
  imports Scifft
begin

text \<open>
  What \<open>FFT_transform\<close> computes: the recursive transform of Cooley and Tukey, with every
  addition and multiplication on the same operands and in the same order. Nothing is assumed
  of the arithmetic, so the equality includes all rounding.
\<close>

subsection \<open>The recursive transform\<close>

definition cadd :: "'d plat \<Rightarrow> 'd \<times> 'd \<Rightarrow> 'd \<times> 'd \<Rightarrow> 'd \<times> 'd" where
  "cadd P z w = (f_add P (fst z) (fst w), f_add P (snd z) (snd w))"

definition csub :: "'d plat \<Rightarrow> 'd \<times> 'd \<Rightarrow> 'd \<times> 'd \<Rightarrow> 'd \<times> 'd" where
  "csub P z w = (f_sub P (fst z) (fst w), f_sub P (snd z) (snd w))"

definition cmul :: "'d plat \<Rightarrow> 'd \<times> 'd \<Rightarrow> 'd \<times> 'd \<Rightarrow> 'd \<times> 'd" where
  "cmul P w z =
     (f_sub P (f_mul P (fst w) (fst z)) (f_mul P (snd w) (snd z)),
      f_add P (f_mul P (fst w) (snd z)) (f_mul P (snd w) (fst z)))"

text \<open>The powers of the root of unity, as the recurrence computes them.\<close>

definition stage_root :: "'d plat \<Rightarrow> i32 \<Rightarrow> nat \<Rightarrow> 'd \<times> 'd \<Rightarrow> 'd \<times> 'd" where
  "stage_root P direction dual =
     (let th = theta P direction dual; t = f_sin P (f_div P th (f_lit P 2 0))
      in next_root P (f_sin P th) (f_mul P (f_mul P (f_lit P 2 0) t) t))"

definition root_power :: "'d plat \<Rightarrow> i32 \<Rightarrow> nat \<Rightarrow> nat \<Rightarrow> 'd \<times> 'd" where
  "root_power P direction dual a = (stage_root P direction dual ^^ a) (f_lit P 1 0, f_lit P 0 0)"

definition twiddle :: "'d plat \<Rightarrow> i32 \<Rightarrow> nat \<Rightarrow> nat \<Rightarrow> 'd \<times> 'd \<Rightarrow> 'd \<times> 'd" where
  "twiddle P direction dual a z = (if a = 0 then z else cmul P (root_power P direction dual a) z)"

fun cooley_tukey :: "'d plat \<Rightarrow> i32 \<Rightarrow> nat \<Rightarrow> (nat \<Rightarrow> 'd \<times> 'd) \<Rightarrow> nat \<Rightarrow> 'd \<times> 'd" where
  "cooley_tukey P direction 0 x p = x 0"
| "cooley_tukey P direction (Suc l) x p =
     (let e = cooley_tukey P direction l (\<lambda>t. x (2 * t));
          d = cooley_tukey P direction l (\<lambda>t. x (2 * t + 1));
          h = 2 ^ l
      in if p < h then cadd P (e p) (twiddle P direction h p (d p))
         else csub P (e (p - h)) (twiddle P direction h (p - h) (d (p - h))))"

subsection \<open>One stage\<close>

text \<open>The pair of positions at \<open>p\<close> and \<open>q\<close>: \<open>w\<close> is the second number after its twiddle.\<close>

definition paired :: "'d plat \<Rightarrow> nat \<Rightarrow> nat \<Rightarrow> 'd \<times> 'd \<Rightarrow> 'd list \<Rightarrow> 'd list" where
  "paired P p q w data =
     set_cplx p (cadd P (cplx data p) w) (set_cplx q (csub P (cplx data p) w) data)"

lemma butterfly_run:
  assumes "p \<noteq> q" "2 * p + 1 < length data" "2 * q + 1 < length data"
  shows "butterfly P (2 * p) (2 * q) (fst w) (snd w) data = Done (paired P p q w data)"
proof -
  have "2 * p \<noteq> 2 * q" "2 * p \<noteq> 2 * q + 1" "2 * p + 1 \<noteq> 2 * q" "2 * p + 1 \<noteq> 2 * q + 1"
    using assms(1) by presburger+
  then show ?thesis
    using assms(2,3)
    by (simp add: butterfly_def get_at_def put_at_def paired_def set_cplx_def cplx_def cadd_def
        csub_def nth_list_update list_update_swap)
qed

lemma first_butterfly_run:
  assumes "0 < dual" "2 * (b + dual) + 1 < length data"
  shows "first_butterfly P dual b data = Done (paired P b (b + dual) (cplx data (b + dual)) data)"
  using butterfly_run [of b "b + dual" data P "cplx data (b + dual)"] assms
  by (simp add: first_butterfly_def get_at_def cplx_def Let_def)

lemma next_butterfly_run:
  assumes "0 < dual" "2 * (b + a + dual) + 1 < length data"
  shows "next_butterfly P dual a (fst w) (snd w) b data =
    Done (paired P (b + a) (b + a + dual) (cmul P w (cplx data (b + a + dual))) data)"
  using butterfly_run [of "b + a" "b + a + dual" data P "cmul P w (cplx data (b + a + dual))"] assms
  by (simp add: next_butterfly_def get_at_def cplx_def cmul_def Let_def)

text \<open>What a stage with \<open>dual\<close> makes of the numbers \<open>z\<close>, where \<open>t\<close> is the twiddle.\<close>

definition crossed :: "'d plat \<Rightarrow> nat \<Rightarrow> (nat \<Rightarrow> 'd \<times> 'd \<Rightarrow> 'd \<times> 'd) \<Rightarrow> (nat \<Rightarrow> 'd \<times> 'd) \<Rightarrow> nat \<Rightarrow> 'd \<times> 'd" where
  "crossed P dual t z p =
     (if p mod (2 * dual) < dual then cadd P (z p) (t (p mod dual) (z (p + dual)))
      else csub P (z (p - dual)) (t (p mod dual) (z p)))"

definition block_start :: "nat \<Rightarrow> nat \<Rightarrow> nat" where
  "block_start dual p = p - p mod (2 * dual)"

lemma block_position:
  assumes "b mod (2 * dual) = 0" "a < dual"
  shows "p mod dual = a \<and> block_start dual p = b \<longleftrightarrow> p = b + a \<or> p = b + a + dual"
    and "(b + a) mod (2 * dual) = a" "(b + a + dual) mod (2 * dual) = a + dual"
    and "(b + a) mod dual = a" "(b + a + dual) mod dual = a"
proof -
  obtain c where "b = 2 * dual * c" using assms(1) by (meson dvdE mod_0_imp_dvd)
  then have b: "b = c * (2 * dual)" by (simp only: mult.commute)
  show m: "(b + a) mod (2 * dual) = a" "(b + a + dual) mod (2 * dual) = a + dual"
    using assms(2) mod_mult_self3 [of c "2 * dual" a] mod_mult_self3 [of c "2 * dual" "a + dual"]
    by (simp_all add: b add.assoc)
  show d: "(b + a) mod dual = a" "(b + a + dual) mod dual = a"
    using assms(2) mod_mult_self3 [of "c * 2" dual a] by (simp_all add: b mult.assoc)
  show "p mod dual = a \<and> block_start dual p = b \<longleftrightarrow> p = b + a \<or> p = b + a + dual"
  proof
    assume l: "p mod dual = a \<and> block_start dual p = b"
    define r where "r = p mod (2 * dual)"
    have p: "p = b + r"
      using l mod_less_eq_dividend [of p "2 * dual"] unfolding block_start_def r_def by linarith
    have "r < 2 * dual" using assms(2) by (simp add: r_def)
    moreover have "r mod dual = a"
      using l mod_mult_self3 [of "c * 2" dual r] by (simp add: p b mult.assoc)
    ultimately have "r = a \<or> r = a + dual"
      by (cases "r < dual") (auto simp: mod_if [of r] not_less)
    then show "p = b + a \<or> p = b + a + dual" using p by auto
  next
    assume "p = b + a \<or> p = b + a + dual"
    then show "p mod dual = a \<and> block_start dual p = b"
      using m d by (auto simp: block_start_def)
  qed
qed

lemma cross_row:
  assumes a: "a < dual"
    and bs: "distinct bs" "\<And>b. b \<in> set bs \<Longrightarrow> b mod (2 * dual) = 0 \<and> b + 2 * dual \<le> n"
    and len: "length data = 2 * n"
    and step: "\<And>b data. length data = 2 * n \<Longrightarrow> b + 2 * dual \<le> n \<Longrightarrow>
      f b data = Done (paired P (b + a) (b + a + dual) (t a (cplx data (b + a + dual))) data)"
  shows "\<exists>data'. for_each bs f data = Done data' \<and> length data' = 2 * n \<and>
    (\<forall>p < n. cplx data' p = (if p mod dual = a \<and> block_start dual p \<in> set bs
       then crossed P dual t (cplx data) p else cplx data p))"
  using bs
proof (induction bs rule: rev_induct)
  case Nil
  then show ?case using len by simp
next
  case (snoc b bs)
  then obtain data1 where 1: "for_each bs f data = Done data1" "length data1 = 2 * n"
    and z: "\<And>p. p < n \<Longrightarrow> cplx data1 p = (if p mod dual = a \<and> block_start dual p \<in> set bs
       then crossed P dual t (cplx data) p else cplx data p)"
    by auto
  have b: "b mod (2 * dual) = 0" "b + 2 * dual \<le> n" "b \<notin> set bs"
    using snoc.prems by auto
  note pos = block_position [OF b(1) a]
  have start: "block_start dual (b + a) = b" "block_start dual (b + a + dual) = b"
    using pos(1) by blast+
  have lt: "b + a < n" "b + a + dual < n" using b(2) a by simp_all
  define w where "w = t a (cplx data (b + a + dual))"
  have same: "cplx data1 (b + a) = cplx data (b + a)"
    "cplx data1 (b + a + dual) = cplx data (b + a + dual)"
    using z [OF lt(1)] z [OF lt(2)] b(3) by (simp_all add: start)
  define data2 where "data2 = paired P (b + a) (b + a + dual) w data1"
  have "f b data1 = Done data2"
    using step [OF 1(2) b(2)] by (simp add: data2_def w_def same)
  then have run: "for_each (bs @ [b]) f data = Done data2"
    using 1(1) by (simp add: for_each_append)
  have len2: "length data2 = 2 * n"
    using 1(2) by (simp add: data2_def paired_def)
  have "cplx data2 p = (if p mod dual = a \<and> block_start dual p \<in> set (bs @ [b])
       then crossed P dual t (cplx data) p else cplx data p)" if p: "p < n" for p
  proof -
    have c: "cplx data2 p = (if p = b + a then cadd P (cplx data (b + a)) w
        else if p = b + a + dual then csub P (cplx data (b + a)) w else cplx data1 p)"
      using lt 1(2) a by (simp add: data2_def paired_def cplx_set_cplx same)
    show ?thesis
    proof (cases "p = b + a \<or> p = b + a + dual")
      case True
      then show ?thesis
        using c pos start a by (auto simp: crossed_def w_def)
    next
      case False
      then have "\<not> (p mod dual = a \<and> block_start dual p = b)" using pos(1) by blast
      then show ?thesis
        using c z [OF p] False by auto
    qed
  qed
  then show ?case using run len2 by blast
qed

lemma strided_positions:
  assumes "0 < dual" "2 * dual dvd n"
  shows "distinct (strided n (2 * dual))"
    and "b \<in> set (strided n (2 * dual)) \<Longrightarrow> b mod (2 * dual) = 0 \<and> b + 2 * dual \<le> n"
    and "p < n \<Longrightarrow> block_start dual p \<in> set (strided n (2 * dual))"
proof -
  show "distinct (strided n (2 * dual))" by (simp add: strided_def)
  show "b mod (2 * dual) = 0 \<and> b + 2 * dual \<le> n" if "b \<in> set (strided n (2 * dual))"
  proof -
    have b: "b < n" "2 * dual dvd b" using that by (auto simp: strided_def)
    then have "2 * dual dvd n - b" using assms(2) by (simp add: dvd_diff_nat)
    then have "2 * dual \<le> n - b" using b(1) by (intro dvd_imp_le) simp_all
    then show ?thesis using b by auto
  qed
  have "block_start dual p mod (2 * dual) = 0"
    by (metis block_start_def dvd_imp_mod_0 dvd_minus_mod)
  then show "p < n \<Longrightarrow> block_start dual p \<in> set (strided n (2 * dual))"
    by (simp add: strided_def block_start_def)
qed

lemma crossed_cong:
  assumes "0 < dual" "2 * dual dvd n" "p < n"
    and "\<And>q. q < n \<Longrightarrow> q mod dual = p mod dual \<Longrightarrow> z q = z' q"
  shows "crossed P dual t z p = crossed P dual t z' p"
proof (cases "p mod (2 * dual) < dual")
  case True
  have "p = block_start dual p + p mod (2 * dual)" by (simp add: block_start_def)
  moreover have "block_start dual p + 2 * dual \<le> n"
    using strided_positions(2) [OF assms(1,2) strided_positions(3) [OF assms(1-3)]] by simp
  ultimately have "p + dual < n" using True by linarith
  then show ?thesis using True assms(3,4) by (simp add: crossed_def)
next
  case False
  then have "dual \<le> p" using mod_less_eq_dividend [of p "2 * dual"] by linarith
  moreover from this have "(p - dual) mod dual = p mod dual" by (simp add: le_mod_geq)
  ultimately show ?thesis using False assms(1,3,4) by (simp add: crossed_def)
qed

lemma root_turn_run:
  assumes a: "0 < a" "a < dual" and n: "2 * dual dvd n" and len: "length data = 2 * n"
    and w: "w = root_power P direction dual (a - 1)"
    and th: "th = theta P direction dual"
  shows "\<exists>data'. root_turn P n dual (f_sin P th)
      (f_mul P (f_mul P (f_lit P 2 0) (f_sin P (f_div P th (f_lit P 2 0)))) (f_sin P (f_div P th (f_lit P 2 0))))
      a (w, data) = Done (root_power P direction dual a, data') \<and> length data' = 2 * n \<and>
    (\<forall>p < n. cplx data' p = (if p mod dual = a
       then crossed P dual (twiddle P direction dual) (cplx data) p else cplx data p))"
proof -
  have nxt: "next_root P (f_sin P th)
      (f_mul P (f_mul P (f_lit P 2 0) (f_sin P (f_div P th (f_lit P 2 0)))) (f_sin P (f_div P th (f_lit P 2 0)))) w =
      root_power P direction dual a"
    using a(1) by (cases a) (simp_all add: w th root_power_def stage_root_def Let_def)
  have d: "0 < dual" using a by simp
  let ?w = "root_power P direction dual a"
  have "\<exists>data'. for_each (strided n (2 * dual)) (next_butterfly P dual a (fst ?w) (snd ?w)) data = Done data' \<and>
      length data' = 2 * n \<and>
      (\<forall>p < n. cplx data' p = (if p mod dual = a \<and> block_start dual p \<in> set (strided n (2 * dual))
         then crossed P dual (twiddle P direction dual) (cplx data) p else cplx data p))"
  proof (rule cross_row [OF a(2) strided_positions(1) [OF d n] strided_positions(2) [OF d n] len])
    fix b :: nat and data :: "'a list" assume "length data = 2 * n" "b + 2 * dual \<le> n"
    then show "next_butterfly P dual a (fst ?w) (snd ?w) b data = Done (paired P (b + a) (b + a + dual)
        (twiddle P direction dual a (cplx data (b + a + dual))) data)"
      using next_butterfly_run [OF d, of b a data P ?w] a by (simp add: twiddle_def)
  qed
  then show ?thesis
    using strided_positions(3) [OF d n] by (auto simp: root_turn_def Let_def nxt)
qed

lemma fft_stage_run:
  assumes d: "0 < dual" and n: "2 * dual dvd n" and len: "length data = 2 * n"
  shows "\<exists>data'. fft_stage P n direction k (dual, data) = Done (dual * 2, data') \<and> length data' = 2 * n \<and>
    (\<forall>p < n. cplx data' p = crossed P dual (twiddle P direction dual) (cplx data) p)"
proof -
  let ?c = "crossed P dual (twiddle P direction dual)"
  define th where "th = theta P direction dual"
  define s2 where "s2 = f_mul P (f_mul P (f_lit P 2 0) (f_sin P (f_div P th (f_lit P 2 0))))
    (f_sin P (f_div P th (f_lit P 2 0)))"
  have "\<exists>data'. for_each (strided n (2 * dual)) (first_butterfly P dual) data = Done data' \<and>
      length data' = 2 * n \<and>
      (\<forall>p < n. cplx data' p = (if p mod dual = 0 \<and> block_start dual p \<in> set (strided n (2 * dual))
         then ?c (cplx data) p else cplx data p))"
  proof (rule cross_row [OF d strided_positions(1) [OF d n] strided_positions(2) [OF d n] len])
    fix b :: nat and data :: "'a list" assume "length data = 2 * n" "b + 2 * dual \<le> n"
    then show "first_butterfly P dual b data = Done (paired P (b + 0) (b + 0 + dual)
        (twiddle P direction dual 0 (cplx data (b + 0 + dual))) data)"
      using first_butterfly_run [OF d, of b data P] d by (simp add: twiddle_def)
  qed
  then obtain data1 where 1: "for_each (strided n (2 * dual)) (first_butterfly P dual) data = Done data1"
    "length data1 = 2 * n"
    "\<And>p. p < n \<Longrightarrow> cplx data1 p = (if p mod dual < 1 then ?c (cplx data) p else cplx data p)"
    using strided_positions(3) [OF d n] by auto
  define I where "I = (\<lambda>a (w, data'). w = root_power P direction dual (a - 1) \<and> length data' = 2 * n \<and>
    (\<forall>p < n. cplx data' p = (if p mod dual < a then ?c (cplx data) p else cplx data p)))"
  have "\<exists>s. for_each [1..<dual] (root_turn P n dual (f_sin P th) s2) ((f_lit P 1 0, f_lit P 0 0), data1) =
      Done s \<and> I dual s"
  proof (rule for_each_inv)
    show "I 1 ((f_lit P 1 0, f_lit P 0 0), data1)"
      using 1(2,3) by (simp add: I_def root_power_def)
    fix a and s :: "('a \<times> 'a) \<times> 'a list" assume a: "1 \<le> a" "a < dual" and I: "I a s"
    obtain w data2 where s: "s = (w, data2)" by (cases s)
    have 2: "length data2 = 2 * n" "w = root_power P direction dual (a - 1)"
      and z: "\<And>p. p < n \<Longrightarrow> cplx data2 p = (if p mod dual < a then ?c (cplx data) p else cplx data p)"
      using I by (auto simp: I_def s)
    obtain data3 where 3: "root_turn P n dual (f_sin P th) s2 a s = Done (root_power P direction dual a, data3)"
      "length data3 = 2 * n"
      "\<And>p. p < n \<Longrightarrow> cplx data3 p = (if p mod dual = a then ?c (cplx data2) p else cplx data2 p)"
      using root_turn_run [OF _ a(2) n 2 th_def] a(1) by (auto simp: s s2_def)
    have "?c (cplx data2) p = ?c (cplx data) p" if "p < n" "p mod dual = a" for p
      by (rule crossed_cong [OF d n that(1)]) (simp add: z that(2))
    then have "I (Suc a) (root_power P direction dual a, data3)"
      using 3(2,3) z by (auto simp: I_def less_Suc_eq)
    then show "\<exists>s'. root_turn P n dual (f_sin P th) s2 a s = Done s' \<and> I (Suc a) s'"
      using 3(1) by blast
  qed (use d in simp)
  then obtain w data2 where "for_each [1..<dual] (root_turn P n dual (f_sin P th) s2)
      ((f_lit P 1 0, f_lit P 0 0), data1) = Done (w, data2)" "I dual (w, data2)"
    by (metis surj_pair)
  then show ?thesis
    using 1(1) d by (auto simp: fft_stage_def Let_def I_def simp flip: th_def s2_def)
qed

subsection \<open>All stages\<close>

text \<open>The subsequence that the block number \<open>q\<close> is the transform of after \<open>k\<close> stages.\<close>

definition subsequence :: "nat \<Rightarrow> nat \<Rightarrow> (nat \<Rightarrow> 'c) \<Rightarrow> nat \<Rightarrow> nat \<Rightarrow> 'c" where
  "subsequence l k x q = (\<lambda>t. x (rev_bits (l - k) q + t * 2 ^ (l - k)))"

lemma subsequence_halves:
  assumes "k < l"
  shows "(\<lambda>t. subsequence l (Suc k) x q (2 * t)) = subsequence l k x (2 * q)"
    and "(\<lambda>t. subsequence l (Suc k) x q (2 * t + 1)) = subsequence l k x (2 * q + 1)"
proof -
  obtain d where d: "l - k = Suc d" "l - Suc k = d"
    using assms by (metis Suc_diff_Suc)
  have rev: "rev_bits (Suc d) (2 * q) = rev_bits d q" "rev_bits (Suc d) (Suc (2 * q)) = 2 ^ d + rev_bits d q"
    by simp_all
  show "(\<lambda>t. subsequence l (Suc k) x q (2 * t)) = subsequence l k x (2 * q)"
    "(\<lambda>t. subsequence l (Suc k) x q (2 * t + 1)) = subsequence l k x (2 * q + 1)"
    using rev by (simp_all add: subsequence_def d del: rev_bits.simps)
      (simp_all add: ac_simps)
qed

lemma stage_result:
  assumes k: "k < l" and pos: "q < 2 ^ (l - Suc k)" "a < 2 ^ Suc k"
    and z: "\<And>q a. q < 2 ^ (l - k) \<Longrightarrow> a < 2 ^ k \<Longrightarrow>
      z (q * 2 ^ k + a) = cooley_tukey P direction k (subsequence l k x q) a"
  shows "crossed P (2 ^ k) (twiddle P direction (2 ^ k)) z (q * 2 ^ Suc k + a) =
    cooley_tukey P direction (Suc k) (subsequence l (Suc k) x q) a"
proof -
  have "(2 :: nat) ^ (l - k) = 2 * 2 ^ (l - Suc k)"
    using k by (simp add: Suc_diff_Suc flip: power_Suc)
  then have q: "2 * q < 2 ^ (l - k)" "2 * q + 1 < 2 ^ (l - k)" using pos(1) by simp_all
  have m: "(q * 2 ^ Suc k + a) mod (2 * 2 ^ k) = a"
    using pos(2) mod_mult_self3 [of q "2 * 2 ^ k" a] by simp
  note halves = subsequence_halves [OF k, of x q, simplified]
  show ?thesis
  proof (cases "a < 2 ^ k")
    case True
    have md: "(q * 2 ^ Suc k + a) mod 2 ^ k = a"
      using True mod_mult_self3 [of "q * 2" "2 ^ k" a] by (simp add: mult.assoc)
    have "q * 2 ^ Suc k + a = (2 * q) * 2 ^ k + a" "q * 2 ^ Suc k + a + 2 ^ k = (2 * q + 1) * 2 ^ k + a"
      by (simp_all add: algebra_simps)
    then have "z (q * 2 ^ Suc k + a) = cooley_tukey P direction k (subsequence l k x (2 * q)) a"
      "z (q * 2 ^ Suc k + a + 2 ^ k) = cooley_tukey P direction k (subsequence l k x (2 * q + 1)) a"
      using z q True by metis+
    then show ?thesis
      using True by (simp add: crossed_def m md halves Let_def del: power_Suc)
  next
    case False
    define b where "b = a - 2 ^ k"
    have b: "a = b + 2 ^ k" "b < 2 ^ k" using False pos(2) by (simp_all add: b_def)
    have md: "(q * 2 ^ Suc k + a) mod 2 ^ k = b"
      using b(2) mod_mult_self3 [of "q * 2 + 1" "2 ^ k" b] by (simp add: b(1) algebra_simps)
    have "q * 2 ^ Suc k + a - 2 ^ k = (2 * q) * 2 ^ k + b" "q * 2 ^ Suc k + a = (2 * q + 1) * 2 ^ k + b"
      by (simp_all add: b(1) algebra_simps)
    then have "z (q * 2 ^ Suc k + a - 2 ^ k) = cooley_tukey P direction k (subsequence l k x (2 * q)) b"
      "z (q * 2 ^ Suc k + a) = cooley_tukey P direction k (subsequence l k x (2 * q + 1)) b"
      using z q b(2) by metis+
    then show ?thesis
      using False by (simp add: crossed_def m md halves Let_def b_def [symmetric] del: power_Suc)
  qed
qed

lemma stages:
  assumes len: "length data = 2 * 2 ^ l"
    and x: "\<And>p. p < 2 ^ l \<Longrightarrow> cplx data p = x (rev_bits l p)"
  shows "\<exists>data'. for_each [0..<l] (fft_stage P (2 ^ l) direction) (1, data) = Done (2 ^ l, data') \<and>
    length data' = 2 * 2 ^ l \<and> (\<forall>p < 2 ^ l. cplx data' p = cooley_tukey P direction l x p)"
proof -
  define I :: "nat \<Rightarrow> nat \<times> 'a list \<Rightarrow> bool" where "I = (\<lambda>k (dual, data'). dual = 2 ^ k \<and> length data' = 2 * 2 ^ l \<and>
    (\<forall>q < 2 ^ (l - k). \<forall>a < 2 ^ k.
       cplx data' (q * 2 ^ k + a) = cooley_tukey P direction k (subsequence l k x q) a))"
  have "\<exists>s. for_each [0..<l] (fft_stage P (2 ^ l) direction) (1, data) = Done s \<and> I l s"
  proof (rule for_each_inv)
    show "I 0 (1, data)"
      using len x by (simp add: I_def subsequence_def)
    fix k and s :: "nat \<times> 'a list" assume k: "0 \<le> k" "k < l" and I: "I k s"
    obtain data1 where s: "s = (2 ^ k, data1)" using I by (cases s) (simp add: I_def)
    have 1: "length data1 = 2 * 2 ^ l" and z: "\<And>q a. q < 2 ^ (l - k) \<Longrightarrow> a < 2 ^ k \<Longrightarrow>
        cplx data1 (q * 2 ^ k + a) = cooley_tukey P direction k (subsequence l k x q) a"
      using I by (auto simp: I_def s)
    have "(2 :: nat) ^ Suc k dvd 2 ^ l" using k by (intro le_imp_power_dvd) simp
    then obtain data2 where 2: "fft_stage P (2 ^ l) direction k s = Done (2 ^ k * 2, data2)"
      "length data2 = 2 * 2 ^ l"
      "\<And>p. p < 2 ^ l \<Longrightarrow> cplx data2 p = crossed P (2 ^ k) (twiddle P direction (2 ^ k)) (cplx data1) p"
      using fft_stage_run [of "2 ^ k" "2 ^ l" data1 P direction k] 1 by (auto simp: s)
    have "cplx data2 (q * 2 ^ Suc k + a) = cooley_tukey P direction (Suc k) (subsequence l (Suc k) x q) a"
      if "q < 2 ^ (l - Suc k)" "a < 2 ^ Suc k" for q a
    proof -
      have "q * 2 ^ Suc k + a < (q + 1) * 2 ^ Suc k" using that(2) by simp
      also have "\<dots> \<le> 2 ^ (l - Suc k) * 2 ^ Suc k" using that(1) by (intro mult_right_mono) simp_all
      also have "\<dots> = 2 ^ l" using k(2) by (metis Suc_leI le_add_diff_inverse2 power_add)
      finally show ?thesis
        using 2(3) stage_result [OF k(2) that z] by simp
    qed
    then show "\<exists>s'. fft_stage P (2 ^ l) direction k s = Done s' \<and> I (Suc k) s'"
      using 2(1,2) by (intro exI [of _ "(2 ^ k * 2, data2)"]) (simp add: I_def mult.commute)
  qed simp
  then obtain data' where "for_each [0..<l] (fft_stage P (2 ^ l) direction) (1, data) = Done (2 ^ l, data')"
    "length data' = 2 * 2 ^ l"
    "\<And>a. a < 2 ^ l \<Longrightarrow> cplx data' a = cooley_tukey P direction l (subsequence l l x 0) a"
    by (auto simp: I_def)
  moreover have "subsequence l l x 0 = x"
    by (simp add: subsequence_def)
  ultimately show ?thesis by auto
qed

subsection \<open>The transform\<close>

text \<open>\<open>N\<close> is twice a power of two.\<close>

lemma half_pow2:
  assumes "l \<le> 29"
  shows "sdiv32 (2 ^ Suc l) 2 = 2 ^ l" "turns (2 ^ l) = 2 ^ l" "turns (2 ^ Suc l) = 2 * 2 ^ l"
proof -
  have "sint (2 ^ Suc l :: i32) = 2 ^ Suc l" "sint (2 ^ l :: i32) = 2 ^ l"
    using assms sint_pow2 [of "Suc l"] sint_pow2 [of l] by simp_all
  then show "sdiv32 (2 ^ Suc l) 2 = 2 ^ l" "turns (2 ^ l) = 2 ^ l" "turns (2 ^ Suc l) = 2 * 2 ^ l"
    by (simp_all add: sdiv32_def sdiv_nonneg turns_def nat_power_eq nat_mult_distrib)
qed

lemma FFT_bitreverse_run:
  assumes "l \<le> 29" "length data = 2 * 2 ^ l"
  shows "\<exists>data'. FFT_bitreverse (2 ^ Suc l) data = Some (Done data') \<and>
    length data' = 2 * 2 ^ l \<and> (\<forall>p < 2 ^ l. cplx data' p = cplx data (rev_bits l p))"
proof -
  have "rev_bits l 0 = 0" by (induction l) simp_all
  then show ?thesis
    using bitreverse_loop_run [of 0 l data data] assms(2) half_pow2 [OF assms(1)]
    by (simp add: FFT_bitreverse_def Let_def del: power_Suc)
qed

lemma pow2_eq_iff: "l \<le> 29 \<Longrightarrow> (2 ^ l :: i32) = 1 \<longleftrightarrow> l = 0" "l \<le> 29 \<Longrightarrow> (2 ^ Suc l :: i32) \<noteq> 0"
proof -
  assume l: "l \<le> 29"
  show "(2 ^ l :: i32) = 1 \<longleftrightarrow> l = 0"
  proof
    assume "(2 ^ l :: i32) = 1"
    then have "sint (2 ^ l :: i32) = 1" by simp
    then have "(2 :: int) ^ l = 1" using sint_pow2 [of l] l by simp
    then show "l = 0" using power_inject_exp [of "2 :: int" l 0] by simp
  qed simp
  have "sint (2 ^ Suc l :: i32) = 2 ^ Suc l" by (rule sint_pow2) (use l in simp)
  moreover have "(2 :: int) ^ Suc l \<noteq> 0" by simp
  ultimately show "(2 ^ Suc l :: i32) \<noteq> 0" by (metis signed_0)
qed

lemma FFT_transform_internal_run:
  assumes l: "l \<le> 29" and len: "length data = 2 * 2 ^ l"
  shows "\<exists>data'. FFT_transform_internal P (2 ^ Suc l) data direction = Some (Done data') \<and>
    length data' = 2 * 2 ^ l \<and> (\<forall>p < 2 ^ l. cplx data' p = cooley_tukey P direction l (cplx data) p)"
proof (cases "l = 0")
  case True
  then show ?thesis
    using half_pow2(1) [of 0] len by (simp add: FFT_transform_internal_def Let_def)
next
  case False
  obtain data1 where 1: "FFT_bitreverse (2 ^ Suc l) data = Some (Done data1)" "length data1 = 2 * 2 ^ l"
    "\<And>p. p < 2 ^ l \<Longrightarrow> cplx data1 p = cplx data (rev_bits l p)"
    using FFT_bitreverse_run [OF assms] by blast
  obtain data2 where 2: "for_each [0..<l] (fft_stage P (2 ^ l) direction) (1, data1) = Done (2 ^ l, data2)"
    "length data2 = 2 * 2 ^ l" "\<forall>p < 2 ^ l. cplx data2 p = cooley_tukey P direction l (cplx data) p"
    using stages [where x = "cplx data", OF 1(2,3)] by blast
  have "turns (of_nat l) = l"
    using l sint_of_int_self [of "int l"] by (simp add: turns_def)
  then show ?thesis
    using 1(1) 2 False l half_pow2 [OF l] pow2_eq_iff [OF l] int_log2_pow2 [of l]
    by (simp add: FFT_transform_internal_def Let_def del: power_Suc)
qed

text \<open>Any other number of points ends the program with the exit code 1.\<close>

lemma FFT_transform_exit:
  assumes "\<And>l. l \<le> 30 \<Longrightarrow> sdiv32 N 2 \<noteq> 2 ^ l"
  shows "FFT_transform_internal P N data direction = Some (Terminated 1)"
proof -
  have "sint N sdiv 2 \<le> 2 ^ 30" "- (2 ^ 30) \<le> sint N sdiv 2"
    using sint_lt [of N] sint_ge [of N] by (auto simp: signed_divide_int_def sgn_if)
  then have "sint (sdiv32 N 2) \<le> 2 ^ 30"
    unfolding sdiv32_def using sint_of_int_self [of "sint N sdiv 2"] by simp
  then have "int_log2 (sdiv32 N 2) = Some (Terminated 1)"
    by (rule int_log2_other) (rule assms)
  then show ?thesis
    using assms [of 0] by (simp add: FFT_transform_internal_def Let_def)
qed

lemma FFT_inverse_run:
  fixes P :: "'d plat"
  assumes l: "l \<le> 29" and len: "length data = 2 * 2 ^ l"
  defines "norm \<equiv> f_div P (f_int P 1) (f_int P (2 ^ l))"
  shows "\<exists>data'. FFT_inverse P (2 ^ Suc l) data = Some (Done data') \<and> length data' = 2 * 2 ^ l \<and>
    (\<forall>p < 2 ^ l. cplx data' p =
       (let z = cooley_tukey P 1 l (cplx data) p in (f_mul P (fst z) norm, f_mul P (snd z) norm)))"
proof -
  obtain data1 where 1: "FFT_transform_internal P (2 ^ Suc l) data 1 = Some (Done data1)"
    "length data1 = 2 * 2 ^ l" "\<forall>p < 2 ^ l. cplx data1 p = cooley_tukey P 1 l (cplx data) p"
    using FFT_transform_internal_run [OF l len, of P 1] by blast
  define I where "I = (\<lambda>k data'. length data' = 2 * 2 ^ l \<and>
    (\<forall>i < 2 * 2 ^ l. data' ! i = (if i < k then f_mul P (data1 ! i) norm else data1 ! i)))"
  have "\<exists>s. for_each [0..<2 * 2 ^ l] (\<lambda>i data.
      bind_run (get_at data i) (\<lambda>v. put_at data i (f_mul P v norm))) data1 = Done s \<and> I (2 * 2 ^ l) s"
  proof (rule for_each_inv)
    show "I 0 data1" using 1(2) by (simp add: I_def)
    fix i and s :: "'d list" assume "i < 2 * 2 ^ l" "I i s"
    then show "\<exists>s'. bind_run (get_at s i) (\<lambda>v. put_at s i (f_mul P v norm)) = Done s' \<and> I (Suc i) s'"
      by (auto simp: I_def get_at_def put_at_def nth_list_update less_Suc_eq)
  qed simp
  then obtain data2 where 2: "for_each [0..<2 * 2 ^ l] (\<lambda>i data.
      bind_run (get_at data i) (\<lambda>v. put_at data i (f_mul P v norm))) data1 = Done data2" "I (2 * 2 ^ l) data2"
    by blast
  have "cplx data2 p = (f_mul P (fst (cplx data1 p)) norm, f_mul P (snd (cplx data1 p)) norm)"
    if "p < 2 ^ l" for p
    using 2(2) that by (auto simp: I_def cplx_def)
  then show ?thesis
    using 1 2 half_pow2 [OF l] by (simp add: FFT_inverse_def Let_def I_def norm_def del: power_Suc)
qed

end
