(* ===== verification/Scidft.thy ===== *)
theory Scidft
  imports Sciexact Sciflow
begin

text \<open>
  \<open>FFT.c\<close> in exact arithmetic: the recursive transform is the discrete Fourier transform, and
  \<open>FFT_inverse\<close> undoes \<open>FFT_transform\<close>.
\<close>

subsection \<open>Complex numbers\<close>

definition cx :: "real \<times> real \<Rightarrow> complex" where
  "cx z = Complex (fst z) (snd z)"

lemma cx_simps [simp]:
  "cx (cadd (real_plat ok clk) z w) = cx z + cx w"
  "cx (csub (real_plat ok clk) z w) = cx z - cx w"
  "cx (cmul (real_plat ok clk) w z) = cx w * cx z"
  by (simp_all add: cx_def cadd_def csub_def cmul_def real_plat_def complex_eq_iff)

subsection \<open>The roots of unity\<close>

definition turn :: "i32 \<Rightarrow> real" where
  "turn direction = of_int (sint direction) * pi"

lemma sines:
  assumes "0 < dual" "dual < 2 ^ 31"
  shows "f_sin (real_plat ok clk) (theta (real_plat ok clk) d dual) = sin (turn d / dual)"
    and "f_sin (real_plat ok clk) (f_div (real_plat ok clk) (theta (real_plat ok clk) d dual)
           (f_lit (real_plat ok clk) 2 0)) = sin (turn d / dual / 2)"
proof -
  have "sint (of_nat dual :: i32) = int dual"
    using sint_of_int_self [of "int dual"] assms(2) by simp
  then have "(signed (of_nat dual :: i32) :: real) = real dual"
    by (metis of_int_of_nat_eq of_int_sint)
  moreover have "literal 31415926535897932 (- 16) \<noteq> 0"
    by (simp add: literal_def)
  ultimately show
    "f_sin (real_plat ok clk) (theta (real_plat ok clk) d dual) = sin (turn d / dual)"
    "f_sin (real_plat ok clk) (f_div (real_plat ok clk) (theta (real_plat ok clk) d dual)
           (f_lit (real_plat ok clk) 2 0)) = sin (turn d / dual / 2)"
    by (simp_all add: theta_def PI_def real_plat_def turn_def field_simps)
qed

lemma stage_root_exact:
  assumes "0 < dual" "dual < 2 ^ 31"
  shows "cx (stage_root (real_plat ok clk) d dual w) = cis (turn d / dual) * cx w"
proof -
  have c: "cos (turn d / dual) = 1 - 2 * sin (turn d / dual / 2) * sin (turn d / dual / 2)"
    using cos_double_sin [of "turn d / dual / 2"] by (simp add: power2_eq_square)
  show ?thesis
    unfolding stage_root_def Let_def sines [OF assms]
    by (simp add: next_root_def split_beta real_plat_def cx_def complex_eq_iff c algebra_simps)
qed

lemma root_power_exact:
  assumes "0 < dual" "dual < 2 ^ 31"
  shows "cx (root_power (real_plat ok clk) d dual a) = cis (turn d * a / dual)"
proof (induction a)
  case 0
  then show ?case by (simp add: root_power_def real_plat_def cx_def complex_eq_iff)
next
  case (Suc a)
  then show ?case
    by (simp add: root_power_def stage_root_exact [OF assms] cis_mult field_simps add_divide_distrib)
qed

lemma twiddle_exact:
  assumes "0 < dual" "dual < 2 ^ 31"
  shows "cx (twiddle (real_plat ok clk) d dual a z) = cis (turn d * a / dual) * cx z"
  by (simp add: twiddle_def root_power_exact [OF assms])

subsection \<open>The discrete Fourier transform\<close>

definition dft :: "nat \<Rightarrow> i32 \<Rightarrow> (nat \<Rightarrow> complex) \<Rightarrow> nat \<Rightarrow> complex" where
  "dft n d x p = (\<Sum>t<n. x t * cis (turn d * 2 * p * t / n))"

lemma sum_halves: "(\<Sum>t<2 * n. f t) = (\<Sum>u<n. f (2 * u)) + (\<Sum>u<n. f (2 * u + 1))"
  for f :: "nat \<Rightarrow> 'a::comm_monoid_add"
  by (induction n) (simp_all add: ac_simps)

lemma dft_halves:
  assumes n: "0 < n"
  shows "dft (2 * n) d x p = dft n d (\<lambda>t. x (2 * t)) p + cis (turn d * p / n) * dft n d (\<lambda>t. x (2 * t + 1)) p"
proof -
  have e: "cis (turn d * 2 * p * (2 * u) / (2 * n)) = cis (turn d * 2 * p * u / n)" for u :: nat
    using n by (simp add: field_simps)
  have o: "cis (turn d * 2 * p * (2 * u + 1) / (2 * n)) = cis (turn d * p / n) * cis (turn d * 2 * p * u / n)"
    for u :: nat
    using n by (simp add: cis_mult) (simp add: field_simps)
  have "dft (2 * n) d x p = (\<Sum>u<n. x (2 * u) * cis (turn d * 2 * p * (2 * u) / (2 * n))) +
      (\<Sum>u<n. x (2 * u + 1) * cis (turn d * 2 * p * (2 * u + 1) / (2 * n)))"
    unfolding dft_def by (subst sum_halves) simp
  then show ?thesis
    unfolding e o by (simp add: dft_def sum_distrib_left ac_simps)
qed

text \<open>The second half of the positions: for a whole number of half turns.\<close>

lemma cis_whole: "cis (2 * pi * of_int k) = 1"
  by (rule cis_multiple_2pi) (rule Ints_of_int)

lemma dft_periodic: "0 < n \<Longrightarrow> dft n d x (p + n) = dft n d x p"
proof -
  assume n: "0 < n"
  have "cis (turn d * 2 * (p + n) * t / n) = cis (turn d * 2 * p * t / n)" for t :: nat
  proof -
    have "turn d * 2 * (p + n) * t / n = turn d * 2 * p * t / n + 2 * pi * of_int (sint d * int t)"
      using n by (simp add: turn_def field_simps)
    then show ?thesis
      using cis_whole [of "sint d * int t"] by (simp only: mult_1_right flip: cis_mult)
  qed
  then show ?thesis unfolding dft_def by simp
qed

lemma cooley_tukey_exact:
  assumes d: "d = 1 \<or> d = - 1" and l: "l \<le> 31" and p: "p < 2 ^ l"
  shows "cx (cooley_tukey (real_plat ok clk) d l x p) = dft (2 ^ l) d (\<lambda>t. cx (x t)) p"
  using l p
proof (induction l arbitrary: x p)
  case 0
  then show ?case by (simp add: dft_def)
next
  case (Suc l)
  have h: "0 < (2 :: nat) ^ l" "(2 :: nat) ^ l < 2 ^ 31"
    using Suc.prems(1) power_strict_increasing [of l 31 "2 :: nat"] by simp_all
  show ?case
  proof (cases "p < 2 ^ l")
    case True
    then show ?thesis
      using Suc.IH [of p] Suc.prems(1) h
      by (simp add: Let_def twiddle_exact dft_halves)
  next
    case False
    define q where "q = p - 2 ^ l"
    have q: "p = q + 2 ^ l" "q < 2 ^ l" using False Suc.prems(2) by (simp_all add: q_def)
    have "cis (turn d * (q + 2 ^ l) / 2 ^ l) = cis (turn d * q / 2 ^ l) * cis (turn d)"
      by (simp add: cis_mult field_simps)
    also have "cis (turn d) = - 1"
      using d cis_inverse [of pi] by (auto simp: turn_def)
    finally have c: "cis (turn d * (q + 2 ^ l) / 2 ^ l) = - cis (turn d * q / 2 ^ l)" by simp
    show ?thesis
      using Suc.IH [OF _ q(2)] Suc.prems(1) h False c dft_periodic [of "2 ^ l" d _ q]
      by (simp add: Let_def twiddle_exact dft_halves q(1))
  qed
qed

subsection \<open>The inverse\<close>

lemma orthogonal:
  fixes s t n :: nat
  assumes "s < n" "t < n"
  shows "(\<Sum>p<n. cis (2 * pi * real p * (real s - real t) / n)) = (if s = t then of_nat n else 0)"
proof (cases "s = t")
  case False
  define a where "a = 2 * pi * (real s - real t) / n"
  have "(\<Sum>p<n. cis (2 * pi * real p * (real s - real t) / n)) = (\<Sum>p<n. cis a ^ p)"
    by (rule sum.cong) (simp_all add: DeMoivre a_def field_simps)
  moreover have "cis a ^ n = 1"
  proof -
    have "real n * a = 2 * pi * (real s - real t)" using assms(1) by (simp add: a_def)
    then show ?thesis
      using cis_multiple_2pi [of "real s - real t"] by (simp add: DeMoivre)
  qed
  moreover have "cis a \<noteq> 1"
  proof
    assume "cis a = 1"
    then have "cos a = 1" by (simp add: complex_eq_iff)
    then obtain k :: int where "a = of_int k * 2 * pi" using cos_one_2pi_int by blast
    then have "pi * (real s - real t) = pi * of_int (k * int n)"
      using assms(1) by (simp add: a_def field_simps)
    then have "real s - real t = of_int (k * int n)"
      by (simp only: mult_cancel_left pi_neq_zero simp_thms)
    then have e: "int s - int t = k * int n" by linarith
    have "\<bar>int s - int t\<bar> < int n" using assms by linarith
    then have "\<bar>k\<bar> * int n < 1 * int n" by (simp add: e abs_mult)
    then have "\<bar>k\<bar> < 1" by (rule mult_right_less_imp_less) simp
    then have "k = 0" by simp
    then show False using e False by simp
  qed
  ultimately show ?thesis
    using False by (simp add: geometric_sum)
qed simp

lemma dft_inverse:
  assumes "s < n"
  shows "dft n 1 (dft n (- 1) x) s = of_nat n * x s"
proof -
  have t: "turn 1 = pi" "turn (- 1) = - pi" by (simp_all add: turn_def)
  have "dft n 1 (dft n (- 1) x) s =
      (\<Sum>p<n. \<Sum>t<n. x t * cis (2 * pi * real p * (real s - real t) / n))"
    unfolding dft_def t sum_distrib_right
    by (intro sum.cong refl) (simp add: mult.assoc cis_mult, simp add: diff_divide_distrib algebra_simps)
  also have "\<dots> = (\<Sum>t<n. x t * (\<Sum>p<n. cis (2 * pi * real p * (real s - real t) / n)))"
    by (subst sum.swap) (simp add: sum_distrib_left)
  also have "\<dots> = (\<Sum>t<n. x t * (if s = t then of_nat n else 0))"
    using orthogonal [OF assms] by (intro sum.cong) simp_all
  also have "\<dots> = of_nat n * x s"
    using assms by (simp add: if_distrib sum.delta' cong: if_cong)
  finally show ?thesis .
qed

lemma dft_cong: "(\<And>t. t < n \<Longrightarrow> x t = y t) \<Longrightarrow> dft n d x p = dft n d y p"
  by (simp add: dft_def)

lemma cx_scaled: "cx (a / c, b / c) = cx (a, b) / of_real c"
  by (simp add: cx_def complex_eq_iff)

text \<open>\<open>FFT_inverse\<close> after \<open>FFT_transform\<close>.\<close>

lemma FFT_transform_exact:
  assumes l: "l \<le> 29" and len: "length data = 2 * 2 ^ l"
  shows "\<exists>data'. FFT_transform (real_plat ok clk) (2 ^ Suc l) data = Some (Done data') \<and>
    length data' = 2 * 2 ^ l \<and>
    (\<forall>p < 2 ^ l. cx (cplx data' p) = dft (2 ^ l) (- 1) (\<lambda>t. cx (cplx data t)) p)"
  using FFT_transform_internal_run [OF l len, of "real_plat ok clk" "- 1"] cooley_tukey_exact [of "- 1" l] l
  by (fastforce simp: FFT_transform_def)

lemma FFT_inverse_exact:
  assumes l: "l \<le> 29" and len: "length data = 2 * 2 ^ l"
  shows "\<exists>data'. FFT_inverse (real_plat ok clk) (2 ^ Suc l) data = Some (Done data') \<and>
    length data' = 2 * 2 ^ l \<and>
    (\<forall>p < 2 ^ l. cx (cplx data' p) = dft (2 ^ l) 1 (\<lambda>t. cx (cplx data t)) p / 2 ^ l)"
proof -
  let ?P = "real_plat ok clk"
  have n: "(signed (2 ^ l :: i32) :: real) = 2 ^ l"
    using arg_cong [OF sint_pow2 [of l], of real_of_int] l by simp
  obtain data' where r: "FFT_inverse ?P (2 ^ Suc l) data = Some (Done data')" "length data' = 2 * 2 ^ l"
    and z: "\<And>p. p < 2 ^ l \<Longrightarrow> cplx data' p = (let z = cooley_tukey ?P 1 l (cplx data) p in
      (f_mul ?P (fst z) (f_div ?P (f_int ?P 1) (f_int ?P (2 ^ l))),
       f_mul ?P (snd z) (f_div ?P (f_int ?P 1) (f_int ?P (2 ^ l)))))"
    using FFT_inverse_run [OF l len, of ?P] by blast
  have "cx (cplx data' p) = dft (2 ^ l) 1 (\<lambda>t. cx (cplx data t)) p / 2 ^ l" if "p < 2 ^ l" for p
  proof -
    have norm: "f_mul ?P a (f_div ?P (f_int ?P 1) (f_int ?P (2 ^ l))) = a / 2 ^ l" for a
      by (simp add: real_plat_def n)
    have "cx (cplx data' p) = cx (cooley_tukey ?P 1 l (cplx data) p) / of_real (2 ^ l)"
      unfolding z [OF that] Let_def norm cx_scaled by simp
    then show ?thesis
      using cooley_tukey_exact [of 1 l p] l that by simp
  qed
  then show ?thesis using r by blast
qed

lemma FFT_roundtrip:
  assumes l: "l \<le> 29" and len: "length data = 2 * 2 ^ l"
  shows "\<exists>data'. FFT_transform (real_plat ok clk) (2 ^ Suc l) data = Some (Done data') \<and>
    FFT_inverse (real_plat ok clk) (2 ^ Suc l) data' = Some (Done data)"
proof -
  obtain data1 where 1: "FFT_transform (real_plat ok clk) (2 ^ Suc l) data = Some (Done data1)"
    "length data1 = 2 * 2 ^ l"
    "\<And>p. p < 2 ^ l \<Longrightarrow> cx (cplx data1 p) = dft (2 ^ l) (- 1) (\<lambda>t. cx (cplx data t)) p"
    using FFT_transform_exact [OF l len] by blast
  obtain data2 where 2: "FFT_inverse (real_plat ok clk) (2 ^ Suc l) data1 = Some (Done data2)"
    "length data2 = 2 * 2 ^ l"
    "\<And>p. p < 2 ^ l \<Longrightarrow> cx (cplx data2 p) = dft (2 ^ l) 1 (\<lambda>t. cx (cplx data1 t)) p / 2 ^ l"
    using FFT_inverse_exact [OF l 1(2)] by blast
  have "data2 = data"
  proof (rule cplx_eqI)
    fix p :: nat assume p: "p < 2 ^ l"
    have eq: "dft (2 ^ l) 1 (\<lambda>t. cx (cplx data1 t)) p =
        dft (2 ^ l) 1 (dft (2 ^ l) (- 1) (\<lambda>t. cx (cplx data t))) p"
      by (rule dft_cong) (rule 1(3))
    have "cx (cplx data2 p) = cx (cplx data p)"
      unfolding 2(3) [OF p] eq dft_inverse [OF p] by simp
    then show "cplx data2 p = cplx data p"
      by (simp add: cx_def prod_eq_iff)
  qed (use 2(2) len in simp_all)
  then show ?thesis using 1(1) 2(1) by simp
qed

end
