(* ===== verification/Scirandom.thy ===== *)
theory Scirandom
  imports Scibase
begin

text \<open>
  \<open>Random.c\<close> and \<open>MonteCarlo.c\<close> of \<open>sw/scimark2\<close>: the random numbers, which are those of a
  lagged Fibonacci sequence whose first 17 elements are powers of 9069 times the seed.
\<close>

subsection \<open>\<open>Random.c\<close>\<close>

record 'd Random_struct =
  r_m :: "i32 list"
  r_seed :: i32
  r_i :: i32
  r_j :: i32
  r_haveRange :: bool
  r_left :: 'd
  r_right :: 'd
  r_width :: 'd

definition MDIG :: nat where
  "MDIG = 32"

definition m1 :: i32 where
  "m1 = push_bit (MDIG - 2) 1 + (push_bit (MDIG - 2) 1 - 1)"

definition m2 :: i32 where
  "m2 = push_bit (MDIG div 2) 1"

text \<open>The variable \<open>dm1\<close>, which every call of \<open>initialize\<close> sets to this value.\<close>

definition dm1 :: "'d plat \<Rightarrow> 'd" where
  "dm1 P = f_div P (f_lit P 1 0) (f_int P m1)"

text \<open>The loop over \<open>R->m\<close>: \<open>j0\<close>, \<open>j1\<close> and the array.\<close>

definition init_step :: "i32 \<Rightarrow> i32 \<Rightarrow> nat \<Rightarrow> i32 \<times> i32 \<times> i32 list \<Rightarrow> (i32 \<times> i32 \<times> i32 list) run" where
  "init_step k0 k1 iloop = (\<lambda>(j0, j1, m).
     let jseed = j0 * k0;
         j1 = smod32 (sdiv32 jseed m2 + j0 * k1 + j1 * k0) (sdiv32 m2 2);
         j0 = smod32 jseed m2
     in bind_run (put_at m iloop (j0 + m2 * j1)) (\<lambda>m. Done (j0, j1, m)))"

definition initialize :: "'d Random_struct \<Rightarrow> i32 \<Rightarrow> 'd Random_struct run" where
  "initialize R seed =
     (let R = R\<lparr>r_seed := seed\<rparr>;
          seed = (if seed <s 0 then - seed else seed);
          jseed = (if seed <s m1 then seed else m1);
          jseed = (if smod32 jseed 2 = 0 then jseed - 1 else jseed);
          k0 = smod32 9069 m2;
          k1 = sdiv32 9069 m2;
          j0 = smod32 jseed m2;
          j1 = sdiv32 jseed m2
      in bind_run (for_each [0..<17] (init_step k0 k1) (j0, j1, r_m R)) (\<lambda>(j0, j1, m).
           Done (R\<lparr>r_m := m, r_i := 4, r_j := 16\<rparr>)))"

text \<open>A new generator, before anything is stored in it.\<close>

definition fresh_Random :: "'d plat \<Rightarrow> 'd Random_struct" where
  "fresh_Random P = \<lparr>r_m = replicate 17 (junk_int P), r_seed = junk_int P, r_i = junk_int P,
     r_j = junk_int P, r_haveRange = junk_int P \<noteq> 0,
     r_left = junk P, r_right = junk P, r_width = junk P\<rparr>"

definition new_Random_seed :: "'d plat \<Rightarrow> i32 \<Rightarrow> env \<Rightarrow> ('d Random_struct \<times> env) run" where
  "new_Random_seed P seed e =
     (let (ok, e) = malloc P e in
      bind_run (deref (if ok then Some (fresh_Random P) else None)) (\<lambda>R.
      bind_run (initialize R seed) (\<lambda>R.
        Done (R\<lparr>r_left := f_lit P 0 0, r_right := f_lit P 1 0, r_width := f_lit P 1 0,
                r_haveRange := False\<rparr>, e))))"

definition new_Random ::
    "'d plat \<Rightarrow> i32 \<Rightarrow> 'd \<Rightarrow> 'd \<Rightarrow> env \<Rightarrow> ('d Random_struct \<times> env) run" where
  "new_Random P seed left right e =
     (let (ok, e) = malloc P e in
      bind_run (deref (if ok then Some (fresh_Random P) else None)) (\<lambda>R.
      bind_run (initialize R seed) (\<lambda>R.
        Done (R\<lparr>r_left := left, r_right := right, r_width := f_sub P right left,
                r_haveRange := True\<rparr>, e))))"

definition Random_delete :: "env \<Rightarrow> env" where
  "Random_delete e = free e"

definition scaled :: "'d plat \<Rightarrow> 'd Random_struct \<Rightarrow> i32 \<Rightarrow> 'd" where
  "scaled P R k =
     (if r_haveRange R
      then f_add P (r_left R) (f_mul P (f_mul P (dm1 P) (f_int P k)) (r_width R))
      else f_mul P (dm1 P) (f_int P k))"

definition Random_nextDouble :: "'d plat \<Rightarrow> 'd Random_struct \<Rightarrow> ('d \<times> 'd Random_struct) run" where
  "Random_nextDouble P R =
     (let I = r_i R; J = r_j R in
      bind_run (get_at (r_m R) (unat I)) (\<lambda>mI. bind_run (get_at (r_m R) (unat J)) (\<lambda>mJ.
        let k = mI - mJ;
            k = (if k <s 0 then k + m1 else k)
        in bind_run (put_at (r_m R) (unat J) k) (\<lambda>m.
             let I = (if I = 0 then 16 else I - 1);
                 J = (if J = 0 then 16 else J - 1);
                 R = R\<lparr>r_m := m, r_i := I, r_j := J\<rparr>
             in Done (scaled P R k, R)))))"

text \<open>An array is filled from its first element on.\<close>

fun random_values :: "'d plat \<Rightarrow> nat \<Rightarrow> 'd Random_struct \<Rightarrow> ('d list \<times> 'd Random_struct) run" where
  "random_values P 0 R = Done ([], R)"
| "random_values P (Suc n) R =
     bind_run (Random_nextDouble P R) (\<lambda>(x, R).
     bind_run (random_values P n R) (\<lambda>(xs, R). Done (x # xs, R)))"

definition RandomVector ::
    "'d plat \<Rightarrow> i32 \<Rightarrow> 'd Random_struct \<Rightarrow> env \<Rightarrow> ('d list option \<times> 'd Random_struct \<times> env) run" where
  "RandomVector P N R e =
     (let (ok, e) = malloc P e in
      if ok then bind_run (random_values P (turns N) R) (\<lambda>(x, R). Done (Some x, R, e))
      else if turns N = 0 then Done (None, R, e)
      else Fault NullPointer)"

fun random_rows :: "'d plat \<Rightarrow> i32 \<Rightarrow> nat \<Rightarrow> 'd Random_struct \<Rightarrow> env \<Rightarrow>
    ('d list list option \<times> 'd Random_struct \<times> env) run" where
  "random_rows P N 0 R e = Done (Some [], R, e)"
| "random_rows P N (Suc m) R e =
     (let (ok, e) = malloc P e in
      if \<not> ok then Done (None, R, free e)
      else bind_run (random_values P (turns N) R) (\<lambda>(row, R).
           bind_run (random_rows P N m R e) (\<lambda>(rows, R, e).
             Done (map_option (Cons row) rows, R, e))))"

definition RandomMatrix ::
    "'d plat \<Rightarrow> i32 \<Rightarrow> i32 \<Rightarrow> 'd Random_struct \<Rightarrow> env \<Rightarrow>
     ('d list list option \<times> 'd Random_struct \<times> env) run" where
  "RandomMatrix P M N R e =
     (let (ok, e) = malloc P e in
      if \<not> ok then Done (None, R, e) else random_rows P N (turns M) R e)"

subsection \<open>\<open>MonteCarlo.c\<close>\<close>

definition SEED :: i32 where
  "SEED = 113"

definition MonteCarlo_num_flops :: "'d plat \<Rightarrow> i32 \<Rightarrow> 'd" where
  "MonteCarlo_num_flops P Num_samples = f_mul P (f_int P Num_samples) (f_lit P 4 0)"

definition sample :: "'d plat \<Rightarrow> nat \<Rightarrow> i32 \<times> 'd Random_struct \<Rightarrow> (i32 \<times> 'd Random_struct) run" where
  "sample P count = (\<lambda>(under_curve, R).
     bind_run (Random_nextDouble P R) (\<lambda>(x, R). bind_run (Random_nextDouble P R) (\<lambda>(y, R).
       Done (if f_le P (f_add P (f_mul P x x) (f_mul P y y)) (f_lit P 1 0)
             then under_curve + 1 else under_curve, R))))"

definition MonteCarlo_integrate :: "'d plat \<Rightarrow> i32 \<Rightarrow> env \<Rightarrow> ('d \<times> env) run" where
  "MonteCarlo_integrate P Num_samples e =
     bind_run (new_Random_seed P SEED e) (\<lambda>(R, e).
     bind_run (for_each [0..<turns Num_samples] (sample P) (0, R)) (\<lambda>(under_curve, R).
       Done (f_mul P (f_div P (f_int P under_curve) (f_int P Num_samples)) (f_lit P 4 0),
             Random_delete e)))"

subsection \<open>The sequence\<close>

text \<open>
  The last 17 elements, the oldest first: the next one is the difference of the one five and
  the one 17 places back, modulo \<open>m1\<close>.
\<close>

definition lag_next :: "int list \<Rightarrow> int" where
  "lag_next h = (let k = h ! 12 - h ! 0 in if k < 0 then k + (2 ^ 31 - 1) else k)"

fun lagged_fibonacci :: "nat \<Rightarrow> int list \<Rightarrow> int list" where
  "lagged_fibonacci 0 h = []"
| "lagged_fibonacci (Suc n) h = lag_next h # lagged_fibonacci n (tl h @ [lag_next h])"

fun lag_state :: "nat \<Rightarrow> int list \<Rightarrow> int list" where
  "lag_state 0 h = h"
| "lag_state (Suc n) h = lag_state n (tl h @ [lag_next h])"

definition slot :: "nat \<Rightarrow> nat \<Rightarrow> nat" where
  "slot j t = (j + 17 - t) mod 17"

definition history :: "'d Random_struct \<Rightarrow> int list" where
  "history R = map (\<lambda>t. sint (r_m R ! slot (unat (r_j R)) t)) [0..<17]"

definition random_ok :: "'d Random_struct \<Rightarrow> bool" where
  "random_ok R \<longleftrightarrow>
     length (r_m R) = 17 \<and> (\<forall>v \<in> set (r_m R). 0 \<le> sint v) \<and>
     unat (r_j R) < 17 \<and> unat (r_i R) = (unat (r_j R) + 5) mod 17"

subsection \<open>A random number is the next element\<close>

lemma m1_eq: "m1 = 0x7fffffff"
  by (simp add: m1_def MDIG_def)

lemma m2_eq: "m2 = 0x10000"
  by (simp add: m2_def MDIG_def)

lemma slot_less: "slot j t < 17"
  by (simp add: slot_def)

lemma slot_ends: "j < 17 \<Longrightarrow> slot j 0 = j" "j < 17 \<Longrightarrow> slot j 12 = (j + 5) mod 17"
  by (simp_all add: slot_def add.commute)

lemma slot_step:
  assumes "j < 17" "t < 17"
  shows "slot (if j = 0 then 16 else j - 1) t = (if t = 16 then j else slot j (Suc t))"
    and "t < 16 \<Longrightarrow> slot j (Suc t) \<noteq> j"
proof -
  consider "t \<le> j" | "j < t" by linarith
  then show "slot (if j = 0 then 16 else j - 1) t = (if t = 16 then j else slot j (Suc t))"
    using assms by cases (auto simp: slot_def mod_if)
  show "t < 16 \<Longrightarrow> slot j (Suc t) \<noteq> j"
    using assms by (auto simp: slot_def mod_if)
qed

lemma lag_difference:
  assumes "0 \<le> sint a" "0 \<le> sint b"
  shows "sint (if a - b <s 0 then a - b + m1 else a - b :: i32) =
      (let k = sint a - sint b in if k < 0 then k + (2 ^ 31 - 1) else k)"
    and "0 \<le> sint (if a - b <s 0 then a - b + m1 else a - b :: i32)"
proof -
  have r: "sint a < 2 ^ 31" "sint b < 2 ^ 31"
    using sint_lt [of a] sint_lt [of b] by simp_all
  have d: "sint (a - b) = sint a - sint b"
    using assms r by (intro sint_ring) simp_all
  have m: "sint m1 = 2 ^ 31 - 1" by (simp add: m1_eq)
  show "sint (if a - b <s 0 then a - b + m1 else a - b :: i32) =
      (let k = sint a - sint b in if k < 0 then k + (2 ^ 31 - 1) else k)"
    using sint_ring(1) [of "a - b" m1] assms r unfolding d m
    by (simp add: word_sless_alt d Let_def)
  then show "0 \<le> sint (if a - b <s 0 then a - b + m1 else a - b :: i32)"
    using assms r by (simp add: Let_def split: if_splits)
qed

lemma scaled_same [simp]: "scaled P (R\<lparr>r_m := m, r_i := i, r_j := j\<rparr>) = scaled P R"
  by (rule ext) (simp add: scaled_def)

lemma nextDouble:
  assumes ok: "random_ok R"
  shows "\<exists>k R'. Random_nextDouble P R = Done (scaled P R k, R') \<and> sint k = lag_next (history R) \<and>
    random_ok R' \<and> history R' = tl (history R) @ [lag_next (history R)] \<and> scaled P R' = scaled P R"
proof -
  define j where "j = unat (r_j R)"
  define a where "a = r_m R ! ((j + 5) mod 17)"
  define b where "b = r_m R ! j"
  define k where "k = (if a - b <s 0 then a - b + m1 else a - b)"
  have j: "j < 17" and i: "unat (r_i R) = (j + 5) mod 17" and len: "length (r_m R) = 17"
    and pos: "\<And>t. t < 17 \<Longrightarrow> 0 \<le> sint (r_m R ! t)"
    using ok by (auto simp: random_ok_def j_def)
  have ab: "0 \<le> sint a" "0 \<le> sint b" using pos j by (auto simp: a_def b_def)
  have h: "history R ! 12 = sint a" "history R ! 0 = sint b"
    using j by (simp_all add: history_def slot_ends a_def b_def flip: j_def)
  have k: "sint k = lag_next (history R)" "0 \<le> sint k"
    using lag_difference [OF ab] by (simp_all add: k_def lag_next_def h)
  define R' where "R' = R\<lparr>r_m := (r_m R)[j := k], r_i := (if r_i R = 0 then 16 else r_i R - 1),
    r_j := (if r_j R = 0 then 16 else r_j R - 1)\<rparr>"
  have run: "Random_nextDouble P R = Done (scaled P R k, R')"
    using i j len
    by (simp add: Random_nextDouble_def get_at_def put_at_def Let_def R'_def k_def a_def b_def
        flip: j_def)
  have j': "unat (r_j R') = (if j = 0 then 16 else j - 1)"
    by (simp add: R'_def j_def unat_eq_zero unat_minus_one)
  have i': "unat (r_i R') = (unat (r_j R') + 5) mod 17"
    using j i unfolding j' by (auto simp: R'_def unat_minus_one unat_eq_zero mod_if split: if_splits)
  have m': "r_m R' = (r_m R)[j := k]" by (simp add: R'_def)
  have "random_ok R'"
    using len k(2) pos j i' unfolding random_ok_def
    by (auto simp: R'_def in_set_conv_nth nth_list_update j' [unfolded R'_def, simplified])
  moreover have "history R' = tl (history R) @ [lag_next (history R)]"
  proof (rule nth_equalityI)
    fix t assume "t < length (history R')"
    then have t: "t < 17" by (simp add: history_def)
    show "history R' ! t = (tl (history R) @ [lag_next (history R)]) ! t"
      using t slot_step [OF j t] j len k(1)
      by (auto simp: history_def j' m' nth_append nth_tl simp flip: j_def)
  qed (simp add: history_def)
  moreover have "scaled P R' = scaled P R"
    by (simp add: R'_def)
  ultimately show ?thesis using run k(1) by blast
qed

lemma random_values_run:
  "random_ok R \<Longrightarrow> \<exists>ks R'. random_values P n R = Done (map (scaled P R) ks, R') \<and>
    map sint ks = lagged_fibonacci n (history R) \<and> random_ok R' \<and>
    history R' = lag_state n (history R) \<and> scaled P R' = scaled P R"
proof (induction n arbitrary: R)
  case 0
  then show ?case by (intro exI [of _ "[]"] exI [of _ R]) simp
next
  case (Suc n)
  obtain k R1 where 1: "Random_nextDouble P R = Done (scaled P R k, R1)"
    "sint k = lag_next (history R)" "random_ok R1"
    "history R1 = tl (history R) @ [lag_next (history R)]" "scaled P R1 = scaled P R"
    using nextDouble [OF Suc.prems] by blast
  obtain ks R2 where 2: "random_values P n R1 = Done (map (scaled P R1) ks, R2)"
    "map sint ks = lagged_fibonacci n (history R1)" "random_ok R2"
    "history R2 = lag_state n (history R1)" "scaled P R2 = scaled P R1"
    using Suc.IH [OF 1(3)] by blast
  show ?case
    using 1 2 by (intro exI [of _ "k # ks"] exI [of _ R2]) simp
qed

subsection \<open>The first elements\<close>

text \<open>A number below \<open>2 ^ 31\<close> in the two halves the loop works with.\<close>

definition halves :: "int \<Rightarrow> i32 \<times> i32" where
  "halves v = (word_of_int (v mod 65536), word_of_int (v div 65536))"

lemma sint_halves:
  assumes "0 \<le> v" "v < 2 ^ 31"
  shows "sint (fst (halves v)) = v mod 65536" "sint (snd (halves v)) = v div 65536"
  using assms pos_mod_sign [of 65536 v] pos_mod_bound [of 65536 v]
  unfolding halves_def fst_conv snd_conv
  by (intro sint_of_int_self; simp)+

lemma next_halves:
  fixes v :: int
  assumes "0 \<le> v" "v < 2 ^ 31"
  defines "w \<equiv> 9069 * v mod 2 ^ 31"
  shows "w mod 65536 = (v mod 65536 * 9069) mod 65536"
    and "w div 65536 = (v mod 65536 * 9069 div 65536 + v div 65536 * 9069) mod 32768"
proof -
  have v: "9069 * v = v mod 65536 * 9069 + 65536 * (v div 65536 * 9069)"
    using mult_div_mod_eq [of 65536 v] by linarith
  have "w mod 65536 = (9069 * v) mod 65536"
    unfolding w_def by (rule mod_mod_cancel) simp
  then show "w mod 65536 = (v mod 65536 * 9069) mod 65536"
    by (simp only: v mod_mult_self2)
  have "w div 65536 = (9069 * v div 65536) mod 32768"
    using zmod_zmult2_eq [of 32768 "9069 * v" 65536] by (simp add: w_def)
  also have "9069 * v div 65536 = v mod 65536 * 9069 div 65536 + v div 65536 * 9069"
    unfolding v by simp
  finally show "w div 65536 = (v mod 65536 * 9069 div 65536 + v div 65536 * 9069) mod 32768" .
qed

lemma init_step_eq:
  assumes v: "0 \<le> v" "v < 2 ^ 31"
  shows "init_step 9069 0 i (fst (halves v), snd (halves v), m) =
    (let w = 9069 * v mod 2 ^ 31 in
     bind_run (put_at m i (word_of_int w)) (\<lambda>m. Done (fst (halves w), snd (halves w), m)))"
proof -
  define a where "a = v mod 65536"
  define c where "c = v div 65536"
  define w where "w = 9069 * v mod 2 ^ 31"
  have a: "0 \<le> a" "a < 65536" and c: "0 \<le> c" "c < 32768"
    using v by (simp_all add: a_def c_def)
  have w: "w mod 65536 = a * 9069 mod 65536" "w div 65536 = (a * 9069 div 65536 + c * 9069) mod 32768"
    unfolding w_def a_def c_def by (rule next_halves [OF v])+
  have q: "0 \<le> a * 9069 div 65536" "a * 9069 div 65536 < 9069"
    using a by auto
  have j0: "fst (halves v) = word_of_int a" and j1: "snd (halves v) = word_of_int c"
    by (simp_all add: halves_def a_def c_def)
  have fw: "fst (halves w) = word_of_int (a * 9069 mod 65536)"
    and sw: "snd (halves w) = word_of_int ((a * 9069 div 65536 + c * 9069) mod 32768)"
    by (simp_all add: halves_def w)
  have seed: "sint (fst (halves v) * 9069) = a * 9069"
    using sint_of_int_self [of "a * 9069"] a by (simp add: j0)
  have d: "sdiv32 (fst (halves v) * 9069) m2 = word_of_int (a * 9069 div 65536)"
    unfolding sdiv32_def seed using a by (simp add: m2_eq sdiv_nonneg)
  have r: "smod32 (fst (halves v) * 9069) m2 = fst (halves w)"
    unfolding smod32_def seed fw using a by (simp add: m2_eq smod_nonneg)
  have "sint (word_of_int (a * 9069 div 65536 + c * 9069) :: i32) = a * 9069 div 65536 + c * 9069"
    using q c by (intro sint_of_int_self) simp_all
  then have h: "smod32 (word_of_int (a * 9069 div 65536) + fst (halves v) * 0 + snd (halves v) * 9069)
      (sdiv32 m2 2) = snd (halves w)"
    unfolding smod32_def j1 sw using q c
    by (simp add: m2_eq sdiv32_def sdiv_nonneg smod_nonneg)
  have "fst (halves w) + m2 * snd (halves w) = word_of_int (w mod 65536 + 65536 * (w div 65536))"
    by (simp only: halves_def fst_conv snd_conv m2_eq of_int_add of_int_mult of_int_numeral)
  also have "w mod 65536 + 65536 * (w div 65536) = w"
    using mult_div_mod_eq [of 65536 w] by simp
  finally show ?thesis
    unfolding init_step_def split Let_def d r h w_def [symmetric] by simp
qed

text \<open>The element number \<open>i\<close> for the seed \<open>v\<close>.\<close>

definition seed_value :: "int \<Rightarrow> nat \<Rightarrow> int" where
  "seed_value v i = 9069 ^ i * v mod 2 ^ 31"

lemma seed_value_range: "0 \<le> seed_value v i" "seed_value v i < 2 ^ 31"
  by (simp_all add: seed_value_def)

lemma seed_value_Suc: "9069 * seed_value v i mod 2 ^ 31 = seed_value v (Suc i)"
  by (simp add: seed_value_def mod_mult_right_eq mult.assoc)

lemma seed_value_0: "0 \<le> v \<Longrightarrow> v < 2 ^ 31 \<Longrightarrow> seed_value v 0 = v"
  by (simp add: seed_value_def)

lemma init_loop:
  assumes v: "0 \<le> v" "v < 2 ^ 31" and len: "length m0 = 17"
  shows "for_each [0..<17] (init_step 9069 0) (fst (halves v), snd (halves v), m0) =
    Done (fst (halves (seed_value v 17)), snd (halves (seed_value v 17)),
      map (\<lambda>i. word_of_int (seed_value v (Suc i))) [0..<17])"
proof -
  define Q where "Q = (\<lambda>n (j0, j1, m). j0 = fst (halves (seed_value v n)) \<and>
    j1 = snd (halves (seed_value v n)) \<and> length m = 17 \<and>
    (\<forall>i < n. m ! i = (word_of_int (seed_value v (Suc i)) :: i32)))"
  have "\<exists>s. for_each [0..<17] (init_step 9069 0) (fst (halves v), snd (halves v), m0) = Done s \<and> Q 17 s"
  proof (rule for_each_inv)
    show "Q 0 (fst (halves v), snd (halves v), m0)"
      using len v by (simp add: Q_def seed_value_0)
    fix i and s :: "i32 \<times> i32 \<times> i32 list" assume "i < 17" "Q i s"
    then show "\<exists>s'. init_step 9069 0 i s = Done s' \<and> Q (Suc i) s'"
      using init_step_eq [OF seed_value_range, of i v i "snd (snd s)"]
      by (cases s) (auto simp: Q_def put_at_def seed_value_Suc [simplified] Let_def nth_list_update less_Suc_eq)
  qed simp
  then show ?thesis
    by (auto simp: Q_def intro!: nth_equalityI)
qed

text \<open>The odd number the seed becomes.\<close>

definition odd_seed :: "int \<Rightarrow> int" where
  "odd_seed s = (let j = min \<bar>s\<bar> (2 ^ 31 - 1) in if even j then j - 1 else j)"

lemma odd_seed_range:
  assumes "s \<noteq> 0"
  shows "0 < odd_seed s" "odd_seed s < 2 ^ 31" "odd (odd_seed s)"
  using assms by (auto simp: odd_seed_def Let_def min_def elim!: evenE)

definition first_elements :: "i32 \<Rightarrow> int list" where
  "first_elements seed = map (\<lambda>i. seed_value (odd_seed (sint seed)) (Suc i)) [0..<17]"

lemma initialize_run:
  assumes seed: "seed \<noteq> 0" "sint seed \<noteq> - (2 ^ 31)" and len: "length (r_m R) = 17"
  shows "initialize R seed = Done (R\<lparr>r_seed := seed, r_m := map word_of_int (first_elements seed),
    r_i := 4, r_j := 16\<rparr>)"
proof -
  define s1 where "s1 = (if seed <s 0 then - seed else seed)"
  define s2 where "s2 = (if s1 <s m1 then s1 else m1)"
  define s3 where "s3 = (if smod32 s2 2 = 0 then s2 - 1 else s2)"
  define v where "v = odd_seed (sint seed)"
  have s: "sint seed \<noteq> 0"
    using seed(1) by (metis signed_0 signed_word_eqI)
  have r: "- (2 ^ 31) < sint seed" "sint seed < 2 ^ 31"
    using sint_ge [of seed] sint_lt [of seed] seed(2) by simp_all
  have "sint s1 = \<bar>sint seed\<bar>"
    using r sint_of_int_self [of "- sint seed"] by (simp add: s1_def word_sless_alt)
  then have s2: "sint s2 = min \<bar>sint seed\<bar> (2 ^ 31 - 1)"
    by (simp add: s2_def word_sless_alt m1_eq min_def)
  then have b2: "0 < sint s2" "sint s2 < 2 ^ 31"
    using s by (auto simp: min_def split: if_splits)
  have e: "smod32 s2 2 = 0 \<longleftrightarrow> even (sint s2)"
  proof -
    have "smod32 s2 2 = word_of_int (sint s2 mod 2)"
      using b2 by (simp add: smod32_def smod_nonneg)
    then show ?thesis by (cases "even (sint s2)") (simp_all add: odd_iff_mod_2_eq_one)
  qed
  have s3: "sint s3 = v"
    using sint_ring(2) [of s2 1] b2 unfolding s3_def e
    by (simp add: v_def odd_seed_def Let_def s2 [symmetric, simplified])
  have v: "0 \<le> v" "v < 2 ^ 31"
    using odd_seed_range [OF s] by (simp_all add: v_def)
  have j0: "smod32 s3 m2 = fst (halves v)" and j1: "sdiv32 s3 m2 = snd (halves v)"
    using v by (simp_all add: smod32_def sdiv32_def s3 m2_eq halves_def smod_nonneg sdiv_nonneg)
  have k: "smod32 9069 m2 = 9069" "sdiv32 9069 m2 = 0"
    by (simp_all add: smod32_def sdiv32_def m2_eq smod_nonneg sdiv_nonneg)
  show ?thesis
    unfolding initialize_def Let_def s1_def [symmetric] s2_def [symmetric] s3_def [symmetric] j0 j1 k
    using init_loop [OF v len] by (simp add: first_elements_def v_def [symmetric] comp_def)
qed

lemma new_Random_seed_run:
  assumes seed: "seed \<noteq> 0" "sint seed \<noteq> - (2 ^ 31)"
    and ok: "fst (malloc P e)"
  shows "\<exists>R. new_Random_seed P seed e = Done (R, snd (malloc P e)) \<and> random_ok R \<and>
    history R = rev (first_elements seed) \<and> scaled P R = (\<lambda>k. f_mul P (dm1 P) (f_int P k))"
proof -
  define m where "m = (map word_of_int (first_elements seed) :: i32 list)"
  have m: "m ! i = word_of_int (first_elements seed ! i)" "sint (m ! i) = first_elements seed ! i"
    if "i < 17" for i
    using that seed_value_range [of "odd_seed (sint seed)" "Suc i"]
    unfolding m_def first_elements_def by (auto simp del: sint_of_int_self intro!: sint_of_int_self)
  have lm: "length m = 17" by (simp add: m_def first_elements_def)
  define R where "R = (fresh_Random P)\<lparr>r_seed := seed, r_m := m, r_i := 4, r_j := 16,
    r_left := f_lit P 0 0, r_right := f_lit P 1 0, r_width := f_lit P 1 0, r_haveRange := False\<rparr>"
  have "new_Random_seed P seed e = Done (R, snd (malloc P e))"
    using ok initialize_run [OF seed, of "fresh_Random P"]
    by (auto simp: new_Random_seed_def Let_def split_beta R_def m_def fresh_Random_def)
  moreover have "random_ok R"
    using lm m seed_value_range by (auto simp: random_ok_def R_def in_set_conv_nth first_elements_def)
  moreover have "history R = rev (first_elements seed)"
  proof (rule nth_equalityI)
    fix t assume "t < length (history R)"
    then have t: "t < 17" by (simp add: history_def)
    then have "slot 16 t = 16 - t" by (simp add: slot_def mod_if)
    then show "history R ! t = rev (first_elements seed) ! t"
      using t m(2) [of "16 - t"] nth_upt [of 0 "16 - t" 17]
      by (simp add: history_def R_def rev_nth first_elements_def)
  qed (simp add: history_def first_elements_def)
  moreover have "scaled P R = (\<lambda>k. f_mul P (dm1 P) (f_int P k))"
    by (rule ext) (simp add: scaled_def R_def)
  ultimately show ?thesis by blast
qed

lemma length_lagged_fibonacci [simp]: "length (lagged_fibonacci n h) = n"
  by (induction n arbitrary: h) simp_all

text \<open>A vector of random numbers on a new generator.\<close>

lemma RandomVector_run:
  assumes "random_ok R" "fst (malloc P e)"
  shows "\<exists>ks R'. RandomVector P N R e = Done (Some (map (scaled P R) ks), R', snd (malloc P e)) \<and>
    map sint ks = lagged_fibonacci (turns N) (history R) \<and> random_ok R' \<and> length ks = turns N"
proof -
  obtain ks R' where "random_values P (turns N) R = Done (map (scaled P R) ks, R')"
    "map sint ks = lagged_fibonacci (turns N) (history R)" "random_ok R'"
    using random_values_run [OF assms(1), of P "turns N"] by blast
  moreover from this have "length ks = turns N"
    by (metis length_map length_lagged_fibonacci)
  ultimately show ?thesis
    using assms(2) by (intro exI [of _ ks] exI [of _ R']) (simp add: RandomVector_def Let_def split_beta)
qed

text \<open>A matrix has the shape that was asked for, or there was no memory for it.\<close>

lemma random_rows_run:
  "random_ok R \<Longrightarrow> \<exists>A R' e'. random_rows P N m R e = Done (A, R', e') \<and> random_ok R' \<and>
     (case A of None \<Rightarrow> \<exists>k. \<not> malloc_ok P k | Some rows \<Rightarrow> shaped m (turns N) rows \<and> live e' = live e + m)"
proof (induction m arbitrary: R e)
  case 0
  then show ?case by (simp add: shaped_def)
next
  case (Suc m)
  obtain ks R1 where 1: "random_values P (turns N) R = Done (map (scaled P R) ks, R1)"
    "map sint ks = lagged_fibonacci (turns N) (history R)" "random_ok R1"
    using random_values_run [OF Suc.prems, of P "turns N"] by blast
  have len: "length ks = turns N"
    using 1(2) by (metis length_map length_lagged_fibonacci)
  obtain A R2 e2 where 2: "random_rows P N m R1 (snd (malloc P e)) = Done (A, R2, e2)" "random_ok R2"
    "case A of None \<Rightarrow> \<exists>k. \<not> malloc_ok P k
      | Some rows \<Rightarrow> shaped m (turns N) rows \<and> live e2 = live (snd (malloc P e)) + m"
    using Suc.IH [OF 1(3), of "snd (malloc P e)"] by blast
  show ?case
  proof (cases "malloc_ok P (mallocs e)")
    case True
    then show ?thesis
      using 1(1) 2 len
      by (cases A)
        (auto simp: Let_def split_beta malloc_def shaped_def
          intro!: exI [of _ "map_option (Cons (map (scaled P R) ks)) A"] exI [of _ R2] exI [of _ e2])
  next
    case False
    then show ?thesis
      using Suc.prems by (auto simp: malloc_def)
  qed
qed

end
