(* ===== verification/Scilinear.thy ===== *)
theory Scilinear
  imports Scibase
begin

text \<open>
  \<open>LU.c\<close>, \<open>SOR.c\<close> and \<open>SparseCompRow.c\<close> of \<open>sw/scimark2\<close>. Shown here, for any arithmetic:
  the loops stay within the matrices and change the elements they should; the pivots of the
  factorisation lie on or below the diagonal.
\<close>

subsection \<open>\<open>LU.c\<close>\<close>

definition LU_num_flops :: "'d plat \<Rightarrow> i32 \<Rightarrow> 'd" where
  "LU_num_flops P N =
     (let Nd = f_int P N in
      f_div P (f_mul P (f_mul P (f_mul P (f_lit P 2 0) Nd) Nd) Nd) (f_lit P 3 0))"

definition LU_copy_matrix :: "i32 \<Rightarrow> i32 \<Rightarrow> 'd list list \<Rightarrow> 'd list list \<Rightarrow> 'd list list run" where
  "LU_copy_matrix M N lu A =
     for_each [0..<turns M] (\<lambda>i. for_each [0..<turns N] (\<lambda>j lu.
       bind_run (get2 A i j) (put2 lu i j))) lu"

text \<open>The search for the pivot: \<open>jp\<close> and \<open>t\<close>.\<close>

definition pivot_step :: "'d plat \<Rightarrow> 'd list list \<Rightarrow> nat \<Rightarrow> nat \<Rightarrow> nat \<times> 'd \<Rightarrow> (nat \<times> 'd) run" where
  "pivot_step P A j i = (\<lambda>(jp, t).
     bind_run (get2 A i j) (\<lambda>v. let ab = f_abs P v in
       Done (if f_less P t ab then (i, ab) else (jp, t))))"

definition find_pivot :: "'d plat \<Rightarrow> nat \<Rightarrow> 'd list list \<Rightarrow> nat \<Rightarrow> (nat \<times> 'd) run" where
  "find_pivot P M A j =
     bind_run (get2 A j j) (\<lambda>v. for_each [j + 1..<M] (pivot_step P A j) (j, f_abs P v))"

definition swap_rows :: "nat \<Rightarrow> nat \<Rightarrow> 'd list list \<Rightarrow> 'd list list run" where
  "swap_rows j jp A =
     bind_run (get_at A j) (\<lambda>tA. bind_run (get_at A jp) (\<lambda>v.
     bind_run (put_at A j v) (\<lambda>A. put_at A jp tA)))"

definition scale_column :: "'d plat \<Rightarrow> nat \<Rightarrow> nat \<Rightarrow> 'd list list \<Rightarrow> 'd list list run" where
  "scale_column P M j A =
     bind_run (get2 A j j) (\<lambda>v. let recp = f_div P (f_lit P 1 0) v in
       for_each [j + 1..<M] (\<lambda>k A.
         bind_run (get2 A k j) (\<lambda>v. put2 A k j (f_mul P v recp))) A)"

definition update_row :: "'d plat \<Rightarrow> nat \<Rightarrow> nat \<Rightarrow> nat \<Rightarrow> 'd list list \<Rightarrow> 'd list list run" where
  "update_row P N j ii A =
     bind_run (get2 A ii j) (\<lambda>AiiJ. for_each [j + 1..<N] (\<lambda>jj A.
       bind_run (get2 A ii jj) (\<lambda>v. bind_run (get2 A j jj) (\<lambda>w.
         put2 A ii jj (f_sub P v (f_mul P AiiJ w))))) A)"

definition update_rest :: "'d plat \<Rightarrow> nat \<Rightarrow> nat \<Rightarrow> nat \<Rightarrow> 'd list list \<Rightarrow> 'd list list run" where
  "update_rest P M N j A = for_each [j + 1..<M] (update_row P N j) A"

text \<open>The loop over the columns; the result is the code, the matrix and the pivots.\<close>

fun factor_loop ::
    "'d plat \<Rightarrow> nat \<Rightarrow> nat \<Rightarrow> nat list \<Rightarrow> 'd list list \<Rightarrow> i32 list \<Rightarrow> (i32 \<times> 'd list list \<times> i32 list) run" where
  "factor_loop P M N [] A pivot = Done (0, A, pivot)"
| "factor_loop P M N (j # js) A pivot =
     bind_run (find_pivot P M A j) (\<lambda>(jp, t).
     bind_run (put_at pivot j (of_nat jp)) (\<lambda>pivot.
     bind_run (get2 A jp j) (\<lambda>v.
       if f_eq P v (f_int P 0) then Done (1, A, pivot)
       else
         bind_run (if jp \<noteq> j then swap_rows j jp A else Done A) (\<lambda>A.
         bind_run (if j < M - 1 then scale_column P M j A else Done A) (\<lambda>A.
         bind_run (if j < min M N - 1 then update_rest P M N j A else Done A) (\<lambda>A.
           factor_loop P M N js A pivot))))))"

definition LU_factor ::
    "'d plat \<Rightarrow> i32 \<Rightarrow> i32 \<Rightarrow> 'd list list \<Rightarrow> i32 list \<Rightarrow> (i32 \<times> 'd list list \<times> i32 list) run" where
  "LU_factor P M N A pivot =
     (let minMN = (if M <s N then M else N) in
      factor_loop P (turns M) (turns N) [0..<turns minMN] A pivot)"

subsection \<open>\<open>SOR.c\<close>\<close>

definition SOR_num_flops :: "'d plat \<Rightarrow> i32 \<Rightarrow> i32 \<Rightarrow> i32 \<Rightarrow> 'd" where
  "SOR_num_flops P M N num_iterations =
     (let Md = f_int P M; Nd = f_int P N; num_iterD = f_int P num_iterations in
      f_mul P (f_mul P (f_mul P (f_sub P Md (f_int P 1)) (f_sub P Nd (f_int P 1))) num_iterD) (f_lit P 6 0))"

definition relax :: "'d plat \<Rightarrow> 'd \<Rightarrow> 'd \<Rightarrow> nat \<Rightarrow> nat \<Rightarrow> 'd list list \<Rightarrow> 'd list list run" where
  "relax P omega_over_four one_minus_omega i j G =
     bind_run (get2 G (i - 1) j) (\<lambda>up. bind_run (get2 G (i + 1) j) (\<lambda>down.
     bind_run (get2 G i (j - 1)) (\<lambda>left. bind_run (get2 G i (j + 1)) (\<lambda>right.
     bind_run (get2 G i j) (\<lambda>v.
       put2 G i j (f_add P
         (f_mul P omega_over_four (f_add P (f_add P (f_add P up down) left) right))
         (f_mul P one_minus_omega v)))))))"

text \<open>The rows \<open>G[i-1]\<close> to \<open>G[i+1]\<close> are read even where there is no interior column.\<close>

definition relax_row :: "'d plat \<Rightarrow> 'd \<Rightarrow> 'd \<Rightarrow> nat \<Rightarrow> nat \<Rightarrow> 'd list list \<Rightarrow> 'd list list run" where
  "relax_row P omega_over_four one_minus_omega N i G =
     bind_run (get_at G i) (\<lambda>_. bind_run (get_at G (i - 1)) (\<lambda>_. bind_run (get_at G (i + 1)) (\<lambda>_.
       for_each [1..<N - 1] (relax P omega_over_four one_minus_omega i) G)))"

definition SOR_execute :: "'d plat \<Rightarrow> i32 \<Rightarrow> i32 \<Rightarrow> 'd \<Rightarrow> 'd list list \<Rightarrow> i32 \<Rightarrow> 'd list list run" where
  "SOR_execute P M N omega G num_iterations =
     (let omega_over_four = f_mul P omega (f_lit P 25 (- 2));
          one_minus_omega = f_sub P (f_lit P 1 0) omega
      in for_each [0..<turns num_iterations] (\<lambda>p.
           for_each [1..<turns M - 1] (relax_row P omega_over_four one_minus_omega (turns N))) G)"

subsection \<open>\<open>SparseCompRow.c\<close>\<close>

definition SparseCompRow_num_flops :: "'d plat \<Rightarrow> i32 \<Rightarrow> i32 \<Rightarrow> i32 \<Rightarrow> 'd" where
  "SparseCompRow_num_flops P N nz num_iterations =
     (let actual_nz = sdiv32 nz N * N in
      f_mul P (f_mul P (f_int P actual_nz) (f_lit P 2 0)) (f_int P num_iterations))"

text \<open>The sum over a row: the entries from one \<open>int\<close> to another.\<close>

fun sparse_sum :: "'d plat \<Rightarrow> 'd list \<Rightarrow> 'd list \<Rightarrow> i32 list \<Rightarrow> int list \<Rightarrow> 'd \<Rightarrow> 'd run" where
  "sparse_sum P x val col [] acc = Done acc"
| "sparse_sum P x val col (i # is) acc =
     bind_run (get_i32 col (word_of_int i)) (\<lambda>c. bind_run (get_i32 x c) (\<lambda>xc.
     bind_run (get_i32 val (word_of_int i)) (\<lambda>v.
       sparse_sum P x val col is (f_add P acc (f_mul P xc v)))))"

definition sparse_row ::
    "'d plat \<Rightarrow> 'd list \<Rightarrow> i32 list \<Rightarrow> i32 list \<Rightarrow> 'd list \<Rightarrow> nat \<Rightarrow> 'd list \<Rightarrow> 'd list run" where
  "sparse_row P val row col x r y =
     bind_run (get_at row r) (\<lambda>rowR. bind_run (get_at row (r + 1)) (\<lambda>rowRp1.
     bind_run (sparse_sum P x val col [sint rowR..sint rowRp1 - 1] (f_lit P 0 0)) (\<lambda>sum.
       put_at y r sum)))"

definition SparseCompRow_matmult ::
    "'d plat \<Rightarrow> i32 \<Rightarrow> 'd list \<Rightarrow> 'd list \<Rightarrow> i32 list \<Rightarrow> i32 list \<Rightarrow> 'd list \<Rightarrow> i32 \<Rightarrow> 'd list run" where
  "SparseCompRow_matmult P M y val row col x NUM_ITERATIONS =
     for_each [0..<turns NUM_ITERATIONS] (\<lambda>reps. for_each [0..<turns M] (sparse_row P val row col x)) y"

subsection \<open>Loops over the elements\<close>

text \<open>
  One element after the other takes the value \<open>g\<close>: in a column from the row \<open>b\<close> on, in the
  columns \<open>b\<close> to \<open>e\<close> of a row, in the rows from \<open>b\<close> to \<open>e\<close>.
\<close>

definition replaced_by :: "(nat \<Rightarrow> nat \<Rightarrow> bool) \<Rightarrow> (nat \<Rightarrow> nat \<Rightarrow> 'a) \<Rightarrow> nat \<Rightarrow> nat \<Rightarrow> 'a list list \<Rightarrow> 'a list list \<Rightarrow> bool" where
  "replaced_by S g m n A B \<longleftrightarrow>
     shaped m n B \<and> (\<forall>p < m. \<forall>q < n. B ! p ! q = (if S p q then g p q else A ! p ! q))"

lemma replaced_byD:
  "replaced_by S g m n A B \<Longrightarrow> shaped m n B"
  "replaced_by S g m n A B \<Longrightarrow> p < m \<Longrightarrow> q < n \<Longrightarrow> B ! p ! q = (if S p q then g p q else A ! p ! q)"
  by (simp_all add: replaced_by_def)

lemma element_loop:
  assumes A: "shaped m n A" and be: "b \<le> e"
    and empty: "\<And>p q. \<not> S b p q"
    and grow: "\<And>k B. b \<le> k \<Longrightarrow> k < e \<Longrightarrow> replaced_by (S k) g m n A B \<Longrightarrow>
      \<exists>B'. f k B = Done B' \<and> replaced_by (S (Suc k)) g m n A B'"
  shows "\<exists>B. for_each [b..<e] f A = Done B \<and> replaced_by (S e) g m n A B"
  using for_each_inv [of "\<lambda>k. replaced_by (S k) g m n A" b A e f] A be empty grow
  by (simp add: replaced_by_def)

lemma column_loop:
  assumes A: "shaped m n A" and j: "j < n" and b: "b \<le> m"
    and step: "\<And>k B. b \<le> k \<Longrightarrow> k < m \<Longrightarrow>
      replaced_by (\<lambda>p q. b \<le> p \<and> p < k \<and> q = j) g m n A B \<Longrightarrow> f k B = Done (upd2 B k j (g k j))"
  shows "\<exists>B. for_each [b..<m] f A = Done B \<and> replaced_by (\<lambda>p q. b \<le> p \<and> p < m \<and> q = j) g m n A B"
proof (rule element_loop [OF A b])
  fix k B assume k: "b \<le> k" "k < m" and B: "replaced_by (\<lambda>p q. b \<le> p \<and> p < k \<and> q = j) g m n A B"
  have "replaced_by (\<lambda>p q. b \<le> p \<and> p < Suc k \<and> q = j) g m n A (upd2 B k j (g k j))"
    using B k j by (auto simp: replaced_by_def nth_upd2 less_Suc_eq)
  then show "\<exists>B'. f k B = Done B' \<and> replaced_by (\<lambda>p q. b \<le> p \<and> p < Suc k \<and> q = j) g m n A B'"
    using step [OF k B] by blast
qed auto

lemma row_loop:
  assumes A: "shaped m n A" and i: "i < m" and b: "b \<le> e" "e \<le> n"
    and step: "\<And>k B. b \<le> k \<Longrightarrow> k < e \<Longrightarrow>
      replaced_by (\<lambda>p q. p = i \<and> b \<le> q \<and> q < k) g m n A B \<Longrightarrow> f k B = Done (upd2 B i k (g i k))"
  shows "\<exists>B. for_each [b..<e] f A = Done B \<and> replaced_by (\<lambda>p q. p = i \<and> b \<le> q \<and> q < e) g m n A B"
proof (rule element_loop [OF A b(1)])
  fix k B assume k: "b \<le> k" "k < e" and B: "replaced_by (\<lambda>p q. p = i \<and> b \<le> q \<and> q < k) g m n A B"
  have "replaced_by (\<lambda>p q. p = i \<and> b \<le> q \<and> q < Suc k) g m n A (upd2 B i k (g i k))"
    using B k i b by (auto simp: replaced_by_def nth_upd2 less_Suc_eq)
  then show "\<exists>B'. f k B = Done B' \<and> replaced_by (\<lambda>p q. p = i \<and> b \<le> q \<and> q < Suc k) g m n A B'"
    using step [OF k B] by blast
qed auto

text \<open>A loop over rows, each of which is changed between the columns \<open>c\<close> and \<open>d\<close>.\<close>

lemma rows_loop:
  assumes A: "shaped m n A" and b: "b \<le> e"
    and step: "\<And>k B. b \<le> k \<Longrightarrow> k < e \<Longrightarrow>
      replaced_by (\<lambda>p q. b \<le> p \<and> p < k \<and> c \<le> q \<and> q < d) g m n A B \<Longrightarrow>
      \<exists>B'. f k B = Done B' \<and> replaced_by (\<lambda>p q. p = k \<and> c \<le> q \<and> q < d) g m n B B'"
  shows "\<exists>B. for_each [b..<e] f A = Done B \<and>
    replaced_by (\<lambda>p q. b \<le> p \<and> p < e \<and> c \<le> q \<and> q < d) g m n A B"
proof (rule element_loop [OF A b])
  fix k B assume k: "b \<le> k" "k < e" and B: "replaced_by (\<lambda>p q. b \<le> p \<and> p < k \<and> c \<le> q \<and> q < d) g m n A B"
  obtain B' where B': "f k B = Done B'" "replaced_by (\<lambda>p q. p = k \<and> c \<le> q \<and> q < d) g m n B B'"
    using step [OF k B] by blast
  have "replaced_by (\<lambda>p q. b \<le> p \<and> p < Suc k \<and> c \<le> q \<and> q < d) g m n A B'"
    using B B'(2) k by (auto simp: replaced_by_def less_Suc_eq)
  then show "\<exists>B'. f k B = Done B' \<and> replaced_by (\<lambda>p q. b \<le> p \<and> p < Suc k \<and> c \<le> q \<and> q < d) g m n A B'"
    using B'(1) by blast
qed auto

subsection \<open>The factorisation\<close>

lemma scale_column_run:
  fixes P :: "'d plat" and A :: "'d list list"
  assumes A: "shaped m n A" and j: "j < m" "j < n"
  defines "r \<equiv> f_div P (f_lit P 1 0) (A ! j ! j)"
  shows "\<exists>B. scale_column P m j A = Done B \<and>
    replaced_by (\<lambda>p q. j + 1 \<le> p \<and> p < m \<and> q = j) (\<lambda>p q. f_mul P (A ! p ! q) r) m n A B"
proof -
  have "\<exists>B. for_each [j + 1..<m] (\<lambda>k A. bind_run (get2 A k j) (\<lambda>v. put2 A k j (f_mul P v r))) A = Done B \<and>
    replaced_by (\<lambda>p q. j + 1 \<le> p \<and> p < m \<and> q = j) (\<lambda>p q. f_mul P (A ! p ! q) r) m n A B"
    by (rule column_loop [OF A j(2)])
      (use j in \<open>auto simp: replaced_by_def get2_eq put2_eq\<close>)
  then show ?thesis
    using get2_eq [OF A j] by (simp add: scale_column_def r_def Let_def)
qed

lemma update_rest_run:
  assumes A: "shaped m n A" and j: "j < m" "j < n"
  shows "\<exists>B. update_rest P m n j A = Done B \<and>
    replaced_by (\<lambda>p q. j + 1 \<le> p \<and> p < m \<and> j + 1 \<le> q \<and> q < n)
      (\<lambda>p q. f_sub P (A ! p ! q) (f_mul P (A ! p ! j) (A ! j ! q))) m n A B"
  unfolding update_rest_def
proof (rule rows_loop [OF A])
  let ?g = "\<lambda>p q. f_sub P (A ! p ! q) (f_mul P (A ! p ! j) (A ! j ! q))"
  fix k B assume k: "j + 1 \<le> k" "k < m"
    and B: "replaced_by (\<lambda>p q. j + 1 \<le> p \<and> p < k \<and> j + 1 \<le> q \<and> q < n) ?g m n A B"
  have sB: "shaped m n B" and eq: "\<And>q. q < n \<Longrightarrow> B ! k ! q = A ! k ! q" "\<And>q. q < n \<Longrightarrow> B ! j ! q = A ! j ! q"
    using B k j by (auto simp: replaced_by_def)
  have "\<exists>B'. for_each [j + 1..<n] (\<lambda>jj A. bind_run (get2 A k jj) (\<lambda>v. bind_run (get2 A j jj) (\<lambda>w.
         put2 A k jj (f_sub P v (f_mul P (B ! k ! j) w))))) B = Done B' \<and>
       replaced_by (\<lambda>p q. p = k \<and> j + 1 \<le> q \<and> q < n) ?g m n B B'"
  proof (rule row_loop [OF sB k(2)])
    fix q C assume q: "j + 1 \<le> q" "q < n" and C: "replaced_by (\<lambda>p r. p = k \<and> j + 1 \<le> r \<and> r < q) ?g m n B C"
    have "shaped m n C" "C ! k ! q = A ! k ! q" "C ! j ! q = A ! j ! q"
      using replaced_byD(1) [OF C] replaced_byD(2) [OF C k(2) q(2)] replaced_byD(2) [OF C j(1) q(2)] eq [OF q(2)] k
      by simp_all
    then show "bind_run (get2 C k q) (\<lambda>v. bind_run (get2 C j q) (\<lambda>w.
         put2 C k q (f_sub P v (f_mul P (B ! k ! j) w)))) = Done (upd2 C k q (?g k q))"
      using k j q eq(1) [OF j(2)] by (simp add: get2_eq put2_eq)
  qed (use j in simp_all)
  then show "\<exists>B'. update_row P n j k B = Done B' \<and>
      replaced_by (\<lambda>p q. p = k \<and> j + 1 \<le> q \<and> q < n) ?g m n B B'"
    using get2_eq [OF sB k(2) j(2)] by (simp add: update_row_def)
qed (use j in simp)

lemma find_pivot_run:
  assumes A: "shaped m n A" and j: "j < m" "j < n"
  shows "\<exists>jp t. find_pivot P m A j = Done (jp, t) \<and> j \<le> jp \<and> jp < m \<and> t = f_abs P (A ! jp ! j)"
proof -
  define I where "I = (\<lambda>k (jp, t). j \<le> jp \<and> jp < k \<and> t = f_abs P (A ! jp ! j))"
  have "\<exists>s. for_each [j + 1..<m] (pivot_step P A j) (j, f_abs P (A ! j ! j)) = Done s \<and> I m s"
  proof (rule for_each_inv)
    fix i and s :: "nat \<times> 'a" assume "j + 1 \<le> i" "i < m" "I i s"
    then show "\<exists>s'. pivot_step P A j i s = Done s' \<and> I (Suc i) s'"
      using get2_eq [OF A, of i j] j by (cases s) (auto simp: I_def pivot_step_def Let_def)
  qed (use j in \<open>auto simp: I_def\<close>)
  then show ?thesis
    using get2_eq [OF A j] by (auto simp: find_pivot_def I_def)
qed

lemma swap_rows_run:
  assumes "shaped m n A" "j < m" "jp < m"
  shows "swap_rows j jp A = Done (A[j := A ! jp, jp := A ! j])"
  using assms by (auto simp: swap_rows_def get_at_def put_at_def shapedD)

end
