(* ===== verification/Scikernel.thy ===== *)
theory Scikernel
  imports Scirandom Scifft Scilinear
begin

text \<open>
  \<open>Stopwatch.c\<close>, \<open>kernel.c\<close>, \<open>scimark2.c\<close> and \<open>constants.h\<close> of \<open>sw/scimark2\<close>: each kernel is run
  with a number of cycles that doubles until it takes the time asked for. What is printed is
  left out.
\<close>

subsection \<open>\<open>Stopwatch.c\<close>\<close>

record 'd Stopwatch_struct =
  sw_running :: bool
  sw_last_time :: 'd
  sw_total :: 'd

definition CLOCKS_PER_SEC :: i32 where
  "CLOCKS_PER_SEC = 100000"

definition clock :: "'d plat \<Rightarrow> env \<Rightarrow> i32 \<times> env" where
  "clock P e = (rdcycle P (reads e), e\<lparr>reads := reads e + 1\<rparr>)"

definition seconds :: "'d plat \<Rightarrow> env \<Rightarrow> 'd \<times> env" where
  "seconds P e =
     (let (c, e) = clock P e in (f_div P (f_clock P c) (f_int P CLOCKS_PER_SEC), e))"

definition Stopwtach_reset :: "'d plat \<Rightarrow> 'd Stopwatch_struct \<Rightarrow> 'd Stopwatch_struct" where
  "Stopwtach_reset P Q = Q\<lparr>sw_running := False, sw_last_time := f_lit P 0 0, sw_total := f_lit P 0 0\<rparr>"

definition new_Stopwatch :: "'d plat \<Rightarrow> env \<Rightarrow> 'd Stopwatch_struct option \<times> env" where
  "new_Stopwatch P e =
     (let (ok, e) = malloc P e in
      (if ok then Some (Stopwtach_reset P
         \<lparr>sw_running = junk_int P \<noteq> 0, sw_last_time = junk P, sw_total = junk P\<rparr>) else None, e))"

definition Stopwatch_delete :: "'d Stopwatch_struct option \<Rightarrow> env \<Rightarrow> env" where
  "Stopwatch_delete S e = (if S \<noteq> None then free e else e)"

definition Stopwatch_start :: "'d plat \<Rightarrow> 'd Stopwatch_struct \<Rightarrow> env \<Rightarrow> 'd Stopwatch_struct \<times> env" where
  "Stopwatch_start P Q e =
     (if \<not> sw_running Q
      then let (t, e) = seconds P e in (Q\<lparr>sw_running := True, sw_total := f_lit P 0 0, sw_last_time := t\<rparr>, e)
      else (Q, e))"

definition Stopwatch_resume :: "'d plat \<Rightarrow> 'd Stopwatch_struct \<Rightarrow> env \<Rightarrow> 'd Stopwatch_struct \<times> env" where
  "Stopwatch_resume P Q e =
     (if \<not> sw_running Q
      then let (t, e) = seconds P e in (Q\<lparr>sw_last_time := t, sw_running := True\<rparr>, e)
      else (Q, e))"

definition Stopwatch_stop :: "'d plat \<Rightarrow> 'd Stopwatch_struct \<Rightarrow> env \<Rightarrow> 'd Stopwatch_struct \<times> env" where
  "Stopwatch_stop P Q e =
     (if sw_running Q
      then let (t, e) = seconds P e
           in (Q\<lparr>sw_total := f_add P (sw_total Q) (f_sub P t (sw_last_time Q)), sw_running := False\<rparr>, e)
      else (Q, e))"

definition Stopwatch_read :: "'d plat \<Rightarrow> 'd Stopwatch_struct \<Rightarrow> env \<Rightarrow> 'd \<times> 'd Stopwatch_struct \<times> env" where
  "Stopwatch_read P Q e =
     (if sw_running Q
      then let (t, e) = seconds P e;
               Q = Q\<lparr>sw_total := f_add P (sw_total Q) (f_sub P t (sw_last_time Q)), sw_last_time := t\<rparr>
           in (sw_total Q, Q, e)
      else (sw_total Q, Q, e))"

subsection \<open>\<open>kernel.c\<close>\<close>

text \<open>
  The loop that all kernels share: \<open>body cycles\<close> is what is timed, on the data of the kernel. The
  result is the number of cycles, the data and the time.
\<close>

partial_function (option) timing ::
    "'d plat \<Rightarrow> 'd \<Rightarrow> (i32 \<Rightarrow> 's \<Rightarrow> env \<Rightarrow> ('s \<times> env) comp) \<Rightarrow> i32 \<Rightarrow> 's \<Rightarrow> 'd Stopwatch_struct \<Rightarrow> env \<Rightarrow>
     (i32 \<times> 's \<times> 'd \<times> env) comp" where
  "timing P mintime body cycles s Q e =
     (let (Q, e) = Stopwatch_start P Q e in
      bind_comp (body cycles s e) (\<lambda>(s, e).
        let (Q, e) = Stopwatch_stop P Q e; (t, Q, e) = Stopwatch_read P Q e in
        if f_le P mintime t
        then let (t, Q, e) = Stopwatch_read P Q e in Some (Done (cycles, s, t, e))
        else timing P mintime body (cycles * 2) s Q e))"

text \<open>The stopwatch is allocated, used and deleted.\<close>

definition timed ::
    "'d plat \<Rightarrow> 'd \<Rightarrow> (i32 \<Rightarrow> 's \<Rightarrow> env \<Rightarrow> ('s \<times> env) comp) \<Rightarrow> 's \<Rightarrow> 'd Stopwatch_struct option \<Rightarrow> env \<Rightarrow>
     (i32 \<times> 's \<times> 'd \<times> env) comp" where
  "timed P mintime body s Q e = bind_comp (Some (deref Q)) (\<lambda>Q. timing P mintime body 1 s Q e)"

text \<open>\<open>flops * cycles / time * 1.0e-6\<close> and \<open>flops / time * 1.0e-6\<close>\<close>

definition mflops :: "'d plat \<Rightarrow> 'd \<Rightarrow> 'd \<Rightarrow> 'd" where
  "mflops P flops t = f_mul P (f_div P flops t) (f_lit P 1 (- 6))"

definition fft_body :: "'d plat \<Rightarrow> i32 \<Rightarrow> i32 \<Rightarrow> 'd list \<Rightarrow> env \<Rightarrow> ('d list \<times> env) comp" where
  "fft_body P twoN cycles x e =
     bind_comp (repeat_comp (turns cycles) (\<lambda>x. bind_comp (FFT_transform P twoN x) (FFT_inverse P twoN)) x)
       (\<lambda>x. Some (Done (x, e)))"

definition kernel_measureFFT ::
    "'d plat \<Rightarrow> i32 \<Rightarrow> 'd \<Rightarrow> 'd Random_struct \<Rightarrow> env \<Rightarrow> ('d \<times> 'd Random_struct \<times> env) comp" where
  "kernel_measureFFT P N mintime R e =
     (let twoN = 2 * N in
      bind_comp (Some (RandomVector P twoN R e)) (\<lambda>(x, R, e).
        let (Q, e) = new_Stopwatch P e in
        bind_comp (timed P mintime (fft_body P twoN) (case x of None \<Rightarrow> [] | Some v \<Rightarrow> v) Q e)
          (\<lambda>(cycles, v, t, e).
            bind_comp (FFT_num_flops P N) (\<lambda>flops.
              let result = mflops P (f_mul P flops (f_int P cycles)) t;
                  e = Stopwatch_delete Q e;
                  e = (if x = None then e else free e)
              in Some (Done (result, R, e))))))"

text \<open>\<open>G\<close> may be null: it is dereferenced as soon as there is an interior row.\<close>

definition sor_body ::
    "'d plat \<Rightarrow> i32 \<Rightarrow> i32 \<Rightarrow> 'd list list option \<Rightarrow> env \<Rightarrow> ('d list list option \<times> env) comp" where
  "sor_body P N cycles G e =
     (case G of
        None \<Rightarrow> if 0 < turns cycles \<and> 1 < turns N - 1 then Some (Fault NullPointer) else Some (Done (None, e))
      | Some A \<Rightarrow> Some (bind_run (SOR_execute P N N (f_lit P 125 (- 2)) A cycles) (\<lambda>A. Done (Some A, e))))"

definition kernel_measureSOR ::
    "'d plat \<Rightarrow> i32 \<Rightarrow> 'd \<Rightarrow> 'd Random_struct \<Rightarrow> env \<Rightarrow> ('d \<times> 'd Random_struct \<times> env) comp" where
  "kernel_measureSOR P N min_time R e =
     bind_comp (Some (RandomMatrix P N N R e)) (\<lambda>(G, R, e).
       let (Q, e) = new_Stopwatch P e in
       bind_comp (timed P min_time (sor_body P N) G Q e) (\<lambda>(cycles, G, t, e).
         let result = mflops P (SOR_num_flops P N N cycles) t;
             e = Stopwatch_delete Q e
         in Some (Done (result, R, Array2D_double_delete N N G e))))"

definition mc_body :: "'d plat \<Rightarrow> i32 \<Rightarrow> unit \<Rightarrow> env \<Rightarrow> (unit \<times> env) comp" where
  "mc_body P cycles s e = Some (bind_run (MonteCarlo_integrate P cycles e) (\<lambda>(x, e). Done ((), e)))"

definition kernel_measureMonteCarlo ::
    "'d plat \<Rightarrow> 'd \<Rightarrow> 'd Random_struct \<Rightarrow> env \<Rightarrow> ('d \<times> 'd Random_struct \<times> env) comp" where
  "kernel_measureMonteCarlo P min_time R e =
     (let (Q, e) = new_Stopwatch P e in
      bind_comp (timed P min_time (mc_body P) () Q e) (\<lambda>(cycles, s, t, e).
        let result = mflops P (MonteCarlo_num_flops P cycles) t
        in Some (Done (result, R, Stopwatch_delete Q e))))"

definition alloc_ints :: "'d plat \<Rightarrow> i32 \<Rightarrow> env \<Rightarrow> i32 list option \<times> env" where
  "alloc_ints P n e =
     (let (ok, e) = malloc P e in (if ok then Some (replicate (turns n) (junk_int P)) else None, e))"

text \<open>The structure of the sparse matrix: the row \<open>r\<close>.\<close>

definition sparse_entry :: "i32 \<Rightarrow> i32 \<Rightarrow> nat \<Rightarrow> i32 list option \<Rightarrow> i32 list option run" where
  "sparse_entry rowr step i col =
     bind_run (deref col) (\<lambda>c. bind_run (put_i32 c (rowr + of_nat i) (of_nat i * step)) (\<lambda>c. Done (Some c)))"

definition sparse_structure ::
    "i32 \<Rightarrow> nat \<Rightarrow> i32 list \<times> i32 list option \<Rightarrow> (i32 list \<times> i32 list option) run" where
  "sparse_structure nr r = (\<lambda>(row, col).
     bind_run (get_at row r) (\<lambda>rowr.
       let step = sdiv32 (of_nat r) nr in
       bind_run (put_at row (r + 1) (rowr + nr)) (\<lambda>row.
         let step = (if step <s 1 then 1 else step) in
         bind_run (for_each [0..<turns nr] (sparse_entry rowr step) col) (\<lambda>col. Done (row, col)))))"

text \<open>Null arrays are dereferenced as soon as there is a row, or an entry.\<close>

definition or_empty :: "'a list option \<Rightarrow> 'a list" where
  "or_empty x = (case x of None \<Rightarrow> [] | Some v \<Rightarrow> v)"

definition sparse_body ::
    "'d plat \<Rightarrow> i32 \<Rightarrow> 'd list \<Rightarrow> i32 list \<Rightarrow> i32 list \<Rightarrow> 'd list \<Rightarrow> i32 \<Rightarrow> 'd list option \<Rightarrow> env \<Rightarrow>
     ('d list option \<times> env) comp" where
  "sparse_body P N val row col x cycles y e =
     (case y of
        None \<Rightarrow> if 0 < turns cycles \<and> 0 < turns N then Some (Fault NullPointer) else Some (Done (None, e))
      | Some v \<Rightarrow> Some (bind_run (SparseCompRow_matmult P N v val row col x cycles) (\<lambda>v. Done (Some v, e))))"

definition free_ptr :: "'a option \<Rightarrow> env \<Rightarrow> env" where
  "free_ptr p e = (if p = None then e else free e)"

definition kernel_measureSparseMatMult ::
    "'d plat \<Rightarrow> i32 \<Rightarrow> i32 \<Rightarrow> 'd \<Rightarrow> 'd Random_struct \<Rightarrow> env \<Rightarrow> ('d \<times> 'd Random_struct \<times> env) comp" where
  "kernel_measureSparseMatMult P N nz min_time R e =
     bind_comp (Some (RandomVector P N R e)) (\<lambda>(x, R, e).
       let (ok, e) = malloc P e;
           y = (if ok then Some (replicate (turns N) (junk P)) else None);
           nr = sdiv32 nz N;
           anz = nr * N in
       bind_comp (Some (RandomVector P anz R e)) (\<lambda>(val, R, e).
         let (col, e) = alloc_ints P nz e;
             (row, e) = alloc_ints P (N + 1) e;
             (Q, e) = new_Stopwatch P e in
         bind_comp (Some (bind_run (deref row) (\<lambda>row. put_at row 0 0))) (\<lambda>row0.
         bind_comp (Some (for_each [0..<turns N] (sparse_structure nr) (row0, col))) (\<lambda>(row1, col1).
         bind_comp (timed P min_time
             (sparse_body P N (or_empty val) row1 (or_empty col1) (or_empty x)) y Q e)
           (\<lambda>(cycles, y, t, e).
             let result = mflops P (SparseCompRow_num_flops P N nz cycles) t;
                 e = Stopwatch_delete Q e;
                 e = free_ptr row e; e = free_ptr col e; e = free_ptr val e;
                 e = free_ptr y e; e = free_ptr x e
             in Some (Done (result, R, e)))))))"

definition lu_body ::
    "'d plat \<Rightarrow> i32 \<Rightarrow> 'd list list \<Rightarrow> i32 \<Rightarrow> 'd list list \<times> i32 list \<Rightarrow> env \<Rightarrow>
     (('d list list \<times> i32 list) \<times> env) comp" where
  "lu_body P N A cycles s e =
     Some (bind_run (for_each [0..<turns cycles] (\<lambda>i (lu, pivot).
         bind_run (Array2D_double_copy N N lu A) (\<lambda>lu.
         bind_run (LU_factor P N N lu pivot) (\<lambda>(code, lu, pivot). Done (lu, pivot)))) s)
       (\<lambda>s. Done (s, e)))"

text \<open>\<open>{ puts("1"); exit(1); }\<close>\<close>

fun or_exit :: "'a option \<Rightarrow> 'a run" where
  "or_exit None = Terminated 1"
| "or_exit (Some x) = Done x"

definition kernel_measureLU ::
    "'d plat \<Rightarrow> i32 \<Rightarrow> 'd \<Rightarrow> 'd Random_struct \<Rightarrow> env \<Rightarrow> ('d \<times> 'd Random_struct \<times> env) comp" where
  "kernel_measureLU P N min_time R e =
     (let (Q, e) = new_Stopwatch P e in
      bind_comp (Some (RandomMatrix P N N R e)) (\<lambda>(A, R, e). bind_comp (Some (or_exit A)) (\<lambda>A.
      bind_comp (Some (new_Array2D_double P N N e)) (\<lambda>(lu, e). bind_comp (Some (or_exit lu)) (\<lambda>lu.
        let (pivot, e) = alloc_ints P N e in
        bind_comp (Some (or_exit pivot)) (\<lambda>pivot.
        bind_comp (timed P min_time (lu_body P N A) (lu, pivot) Q e) (\<lambda>(cycles, (lu, pivot), t, e).
          let result = mflops P (f_mul P (LU_num_flops P N) (f_int P cycles)) t;
              e = Stopwatch_delete Q e;
              e = free e
          in Some (Done (result, R,
               Array2D_double_delete N N (Some A) (Array2D_double_delete N N (Some lu) e))))))))))"

subsection \<open>\<open>constants.h\<close> and \<open>scimark2.c\<close>\<close>

definition RESOLUTION_DEFAULT :: "'d plat \<Rightarrow> 'd" where
  "RESOLUTION_DEFAULT P = f_lit P 1 (- 2)"

definition RANDOM_SEED :: i32 where
  "RANDOM_SEED = 101010"

text \<open>The sizes: \<open>FFT_SIZE\<close>, \<open>SOR_SIZE\<close>, \<open>SPARSE_SIZE_M\<close>, \<open>SPARSE_SIZE_nz\<close>, \<open>LU_SIZE\<close>.\<close>

record sci_sizes =
  FFT_size :: i32
  SOR_size :: i32
  Sparse_size_M :: i32
  Sparse_size_nz :: i32
  LU_size :: i32

definition small_sizes :: sci_sizes where
  "small_sizes = \<lparr>FFT_size = 128, SOR_size = 10, Sparse_size_M = 100, Sparse_size_nz = 500, LU_size = 10\<rparr>"

definition large_sizes :: sci_sizes where
  "large_sizes = \<lparr>FFT_size = 1048576, SOR_size = 1000, Sparse_size_M = 100000,
     Sparse_size_nz = 1000000, LU_size = 1000\<rparr>"

text \<open>The arguments: \<open>None\<close> for the usage message. \<open>atof\<close> is a function of the library.\<close>

definition parse_args ::
    "'d plat \<Rightarrow> (string \<Rightarrow> 'd) \<Rightarrow> string list \<Rightarrow> (sci_sizes \<times> 'd) option" where
  "parse_args P atof argv =
     (let argc = length argv in
      if 1 < argc
      then if argv ! 1 = ''-help'' \<or> argv ! 1 = ''-h'' then None
           else let (z, current_arg) = (if argv ! 1 = ''-large'' then (large_sizes, 2) else (small_sizes, 1))
                in Some (z, if current_arg < argc then atof (argv ! current_arg) else RESOLUTION_DEFAULT P)
      else Some (small_sizes, RESOLUTION_DEFAULT P))"

definition run_kernels ::
    "'d plat \<Rightarrow> sci_sizes \<Rightarrow> 'd \<Rightarrow> 'd Random_struct \<Rightarrow> env \<Rightarrow> ('d list \<times> env) comp" where
  "run_kernels P z min_time R e =
     bind_comp (kernel_measureFFT P (FFT_size z) min_time R e) (\<lambda>(r1, R, e).
     bind_comp (kernel_measureSOR P (SOR_size z) min_time R e) (\<lambda>(r2, R, e).
     bind_comp (kernel_measureMonteCarlo P min_time R e) (\<lambda>(r3, R, e).
     bind_comp (kernel_measureSparseMatMult P (Sparse_size_M z) (Sparse_size_nz z) min_time R e) (\<lambda>(r4, R, e).
     bind_comp (kernel_measureLU P (LU_size z) min_time R e) (\<lambda>(r5, R, e).
       let r0 = f_div P (f_add P (f_add P (f_add P (f_add P r1 r2) r3) r4) r5) (f_int P 5)
       in Some (Done ([r0, r1, r2, r3, r4, r5], e)))))))"

text \<open>The program: the six scores, or the exit code 0 after the usage message.\<close>

definition scimark_main ::
    "'d plat \<Rightarrow> (string \<Rightarrow> 'd) \<Rightarrow> string list \<Rightarrow> env \<Rightarrow> ('d list \<times> env) comp" where
  "scimark_main P atof argv e =
     bind_comp (Some (new_Random_seed P RANDOM_SEED e)) (\<lambda>(R, e).
       case parse_args P atof argv of
         None \<Rightarrow> Some (Terminated 0)
       | Some (z, min_time) \<Rightarrow>
           bind_comp (run_kernels P z min_time R e) (\<lambda>(res, e). Some (Done (res, Random_delete e))))"

end
