(* ===== verification/Scilu.thy ===== *)
theory Scilu
  imports Sciexact Scilinear
begin

text \<open>
  \<open>LU_factor\<close>: it returns on every matrix whatever the arithmetic, and in exact arithmetic it
  factors the matrix with its rows permuted as the pivots say. The multipliers are at most 1.
\<close>

subsection \<open>One column\<close>

definition eliminated :: "'d plat \<Rightarrow> nat \<Rightarrow> nat \<Rightarrow> nat \<Rightarrow> 'd list list \<Rightarrow> 'd list list \<Rightarrow> bool" where
  "eliminated P m n j A C \<longleftrightarrow> shaped m n C \<and>
     (\<forall>p < m. \<forall>q < n. C ! p ! q =
        (if j < p \<and> q = j then f_mul P (A ! p ! j) (f_div P (f_lit P 1 0) (A ! j ! j))
         else if j < p \<and> j < q then f_sub P (A ! p ! q) (f_mul P (C ! p ! j) (A ! j ! q))
         else A ! p ! q))"

lemma eliminate:
  assumes A: "shaped m n A" and j: "j < m" "j < n"
  shows "\<exists>C. bind_run (if j < m - 1 then scale_column P m j A else Done A)
      (\<lambda>A. if j < min m n - 1 then update_rest P m n j A else Done A) = Done C \<and> eliminated P m n j A C"
proof -
  let ?r = "f_div P (f_lit P 1 0) (A ! j ! j)"
  let ?S = "\<lambda>p q. j + 1 \<le> p \<and> p < m \<and> q = j"
  obtain B where B: "(if j < m - 1 then scale_column P m j A else Done A) = Done B"
    "replaced_by ?S (\<lambda>p q. f_mul P (A ! p ! q) ?r) m n A B"
  proof (cases "j < m - 1")
    case True
    then show ?thesis using scale_column_run [OF A j, of P] that by auto
  next
    case False
    then have "\<not> ?S p q" for p q
      using j by arith
    then have "replaced_by ?S (\<lambda>p q. f_mul P (A ! p ! q) ?r) m n A A"
      using A by (auto simp only: replaced_by_def if_False)
    then show ?thesis using False that [of A] by simp
  qed
  have sB: "shaped m n B" using B(2) by (rule replaced_byD)
  let ?T = "\<lambda>p q. j + 1 \<le> p \<and> p < m \<and> j + 1 \<le> q \<and> q < n"
  obtain C where C: "(if j < min m n - 1 then update_rest P m n j B else Done B) = Done C"
    "replaced_by ?T (\<lambda>p q. f_sub P (B ! p ! q) (f_mul P (B ! p ! j) (B ! j ! q))) m n B C"
  proof (cases "j < min m n - 1")
    case True
    then show ?thesis using update_rest_run [OF sB j, of P] that by auto
  next
    case False
    then have "\<not> ?T p q" for p q
      using j unfolding min_def by arith
    then have "replaced_by ?T (\<lambda>p q. f_sub P (B ! p ! q) (f_mul P (B ! p ! j) (B ! j ! q))) m n B B"
      using sB by (auto simp only: replaced_by_def if_False)
    then show ?thesis using False that [of B] by simp
  qed
  have "eliminated P m n j A C"
    unfolding eliminated_def
  proof (intro conjI allI impI)
    show "shaped m n C" using C(2) by (rule replaced_byD)
    fix p q assume "p < m" "q < n"
    then show "C ! p ! q =
        (if j < p \<and> q = j then f_mul P (A ! p ! j) ?r
         else if j < p \<and> j < q then f_sub P (A ! p ! q) (f_mul P (C ! p ! j) (A ! j ! q))
         else A ! p ! q)"
      using B(2) C(2) j by (auto simp: replaced_by_def Suc_le_eq)
  qed
  then show ?thesis using B(1) C(1) by auto
qed

text \<open>A column is done, or the program gives up at a zero pivot.\<close>

lemma factor_step:
  assumes A: "shaped m n A" and j: "j < m" "j < n" "j < length pivot"
  shows "\<exists>jp t. find_pivot P m A j = Done (jp, t) \<and> j \<le> jp \<and> jp < m \<and>
    (f_eq P (A ! jp ! j) (f_int P 0) \<and>
       factor_loop P m n (j # js) A pivot = Done (1, A, pivot[j := of_nat jp]) \<or>
     \<not> f_eq P (A ! jp ! j) (f_int P 0) \<and>
       (\<exists>C. eliminated P m n j (A[j := A ! jp, jp := A ! j]) C \<and>
         factor_loop P m n (j # js) A pivot = factor_loop P m n js C (pivot[j := of_nat jp])))"
proof -
  obtain jp t where p: "find_pivot P m A j = Done (jp, t)" "j \<le> jp" "jp < m"
    using find_pivot_run [OF A j(1,2)] by blast
  define B where "B = A[j := A ! jp, jp := A ! j]"
  have B: "(if jp \<noteq> j then swap_rows j jp A else Done A) = Done B"
    using swap_rows_run [OF A j(1) p(3)] A j by (auto simp: B_def shapedD)
  have sB: "shaped m n B"
    using shaped_swap [OF A j(1) p(3)] by (simp add: B_def)
  obtain C where C: "bind_run (if j < m - 1 then scale_column P m j B else Done B)
      (\<lambda>A. if j < min m n - 1 then update_rest P m n j A else Done A) = Done C" "eliminated P m n j B C"
    using eliminate [OF sB j(1,2)] by blast
  have "bind_run (if j < m - 1 then scale_column P m j B else Done B) (\<lambda>A.
      bind_run (if j < min m n - 1 then update_rest P m n j A else Done A) f) = f C" for f
    using C(1) by (simp flip: bind_run_assoc)
  then have run: "\<not> f_eq P (A ! jp ! j) (f_int P 0) \<Longrightarrow>
      factor_loop P m n (j # js) A pivot = factor_loop P m n js C (pivot[j := of_nat jp])"
    using p B j get2_eq [OF A p(3) j(2)] by (simp add: put_at_def split del: if_split)
  have "f_eq P (A ! jp ! j) (f_int P 0) \<Longrightarrow>
      factor_loop P m n (j # js) A pivot = Done (1, A, pivot[j := of_nat jp])"
    using p j get2_eq [OF A p(3) j(2)] by (simp add: put_at_def)
  then show ?thesis
    using p run C(2) unfolding B_def by blast
qed

lemma factor_loop_returns:
  "shaped m n A \<Longrightarrow> min m n \<le> length pivot \<Longrightarrow> \<forall>j \<in> set js. j < min m n \<Longrightarrow>
    \<exists>c A' pivot'. factor_loop P m n js A pivot = Done (c, A', pivot') \<and> shaped m n A' \<and>
      length pivot' = length pivot \<and> (c = 0 \<or> c = 1)"
proof (induction js arbitrary: A pivot)
  case (Cons j js)
  have j: "j < m" "j < n" "j < length pivot"
    using Cons.prems(2,3) by auto
  obtain jp t where jp: "find_pivot P m A j = Done (jp, t)" and
    "f_eq P (A ! jp ! j) (f_int P 0) \<and>
       factor_loop P m n (j # js) A pivot = Done (1, A, pivot[j := of_nat jp]) \<or>
     \<not> f_eq P (A ! jp ! j) (f_int P 0) \<and>
       (\<exists>C. eliminated P m n j (A[j := A ! jp, jp := A ! j]) C \<and>
         factor_loop P m n (j # js) A pivot = factor_loop P m n js C (pivot[j := of_nat jp]))"
    using factor_step [OF Cons.prems(1) j] by blast
  then show ?case
  proof (elim disjE conjE exE)
    assume "factor_loop P m n (j # js) A pivot = Done (1, A, pivot[j := of_nat jp])"
    then show ?thesis using Cons.prems(1) by simp
  next
    fix C assume "eliminated P m n j (A[j := A ! jp, jp := A ! j]) C"
      and r: "factor_loop P m n (j # js) A pivot = factor_loop P m n js C (pivot[j := of_nat jp])"
    then have "shaped m n C" by (simp add: eliminated_def)
    then show ?thesis
      unfolding r using Cons.IH [of C "pivot[j := of_nat jp]"] Cons.prems(2,3) by simp
  qed
qed simp

subsection \<open>The factors\<close>

definition lower :: "real list list \<Rightarrow> nat \<Rightarrow> nat \<Rightarrow> real" where
  "lower A i k = (if k < i then A ! i ! k else if k = i then 1 else 0)"

definition upper :: "real list list \<Rightarrow> nat \<Rightarrow> nat \<Rightarrow> real" where
  "upper A k c = (if k \<le> c then A ! k ! c else 0)"

fun pivoted :: "i32 list \<Rightarrow> nat \<Rightarrow> 'd list list \<Rightarrow> 'd list list" where
  "pivoted pivot 0 A = A"
| "pivoted pivot (Suc k) A =
     (let B = pivoted pivot k A; p = unat (pivot ! k) in B[k := B ! p, p := B ! k])"

definition factored :: "nat \<Rightarrow> nat \<Rightarrow> nat \<Rightarrow> real list list \<Rightarrow> real list list \<Rightarrow> bool" where
  "factored m n j B A \<longleftrightarrow> (\<forall>i < m. \<forall>c < n. B ! i ! c =
     (\<Sum>k<j. lower A i k * upper A k c) + (if j \<le> i \<and> j \<le> c then A ! i ! c else 0))"

lemma factored_swap:
  assumes "factored m n j B A" "shaped m n A" "shaped m n B" "j \<le> p" "p < m"
  shows "factored m n j (B[j := B ! p, p := B ! j]) (A[j := A ! p, p := A ! j])"
proof -
  let ?A = "A[j := A ! p, p := A ! j]" and ?B = "B[j := B ! p, p := B ! j]"
  let ?s = "\<lambda>i. if i = p then j else if i = j then p else i"
  have len: "length A = m" "length B = m" using assms by (simp_all add: shapedD)
  have row: "?A ! i = A ! ?s i" "?B ! i = B ! ?s i" if "i < m" for i
    using that len assms(4,5) by (auto simp: nth_list_update)
  have u: "upper ?A k c = upper A k c" if "k < j" for k c
    using that assms(4) by (simp add: upper_def)
  have l: "lower ?A i k = lower A (?s i) k" if "k < j" "i < m" for i k
    using that assms(4) row(1) [OF that(2)] by (auto simp: lower_def)
  have "?B ! i ! c = (\<Sum>k<j. lower ?A i k * upper ?A k c) + (if j \<le> i \<and> j \<le> c then ?A ! i ! c else 0)"
    if "i < m" "c < n" for i c
  proof -
    have s: "?s i < m" "j \<le> ?s i \<longleftrightarrow> j \<le> i" using that(1) assms(4,5) by auto
    have "(\<Sum>k<j. lower ?A i k * upper ?A k c) = (\<Sum>k<j. lower A (?s i) k * upper A k c)"
      by (rule sum.cong) (use u l that(1) in auto)
    moreover have "B ! ?s i ! c = (\<Sum>k<j. lower A (?s i) k * upper A k c) +
        (if j \<le> i \<and> j \<le> c then A ! ?s i ! c else 0)"
      using assms(1) s that(2) by (simp only: factored_def)
    ultimately show ?thesis using row [OF that(1)] by presburger
  qed
  then show ?thesis by (simp add: factored_def)
qed

lemma factored_eliminated:
  assumes f: "factored m n j B A" and e: "eliminated (real_plat ok clk) m n j A C"
    and j: "j < m" "j < n" and nz: "A ! j ! j \<noteq> 0"
  shows "factored m n (Suc j) B C"
  unfolding factored_def
proof (intro allI impI)
  fix i c assume i: "i < m" and c: "c < n"
  have C: "C ! p ! q = (if j < p \<and> q = j then A ! p ! j / A ! j ! j
      else if j < p \<and> j < q then A ! p ! q - C ! p ! j * A ! j ! q else A ! p ! q)"
    if "p < m" "q < n" for p q
    using e that by (simp add: eliminated_def real_plat_def)
  have same: "lower C i k = lower A i k" "upper C k c = upper A k c" if "k < j" for k
    using that C [OF i, of k] C [of k c] i c j by (auto simp: lower_def upper_def)
  have "(\<Sum>k<j. lower C i k * upper C k c) = (\<Sum>k<j. lower A i k * upper A k c)"
    by (rule sum.cong) (simp_all add: same)
  moreover have "lower C i j * upper C j c + (if Suc j \<le> i \<and> Suc j \<le> c then C ! i ! c else 0) =
      (if j \<le> i \<and> j \<le> c then A ! i ! c else 0)"
    using C [OF i j(2)] C [OF j(1) c] C [OF i c] nz
    by (cases i j rule: linorder_cases; cases c j rule: linorder_cases) (simp_all add: lower_def upper_def)
  moreover have "B ! i ! c = (\<Sum>k<j. lower A i k * upper A k c) + (if j \<le> i \<and> j \<le> c then A ! i ! c else 0)"
    using f i c by (simp add: factored_def)
  ultimately show "B ! i ! c = (\<Sum>k<Suc j. lower C i k * upper C k c) +
      (if Suc j \<le> i \<and> Suc j \<le> c then C ! i ! c else 0)"
    by simp
qed

lemma find_pivot_max:
  assumes A: "shaped m n A" and j: "j < m" "j < n"
    and r: "find_pivot (real_plat ok clk) m A j = Done (jp, t)" and i: "j \<le> i" "i < m"
  shows "\<bar>A ! i ! j\<bar> \<le> \<bar>A ! jp ! j\<bar>"
proof -
  define I where "I = (\<lambda>k (jp, t). t = \<bar>A ! jp ! j\<bar> \<and> (\<forall>i. j \<le> i \<and> i < k \<longrightarrow> \<bar>A ! i ! j\<bar> \<le> t))"
  have "\<exists>s. for_each [j + 1..<m] (pivot_step (real_plat ok clk) A j) (j, \<bar>A ! j ! j\<bar>) = Done s \<and> I m s"
  proof (rule for_each_inv)
    show "I (j + 1) (j, \<bar>A ! j ! j\<bar>)" by (auto simp: I_def le_less_Suc_eq)
    fix i and s :: "nat \<times> real" assume "j + 1 \<le> i" "i < m" and I: "I i s"
    moreover obtain q u where s: "s = (q, u)" by (cases s)
    ultimately have "pivot_step (real_plat ok clk) A j i s =
        Done (if u < \<bar>A ! i ! j\<bar> then (i, \<bar>A ! i ! j\<bar>) else (q, u))"
      using get2_eq [OF A, of i j] j by (simp add: pivot_step_def real_plat_def Let_def)
    moreover have "I (Suc i) (if u < \<bar>A ! i ! j\<bar> then (i, \<bar>A ! i ! j\<bar>) else (q, u))"
      using I unfolding s by (auto simp: I_def less_Suc_eq)
    ultimately show "\<exists>s'. pivot_step (real_plat ok clk) A j i s = Done s' \<and> I (Suc i) s'"
      by blast
  qed (use j in simp)
  moreover have "find_pivot (real_plat ok clk) m A j =
      for_each [j + 1..<m] (pivot_step (real_plat ok clk) A j) (j, \<bar>A ! j ! j\<bar>)"
    using get2_eq [OF A j] by (simp add: find_pivot_def real_plat_def)
  ultimately show ?thesis using r i by (auto simp: I_def)
qed

lemma pivoted_update: "k \<le> j \<Longrightarrow> pivoted (pivot[j := x]) k A = pivoted pivot k A"
  by (induction k) (simp_all add: Let_def)

definition pivots_ok :: "nat \<Rightarrow> nat \<Rightarrow> i32 list \<Rightarrow> bool" where
  "pivots_ok m j pivot \<longleftrightarrow> (\<forall>k < j. k \<le> unat (pivot ! k) \<and> unat (pivot ! k) < m)"

lemma shaped_pivoted:
  "shaped m n A \<Longrightarrow> pivots_ok m j pivot \<Longrightarrow> j \<le> m \<Longrightarrow> shaped m n (pivoted pivot j A)"
proof (induction j)
  case (Suc j)
  then have "shaped m n (pivoted pivot j A)" "j < m" "unat (pivot ! j) < m"
    by (auto simp: pivots_ok_def)
  then show ?case by (simp add: Let_def shaped_swap)
qed simp

definition multipliers_ok :: "nat \<Rightarrow> nat \<Rightarrow> real list list \<Rightarrow> bool" where
  "multipliers_ok m j A \<longleftrightarrow> (\<forall>i < m. \<forall>k < j. k < i \<longrightarrow> \<bar>A ! i ! k\<bar> \<le> 1)"

text \<open>The state before the column \<open>j\<close>: \<open>A0\<close> is the matrix that is factored.\<close>

definition progress :: "nat \<Rightarrow> nat \<Rightarrow> nat \<Rightarrow> real list list \<Rightarrow> i32 list \<Rightarrow> real list list \<Rightarrow> bool" where
  "progress m n j A0 pivot A \<longleftrightarrow> shaped m n A0 \<and> shaped m n A \<and> pivots_ok m j pivot \<and>
     factored m n j (pivoted pivot j A0) A \<and> multipliers_ok m j A"

lemma progress_step:
  assumes p: "progress m n j A0 pivot A" and j: "j < m" "j < n" "j < length pivot" and m: "m < 2 ^ 32"
    and jp: "j \<le> jp" "jp < m" and big: "\<And>i. j \<le> i \<Longrightarrow> i < m \<Longrightarrow> \<bar>A ! i ! j\<bar> \<le> \<bar>A ! jp ! j\<bar>"
    and nz: "A ! jp ! j \<noteq> 0"
    and e: "eliminated (real_plat ok clk) m n j (A[j := A ! jp, jp := A ! j]) C"
  shows "progress m n (Suc j) A0 (pivot[j := of_nat jp]) C"
proof -
  let ?B = "A[j := A ! jp, jp := A ! j]" and ?pivot = "pivot[j := of_nat jp]"
  have s: "shaped m n A0" "shaped m n A" and pv: "pivots_ok m j pivot" and mu: "multipliers_ok m j A"
    and f: "factored m n j (pivoted pivot j A0) A"
    using p by (simp_all add: progress_def)
  have u: "unat (?pivot ! j) = jp"
    using j(3) jp(2) m by (simp add: unat_of_nat)
  have len: "length A = m" using s(2) by (rule shapedD)
  have row: "?B ! i = A ! (if i = jp then j else if i = j then jp else i)" if "i < m" for i
    using that len jp by (auto simp: nth_list_update)
  have "pivoted ?pivot (Suc j) A0 = (pivoted pivot j A0)
      [j := pivoted pivot j A0 ! jp, jp := pivoted pivot j A0 ! j]"
    using u by (simp add: Let_def pivoted_update)
  moreover have "?B ! j ! j \<noteq> 0" using nz row [OF j(1)] jp(1) by auto
  ultimately have "factored m n (Suc j) (pivoted ?pivot (Suc j) A0) C"
    using factored_eliminated [OF factored_swap [OF f s(2) shaped_pivoted [OF s(1) pv] jp] e j(1,2)] j(1)
    by simp
  moreover have "pivots_ok m (Suc j) ?pivot"
    using pv u jp by (auto simp: pivots_ok_def less_Suc_eq)
  moreover have "multipliers_ok m (Suc j) C"
    unfolding multipliers_ok_def
  proof (intro allI impI)
    fix i k assume i: "i < m" and k: "k < Suc j" "k < i"
    show "\<bar>C ! i ! k\<bar> \<le> 1"
    proof (cases "k = j")
      case True
      have "\<bar>?B ! i ! j\<bar> \<le> \<bar>?B ! j ! j\<bar>"
        using big row [OF i] row [OF j(1)] i k(2) True jp by auto
      moreover have "C ! i ! j = ?B ! i ! j / ?B ! j ! j"
        using e i k(2) True j(2) by (simp add: eliminated_def real_plat_def)
      ultimately show ?thesis using True \<open>?B ! j ! j \<noteq> 0\<close> by (simp add: divide_le_eq)
    next
      case False
      then have "C ! i ! k = ?B ! i ! k"
        using e i k j(2) by (auto simp: eliminated_def)
      then show ?thesis
        using mu row [OF i] False k i j(1) jp by (auto simp: multipliers_ok_def)
    qed
  qed
  ultimately show ?thesis
    using s(1) e by (simp add: progress_def eliminated_def)
qed

lemma factor_loop_exact:
  assumes "progress m n j A0 pivot A" "j \<le> min m n" "min m n \<le> length pivot" "m < 2 ^ 32"
  shows "\<exists>c A' pivot'. factor_loop (real_plat ok clk) m n [j..<min m n] A pivot = Done (c, A', pivot') \<and>
    (c = 0 \<and> progress m n (min m n) A0 pivot' A' \<or>
     c = 1 \<and> (\<exists>k < min m n. progress m n k A0 pivot' A' \<and> (\<forall>i. k \<le> i \<and> i < m \<longrightarrow> A' ! i ! k = 0)))"
  using assms(1-3)
proof (induction "min m n - j" arbitrary: j A pivot)
  case 0
  then show ?case by auto
next
  case (Suc d)
  let ?P = "real_plat ok clk"
  have "j < min m n" using Suc.hyps(2) by linarith
  then have j: "j < m" "j < n" "j < length pivot" and js: "[j..<min m n] = j # [Suc j..<min m n]"
    using less_le_trans [OF _ Suc.prems(3), of j] by (simp_all add: upt_conv_Cons)
  have s: "shaped m n A" using Suc.prems(1) by (simp add: progress_def)
  obtain jp t where jp: "find_pivot ?P m A j = Done (jp, t)" "j \<le> jp" "jp < m" and
    r: "f_eq ?P (A ! jp ! j) (f_int ?P 0) \<and>
       factor_loop ?P m n (j # [Suc j..<min m n]) A pivot = Done (1, A, pivot[j := of_nat jp]) \<or>
     \<not> f_eq ?P (A ! jp ! j) (f_int ?P 0) \<and>
       (\<exists>C. eliminated ?P m n j (A[j := A ! jp, jp := A ! j]) C \<and>
         factor_loop ?P m n (j # [Suc j..<min m n]) A pivot =
         factor_loop ?P m n [Suc j..<min m n] C (pivot[j := of_nat jp]))"
    using factor_step [OF s j] by blast
  note big = find_pivot_max [OF s j(1,2) jp(1)]
  have zero: "f_eq ?P x (f_int ?P 0) \<longleftrightarrow> x = 0" for x
    by (simp add: real_plat_def)
  show ?case
  proof (cases "A ! jp ! j = 0")
    case True
    then have "\<forall>i. j \<le> i \<and> i < m \<longrightarrow> A ! i ! j = 0" using big by force
    moreover have "progress m n j A0 (pivot[j := of_nat jp]) A"
      using Suc.prems(1) by (simp add: progress_def pivoted_update pivots_ok_def)
    ultimately show ?thesis
      using r True j unfolding zero js by auto
  next
    case False
    then obtain C where C: "eliminated ?P m n j (A[j := A ! jp, jp := A ! j]) C"
      "factor_loop ?P m n [j..<min m n] A pivot = factor_loop ?P m n [Suc j..<min m n] C (pivot[j := of_nat jp])"
      using r unfolding zero js by auto
    have "progress m n (Suc j) A0 (pivot[j := of_nat jp]) C"
      by (rule progress_step [OF Suc.prems(1) j assms(4) jp(2,3) big False C(1)])
    moreover have "d = min m n - Suc j" "Suc j \<le> min m n" using Suc.hyps(2) by linarith+
    ultimately show ?thesis
      unfolding C(2) using Suc.hyps(1) [of "Suc j" "pivot[j := of_nat jp]" C] Suc.prems(3) by simp
  qed
qed

text \<open>The whole routine.\<close>

lemma turns_min: "turns (if M <s N then M else N) = min (turns M) (turns N)"
  by (auto simp: turns_def word_sless_alt min_def nat_le_eq_zle)

lemma turns_less: "turns M < 2 ^ 31"
  using sint_lt [of M] by (simp add: turns_def nat_less_iff)

lemma LU_factor_returns:
  assumes "shaped (turns M) (turns N) A" "min (turns M) (turns N) \<le> length pivot"
  shows "\<exists>c A' pivot'. LU_factor P M N A pivot = Done (c, A', pivot') \<and>
    shaped (turns M) (turns N) A' \<and> length pivot' = length pivot \<and> (c = 0 \<or> c = 1)"
  unfolding LU_factor_def Let_def turns_min
  by (rule factor_loop_returns [OF assms]) auto

lemma LU_factor_exact:
  assumes A: "shaped (turns M) (turns N) A" and p: "min (turns M) (turns N) \<le> length pivot"
  shows "\<exists>c A' pivot'. LU_factor (real_plat ok clk) M N A pivot = Done (c, A', pivot') \<and>
    (c = 0 \<and> progress (turns M) (turns N) (min (turns M) (turns N)) A pivot' A' \<or>
     c = 1 \<and> (\<exists>k < min (turns M) (turns N). progress (turns M) (turns N) k A pivot' A' \<and>
       (\<forall>i. k \<le> i \<and> i < turns M \<longrightarrow> A' ! i ! k = 0)))"
proof -
  have "progress (turns M) (turns N) 0 A pivot A"
    using A by (simp add: progress_def pivots_ok_def factored_def multipliers_ok_def)
  then show ?thesis
    unfolding LU_factor_def Let_def turns_min
    using turns_less [of M] by (intro factor_loop_exact) (use p in simp_all)
qed

lemma factored_all:
  assumes "factored m n (min m n) B A" "i < m" "c < n"
  shows "B ! i ! c = (\<Sum>k<min m n. lower A i k * upper A k c)"
  using assms by (auto simp: factored_def)

end
