(* ===== verification/Scigrid.thy ===== *)
theory Scigrid
  imports Sciexact Scilinear
begin

text \<open>
  \<open>SOR_execute\<close> is the sweep of Gauss and Seidel, repeated; \<open>SparseCompRow_matmult\<close> is the
  product with the matrix that the three arrays stand for.
\<close>

subsection \<open>Successive over-relaxation\<close>

text \<open>An interior element takes its new value from the new ones above and to the left.\<close>

fun relaxed :: "'d plat \<Rightarrow> 'd \<Rightarrow> 'd \<Rightarrow> nat \<Rightarrow> nat \<Rightarrow> 'd list list \<Rightarrow> nat \<Rightarrow> nat \<Rightarrow> 'd" where
  "relaxed P o4 om m n G 0 j = G ! 0 ! j"
| "relaxed P o4 om m n G (Suc i) 0 = G ! Suc i ! 0"
| "relaxed P o4 om m n G (Suc i) (Suc j) =
     (if Suc i < m - 1 \<and> Suc j < n - 1
      then f_add P
        (f_mul P o4 (f_add P (f_add P (f_add P
          (relaxed P o4 om m n G i (Suc j)) (G ! Suc (Suc i) ! Suc j))
          (relaxed P o4 om m n G (Suc i) j)) (G ! Suc i ! Suc (Suc j))))
        (f_mul P om (G ! Suc i ! Suc j))
      else G ! Suc i ! Suc j)"

definition sweep :: "'d plat \<Rightarrow> 'd \<Rightarrow> 'd \<Rightarrow> nat \<Rightarrow> nat \<Rightarrow> 'd list list \<Rightarrow> 'd list list" where
  "sweep P o4 om m n G = map (\<lambda>i. map (relaxed P o4 om m n G i) [0..<n]) [0..<m]"

lemma shaped_sweep: "shaped m n (sweep P o4 om m n G)"
  by (auto simp: shaped_def sweep_def)

lemma nth_sweep: "i < m \<Longrightarrow> j < n \<Longrightarrow> sweep P o4 om m n G ! i ! j = relaxed P o4 om m n G i j"
  by (simp add: sweep_def)

lemma relaxed_border: "\<not> (1 \<le> i \<and> i < m - 1 \<and> 1 \<le> j \<and> j < n - 1) \<Longrightarrow> relaxed P o4 om m n G i j = G ! i ! j"
  by (cases i; cases j) auto

lemma relaxed_interior:
  "1 \<le> i \<Longrightarrow> i < m - 1 \<Longrightarrow> 1 \<le> j \<Longrightarrow> j < n - 1 \<Longrightarrow> relaxed P o4 om m n G i j =
     f_add P (f_mul P o4 (f_add P (f_add P (f_add P
       (relaxed P o4 om m n G (i - 1) j) (G ! (i + 1) ! j))
       (relaxed P o4 om m n G i (j - 1))) (G ! i ! (j + 1)))) (f_mul P om (G ! i ! j))"
  by (cases i; cases j) auto

lemma shaped_eqI:
  "shaped m n A \<Longrightarrow> shaped m n B \<Longrightarrow> (\<And>i j. i < m \<Longrightarrow> j < n \<Longrightarrow> A ! i ! j = B ! i ! j) \<Longrightarrow> A = B"
  by (rule nth_equalityI) (auto simp: shapedD intro!: nth_equalityI)

lemma relax_loop:
  assumes B: "shaped m n B" and k: "1 \<le> k" "k < m - 1"
    and old: "\<And>p q. k \<le> p \<Longrightarrow> p < m \<Longrightarrow> q < n \<Longrightarrow> B ! p ! q = G ! p ! q"
    and new: "\<And>q. q < n \<Longrightarrow> B ! (k - 1) ! q = relaxed P o4 om m n G (k - 1) q" and n: "1 \<le> n - 1"
  shows "\<exists>B'. for_each [1..<n - 1] (relax P o4 om k) B = Done B' \<and>
    replaced_by (\<lambda>p q. p = k \<and> 1 \<le> q \<and> q < n - 1) (relaxed P o4 om m n G) m n B B'"
proof -
  have km: "k < m" using k by simp
  show ?thesis
  proof (rule row_loop [OF B km n])
    fix q C assume q: "1 \<le> q" "q < n - 1"
      and C: "replaced_by (\<lambda>p r. p = k \<and> 1 \<le> r \<and> r < q) (relaxed P o4 om m n G) m n B C"
    note sC = replaced_byD(1) [OF C]
    have "C ! (k - 1) ! q = relaxed P o4 om m n G (k - 1) q" "C ! (k + 1) ! q = G ! (k + 1) ! q"
      "C ! k ! (q + 1) = G ! k ! (q + 1)" "C ! k ! q = G ! k ! q"
      using C k q old new by (simp_all add: replaced_by_def)
    moreover have "C ! k ! (q - 1) = relaxed P o4 om m n G k (q - 1)"
    proof (cases "q = 1")
      case True
      then show ?thesis
        using C km old [of k 0] q relaxed_border [of k m 0 n P o4 om G] by (simp add: replaced_by_def)
    next
      case False
      then have "1 \<le> q - 1" "q - 1 < n" using q by linarith+
      then show ?thesis using C km q by (simp add: replaced_by_def)
    qed
    ultimately show "relax P o4 om k q C = Done (upd2 C k q (relaxed P o4 om m n G k q))"
      using sC k q relaxed_interior [OF k q, of P o4 om G]
      by (simp add: relax_def get2_eq [OF sC] put2_eq [OF sC])
  qed simp
qed

lemma relax_row_run:
  assumes B: "shaped m n B" and k: "1 \<le> k" "k < m - 1"
    and old: "\<And>p q. k \<le> p \<Longrightarrow> p < m \<Longrightarrow> q < n \<Longrightarrow> B ! p ! q = G ! p ! q"
    and new: "\<And>q. q < n \<Longrightarrow> B ! (k - 1) ! q = relaxed P o4 om m n G (k - 1) q"
  shows "\<exists>B'. relax_row P o4 om n k B = Done B' \<and>
    replaced_by (\<lambda>p q. p = k \<and> 1 \<le> q \<and> q < n - 1) (relaxed P o4 om m n G) m n B B'"
proof -
  have rows: "k < length B" "k - 1 < length B" "k + 1 < length B"
    using k shapedD(1) [OF B] by linarith+
  have "\<exists>B'. for_each [1..<n - 1] (relax P o4 om k) B = Done B' \<and>
    replaced_by (\<lambda>p q. p = k \<and> 1 \<le> q \<and> q < n - 1) (relaxed P o4 om m n G) m n B B'"
  proof (cases "1 \<le> n - 1")
    case True
    show ?thesis by (rule relax_loop [OF B k]) (rule old new True; assumption?)+
  next
    case False
    then have "\<And>q. \<not> (1 \<le> q \<and> q < n - 1)" by linarith
    then show ?thesis using B False by (simp add: replaced_by_def)
  qed
  then show ?thesis using rows by (simp add: relax_row_def get_at_def)
qed

lemma sweep_loop:
  assumes G: "shaped m n G"
  shows "for_each [1..<m - 1] (relax_row P o4 om n) G = Done (sweep P o4 om m n G)"
proof (cases "1 \<le> m - 1")
  case True
  let ?r = "relaxed P o4 om m n G"
  have "\<exists>B. for_each [1..<m - 1] (relax_row P o4 om n) G = Done B \<and>
      replaced_by (\<lambda>p q. 1 \<le> p \<and> p < m - 1 \<and> 1 \<le> q \<and> q < n - 1) ?r m n G B"
  proof (rule rows_loop [OF G True])
    fix k B assume k: "1 \<le> k" "k < m - 1"
      and B: "replaced_by (\<lambda>p q. 1 \<le> p \<and> p < k \<and> 1 \<le> q \<and> q < n - 1) ?r m n G B"
    show "\<exists>B'. relax_row P o4 om n k B = Done B' \<and>
        replaced_by (\<lambda>p q. p = k \<and> 1 \<le> q \<and> q < n - 1) ?r m n B B'"
    proof (rule relax_row_run [OF replaced_byD(1) [OF B] k])
      fix p q assume "k \<le> p" "p < m" "q < n"
      then show "B ! p ! q = G ! p ! q" using B by (simp add: replaced_by_def)
    next
      fix q assume q: "q < n"
      then show "B ! (k - 1) ! q = ?r (k - 1) q"
        using B k relaxed_border [of "k - 1" m q n P o4 om G] by (auto simp: replaced_by_def)
    qed
  qed
  then obtain B where B: "for_each [1..<m - 1] (relax_row P o4 om n) G = Done B"
    "replaced_by (\<lambda>p q. 1 \<le> p \<and> p < m - 1 \<and> 1 \<le> q \<and> q < n - 1) ?r m n G B"
    by blast
  have "B = sweep P o4 om m n G"
  proof (rule shaped_eqI [OF replaced_byD(1) [OF B(2)] shaped_sweep])
    fix i j assume "i < m" "j < n"
    then show "B ! i ! j = sweep P o4 om m n G ! i ! j"
      using B(2) relaxed_border [of i m j n P o4 om G] by (simp add: replaced_by_def nth_sweep)
  qed
  then show ?thesis using B(1) by simp
next
  case False
  then have "G = sweep P o4 om m n G"
    by (intro shaped_eqI [OF G shaped_sweep]) (simp add: nth_sweep relaxed_border)
  then show ?thesis using False by simp
qed

lemma SOR_sweeps:
  assumes "shaped (turns M) (turns N) G"
  shows "SOR_execute P M N omega G k =
    Done ((sweep P (f_mul P omega (f_lit P 25 (- 2))) (f_sub P (f_lit P 1 0) omega)
      (turns M) (turns N) ^^ turns k) G)"
proof -
  let ?o = "f_mul P omega (f_lit P 25 (- 2))" and ?c = "f_sub P (f_lit P 1 0) omega"
  let ?s = "sweep P ?o ?c (turns M) (turns N)"
  have "shaped (turns M) (turns N) ((?s ^^ i) G)" for i
    using assms shaped_sweep by (cases i) auto
  then have "for_each [0..<i] (\<lambda>p. for_each [1..<turns M - 1] (relax_row P ?o ?c (turns N))) G =
      Done ((?s ^^ i) G)" for i
    by (induction i) (simp_all add: for_each_Suc sweep_loop [simplified] del: upt_Suc)
  then show ?thesis by (simp add: SOR_execute_def Let_def)
qed

subsection \<open>The sparse product\<close>

text \<open>The arrays hold a matrix with \<open>m\<close> rows and columns below \<open>n\<close>.\<close>

definition csr_ok :: "nat \<Rightarrow> nat \<Rightarrow> 'd list \<Rightarrow> i32 list \<Rightarrow> i32 list \<Rightarrow> bool" where
  "csr_ok m n val row col \<longleftrightarrow>
     m < length row \<and> length val < 2 ^ 31 \<and>
     (\<forall>r < m. 0 \<le> sint (row ! r) \<and> sint (row ! (r + 1)) \<le> int (length val)) \<and>
     length val \<le> length col \<and>
     (\<forall>i < length val. 0 \<le> sint (col ! i) \<and> sint (col ! i) < int n)"

definition row_entries :: "i32 list \<Rightarrow> nat \<Rightarrow> nat list" where
  "row_entries row r = map nat [sint (row ! r)..sint (row ! (r + 1)) - 1]"

text \<open>A product of a row: the additions in the order of the entries.\<close>

definition row_sum :: "'d plat \<Rightarrow> 'd list \<Rightarrow> i32 list \<Rightarrow> 'd list \<Rightarrow> nat list \<Rightarrow> 'd" where
  "row_sum P val col x es =
     foldl (\<lambda>acc i. f_add P acc (f_mul P (x ! unat (col ! i)) (val ! i))) (f_lit P 0 0) es"

lemma unat_sint: "0 \<le> sint w \<Longrightarrow> unat w = nat (sint w)" for w :: i32
  using turns_eq [of w] by (simp add: turns_def)

lemma sparse_sum_run:
  assumes "\<And>i. i \<in> set is \<Longrightarrow> 0 \<le> i \<and> i < int (length val)"
    and "csr_ok m (length x) val row col"
  shows "sparse_sum P x val col is acc =
    Done (foldl (\<lambda>acc i. f_add P acc (f_mul P (x ! unat (col ! i)) (val ! i))) acc (map nat is))"
  using assms(1)
proof (induction "is" arbitrary: acc)
  case (Cons i "is")
  have b: "0 \<le> i" "i < int (length val)" using Cons.prems [of i] by simp_all
  moreover have "int (length val) < 2 ^ 31" using assms(2) by (simp add: csr_ok_def)
  ultimately have i: "0 \<le> i" "nat i < length val" "i < 2 ^ 31" by linarith+
  have s: "sint (word_of_int i :: i32) = i"
    using i by (intro sint_of_int_self) simp_all
  then have w: "\<not> (word_of_int i :: i32) <s 0" "unat (word_of_int i :: i32) = nat i"
    using i unat_sint [of "word_of_int i"] by (simp_all add: word_sless_alt)
  have c: "0 \<le> sint (col ! nat i)" "sint (col ! nat i) < int (length x)" "nat i < length col"
    using assms(2) i by (auto simp: csr_ok_def)
  then have "\<not> col ! nat i <s 0" "unat (col ! nat i) < length x"
    using unat_sint [of "col ! nat i"] by (simp_all add: word_sless_alt)
  then show ?case
    using Cons i c(3) w by (simp add: get_i32_def get_at_def)
qed simp

lemma sparse_row_run:
  assumes "csr_ok m (length x) val row col" "r < m" "r < length y"
  shows "sparse_row P val row col x r y = Done (y[r := row_sum P val col x (row_entries row r)])"
proof -
  have "r + 1 < length row" "0 \<le> sint (row ! r)" "sint (row ! (r + 1)) \<le> int (length val)"
    using assms(1,2) by (auto simp: csr_ok_def)
  then show ?thesis
    using assms(2,3) sparse_sum_run [OF _ assms(1), of "[sint (row ! r)..sint (row ! (r + 1)) - 1]" P "f_lit P 0 0"]
    by (simp add: sparse_row_def get_at_def put_at_def row_sum_def row_entries_def)
qed

lemma matmult_once:
  assumes "csr_ok m (length x) val row col" "m \<le> length y"
  shows "for_each [0..<m] (sparse_row P val row col x) y =
    Done (map (\<lambda>r. if r < m then row_sum P val col x (row_entries row r) else y ! r) [0..<length y])"
proof -
  let ?v = "\<lambda>k. map (\<lambda>r. if r < k then row_sum P val col x (row_entries row r) else y ! r) [0..<length y]"
  have "for_each [0..<k] (sparse_row P val row col x) y = Done (?v k)" if "k \<le> m" for k
    using that
  proof (induction k)
    case 0
    then show ?case by (auto intro!: nth_equalityI)
  next
    case (Suc k)
    have "(?v k)[k := row_sum P val col x (row_entries row k)] = ?v (Suc k)"
      using Suc.prems assms(2) by (auto intro!: nth_equalityI simp: nth_list_update)
    then show ?case
      using Suc assms sparse_row_run [OF assms(1), of k "?v k" P] by (simp add: for_each_Suc del: upt_Suc)
  qed
  then show ?thesis by simp
qed

lemma matmult:
  assumes "csr_ok (turns M) (length x) val row col" "length y = turns M" "0 < turns k"
  shows "SparseCompRow_matmult P M y val row col x k =
    Done (map (\<lambda>r. row_sum P val col x (row_entries row r)) [0..<turns M])"
proof -
  let ?v = "map (\<lambda>r. row_sum P val col x (row_entries row r)) [0..<turns M]"
  have once: "for_each [0..<turns M] (sparse_row P val row col x) z = Done ?v" if "length z = turns M" for z
    using matmult_once [OF assms(1), of z P] that by (simp cong: map_cong)
  have "for_each [0..<Suc i] (\<lambda>reps. for_each [0..<turns M] (sparse_row P val row col x)) y = Done ?v" for i
  proof (induction i)
    case 0
    then show ?case using once [OF assms(2)] by simp
  next
    case (Suc i)
    then show ?case
      by (subst for_each_Suc) (simp add: once del: upt_Suc)
  qed
  from this [of "turns k - 1"] show ?thesis
    using assms(3) by (simp add: SparseCompRow_matmult_def)
qed

text \<open>In exact arithmetic: the product with the dense matrix.\<close>

definition dense :: "real list \<Rightarrow> i32 list \<Rightarrow> i32 list \<Rightarrow> nat \<Rightarrow> nat \<Rightarrow> real" where
  "dense val row col r c = (\<Sum>i\<leftarrow>row_entries row r. if unat (col ! i) = c then val ! i else 0)"

lemma row_sum_exact:
  assumes "csr_ok m (length x) val row col" "r < m"
  shows "row_sum (real_plat ok clk) val col x (row_entries row r) =
    (\<Sum>c<length x. dense val row col r c * x ! c)"
proof -
  have fold: "foldl (\<lambda>acc i. acc + x ! unat (col ! i) * val ! i) a es =
      a + (\<Sum>i\<leftarrow>es. x ! unat (col ! i) * val ! i)" for a :: real and es
    by (induction es arbitrary: a) simp_all
  have one: "x ! unat (col ! i) * val ! i = (\<Sum>c<length x. (if unat (col ! i) = c then val ! i else 0) * x ! c)"
    if "i \<in> set (row_entries row r)" for i
  proof -
    have "i < length val"
      using that assms by (auto simp: row_entries_def csr_ok_def nat_less_iff)
    then have "unat (col ! i) < length x"
      using assms(1) unat_sint [of "col ! i"] by (auto simp: csr_ok_def)
    moreover have "(\<Sum>c<length x. (if unat (col ! i) = c then val ! i else 0) * x ! c) =
        (\<Sum>c<length x. if unat (col ! i) = c then x ! c * val ! i else 0)"
      by (rule sum.cong) simp_all
    ultimately show ?thesis by simp
  qed
  have swap: "(\<Sum>c<n. (\<Sum>i\<leftarrow>es. f i c) * y c) = (\<Sum>i\<leftarrow>es. \<Sum>c<n. f i c * y c)"
    for n :: nat and f :: "nat \<Rightarrow> nat \<Rightarrow> real" and y es
    by (induction es) (simp_all add: sum.distrib distrib_right)
  have "row_sum (real_plat ok clk) val col x (row_entries row r) =
      (\<Sum>i\<leftarrow>row_entries row r. x ! unat (col ! i) * val ! i)"
    by (simp add: row_sum_def real_plat_def fold)
  also have "\<dots> = (\<Sum>i\<leftarrow>row_entries row r. \<Sum>c<length x. (if unat (col ! i) = c then val ! i else 0) * x ! c)"
    by (rule arg_cong [of _ _ sum_list], rule map_cong [OF refl]) (rule one)
  finally show ?thesis unfolding dense_def swap .
qed

end
