(* ===== verification/Scimark.thy ===== *)
theory Scimark
  imports Scikernel Sciflow Scilu Scigrid
begin

text \<open>
  The whole of SciMark: with memory and a clock on which time passes, every kernel returns
  without an access outside its arrays, and all blocks are freed. What a kernel times is an
  instance of one contract, the locale \<open>kernel_body\<close>.
\<close>

subsection \<open>Copying a matrix\<close>

lemma copy1_run:
  assumes "length Bi = length Ai" "j + d < length Ai" "take (j + d) Bi = take (j + d) Ai"
  shows "\<exists>Bi'. copy1 d Ai j Bi = Done Bi' \<and> length Bi' = length Ai \<and>
    take (Suc (j + d)) Bi' = take (Suc (j + d)) Ai"
  using assms by (auto simp: copy1_def get_at_def put_at_def take_Suc_conv_app_nth)

lemma copy4_run:
  assumes "length Bi = length Ai" "j + 3 < length Ai" "take j Bi = take j Ai"
  shows "\<exists>Bi'. copy4 Ai j Bi = Done Bi' \<and> length Bi' = length Ai \<and> take (j + 4) Bi' = take (j + 4) Ai"
proof -
  obtain B1 where 1: "copy1 0 Ai j Bi = Done B1" "length B1 = length Ai" "take (j + 1) B1 = take (j + 1) Ai"
    using copy1_run [of Bi Ai j 0] assms by auto
  obtain B2 where 2: "copy1 1 Ai j B1 = Done B2" "length B2 = length Ai" "take (j + 2) B2 = take (j + 2) Ai"
    using copy1_run [of B1 Ai j 1] 1 assms(2) by auto
  obtain B3 where 3: "copy1 2 Ai j B2 = Done B3" "length B3 = length Ai" "take (j + 3) B3 = take (j + 3) Ai"
    using copy1_run [of B2 Ai j 2] 2 assms(2) by (auto simp: eval_nat_numeral)
  obtain B4 where "copy1 3 Ai j B3 = Done B4" "length B4 = length Ai" "take (j + 4) B4 = take (j + 4) Ai"
    using copy1_run [of B3 Ai j 3] 3 assms(2) by (auto simp: eval_nat_numeral)
  then show ?thesis using 1(1) 2(1) 3(1) by (simp add: copy4_def)
qed

lemma copy_fours_run:
  assumes "length Bi = length Ai" "length Ai = N" "4 dvd N - j" "take j Bi = take j Ai" "j \<le> N"
  shows "copy_fours Ai N j Bi = Done Ai"
  using assms
proof (induction "N - j" arbitrary: j Bi rule: less_induct)
  case less
  show ?case
  proof (cases "j < N")
    case True
    then have "4 \<le> N - j" using less.prems(3) by (intro dvd_imp_le) simp_all
    then obtain B' where B: "copy4 Ai j Bi = Done B'" "length B' = length Ai" "take (j + 4) B' = take (j + 4) Ai"
    proof -
      have "j + 3 < length Ai" using \<open>4 \<le> N - j\<close> less.prems(2) by linarith
      then show ?thesis using copy4_run [of Bi Ai j] less.prems(1,4) that by blast
    qed
    have "4 dvd N - (j + 4)"
      using less.prems(3) \<open>4 \<le> N - j\<close> by (simp add: dvd_diff_nat flip: diff_diff_left)
    then have "copy_fours Ai N (j + 4) B' = Done Ai"
      using less.hyps [of "j + 4" B'] B \<open>4 \<le> N - j\<close> less.prems(2) True by simp
    then show ?thesis using True B(1) by (subst copy_fours.simps) simp
  next
    case False
    then show ?thesis using less.prems by (subst copy_fours.simps) simp
  qed
qed

lemma copy_row_run:
  assumes N: "0 \<le> sint N" and len: "length Ai = turns N" "length Bi = turns N"
  shows "copy_row N Ai Bi = Done Ai"
proof -
  have r: "unat (N AND 3) = turns N mod 4"
  proof -
    have "N AND 3 = N AND mask 2" by (simp add: mask_eq_exp_minus_1)
    also have "\<dots> = take_bit 2 N" by (simp only: take_bit_eq_mask)
    finally show ?thesis
      by (simp only: turns_eq [OF N] unsigned_take_bit_eq) (simp add: take_bit_eq_mod)
  qed
  define I where "I = (\<lambda>j B. length B = length Ai \<and> take j B = take j Ai)"
  have "\<exists>B. for_each [0..<turns N mod 4] (copy1 0 Ai) Bi = Done B \<and> I (turns N mod 4) B"
  proof (rule for_each_inv)
    fix j B assume "j < turns N mod 4" "I j B"
    moreover from this(1) have "j < turns N" using mod_less_eq_dividend [of "turns N" 4] by linarith
    ultimately show "\<exists>B'. copy1 0 Ai j B = Done B' \<and> I (Suc j) B'"
      using copy1_run [of B Ai j 0] len by (simp add: I_def)
  qed (simp_all add: I_def len)
  then obtain B where "for_each [0..<turns N mod 4] (copy1 0 Ai) Bi = Done B" "I (turns N mod 4) B"
    by blast
  then show ?thesis
    using copy_fours_run [of B Ai "turns N" "turns N mod 4"] len
    by (simp add: copy_row_def Let_def r I_def)
qed

lemma Array2D_double_copy_run:
  assumes N: "0 \<le> sint N" and A: "shaped (turns M) (turns N) A" and B: "shaped (turns M) (turns N) B"
  shows "Array2D_double_copy M N B A = Done A"
proof -
  define I where "I = (\<lambda>i B'. shaped (turns M) (turns N) B' \<and> take i B' = take i A)"
  have "\<exists>B'. for_each [0..<turns M] (\<lambda>i B.
       bind_run (get_at B i) (\<lambda>Bi. bind_run (get_at A i) (\<lambda>Ai.
       bind_run (copy_row N Ai Bi) (put_at B i)))) B = Done B' \<and> I (turns M) B'"
  proof (rule for_each_inv)
    fix i B' assume i: "i < turns M" and I: "I i B'"
    then have l: "i < length B'" "i < length A" "length (B' ! i) = turns N" "length (A ! i) = turns N"
      using A by (auto simp: I_def shapedD)
    have "I (Suc i) (B'[i := A ! i])"
      using I l A i by (auto simp: I_def take_Suc_conv_app_nth shaped_def
          dest!: set_update_subset_insert [THEN subsetD])
    then show "\<exists>s'. bind_run (get_at B' i) (\<lambda>Bi. bind_run (get_at A i) (\<lambda>Ai.
       bind_run (copy_row N Ai Bi) (put_at B' i))) = Done s' \<and> I (Suc i) s'"
      using l copy_row_run [OF N l(4,3)] by (simp add: get_at_def put_at_def)
  qed (use B in \<open>simp_all add: I_def\<close>)
  then show ?thesis
    using A by (auto simp: Array2D_double_copy_def I_def shapedD)
qed

subsection \<open>Timing\<close>

text \<open>The time between the reading \<open>k\<close> of the counter and the next one, as the stopwatch has it.\<close>

definition reading :: "'d plat \<Rightarrow> nat \<Rightarrow> 'd" where
  "reading P k = f_div P (f_clock P (rdcycle P k)) (f_int P CLOCKS_PER_SEC)"

definition elapsed :: "'d plat \<Rightarrow> nat \<Rightarrow> 'd" where
  "elapsed P k = f_add P (f_lit P 0 0) (f_sub P (reading P (k + 1)) (reading P k))"

text \<open>There is memory, and sooner or later a run takes the time asked for.\<close>

definition has_memory :: "'d plat \<Rightarrow> bool" where
  "has_memory P \<longleftrightarrow> (\<forall>k. malloc_ok P k)"

definition clock_passes :: "'d plat \<Rightarrow> 'd \<Rightarrow> bool" where
  "clock_passes P mintime \<longleftrightarrow> (\<forall>k. \<exists>i. f_le P mintime (elapsed P (k + 2 * i)))"

lemma malloc_eq: "has_memory P \<Longrightarrow>
    malloc P e = (True, e\<lparr>mallocs := mallocs e + 1, live := live e + 1\<rparr>)"
  by (simp add: has_memory_def malloc_def Let_def)

text \<open>What a kernel times: it returns, keeps its data in shape and gives back its memory.\<close>

locale kernel_body =
  fixes body :: "i32 \<Rightarrow> 's \<Rightarrow> env \<Rightarrow> ('s \<times> env) comp"
    and inv :: "'s \<Rightarrow> bool"
  assumes body_returns: "inv s \<Longrightarrow> \<exists>s' e'. body cycles s e = Some (Done (s', e')) \<and> inv s' \<and>
    live e' = live e \<and> reads e' = reads e"
begin

lemma timing_returns:
  assumes "inv s" "\<not> sw_running Q" "f_le P mintime (elapsed P (reads e + 2 * i))"
  shows "\<exists>c s' t e'. timing P mintime body cycles s Q e = Some (Done (c, s', t, e')) \<and> inv s' \<and>
    live e' = live e \<and> f_le P mintime t"
  using assms
proof (induction i arbitrary: cycles s Q e rule: less_induct)
  case (less i)
  define e1 where "e1 = e\<lparr>reads := reads e + 1\<rparr>"
  obtain s' e2 where b: "body cycles s e1 = Some (Done (s', e2))" "inv s'" "live e2 = live e1" "reads e2 = reads e1"
    using body_returns [OF less.prems(1)] by blast
  define Q' where "Q' = Q\<lparr>sw_last_time := reading P (reads e), sw_total := elapsed P (reads e), sw_running := False\<rparr>"
  define e3 where "e3 = e2\<lparr>reads := reads e2 + 1\<rparr>"
  have step: "timing P mintime body cycles s Q e =
      (if f_le P mintime (elapsed P (reads e)) then Some (Done (cycles, s', elapsed P (reads e), e3))
       else timing P mintime body (cycles * 2) s' Q' e3)"
    using less.prems(2) b unfolding e1_def
    by (subst timing.simps)
      (simp add: Stopwatch_start_def Stopwatch_stop_def Stopwatch_read_def seconds_def clock_def Let_def
        elapsed_def reading_def e3_def Q'_def)
  have live: "live e3 = live e" "reads e3 = reads e + 2"
    using b by (simp_all add: e3_def e1_def)
  show ?case
  proof (cases "f_le P mintime (elapsed P (reads e))")
    case True
    then show ?thesis using step b(2) live by auto
  next
    case False
    then obtain k where i: "i = Suc k" using less.prems(3) by (cases i) auto
    have "\<exists>c s'' t e'. timing P mintime body (cycles * 2) s' Q' e3 = Some (Done (c, s'', t, e')) \<and> inv s'' \<and>
        live e' = live e3 \<and> f_le P mintime t"
      by (rule less.IH [of k]) (use less.prems(3) b(2) live in \<open>simp_all add: i Q'_def add.commute add.left_commute\<close>)
    then show ?thesis using step False live by simp
  qed
qed

lemma timed_returns:
  assumes "inv s" "has_memory P" "clock_passes P mintime"
  shows "\<exists>Q c s' t e'. new_Stopwatch P e = (Some Q, e\<lparr>mallocs := mallocs e + 1, live := live e + 1\<rparr>) \<and>
    timed P mintime body s (Some Q) (e\<lparr>mallocs := mallocs e + 1, live := live e + 1\<rparr>) =
      Some (Done (c, s', t, e')) \<and> inv s' \<and> live e' = live e + 1 \<and> f_le P mintime t"
proof -
  let ?e = "e\<lparr>mallocs := mallocs e + 1, live := live e + 1\<rparr>"
  define Q where "Q = Stopwtach_reset P \<lparr>sw_running = junk_int P \<noteq> 0, sw_last_time = junk P, sw_total = junk P\<rparr>"
  have n: "new_Stopwatch P e = (Some Q, ?e)"
    by (simp add: new_Stopwatch_def malloc_eq [OF assms(2)] Q_def)
  obtain i where "f_le P mintime (elapsed P (reads ?e + 2 * i))"
    using assms(3) unfolding clock_passes_def by blast
  moreover have "\<not> sw_running Q" by (simp add: Q_def Stopwtach_reset_def)
  ultimately show ?thesis
    using timing_returns [OF assms(1), of Q P mintime ?e i 1] n by (auto simp: timed_def)
qed

end

text \<open>The five kernels.\<close>

interpretation fft: kernel_body "fft_body P N"
    "\<lambda>x. \<exists>l \<le> 29. N = 2 ^ Suc l \<and> length x = 2 * 2 ^ l" for P N
proof
  fix x :: "'a list" and cycles e
  assume "\<exists>l \<le> 29. N = 2 ^ Suc l \<and> length x = 2 * 2 ^ l"
  then obtain l where l: "l \<le> 29" "N = 2 ^ Suc l" "length x = 2 * 2 ^ l" by blast
  have "\<exists>y. repeat_comp (turns cycles) (\<lambda>x. bind_comp (FFT_transform P N x) (FFT_inverse P N)) x =
      Some (Done y) \<and> length y = 2 * 2 ^ l"
  proof (rule repeat_comp_inv [where I = "\<lambda>x. length x = 2 * 2 ^ l", OF l(3)])
    fix s :: "'a list" assume "length s = 2 * 2 ^ l"
    then obtain s1 where 1: "FFT_transform P N s = Some (Done s1)" "length s1 = 2 * 2 ^ l"
      using FFT_transform_internal_run [OF l(1), of s P "- 1"] by (auto simp: FFT_transform_def l(2))
    then show "\<exists>s'. bind_comp (FFT_transform P N s) (FFT_inverse P N) = Some (Done s') \<and> length s' = 2 * 2 ^ l"
      using FFT_inverse_run [OF l(1), of s1 P] by (auto simp: l(2))
  qed
  then show "\<exists>s' e'. fft_body P N cycles x e = Some (Done (s', e')) \<and>
      (\<exists>l \<le> 29. N = 2 ^ Suc l \<and> length s' = 2 * 2 ^ l) \<and> live e' = live e \<and> reads e' = reads e"
    using l(1,2) by (auto simp: fft_body_def)
qed

lemma shaped_sweeps: "shaped m n G \<Longrightarrow> shaped m n ((sweep P o4 om m n ^^ k) G)"
  using shaped_sweep by (cases k) auto

interpretation sor: kernel_body "sor_body P N" "\<lambda>G. \<exists>A. G = Some A \<and> shaped (turns N) (turns N) A" for P N
proof
  fix G :: "'a list list option" and cycles e
  assume "\<exists>A. G = Some A \<and> shaped (turns N) (turns N) A"
  then obtain A where A: "G = Some A" "shaped (turns N) (turns N) A" by blast
  then show "\<exists>s' e'. sor_body P N cycles G e = Some (Done (s', e')) \<and>
      (\<exists>A. s' = Some A \<and> shaped (turns N) (turns N) A) \<and> live e' = live e \<and> reads e' = reads e"
    using SOR_sweeps [OF A(2)] shaped_sweeps [OF A(2)] by (auto simp: sor_body_def)
qed

lemma MonteCarlo_returns:
  assumes "has_memory P"
  shows "\<exists>x e'. MonteCarlo_integrate P k e = Done (x, e') \<and> live e' = live e \<and> reads e' = reads e"
proof -
  obtain R where R: "new_Random_seed P SEED e = Done (R, snd (malloc P e))" "random_ok R"
    using new_Random_seed_run [of SEED P e] malloc_eq [OF assms] by (auto simp: SEED_def)
  have "\<exists>s. for_each [0..<turns k] (sample P) (0, R) = Done s \<and> random_ok (snd s)"
  proof (rule for_each_inv [where I = "\<lambda>i s. random_ok (snd s)"])
    fix i and s :: "i32 \<times> 'a Random_struct" assume s: "random_ok (snd s)"
    obtain x R1 where 1: "Random_nextDouble P (snd s) = Done (x, R1)" "random_ok R1"
      using nextDouble [OF s, of P] by blast
    obtain y R2 where "Random_nextDouble P R1 = Done (y, R2)" "random_ok R2"
      using nextDouble [OF 1(2), of P] by blast
    then show "\<exists>s'. sample P i s = Done s' \<and> random_ok (snd s')"
      using 1(1) by (cases s) (simp add: sample_def)
  qed (simp_all add: R(2))
  then show ?thesis
    using R(1) malloc_eq [OF assms, of e]
    by (auto simp: MonteCarlo_integrate_def Random_delete_def free_def)
qed

interpretation mc: kernel_body "mc_body P" "\<lambda>s. has_memory P" for P
proof
  fix s cycles e assume "has_memory P"
  then obtain x e' where "MonteCarlo_integrate P cycles e = Done (x, e')" "live e' = live e" "reads e' = reads e"
    using MonteCarlo_returns by blast
  then show "\<exists>s' e'. mc_body P cycles s e = Some (Done (s', e')) \<and> has_memory P \<and>
      live e' = live e \<and> reads e' = reads e"
    using \<open>has_memory P\<close> by (simp add: mc_body_def)
qed

interpretation sparse: kernel_body "sparse_body P N val row col x"
    "\<lambda>y. \<exists>v. y = Some v \<and> length v = turns N \<and> csr_ok (turns N) (length x) val row col" for P N val row col x
proof
  fix y :: "'a list option" and cycles e
  assume "\<exists>v. y = Some v \<and> length v = turns N \<and> csr_ok (turns N) (length x) val row col"
  then obtain v where v: "y = Some v" "length v = turns N" "csr_ok (turns N) (length x) val row col" by blast
  have "\<exists>w. SparseCompRow_matmult P N v val row col x cycles = Done w \<and> length w = turns N"
    using matmult [OF v(3,2), of cycles P] v(2)
    by (cases "turns cycles") (auto simp: SparseCompRow_matmult_def)
  then show "\<exists>s' e'. sparse_body P N val row col x cycles y e = Some (Done (s', e')) \<and>
      (\<exists>v. s' = Some v \<and> length v = turns N \<and> csr_ok (turns N) (length x) val row col) \<and>
      live e' = live e \<and> reads e' = reads e"
    using v by (auto simp: sparse_body_def)
qed

interpretation lu: kernel_body "lu_body P N A"
    "\<lambda>(lu, pivot). 0 \<le> sint N \<and> shaped (turns N) (turns N) A \<and> shaped (turns N) (turns N) lu \<and>
       turns N \<le> length pivot" for P N A
proof
  fix s :: "'a list list \<times> i32 list" and cycles e
  let ?I = "\<lambda>(lu, pivot). 0 \<le> sint N \<and> shaped (turns N) (turns N) A \<and> shaped (turns N) (turns N) lu \<and>
    turns N \<le> length pivot"
  assume s: "?I s"
  have "\<exists>s'. for_each [0..<turns cycles] (\<lambda>i (lu, pivot).
         bind_run (Array2D_double_copy N N lu A) (\<lambda>lu.
         bind_run (LU_factor P N N lu pivot) (\<lambda>(code, lu, pivot). Done (lu, pivot)))) s = Done s' \<and> ?I s'"
  proof (rule for_each_inv [where I = "\<lambda>i. ?I"])
    fix i and s :: "'a list list \<times> i32 list" assume "?I s"
    then obtain lu pivot where s: "s = (lu, pivot)" "0 \<le> sint N" "shaped (turns N) (turns N) A"
      "shaped (turns N) (turns N) lu" "turns N \<le> length pivot" by (cases s) auto
    show "\<exists>s'. (case s of (lu, pivot) \<Rightarrow> bind_run (Array2D_double_copy N N lu A) (\<lambda>lu.
         bind_run (LU_factor P N N lu pivot) (\<lambda>(code, lu, pivot). Done (lu, pivot)))) = Done s' \<and> ?I s'"
      using Array2D_double_copy_run [OF s(2-4)] LU_factor_returns [OF s(3), of pivot P] s
      by auto
  qed (use s in simp_all)
  then show "\<exists>s' e'. lu_body P N A cycles s e = Some (Done (s', e')) \<and> ?I s' \<and>
      live e' = live e \<and> reads e' = reads e"
    by (auto simp: lu_body_def)
qed

subsection \<open>The kernels return\<close>

text \<open>A kernel returns a score, its generator is well formed and its memory is freed.\<close>

definition kernel_done :: "env \<Rightarrow> ('d \<times> 'd Random_struct \<times> env) comp \<Rightarrow> bool" where
  "kernel_done e r \<longleftrightarrow> (\<exists>x R' e'. r = Some (Done (x, R', e')) \<and> random_ok R' \<and> live e' = live e)"

lemma new_vector:
  assumes "has_memory P" "random_ok R"
  shows "\<exists>v R'. RandomVector P N R e = Done (Some v, R', e\<lparr>mallocs := mallocs e + 1, live := live e + 1\<rparr>) \<and>
    random_ok R' \<and> length v = turns N"
  using RandomVector_run [OF assms(2), of P e N] malloc_eq [OF assms(1), of e] by auto

lemma new_matrix:
  assumes "has_memory P" "random_ok R"
  shows "\<exists>A R' e'. RandomMatrix P M N R e = Done (Some A, R', e') \<and> random_ok R' \<and>
    shaped (turns M) (turns N) A \<and> live e' = live e + 1 + turns M"
proof -
  let ?e = "e\<lparr>mallocs := mallocs e + 1, live := live e + 1\<rparr>"
  obtain A R' e' where r: "random_rows P N (turns M) R ?e = Done (A, R', e')" "random_ok R'"
    "case A of None \<Rightarrow> \<exists>k. \<not> malloc_ok P k
      | Some rows \<Rightarrow> shaped (turns M) (turns N) rows \<and> live e' = live ?e + turns M"
    using random_rows_run [OF assms(2), of P N "turns M" ?e] by blast
  moreover obtain rows where "A = Some rows"
    using r(3) assms(1) by (cases A) (auto simp: has_memory_def)
  ultimately show ?thesis
    using malloc_eq [OF assms(1), of e] by (auto simp: RandomMatrix_def)
qed

lemma alloc_rows_ok:
  "(\<And>j. j < k \<Longrightarrow> malloc_ok P (mallocs e + j)) \<Longrightarrow>
     alloc_rows P k i e = (None, e\<lparr>mallocs := mallocs e + k, live := live e + k\<rparr>)"
proof (induction k arbitrary: i e)
  case (Suc k)
  let ?e = "e\<lparr>mallocs := mallocs e + 1, live := live e + 1\<rparr>"
  have "malloc P e = (True, ?e)"
    using Suc.prems [of 0] by (simp add: malloc_def Let_def)
  moreover have "malloc_ok P (mallocs ?e + j)" if "j < k" for j
    using Suc.prems [of "Suc j"] that by simp
  ultimately show ?case using Suc.IH [of ?e "Suc i"] by simp
qed simp

lemma new_array:
  assumes "has_memory P"
  shows "\<exists>A e'. new_Array2D_double P M N e = Done (Some A, e') \<and> shaped (turns M) (turns N) A \<and>
    live e' = live e + 1 + turns M"
  using assms alloc_rows_ok [of "turns M" P "e\<lparr>mallocs := mallocs e + 1, live := live e + 1\<rparr>" 0]
  by (auto simp: new_Array2D_double_def malloc_eq shaped_def has_memory_def)

text \<open>There is no memory for the row number \<open>k\<close>: the rows before it are not freed.\<close>

lemma alloc_rows_fails:
  "(\<And>j. j < k \<Longrightarrow> malloc_ok P (mallocs e + j)) \<Longrightarrow> \<not> malloc_ok P (mallocs e + k) \<Longrightarrow> k < m \<Longrightarrow>
     alloc_rows P m i e = (Some (i + k), e\<lparr>mallocs := mallocs e + k + 1, live := live e + k\<rparr>)"
proof (induction k arbitrary: i e m)
  case 0
  then show ?case by (cases m) (simp_all add: malloc_def Let_def)
next
  case (Suc k)
  let ?e = "e\<lparr>mallocs := mallocs e + 1, live := live e + 1\<rparr>"
  obtain m' where m: "m = Suc m'" "k < m'" using Suc.prems(3) by (cases m) auto
  have "malloc P e = (True, ?e)"
    using Suc.prems(1) [of 0] by (simp add: malloc_def Let_def)
  moreover have "malloc_ok P (mallocs ?e + j)" if "j < k" for j
    using Suc.prems(1) [of "Suc j"] that by simp
  ultimately show ?case
    using Suc.IH [of ?e m' "Suc i"] Suc.prems(2) m by simp
qed

lemma new_array_fails:
  assumes "\<And>j. j \<le> k \<Longrightarrow> malloc_ok P (mallocs e + j)" "\<not> malloc_ok P (mallocs e + k + 1)" "k < turns M"
  shows "new_Array2D_double P M N e =
    (if k < 2 then Fault OutOfBlock
     else Done (None, e\<lparr>mallocs := mallocs e + k + 2, live := live e + k\<rparr>))"
proof -
  let ?e = "e\<lparr>mallocs := mallocs e + 1, live := live e + 1\<rparr>"
  have m: "malloc P e = (True, ?e)"
    using assms(1) [of 0] by (simp add: malloc_def Let_def)
  have r: "alloc_rows P (turns M) 0 ?e = (Some k, ?e\<lparr>mallocs := mallocs ?e + k + 1, live := live ?e + k\<rparr>)"
    using alloc_rows_fails [of k P ?e "turns M" 0] assms(1) [of "Suc _"] assms(2,3) by simp
  have neg: "clean_up (- 1) e' = Fault OutOfBlock" for e' by (subst clean_up.simps) simp
  have "clean_up (int k - 1) e' = (if k < 2 then Fault OutOfBlock else Done e')" for e'
    by (subst clean_up.simps) (auto simp: neg less_Suc_eq numeral_2_eq_2)
  then show ?thesis
    unfolding new_Array2D_double_def m Let_def split r by (simp add: free_def)
qed

lemma FFT_returns:
  assumes m: "has_memory P" "clock_passes P mintime" and R: "random_ok R" and N: "N = 2 ^ l" "l \<le> 29"
  shows "kernel_done e (kernel_measureFFT P N mintime R e)"
proof -
  let ?e = "e\<lparr>mallocs := mallocs e + 1, live := live e + 1\<rparr>"
  have N2: "2 * N = 2 ^ Suc l" by (simp add: N)
  obtain v R' where v: "RandomVector P (2 * N) R e = Done (Some v, R', e\<lparr>mallocs := mallocs e + 1, live := live e + 1\<rparr>)"
    "random_ok R'" "length v = turns (2 * N)"
    using new_vector [OF m(1) R] by blast
  have "\<exists>k \<le> 29. 2 * N = 2 ^ Suc k \<and> length v = 2 * 2 ^ k"
    using v(3) half_pow2(3) [OF N(2)] N2 N(2) by auto
  then obtain Q c s t e4 where "new_Stopwatch P ?e = (Some Q, ?e\<lparr>mallocs := mallocs ?e + 1, live := live ?e + 1\<rparr>)"
    "timed P mintime (fft_body P (2 * N)) v (Some Q) (?e\<lparr>mallocs := mallocs ?e + 1, live := live ?e + 1\<rparr>) =
       Some (Done (c, s, t, e4))" "live e4 = live ?e + 1"
    using fft.timed_returns [OF _ m] by blast
  then show ?thesis
    using v int_log2_pow2 [of l] N
    by (simp add: kernel_done_def kernel_measureFFT_def FFT_num_flops_def Stopwatch_delete_def free_def Let_def)
qed

lemma SOR_returns:
  assumes m: "has_memory P" "clock_passes P mintime" and R: "random_ok R"
  shows "kernel_done e (kernel_measureSOR P N mintime R e)"
proof -
  obtain A R' e1 where A: "RandomMatrix P N N R e = Done (Some A, R', e1)" "random_ok R'"
    "shaped (turns N) (turns N) A" "live e1 = live e + 1 + turns N"
    using new_matrix [OF m(1) R] by blast
  have "\<exists>B. Some A = Some B \<and> shaped (turns N) (turns N) B" using A(3) by simp
  then obtain Q c s t e4 where "new_Stopwatch P e1 = (Some Q, e1\<lparr>mallocs := mallocs e1 + 1, live := live e1 + 1\<rparr>)"
    "timed P mintime (sor_body P N) (Some A) (Some Q) (e1\<lparr>mallocs := mallocs e1 + 1, live := live e1 + 1\<rparr>) =
       Some (Done (c, s, t, e4))" "live e4 = live e1 + 1" "\<exists>B. s = Some B \<and> shaped (turns N) (turns N) B"
    using sor.timed_returns [OF _ m] by blast
  then show ?thesis
    using A by (auto simp: kernel_done_def kernel_measureSOR_def Stopwatch_delete_def free_def
        free_blocks_def Array2D_double_delete_def Let_def)
qed

lemma MonteCarlo_kernel_returns:
  assumes m: "has_memory P" "clock_passes P mintime" and R: "random_ok R"
  shows "kernel_done e (kernel_measureMonteCarlo P mintime R e)"
proof -
  obtain Q c s t e4 where "new_Stopwatch P e = (Some Q, e\<lparr>mallocs := mallocs e + 1, live := live e + 1\<rparr>)"
    "timed P mintime (mc_body P) () (Some Q) (e\<lparr>mallocs := mallocs e + 1, live := live e + 1\<rparr>) =
       Some (Done (c, s, t, e4))" "live e4 = live e + 1"
    using mc.timed_returns [OF m(1) m] by blast
  then show ?thesis
    using R by (simp add: kernel_done_def kernel_measureMonteCarlo_def Stopwatch_delete_def free_def Let_def)
qed

lemma LU_returns:
  assumes m: "has_memory P" "clock_passes P mintime" and R: "random_ok R" and N: "0 \<le> sint N"
  shows "kernel_done e (kernel_measureLU P N mintime R e)"
proof -
  let ?e = "e\<lparr>mallocs := mallocs e + 1, live := live e + 1\<rparr>"
  obtain Q where Q: "new_Stopwatch P e = (Some Q, ?e)" and Qr: "\<not> sw_running Q"
    by (simp add: new_Stopwatch_def malloc_eq [OF m(1)] Stopwtach_reset_def)
  obtain A R' e1 where A: "RandomMatrix P N N R ?e = Done (Some A, R', e1)" "random_ok R'"
    "shaped (turns N) (turns N) A" "live e1 = live ?e + 1 + turns N"
    using new_matrix [OF m(1) R] by blast
  obtain lu e2 where L: "new_Array2D_double P N N e1 = Done (Some lu, e2)"
    "shaped (turns N) (turns N) lu" "live e2 = live e1 + 1 + turns N"
    using new_array [OF m(1)] by blast
  obtain p e3 where p: "alloc_ints P N e2 = (Some p, e3)" "length p = turns N" "live e3 = live e2 + 1"
    by (simp add: alloc_ints_def malloc_eq [OF m(1)])
  have inv: "case (lu, p) of (lu, pivot) \<Rightarrow> 0 \<le> sint N \<and> shaped (turns N) (turns N) A \<and>
      shaped (turns N) (turns N) lu \<and> turns N \<le> length pivot"
    using A(3) L(2) p(2) N by simp
  obtain i where "f_le P mintime (elapsed P (reads e3 + 2 * i))"
    using m(2) unfolding clock_passes_def by blast
  then obtain c s t e4 where "timing P mintime (lu_body P N A) 1 (lu, p) Q e3 = Some (Done (c, s, t, e4))"
    "live e4 = live e3"
    using lu.timing_returns [OF inv Qr] by blast
  then show ?thesis
    using Q A L p
    by (cases s) (simp add: kernel_done_def kernel_measureLU_def timed_def Stopwatch_delete_def free_def
        free_blocks_def Array2D_double_delete_def Let_def)
qed

subsection \<open>The sparse matrix\<close>

text \<open>
  The first \<open>t\<close> entries are columns of the matrix; \<open>n\<close> rows with \<open>q\<close> entries each fit into the
  array of \<open>k\<close> elements.
\<close>

definition entries_ok :: "nat \<Rightarrow> nat \<Rightarrow> nat \<Rightarrow> i32 list option \<Rightarrow> bool" where
  "entries_ok n k t col \<longleftrightarrow>
     (\<exists>c. col = Some c \<and> length c = k \<and> (\<forall>i < t. 0 \<le> sint (c ! i) \<and> sint (c ! i) < int n))"

lemma sparse_entry_run:
  assumes col: "entries_ok n k (b + i) col" and b: "sint rowr = int b" "b + i < k" "k < 2 ^ 31"
    and st: "0 \<le> sint step" "int i * sint step < int n" and n: "n < 2 ^ 31" and i: "i < 2 ^ 31"
  shows "\<exists>col'. sparse_entry rowr step i col = Done col' \<and> entries_ok n k (b + Suc i) col'"
proof -
  obtain c where c: "col = Some c" "length c = k" "\<forall>t < b + i. 0 \<le> sint (c ! t) \<and> sint (c ! t) < int n"
    using col by (auto simp: entries_ok_def)
  have si: "sint (of_nat i :: i32) = int i"
    using sint_of_int_self [of "int i"] i by simp
  have idx: "sint (rowr + of_nat i) = int (b + i)"
    using sint_ring(1) [of rowr "of_nat i"] b si by simp
  then have pos: "\<not> rowr + of_nat i <s 0" "unat (rowr + of_nat i) = b + i"
    using unat_sint [of "rowr + of_nat i"] by (simp_all add: word_sless_alt)
  have v: "sint (of_nat i * step) = int i * sint step"
  proof (rule sint_ring(3) [of "of_nat i" step, unfolded si])
    have "int n < 2 ^ 31" using n by simp
    then show "int i * sint step < 2 ^ 31" using st(2) by linarith
    show "- (2 ^ 31) \<le> int i * sint step"
      by (rule order_trans [of _ 0]) (use st(1) in simp_all)
  qed
  have "sparse_entry rowr step i col = Done (Some (c[b + i := of_nat i * step]))"
    using c b(2) pos by (simp add: sparse_entry_def put_i32_def put_at_def)
  moreover have "entries_ok n k (b + Suc i) (Some (c[b + i := of_nat i * step]))"
    using c(2,3) b(2) st v by (auto simp: entries_ok_def nth_list_update less_Suc_eq)
  ultimately show ?thesis by blast
qed

definition rows_ok :: "nat \<Rightarrow> nat \<Rightarrow> nat \<Rightarrow> i32 list \<Rightarrow> bool" where
  "rows_ok n q r row \<longleftrightarrow> length row = n + 1 \<and> (\<forall>i \<le> r. sint (row ! i) = int (i * q))"

lemma sparse_step:
  assumes nr: "sint nr = int q" "1 \<le> q" and r: "r < n" "n < 2 ^ 31"
  defines "step \<equiv> (if sdiv32 (of_nat r) nr <s 1 then 1 else sdiv32 (of_nat r) nr)"
  shows "sint step = int (max 1 (r div q))" and "i < q \<Longrightarrow> q \<le> n \<Longrightarrow> int i * sint step < int n"
proof -
  have "nr \<noteq> 0" using nr by auto
  moreover have "sint (of_nat r :: i32) = int r"
    using sint_of_int_self [of "int r"] r by simp
  ultimately have "sdiv32 (of_nat r) nr = word_of_int (int (r div q))"
    using nr by (simp add: sdiv32_def sdiv_nonneg zdiv_int)
  moreover have "sint (word_of_int (int (r div q)) :: i32) = int (r div q)"
  proof -
    have "r div q < 2 ^ 31" using r div_le_dividend [of r q] by linarith
    then show ?thesis by (intro sint_of_int_self) simp_all
  qed
  ultimately show s: "sint step = int (max 1 (r div q))"
    by (simp add: step_def word_sless_alt max_def)
  assume i: "i < q" "q \<le> n"
  have "i * max 1 (r div q) < n"
  proof (cases "1 \<le> r div q")
    case True
    have "i * (r div q) \<le> q * (r div q)" using i(1) by simp
    also have "\<dots> \<le> r" by simp
    finally show ?thesis using True r(1) by (simp add: max_def)
  next
    case False
    then show ?thesis using i by simp
  qed
  then show "int i * sint step < int n"
    unfolding s by (metis of_nat_less_iff of_nat_mult)
qed

lemma sparse_structure_run:
  assumes nr: "sint nr = int q" "1 \<le> q" "q \<le> n" and r: "r < n" and k: "n * q \<le> k" "k < 2 ^ 31"
    and row: "rows_ok n q r row" and col: "entries_ok n k (r * q) col"
  shows "\<exists>row' col'. sparse_structure nr r (row, col) = Done (row', col') \<and>
    rows_ok n q (Suc r) row' \<and> entries_ok n k (Suc r * q) col'"
proof -
  have nk: "n \<le> k" using nr(2) k(1) by (metis dual_order.trans le_add1 mult.commute mult_le_mono1 mult_1)
  have rq: "Suc r * q \<le> k" using r k(1) by (meson Suc_leI dual_order.trans mult_le_mono1)
  have rowr: "r < length row" "Suc r < length row" "sint (row ! r) = int (r * q)"
    using row r by (auto simp: rows_ok_def)
  have q: "turns nr = q" using nr(1) by (simp add: turns_def)
  define step where "step = (if sdiv32 (of_nat r) nr <s 1 then 1 else sdiv32 (of_nat r) nr)"
  note st = sparse_step [OF nr(1,2) r, folded step_def]
  have n31: "n < 2 ^ 31" using nk k(2) by linarith
  have "\<exists>col'. for_each [0..<q] (sparse_entry (row ! r) step) col = Done col' \<and>
      entries_ok n k (r * q + q) col'"
  proof (rule for_each_inv [where I = "\<lambda>i. entries_ok n k (r * q + i)"])
    fix i c assume i: "i < q" and c: "entries_ok n k (r * q + i) c"
    show "\<exists>s'. sparse_entry (row ! r) step i c = Done s' \<and> entries_ok n k (r * q + Suc i) s'"
    proof (rule sparse_entry_run [OF c rowr(3) _ k(2) _ _ n31])
      show "r * q + i < k" using i rq by simp
      show "0 \<le> sint step" using st(1) [OF n31] by simp
      show "int i * sint step < int n" using st(2) [OF n31 i nr(3)] .
      show "i < 2 ^ 31" using i nr(3) n31 by linarith
    qed
  qed (use col in simp_all)
  then obtain col' where c: "for_each [0..<q] (sparse_entry (row ! r) step) col = Done col'"
    "entries_ok n k (r * q + q) col'" by blast
  let ?row = "row[r + 1 := row ! r + nr]"
  have "sint (row ! r + nr) = int (Suc r * q)"
  proof -
    have "r * q + q < 2 ^ 31" using rq k(2) by simp
    then have "int (r * q) + int q < 2 ^ 31" by (simp flip: of_nat_add of_nat_mult)
    moreover have "- (2 ^ 31) \<le> int (r * q) + int q" by (rule order_trans [of _ 0]) simp_all
    ultimately have "sint (row ! r + nr) = int (r * q) + int q"
      using sint_ring(1) [of "row ! r" nr] unfolding rowr(3) nr(1) by blast
    then show ?thesis by simp
  qed
  then have "rows_ok n q (Suc r) ?row"
    using row rowr by (auto simp: rows_ok_def nth_list_update le_Suc_eq algebra_simps)
  then show ?thesis
    using c rowr by (simp add: sparse_structure_def get_at_def put_at_def Let_def q add.commute flip: step_def)
qed

lemma sparse_structure_all:
  assumes nr: "sint nr = int q" "1 \<le> q" "q \<le> n" and k: "n * q \<le> k" "k < 2 ^ 31"
    and row: "rows_ok n q 0 row" and col: "entries_ok n k 0 col"
  shows "\<exists>row' col'. for_each [0..<n] (sparse_structure nr) (row, col) = Done (row', col') \<and>
    rows_ok n q n row' \<and> entries_ok n k (n * q) col'"
proof -
  have "\<exists>s. for_each [0..<n] (sparse_structure nr) (row, col) = Done s \<and>
      (case s of (row, col) \<Rightarrow> rows_ok n q n row \<and> entries_ok n k (n * q) col)"
  proof (rule for_each_inv [where I = "\<lambda>r (row, col). rows_ok n q r row \<and> entries_ok n k (r * q) col"])
    fix r and s :: "i32 list \<times> i32 list option"
    assume "r < n" "case s of (row, col) \<Rightarrow> rows_ok n q r row \<and> entries_ok n k (r * q) col"
    then show "\<exists>s'. sparse_structure nr r s = Done s' \<and>
        (case s' of (row, col) \<Rightarrow> rows_ok n q (Suc r) row \<and> entries_ok n k (Suc r * q) col)"
      using sparse_structure_run [OF nr _ k, of r "fst s" "snd s"] by (cases s) fastforce
  qed (use row col in simp_all)
  then show ?thesis by auto
qed

lemma structure_csr_ok:
  assumes "rows_ok n q n row" "entries_ok n k (n * q) (Some col)" "length val = n * q" "n * q \<le> k" "k < 2 ^ 31"
  shows "csr_ok n n val row col"
proof -
  have "(r + 1) * q \<le> n * q" if "r < n" for r using that by (intro mult_le_mono1) simp
  moreover have "sint (row ! r) = int (r * q)" "sint (row ! (r + 1)) = int ((r + 1) * q)" if "r < n" for r
    using assms(1) that by (auto simp: rows_ok_def algebra_simps)
  ultimately have "\<forall>r < n. 0 \<le> sint (row ! r) \<and> sint (row ! (r + 1)) \<le> int (length val)"
    unfolding assms(3) by (metis of_nat_0_le_iff of_nat_le_iff)
  then show ?thesis
    using assms by (auto simp: csr_ok_def rows_ok_def entries_ok_def)
qed

lemma sparse_sizes:
  assumes n: "sint N = int n" "1 \<le> n" and z: "0 \<le> sint nz"
  defines "q \<equiv> turns nz div n"
  shows "sint (sdiv32 nz N) = int q" "turns (sdiv32 nz N * N) = n * q" "n * q \<le> turns nz"
proof -
  have z31: "turns nz < 2 ^ 31" by (rule turns_less)
  have "N \<noteq> 0" using n by auto
  moreover have "sint nz = int (turns nz)" using z by (simp add: turns_def)
  ultimately have d: "sdiv32 nz N = word_of_int (int q)"
    by (simp add: sdiv32_def sdiv_nonneg n(1) q_def zdiv_int)
  have "q < 2 ^ 31" unfolding q_def using z31 div_le_dividend [of "turns nz" n] by (rule le_less_trans [rotated])
  then show q: "sint (sdiv32 nz N) = int q"
    unfolding d by (intro sint_of_int_self) simp_all
  show le: "n * q \<le> turns nz" by (simp add: q_def)
  then have "n * q < 2 ^ 31" using z31 by linarith
  then have "int q * int n < 2 ^ 31" by (simp add: mult.commute flip: of_nat_mult)
  moreover have "- (2 ^ 31) \<le> int q * int n" by (rule order_trans [of _ 0]) simp_all
  ultimately have "sint (sdiv32 nz N * N) = int q * int n"
    using sint_ring(3) [of "sdiv32 nz N" N] unfolding q n(1) by blast
  then show "turns (sdiv32 nz N * N) = n * q"
    by (simp add: turns_def nat_mult_distrib mult.commute)
qed

lemma sparse_returns:
  assumes m: "has_memory P" "clock_passes P mintime" and R: "random_ok R"
    and n: "sint N = int n" "1 \<le> n" "n < 2 ^ 31 - 1" and z: "0 \<le> sint nz"
    and q: "1 \<le> turns nz div n" "turns nz div n \<le> n"
  shows "kernel_done e (kernel_measureSparseMatMult P N nz mintime R e)"
proof -
  let ?up = "\<lambda>e. e\<lparr>mallocs := mallocs e + 1, live := live e + 1\<rparr>"
  let ?nr = "sdiv32 nz N" and ?q = "turns nz div n"
  note sz = sparse_sizes [OF n(1,2) z]
  have tN: "turns N = n" using n(1) by (simp add: turns_def)
  have "sint (N + 1) = int n + 1"
    using sint_ring(1) [of N 1] n by simp
  then have tN1: "turns (N + 1) = n + 1" by (simp add: turns_def nat_add_distrib)
  obtain x R1 where x: "RandomVector P N R e = Done (Some x, R1, ?up e)" "random_ok R1" "length x = n"
    using new_vector [OF m(1) R, of N e] tN by auto
  obtain val R2 where val: "RandomVector P (?nr * N) R1 (?up (?up e)) = Done (Some val, R2, ?up (?up (?up e)))"
    "random_ok R2" "length val = n * ?q"
    using new_vector [OF m(1) x(2), of "?nr * N" "?up (?up e)"] sz(2) by auto
  define col where "col = replicate (turns nz) (junk_int P)"
  define row where "row = 0 # replicate n (junk_int P)"
  let ?e6 = "?up (?up (?up (?up (?up e))))"
  have "rows_ok n ?q 0 row" "entries_ok n (turns nz) 0 (Some col)"
    by (simp_all add: rows_ok_def entries_ok_def row_def col_def)
  then obtain row' col' where f: "for_each [0..<n] (sparse_structure ?nr) (row, Some col) = Done (row', col')"
    "rows_ok n ?q n row'" "entries_ok n (turns nz) (n * ?q) col'"
    using sparse_structure_all [OF sz(1) q sz(3) turns_less] by blast
  then obtain c where c: "col' = Some c" by (auto simp: entries_ok_def)
  have csr: "csr_ok n n val row' c"
    by (rule structure_csr_ok [OF f(2) f(3) [unfolded c] val(3) sz(3) turns_less])
  have "\<exists>v. Some (replicate n (junk P)) = Some v \<and> length v = turns N \<and> csr_ok (turns N) (length x) val row' c"
    using csr by (simp add: tN x(3))
  then obtain Q k s t e7 where "new_Stopwatch P ?e6 = (Some Q, ?up ?e6)"
    "timed P mintime (sparse_body P N val row' c x) (Some (replicate n (junk P))) (Some Q) (?up ?e6) =
       Some (Done (k, s, t, e7))" "\<exists>v. s = Some v \<and> length v = turns N \<and> csr_ok (turns N) (length x) val row' c"
    "live e7 = live ?e6 + 1"
    using sparse.timed_returns [OF _ m] by blast
  then show ?thesis
    using x val f(1) c
    by (auto simp: kernel_done_def kernel_measureSparseMatMult_def malloc_eq [OF m(1)] alloc_ints_def
        Stopwatch_delete_def free_def free_ptr_def or_empty_def put_at_def Let_def tN tN1
        simp flip: col_def row_def)
qed

subsection \<open>The program\<close>

lemma kernel_doneE:
  assumes "kernel_done e r"
  obtains x R' e' where "r = Some (Done (x, R', e'))" "random_ok R'" "live e' = live e"
  using assms unfolding kernel_done_def by blast

lemma run_kernels_return:
  assumes m: "has_memory P" "clock_passes P mintime" and R: "random_ok R"
    and z: "z = small_sizes \<or> z = large_sizes"
  shows "\<exists>res e'. run_kernels P z mintime R e = Some (Done (res, e')) \<and> length res = 6 \<and> live e' = live e"
proof -
  have "\<exists>l \<le> 29. FFT_size z = 2 ^ l"
    using z by (auto simp: small_sizes_def large_sizes_def intro: exI [of _ 7] exI [of _ 20])
  then obtain l where l: "FFT_size z = 2 ^ l" "l \<le> 29" by blast
  have lu: "0 \<le> sint (LU_size z)"
    using z by (auto simp: small_sizes_def large_sizes_def)
  have sp: "\<exists>n. sint (Sparse_size_M z) = int n \<and> 1 \<le> n \<and> n < 2 ^ 31 - 1 \<and> 0 \<le> sint (Sparse_size_nz z) \<and>
      1 \<le> turns (Sparse_size_nz z) div n \<and> turns (Sparse_size_nz z) div n \<le> n"
    using z by (elim disjE) (auto simp: small_sizes_def large_sizes_def turns_def
        intro: exI [of _ 100] exI [of _ 100000])
  then obtain n where n: "sint (Sparse_size_M z) = int n" "1 \<le> n" "n < 2 ^ 31 - 1" "0 \<le> sint (Sparse_size_nz z)"
    "1 \<le> turns (Sparse_size_nz z) div n" "turns (Sparse_size_nz z) div n \<le> n" by blast
  obtain x1 R1 e1 where 1: "kernel_measureFFT P (FFT_size z) mintime R e = Some (Done (x1, R1, e1))"
    "random_ok R1" "live e1 = live e"
    by (rule kernel_doneE [OF FFT_returns [OF m R l]])
  obtain x2 R2 e2 where 2: "kernel_measureSOR P (SOR_size z) mintime R1 e1 = Some (Done (x2, R2, e2))"
    "random_ok R2" "live e2 = live e1"
    by (rule kernel_doneE [OF SOR_returns [OF m 1(2)]])
  obtain x3 R3 e3 where 3: "kernel_measureMonteCarlo P mintime R2 e2 = Some (Done (x3, R3, e3))"
    "random_ok R3" "live e3 = live e2"
    by (rule kernel_doneE [OF MonteCarlo_kernel_returns [OF m 2(2)]])
  obtain x4 R4 e4 where 4: "kernel_measureSparseMatMult P (Sparse_size_M z) (Sparse_size_nz z) mintime R3 e3 =
      Some (Done (x4, R4, e4))" "random_ok R4" "live e4 = live e3"
    by (rule kernel_doneE [OF sparse_returns [OF m 3(2) n]])
  obtain x5 R5 e5 where 5: "kernel_measureLU P (LU_size z) mintime R4 e4 = Some (Done (x5, R5, e5))"
    "random_ok R5" "live e5 = live e4"
    by (rule kernel_doneE [OF LU_returns [OF m 4(2) lu]])
  show ?thesis
    using 1 2 3 4 5 by (simp add: run_kernels_def Let_def)
qed

lemma parse_args_sizes:
  "parse_args P atof argv = Some (z, t) \<Longrightarrow> z = small_sizes \<or> z = large_sizes"
  by (auto simp: parse_args_def Let_def split: if_splits)

lemma scimark_main_done:
  assumes m: "has_memory P" and a: "parse_args P atof argv = Some (z, mintime)" and c: "clock_passes P mintime"
  shows "\<exists>res e'. scimark_main P atof argv e = Some (Done (res, e')) \<and> length res = 6 \<and> live e' = live e"
proof -
  obtain R where R: "new_Random_seed P RANDOM_SEED e = Done (R, snd (malloc P e))" "random_ok R"
    using new_Random_seed_run [of RANDOM_SEED P e] malloc_eq [OF m] by (auto simp: RANDOM_SEED_def)
  obtain res e' where r: "run_kernels P z mintime R (snd (malloc P e)) = Some (Done (res, e'))" "length res = 6"
    "live e' = live (snd (malloc P e))"
    using run_kernels_return [OF m c R(2) parse_args_sizes [OF a]] by blast
  then show ?thesis
    using R(1) a malloc_eq [OF m, of e] by (simp add: scimark_main_def Random_delete_def free_def)
qed

end
