(* ===== verification/Piseries.thy ===== *)
theory Piseries
  imports Complex_Main
begin

text \<open>
  Euler's series for \<open>pi / 2\<close>, whose terms are the weights of the positions in \<open>sw/pi\<close>: the
  transform of the alternating series of Leibniz, with a bound on what is left after \<open>n\<close>
  terms.
\<close>

text \<open>The differences of order \<open>n\<close> of \<open>1, 1/3, 1/5, ...\<close>\<close>

primrec difference :: "nat \<Rightarrow> nat \<Rightarrow> real" where
  "difference 0 k = 1 / (2 * k + 1)"
| "difference (Suc n) k = difference n k * (2 * n + 2) / (2 * k + 2 * n + 3)"

lemma difference_pos: "0 < difference n k"
  by (induction n) (simp_all add: zero_less_mult_iff add_pos_nonneg)

lemma difference_right: "difference n (Suc k) * (2 * k + 2 * n + 3) = difference n k * (2 * k + 1)"
proof (induction n)
  case 0
  show ?case by (simp add: field_simps)
next
  case (Suc n)
  have pos: "(2 * real k + 2 * real n + 5) \<noteq> 0" "(2 * real k + 2 * real n + 3) \<noteq> 0"
    by (simp_all add: add_nonneg_eq_0_iff)
  have "difference (Suc n) (Suc k) * (2 * k + 2 * Suc n + 3) = difference n (Suc k) * (2 * n + 2)"
    using pos by (simp add: field_simps)
  also have "\<dots> = difference n k * (2 * k + 1) / (2 * k + 2 * n + 3) * (2 * n + 2)"
    using Suc pos by (simp add: eq_divide_eq)
  also have "\<dots> = difference (Suc n) k * (2 * k + 1)"
    using pos by (simp add: field_simps)
  finally show ?case .
qed

lemma difference_step: "difference n k - difference n (Suc k) = difference (Suc n) k"
proof -
  have pos: "(2 * real k + 2 * real n + 3) \<noteq> 0" by (simp add: add_nonneg_eq_0_iff)
  have "(difference n k - difference n (Suc k)) * (2 * k + 2 * n + 3) = difference n k * (2 * n + 2)"
    using difference_right [of n k] by (simp add: algebra_simps)
  then show ?thesis using pos by (simp add: eq_divide_eq)
qed

lemma difference_decreasing: "difference n (Suc k) \<le> difference n k"
  using difference_step [of n k] difference_pos [of "Suc n" k] by linarith

lemma difference_bound: "difference n k \<le> 1 / (2 * k + 1)"
proof (induction n)
  case (Suc n)
  have "(2 * real n + 2) / (2 * k + 2 * n + 3) \<le> 1" by (simp add: divide_le_eq)
  then have "difference n k * ((2 * real n + 2) / (2 * k + 2 * n + 3)) \<le> difference n k * 1"
    using difference_pos [of n k] by (intro mult_left_mono) auto
  with Suc show ?case by simp
qed simp

lemma difference_vanishes: "(\<lambda>k. difference n k) \<longlonglongrightarrow> 0"
proof (rule tendsto_sandwich [OF _ _ tendsto_const])
  show "\<forall>\<^sub>F k in sequentially. 0 \<le> difference n k"
    using difference_pos [of n] by (simp add: less_imp_le)
  show "\<forall>\<^sub>F k in sequentially. difference n k \<le> inverse (real (Suc k))"
  proof (rule always_eventually, rule allI)
    fix k
    have "1 / (2 * real k + 1) \<le> inverse (real (Suc k))"
      by (simp add: inverse_eq_divide frac_le)
    with difference_bound [of n k] show "difference n k \<le> inverse (real (Suc k))" by linarith
  qed
  show "(\<lambda>k. inverse (real (Suc k))) \<longlonglongrightarrow> 0" by (rule LIMSEQ_inverse_real_of_nat)
qed

text \<open>The alternating sums: each transform halves.\<close>

definition alternating :: "nat \<Rightarrow> real" where
  "alternating n = (\<Sum>k. (- 1) ^ k * difference n k)"

lemmas alternating_series =
  summable_Leibniz' [OF difference_vanishes less_imp_le [OF difference_pos] difference_decreasing]

lemma alternating_bounds: "0 \<le> alternating n" "alternating n \<le> difference n 0"
  using alternating_series(2) [of n 0] alternating_series(4) [of n 0]
  by (simp_all add: alternating_def)

lemma alternating_step: "alternating n = (difference n 0 + alternating (Suc n)) / 2"
proof -
  let ?f = "\<lambda>n k. (- 1) ^ k * difference n k"
  have f: "?f n sums alternating n" for n
    unfolding alternating_def using alternating_series(1) by (rule summable_sums)
  have "(\<lambda>k. ?f n (Suc k)) sums (alternating n - difference n 0)"
    using f [of n] by (subst sums_Suc_iff) simp
  from sums_add [OF f [of n] this]
  have "(\<lambda>k. ?f n k + ?f n (Suc k)) sums (2 * alternating n - difference n 0)" by simp
  moreover have "?f n k + ?f n (Suc k) = ?f (Suc n) k" for k
  proof -
    have "?f n k + ?f n (Suc k) = (- 1) ^ k * (difference n k - difference n (Suc k))"
      by (simp add: algebra_simps)
    then show ?thesis by (simp only: difference_step)
  qed
  ultimately have "?f (Suc n) sums (2 * alternating n - difference n 0)" by simp
  with f [of "Suc n"] have "alternating (Suc n) = 2 * alternating n - difference n 0"
    by (rule sums_unique2)
  then show ?thesis by simp
qed

lemma alternating_0: "alternating 0 = pi / 4"
  unfolding alternating_def pi_series by (intro suminf_cong) (simp add: mult.commute)

text \<open>\<open>weight n\<close> is the product of \<open>i / (2 i + 1)\<close> for \<open>i\<close> from 1 to \<open>n\<close>.\<close>

primrec weight :: "nat \<Rightarrow> real" where
  "weight 0 = 1"
| "weight (Suc n) = weight n * (n + 1) / (2 * n + 3)"

lemma weight_pos: "0 < weight n"
  by (induction n) (simp_all add: add_pos_nonneg)

lemma weight_bound: "weight n \<le> 1 / 2 ^ n"
proof (induction n)
  case (Suc n)
  have "(real n + 1) / (2 * n + 3) \<le> 1 / 2" by (simp add: divide_le_eq)
  then have "weight n * ((real n + 1) / (2 * n + 3)) \<le> 1 / 2 ^ n * (1 / 2)"
    using Suc weight_pos [of n] by (intro mult_mono) auto
  then show ?case by (simp add: add.commute mult.commute)
qed simp

lemma difference_weight: "difference n 0 = 2 ^ n * weight n"
  by (induction n) (simp_all add: field_simps)

lemma euler_series: "\<exists>r. pi / 2 = (\<Sum>k<n. weight k) + r \<and> 0 \<le> r \<and> r \<le> 2 / 2 ^ n"
proof -
  have "pi / 2 = (\<Sum>k<n. weight k) + 2 * alternating n / 2 ^ n"
  proof (induction n)
    case 0
    show ?case by (simp add: alternating_0)
  next
    case (Suc n)
    then show ?case
      using alternating_step [of n] difference_weight [of n] by (simp add: field_simps)
  qed
  moreover have "2 * alternating n / 2 ^ n \<le> 2 * weight n"
    using alternating_bounds(2) [of n] difference_weight [of n] by (simp add: field_simps)
  then have "2 * alternating n / 2 ^ n \<le> 2 / 2 ^ n"
    using weight_bound [of n] by simp
  ultimately show ?thesis
    using alternating_bounds(1) [of n] by (intro exI [of _ "2 * alternating n / 2 ^ n"]) simp
qed

text \<open>Four digits of \<open>pi\<close>, from the first twenty terms.\<close>

lemma pi_four_digits: "31415 / 10000 < pi \<and> pi < 31416 / 10000"
proof -
  obtain r where r: "pi / 2 = (\<Sum>k<20. weight k) + r" "0 \<le> r" "r \<le> 2 / 2 ^ 20"
    using euler_series [of 20] by blast
  have "15707 / 10000 + 5 / 100000 < (\<Sum>k<20. weight k)" "(\<Sum>k<20. weight k) < 157079 / 100000 + 7 / 1000000"
    by (simp_all add: eval_nat_numeral lessThan_Suc)
  then show ?thesis using r by simp
qed

end
