(* ===== verification/Spigot.thy ===== *)
theory Spigot
  imports Piseries Scibase
begin

text \<open>
  \<open>sw/pi/pi.c\<close>, the program of a few lines that prints 800 digits of \<open>pi\<close>. The array \<open>f\<close> is a
  number in the mixed radix of Euler's series; a row of the outer loop multiplies it by 10000
  and takes the integral part off. Shown here: nothing overflows and no index leaves the array,
  and what a row prints and leaves behind is the value of the array times 10000.
\<close>

subsection \<open>The code\<close>

record pi_globals =
  pi_a :: i32
  pi_b :: i32
  pi_c :: i32
  pi_d :: i32
  pi_e :: i32
  pi_f :: "i32 list"
  pi_g :: i32

definition pi_start :: pi_globals where
  "pi_start = \<lparr>pi_a = 10000, pi_b = 0, pi_c = 2800, pi_d = 0, pi_e = 0, pi_f = replicate 2801 0, pi_g = 0\<rparr>"

text \<open>\<open>for(;b-c;)f[b++]=a/5;\<close>\<close>

partial_function (option) pi_fill :: "pi_globals \<Rightarrow> pi_globals comp" where
  "pi_fill s =
     (if pi_b s - pi_c s \<noteq> 0
      then bind_comp (Some (put_i32 (pi_f s) (pi_b s) (sdiv32 (pi_a s) 5)))
        (\<lambda>f. pi_fill (s\<lparr>pi_f := f, pi_b := pi_b s + 1\<rparr>))
      else Some (Done s))"

text \<open>The condition of the inner loop, \<open>d+=f[b]*a,f[b]=d%--g,d/=g--,--b\<close>, and the loop.\<close>

definition pi_digit :: "pi_globals \<Rightarrow> pi_globals run" where
  "pi_digit s =
     bind_run (get_i32 (pi_f s) (pi_b s)) (\<lambda>v.
       let d = pi_d s + v * pi_a s; g = pi_g s - 1 in
       bind_run (put_i32 (pi_f s) (pi_b s) (smod32 d g)) (\<lambda>f.
         Done (s\<lparr>pi_f := f, pi_d := sdiv32 d g, pi_g := g - 1, pi_b := pi_b s - 1\<rparr>)))"

partial_function (option) pi_row :: "pi_globals \<Rightarrow> pi_globals comp" where
  "pi_row s =
     bind_comp (Some (pi_digit s)) (\<lambda>s.
       if pi_b s \<noteq> 0 then pi_row (s\<lparr>pi_d := pi_d s * pi_b s\<rparr>) else Some (Done s))"

text \<open>The outer loop, with the numbers that are printed, each with at least four digits.\<close>

partial_function (option) pi_rows :: "pi_globals \<Rightarrow> (i32 list \<times> pi_globals) comp" where
  "pi_rows s =
     (let s = s\<lparr>pi_d := 0, pi_g := pi_c s * 2\<rparr> in
      if pi_g s \<noteq> 0
      then bind_comp (pi_row (s\<lparr>pi_b := pi_c s\<rparr>)) (\<lambda>s.
        let s = s\<lparr>pi_c := pi_c s - 14\<rparr>;
            n = pi_e s + sdiv32 (pi_d s) (pi_a s);
            s = s\<lparr>pi_e := smod32 (pi_d s) (pi_a s)\<rparr>
        in bind_comp (pi_rows s) (\<lambda>(out, s). Some (Done (n # out, s))))
      else Some (Done ([], s)))"

definition pi_main :: "i32 list comp" where
  "pi_main = bind_comp (pi_fill pi_start) (\<lambda>s. bind_comp (pi_rows s) (\<lambda>(out, s). Some (Done out)))"

subsection \<open>Arithmetic without overflow\<close>

lemma sint_sdiv32: "0 \<le> sint a \<Longrightarrow> 0 < sint b \<Longrightarrow> sint (sdiv32 a b) = sint a div sint b"
proof -
  assume a: "0 \<le> sint a" and b: "0 < sint b"
  have "sint a div sint b \<le> sint a" using a b zdiv_mono2 [of "sint a" 1 "sint b"] by simp
  moreover have "sint a < 2 ^ 31" using sint_lt [of a] by simp
  moreover have "0 \<le> sint a div sint b" using a b by (simp add: pos_imp_zdiv_nonneg_iff)
  moreover have "b \<noteq> 0" using b by auto
  ultimately show ?thesis
    using a b by (simp add: sdiv32_def sdiv_nonneg sint_of_int_self)
qed

lemma sint_smod32: "0 \<le> sint a \<Longrightarrow> 0 < sint b \<Longrightarrow> sint (smod32 a b) = sint a mod sint b"
proof -
  assume a: "0 \<le> sint a" and b: "0 < sint b"
  have "sint b < 2 ^ 31" using sint_lt [of b] by simp
  with pos_mod_bound [OF b, of "sint a"] pos_mod_sign [OF b, of "sint a"]
  have "sint (word_of_int (sint a mod sint b) :: i32) = sint a mod sint b"
    by (intro sint_of_int_self) linarith+
  moreover have "b \<noteq> 0" using b by auto
  ultimately show ?thesis
    using a b by (simp add: smod32_def smod_nonneg)
qed

lemma get_i32_eq: "sint i = int n \<Longrightarrow> n < length xs \<Longrightarrow> get_i32 xs i = Done (xs ! n)"
  using turns_eq [of i] by (simp add: get_i32_def get_at_def word_sless_alt turns_def)

lemma put_i32_eq: "sint i = int n \<Longrightarrow> n < length xs \<Longrightarrow> put_i32 xs i v = Done (xs[n := v])"
  using turns_eq [of i] by (simp add: put_i32_def put_at_def word_sless_alt turns_def)

lemma word_zero_iff: "w = 0 \<longleftrightarrow> sint w = 0" for w :: i32
  by (rule signed_eq_0_iff [symmetric])

subsection \<open>A row\<close>

lemma pi_digit_run:
  assumes b: "sint (pi_b s) = int (Suc n)" "n < 2800" and g: "sint (pi_g s) = 2 * int (Suc n)"
    and s: "pi_a s = 10000" "length (pi_f s) = 2801"
    and v: "0 \<le> sint (pi_f s ! Suc n)" "sint (pi_f s ! Suc n) \<le> 5600"
    and d: "0 \<le> sint (pi_d s)" "sint (pi_d s) \<le> 56000000"
  shows "\<exists>d' v' g' b'. pi_digit s =
      Done (s\<lparr>pi_f := (pi_f s)[Suc n := v'], pi_d := d', pi_g := g', pi_b := b'\<rparr>) \<and>
    sint d' = (sint (pi_d s) + sint (pi_f s ! Suc n) * 10000) div (2 * n + 1) \<and>
    sint v' = (sint (pi_d s) + sint (pi_f s ! Suc n) * 10000) mod (2 * n + 1) \<and>
    sint g' = 2 * int n \<and> sint b' = int n"
proof -
  let ?v = "pi_f s ! Suc n"
  have p: "sint (?v * 10000) = sint ?v * 10000" using v by (subst sint_ring) simp_all
  have dd: "sint (pi_d s + ?v * 10000) = sint (pi_d s) + sint ?v * 10000"
    using v d by (subst sint_ring) (simp_all add: p)
  have g1: "sint (pi_g s - 1) = 2 * int n + 1" using g b(2) by (subst sint_ring) simp_all
  have g2: "sint (pi_g s - 1 - 1) = 2 * int n" using g1 b(2) by (subst sint_ring) simp_all
  have b1: "sint (pi_b s - 1) = int n" using b by (subst sint_ring) simp_all
  have "sint (sdiv32 (pi_d s + ?v * 10000) (pi_g s - 1)) = (sint (pi_d s) + sint ?v * 10000) div (2 * n + 1)"
    using v d by (subst sint_sdiv32) (simp_all add: dd g1 add.commute)
  moreover have "sint (smod32 (pi_d s + ?v * 10000) (pi_g s - 1)) = (sint (pi_d s) + sint ?v * 10000) mod (2 * n + 1)"
    using v d by (subst sint_smod32) (simp_all add: dd g1 add.commute)
  ultimately show ?thesis
    using s g2 b1 b(2)
    by (simp only: pi_digit_def Let_def get_i32_eq [OF b(1)] put_i32_eq [OF b(1)]) auto
qed

text \<open>The value of the first \<open>n\<close> positions of the array.\<close>

definition spigot_value :: "i32 list \<Rightarrow> nat \<Rightarrow> real" where
  "spigot_value f n = (\<Sum>i<n. sint (f ! Suc i) * weight i)"

definition digits_within :: "(nat \<Rightarrow> int) \<Rightarrow> i32 list \<Rightarrow> nat \<Rightarrow> bool" where
  "digits_within u f n \<longleftrightarrow> (\<forall>i<n. 0 \<le> sint (f ! Suc i) \<and> sint (f ! Suc i) \<le> u i)"

lemma spigot_value_cong: "(\<And>i. i < n \<Longrightarrow> f ! Suc i = h ! Suc i) \<Longrightarrow> spigot_value f n = spigot_value h n"
  by (simp add: spigot_value_def)

lemma spigot_value_Suc: "spigot_value f (Suc n) = spigot_value f n + sint (f ! Suc n) * weight n"
  by (simp add: spigot_value_def)

text \<open>
  What the rest of a row does, from the position \<open>n + 1\<close> down to the first one: the value that
  \<open>d\<close> carries and 10000 times the array before are \<open>d\<close> and the array afterwards.
\<close>

definition row_done :: "nat \<Rightarrow> pi_globals \<Rightarrow> pi_globals \<Rightarrow> bool" where
  "row_done n s s' \<longleftrightarrow> pi_a s' = pi_a s \<and> pi_c s' = pi_c s \<and> pi_e s' = pi_e s \<and>
     length (pi_f s') = length (pi_f s) \<and> (\<forall>i>Suc n. pi_f s' ! i = pi_f s ! i) \<and>
     0 \<le> sint (pi_d s') \<and> digits_within (\<lambda>i. 2 * int i) (pi_f s') (Suc n) \<and>
     sint (pi_d s) * weight n + 10000 * spigot_value (pi_f s) (Suc n) =
       sint (pi_d s') + spigot_value (pi_f s') (Suc n)"

lemma pi_row_run:
  assumes "sint (pi_b s) = int (Suc n)" "n < 2800" "sint (pi_g s) = 2 * int (Suc n)"
    and "pi_a s = 10000" "length (pi_f s) = 2801" "digits_within (\<lambda>i. 5600) (pi_f s) (Suc n)"
    and "0 \<le> sint (pi_d s)" "sint (pi_d s) \<le> 56000000"
  shows "\<exists>s'. pi_row s = Some (Done s') \<and> row_done n s s'"
  using assms
proof (induction n arbitrary: s)
  case 0
  then obtain d' v' g' b' where r: "pi_digit s =
      Done (s\<lparr>pi_f := (pi_f s)[Suc 0 := v'], pi_d := d', pi_g := g', pi_b := b'\<rparr>)"
    "sint d' = sint (pi_d s) + sint (pi_f s ! Suc 0) * 10000" "sint v' = 0" "sint b' = 0"
    using pi_digit_run [of s 0] by (auto simp: digits_within_def)
  moreover have "b' = 0" using r(4) by (simp add: word_zero_iff)
  moreover have "0 \<le> sint (pi_f s ! Suc 0)" using "0.prems"(6) by (simp add: digits_within_def)
  ultimately show ?case
    using "0.prems"(5,7) by (simp add: pi_row.simps row_done_def digits_within_def spigot_value_def del: of_int_sint)
next
  case (Suc n)
  let ?v = "pi_f s ! Suc (Suc n)"
  define D where "D = sint (pi_d s) + sint ?v * 10000"
  have v: "0 \<le> sint ?v" "sint ?v \<le> 5600" using Suc.prems(6) by (simp_all add: digits_within_def)
  then have D: "0 \<le> D" "D \<le> 112000000" using Suc.prems(7,8) by (simp_all add: D_def)
  obtain d' v' g' b' where r: "pi_digit s =
      Done (s\<lparr>pi_f := (pi_f s)[Suc (Suc n) := v'], pi_d := d', pi_g := g', pi_b := b'\<rparr>)"
    "sint d' = D div (2 * Suc n + 1)" "sint v' = D mod (2 * Suc n + 1)"
    "sint g' = 2 * int (Suc n)" "sint b' = int (Suc n)"
    using pi_digit_run [of s "Suc n"] Suc.prems v by (auto simp: D_def)
  have q: "0 \<le> sint d'" unfolding r(2) using D(1) by (intro pos_imp_zdiv_nonneg_iff [THEN iffD2]) simp_all
  have k: "int (2 * Suc n + 1) = 2 * int (Suc n) + 1" by simp
  have split: "D = sint d' * (2 * int (Suc n) + 1) + sint v'" unfolding r(2,3) k by (rule div_mult_mod_eq [symmetric])
  have v': "0 \<le> sint v'" "sint v' \<le> 2 * int (Suc n)"
    using pos_mod_bound [of "2 * int (Suc n) + 1" D] pos_mod_sign [of "2 * int (Suc n) + 1" D]
    unfolding r(3) k by linarith+
  have "2 * (sint d' * int (Suc n)) \<le> sint d' * (2 * int (Suc n) + 1)"
    using q by (simp add: algebra_simps)
  also have "\<dots> \<le> D" using split v' by linarith
  finally have half: "sint d' * int (Suc n) \<le> 56000000" using D by simp
  have pos: "0 \<le> sint d' * int (Suc n)" using q by simp
  have "- (2 ^ 31) \<le> sint d' * int (Suc n)" "sint d' * int (Suc n) < 2 ^ 31"
    using half pos by (simp_all del: of_nat_Suc)
  then have m: "sint (d' * b') = sint d' * int (Suc n)"
    using sint_ring(3) [of d' b'] unfolding r(5) by blast
  define t where "t = s\<lparr>pi_f := (pi_f s)[Suc (Suc n) := v'], pi_g := g', pi_b := b', pi_d := d' * b'\<rparr>"
  have "digits_within (\<lambda>i. 5600) (pi_f t) (Suc n)"
    using Suc.prems(6) by (simp add: digits_within_def t_def nth_list_update)
  then obtain s' where s': "pi_row t = Some (Done s')" "row_done n t s'"
    using Suc.IH [of t] Suc.prems r m pos half by (auto simp: t_def)
  have "b' \<noteq> 0" using r(5) by (auto simp: word_zero_iff)
  then have "pi_row s = Some (Done s')"
    using s'(1) by (subst pi_row.simps) (simp add: r(1) t_def)
  moreover have "row_done (Suc n) s s'"
  proof -
    have top: "pi_f s' ! Suc (Suc n) = v'"
      using s'(2) Suc.prems(2,5) by (simp add: row_done_def t_def)
    have same: "spigot_value (pi_f t) (Suc n) = spigot_value (pi_f s) (Suc n)"
      by (intro spigot_value_cong) (simp add: t_def nth_list_update)
    have "D * weight (Suc n) = sint d' * ((2 * n + 3) * weight (Suc n)) + sint v' * weight (Suc n)"
      unfolding split by (simp add: algebra_simps del: weight.simps)
    moreover have "(2 * n + 3) * weight (Suc n) = (real n + 1) * weight n"
      by (simp add: add_nonneg_eq_0_iff)
    moreover have "real_of_int (sint (pi_d t)) = sint d' * (real n + 1)"
      by (simp add: t_def m del: of_int_sint)
    ultimately have d: "D * weight (Suc n) = sint (pi_d t) * weight n + sint v' * weight (Suc n)"
      by (simp only: of_nat_add of_nat_mult of_nat_1 mult.assoc)
    have "digits_within (\<lambda>i. 2 * int i) (pi_f s') (Suc (Suc n))"
      using s'(2) v' unfolding digits_within_def row_done_def
      by (auto simp: less_Suc_eq top v')
    moreover have "sint (pi_d s) * weight (Suc n) + 10000 * spigot_value (pi_f s) (Suc (Suc n)) =
        sint (pi_d s') + spigot_value (pi_f s') (Suc (Suc n))"
      using s'(2) d same unfolding spigot_value_Suc [of _ "Suc n"] top row_done_def
      by (simp only: D_def) (simp add: algebra_simps del: weight.simps of_int_sint)
    ultimately show ?thesis
      using s'(2) by (simp add: row_done_def t_def)
  qed
  ultimately show ?case by blast
qed

subsection \<open>What the truncation loses\<close>

text \<open>The largest value that the positions from \<open>m + 1\<close> on can have.\<close>

primrec tail_bound :: "nat \<Rightarrow> real" where
  "tail_bound 0 = 2"
| "tail_bound (Suc m) = 2 * (m + 1) * weight m"

lemma tail_bound_step: "tail_bound n - tail_bound (Suc n) = 2 * n * weight n"
proof (cases n)
  case (Suc k)
  have "(2 * k + 3) * weight (Suc k) = (real k + 1) * weight k"
    by (simp add: add_nonneg_eq_0_iff)
  then show ?thesis by (simp add: Suc algebra_simps del: weight.simps)
qed simp

lemma tail_bound_pos: "0 < tail_bound n"
  by (cases n) (simp_all add: weight_pos add_pos_nonneg)

lemma spigot_value_tail:
  "digits_within (\<lambda>i. 2 * int i) f n \<Longrightarrow> m \<le> n \<Longrightarrow>
     spigot_value f m \<le> spigot_value f n \<and> spigot_value f n - spigot_value f m \<le> tail_bound m - tail_bound n"
proof (induction n)
  case (Suc n)
  show ?case
  proof (cases "m = Suc n")
    case False
    with Suc have IH: "spigot_value f m \<le> spigot_value f n"
      "spigot_value f n - spigot_value f m \<le> tail_bound m - tail_bound n"
      and dig: "0 \<le> sint (f ! Suc n)" "sint (f ! Suc n) \<le> 2 * int n"
      by (simp_all add: digits_within_def)
    have "0 \<le> sint (f ! Suc n) * weight n"
      using dig(1) weight_pos [of n] by (intro mult_nonneg_nonneg) (simp_all del: of_int_sint)
    moreover have "real_of_int (sint (f ! Suc n)) \<le> 2 * real n"
      using dig(2) by linarith
    then have "sint (f ! Suc n) * weight n \<le> 2 * n * weight n"
      using weight_pos [of n] by (intro mult_right_mono) simp_all
    ultimately show ?thesis
      using IH tail_bound_step [of n] unfolding spigot_value_Suc by linarith
  qed simp
qed simp

lemma tail_power_bound: "10000 ^ j * tail_bound (14 * j) \<le> (56 * j + 2) * (10000 / 16384) ^ j"
proof (cases j)
  case (Suc i)
  have "14 * j = Suc (14 * i + 13)" by (simp add: Suc)
  then have "tail_bound (14 * j) = 28 * j * weight (14 * i + 13)"
    by (simp only: tail_bound.simps) (simp add: Suc)
  also have "\<dots> \<le> 28 * j * (1 / 2 ^ (14 * i + 13))"
    by (intro mult_left_mono weight_bound) simp
  also have "(2 :: real) ^ (14 * i + 13) = 16384 ^ j / 2"
    by (simp add: Suc power_add power_mult)
  finally have "tail_bound (14 * j) \<le> 56 * j / 16384 ^ j" by simp
  also have "\<dots> \<le> (56 * j + 2) / 16384 ^ j" by (simp add: divide_right_mono)
  finally have "10000 ^ j * tail_bound (14 * j) \<le> 10000 ^ j * ((56 * j + 2) / 16384 ^ j)"
    by (rule mult_left_mono) simp
  then show ?thesis
    by (simp only: power_divide times_divide_eq_right mult.commute of_nat_add of_nat_mult of_nat_numeral)
qed simp

text \<open>The loss over the last \<open>j\<close> rows.\<close>

definition loss_bound :: "nat \<Rightarrow> real" where
  "loss_bound j = 232 - (144 * j + 232) * (10000 / 16384) ^ j"

lemma loss_bound_step: "loss_bound j + 10000 ^ j * tail_bound (14 * j) \<le> loss_bound (Suc j)"
proof -
  have "(56 * real j + 2) \<le> (144 * j + 232) - (144 * j + 376) * (10000 / 16384)"
    by (simp add: field_simps)
  then have "(56 * real j + 2) * (10000 / 16384) ^ j \<le>
      ((144 * j + 232) - (144 * j + 376) * (10000 / 16384)) * (10000 / 16384) ^ j"
    by (intro mult_right_mono) simp_all
  also have "\<dots> = loss_bound (Suc j) - loss_bound j"
    by (simp add: loss_bound_def algebra_simps)
  finally show ?thesis using tail_power_bound [of j] by linarith
qed

lemma loss_bound_less: "loss_bound j \<le> 232"
  by (simp add: loss_bound_def)

subsection \<open>The rows\<close>

text \<open>The printed numbers as one number, each of them four digits.\<close>

fun groups_value :: "i32 list \<Rightarrow> int" where
  "groups_value [] = 0"
| "groups_value (n # out) = sint n * 10000 ^ length out + groups_value out"

text \<open>
  The rows from the position \<open>14 * j\<close> on, with a remainder \<open>e\<close> from the row before: what they
  print and the remainder they leave are the value of the array, but for the loss.
\<close>

definition rows_done :: "nat \<Rightarrow> pi_globals \<Rightarrow> i32 list \<Rightarrow> bool" where
  "rows_done j s out \<longleftrightarrow> length out = j \<and> (\<forall>n \<in> set out. 0 \<le> sint n \<and> sint n \<le> 10001) \<and>
     (\<exists>e loss. 0 \<le> e \<and> e \<le> 9999 \<and> 0 \<le> loss \<and> loss \<le> loss_bound j \<and>
       10000 * groups_value out + e = 10000 ^ j * (sint (pi_e s) + spigot_value (pi_f s) (14 * j)) - loss)"

definition row_start :: "nat \<Rightarrow> pi_globals \<Rightarrow> bool" where
  "row_start j s \<longleftrightarrow> sint (pi_c s) = 14 * int j \<and> j \<le> 200 \<and> pi_a s = 10000 \<and> length (pi_f s) = 2801 \<and>
     digits_within (\<lambda>i. 5600) (pi_f s) (14 * j) \<and> 0 \<le> sint (pi_e s) \<and> sint (pi_e s) \<le> 9999 \<and>
     sint (pi_e s) + spigot_value (pi_f s) (14 * j) < 10002"

lemma spigot_value_nonneg: "digits_within u f n \<Longrightarrow> 0 \<le> spigot_value f n"
  unfolding spigot_value_def digits_within_def
  by (intro sum_nonneg mult_nonneg_nonneg less_imp_le [OF weight_pos]) (simp del: of_int_sint)

lemma row_step:
  assumes s: "row_start (Suc j) s"
  shows "\<exists>s'. pi_row (s\<lparr>pi_d := 0, pi_g := pi_c s * 2, pi_b := pi_c s\<rparr>) = Some (Done s') \<and>
    pi_c s' = pi_c s \<and> pi_e s' = pi_e s \<and> pi_a s' = 10000 \<and> length (pi_f s') = 2801 \<and>
    0 \<le> sint (pi_d s') \<and> digits_within (\<lambda>i. 2 * int i) (pi_f s') (14 * Suc j) \<and>
    10000 * spigot_value (pi_f s) (14 * Suc j) = sint (pi_d s') + spigot_value (pi_f s') (14 * Suc j)"
proof -
  let ?n = "14 * j + 13"
  let ?s = "s\<lparr>pi_d := 0, pi_g := pi_c s * 2, pi_b := pi_c s\<rparr>"
  have n: "14 * Suc j = Suc ?n" "?n < 2800" "sint (pi_c s) = int (Suc ?n)"
    using s by (simp_all add: row_start_def)
  have "sint (pi_c s * 2) = 2 * int (Suc ?n)"
    using n(2,3) by (subst sint_ring) simp_all
  then obtain s' where "pi_row ?s = Some (Done s')" "row_done ?n ?s s'"
    using pi_row_run [of ?s ?n] n s unfolding row_start_def n(1) by auto
  then show ?thesis
    using s unfolding row_start_def row_done_def n(1) by (intro exI [of _ s']) simp
qed

lemma pi_rows_run: "row_start j s \<Longrightarrow> \<exists>out s'. pi_rows s = Some (Done (out, s')) \<and> rows_done j s out"
proof (induction j arbitrary: s)
  case 0
  then have "pi_c s = 0" by (simp add: row_start_def word_zero_iff)
  then show ?case
    using 0 by (subst pi_rows.simps)
      (auto simp: rows_done_def row_start_def spigot_value_def loss_bound_def intro!: exI [of _ "sint (pi_e s)"])
next
  case (Suc j)
  obtain s' where r: "pi_row (s\<lparr>pi_d := 0, pi_g := pi_c s * 2, pi_b := pi_c s\<rparr>) = Some (Done s')"
    "pi_c s' = pi_c s" "pi_e s' = pi_e s" "pi_a s' = 10000" "length (pi_f s') = 2801"
    "0 \<le> sint (pi_d s')" "digits_within (\<lambda>i. 2 * int i) (pi_f s') (14 * Suc j)"
    and v: "10000 * spigot_value (pi_f s) (14 * Suc j) = sint (pi_d s') + spigot_value (pi_f s') (14 * Suc j)"
    using row_step [OF Suc.prems] by blast
  let ?n = "pi_e s + sdiv32 (pi_d s') 10000"
  define t where "t = s'\<lparr>pi_c := pi_c s - 14, pi_e := smod32 (pi_d s') 10000\<rparr>"
  have c: "sint (pi_c s) = 14 * int (Suc j)" "j < 200" and e: "0 \<le> sint (pi_e s)" "sint (pi_e s) \<le> 9999"
    and top: "sint (pi_e s) + spigot_value (pi_f s) (14 * Suc j) < 10002"
    using Suc.prems by (simp_all add: row_start_def)
  have g: "pi_c s * 2 \<noteq> 0"
  proof -
    have "sint (pi_c s * 2) = 28 * int (Suc j)" using c by (subst sint_ring) simp_all
    then show ?thesis by (simp add: word_zero_iff del: of_nat_Suc)
  qed
  have q: "sint (sdiv32 (pi_d s') 10000) = sint (pi_d s') div 10000"
    and m: "sint (smod32 (pi_d s') 10000) = sint (pi_d s') mod 10000"
    using r(6) by (simp_all add: sint_sdiv32 sint_smod32)
  have d: "sint (pi_d s') = 10000 * (sint (pi_d s') div 10000) + sint (pi_d s') mod 10000" by simp
  have dr: "real_of_int (sint (pi_d s')) =
      10000 * real_of_int (sint (pi_d s') div 10000) + real_of_int (sint (pi_d s') mod 10000)"
    by (metis d of_int_add of_int_mult of_int_numeral)
  have tail: "spigot_value (pi_f s') (14 * j) \<le> spigot_value (pi_f s') (14 * Suc j)"
    "spigot_value (pi_f s') (14 * Suc j) - spigot_value (pi_f s') (14 * j) \<le> tail_bound (14 * j)"
    using spigot_value_tail [OF r(7), of "14 * j"] tail_bound_pos [of "14 * Suc j"] by simp_all
  have small: "spigot_value (pi_f s') (14 * Suc j) < 2"
    using spigot_value_tail [OF r(7), of 0] tail_bound_pos [of "14 * Suc j"] by (simp add: spigot_value_def)
  have "real_of_int (sint (pi_d s') div 10000) \<le> spigot_value (pi_f s) (14 * Suc j)"
    using v dr pos_mod_sign [of 10000 "sint (pi_d s')"] spigot_value_nonneg [OF r(7)] by linarith
  then have n: "sint (pi_e s) + sint (pi_d s') div 10000 \<le> 10001"
    using top by linarith
  have q0: "0 \<le> sint (pi_d s') div 10000" using r(6) by (simp add: pos_imp_zdiv_nonneg_iff)
  have sn: "sint ?n = sint (pi_e s) + sint (pi_d s') div 10000"
    using n e q0 by (subst sint_ring) (simp_all add: q)
  have et: "sint (pi_e t) = sint (pi_d s') mod 10000" by (simp add: t_def m)
  have next_row: "row_start j t"
  proof -
    have "sint (pi_c s - 14) = 14 * int j" using c by (subst sint_ring) simp_all
    moreover have "digits_within (\<lambda>i. 5600) (pi_f s') (14 * j)"
      unfolding digits_within_def
    proof (intro allI impI)
      fix i assume "i < 14 * j"
      then have "0 \<le> sint (pi_f s' ! Suc i) \<and> sint (pi_f s' ! Suc i) \<le> 2 * int i" "int i < 2800"
        using r(7) c(2) by (simp_all add: digits_within_def)
      then show "0 \<le> sint (pi_f s' ! Suc i) \<and> sint (pi_f s' ! Suc i) \<le> 5600" by linarith
    qed
    moreover have "sint (pi_d s') mod 10000 \<le> 9999" "0 \<le> sint (pi_d s') mod 10000"
      using pos_mod_bound [of 10000 "sint (pi_d s')"] by simp_all
    ultimately show ?thesis
      using c(2) r(4,5) tail(1) small by (simp add: row_start_def t_def m del: of_int_sint)
  qed
  obtain out s'' where run: "pi_rows t = Some (Done (out, s''))" and dn: "rows_done j t out"
    using Suc.IH [OF next_row] by blast
  obtain e' loss where l: "0 \<le> e'" "e' \<le> 9999" "0 \<le> loss" "loss \<le> loss_bound j"
    and sum: "10000 * groups_value out + e' =
      10000 ^ j * (sint (pi_e t) + spigot_value (pi_f t) (14 * j)) - loss"
    using dn by (auto simp: rows_done_def)
  define loss' where "loss' = loss + 10000 ^ j * (spigot_value (pi_f s') (14 * Suc j) - spigot_value (pi_f s') (14 * j))"
  have "10000 ^ j * (spigot_value (pi_f s') (14 * Suc j) - spigot_value (pi_f s') (14 * j)) \<le>
      10000 ^ j * tail_bound (14 * j)"
    using tail(2) by (intro mult_left_mono) simp_all
  then have "loss' \<le> loss_bound (Suc j)"
    using l(4) loss_bound_step [of j] unfolding loss'_def by linarith
  moreover have "0 \<le> loss'" using l(3) tail(1) by (simp add: loss'_def)
  ultimately have l': "0 \<le> loss'" "loss' \<le> loss_bound (Suc j)" by simp_all
  have "pi_rows s = Some (Done (?n # out, s''))"
    using g run r by (subst pi_rows.simps) (simp add: Let_def t_def)
  moreover have "rows_done (Suc j) s (?n # out)"
    unfolding rows_done_def
  proof (intro conjI exI [of _ e'] exI [of _ loss'])
    show "length (?n # out) = Suc j" using dn by (simp add: rows_done_def)
    show "\<forall>n \<in> set (?n # out). 0 \<le> sint n \<and> sint n \<le> 10001"
      using dn n e(1) q0 by (simp add: rows_done_def sn)
    have "10000 * groups_value (?n # out) + e' =
        10000 ^ j * (10000 * sint ?n + sint (pi_e t) + spigot_value (pi_f t) (14 * j)) - loss"
      using sum dn by (simp add: rows_done_def algebra_simps del: of_int_sint)
    also have "10000 * sint ?n + sint (pi_e t) = 10000 * sint (pi_e s) + sint (pi_d s')"
      unfolding sn et by simp
    finally show "10000 * groups_value (?n # out) + e' =
        10000 ^ Suc j * (sint (pi_e s) + spigot_value (pi_f s) (14 * Suc j)) - loss'"
      using arg_cong [OF v, of "(*) (10000 ^ j)"]
      by (simp add: loss'_def t_def algebra_simps del: of_int_sint)
  qed (use l l' in simp_all)
  ultimately show ?case by blast
qed

subsection \<open>The program\<close>

lemma sint_of_nat_self: "n < 2 ^ 31 \<Longrightarrow> sint (of_nat n :: i32) = int n"
  using sint_of_int_self [of "int n"] by simp

text \<open>The array when \<open>m\<close> of its elements are set.\<close>

definition filled :: "nat \<Rightarrow> pi_globals" where
  "filled m = pi_start\<lparr>pi_f := replicate m 2000 @ replicate (2801 - m) 0, pi_b := of_nat m\<rparr>"

lemma pi_fill_run: "m + k = 2800 \<Longrightarrow> pi_fill (filled m) = Some (Done (filled 2800))"
proof (induction k arbitrary: m)
  case 0
  then show ?case by (subst pi_fill.simps) (simp add: filled_def pi_start_def)
next
  case (Suc k)
  then have m: "m < 2800" by simp
  have "sint (of_nat m - 2800 :: i32) = int m - 2800"
    using m by (subst sint_ring) (simp_all add: sint_of_nat_self)
  then have more: "(of_nat m - 2800 :: i32) \<noteq> 0" using m by (auto simp: word_zero_iff)
  have "sdiv32 10000 5 = (2000 :: i32)" by (simp add: sdiv32_def sdiv_nonneg)
  moreover have "(replicate m 2000 @ replicate (2801 - m) 0)[m := 2000] =
      replicate (Suc m) 2000 @ replicate (2801 - Suc m) (0 :: i32)"
    using m by (simp add: list_update_append replicate_append_same Suc_diff_Suc [symmetric])
  ultimately have "pi_fill (filled m) = pi_fill (filled (Suc m))"
    using more m by (subst pi_fill.simps)
      (simp add: filled_def pi_start_def put_i32_eq [of _ m] sint_of_nat_self add.commute)
  then show ?case using Suc.IH [of "Suc m"] Suc.prems by simp
qed

lemma value_replicate: "spigot_value (replicate (Suc n) v @ [0]) (Suc n) = (\<Sum>i<n. sint v * weight i)"
  unfolding spigot_value_def sum.lessThan_Suc
  by (simp add: nth_append del: replicate_Suc)

lemma filled_value: "\<exists>r. spigot_value (pi_f (filled 2800)) 2800 = 1000 * pi - 2000 * r \<and> 0 \<le> r \<and> r \<le> 2 / 2 ^ 2799"
proof -
  obtain r where r: "pi / 2 = (\<Sum>k<2799. weight k) + r" "0 \<le> r" "r \<le> 2 / 2 ^ 2799"
    using euler_series by blast
  have "pi_f (filled 2800) = replicate (Suc 2799) 2000 @ [0]" by (simp add: filled_def)
  then have "spigot_value (pi_f (filled 2800)) 2800 = (\<Sum>k<2799. 2000 * weight k)"
    using value_replicate [of 2799 2000] by simp
  also have "\<dots> = 2000 * (\<Sum>k<2799. weight k)" by (rule sum_distrib_left [symmetric])
  finally show ?thesis using r by (intro exI [of _ r]) simp
qed

lemma start_row: "row_start 200 (filled 2800)"
proof -
  obtain r where "spigot_value (pi_f (filled 2800)) 2800 = 1000 * pi - 2000 * r" "0 \<le> r"
    using filled_value by blast
  then have "spigot_value (pi_f (filled 2800)) 2800 < 10002" using pi_less_4 by linarith
  then show ?thesis
    by (simp add: row_start_def digits_within_def filled_def pi_start_def nth_append)
qed

text \<open>The groups are the first 800 digits of \<open>pi\<close>, the last place rounded down or one too low.\<close>

lemma pi_main_run:
  "\<exists>out. pi_main = Some (Done out) \<and> length out = 200 \<and> (\<forall>n \<in> set out. 0 \<le> sint n \<and> sint n \<le> 10001) \<and>
     groups_value out \<le> pi * 10 ^ 799 \<and> pi * 10 ^ 799 < groups_value out + 103 / 100"
proof -
  obtain out s' where out: "pi_rows (filled 2800) = Some (Done (out, s'))" "rows_done 200 (filled 2800) out"
    using pi_rows_run [OF start_row] by blast
  have "sint (pi_e (filled 2800)) = 0" by (simp add: filled_def pi_start_def)
  then have "sint (pi_e (filled 2800)) + spigot_value (pi_f (filled 2800)) (14 * 200) =
      spigot_value (pi_f (filled 2800)) 2800" by simp
  then obtain e loss where l: "0 \<le> e" "e \<le> 9999" "0 \<le> loss" "loss \<le> loss_bound 200"
    and sum: "10000 * groups_value out + e = 10000 ^ 200 * spigot_value (pi_f (filled 2800)) 2800 - loss"
    using out(2) unfolding rows_done_def by metis
  obtain r where v: "spigot_value (pi_f (filled 2800)) 2800 = 1000 * pi - 2000 * r" and r: "0 \<le> r" "r \<le> 2 / 2 ^ 2799"
    using filled_value by blast
  define y where "y = 10000 ^ 200 * (2000 * r)"
  have up: "0 \<le> p \<Longrightarrow> p * (2000 * r) \<le> p * (2000 * (2 / 2 ^ 2799))" for p
    by (intro mult_left_mono r(2)) (simp_all only: zero_le_numeral)
  have "y \<le> 10000 ^ 200 * (2000 * (2 / 2 ^ 2799))"
    unfolding y_def by (rule up) (rule zero_le_power, rule zero_le_numeral)
  also have "\<dots> \<le> 1" by simp
  finally have "y \<le> 1" .
  moreover have "0 \<le> y"
    unfolding y_def by (intro mult_nonneg_nonneg zero_le_power zero_le_numeral r(1))
  ultimately have y: "0 \<le> y" "y \<le> 1" by simp_all
  define x where "x = pi * 10 ^ 799"
  have ten: "(10000 :: real) = 10 ^ 4" and e: "4 * 200 = Suc 799" by simp_all
  have "(10000 :: real) ^ 200 = 10 * 10 ^ 799"
    unfolding ten power_mult [symmetric] e by (rule power_Suc)
  moreover have order: "10 * p * (1000 * q) = 10000 * (q * p)" for p q :: real by simp
  ultimately have "10000 ^ 200 * (1000 * pi) = 10000 * x"
    by (simp only: x_def order)
  then have "10000 ^ 200 * (1000 * pi - 2000 * r) = 10000 * x - y"
    by (simp only: right_diff_distrib y_def)
  then have "real_of_int (10000 * groups_value out + e) = 10000 * x - y - loss"
    using sum unfolding v by (simp only:)
  then have "groups_value out \<le> x" "x < groups_value out + 103 / 100"
    using l y loss_bound_less [of 200] by linarith+
  moreover have "pi_start = filled 0" by (simp add: filled_def pi_start_def)
  then have "pi_main = Some (Done out)"
    using out(1) pi_fill_run [of 0 2800] by (simp add: pi_main_def)
  ultimately show ?thesis
    using out(2) unfolding x_def rows_done_def by blast
qed

text \<open>The first number is the integral part of the rest of them.\<close>

lemma groups_value_bounds:
  "\<forall>n \<in> set out. 0 \<le> sint n \<and> sint n \<le> 10001 \<Longrightarrow>
     0 \<le> groups_value out \<and> 9999 * groups_value out \<le> 10001 * 10000 ^ length out"
proof (induction out)
  case (Cons n out)
  have "0 \<le> sint n * 10000 ^ length out" "sint n * 10000 ^ length out \<le> 10001 * 10000 ^ length out"
    using Cons.prems by (simp_all add: mult_right_mono)
  moreover have "0 \<le> groups_value out" "9999 * groups_value out \<le> 10001 * 10000 ^ length out"
    using Cons by simp_all
  moreover have "x \<le> 10001 * p \<Longrightarrow> 9999 * y \<le> 10001 * p \<Longrightarrow> 9999 * (x + y) \<le> 10001 * (10000 * p)"
    for x y p :: int
    using mult_left_mono [of x "10001 * p" 9999] by simp
  ultimately show ?case
    unfolding groups_value.simps length_Cons power_Suc by (intro conjI add_nonneg_nonneg)
qed simp

lemma first_group:
  assumes out: "length out = 200" "\<forall>n \<in> set out. 0 \<le> sint n \<and> sint n \<le> 10001"
    and v: "groups_value out \<le> pi * 10 ^ 799" "pi * 10 ^ 799 < groups_value out + 103 / 100"
  shows "sint (hd out) = 3141"
proof -
  obtain n ns where o: "out = n # ns" "length ns = 199"
    using out(1) by (cases out) simp_all
  define p where "p = (10000 :: real) ^ 199"
  have p: "10000 \<le> p" unfolding p_def by (rule self_le_power) simp_all
  have ten: "(10000 :: real) = 10 ^ 4" and t: "(10 :: real) ^ 3 = 1000"
    and e: "799 = 4 * 199 + (3 :: nat)" by simp_all
  have "(10 :: real) ^ 799 = (10 ^ 4) ^ 199 * 1000"
    unfolding e power_add power_mult t by (rule refl)
  then have pow: "(10 :: real) ^ 799 = p * 1000"
    unfolding p_def ten by assumption
  have b: "0 \<le> groups_value ns \<and> 9999 * groups_value ns \<le> 10001 * 10000 ^ length ns"
    by (rule groups_value_bounds) (use out(2) o(1) in simp)
  then have "real_of_int (9999 * groups_value ns) \<le> real_of_int (10001 * 10000 ^ length ns)"
    by (simp only: of_int_le_iff)
  with b have rest: "0 \<le> real_of_int (groups_value ns)" "9999 * real_of_int (groups_value ns) \<le> 10001 * p"
    unfolding o(2) p_def by (simp_all only: of_int_mult of_int_power of_int_numeral of_int_0_le_iff)
  have g: "real_of_int (groups_value out) = sint n * p + groups_value ns"
    by (simp only: o groups_value.simps of_int_add of_int_mult of_int_power of_int_numeral p_def)
  have "31415 / 10000 * (p * 1000) \<le> pi * (p * 1000)" "pi * (p * 1000) \<le> 31416 / 10000 * (p * 1000)"
    using pi_four_digits p by (intro mult_right_mono; simp)+
  then have "sint n * p < 3142 * p" "3140 * p < sint n * p"
    using rest v(1,2) g p unfolding pow by linarith+
  then have "real_of_int (sint n) < 3142" "3140 < real_of_int (sint n)"
    using p by (simp_all add: mult_less_cancel_right del: of_int_sint)
  then have "sint n < 3142" "3140 < sint n" by linarith+
  then show ?thesis by (simp add: o(1))
qed

end
