(* ===== verification/Spec2Isabelle.thy ===== *)
theory Spec2Isabelle
  imports Demo Gdbstub Discomp Disfmt Runtime Simload Coreinit Dhrystone Scidft Scimark Spigot
begin

text \<open>
  A verification development of srv32, an instruction-set simulator for RISC-V
  (\<open>src/tools\<close>). The simulator keeps the state of one hart in \<open>struct rv\<close>, executes one
  instruction per call of \<open>srv32_step\<close>, and serves the requests of the simulated program to
  the host. The theories follow its parts, in the order the code has them.

  \<^item> \<open>Prelude\<close>: machine integers, bit-fields, the outcome type \<open>run\<close> of a C function (it
    returns, ends the process, or does something C gives no meaning to) and the lemma
    collections the other theories share.
  \<^item> \<open>Opcode\<close>: \<open>opcode.h\<close>, its constants, the unions \<open>INST\<close> and \<open>INSTC\<close>, the 64-bit
    counters and the record of the control and status registers.
  \<^item> \<open>Machine\<close>: \<open>rvsim.h\<close>, with the build configuration (the feature macros), the host
    (library calls and what C leaves undefined, as a parameter), \<open>struct rv\<close>, the static
    variables of the step function and the register file.
  \<^item> \<open>Trap\<close>, \<open>Csr\<close>, \<open>Memory\<close>, \<open>Decode\<close>, \<open>Alu\<close>, \<open>Loadstore\<close>: the helpers of \<open>rvsim.c\<close>
    (cycle accounting, traps and interrupts; \<open>csr_rw\<close>; the access routines of the memory
    block; the immediate decoders; the values of the arithmetic cases; \<open>memrw\<close>).
  \<^item> \<open>Decompress\<close>: \<open>decompress.c\<close>. \<open>Syscall\<close>: \<open>syscall.c\<close>, \<open>htif.c\<close> and \<open>prog_exit\<close>.
  \<^item> \<open>Step\<close>: \<open>srv32_step\<close>, one definition per case of the instruction switch and per phase
    before it.
  \<^item> \<open>Isa\<close> and \<open>Rvc\<close> are specifications, written from the RISC-V manual and not from the
    code: the RV32IM instructions, their decoding, their integer semantics and their effect
    on an architectural state, and the tables of the C extension.
  \<^item> \<open>Invariants\<close>, \<open>Exceptions\<close>, \<open>Refine\<close>: what every step keeps, the traps, and the
    refinement of the reference semantics by the step function.
  \<^item> \<open>Demo\<close>: a concrete machine, at which the conditional properties are applied.
  \<^item> \<open>Elfloader\<close>, \<open>Debug\<close>, \<open>Simulator\<close>: \<open>elfloader.c\<close> (the headers, the segments and what is
    in memory after loading), \<open>debug.c\<close> (the command reader, the commands and the prompt) and
    \<open>main\<close> of \<open>rvsim.c\<close> (options, reset, execution loop), with the runs of the hart as an
    inductive relation.
  \<^item> \<open>Bptree\<close>: \<open>map.c\<close>, the tree of breakpoints on a heap of nodes. \<open>Bpheap\<close>, \<open>Bpfix\<close>, \<open>Bpset\<close>
    and \<open>Bpdelete\<close> verify it: rotations and recolourings as operations on trees with
    addresses, the repair loop, insertion as a refinement of adding to a set, search and
    deletion, and the run on which a stale parent pointer ties the tree into a cycle.
  \<^item> \<open>Disops\<close>, \<open>Disas\<close>, \<open>Disfmt\<close>: \<open>riscv-disas.h\<close> and \<open>riscv-disas.c\<close>, the tables, the decoder
    and the printing of the disassembler. \<open>Disshow\<close> gives the printed operations their meaning
    as instructions of \<open>Isa\<close>; \<open>Disagree\<close> and \<open>Discomp\<close> show that it is the decoded one.
  \<^item> \<open>Gdbstub\<close>: the callbacks of \<open>gdbstub.c\<close> and the locale \<open>breakpoint_store\<close> they use.
  \<^item> \<open>Runtime\<close>: the library the simulated programs are linked with, \<open>sw/common/syscall.c\<close>,
    and its system calls as the services of \<open>Syscall\<close>.
  \<^item> \<open>Simload\<close>: the loader of the test bench of the hardware model, \<open>sim/elfloader.c\<close>, and its
    agreement with the loader of the simulator.
  \<^item> \<open>Coreutil\<close>, \<open>Corestate\<close>, \<open>Corematrix\<close>, \<open>Corelist\<close>, \<open>Coremain\<close>: CoreMark, the benchmark
    among the simulated programs (\<open>sw/coremark\<close>), one theory per file. \<open>Coresort\<close>, \<open>Coremerge\<close> and
    \<open>Corevalue\<close> verify the list operations and the merge sort, \<open>Corebench\<close>, \<open>Corerun\<close> and \<open>Coreinit\<close>
    compose them to the whole program, from the seeds to the check of the results.
  \<^item> \<open>Dhrystone\<close>: \<open>sw/dhrystone\<close>, whose final values are those it prints as expected.
  \<^item> \<open>Scibase\<close> to \<open>Scimark\<close>: SciMark (\<open>sw/scimark2\<close>). \<open>Scirandom\<close>, \<open>Scifft\<close>,
    \<open>Scilinear\<close> and \<open>Scikernel\<close> hold the code and what does not depend on the arithmetic of
    doubles, which is a parameter. \<open>Sciflow\<close> is the recursive transform of Cooley and Tukey.
    \<open>Sciexact\<close>, \<open>Scidft\<close>, \<open>Scilu\<close> and \<open>Scigrid\<close> show, over the real numbers, what the Fourier
    transform, the factorisation, the relaxation and the sparse product compute, and
    \<open>Scimark\<close> that the whole program returns.
  \<^item> \<open>Spigot\<close>: \<open>sw/pi\<close>, which prints digits of \<open>pi\<close>, with Euler's series in \<open>Piseries\<close>.

  How the model reads the code. An \<open>int\<close>, \<open>int32_t\<close> or \<open>uint32_t\<close> is a 32-bit word, and each
  operator is the one that has the signedness of its C operands. Functions that change
  \<open>*rv\<close> return the changed record. The memory block is a function from offsets to bytes of
  which the first \<open>mem_size\<close> are allocated; an access outside them is \<open>Fault OutOfBlock\<close>,
  never a value. \<open>printf\<close> and the trace file are left out: they do not feed back. The
  feature macros are the fields of \<open>config\<close>, and every property holds for all of them
  unless it names one. Loops over data are structural recursions or folds; the loop of
  \<open>cpop\<close> and the dump loops are general recursions with a termination proof, so no
  definition needs fuel: what may not return (the
  prompt, the execution loop, the functions of \<open>map.c\<close> on a heap that is not a tree,
  the timing loop of SciMark on a clock that stands still) is a
  partial function whose value is then \<open>None\<close>.

  The interfaces are locales. \<open>byte_store\<close> (theory \<open>Memory\<close>) is what the load and store unit
  relies on in the access routines, \<open>csr_cell\<close> (theory \<open>Csr\<close>) is what \<open>UPDATE_CSR\<close> relies on
  in a register; both are interpreted on the model's own definitions. The locale
  \<open>breakpoint_store\<close> (theory \<open>Gdbstub\<close>) is what the GDB stub relies on in \<open>map.c\<close>.
  \<open>list_comparator\<close> (theory \<open>Coremerge\<close>) is what the merge sort of CoreMark relies on in a
  comparison, which may compute and cache values; both comparisons of the program, by index
  and by value, are its interpretations. \<open>kernel_body\<close> (theory \<open>Scimark\<close>) is what the timing
  loop of SciMark relies on in the work it times; the five kernels are its interpretations.

  Not modelled: the hardware model and its test bench, which are Verilog and its driver (other
  than the loader of the test bench); the terminal (\<open>getch.c\<close>), which is system calls only;
  rounding in SciMark, whose arithmetic is a parameter; and the small test programs under \<open>sw\<close>, which print
  a few lines or consist of inline assembly, pthreads or C++.
\<close>

section \<open>The step function implements the instruction set\<close>

text \<open>
  C1. A step that fetches a 32-bit RV32IM instruction, in a state where no interrupt enters
  and the program counter is good, on an instruction that neither traps nor stops the
  simulator, returns \<open>RV_OKAY\<close> and changes the program counter, the registers and the
  memory as the reference semantics of the instruction does.
\<close>

theorem step_implements_isa:
  assumes "steps_plainly cfg h s"
    and "srv32_read_mem (cpu s) (pc (cpu s)) 4 = Done (Some bs)"
    and "RV32C cfg \<Longrightarrow> srv32_read_mem (cpu s) (pc (cpu s)) 2 = Done (Some bs2)"
    and "RV32C cfg \<Longrightarrow> cr_op (ucast (le_word bs2)) = 3"
    and "decode (le_word bs) = Some i"
    and "runs_plainly cfg (step_entry cfg s) i"
  shows "\<exists>s'. srv32_step cfg h s = Done (s', RV_OKAY) \<and>
    arch_of cfg (cpu s') = isa_exec 4 i (arch_of cfg (cpu s))"
  by (rule step_refines_32bit [OF assms])

text \<open>\<open>addi x1, x0, 5\<close> at address 0 of a machine with compressed instructions.\<close>

lemma demo_decode_addi: "decode 0x00500093 = Some (OpImm A_add 1 0 5)"
  by (simp add: decode_def imm_op_of_def is_shift_def imm_I_def sext_def fld_def Let_def)

theorem step_implements_isa_witness:
  "\<exists>s'. srv32_step (demo_cfg True) demo_host (demo_sim 0x00500093) = Done (s', RV_OKAY) \<and>
    arch_of (demo_cfg True) (cpu s') =
      isa_exec 4 (OpImm A_add 1 0 5) (arch_of (demo_cfg True) (demo_rv 0x00500093))"
  using step_implements_isa [of "demo_cfg True" demo_host "demo_sim 0x00500093"
      "le_bytes 4 0x00500093" "le_bytes 2 0x00500093" "OpImm A_add 1 0 5"]
  by (simp add: demo_read demo_decode_addi cfld_def fld_def)

text \<open>
  C2. The same for a compressed instruction: the step decompresses it and executes the
  instruction that the C extension tabulates for it, with length 2.
\<close>

theorem step_implements_rvc:
  assumes "steps_plainly cfg h s" and "RV32C cfg"
    and "srv32_read_mem (cpu s) (pc (cpu s)) 4 = Done r"
    and "srv32_read_mem (cpu s) (pc (cpu s)) 2 = Done (Some bs)"
    and "cr_op (ucast (le_word bs)) \<noteq> 3" and "\<not> reserved_accepted (ucast (le_word bs))"
    and "rvc_spec (ucast (le_word bs)) = Some i"
    and "runs_plainly cfg (step_entry cfg s) i"
  shows "\<exists>s'. srv32_step cfg h s = Done (s', RV_OKAY) \<and>
    arch_of cfg (cpu s') = isa_exec 2 i (arch_of cfg (cpu s))"
  by (rule step_refines_compressed [OF assms])

text \<open>\<open>c.li x1, 5\<close> at address 0.\<close>

lemma demo_rvc_li:
  "rvc_spec 0x4095 = Some (OpImm A_add 1 0 5)" "\<not> reserved_accepted 0x4095"
  by (simp_all add: rvc_spec_def rvc1_def reserved_accepted_def imm_ci_def sext_def fld_def Let_def
      bit_simps)

theorem step_implements_rvc_witness:
  "\<exists>s'. srv32_step (demo_cfg True) demo_host (demo_sim 0x4095) = Done (s', RV_OKAY) \<and>
    arch_of (demo_cfg True) (cpu s') =
      isa_exec 2 (OpImm A_add 1 0 5) (arch_of (demo_cfg True) (demo_rv 0x4095))"
  using step_implements_rvc [of "demo_cfg True" demo_host "demo_sim 0x4095"
      "Some (le_bytes 4 0x4095)" "le_bytes 2 0x4095" "OpImm A_add 1 0 5"]
  by (simp add: demo_read demo_rvc_li [simplified] cfld_def fld_def)

text \<open>
  C3. Every step, whatever it executes and however it ends, counts one instruction and one
  tick of time, and leaves the options, the geometry of the memory, the size of the register
  file and the identification registers as they are.
\<close>

theorem step_counts_one:
  "run_all (\<lambda>(s', r). rv_static (cpu s') = rv_static (cpu s) \<and>
      c_time (csr (cpu s')) = c_time (csr (cpu s)) + 1 \<and>
      c_instret (csr (cpu s')) = c_instret (csr (cpu s)) + 1) (srv32_step cfg h s)"
  using step_counts [of s cfg h] by (simp add: counted_def)

text \<open>
  C4. At most one interrupt enters in a step, and only when interrupts are enabled: the timer
  before the software interrupt before the external one.
\<close>

theorem one_interrupt_per_step:
  "take_interrupts t rv =
     (if \<not> bit (mstatus (csr rv)) MIE then rv
      else if timer_irq t then srv32_int rv INT_MTIME MTIP False
      else if sw_irq_next t then srv32_int rv INT_MSI MSIP False
      else if ext_irq_next t then srv32_int rv INT_MEI MEIP False
      else rv)"
  by (simp add: take_interrupts_cases mie_set_iff)

text \<open>
  C5. The zero register is not a channel: no step depends on a value left in it, whatever
  instruction wrote it.
\<close>

theorem x0_never_observed:
  "srv32_step cfg h (set_cpu ((cpu s)\<lparr>regs := (regs (cpu s))[0 := v]\<rparr>) s) = srv32_step cfg h s"
  by (rule step_ignores_x0)


section \<open>Exceptions\<close>




text \<open>
  A store to the exit register does not end the simulation: the store unit answers
  \<open>RV_EXIT\<close>, whose value the store case takes for \<open>TRAP_INST_ILL\<close>, so that the exit code is
  set and an illegal-instruction trap is raised.
\<close>

theorem exit_register_traps:
  assumes "r_op w = OP_STORE" and "i_func3 w = OP_SW"
    and "srv32_read_regs cfg (cpu s) (unat (s_rs1 w)) + to_imm_s (s_imm2 w) (s_imm1 w) = MMIO_EXIT"
    and "\<not> range_check (cpu s) MMIO_EXIT 4"
  shows "exec_inst cfg h s w c =
    raise_trap (singleram_cycle (set_cpu ((cpu s)\<lparr>exitcode :=
      srv32_read_regs cfg (cpu s) (unat (s_rs2 w))\<rparr>) s)) TRAP_INST_ILL w"
  by (rule exit_store_traps [OF assms])

text \<open>\<open>sw x0, 0(x1)\<close> with the address of the exit register in x1.\<close>

definition demo_exit :: "unit sim" where
  "demo_exit = set_cpu ((demo_rv 0)\<lparr>regs := (replicate 32 0)[1 := MMIO_EXIT]\<rparr>) (demo_sim 0)"

theorem exit_register_traps_witness:
  "exec_inst (demo_cfg False) demo_host demo_exit 0x0000a023 False =
    raise_trap demo_exit TRAP_INST_ILL 0x0000a023"
proof -
  have "cpu demo_exit\<lparr>exitcode := 0\<rparr> = cpu demo_exit"
    by (simp add: demo_exit_def demo_rv_def)
  then have same: "set_cpu ((cpu demo_exit)\<lparr>exitcode := 0\<rparr>) demo_exit = demo_exit"
    by simp
  show ?thesis
    using exit_register_traps [of "0x0000a023" "demo_cfg False" demo_exit demo_host False]
    by (simp add: same fld_def to_imm_s_def srv32_read_regs_def REGNUM_def demo_cfg_def
        range_check_def word_sless_alt singleram_cycle_def shl1_def)
      (simp add: same demo_exit_def demo_rv_def demo_sim_def word_sless_alt)
qed
text \<open>
  C8. Leaving a trap at once resumes the instruction that trapped, with the interrupt enable
  it had: a trap saves the enable bit and \<open>mret\<close> restores it.
\<close>

theorem trap_then_mret:
  assumes "aligned_pc cfg (prev_pc rv)"
  shows "\<exists>s'. exec_mret cfg (set_cpu (srv32_trap rv cause val) s) = Done (s', Ret RV_OKAY) \<and>
    pc (cpu s') = prev_pc rv \<and> regs (cpu s') = regs rv \<and> mem (cpu s') = mem rv \<and>
    bit (mstatus (csr (cpu s'))) MIE = bit (mstatus (csr rv)) MIE"
  using assms
  by (cases "RV32C cfg")
    (simp_all add: exec_mret_def Let_def trap_csrs mstatus_leave_enter cycle_add_csr aligned_pc_def)

theorem trap_then_mret_witness:
  "\<exists>s'. exec_mret (demo_cfg False) (set_cpu (srv32_trap (demo_rv 0) TRAP_BREAK 0) (demo_sim 0)) =
      Done (s', Ret RV_OKAY) \<and> pc (cpu s') = 0 \<and> regs (cpu s') = replicate 32 0 \<and>
    mem (cpu s') = mem (demo_rv 0) \<and> bit (mstatus (csr (cpu s'))) MIE"
proof -
  have "aligned_pc (demo_cfg False) (prev_pc (demo_rv 0))"
    by (simp add: aligned_pc_def demo_rv_def)
  from trap_then_mret [OF this, of TRAP_BREAK 0 "demo_sim 0"] show ?thesis
    by (simp add: demo_rv_def demo_csrs_def)
qed

text \<open>
  Trap entry: the cause, the value and the address of the instruction are recorded, the
  enable bit is saved and cleared, and the next instruction is the handler, direct or
  vectored by the cause.
\<close>

theorem trap_entry:
  "pc (srv32_trap rv cause val) = trap_target (mtvec (csr rv)) cause \<and>
   mepc (csr (srv32_trap rv cause val)) = prev_pc rv \<and>
   mcause (csr (srv32_trap rv cause val)) = cause \<and>
   mtval (csr (srv32_trap rv cause val)) = val \<and>
   (\<forall>n. bit (mstatus (csr (srv32_trap rv cause val))) n \<longleftrightarrow>
      n \<noteq> MIE \<and> bit (mstatus (csr rv)) (if n = MPIE then MIE else n))"
  by (auto simp: trap_csrs bits)

text \<open>
  Interrupt entry: the same, with the address of the instruction that is still to be
  executed in \<open>mepc\<close>, the pending bit set and the interrupt flag left out of the vector.
\<close>

theorem interrupt_entry:
  "pc (srv32_int rv cause src c) = trap_target (mtvec (csr rv)) (cause AND NOT (shl1 31)) \<and>
   mepc (csr (srv32_int rv cause src c)) = pc rv \<and>
   mcause (csr (srv32_int rv cause src c)) = cause \<and>
   mip (csr (srv32_int rv cause src c)) = mip (csr rv) OR shl1 src \<and>
   (\<forall>n. bit (mstatus (csr (srv32_int rv cause src c))) n \<longleftrightarrow>
      n \<noteq> MIE \<and> bit (mstatus (csr rv)) (if n = MPIE then MIE else n))"
  by (auto simp: int_csrs bits)

section \<open>Memory\<close>

text \<open>
  C9. A load of the address and width just stored returns the value stored, extended as the
  load asks for.
\<close>

theorem load_returns_store:
  assumes "store_op_of f3 = Some so" and "load_op_of f3' = Some l"
    and "load_width l = store_width so" and "in_memory (cpu s) a (store_width so)"
  shows "\<exists>s'. memrw_store h s f3 a v = Done (s', 0) \<and>
    memrw_load h s' f3' a = Done (s', 0, load_value l (take_bit (8 * load_width l) v))"
proof -
  obtain rv where rv: "srv32_write_mem (cpu s) a (of_nat (store_width so)) (le_bytes 4 v) = Done (Some rv)"
    using assms(4) store_width_cases [of so]
    by (auto simp: in_memory_def srv32_write_mem_def Let_def)
  have al: "unat a mod store_width so = 0"
    using assms(4) by (simp add: in_memory_def)
  show ?thesis
    using memrw_store_memory [OF assms(1) al rv] load_after_store_unit [OF assms(1-3) al rv] by blast
qed

lemma demo_in_memory: "in_memory (demo_rv 0) 8 1"
  by (simp add: in_memory_def range_check_def in_block_def word_sless_alt)

theorem load_returns_store_witness:
  "\<exists>s'. memrw_store demo_host (demo_sim 0) OP_SB 8 0x1ff = Done (s', 0) \<and>
    memrw_load demo_host s' OP_LB 8 = Done (s', 0, - 1)"
  using load_returns_store [of OP_SB S_b OP_LB L_b "demo_sim 0" 8 demo_host "0x1ff"] demo_in_memory
  by (simp add: store_op_of_def load_op_of_def load_width_def store_width_def load_value_def sext_def)

text \<open>A store leaves every byte outside the range it writes as it was.\<close>

theorem store_leaves_rest:
  assumes "srv32_write_mem rv a n bs = Done (Some rv')"
    and "srv32_read_mem rv b m = Done (Some cs)" and "0 \<le> sint n" and "0 \<le> sint m"
    and "sint a + sint n \<le> sint b \<or> sint b + sint m \<le> sint a"
  shows "srv32_read_mem rv' b m = Done (Some cs)"
  by (rule rvmem.wr_rd_other [OF assms])

theorem store_leaves_rest_witness:
  "\<exists>rv'. srv32_write_mem (demo_rv 7) 8 4 (le_bytes 4 1) = Done (Some rv') \<and>
    srv32_read_mem rv' 0 4 = Done (Some (le_bytes 4 7))"
proof -
  obtain rv' where w: "srv32_write_mem (demo_rv 7) 8 4 (le_bytes 4 1) = Done (Some rv')"
    by (simp add: srv32_write_mem_def range_check_def in_block_def word_sless_alt)
  show ?thesis
    using store_leaves_rest [OF w demo_read(1)] w by simp
qed

text \<open>
  C10. When an access leaves the memory block: exactly where the address is at or above the
  base and the sum of address and length overflows, which the range check does not see.
\<close>

theorem access_leaves_block_iff:
  assumes "mem_ok rv" and "0 < sint len" and "sint len \<le> 4"
  shows "srv32_read_mem rv addr len = Fault OutOfBlock \<longleftrightarrow>
    sint (mem_base rv) \<le> sint addr \<and> 2 ^ 31 \<le> sint addr + sint len"
  by (rule read_mem_fault_iff [OF assms])

theorem access_leaves_block_witness:
  "srv32_read_mem (demo_rv 0) 0x7ffffffe 4 = Fault OutOfBlock"
  using access_leaves_block_iff [of "demo_rv 0" 4 "0x7ffffffe"] by simp

text \<open>
  A load or store whose address is not a multiple of its width is refused before any
  access: the state is unchanged and the cause is the misalignment.
\<close>

theorem misaligned_refused:
  assumes "load_op_of f3 = Some l" and "unat a mod load_width l \<noteq> 0"
    and "store_op_of f3' = Some so" and "unat b mod store_width so \<noteq> 0"
  shows "memrw_load h s f3 a = Done (s, TRAP_LD_ALIGN, 0) \<and>
    memrw_store h s f3' b v = Done (s, TRAP_ST_ALIGN)"
  using assms by (simp add: memrw_load_def memrw_store_def load_check_op store_check_op)

theorem misaligned_refused_witness:
  "memrw_load demo_host (demo_sim 0) OP_LW 2 = Done (demo_sim 0, TRAP_LD_ALIGN, 0) \<and>
   memrw_store demo_host (demo_sim 0) OP_SH 1 0 = Done (demo_sim 0, TRAP_ST_ALIGN)"
  using misaligned_refused [of OP_LW L_w 2 OP_SH S_h 1 demo_host "demo_sim 0" 0]
  by (simp add: load_op_of_def store_op_of_def load_width_def store_width_def)

text \<open>
  What a store to the timer and interrupt registers leaves: the bits under the mask come
  from the data, but the data is not masked, so that its higher bits are set as well.
\<close>

theorem mmio_store_sets_high_bits:
  "bit (mmio_merge msk data reg) n \<longleftrightarrow> bit data n \<or> bit reg n \<and> \<not> bit msk n"
  by (auto simp: mmio_merge_def bit_simps dest: bit_imp_le_length)

section \<open>Host services\<close>

text \<open>
  A dump writes exactly the bytes between its bounds when the start is not behind the
  end and the end is inside the block; every other dump runs out of the block.
\<close>

theorem dump_writes_range:
  "dump_bytes rv s e =
     (if s = e then Done []
      else if 0 \<le> s \<and> s < e \<and> e \<le> sint (mem_size rv)
           then Done (block_bytes rv s (nat (e - s)))
           else Fault OutOfBlock)"
  by (rule dump_bytes_spec)

text \<open>
  A service of either interface reaches the processor only through the memory block,
  and leaves the variables of the step function alone.
\<close>

theorem services_touch_memory_only:
  "run_all (\<lambda>(r, s'). service_frame s s') (srv32_syscall h s func a0 a1 a2) \<and>
   run_all (service_frame s) (srv32_tohost h s a)"
  using syscall_frame tohost_frame by blast

section \<open>Control and status registers\<close>



text \<open>An access to one register does not change what is read from another.\<close>

theorem csrs_do_not_interfere:
  assumes "(r, get, put) \<in> set (csr_cells cfg)" and "(r', get', put') \<in> set (csr_cells cfg)"
    and "r \<noteq> r'"
  shows "fst (snd (csr_rw cfg (fst (csr_rw cfg rv r mode val update)) r' mode' val' update')) =
    fst (snd (csr_rw cfg rv r' mode' val' update'))"
  by (simp add: csr_rw_cell [OF assms(1)] csr_rw_cell [OF assms(2)] csr_access_def
      csr_cells_disjoint [OF assms])

theorem csrs_do_not_interfere_witness:
  "fst (snd (csr_rw (demo_cfg False) (fst (csr_rw (demo_cfg False) (demo_rv 0) CSR_MEPC OP_CSRRW 4
      True)) CSR_MTVEC OP_CSRRS 0 False)) = 32"
proof -
  have cells: "(CSR_MEPC, mepc, \<lambda>v. mepc_update (\<lambda>_. v)) \<in> set (csr_cells (demo_cfg False))"
    "(CSR_MTVEC, mtvec, \<lambda>v. mtvec_update (\<lambda>_. v)) \<in> set (csr_cells (demo_cfg False))"
    by (simp_all add: csr_cells_def csr_table_def)
  have "CSR_MEPC \<noteq> CSR_MTVEC" by simp
  from csrs_do_not_interfere [OF cells this, of "demo_rv 0" OP_CSRRW 4 True OP_CSRRS 0 False]
  show ?thesis
    by (simp add: csr_rw_cell [OF cells(2)] csr_access_def demo_rv_def demo_csrs_def)
qed

text \<open>
  A number that is neither read-only nor writable is illegal, and the access changes
  nothing.
\<close>

theorem unknown_csr_illegal:
  assumes "r \<notin> fst ` set (csr_read_only rv)" and "r \<notin> fst ` set (csr_cells cfg)"
  shows "csr_rw cfg rv r mode val update = (rv, 0, False)"
  by (rule csr_rw_unknown [OF assms])

theorem unknown_csr_illegal_witness:
  "csr_rw (demo_cfg False) (demo_rv 0) 0x7c0 OP_CSRRW 1 True = (demo_rv 0, 0, False)"
  using unknown_csr_illegal [of "0x7c0" "demo_rv 0" "demo_cfg False" OP_CSRRW 1 True]
  by (simp add: csr_read_only_def csr_cells_def csr_table_def demo_cfg_def)

text \<open>
  No access changes the counters, the timer, the identification registers or the
  software-interrupt register, whatever its number and its operands.
\<close>

theorem csr_access_spares_counters:
  "\<exists>c. fst (csr_rw cfg rv r mode val update) = rv\<lparr>csr := c\<rparr> \<and>
     counters_and_ids c = counters_and_ids (csr rv)"
  by (rule csr_rw_state)

section \<open>Arithmetic\<close>

text \<open>
  C12. The register-register instructions of RV32IM compute the value that the manual
  defines over the integers, on a host that reduces shift distances modulo 32.
\<close>

theorem register_arithmetic_correct:
  assumes "masks_shifts h" and "reg_op_of (r_func3 w) (r_func7 w) = Some aop"
    and "RV32M cfg \<or> r_func7 w \<noteq> FN_RV32M"
  shows "exec_arithr cfg h w a b = Some (alu aop a b)"
  by (rule exec_arithr_alu [OF assms])

text \<open>\<open>mulh x3, x1, x2\<close>.\<close>

theorem register_arithmetic_witness:
  "exec_arithr (demo_cfg False) demo_host 0x022091b3 (- 2) 0x40000000 = Some (- 1)"
  using register_arithmetic_correct [of demo_host "0x022091b3" A_mulh "demo_cfg False" "- 2"
      "0x40000000"]
  by (simp add: fld_def reg_op_of_def alu_def)

text \<open>
  So do the immediate instructions, on every host: their shift distances are the low
  five bits of the immediate.
\<close>

theorem immediate_arithmetic_correct:
  assumes "imm_op_of (i_func3 w) (r_func7 w) = Some aop"
  shows "exec_arithi cfg h w a = Some (alu aop a (if is_shift aop then r_rs2 w else imm_I w))"
  by (rule exec_arithi_alu [OF assms])

text \<open>\<open>srai x1, x1, 4\<close>.\<close>

theorem immediate_arithmetic_witness:
  "exec_arithi (demo_cfg False) demo_host 0x4040d093 (- 32) = Some (- 2)"
  using immediate_arithmetic_correct [of "0x4040d093" A_sra "demo_cfg False" demo_host "- 32"]
  by (simp add: fld_def imm_op_of_def is_shift_def alu_def)

text \<open>
  The distance of a register shift is not reduced to five bits: for a distance of 32
  the value of \<open>sll\<close> is whatever the host makes of the shift.
\<close>

theorem wide_shift_is_host_defined:
  "\<exists>h :: unit host. exec_rv32i h OP_SLL a 32 = Some v"
  by (rule exI [of _ "demo_host\<lparr>shl_ub := \<lambda>_ _. v\<rparr>"]) (simp add: exec_rv32i_def c_shl_def)

text \<open>
  \<open>cpop\<close> counts the bits that are set, for every word: its loop ends.\<close>

theorem cpop_counts_bits: "cpop n 0 = of_nat (card {i. bit n i})"
  by (simp add: cpop_counts bits_of_def)

text \<open>
  \<open>ctz\<close> answers the position of the lowest set bit, and 32 for zero.\<close>

theorem ctz_correct:
  assumes "bit x k" and "\<And>i. i < k \<Longrightarrow> \<not> bit x i"
  shows "ctz x = of_nat k \<and> ctz 0 = 32"
  using ctz_lowest [OF assms] by (simp add: ctz_def)

theorem ctz_correct_witness: "ctz 0x50 = 4 \<and> ctz 0 = 32"
proof -
  have "bit (0x50 :: i32) 4" by (simp add: bit_simps)
  moreover have "\<not> bit (0x50 :: i32) i" if "i < 4" for i
  proof -
    have "i = 0 \<or> i = 1 \<or> i = 2 \<or> i = 3" using that by auto
    then show ?thesis by (auto simp: bit_simps)
  qed
  ultimately show ?thesis using ctz_correct [of "0x50" 4] by simp
qed

text \<open>
  \<open>clz\<close> answers the number of zeros above the highest set bit, and 32 for zero.\<close>

theorem clz_correct:
  assumes "bit x k" and "\<And>i. k < i \<Longrightarrow> \<not> bit x i"
  shows "clz x = of_nat (31 - k) \<and> clz 0 = 32"
  using clz_highest [OF assms] by (simp add: clz_def)

theorem clz_correct_witness: "clz (- 1) = 0 \<and> clz 0 = 32"
proof -
  have "bit (- 1 :: i32) 31" by simp
  moreover have "\<not> bit (- 1 :: i32) i" if "31 < i" for i
    using that bit_imp_le_length [of "- 1 :: i32" i] by auto
  ultimately show ?thesis using clz_correct [of "- 1" 31] by simp
qed

text \<open>
  The three carry-less products are the low half, the high half and the reversed half of
  the product of two polynomials over the two-element field.
\<close>

theorem carryless_products:
  "(bit (clmul a b) j \<longleftrightarrow> j < 32 \<and> cl_bit a b j) \<and>
   (bit (clmulh a b) j \<longleftrightarrow> j < 32 \<and> cl_bit a b (j + 32)) \<and>
   (bit (clmulr a b) j \<longleftrightarrow> j < 32 \<and> cl_bit a b (j + 31))"
  by (simp add: clmul_bit clmulh_bit clmulr_bit)

text \<open>
  The rotations rotate by the low five bits of the distance, on a host that reduces
  shift distances: a rotation by zero shifts by 32.
\<close>

theorem rotations_correct:
  assumes "masks_shifts h"
  shows "exec_rot h OP_ROR a b = Some (word_rotr (unat b mod 32) a) \<and>
    exec_rot h OP_ROL a b = Some (word_rotl (unat b mod 32) a)"
  using exec_rot_spec [OF assms] by simp

theorem rotations_correct_witness:
  "exec_rot demo_host OP_ROR 1 0 = Some (word_rotr 0 1) \<and>
   exec_rot demo_host OP_ROL 1 0 = Some (word_rotl 0 1)"
  using rotations_correct [of demo_host 1 0] by simp

text \<open>
  \<open>rev8\<close> reverses the bytes of a word, \<open>orc.b\<close> saturates every byte that is not zero,
  and \<open>sext.b\<close> and \<open>sext.h\<close> extend the sign of the low byte and half.
\<close>

theorem byte_operations_correct:
  assumes "k < 4"
  shows "fld (8 * k) 8 (rev8 w) = fld (8 * (3 - k)) 8 w \<and>
    fld (8 * k) 8 (orc_b w) = (if fld (8 * k) 8 w = 0 then 0 else 0xff) \<and>
    sext_b w = sext 8 w \<and> sext_h w = sext 16 w"
  using rev8_spec [OF assms] orc_b_spec [OF assms] by (simp add: sext_b_spec sext_h_spec)

theorem byte_operations_witness:
  "fld 8 8 (rev8 0x11223344) = 0x22 \<and> fld 8 8 (orc_b 0x00000100) = 0xff \<and>
   sext_b 0x80 = - 128 \<and> sext_h 0x8000 = - 32768"
  using byte_operations_correct [of 1 "0x11223344"] byte_operations_correct [of 1 "0x100"]
    byte_operations_correct [of 1 "0x80"] byte_operations_correct [of 1 "0x8000"]
  by (simp add: fld_def sext_def)

section \<open>Decoding\<close>

text \<open>
  The immediate decoders extract the immediates of the five instruction formats as the
  manual lays them out.
\<close>

theorem immediates_correct:
  "to_imm_i (i_imm w) = imm_I w \<and> to_imm_s (s_imm2 w) (s_imm1 w) = imm_S w \<and>
   to_imm_b (b_imm2 w) (b_imm1 w) = imm_B w \<and> to_imm_u (u_imm w) = imm_U w \<and>
   to_imm_j (j_imm w) = imm_J w"
  by (simp only: to_imm_specs simp_thms)

text \<open>
  C13. Outside the reserved codes of the next property, the decompressor rejects exactly the codes for
  which the C extension has no instruction, and expands the others to a 32-bit instruction
  that decodes to the instruction of the manual.
\<close>

theorem decompressor_correct:
  assumes "cr_op c \<noteq> 3" and "\<not> reserved_accepted c"
  shows "case rvc_spec c of
           None \<Rightarrow> compressed_decoder c inst = (True, 0, True)
         | Some i \<Rightarrow> \<exists>r. compressed_decoder c inst = (True, r, False) \<and> decode r = Some i"
  by (rule decompress_expands [OF assms])

theorem decompressor_correct_witness:
  "\<exists>r. compressed_decoder 0x4095 0 = (True, r, False) \<and> decode r = Some (OpImm A_add 1 0 5)"
  using decompressor_correct [of "0x4095" 0] demo_rvc_li by (simp add: cfld_def fld_def)

text \<open>
  Reserved codes are executed: a shift right whose distance has its bit 5 set is
  expanded with the low five bits, and \<open>c.lui x0, 0\<close> to the instruction that does nothing.
\<close>

theorem reserved_codes_executed:
  "compressed_decoder 0x9005 inst = (True, 0x00145413, False) \<and> rvc_spec 0x9005 = None \<and>
   decode 0x00145413 = Some (OpImm A_srl 8 8 1) \<and>
   compressed_decoder 0x6001 inst = (True, 0x00000013, False) \<and> rvc_spec 0x6001 = None"
proof (intro conjI)
  show "compressed_decoder 0x9005 inst = (True, 0x00145413, False)" by code_simp
  show "rvc_spec 0x9005 = None" by code_simp
  show "decode 0x00145413 = Some (OpImm A_srl 8 8 1)" by code_simp
  show "compressed_decoder 0x6001 inst = (True, 0x00000013, False)" by code_simp
  show "rvc_spec 0x6001 = None" by code_simp
qed


section \<open>From the command line to the end of the simulation\<close>

text \<open>
  C14. Start-up puts the program into memory and the hart into its reset state: every
  loadable segment of the file that no later segment overlaps is in memory, the counters
  and the registers are 0, the program counter is the base of the memory.
\<close>

theorem boot_loads_program:
  assumes "apply_opts gdbstub os (default_rv cfg, 0) = Some (rv, port)"
    and "boot cfg (Some file) rv = Done rv'"
    and "elf_phdrs file = pre @ ph # post" and "p_type ph = PT_LOAD"
    and "\<And>b. b \<in> set post \<Longrightarrow> p_type b = PT_LOAD \<Longrightarrow> apart ph b"
  shows "srv32_read_mem rv' (p_vaddr ph) (p_memsz ph) =
      Done (Some (take (unat (p_memsz ph)) (drop (unat (p_offset ph)) file))) \<and>
    pc rv' = mem_base rv \<and> prev_pc rv' = mem_base rv \<and>
    regs rv' = replicate (REGNUM cfg) 0 \<and> c_instret (csr rv') = 0 \<and> c_cycle (csr rv') = 0 \<and>
    mstatus (csr rv') = 0 \<and> misa (csr rv') = MISA cfg"
proof -
  have "length (regs rv) = REGNUM cfg"
    using apply_opts_regs [OF assms(1)] by (simp add: default_rv_def zero_rv_def)
  then show ?thesis
    using boot_places [OF assms(2-5)] boot_resets [OF assms(1,2)]
    by (simp add: reset_state_def segment_bytes_def)
qed

text \<open>A file of 88 bytes whose only segment is its last four bytes, loaded at address 0.\<close>

definition demo_elf :: "u8 list" where
  "demo_elf =
     [0x7f, 0x45, 0x4c, 0x46, 1, 1, 1, 0, 0, 0, 0, 0, 0, 0, 0, 0,
      2, 0, 0xf3, 0, 1, 0, 0, 0, 0, 0, 0, 0, 52, 0, 0, 0, 0, 0, 0, 0, 0, 0, 0, 0,
      52, 0, 32, 0, 1, 0, 0, 0, 0, 0, 0, 0,
      1, 0, 0, 0, 84, 0, 0, 0, 0, 0, 0, 0, 0, 0, 0, 0, 4, 0, 0, 0, 4, 0, 0, 0, 5, 0, 0, 0, 4, 0, 0, 0,
      0x93, 0, 0x50, 0]"

definition demo_boot :: rv where
  "demo_boot = default_rv (demo_cfg True)"

definition demo_phdr :: Elf32_Phdr where
  "demo_phdr =
     \<lparr>p_type = 1, p_offset = 84, p_vaddr = 0, p_paddr = 0, p_filesz = 4, p_memsz = 4,
      p_flags = 5, p_align = 4\<rparr>"

lemma demo_elf_phdrs: "elf_phdrs demo_elf = [demo_phdr]"
  by code_simp

lemma demo_elf_loads: "elfloader (Some demo_elf) rv = load_segments demo_elf [demo_phdr] rv"
proof -
  have "fread_at demo_elf 0 EI_NIDENT = Some (take 16 demo_elf)" by code_simp
  moreover have "fread_at demo_elf 0 ehdr_size = Some (take 52 demo_elf)" by code_simp
  moreover have "fread_at demo_elf 52 32 = Some (take 32 (drop 52 demo_elf))" by code_simp
  moreover have "e_phnum (ehdr_of (take 52 demo_elf)) = 1" "e_phoff (ehdr_of (take 52 demo_elf)) = 52"
    by code_simp+
  moreover have "phdrs_of (take 32 (drop 52 demo_elf)) 1 = [demo_phdr]" by code_simp
  moreover have "take 16 demo_elf ! 0 = 0x7f" "take 16 demo_elf ! EI_CLASS = 1" by code_simp+
  ultimately show ?thesis by (simp add: elfloader_def elf32_read_def phdr_size_def)
qed

lemma demo_elf_segment: "fread_sized demo_elf 84 4 = Some [0x93, 0, 0x50, 0]"
  by code_simp

lemma demo_elf_boots: "\<exists>rv'. boot (demo_cfg True) (Some demo_elf) demo_boot = Done rv'"
proof -
  have "in_block (demo_boot\<lparr>mem := (\<lambda>_. 0)\<rparr>) 0 4" "range_check (demo_boot\<lparr>mem := (\<lambda>_. 0)\<rparr>) 0 4"
    by (simp_all add: in_block_def range_check_def demo_boot_def default_rv_def MEMSIZE_def
        MEMBASE_def word_sless_alt)
  then show ?thesis
    using demo_elf_loads demo_elf_segment
    by (simp add: boot_def demo_phdr_def load_segment_def PT_LOAD_def srv32_write_mem_def
        demo_boot_def default_rv_def MEMSIZE_def MEMBASE_def word_sless_alt)
qed

theorem boot_loads_program_witness:
  "\<exists>rv'. boot (demo_cfg True) (Some demo_elf) demo_boot = Done rv' \<and>
    srv32_read_mem rv' 0 4 = Done (Some [0x93, 0, 0x50, 0]) \<and> pc rv' = 0"
proof -
  obtain rv' where rv': "boot (demo_cfg True) (Some demo_elf) demo_boot = Done rv'"
    using demo_elf_boots by blast
  have "take 4 (drop 84 demo_elf) = [0x93, 0, 0x50, 0]" by code_simp
  then show ?thesis
    using boot_loads_program [of False "[]" "demo_cfg True" demo_boot 0 demo_elf rv' "[]" demo_phdr "[]"]
      rv' demo_elf_phdrs
    by (simp add: demo_boot_def demo_phdr_def PT_LOAD_def default_rv_def MEMBASE_def)
qed

text \<open>
  C15. Without the debugger the execution loop returns exactly when the hart comes, after a
  finite number of steps, to a step that answers \<open>RV_EXIT\<close>, ends the process or faults, and it
  returns what that step leaves; the instruction counter has then counted the steps before it.
\<close>

theorem simulation_returns_iff:
  assumes "\<not> debug_en (cpu s)"
  shows "exec_loop cfg h con d s = Some r \<longleftrightarrow>
    (\<exists>n s1. runs cfg h n s s1 \<and> halts cfg h s1 r \<and>
       c_instret (csr (cpu s1)) = c_instret (csr (cpu s)) + of_nat n)"
  using exec_loop_Some_iff [OF assms] runs_count by metis

text \<open>\<open>ecall\<close> with the number of the exit service in a7, at address 0.\<close>

definition demo_end :: "unit sim" where
  "demo_end = set_cpu ((demo_rv 0x73)\<lparr>regs := (replicate 32 0)[17 := SYS_EXIT]\<rparr>) (demo_sim 0x73)"

definition demo_quiet :: "unit console" where
  "demo_quiet = \<lparr>con_gets = (\<lambda>w. (None, w)), con_out = (\<lambda>e w. w), con_below = ''x'', con_inst = 0\<rparr>"

lemma demo_end_step: "srv32_step (demo_cfg False) demo_host demo_end = Terminated 0"
proof -
  let ?c = "demo_cfg False"
  have "fetch_inst demo_host (cpu demo_end) = Done 0x73"
    using demo_read(1) [of "0x73"] read_mem_cong [of "cpu demo_end" "demo_rv 0x73" 0 4]
    by (simp add: fetch_inst_def demo_end_def)
  then obtain s1 where s1: "step_front ?c demo_host demo_end = Done (s1, 0x73, 0)"
    and cpu: "cpu s1 = count_step (step_entry ?c demo_end)"
    using front_plain [of demo_end ?c demo_host "0x73"] demo_steps [of False "0x73"]
    by (auto simp: steps_plainly_def no_interrupt_def pc_ok_def aligned_pc_def demo_end_def
        mie_set_def)
  have "srv32_read_regs ?c (cpu s1) 17 = SYS_EXIT" "debug_en (cpu s1) = False" "exitcode (cpu s1) = 0"
    by (simp_all add: cpu count_step_def Let_def srv32_cycle_add_def step_entry_def demo_end_def
        srv32_read_regs_def srv32_write_regs_def demo_defs REGNUM_def)
  then have "srv32_syscall demo_host s1 (srv32_read_regs ?c (cpu s1) 17) a b c = Terminated 0" for a b c
    by (simp add: srv32_syscall_def prog_exit_def)
  then have "exec_ecall ?c demo_host s1 = Terminated 0"
    by (simp add: exec_ecall_def Let_def SYS_def)
  moreover have "exec_inst ?c demo_host s1 0x73 False = exec_system ?c demo_host s1 0x73"
    by (simp add: exec_inst_def fld_def)
  moreover have "exec_system ?c demo_host s1 0x73 = exec_ecall ?c demo_host s1"
    by (simp add: exec_system_def exec_priv_def fld_def)
  ultimately have "exec_inst ?c demo_host s1 0x73 False = Terminated 0"
    by simp
  then show ?thesis by (simp add: srv32_step_def s1)
qed

theorem simulation_returns_witness:
  "exec_loop (demo_cfg False) demo_host demo_quiet zero_dbg demo_end = Some (Terminated 0)"
proof -
  have "\<not> debug_en (cpu demo_end)" by (simp add: demo_end_def demo_rv_def)
  moreover have "halts (demo_cfg False) demo_host demo_end (Terminated 0)"
    using demo_end_step by (rule halts_end)
  ultimately show ?thesis
    using simulation_returns_iff [of demo_end "demo_cfg False" demo_host demo_quiet zero_dbg "Terminated 0"]
    by (auto intro!: exI [of _ 0] exI [of _ demo_end])
qed

text \<open>
  C16. The debugger's command \<open>step n\<close> executes exactly \<open>n\<close> instructions before the next
  prompt, when each address that is shown can be shown and none of them is the address an
  \<open>until\<close> left behind (which is 0 if there was none, so that \<open>step\<close> stops at address 0).
\<close>

theorem debugger_steps_exactly:
  assumes "silent con" and "debug_en (cpu s)" and "\<not> running d" and "shows_pc (cpu s)"
    and "con_gets con (world s) = (Some line, w)" and "trim (con_below con) line = Done cmd"
    and "take 4 cmd = ''step''" and "1 < n" and "n < 2 ^ 31" and "scan_arg 4 cmd 1 = of_nat n"
    and "runs cfg h n (s\<lparr>world := w\<rparr>) s'"
    and "\<And>k sk. 0 < k \<Longrightarrow> k \<le> n \<Longrightarrow> runs cfg h k (s\<lparr>world := w\<rparr>) sk \<Longrightarrow>
      pc (cpu sk) \<noteq> until_pc d \<and> shows_pc (cpu sk)"
  shows "exec_loop cfg h con d s =
    exec_loop cfg h con (d\<lparr>cmd_last := cmd, count := 1, count_en := False\<rparr>) s'"
  by (rule step_command [OF assms])

text \<open>A branch to itself at address 0, under the debugger.\<close>

definition spins :: "unit sim \<Rightarrow> bool" where
  "spins s \<longleftrightarrow>
     pc (cpu s) = 0 \<and> mem (cpu s) = mem (demo_rv 0x63) \<and> mem_base (cpu s) = 0 \<and>
     mem_size (cpu s) = 64 \<and> mstatus (csr (cpu s)) = 0"

lemma demo_spin:
  assumes "spins s"
  shows "\<exists>s'. srv32_step (demo_cfg False) demo_host s = Done (s', RV_OKAY) \<and> spins s'"
proof -
  let ?c = "demo_cfg False"
  have "fetch_inst demo_host (cpu s) = Done 0x63"
    using demo_read(1) [of "0x63"] read_mem_cong [of "cpu s" "demo_rv 0x63" 0 4] assms
    by (simp add: fetch_inst_def spins_def)
  then obtain s1 where s1: "step_front ?c demo_host s = Done (s1, 0x63, 0)"
    and cpu: "cpu s1 = count_step (step_entry ?c s)"
    using front_plain [of s ?c demo_host "0x63"] assms
    by (auto simp: no_interrupt_def pc_ok_def aligned_pc_def spins_def word_sless_alt word_sle_eq)
  have "exec_inst ?c demo_host s1 0x63 False = exec_branch ?c s1 0x63"
    by (simp add: exec_inst_def fld_def)
  moreover have "spins s1"
    using assms by (simp add: spins_def cpu count_step_def Let_def srv32_cycle_add_def)
  then have "\<exists>s'. exec_branch ?c s1 0x63 = Done (s', Ret RV_OKAY) \<and> spins s'"
    by (simp add: exec_branch_def branch_cond_def fld_def to_imm_b_def Let_def spins_def
        srv32_cycle_add_def)
  ultimately show ?thesis by (auto simp: srv32_step_def s1 finish_def)
qed

lemma demo_spins: "spins s \<Longrightarrow> \<exists>s'. runs (demo_cfg False) demo_host n s s'"
proof (induction n arbitrary: s)
  case (Suc n)
  then show ?case using demo_spin [OF Suc.prems] by (metis goes_on.intros runs_Suc rvret.distinct(3))
qed (use runs_0 in blast)

lemma runs_spins: "runs (demo_cfg False) demo_host n s s' \<Longrightarrow> spins s \<Longrightarrow> spins s'"
  by (induction rule: runs.induct) (use demo_spin in \<open>force elim: goes_onE\<close>)+

definition demo_steps_console :: "unit console" where
  "demo_steps_console =
     \<lparr>con_gets = (\<lambda>w. (Some (''step 3'' @ [CHR 0x0A]), w)), con_out = (\<lambda>e w. w),
      con_below = ''x'', con_inst = 0\<rparr>"

definition demo_debugged :: "unit sim" where
  "demo_debugged =
     set_cpu ((demo_rv 0x63)\<lparr>debug_en := True, csr := demo_csrs\<lparr>mstatus := 0\<rparr>\<rparr>) (demo_sim 0x63)"

definition demo_dbg :: dbg where
  "demo_dbg = zero_dbg\<lparr>until_pc := 4\<rparr>"

theorem debugger_steps_witness:
  "\<exists>s'. runs (demo_cfg False) demo_host 3 demo_debugged s' \<and>
    exec_loop (demo_cfg False) demo_host demo_steps_console demo_dbg demo_debugged =
    exec_loop (demo_cfg False) demo_host demo_steps_console
      (demo_dbg\<lparr>cmd_last := ''step 3'', count := 1, count_en := False\<rparr>) s'"
proof -
  have w: "demo_debugged\<lparr>world := ()\<rparr> = demo_debugged" by (simp add: demo_debugged_def)
  have con: "silent demo_steps_console" "con_below demo_steps_console = ''x''"
    "con_gets demo_steps_console () = (Some (''step 3'' @ [CHR 0x0A]), ())"
    "debug_en (cpu demo_debugged)" "\<not> running demo_dbg"
    by (simp_all add: demo_steps_console_def silent_def demo_debugged_def demo_dbg_def zero_dbg_def)
  have sp: "spins demo_debugged"
    by (simp add: spins_def demo_debugged_def)
  have shown: "shows_pc (cpu s)" if "spins s" for s
    using that by (simp add: shows_pc_def spins_def srv32_read_mem_def range_check_def
        in_block_def word_sless_alt)
  obtain s' where s': "runs (demo_cfg False) demo_host 3 demo_debugged s'"
    using demo_spins [OF sp] by blast
  have "trim ''x'' (''step 3'' @ [CHR 0x0A]) = Done ''step 3''" by code_simp
  moreover have "scan_arg 4 ''step 3'' 1 = of_nat 3" by code_simp
  moreover have "pc (cpu sk) \<noteq> until_pc demo_dbg \<and> shows_pc (cpu sk)"
    if "runs (demo_cfg False) demo_host k demo_debugged sk" for k sk
    using runs_spins [OF that sp] shown by (simp add: spins_def demo_dbg_def)
  ultimately have "exec_loop (demo_cfg False) demo_host demo_steps_console demo_dbg demo_debugged =
      exec_loop (demo_cfg False) demo_host demo_steps_console
        (demo_dbg\<lparr>cmd_last := ''step 3'', count := 1, count_en := False\<rparr>) s'"
    using debugger_steps_exactly [of demo_steps_console demo_debugged demo_dbg
        "''step 3'' @ [CHR 0x0A]" "()" "''step 3''" 3 "demo_cfg False" demo_host s'] s' w shown [OF sp]
      con by simp
  then show ?thesis using s' by blast
qed

section \<open>Breakpoints and the GDB stub\<close>

text \<open>
  C17. Setting a new breakpoint on a red-black tree of breakpoints returns, keeps the tree a
  red-black search tree with right parent pointers, and adds exactly that address.
\<close>

theorem set_breakpoint_adds:
  assumes "sound_breaks g S" and "ucast addr \<notin> S"
  shows "\<exists>g'. srv_set_bp g addr BP_SOFTWARE = Some (Done (g', True)) \<and>
    sound_breaks g' (insert (ucast addr) S) \<and> sim_of g' = sim_of g \<and>
    halt g' = halt g \<and> is_interrupted g' = is_interrupted g"
  by (rule srv_set_bp_new [OF assms])

definition demo_gdb :: "unit gdb" where
  "demo_gdb =
     \<lparr>sim_of = demo_debugged, halt = False, is_interrupted = False, bp_heap = empty_heap,
      bp_root = None\<rparr>"

lemma demo_gdb_sound: "sound_breaks demo_gdb {}"
  using sound_tree_empty by (simp add: sound_breaks_def demo_gdb_def)

theorem set_breakpoint_witness:
  "\<exists>g'. srv_set_bp demo_gdb 16 BP_SOFTWARE = Some (Done (g', True)) \<and> sound_breaks g' {16}"
  using set_breakpoint_adds [OF demo_gdb_sound, of 16] by auto

text \<open>
  Setting a breakpoint twice dereferences a null pointer: the second node is not linked
  into the tree, but the repair of the colours follows its parent.
\<close>

theorem set_breakpoint_twice_faults:
  assumes "sound_breaks g S" and "ucast addr \<in> S"
  shows "srv_set_bp g addr BP_SOFTWARE = Some (Fault NullPointer)"
  by (rule srv_set_bp_twice [OF assms])

theorem set_breakpoint_twice_witness:
  "\<exists>g'. srv_set_bp demo_gdb 16 BP_SOFTWARE = Some (Done (g', True)) \<and>
    srv_set_bp g' 16 BP_SOFTWARE = Some (Fault NullPointer)"
proof -
  obtain g' where g': "srv_set_bp demo_gdb 16 BP_SOFTWARE = Some (Done (g', True))"
    "sound_breaks g' {16}"
    using srv_set_bp_new [OF demo_gdb_sound, of 16] by auto
  then show ?thesis using set_breakpoint_twice_faults [of g' "{16}" 16] by auto
qed

text \<open>
  C18. Deleting a breakpoint returns, and afterwards a search finds exactly the other ones:
  whatever the colours and the parent pointers of the tree are.
\<close>

theorem delete_breakpoint_removes:
  assumes "breaks g S"
  shows "\<exists>g'. srv_del_bp g addr BP_SOFTWARE = Some (Done (g', True)) \<and>
    breaks g' (S - {ucast addr}) \<and>
    (\<forall>k. findNode (bp_heap g') (bp_root g') k = Some (Done None) \<longleftrightarrow> k \<notin> S - {ucast addr})"
proof -
  obtain g' where g': "srv_del_bp g addr BP_SOFTWARE = Some (Done (g', True))"
    and b: "breaks g' (S - {ucast addr})"
    using srv_del_bp_removes [OF assms] by blast
  have "findNode (bp_heap g') (bp_root g') k = Some (Done None) \<longleftrightarrow> k \<notin> S - {ucast addr}" for k
    using bps.find_decides [OF b [unfolded breaks_def], of k] by auto
  then show ?thesis using g' b by blast
qed

theorem delete_breakpoint_witness:
  "\<exists>g'. srv_del_bp demo_gdb 16 BP_SOFTWARE = Some (Done (g', True)) \<and> breaks g' {}"
  using delete_breakpoint_removes [OF sound_breaks_breaks [OF demo_gdb_sound], of 16] by auto

text \<open>
  C19. A deletion leaves parent pointers that are not those of the tree. After breakpoints at
  16 and 8, the deletion of 16 and a breakpoint at 12, the two nodes are children of each
  other, and the search for address 10 does not return.
\<close>

theorem stale_parent_loops:
  "bind_comp (insertNode empty_heap None 16) (\<lambda>(h, r).
   bind_comp (insertNode h r 8) (\<lambda>(h, r).
   bind_comp (deleteNode h r 16) (\<lambda>(h, r).
   insertNode h r 12))) = Some (Done (tied_heap, Some 0)) \<and>
   findNode tied_heap (Some 0) 10 = None"
proof
  have assoc: "bind_comp (bind_comp m f) g = bind_comp m (\<lambda>x. bind_comp (f x) g)"
    for m :: "'x comp" and f :: "'x \<Rightarrow> 'y comp" and g :: "'y \<Rightarrow> 'z comp"
  proof (cases m)
    case (Some r)
    then show ?thesis by (cases r) simp_all
  qed simp
  let ?k = "\<lambda>(h, r). insertNode h r 12"
  have "bind_comp (insertNode empty_heap None 16) (\<lambda>(h, r).
      bind_comp (insertNode h r 8) (\<lambda>(h, r). bind_comp (deleteNode h r 16) ?k)) =
    bind_comp (bind_comp (insertNode empty_heap None 16) (\<lambda>(h, r).
      bind_comp (insertNode h r 8) (\<lambda>(h, r). deleteNode h r 16))) ?k"
    by (simp add: assoc split_def)
  also have "\<dots> = Some (Done (tied_heap, Some 0))"
    by (simp add: stale_run tied_run)
  finally show "bind_comp (insertNode empty_heap None 16) (\<lambda>(h, r).
      bind_comp (insertNode h r 8) (\<lambda>(h, r). bind_comp (deleteNode h r 16) ?k)) =
    Some (Done (tied_heap, Some 0))" .
qed (rule tied_search)

text \<open>
  C20. \<open>continue\<close> stops exactly at the first state whose program counter is a breakpoint or
  before which GDB interrupts, and does not return when there is none: a program that
  exits, or answers \<open>RV_EXIT\<close>, does not stop it.
\<close>

theorem continue_stops_iff:
  assumes "breaks g S" and "\<not> halt g" and "\<not> is_interrupted g"
  shows "srv_cont cfg h intr g = Some (Done (g', a)) \<longleftrightarrow>
    a = ACT_RESUME \<and> (\<exists>k s'. first_stop cfg h intr S 0 k (sim_of g) s' \<and> g' = g\<lparr>sim_of := s'\<rparr>)"
  by (rule srv_cont_iff [OF assms])

text \<open>An interrupt before the first test of the flag.\<close>

theorem continue_stops_witness:
  "srv_cont (demo_cfg False) demo_host (\<lambda>n. True) demo_gdb = Some (Done (demo_gdb, ACT_RESUME))"
  using continue_stops_iff [OF sound_breaks_breaks [OF demo_gdb_sound], of "demo_cfg False" demo_host
      "\<lambda>n. True" demo_gdb ACT_RESUME]
  by (auto simp: demo_gdb_def intro!: exI [of _ 0])

section \<open>The disassembler\<close>





text \<open>
  C23. Every index the printing uses is inside its array: the operation is an entry of
  \<open>opcode_data\<close>, and the registers are entries of the tables of names, for every word and
  every variant of the instruction set.
\<close>

theorem disassembler_in_range:
  "dec_op (disasm_decode isa a inst) < length opcode_data \<and>
   unat (dec_rd (disasm_decode isa a inst)) < length rv_ireg_name_sym \<and>
   unat (dec_rs1 (disasm_decode isa a inst)) < length rv_ireg_name_sym \<and>
   unat (dec_rs2 (disasm_decode isa a inst)) < length rv_ireg_name_sym \<and>
   unat (dec_rs3 (disasm_decode isa a inst)) < length rv_freg_name_sym"
  using disasm_decode_range [of isa a inst]
  by (simp add: length_opcode_data regs_in_range_def rv_ireg_name_sym_def rv_freg_name_sym_def)

text \<open>
  C24. In the buffer of 80 bytes of the debugger the disassembler always returns, with a line
  of at most 80 characters. The line has 80, so that the terminator is written one byte
  behind the buffer, exactly when the format prints an offset and the target address has
  more than eleven hexadecimal digits.
\<close>

theorem disassembly_overruns_iff:
  "\<exists>s. disasm_inst 80 isa a inst = Some s \<and> length s \<le> 80 \<and>
     (length s = 80 \<longleftrightarrow>
        prints_offset (disasm_decode isa a inst) \<and>
        2 ^ 44 \<le> unat (target (disasm_decode isa a inst)))"
  by (rule disasm_line_length)

section \<open>The run-time library\<close>

text \<open>
  C25. A file operation of the run-time library reaches the service of the simulator: with
  its argument block in memory, the call has the effect of the host's operation on the same
  descriptor, the memory the pointer names and the same length, and returns its result.
\<close>

theorem runtime_call_reaches_host:
  assumes "args_in_memory (cpu s) b 8" and "0 \<le> sint (mem_base (cpu s))"
  shows "guest_open h b p flags mode s =
      bind_run (host_open h (with_args s b SYS_OPEN p flags mode) (srv32_get_memptr (cpu s) p))
        answered \<and>
    guest_read h b fd p len s =
      bind_run (host_read h (with_args s b SYS_READ fd p len) fd (srv32_get_memptr (cpu s) p) len)
        answered \<and>
    guest_write h b fd p len s =
      bind_run (host_write h (with_args s b SYS_WRITE fd p len) fd (srv32_get_memptr (cpu s) p) len)
        answered \<and>
    guest_lseek h b fd off wh s =
      bind_run (host_lseek h (with_args s b SYS_LSEEK fd off wh) fd off wh) answered \<and>
    guest_close h b fd s =
      bind_run (host_close h (with_args s b SYS_CLOSE fd 0 0) fd) answered"
  using file_operations [OF assms] by simp

theorem runtime_call_reaches_host_witness:
  "\<exists>s'. guest_write demo_host 0 1 32 4 (demo_sim 0) = Done (s', Inr 4)"
proof -
  have "args_in_memory (cpu (demo_sim 0)) 0 8"
    by (simp add: args_in_memory_def)
  then have "guest_write demo_host 0 1 32 4 (demo_sim 0) =
      bind_run (host_write demo_host (with_args (demo_sim 0) 0 SYS_WRITE 1 32 4) 1
        (srv32_get_memptr (cpu (demo_sim 0)) 32) 4) answered"
    using runtime_call_reaches_host [of "demo_sim 0" 0 demo_host] by simp
  then show ?thesis
    by (simp add: host_write_def host_view_def srv32_get_memptr_def word_sless_alt demo_host_def
        block_tail_def with_args_def answered_def)
qed

text \<open>
  \<open>_exit\<close> ends the simulation for every code, and with a status that does not depend on
  the code: the exit code of the program is lost.
\<close>

theorem runtime_exit_loses_code:
  assumes "args_in_memory (cpu s) b 8" and "0 \<le> sint (mem_base (cpu s))"
  shows "guest_exit h b code s =
    Some (Terminated (if debug_en (cpu s) then 0 else exitcode (cpu s)))"
  by (rule exit_call [OF assms])

theorem runtime_exit_loses_code_witness:
  "guest_exit demo_host 0 7 (demo_sim 0) = Some (Terminated 0)"
  using runtime_exit_loses_code [of "demo_sim 0" 0 demo_host 7]
  by (simp add: args_in_memory_def) (simp add: demo_rv_def)

text \<open>
  C26. The blocks \<open>_sbrk\<close> grants to successive requests lie between the end of the program
  and the stack, each behind the one before, when no request is negative or so large that
  the top of the heap overflows.
\<close>

theorem sbrk_blocks_disjoint:
  assumes "0 < sint e" and "sint e < sint t" and "list_all (fair_request t) ns"
  shows "(\<forall>(p, n) \<in> set (granted (sbrk_calls e t 0 ns)). sint e \<le> sint p \<and> sint p + sint n < sint t) \<and>
    sorted_wrt (\<lambda>(p, n) (q, m). sint p + sint n \<le> sint q) (granted (sbrk_calls e t 0 ns))"
  using sbrk_calls_disjoint [of e 0 t ns] assms by (simp add: heap_top_def)

theorem sbrk_blocks_disjoint_witness:
  "granted (sbrk_calls 0x1000 0x8000 0 [16, 0x7000, 32]) = [(0x1000, 16), (0x1010, 32)] \<and>
   sint (0x1010 :: i32) + sint (32 :: i32) < sint (0x8000 :: i32)"
proof -
  have g: "granted (sbrk_calls 0x1000 0x8000 0 [16, 0x7000, 32]) = [(0x1000, 16), (0x1010, 32)]"
    by (simp add: sbrk_def word_sle_eq Let_def)
  have "sint (0x1010 :: i32) + sint (32 :: i32) < sint (0x8000 :: i32)"
    using sbrk_blocks_disjoint [of "0x1000" "0x8000" "[16, 0x7000, 32]"]
    unfolding g by (simp add: fair_request_def)
  with g show ?thesis ..
qed

section \<open>The loader of the test bench\<close>

text \<open>
  C27. The loader of the test bench, with two blocks of \<open>M\<close> bytes, succeeds exactly when the
  loader of the simulator succeeds with one block of twice the size and no segment straddles
  the border of the blocks; the blocks then are the two halves of the memory of the simulator.
\<close>

theorem test_bench_loads_same_program:
  assumes "twin_geometry M rv"
  shows "elfread M (Some (contents rv)) (Some file) = Done (imem, dmem) \<longleftrightarrow>
    (\<exists>rv'. elfloader (Some file) rv = Done (rv', True) \<and> imem @ dmem = contents rv' \<and>
      length imem = nat (sint M)) \<and>
    list_all (\<lambda>ph. \<not> straddles M ph) (elf_phdrs file)"
  by (rule elfread_twin [OF assms])

definition twin_rv :: rv where
  "twin_rv = demo_boot\<lparr>mem := (\<lambda>_. 0), mem_base := 0, mem_size := 16\<rparr>"

definition twin_loaded :: rv where
  "twin_loaded = block_store twin_rv 0 [0x93, 0, 0x50, 0]"

lemma twin_elf_loads: "elfloader (Some demo_elf) twin_rv = Done (twin_loaded, True)"
proof -
  have "srv32_write_mem twin_rv 0 4 [0x93, 0, 0x50, 0] = Done (Some twin_loaded)"
    by (simp add: srv32_write_mem_def twin_loaded_def in_block_def range_check_def twin_rv_def
        word_sless_alt)
  then show ?thesis
    using demo_elf_segment by (simp add: demo_elf_loads demo_phdr_def load_segment_def PT_LOAD_def)
qed

lemma twin_contents:
  "contents twin_rv = replicate 16 0"
  "contents twin_loaded = [0x93, 0, 0x50, 0, 0, 0, 0, 0] @ replicate 8 0"
  by (simp_all add: contents_def twin_rv_def twin_loaded_def block_store_def upt_rec_numeral
      numeral_eq_Suc)

theorem test_bench_loads_witness:
  "elfread 8 (Some (replicate 16 0)) (Some demo_elf) =
     Done ([0x93, 0, 0x50, 0, 0, 0, 0, 0], replicate 8 0)"
proof -
  have "twin_geometry 8 twin_rv" by (simp add: twin_geometry_def twin_rv_def)
  moreover have "\<not> straddles 8 demo_phdr" by (simp add: straddles_def demo_phdr_def word_sless_alt)
  ultimately show ?thesis
    using test_bench_loads_same_program [of 8 twin_rv demo_elf "[0x93, 0, 0x50, 0, 0, 0, 0, 0]"
        "replicate 8 0"] twin_elf_loads demo_elf_phdrs
    unfolding twin_contents(1) by (auto simp: twin_contents(2))
qed

section \<open>CoreMark\<close>

text \<open>
  C28. The CRC of a sequence of 16-bit values is the remainder of the polynomial of their bits,
  from the lowest bit of the first value on, by the generator \<open>x^16 + x^15 + x^2 + 1\<close>, in the
  ring of polynomials over the field of two elements; the start value is added to the first
  16 coefficients.
\<close>

theorem crc_is_remainder:
  "\<exists>q r. gf2_times (concat (map (low_bits 16) vs)) (2 ^ 16)
        XOR push_bit (16 * length vs) (reflected c) = gf2_times q 0x18005 XOR r \<and>
     0 \<le> r \<and> r < 2 ^ 16 \<and> r = reflected (foldl (\<lambda>c v. crc16 v c) c vs)"
proof -
  have "foldl crc_bit c (concat (map (low_bits 16) vs)) = foldl (\<lambda>c v. crc16 v c) c vs"
    by (induction vs arbitrary: c) (simp_all add: crc16_def crcu16_bits)
  moreover have "length (concat (map (low_bits 16) vs)) = 16 * length vs"
    by (induction vs) (simp_all add: low_bits_def)
  ultimately show ?thesis
    using crc_remainder [of "concat (map (low_bits 16) vs)" c] reflected_bounds
    by (auto simp: crc_generator_def)
qed

text \<open>
  C29. The state machine reads a token up to the comma or the end of the input, or, when the
  token cannot be continued to a number, up to where it sees this. Its final state is that of
  integers, of numbers with a point or of numbers with an exponent exactly for the tokens of
  these three grammars, and the state \<open>CORE_INVALID\<close> exactly for those that no continuation
  makes a number.
\<close>

theorem number_classified:
  assumes "0 \<notin> set w" and "COMMA \<notin> set w" and "d = 0 \<or> d = COMMA"
  shows "\<exists>st t' rest'. core_state_transition (w @ d # rest) t = Done (st, t', rest') \<and>
    (st = CORE_INT \<longleftrightarrow> int_literal w) \<and> (st = CORE_FLOAT \<longleftrightarrow> float_literal w) \<and>
    (st = CORE_SCIENTIFIC \<longleftrightarrow> sci_literal w) \<and>
    (st = CORE_INVALID \<longleftrightarrow> (\<forall>v. \<not> number_literal (w @ v)))"
proof -
  obtain st t' rest' where run: "core_state_transition (w @ d # rest) t = Done (st, t', rest')"
    using token_ends [OF assms(3)] unfolding core_state_transition_def by blast
  then have "st = state_after CORE_START w"
    using core_state_loop_token [OF assms] by (simp add: core_state_transition_def)
  then show ?thesis
    using run int_recognised [of w] float_recognised [of w] sci_recognised [of w]
      accepted_prefix [of w] by simp
qed

text \<open>\<open>-.5e+3,7\<close>\<close>

theorem number_classified_witness:
  "\<exists>t' rest'. core_state_transition [0x2d, 0x2e, 0x35, 0x65, 0x2b, 0x33, COMMA, 0x37] (\<lambda>_. 0) =
    Done (CORE_SCIENTIFIC, t', rest')"
proof -
  let ?w = "[0x2d, 0x2e, 0x35, 0x65, 0x2b, 0x33] :: u8 list"
  have "state_after CORE_START ?w = CORE_SCIENTIFIC" by code_simp
  then have "sci_literal ?w" by (simp only: sci_recognised)
  then show ?thesis
    using number_classified [of ?w COMMA "[0x37]" "\<lambda>_. 0"] by auto
qed

text \<open>
  The loops that change every \<open>step\<close>-th byte of the input return it to what it was exactly
  when no byte they reach is changed into a comma, which the second loop would not touch.
\<close>

theorem corruption_undone_iff:
  assumes "0 < sint step" and "length blk = unat blksize"
  shows "bind_comp (core_state_corrupt blk 0 blksize seed step)
      (\<lambda>blk'. core_state_corrupt blk' 0 blksize seed step) = Some (Done blk) \<longleftrightarrow>
    (\<forall>i < length blk. nat (sint step) dvd i \<longrightarrow> blk ! i = COMMA \<or> blk ! i XOR ucast seed \<noteq> COMMA)"
  using core_state_corrupt_eq [OF assms, of 0 seed] assms
    core_state_corrupt_eq [OF assms(1), of "corrupted 0 (nat (sint step)) seed blk" blksize 0 seed]
    corrupted_twice [of "nat (sint step)" seed blk]
  by simp

theorem corruption_undone_witness:
  "bind_comp (core_state_corrupt [0x39, 0, 0] 0 3 0x15 2)
     (\<lambda>blk'. core_state_corrupt blk' 0 3 0x15 2) \<noteq> Some (Done [0x39, 0, 0])"
  using corruption_undone_iff [of 2 "[0x39, 0, 0]" 3 "0x15"] by auto

text \<open>
  C30. On square matrices that are in their arrays the product is the product modulo \<open>2^32\<close>,
  row by row, what is behind it stays, and the test ends with the matrix \<open>A\<close> as it was.
\<close>

theorem matrix_product_correct:
  assumes "square N n" and "n * n \<le> length C" and "n * n \<le> length A" and "n * n \<le> length B"
  shows "(\<exists>C'. matrix_mul_matrix N C A B = Done C' \<and> length C' = length C \<and>
      (\<forall>i < n. \<forall>j < n. C' ! (i * n + j) = (\<Sum>k<n. scast (A ! (i * n + k)) * scast (B ! (k * n + j)))) \<and>
      drop (n * n) C' = drop (n * n) C) \<and>
    (\<exists>crc C'. matrix_test N C A B val = Done (crc, A, C') \<and> length C' = length C)"
proof -
  let ?C = "replaced (n * n) (\<lambda>p _. matrix_product n (\<lambda>v. v) A B p) C"
  have "?C ! (i * n + j) = (\<Sum>k<n. scast (A ! (i * n + k)) * scast (B ! (k * n + j)))"
    if "i < n" "j < n" for i j
    using cell_eq [OF assms(1,1) that] assms(2) by (simp add: nth_replaced matrix_product_def)
  moreover have "drop (n * n) ?C = drop (n * n) C"
    using assms(2) by (intro nth_equalityI) (simp_all add: nth_replaced)
  ultimately show ?thesis
    using mul_matrix_eq [OF assms] matrix_test_restores [OF assms] by simp
qed

theorem matrix_product_witness:
  "\<exists>C'. matrix_mul_matrix 2 [0, 0, 0, 0, 9] [1, 2, 3, 4] [5, 6, 7, 0xffff] = Done C' \<and>
    C' ! 3 = 14 \<and> drop 4 C' = [9]"
proof -
  have "square 2 2" by (simp add: square_def)
  from matrix_product_correct [OF this, of "[0, 0, 0, 0, 9]" "[1, 2, 3, 4]" "[5, 6, 7, 0xffff]" 0]
  obtain C' where C': "matrix_mul_matrix 2 [0, 0, 0, 0, 9] [1, 2, 3, 4] [5, 6, 7, 0xffff] = Done C'"
    "\<forall>i < 2. \<forall>j < 2. C' ! (i * 2 + j) =
      (\<Sum>k<2. scast ([1, 2, 3, 4] ! (i * 2 + k) :: u16) * scast ([5, 6, 7, 0xffff] ! (k * 2 + j) :: u16))"
    "drop 4 C' = [9]" by auto
  from C'(2) [rule_format, of 1 1] have "C' ! 3 = 14"
    by (simp add: numeral_2_eq_2 numeral_3_eq_3)
  with C' show ?thesis by blast
qed

text \<open>
  For a block at an aligned address the three matrices are in the block, one behind the
  other, with as many elements as the dimension asks for.
\<close>

theorem matrices_fit_block:
  assumes "unat memblk mod 4 = 0" and "memblk \<noteq> 0" and "0 < unat blksize" and "unat blksize < 2 ^ 30"
    and "unat memblk + unat blksize < 2 ^ 32"
  shows "\<exists>p n a b c. core_init_matrix blksize seed c0 = Some p \<and> square (mat_N p) n \<and>
    length (mat_A p) = n * n \<and> length (mat_B p) = n * n \<and>
    matrix_layout memblk (mat_N p) = (a, b, c) \<and> unat memblk \<le> unat a \<and>
    unat a + 2 * (n * n) \<le> unat b \<and> unat b + 2 * (n * n) \<le> unat c \<and>
    unat c + 4 * (n * n) \<le> unat memblk + unat blksize"
proof -
  obtain p where p: "core_init_matrix blksize seed c0 = Some p"
    "8 * (unat (mat_N p) * unat (mat_N p)) < unat blksize" "square (mat_N p) (unat (mat_N p))"
    "length (mat_A p) = unat (mat_N p) * unat (mat_N p)"
    "length (mat_B p) = unat (mat_N p) * unat (mat_N p)"
    using core_init_matrix_fits [OF assms(3,4)] by blast
  obtain a b c where "matrix_layout memblk (mat_N p) = (a, b, c)" by (metis surj_pair)
  then show ?thesis
    using matrix_layout_fits [OF assms(1,2,5) less_imp_le [OF p(2)]] p by auto
qed

theorem matrices_fit_witness:
  "\<exists>p n a b c. core_init_matrix 666 1 [0] = Some p \<and> square (mat_N p) n \<and>
    matrix_layout 0x1000 (mat_N p) = (a, b, c) \<and> unat c + 4 * (n * n) \<le> 0x1000 + 666"
  using matrices_fit_block [of "0x1000" 666 1 "[0]"] by auto

text \<open>
  C31. The merge sort with the comparison that computes the values of the items while it sorts
  returns, and what it returns is a list of the same items, sorted by value; the list keeps
  the data it points to, and the inputs of the benchmark, with the state machine's input and
  the matrices that the computation uses, are unchanged.
\<close>

theorem mergesort_sorts_by_value:
  assumes "bench_ready m" and "item_list m p xs" and "xs \<noteq> []"
  shows "\<exists>p' m' ys. core_list_mergesort m p cmp_complex = Some (Done (p', m')) \<and>
    item_list m' p' ys \<and> mset ys = mset xs \<and>
    sorted_wrt (\<lambda>a b. item_value m' a \<le> item_value m' b) ys \<and>
    bench_ready m' \<and> inputs m' = inputs m \<and> map lh_info (heads m') = map lh_info (heads m)"
  using mergesort_by_value [OF assms] by blast

text \<open>Three items, of which the first has a value that is not computed yet.\<close>

definition demo_results :: core_results where
  "demo_results =
     \<lparr>res_seed1 = 0, res_seed2 = 0, res_seed3 = 0x66, res_state = [0, 0], res_size = 2,
      res_iterations = 4, res_execs = 7, res_list = Some 0,
      res_mat = \<lparr>mat_N = 0, mat_A = [], mat_B = [], mat_C = []\<rparr>,
      res_crc = 0, res_crclist = 0, res_crcmatrix = 0, res_crcstate = 0, res_err = 0,
      heads = [\<lparr>lh_next = Some 1, lh_info = 0\<rparr>, \<lparr>lh_next = Some 2, lh_info = 1\<rparr>,
               \<lparr>lh_next = None, lh_info = 2\<rparr>],
      datas = [\<lparr>data16 = 5, idx = 0\<rparr>, \<lparr>data16 = 0x83, idx = 1\<rparr>, \<lparr>data16 = 0x84, idx = 2\<rparr>]\<rparr>"

theorem mergesort_sorts_witness:
  "\<exists>p' m' ys. core_list_mergesort demo_results (Some 0) cmp_complex = Some (Done (p', m')) \<and>
    item_list m' p' ys \<and> mset ys = mset [0, 1, 2] \<and>
    sorted_wrt (\<lambda>a b. item_value m' a \<le> item_value m' b) ys"
proof -
  have "bench_ready demo_results"
    by (simp add: bench_ready_def demo_results_def ends_in_zeros_def survives_def mat_ok_def square_def)
  moreover have "item_list demo_results (Some 0) [0, 1, 2]"
    by (simp add: item_list_def demo_results_def)
  ultimately show ?thesis
    using mergesort_sorts_by_value [of demo_results "Some 0" "[0, 1, 2]"] by blast
qed

text \<open>
  C32. For the three kinds of run of the port and any number of iterations (or, when the number
  is to be determined, a clock that comes to a second) the program runs to its check: it
  reads and writes only inside its blocks, follows no null pointer, every loop ends, and the
  inputs of all three algorithms are at the end what the initialisation made them. The check
  knows the parameters of the performance and the validation run, and not those of the
  profile run.
\<close>

theorem coremark_runs:
  assumes "stack_blocks m" and "iterations \<noteq> 0 \<or> \<not> ticks d <s 100000000"
  shows "\<exists>m0 m'. core_setup (seed_volatile k iterations) m = Some (Done m0) \<and>
    coremark_main z (seed_volatile k iterations) ticks m = Some (Done (check_results z m')) \<and>
    inputs m' = inputs m0 \<and> known_id (seed_crc m') = run_id k"
  using coremark_main_returns [OF assms(1), of iterations ticks d k z] assms(2) by blast

definition demo_stack :: core_results where
  "demo_stack = demo_results
     \<lparr>res_state := replicate 666 0xa5, res_mat := \<lparr>mat_N = 0, mat_A = [], mat_B = [], mat_C = replicate 83 7\<rparr>,
      heads := replicate 31 \<lparr>lh_next = None, lh_info = 9\<rparr>,
      datas := replicate 31 \<lparr>data16 = 1, idx = 2\<rparr>\<rparr>"

definition demo_sizes :: sizes where
  "demo_sizes = \<lparr>size_u8 = 1, size_u16 = 2, size_s16 = 2, size_s32 = 4, size_u32 = 4,
     size_ptr_int = 4, size_int_ptr = 4\<rparr>"

theorem coremark_runs_witness:
  "\<exists>m'. coremark_main demo_sizes (seed_volatile PERFORMANCE_RUN 4) (\<lambda>_. 0) demo_stack =
      Some (Done (check_results demo_sizes m')) \<and> known_id (seed_crc m') = Some 3"
proof -
  have "stack_blocks demo_stack" by (simp add: stack_blocks_def demo_stack_def)
  from coremark_runs [OF this, of 4 "\<lambda>_. 0" 0 PERFORMANCE_RUN demo_sizes]
  show ?thesis by (auto simp: run_id_def)
qed

section \<open>Dhrystone\<close>

text \<open>
  C33. For every number of runs the program returns, and the final values of its variables are
  those it prints as the ones they should have: in particular the counter in the second array
  is the number of runs plus 10, whatever the two blocks that \<open>malloc\<close> returned and the
  uninitialised variables held.
\<close>

theorem dhrystone_values:
  assumes "a \<noteq> b" and "a < length rs" and "b < length rs" and "0 < sint n"
  shows "\<exists>ls. dhry_main n g (Some a) (Some b) rs l = Some (Done ls) \<and> should_be a b n ls"
  by (rule dhry_main_values [OF assms])

definition demo_locs :: locs where
  "demo_locs = \<lparr>Int_1_Loc = 77, Int_2_Loc = 77, Int_3_Loc = 77, Enum_Loc = Ident_5, Str_1_Loc = [],
     Str_2_Loc = []\<rparr>"

theorem dhrystone_values_witness:
  "\<exists>l s. dhry_main 100 (0, Ident_4) (Some 0) (Some 1) [rec_a 7, rec_b 7] demo_locs = Some (Done (l, s)) \<and>
    Arr_2_Glob s ! 8 ! 7 = 110 \<and> Int_Comp (recs s ! 0) = 18"
proof -
  from dhrystone_values [of 0 1 "[rec_a 7, rec_b 7]" 100 "(0, Ident_4)" demo_locs]
  show ?thesis by (auto simp: should_be_def rec_a_def)
qed

section \<open>SciMark\<close>

text \<open>
  A machine for the examples: exact arithmetic, enough memory, and a counter that wraps around
  after every third reading.
\<close>

definition demo_plat :: "real plat" where
  "demo_plat = real_plat (\<lambda>_. True) (\<lambda>k. of_nat (k mod 3) * 2000)"

definition demo_env :: env where
  "demo_env = \<lparr>mallocs = 0, live = 0, reads = 0\<rparr>"

text \<open>
  C34. The random numbers on a new generator are the images of a lagged Fibonacci sequence: each
  element is the difference, modulo \<open>2^31 - 1\<close>, of the elements 5 and 17 places before it, and
  the first 17 are the powers of 9069 times the odd seed modulo \<open>2^31\<close>, the last power first.
  Only the conversion to a \<open>double\<close> depends on the arithmetic.
\<close>

theorem random_numbers_lagged_fibonacci:
  assumes "seed \<noteq> 0" "sint seed \<noteq> - (2 ^ 31)" "has_memory P"
  shows "\<exists>R e1 ks R' e2. new_Random_seed P seed e = Done (R, e1) \<and>
    RandomVector P N R e1 = Done (Some (map (\<lambda>k. f_mul P (dm1 P) (f_int P k)) ks), R', e2) \<and>
    map sint ks = lagged_fibonacci (turns N) (rev (first_elements seed))"
proof -
  have ok: "fst (malloc P e)" "fst (malloc P (snd (malloc P e)))"
    using malloc_eq [OF assms(3)] by simp_all
  obtain R where R: "new_Random_seed P seed e = Done (R, snd (malloc P e))" "random_ok R"
    "history R = rev (first_elements seed)" "scaled P R = (\<lambda>k. f_mul P (dm1 P) (f_int P k))"
    using new_Random_seed_run [OF assms(1,2) ok(1)] by blast
  then show ?thesis
    using RandomVector_run [OF R(2) ok(2), of N] by auto
qed

theorem random_numbers_witness:
  "\<exists>R e1 ks R' e2. new_Random_seed demo_plat 113 demo_env = Done (R, e1) \<and>
    RandomVector demo_plat 2 R e1 = Done (Some (map (\<lambda>k. f_mul demo_plat (dm1 demo_plat) (f_int demo_plat k)) ks), R', e2) \<and>
    map sint ks = lagged_fibonacci 2 (rev (first_elements 113))"
proof -
  have "has_memory demo_plat" by (simp add: has_memory_def demo_plat_def real_plat_def)
  moreover have "turns 2 = 2" by (simp add: turns_def)
  ultimately show ?thesis
    using random_numbers_lagged_fibonacci [of 113 demo_plat demo_env 2] by simp
qed

text \<open>
  C35. \<open>FFT_transform\<close> computes the recursive transform of Cooley and Tukey: it reverses the bits
  of the positions and combines in place, with the same operations on the same operands. This
  holds for any arithmetic, so that all rounding is included.
\<close>

theorem fft_is_cooley_tukey:
  assumes "l \<le> 29" "length data = 2 * 2 ^ l"
  shows "\<exists>data'. FFT_transform P (2 ^ Suc l) data = Some (Done data') \<and> length data' = 2 * 2 ^ l \<and>
    (\<forall>p < 2 ^ l. cplx data' p = cooley_tukey P (- 1) l (cplx data) p)"
  unfolding FFT_transform_def by (rule FFT_transform_internal_run [OF assms])

theorem fft_cooley_tukey_witness:
  "\<exists>data'. FFT_transform demo_plat 4 [1, 2, 3, 4] = Some (Done data') \<and>
    cplx data' 0 = (4, 6) \<and> cplx data' 1 = (- 2, - 2)"
proof -
  obtain data' where "FFT_transform demo_plat 4 [1, 2, 3, 4] = Some (Done data')"
    and "\<forall>p < 2 ^ 1. cplx data' p = cooley_tukey demo_plat (- 1) 1 (cplx [1, 2, 3, 4]) p"
    using fft_is_cooley_tukey [of 1 "[1, 2, 3, 4]" demo_plat] by auto
  then have "cplx data' 0 = cooley_tukey demo_plat (- 1) (Suc 0) (cplx [1, 2, 3, 4]) 0"
    "cplx data' 1 = cooley_tukey demo_plat (- 1) (Suc 0) (cplx [1, 2, 3, 4]) 1"
    by simp_all
  with \<open>FFT_transform demo_plat 4 [1, 2, 3, 4] = Some (Done data')\<close> show ?thesis
    by (simp add: Let_def cadd_def csub_def twiddle_def cplx_def demo_plat_def real_plat_def)
qed

text \<open>
  C36. Apart from rounding, \<open>FFT_transform\<close> is the discrete Fourier transform, and
  \<open>FFT_inverse\<close> recovers the data from it.
\<close>

theorem fft_inverse_recovers:
  assumes "l \<le> 29" "length data = 2 * 2 ^ l"
  shows "\<exists>data'. FFT_transform (real_plat ok clk) (2 ^ Suc l) data = Some (Done data') \<and>
    (\<forall>p < 2 ^ l. cx (cplx data' p) = (\<Sum>t<2 ^ l. cx (cplx data t) * cis (- (2 * pi * p * t / 2 ^ l)))) \<and>
    FFT_inverse (real_plat ok clk) (2 ^ Suc l) data' = Some (Done data)"
proof -
  have "dft (2 ^ l) (- 1) f p = (\<Sum>t<2 ^ l. f t * cis (- (2 * pi * p * t / 2 ^ l)))" for f and p :: nat
    unfolding dft_def turn_def by (intro sum.cong refl) (simp add: mult.commute)
  then show ?thesis
    using FFT_transform_exact [OF assms, of ok clk] FFT_roundtrip [OF assms, of ok clk] by auto
qed

theorem fft_inverse_witness:
  "\<exists>data'. FFT_transform demo_plat 4 [1, 2, 3, 4] = Some (Done data') \<and>
    FFT_inverse demo_plat 4 data' = Some (Done [1, 2, 3, 4])"
  using fft_inverse_recovers [of 1 "[1, 2, 3, 4]" "\<lambda>_. True" "\<lambda>k. of_nat (k mod 3) * 2000"]
  by (auto simp: demo_plat_def)

text \<open>
  C37. Apart from rounding, \<open>LU_factor\<close> with the result 0 leaves the two triangular factors of
  the matrix with its rows exchanged as the pivots say, and no element of the lower factor is
  greater than 1. The result 1 means that a column is 0 from the diagonal on.
\<close>

theorem lu_factors:
  assumes "shaped (turns M) (turns N) A" "min (turns M) (turns N) \<le> length pivot"
  shows "\<exists>c A' pivot'. LU_factor (real_plat ok clk) M N A pivot = Done (c, A', pivot') \<and>
    (c = 0 \<and>
       (\<forall>i < turns M. \<forall>j < turns N. pivoted pivot' (min (turns M) (turns N)) A ! i ! j =
          (\<Sum>k<min (turns M) (turns N). lower A' i k * upper A' k j)) \<and>
       (\<forall>i < turns M. \<forall>k < min (turns M) (turns N). \<bar>lower A' i k\<bar> \<le> 1) \<or>
     c = 1 \<and> (\<exists>k < min (turns M) (turns N). \<forall>i. k \<le> i \<and> i < turns M \<longrightarrow> A' ! i ! k = 0))"
proof -
  obtain c A' pivot' where r: "LU_factor (real_plat ok clk) M N A pivot = Done (c, A', pivot')"
    and d: "c = 0 \<and> progress (turns M) (turns N) (min (turns M) (turns N)) A pivot' A' \<or>
      c = 1 \<and> (\<exists>k < min (turns M) (turns N). progress (turns M) (turns N) k A pivot' A' \<and>
        (\<forall>i. k \<le> i \<and> i < turns M \<longrightarrow> A' ! i ! k = 0))"
    using LU_factor_exact [OF assms, of ok clk] by (elim exE conjE)
  from d show ?thesis
  proof (elim disjE conjE)
    assume c: "c = 0" and p: "progress (turns M) (turns N) (min (turns M) (turns N)) A pivot' A'"
    have "\<bar>lower A' i k\<bar> \<le> 1" if "i < turns M" "k < min (turns M) (turns N)" for i k
      using p that by (auto simp: progress_def multipliers_ok_def lower_def)
    moreover have "pivoted pivot' (min (turns M) (turns N)) A ! i ! j =
        (\<Sum>k<min (turns M) (turns N). lower A' i k * upper A' k j)" if "i < turns M" "j < turns N" for i j
      using p factored_all [OF _ that] by (simp only: progress_def)
    ultimately show ?thesis using r c by blast
  qed (use r in blast)
qed

theorem lu_factors_witness:
  "\<exists>A' pivot'. LU_factor demo_plat 2 2 [[1, 2], [3, 4]] [0, 0] = Done (0, A', pivot') \<and>
    pivoted pivot' 2 [[1, 2], [3, 4]] ! 1 ! 1 = lower A' 1 0 * upper A' 0 1 + lower A' 1 1 * upper A' 1 1"
proof -
  have t: "turns 2 = 2" by (simp add: turns_def)
  have s: "shaped (turns 2) (turns 2) [[1, 2], [3, 4 :: real]]" by (simp add: shaped_def t)
  obtain c A' pivot' where r: "LU_factor demo_plat 2 2 [[1, 2], [3, 4]] [0, 0] = Done (c, A', pivot')"
    and d: "c = 0 \<and> (\<forall>i < 2. \<forall>j < 2. pivoted pivot' 2 [[1, 2], [3, 4]] ! i ! j =
          (\<Sum>k<2. lower A' i k * upper A' k j)) \<or>
      c = 1 \<and> (\<exists>k < 2. \<forall>i. k \<le> i \<and> i < 2 \<longrightarrow> A' ! i ! k = 0)"
    using lu_factors [OF s, of "[0, 0]" "\<lambda>_. True" "\<lambda>k. of_nat (k mod 3) * 2000"]
    by (auto simp: t demo_plat_def)
  have "LU_factor demo_plat 2 2 [[1, 2], [3, 4]] [0, 0] = Done (0, [[3, 4], [1 / 3, 2 / 3]], [1, 1])"
    by (simp add: LU_factor_def t upt_rec [of _ 2] find_pivot_def pivot_step_def get2_def put2_def get_at_def
        put_at_def demo_plat_def real_plat_def swap_rows_def scale_column_def update_rest_def update_row_def Let_def)
  then have "c = 0" "pivoted pivot' 2 [[1, 2], [3, 4]] ! 1 ! 1 = (\<Sum>k<2. lower A' 1 k * upper A' k 1)"
    using r d by auto
  then show ?thesis using r by (auto simp: numeral_2_eq_2)
qed

text \<open>
  C38. Apart from rounding, \<open>SparseCompRow_matmult\<close> multiplies with the dense matrix that the
  three arrays stand for.
\<close>

theorem sparse_product_correct:
  assumes "csr_ok (turns M) (length x) val rowp col" "length y = turns M" "0 < turns iterations"
  shows "SparseCompRow_matmult (real_plat ok clk) M y val rowp col x iterations =
    Done (map (\<lambda>r. \<Sum>c<length x. dense val rowp col r c * x ! c) [0..<turns M])"
  unfolding matmult [OF assms]
  by (simp add: row_sum_exact [OF assms(1)])

theorem sparse_product_witness:
  "SparseCompRow_matmult demo_plat 2 [0, 0] [5, 7] [0, 1, 2] [1, 0] [2, 3] 1 = Done [15, 14]"
proof -
  have "csr_ok (turns 2) (length [2, 3 :: real]) [5, 7 :: real] [0, 1, 2] [1, 0]"
    by (auto simp: csr_ok_def turns_def less_2_cases_iff less_Suc_eq)
  from sparse_product_correct [OF this, of "[0, 0]" 1 "\<lambda>_. True" "\<lambda>k. of_nat (k mod 3) * 2000"]
  show ?thesis
    by (simp add: turns_def demo_plat_def dense_def row_entries_def upt_rec numeral_2_eq_2 upto.simps lessThan_Suc)
qed

text \<open>
  C39. With memory, and a clock on which some run takes the time asked for, SciMark returns its
  six scores: no kernel accesses anything outside its arrays, ends the program or runs for
  ever, for the small and the large sizes, and every block is freed at the end.
\<close>

theorem scimark_returns:
  assumes "has_memory P" "parse_args P atof argv = Some (z, min_time)" "clock_passes P min_time"
  shows "\<exists>res e'. scimark_main P atof argv e = Some (Done (res, e')) \<and> length res = 6 \<and> live e' = live e"
  using scimark_main_done [OF assms] .

theorem scimark_returns_witness:
  "\<exists>res e'. scimark_main demo_plat (\<lambda>_. 0) [''scimark2''] demo_env = Some (Done (res, e')) \<and>
    length res = 6 \<and> live e' = 0"
proof -
  have r: "reading demo_plat k = real (k mod 3) * 2000 / 100000" for k
  proof -
    have "k mod 3 < 3" by simp
    then have "k mod 3 = 0 \<or> k mod 3 = 1 \<or> k mod 3 = 2" by linarith
    then show ?thesis
      by (auto simp: reading_def demo_plat_def real_plat_def CLOCKS_PER_SEC_def)
  qed
  have "\<exists>i. 1 / 100 \<le> elapsed demo_plat (k + 2 * i)" for k
  proof -
    have "k mod 3 < 3" by simp
    then have "k mod 3 = 0 \<or> k mod 3 = 1 \<or> k mod 3 = 2" by linarith
    then have "(k + 2 * 0) mod 3 < 2 \<or> (k + 2 * 1) mod 3 < 2" by presburger
    then obtain i where "(k + 2 * i) mod 3 < 2" by blast
    then have "(k + 2 * i + 1) mod 3 = (k + 2 * i) mod 3 + 1" by presburger
    then have "elapsed demo_plat (k + 2 * i) = 2000 / 100000"
      unfolding elapsed_def r by (simp add: demo_plat_def real_plat_def field_simps)
    then show ?thesis by (intro exI [of _ i]) simp
  qed
  then have "clock_passes demo_plat (RESOLUTION_DEFAULT demo_plat)"
    by (simp add: clock_passes_def RESOLUTION_DEFAULT_def demo_plat_def real_plat_def literal_def
        power_int_minus)
  moreover have "has_memory demo_plat" by (simp add: has_memory_def demo_plat_def real_plat_def)
  moreover have "parse_args demo_plat (\<lambda>_. 0) [''scimark2''] = Some (small_sizes, RESOLUTION_DEFAULT demo_plat)"
    by (simp add: parse_args_def)
  ultimately show ?thesis
    using scimark_returns [of demo_plat "\<lambda>_. 0" "[''scimark2'']" small_sizes _ demo_env]
    by (simp add: demo_env_def)
qed


section \<open>The digits of \<open>pi\<close>\<close>

text \<open>
  C40. \<open>pi.c\<close> returns after 200 numbers, without an overflow and without an access outside its
  array. Each number stands for four digits, and together they are \<open>pi\<close> times \<open>10 ^ 799\<close> with an
  error of at most 1.03: the first 800 digits of \<open>pi\<close>, of which the last may be one too low.
\<close>

theorem pi_digits_printed:
  "\<exists>out. pi_main = Some (Done out) \<and> length out = 200 \<and> (\<forall>n \<in> set out. 0 \<le> sint n \<and> sint n \<le> 10001) \<and>
    groups_value out \<le> pi * 10 ^ 799 \<and> pi * 10 ^ 799 < groups_value out + 103 / 100"
  by (rule pi_main_run)

theorem pi_digits_witness:
  "\<exists>out. pi_main = Some (Done out) \<and> length out = 200 \<and> sint (hd out) = 3141"
proof -
  obtain out where "pi_main = Some (Done out)" "length out = 200"
    "\<forall>n \<in> set out. 0 \<le> sint n \<and> sint n \<le> 10001"
    "groups_value out \<le> pi * 10 ^ 799" "pi * 10 ^ 799 < groups_value out + 103 / 100"
    using pi_digits_printed by blast
  then show ?thesis using first_group by blast
qed

end
